(* ===== verification/Maya_Prelude.thy ===== *)
theory Maya_Prelude
  imports Main "HOL-Library.Word" "HOL-Library.Multiset"
begin

unbundle bit_operations_syntax

text \<open>
  Shared vocabulary of the development: the C integer types as words, the fault values of
  the kernel, the search loop over a fixed table, the contents of a circular buffer, byte
  order and alignment arithmetic. Nothing here models a single source file; every component
  theory builds on it.
\<close>

section \<open>C integer types and faults\<close>

type_synonym u8 = "8 word"
type_synonym u16 = "16 word"
type_synonym u32 = "32 word"
type_synonym u64 = "64 word"
type_synonym ptr = "32 word"

abbreviation (input) NULL :: ptr where "NULL \<equiv> 0"

text \<open>
  What can happen to a C function besides returning: a null pointer or a pointer to memory
  that was released is dereferenced, a busy loop never ends because nobody else runs, an
  array is indexed out of range, or an integer is divided by zero.
\<close>

datatype fault = Null_deref | Dangling_pointer | Spins_forever | Out_of_bounds | Divide_error

text \<open>Going on with the result of a function unless it faulted.\<close>

definition fault_bind :: "'e + 'a \<Rightarrow> ('a \<Rightarrow> 'e + 'b) \<Rightarrow> 'e + 'b" where
  "fault_bind m f = (case m of Inl e \<Rightarrow> Inl e | Inr x \<Rightarrow> f x)"

lemma fault_bind_simps [simp]: "fault_bind (Inl e) f = Inl e" "fault_bind (Inr x) f = f x"
  by (simp_all add: fault_bind_def)

lemma fault_bind_InrE:
  assumes "fault_bind m f = Inr y"
  obtains x where "m = Inr x" "f x = Inr y"
  using assms by (cases m) auto

named_theorems kernel_defs \<open>definitions of the kernel operations\<close>
named_theorems ring_simps \<open>laws of circular buffers\<close>
named_theorems table_simps \<open>laws of fixed-size tables\<close>

section \<open>Polling a port\<close>

text \<open>Busy waiting: reads from number \<open>k\<close> on until one satisfies the condition; the next number.\<close>

partial_function (option) wait_port :: "(u8 \<Rightarrow> bool) \<Rightarrow> (nat \<Rightarrow> u8) \<Rightarrow> nat \<Rightarrow> nat option" where
  "wait_port ready inb k = (if ready (inb k) then Some (Suc k) else wait_port ready inb (Suc k))"

lemma wait_port_ready:
  assumes "ready (inb (k + n))" "\<And>i. i < n \<Longrightarrow> \<not> ready (inb (k + i))"
  shows "wait_port ready inb k = Some (Suc (k + n))"
  using assms
proof (induction n arbitrary: k)
  case 0
  then show ?case by (subst wait_port.simps) simp
next
  case (Suc n)
  have "wait_port ready inb (Suc k) = Some (Suc (Suc k + n))"
    using Suc.prems(1) Suc.prems(2) [of "Suc i" for i] by (intro Suc.IH) auto
  moreover have "\<not> ready (inb k)" using Suc.prems(2) [of 0] by simp
  ultimately show ?case by (subst wait_port.simps) simp
qed

text \<open>It returns exactly when the condition holds at some read from \<open>k\<close> on.\<close>

lemma wait_port_returns:
  assumes "\<exists>n \<ge> k. ready (inb n)"
  shows "\<exists>k'. wait_port ready inb k = Some k' \<and> k < k' \<and> ready (inb (k' - 1))"
proof -
  define m where "m = (LEAST n. ready (inb (k + n)))"
  obtain n where "n \<ge> k" "ready (inb n)" using assms by blast
  then have "ready (inb (k + (n - k)))" by simp
  then have "ready (inb (k + m))" unfolding m_def by (rule LeastI)
  moreover have "\<not> ready (inb (k + i))" if "i < m" for i using that not_less_Least unfolding m_def by blast
  ultimately show ?thesis using wait_port_ready [of ready inb k m] by auto
qed

section \<open>Search loops over a fixed table\<close>

text \<open>
  The loop \<^verbatim>\<open>for (i = 0; i < N; i++) if (P(table[i])) return i;\<close> that the capability
  table, the descriptor table, the ARP cache, the DNS cache and the socket tables share.
\<close>

fun first_index :: "('a \<Rightarrow> bool) \<Rightarrow> 'a list \<Rightarrow> nat option" where
  "first_index P [] = None"
| "first_index P (x # xs) = (if P x then Some 0 else map_option Suc (first_index P xs))"

lemma first_index_None [table_simps]:
  "first_index P xs = None \<longleftrightarrow> (\<forall>x \<in> set xs. \<not> P x)"
  by (induction xs) auto

lemma first_index_SomeD:
  "first_index P xs = Some i \<Longrightarrow> i < length xs \<and> P (xs ! i) \<and> (\<forall>j < i. \<not> P (xs ! j))"
proof (induction xs arbitrary: i)
  case Nil
  then show ?case by simp
next
  case (Cons x xs)
  show ?case
  proof (cases "P x")
    case True
    with Cons.prems show ?thesis by simp
  next
    case False
    with Cons.prems obtain k where "first_index P xs = Some k" and "i = Suc k" by auto
    with Cons.IH [of k] False show ?thesis by (auto simp: nth_Cons split: nat.split)
  qed
qed

lemmas first_index_bound = first_index_SomeD [THEN conjunct1]
lemmas first_index_holds = first_index_SomeD [THEN conjunct2, THEN conjunct1]
lemmas first_index_least = first_index_SomeD [THEN conjunct2, THEN conjunct2]

lemma first_index_SomeI:
  assumes "i < length xs" "P (xs ! i)" "\<And>j. j < i \<Longrightarrow> \<not> P (xs ! j)"
  shows "first_index P xs = Some i"
  using assms
proof (induction xs arbitrary: i)
  case Nil
  then show ?case by simp
next
  case (Cons x xs)
  show ?case
  proof (cases i)
    case 0
    with Cons.prems show ?thesis by simp
  next
    case (Suc k)
    have "\<not> P x" using Cons.prems(3) [of 0] Suc by simp
    moreover have "first_index P xs = Some k"
    proof (rule Cons.IH)
      show "\<not> P (xs ! j)" if "j < k" for j
        using Cons.prems(3) [of "Suc j"] Suc that by simp
    qed (use Cons.prems Suc in auto)
    ultimately show ?thesis using Suc by simp
  qed
qed

lemma first_index_update_same:
  assumes "first_index P xs = Some i" "P y"
  shows "first_index P (xs[i := y]) = Some i"
  using first_index_SomeD [OF assms(1)] assms(2) by (intro first_index_SomeI) auto

lemma first_index_ex:
  "x \<in> set xs \<Longrightarrow> P x \<Longrightarrow> \<exists>i. first_index P xs = Some i"
  using first_index_None [of P xs] by (cases "first_index P xs") auto

text \<open>Closing the gap after the entry found removes its first occurrence.\<close>

lemma remove1_first_index:
  "first_index (\<lambda>y. y = x) xs = Some i \<Longrightarrow> remove1 x xs = take i xs @ drop (Suc i) xs"
proof (induction xs arbitrary: i)
  case (Cons y ys)
  then show ?case by (cases "y = x") auto
qed simp

section \<open>Circular buffers\<close>

text \<open>The \<open>n\<close> elements stored from position \<open>st\<close> on, wrapping at the end of the array.\<close>

definition ring_contents :: "'a list \<Rightarrow> nat \<Rightarrow> nat \<Rightarrow> 'a list" where
  "ring_contents buf st n = map (\<lambda>i. buf ! ((st + i) mod length buf)) [0..<n]"

lemma ring_contents_0 [simp]: "ring_contents buf st 0 = []"
  by (simp add: ring_contents_def)

lemma length_ring_contents [simp]: "length (ring_contents buf st n) = n"
  by (simp add: ring_contents_def)

lemma ring_offset_distinct:
  fixes st i n N :: nat
  assumes "i < n" "n < N"
  shows "(st + i) mod N \<noteq> (st + n) mod N"
proof
  assume eq: "(st + i) mod N = (st + n) mod N"
  have "(st + n) - (st + i) = n - i" by simp
  moreover have "N dvd (st + n) - (st + i)"
    using eq assms(1) by (metis add_le_cancel_left less_imp_le mod_eq_dvd_iff_nat)
  ultimately have "N dvd n - i" by simp
  with assms show False using nat_dvd_not_less by fastforce
qed

lemma ring_write [ring_simps]:
  assumes "n < length buf"
  shows "ring_contents (buf[(st + n) mod length buf := c]) st (Suc n) = ring_contents buf st n @ [c]"
proof -
  let ?N = "length buf"
  have old: "buf[(st + n) mod ?N := c] ! ((st + i) mod ?N) = buf ! ((st + i) mod ?N)"
    if "i < n" for i
    using ring_offset_distinct [OF that assms] by (metis nth_list_update_neq)
  have new: "buf[(st + n) mod ?N := c] ! ((st + n) mod ?N) = c"
    using assms by (intro nth_list_update_eq mod_less_divisor) linarith
  show ?thesis
    unfolding ring_contents_def by (simp add: old new del: upt_Suc add: upt_Suc_append)
qed

lemma ring_read [ring_simps]:
  assumes "st < length buf"
  shows "ring_contents buf st (Suc n) = buf ! st # ring_contents buf (Suc st mod length buf) n"
proof -
  have "[0..<Suc n] = 0 # map Suc [0..<n]"
    by (simp add: map_Suc_upt upt_conv_Cons)
  moreover have "(st + Suc i) mod length buf = (Suc st mod length buf + i) mod length buf" for i
    by (simp add: mod_simps)
  ultimately show ?thesis
    using assms by (simp add: ring_contents_def comp_def)
qed

lemma ring_overwrite [ring_simps]:
  assumes "st < length buf"
  shows "ring_contents (buf[st := c]) (Suc st mod length buf) (length buf)
    = tl (ring_contents buf st (length buf)) @ [c]"
proof -
  obtain m where m: "length buf = Suc m" using assms by (cases "length buf") auto
  let ?s = "Suc st mod length buf"
  have pos: "(?s + m) mod length buf = st"
    using assms m by (metis add_Suc_right add_Suc_shift mod_add_left_eq mod_add_self2 mod_less)
  have "ring_contents (buf[(?s + m) mod length buf := c]) ?s (Suc m) = ring_contents buf ?s m @ [c]"
    by (rule ring_write) (simp add: m)
  then show ?thesis
    using ring_read [OF assms, of m] pos m by simp
qed

section \<open>Byte order\<close>

text \<open>
  The expression \<^verbatim>\<open>((x >> 8) & 0xFF) | ((x & 0xFF) << 8)\<close> of the network code, used both to
  write and to read a field in network byte order.
\<close>

definition swap16 :: "u16 \<Rightarrow> u16" where
  "swap16 x = (drop_bit 8 x AND 0xFF) OR push_bit 8 (x AND 0xFF)"

lemma mask8_u16: "(0xFF :: u16) = mask 8"
  by (simp add: mask_numeral)

lemma bit_swap16:
  "bit (swap16 x) n = (if n < 8 then bit x (n + 8) else n < 16 \<and> bit x (n - 8))"
  unfolding swap16_def mask8_u16
  by (auto simp: bit_simps not_less add.commute dest: bit_imp_le_length)

lemma swap16_swap16 [simp]: "swap16 (swap16 x) = x"
  by (rule bit_word_eqI) (auto simp: bit_swap16)

lemma swap16_inject [simp]: "swap16 x = swap16 y \<longleftrightarrow> x = y"
  by (metis swap16_swap16)

section \<open>Alignment\<close>

lemma unat_and_not_mask:
  fixes x :: "'a::len word"
  shows "unat (x AND NOT (mask n)) = unat x div 2 ^ n * 2 ^ n"
proof -
  have shifts: "x AND NOT (mask n) = push_bit n (drop_bit n x)"
    by (rule bit_word_eqI) (auto simp: bit_simps)
  have "unat (drop_bit n x) = unat x div 2 ^ n"
    by (simp only: unat_drop_bit_eq) (simp add: drop_bit_eq_div)
  then have "push_bit n (unat (drop_bit n x)) = unat x div 2 ^ n * 2 ^ n"
    by (simp add: push_bit_eq_mult)
  moreover have "unat x div 2 ^ n * 2 ^ n < 2 ^ LENGTH('a)"
    using le_less_trans [OF div_times_less_eq_dividend unsigned_less] by blast
  ultimately show ?thesis
    unfolding shifts by (simp add: unsigned_push_bit_eq take_bit_nat_eq_self)
qed

lemma unat_u32_less: "unat (x :: u32) < 4294967296"
  using unsigned_less [of x] by simp

lemma unat_ucast_u8: "unat (ucast (x :: u8) :: u32) = unat x"
proof -
  have "unat x < 2 ^ LENGTH(8)" by (rule unsigned_less)
  then have "unat x < 2 ^ 32" by simp
  then show ?thesis by (simp add: unsigned_ucast_eq take_bit_nat_eq_self)
qed

lemma not_3_mask: "(NOT 3 :: 'a::len word) = NOT (mask 2)"
  by (simp add: mask_numeral)

text \<open>Rounding up to a multiple of four, where the addition does not wrap.\<close>

lemma unat_round4:
  fixes x :: u32
  assumes "unat x + 3 < 2 ^ 32"
  shows "unat ((x + 3) AND NOT 3) = (unat x + 3) div 4 * 4"
proof -
  have "unat (x + 3) = unat x + 3"
    using assms by (simp add: unat_plus_if')
  then show ?thesis
    unfolding not_3_mask by (simp add: unat_and_not_mask)
qed

text \<open>Casts as numbers.\<close>

lemma unat_cast: "unat (ucast w :: 'b :: len word) = unat w mod 2 ^ LENGTH('b)"
  by (simp add: unsigned_ucast_eq take_bit_eq_mod)

end
