(* ===== verification/Kernel_Heap.thy ===== *)
theory Kernel_Heap
  imports Maya_Prelude
begin

text \<open>
  The kernel heap of \<^verbatim>\<open>kernel/memory.c\<close>: \<open>heap_init\<close>, \<open>kmalloc\<close>, \<open>kfree\<close>, \<open>kmalloc_aligned\<close>
  and the DMA wrappers. The chain of \<open>memory_block_t\<close> descriptors linked by \<open>next\<close> is the
  list \<open>heap_blocks\<close>, in chain order; \<open>blk_addr\<close> is the address of the descriptor itself, so
  that what the code stores where stays visible. All sizes and addresses are 32-bit words
  and every addition wraps as in C. Shown here: best fit, the accounting invariant, that an
  allocation followed by its release restores the heap exactly, and what the merge in
  \<open>kfree\<close> and the second allocation in \<open>kmalloc_aligned\<close> do wrong.
\<close>

section \<open>State\<close>

record memory_block =
  blk_addr :: ptr
  blk_start :: u32
  blk_size :: u32
  blk_used :: bool

record heap =
  heap_blocks :: "memory_block list"
  used_memory :: u32

definition HEAP_START :: u32 where "HEAP_START = 0xD0000000"
definition HEAP_END :: u32 where "HEAP_END = 0xE0000000"
definition PAGE_SIZE :: u32 where "PAGE_SIZE = 4096"
definition sizeof_memory_block :: u32 where "sizeof_memory_block = 16"

lemmas heap_consts = HEAP_START_def HEAP_END_def PAGE_SIZE_def sizeof_memory_block_def

definition heap_reset :: heap where
  "heap_reset = \<lparr>heap_blocks = [], used_memory = 0\<rparr>"

section \<open>Operations\<close>

definition heap_init :: "heap \<Rightarrow> heap \<times> bool" where
  "heap_init h =
     (if heap_blocks h \<noteq> [] then (h, True)
      else (h\<lparr>heap_blocks := [\<lparr>blk_addr = HEAP_START,
              blk_start = HEAP_START + sizeof_memory_block,
              blk_size = (HEAP_END - HEAP_START) - sizeof_memory_block,
              blk_used = False\<rparr>]\<rparr>, True))"

text \<open>The search loop of \<open>kmalloc\<close>: the position of the best block so far and its size.\<close>

fun find_best_fit :: "u32 \<Rightarrow> memory_block list \<Rightarrow> nat \<Rightarrow> nat option \<Rightarrow> u32 \<Rightarrow> nat option" where
  "find_best_fit sz [] i best_fit best_size = best_fit"
| "find_best_fit sz (b # bs) i best_fit best_size =
     (if \<not> blk_used b \<and> blk_size b \<ge> sz \<and> blk_size b < best_size
      then find_best_fit sz bs (Suc i) (Some i) (blk_size b)
      else find_best_fit sz bs (Suc i) best_fit best_size)"

text \<open>
  The split of an oversized block: the new descriptor is written at \<open>start + size\<close>, which is
  also the \<open>start\<close> it records. Returns the blocks that replace the chosen one.
\<close>

definition split_block :: "memory_block \<Rightarrow> u32 \<Rightarrow> memory_block list" where
  "split_block b sz =
     (if blk_size b > sz + sizeof_memory_block + 4
      then [b\<lparr>blk_size := sz\<rparr>,
            \<lparr>blk_addr = blk_start b + sz, blk_start = blk_start b + sz,
             blk_size = blk_size b - sz - sizeof_memory_block, blk_used = False\<rparr>]
      else [b])"

definition kmalloc :: "heap \<Rightarrow> u32 \<Rightarrow> heap \<times> ptr" where
  "kmalloc h sz0 =
     (if sz0 = 0 then (h, NULL)
      else let sz = (sz0 + 3) AND NOT 3 in
        case find_best_fit sz (heap_blocks h) 0 None 0xFFFFFFFF of
          None \<Rightarrow> (h, NULL)
        | Some i \<Rightarrow>
            let parts = split_block (heap_blocks h ! i) sz;
                best = (hd parts)\<lparr>blk_used := True\<rparr>
            in (h\<lparr>heap_blocks := take i (heap_blocks h) @ best # tl parts @ drop (Suc i) (heap_blocks h),
                  used_memory := used_memory h + blk_size best\<rparr>, blk_start best))"

definition merge_next :: "memory_block \<Rightarrow> memory_block list \<Rightarrow> memory_block list" where
  "merge_next b rest =
     (case rest of
        n # rest' \<Rightarrow>
          if \<not> blk_used n then b\<lparr>blk_size := blk_size b + (blk_size n + sizeof_memory_block)\<rparr> # rest'
          else b # rest
      | [] \<Rightarrow> [b])"

definition merge_prev :: "memory_block list \<Rightarrow> memory_block list \<Rightarrow> memory_block list" where
  "merge_prev pre rest =
     (if pre \<noteq> [] \<and> \<not> blk_used (last pre)
      then butlast pre @
        (last pre)\<lparr>blk_size := blk_size (last pre) + (blk_size (hd rest) + sizeof_memory_block)\<rparr> # tl rest
      else pre @ rest)"

definition kfree :: "heap \<Rightarrow> ptr \<Rightarrow> heap" where
  "kfree h p =
     (if p = NULL then h
      else case first_index (\<lambda>b. blk_start b = p) (heap_blocks h) of
          None \<Rightarrow> h
        | Some i \<Rightarrow>
            let b = heap_blocks h ! i in
            h\<lparr>heap_blocks := merge_prev (take i (heap_blocks h))
                               (merge_next (b\<lparr>blk_used := False\<rparr>) (drop (Suc i) (heap_blocks h))),
              used_memory := used_memory h - blk_size b\<rparr>)"

definition page_round :: "u32 \<Rightarrow> u32" where
  "page_round x = (x + PAGE_SIZE - 1) AND NOT (PAGE_SIZE - 1)"

definition kmalloc_aligned :: "heap \<Rightarrow> u32 \<Rightarrow> heap \<times> ptr" where
  "kmalloc_aligned h sz0 =
     (if sz0 = 0 then (h, NULL)
      else let sz = page_round sz0; (h1, addr) = kmalloc h (sz + PAGE_SIZE) in
        if addr = NULL then (h1, NULL)
        else let aligned_addr = page_round addr in
          if addr \<noteq> aligned_addr then
            let h2 = kfree h1 addr; (h3, p) = kmalloc h2 (sz + (aligned_addr - addr)) in
            if p = NULL then (h3, NULL) else (h3, aligned_addr)
          else (h1, aligned_addr))"

definition memory_alloc_dma :: "heap \<Rightarrow> u32 \<Rightarrow> u32 \<Rightarrow> heap \<times> ptr" where
  "memory_alloc_dma h sz alignment = kmalloc_aligned h sz"

definition memory_free_dma :: "heap \<Rightarrow> ptr \<Rightarrow> heap" where
  "memory_free_dma h p = kfree h p"

definition get_used_memory :: "heap \<Rightarrow> u32" where
  "get_used_memory h = used_memory h"

section \<open>Invariants\<close>

text \<open>
  \<open>heap_inv\<close>: descriptors and payloads together fill the heap window, no two neighbours are
  both free, and the counter is the total size of the used blocks. \<open>heap_layout\<close>: the payloads
  are non-empty, inside the window, in address order and do not overlap.
\<close>

definition heap_total :: "memory_block list \<Rightarrow> nat" where
  "heap_total bs = (\<Sum>b\<leftarrow>bs. unat (blk_size b) + 16)"

definition used_total :: "memory_block list \<Rightarrow> u32" where
  "used_total bs = (\<Sum>b\<leftarrow>filter blk_used bs. blk_size b)"

definition heap_inv :: "heap \<Rightarrow> bool" where
  "heap_inv h \<longleftrightarrow>
     heap_total (heap_blocks h) = 0x10000000 \<and>
     successively (\<lambda>a b. blk_used a \<or> blk_used b) (heap_blocks h) \<and>
     used_memory h = used_total (heap_blocks h)"

definition blk_end :: "memory_block \<Rightarrow> nat" where
  "blk_end b = unat (blk_start b) + unat (blk_size b)"

definition heap_layout :: "memory_block list \<Rightarrow> bool" where
  "heap_layout bs \<longleftrightarrow>
     (\<forall>b \<in> set bs. 0 < blk_size b \<and> unat HEAP_START \<le> unat (blk_start b) \<and> blk_end b \<le> unat HEAP_END) \<and>
     sorted_wrt (\<lambda>a b. blk_end a \<le> unat (blk_start b)) bs"

definition heap_ok :: "heap \<Rightarrow> bool" where
  "heap_ok h \<longleftrightarrow> heap_inv h \<and> heap_layout (heap_blocks h)"

lemma heap_total_simps [simp]:
  "heap_total [] = 0"
  "heap_total (b # bs) = unat (blk_size b) + 16 + heap_total bs"
  "heap_total (xs @ ys) = heap_total xs + heap_total ys"
  by (simp_all add: heap_total_def)

lemma used_total_simps [simp]:
  "used_total [] = 0"
  "used_total (b # bs) = (if blk_used b then blk_size b else 0) + used_total bs"
  "used_total (xs @ ys) = used_total xs + used_total ys"
  by (simp_all add: used_total_def)

lemma successively_append_Cons:
  "successively P (xs @ y # ys) \<longleftrightarrow>
     successively P xs \<and> (xs \<noteq> [] \<longrightarrow> P (last xs) y) \<and> successively P (y # ys)"
  by (auto simp: successively_append_iff)

section \<open>Best fit\<close>

definition fits :: "u32 \<Rightarrow> memory_block \<Rightarrow> bool" where
  "fits sz b \<longleftrightarrow> \<not> blk_used b \<and> sz \<le> blk_size b \<and> blk_size b < 0xFFFFFFFF"

text \<open>What the search loop knows after the blocks \<open>xs\<close>.\<close>

definition best_so_far :: "u32 \<Rightarrow> memory_block list \<Rightarrow> nat option \<Rightarrow> u32 \<Rightarrow> bool" where
  "best_so_far sz xs best m \<longleftrightarrow>
     (case best of
        None \<Rightarrow> m = 0xFFFFFFFF \<and> (\<forall>x \<in> set xs. \<not> fits sz x)
      | Some i \<Rightarrow> i < length xs \<and> fits sz (xs ! i) \<and> m = blk_size (xs ! i) \<and>
          (\<forall>j < length xs. fits sz (xs ! j) \<longrightarrow> m \<le> blk_size (xs ! j)) \<and>
          (\<forall>j < i. fits sz (xs ! j) \<longrightarrow> m < blk_size (xs ! j)))"

lemma best_so_far_step:
  assumes "best_so_far sz xs best m"
  shows "if \<not> blk_used b \<and> blk_size b \<ge> sz \<and> blk_size b < m
    then best_so_far sz (xs @ [b]) (Some (length xs)) (blk_size b)
    else best_so_far sz (xs @ [b]) best m"
proof (cases best)
  case None
  with assms show ?thesis
    by (auto simp: best_so_far_def fits_def nth_append all_set_conv_all_nth less_Suc_eq)
next
  case (Some i)
  then have m: "m < 0xFFFFFFFF"
    using assms by (auto simp: best_so_far_def fits_def)
  show ?thesis
  proof (cases "\<not> blk_used b \<and> blk_size b \<ge> sz \<and> blk_size b < m")
    case True
    with m have "fits sz b" by (auto simp: fits_def)
    with True Some assms show ?thesis
      by (fastforce simp: best_so_far_def nth_append less_Suc_eq)
  next
    case False
    with m have "fits sz b \<Longrightarrow> m \<le> blk_size b" by (auto simp: fits_def)
    with False Some assms show ?thesis
      by (auto simp: best_so_far_def nth_append less_Suc_eq)
  qed
qed

lemma find_best_fit_best:
  assumes "best_so_far sz xs best m" "length xs = i"
  shows "\<exists>m'. best_so_far sz (xs @ bs) (find_best_fit sz bs i best m) m'"
  using assms
proof (induction bs arbitrary: xs i best m)
  case Nil
  then show ?case by auto
next
  case (Cons b bs)
  note step = best_so_far_step [OF Cons.prems(1), of b]
  show ?case
  proof (cases "\<not> blk_used b \<and> blk_size b \<ge> sz \<and> blk_size b < m")
    case True
    with step Cons.IH [of "xs @ [b]" "Some i" "blk_size b" "Suc i"] Cons.prems(2)
    show ?thesis by simp
  next
    case False
    with step Cons.IH [of "xs @ [b]" best m "Suc i"] Cons.prems(2)
    show ?thesis by (simp only: if_False find_best_fit.simps append_assoc append.simps) simp
  qed
qed

lemma find_best_fit_spec:
  "\<exists>m. best_so_far sz bs (find_best_fit sz bs 0 None 0xFFFFFFFF) m"
  using find_best_fit_best [of sz "[]" None "0xFFFFFFFF" 0 bs] by (simp add: best_so_far_def)

lemma find_best_fit_None:
  "find_best_fit sz bs 0 None 0xFFFFFFFF = None \<longleftrightarrow> (\<forall>b \<in> set bs. \<not> fits sz b)"
  using find_best_fit_spec [of sz bs]
  by (cases "find_best_fit sz bs 0 None 0xFFFFFFFF") (auto simp: best_so_far_def)

lemma find_best_fit_Some:
  assumes "find_best_fit sz bs 0 None 0xFFFFFFFF = Some i"
  shows "i < length bs" "fits sz (bs ! i)"
    "\<And>j. j < length bs \<Longrightarrow> fits sz (bs ! j) \<Longrightarrow> blk_size (bs ! i) \<le> blk_size (bs ! j)"
    "\<And>j. j < i \<Longrightarrow> fits sz (bs ! j) \<Longrightarrow> blk_size (bs ! i) < blk_size (bs ! j)"
  using find_best_fit_spec [of sz bs] assms by (auto simp: best_so_far_def)

text \<open>
  The shape of a successful allocation: the chain around the chosen block, what replaces it
  and what is returned. Every later proof about \<open>kmalloc\<close> starts from it.
\<close>

lemma kmalloc_SomeE:
  assumes "kmalloc h sz0 = (h', p)" "p \<noteq> NULL"
  obtains pre b post sz where
    "sz = (sz0 + 3) AND NOT 3" "sz0 \<noteq> 0"
    "heap_blocks h = pre @ b # post" "fits sz b" "p = blk_start b"
    "find_best_fit sz (heap_blocks h) 0 None 0xFFFFFFFF = Some (length pre)"
    "heap_blocks h' = pre @ (hd (split_block b sz))\<lparr>blk_used := True\<rparr> # tl (split_block b sz) @ post"
    "used_memory h' = used_memory h + blk_size (hd (split_block b sz))"
proof -
  let ?sz = "(sz0 + 3) AND NOT 3"
  let ?bs = "heap_blocks h"
  from assms obtain i where i: "find_best_fit ?sz ?bs 0 None 0xFFFFFFFF = Some i" and nz: "sz0 \<noteq> 0"
    by (auto simp: kmalloc_def Let_def split: if_splits option.splits)
  note chosen = find_best_fit_Some [OF i]
  have "?bs = take i ?bs @ ?bs ! i # drop (Suc i) ?bs"
    using chosen(1) by (rule id_take_nth_drop)
  moreover have "length (take i ?bs) = i" using chosen(1) by simp
  ultimately show thesis
    using assms i nz chosen(2)
    by (intro that [of ?sz "take i ?bs" "?bs ! i" "drop (Suc i) ?bs"])
       (auto simp: kmalloc_def Let_def split_block_def)
qed

lemma kmalloc_NULL:
  assumes "kmalloc h sz0 = (h', NULL)" "\<And>b. b \<in> set (heap_blocks h) \<Longrightarrow> blk_start b \<noteq> 0"
  shows "h' = h"
proof -
  have "blk_start (hd (split_block (heap_blocks h ! i) sz)) \<noteq> 0"
    if "find_best_fit sz (heap_blocks h) 0 None 0xFFFFFFFF = Some i" for i sz
    using find_best_fit_Some(1) [OF that] assms(2) by (auto simp: split_block_def)
  with assms(1) show ?thesis
    by (auto simp: kmalloc_def Let_def split: if_splits option.splits)
qed

section \<open>Splitting and the invariants\<close>

lemma block_size_bound:
  assumes "heap_inv h" "b \<in> set (heap_blocks h)"
  shows "unat (blk_size b) + 16 \<le> 0x10000000"
proof -
  obtain xs ys where "heap_blocks h = xs @ b # ys"
    using assms(2) by (meson split_list)
  with assms(1) show ?thesis by (simp add: heap_inv_def)
qed

lemma split_block_cases:
  assumes "fits sz b" "unat (blk_size b) + 16 \<le> 0x10000000"
  obtains (whole) "split_block b sz = [b]"
  | (split) r where "split_block b sz = [b\<lparr>blk_size := sz\<rparr>, r]" "\<not> blk_used r"
      "blk_addr r = blk_start b + sz" "blk_start r = blk_start b + sz"
      "unat sz + 16 + unat (blk_size r) = unat (blk_size b)" "4 < unat (blk_size r)"
      "sz + (blk_size r + sizeof_memory_block) = blk_size b"
proof (cases "blk_size b > sz + sizeof_memory_block + 4")
  case False
  then show thesis by (intro whole) (simp add: split_block_def)
next
  case True
  let ?r = "\<lparr>blk_addr = blk_start b + sz, blk_start = blk_start b + sz,
             blk_size = blk_size b - sz - sizeof_memory_block, blk_used = False\<rparr>"
  have sz: "unat sz \<le> unat (blk_size b)"
    using assms(1) by (simp add: fits_def word_le_nat_alt)
  have "unat (sz + sizeof_memory_block + 4) = unat sz + 20"
    using sz assms(2) by (simp add: heap_consts unat_plus_if')
  then have room: "unat sz + 20 < unat (blk_size b)"
    using True by (simp add: word_less_nat_alt)
  have "unat (blk_size b - sz) = unat (blk_size b) - unat sz"
    using sz by (simp add: unat_sub word_le_nat_alt)
  then have "unat (blk_size b - sz - sizeof_memory_block) = unat (blk_size b) - unat sz - 16"
    using room by (subst unat_sub) (simp_all add: heap_consts word_le_nat_alt)
  with room show thesis
    using True by (intro split [of ?r]) (auto simp: split_block_def)
qed

lemma layout_end_less:
  assumes "heap_layout bs" "b \<in> set bs"
  shows "blk_end b < 2 ^ 32" "blk_start b \<noteq> 0" "0 < blk_size b" "0 < unat (blk_size b)"
    "unat HEAP_START \<le> unat (blk_start b)" "blk_end b \<le> unat HEAP_END"
proof -
  have *: "0 < blk_size b" "unat HEAP_START \<le> unat (blk_start b)" "blk_end b \<le> unat HEAP_END"
    using assms by (auto simp: heap_layout_def)
  show "blk_end b < 2 ^ 32" using *(3) by (simp add: heap_consts)
  show "blk_start b \<noteq> 0" using *(2) by (auto simp: heap_consts)
  show "0 < unat (blk_size b)" using *(1) by (simp add: word_less_nat_alt)
qed (use assms in \<open>auto simp: heap_layout_def\<close>)

lemma layout_around:
  "heap_layout (pre @ b # post) \<longleftrightarrow>
     heap_layout pre \<and> heap_layout [b] \<and> heap_layout post \<and>
     (\<forall>x \<in> set pre. blk_end x \<le> unat (blk_start b) \<and> (\<forall>y \<in> set post. blk_end x \<le> unat (blk_start y))) \<and>
     (\<forall>y \<in> set post. blk_end b \<le> unat (blk_start y))"
  by (auto simp: heap_layout_def sorted_wrt_append)

lemma blk_end_used [simp]: "blk_end (b\<lparr>blk_used := u\<rparr>) = blk_end b"
  by (simp add: blk_end_def)

lemma layout_used [simp]: "heap_layout [b\<lparr>blk_used := u\<rparr>] = heap_layout [b]"
  by (simp add: heap_layout_def)

text \<open>Distinct payload starts: what makes \<open>kfree\<close> find the block that \<open>kmalloc\<close> handed out.\<close>

lemma layout_start_unique:
  assumes "heap_layout (pre @ b # post)" "x \<in> set pre"
  shows "blk_start x \<noteq> blk_start b"
proof
  assume "blk_start x = blk_start b"
  moreover have "blk_end x \<le> unat (blk_start b)" "0 < unat (blk_size x)"
    using assms layout_end_less(4) [of pre x] by (auto simp: layout_around)
  ultimately show False by (simp add: blk_end_def)
qed

lemma first_index_start:
  assumes "heap_layout (pre @ b # post)"
  shows "first_index (\<lambda>x. blk_start x = blk_start b) (pre @ b # post) = Some (length pre)"
  using layout_start_unique [OF assms nth_mem] by (intro first_index_SomeI) (auto simp: nth_append)

lemma split_used_inv:
  assumes "heap_inv h" "heap_blocks h = pre @ b # post" "fits sz b"
    "heap_blocks h' = pre @ (hd (split_block b sz))\<lparr>blk_used := True\<rparr> # tl (split_block b sz) @ post"
    "used_memory h' = used_memory h + blk_size (hd (split_block b sz))"
  shows "heap_inv h'"
proof -
  have free: "\<not> blk_used b" using assms(3) by (simp add: fits_def)
  have bound: "unat (blk_size b) + 16 \<le> 0x10000000"
    using block_size_bound [OF assms(1), of b] assms(2) by simp
  have nb: "pre \<noteq> [] \<Longrightarrow> blk_used (last pre)" "post \<noteq> [] \<Longrightarrow> blk_used (hd post)"
    using assms(1,2) free by (auto simp: heap_inv_def successively_append_Cons successively_Cons)
  from assms(3) bound show ?thesis
  proof (cases rule: split_block_cases)
    case whole
    with assms free nb show ?thesis
      by (auto simp: heap_inv_def successively_append_Cons successively_Cons)
  next
    case (split r)
    with assms free nb show ?thesis
      by (auto simp: heap_inv_def successively_append_Cons successively_Cons)
  qed
qed

lemma split_layout:
  assumes "heap_layout (pre @ b # post)" "fits sz b" "unat (blk_size b) + 16 \<le> 0x10000000" "0 < sz"
  shows "heap_layout (pre @ (hd (split_block b sz))\<lparr>blk_used := True\<rparr> # tl (split_block b sz) @ post)"
  using assms(2,3)
proof (cases rule: split_block_cases)
  case whole
  with assms(1) show ?thesis by (simp add: layout_around)
next
  case (split r)
  have b: "blk_end b < 2 ^ 32" "unat HEAP_START \<le> unat (blk_start b)" "blk_end b \<le> unat HEAP_END"
    using assms(1) layout_end_less [of "[b]" b] by (auto simp: layout_around)
  have start: "unat (blk_start r) = unat (blk_start b) + unat sz"
    using split b(1) by (simp add: blk_end_def unat_plus_if')
  have "0 < blk_size r" using split(6) by (simp add: word_less_nat_alt)
  moreover have "blk_end r + 16 = blk_end b"
    using start split(5) by (simp add: blk_end_def)
  ultimately show ?thesis
    using assms(1,4) split(1) start b
    by (fastforce simp: heap_layout_def sorted_wrt_append blk_end_def)
qed

lemma round4_pos:
  fixes n :: u32
  assumes "n \<noteq> 0" "unat n + 3 < 2 ^ 32"
  shows "0 < (n + 3) AND NOT 3" "unat n \<le> unat ((n + 3) AND NOT 3)"
proof -
  have "0 < unat n" using assms(1) by (simp add: unat_gt_0)
  then have "unat n \<le> (unat n + 3) div 4 * 4" "0 < (unat n + 3) div 4 * 4" by presburger+
  then show "0 < (n + 3) AND NOT 3" "unat n \<le> unat ((n + 3) AND NOT 3)"
    using unat_round4 [OF assms(2)] by (simp_all add: word_less_nat_alt)
qed

lemma kmalloc_ok:
  assumes "heap_ok h" "unat n + 3 < 2 ^ 32" "kmalloc h n = (h', p)"
  shows "heap_ok h'"
proof (cases "p = NULL")
  case True
  have "h' = h"
    using assms(1,3) layout_end_less(2) True unfolding heap_ok_def by (blast intro: kmalloc_NULL)
  with assms(1) show ?thesis by simp
next
  case False
  from assms(3) False show ?thesis
  proof (rule kmalloc_SomeE)
    fix pre b post sz
    assume sh: "sz = (n + 3) AND NOT 3" "n \<noteq> 0" "heap_blocks h = pre @ b # post" "fits sz b"
      "heap_blocks h' = pre @ (hd (split_block b sz))\<lparr>blk_used := True\<rparr> # tl (split_block b sz) @ post"
      "used_memory h' = used_memory h + blk_size (hd (split_block b sz))"
    have inv: "heap_inv h" and lay: "heap_layout (pre @ b # post)"
      using assms(1) sh(3) by (auto simp: heap_ok_def)
    have "heap_inv h'" using inv sh(3-6) by (rule split_used_inv)
    moreover have "heap_layout (heap_blocks h')"
      unfolding sh(5) using lay sh(4) block_size_bound [OF inv, of b] round4_pos(1) [OF sh(2) assms(2)]
      by (intro split_layout) (simp_all add: sh(1,3))
    ultimately show ?thesis by (simp add: heap_ok_def)
  qed
qed

section \<open>Releasing memory\<close>

lemma unat_merge:
  assumes "unat a + unat b + 16 \<le> 0x10000000"
  shows "unat (a + (b + sizeof_memory_block)) = unat a + unat b + 16"
  using assms by (simp add: heap_consts unat_plus_if')

abbreviation separated :: "memory_block list \<Rightarrow> bool" where
  "separated \<equiv> successively (\<lambda>a b. blk_used a \<or> blk_used b)"

text \<open>
  Merging with the successor: the merged chain covers the same bytes, keeps the sum of the
  used sizes of the rest, and what follows the released block is used.
\<close>

lemma merge_next_props:
  assumes "heap_total (b # post) \<le> 0x10000000" "separated (b # post)" "\<not> blk_used b'"
    "blk_size b' = blk_size b"
  shows "heap_total (merge_next b' post) = heap_total (b # post)"
    "used_total (merge_next b' post) = used_total post"
    "separated (merge_next b' post)" "merge_next b' post \<noteq> []"
    "\<not> blk_used (hd (merge_next b' post))"
  using assms
  by (auto simp: merge_next_def unat_merge successively_Cons split: list.splits)

lemma merge_prev_props:
  assumes "heap_total pre + heap_total rest \<le> 0x10000000" "separated pre" "separated rest"
    "rest \<noteq> []" "\<not> blk_used (hd rest)"
  shows "heap_total (merge_prev pre rest) = heap_total pre + heap_total rest"
    "used_total (merge_prev pre rest) = used_total pre + used_total rest"
    "separated (merge_prev pre rest)"
proof -
  obtain r rs where rest: "rest = r # rs" using assms(4) by (cases rest) auto
  have "heap_total (merge_prev pre rest) = heap_total pre + heap_total rest \<and>
    used_total (merge_prev pre rest) = used_total pre + used_total rest \<and>
    separated (merge_prev pre rest)"
  proof (cases "pre \<noteq> [] \<and> \<not> blk_used (last pre)")
    case True
    then obtain ps q where "pre = ps @ [q]" by (metis append_butlast_last_id)
    with True assms rest show ?thesis
      by (auto simp: merge_prev_def unat_merge successively_append_Cons successively_Cons)
  next
    case False
    with assms rest show ?thesis
      by (auto simp: merge_prev_def successively_append_Cons)
  qed
  then show "heap_total (merge_prev pre rest) = heap_total pre + heap_total rest"
    "used_total (merge_prev pre rest) = used_total pre + used_total rest"
    "separated (merge_prev pre rest)" by blast+
qed

lemma kfree_inv:
  assumes "heap_inv h" "heap_blocks h = pre @ b # post" "blk_used b" "blk_start b = p" "p \<noteq> NULL"
    "\<forall>x \<in> set pre. blk_start x \<noteq> p"
  shows "heap_inv (kfree h p)"
proof -
  let ?rest = "merge_next (b\<lparr>blk_used := False\<rparr>) post"
  have "first_index (\<lambda>x. blk_start x = p) (heap_blocks h) = Some (length pre)"
    using assms(2,4,6) by (intro first_index_SomeI) (auto simp: nth_append)
  then have eq: "kfree h p = h\<lparr>heap_blocks := merge_prev pre ?rest, used_memory := used_memory h - blk_size b\<rparr>"
    using assms(2,5) by (simp add: kfree_def Let_def)
  have inv: "heap_total pre + heap_total (b # post) = 0x10000000" "separated pre" "separated (b # post)"
    "used_memory h = used_total pre + (blk_size b + used_total post)"
    using assms(1-3) by (auto simp: heap_inv_def successively_append_Cons)
  note next_props = merge_next_props [OF _ inv(3), of "b\<lparr>blk_used := False\<rparr>"]
  note prev_props = merge_prev_props [OF _ inv(2), of ?rest]
  show ?thesis
    using inv next_props prev_props unfolding eq heap_inv_def by (simp del: heap_total_simps(2))
qed

text \<open>A released block that was just cut off grows back to the block it came from.\<close>

lemma kmalloc_kfree:
  assumes "heap_ok h" "unat n + 3 < 2 ^ 32" "kmalloc h n = (h', p)" "p \<noteq> NULL"
  shows "kfree h' p = h"
  using assms(3,4)
proof (rule kmalloc_SomeE)
  fix pre b post sz
  assume sh: "sz = (n + 3) AND NOT 3" "heap_blocks h = pre @ b # post" "fits sz b" "p = blk_start b"
    "heap_blocks h' = pre @ (hd (split_block b sz))\<lparr>blk_used := True\<rparr> # tl (split_block b sz) @ post"
    "used_memory h' = used_memory h + blk_size (hd (split_block b sz))"
  let ?b' = "(hd (split_block b sz))\<lparr>blk_used := True\<rparr>"
  have "heap_ok h'" using assms(1-3) by (rule kmalloc_ok)
  then have lay: "heap_layout (pre @ ?b' # tl (split_block b sz) @ post)"
    by (simp add: heap_ok_def sh(5))
  have free: "\<not> blk_used b" using sh(3) by (simp add: fits_def)
  have nb: "pre \<noteq> [] \<Longrightarrow> blk_used (last pre)" "post \<noteq> [] \<Longrightarrow> blk_used (hd post)"
    using assms(1) sh(2) free
    by (auto simp: heap_ok_def heap_inv_def successively_append_Cons successively_Cons)
  have start: "blk_start ?b' = p" by (simp add: split_block_def sh(4))
  have "first_index (\<lambda>x. blk_start x = p) (heap_blocks h') = Some (length pre)"
    using first_index_start [OF lay] unfolding sh(5) start .
  then have eq: "kfree h' p = h'\<lparr>heap_blocks := merge_prev pre
      (merge_next (?b'\<lparr>blk_used := False\<rparr>) (tl (split_block b sz) @ post)),
      used_memory := used_memory h' - blk_size ?b'\<rparr>"
    using assms(4) sh(5) by (simp add: kfree_def Let_def)
  have bound: "unat (blk_size b) + 16 \<le> 0x10000000"
    using block_size_bound [of h b] assms(1) sh(2) by (simp add: heap_ok_def)
  have "merge_prev pre (merge_next (?b'\<lparr>blk_used := False\<rparr>) (tl (split_block b sz) @ post)) = pre @ b # post"
    using sh(3) bound
  proof (cases rule: split_block_cases)
    case whole
    with nb free show ?thesis
      by (auto simp: merge_prev_def merge_next_def split: list.splits)
  next
    case (split r)
    with nb free show ?thesis
      by (auto simp: merge_prev_def merge_next_def)
  qed
  with eq sh(2,6) show ?thesis by simp
qed

lemma heap_init_ok: "heap_ok (fst (heap_init heap_reset))"
  by (simp add: heap_init_def heap_reset_def heap_ok_def heap_inv_def heap_layout_def heap_consts
      blk_end_def)

section \<open>Live pointers\<close>

definition live_ptrs :: "heap \<Rightarrow> ptr set" where
  "live_ptrs h = set (map blk_start (filter blk_used (heap_blocks h)))"

text \<open>\<open>kmalloc\<close> adds exactly the pointer it returns to the live ones.\<close>

lemma kmalloc_live:
  assumes "heap_ok h" "kmalloc h n = (h', p)" "p \<noteq> NULL"
  shows "p \<notin> live_ptrs h \<and> live_ptrs h' = insert p (live_ptrs h)"
  using assms(2,3)
proof (rule kmalloc_SomeE)
  fix pre b post sz
  assume sh: "heap_blocks h = pre @ b # post" "fits sz b" "p = blk_start b"
    "heap_blocks h' = pre @ (hd (split_block b sz))\<lparr>blk_used := True\<rparr> # tl (split_block b sz) @ post"
  have lay: "heap_layout (pre @ b # post)" using assms(1) sh(1) by (simp add: heap_ok_def)
  have free: "\<not> blk_used b" using sh(2) by (simp add: fits_def)
  have "blk_start y \<noteq> p" if "y \<in> set post" for y
    using that lay layout_end_less(4) [OF lay, of b] sh(3) by (fastforce simp: layout_around blk_end_def)
  moreover have "blk_start x \<noteq> p" if "x \<in> set pre" for x
    using that layout_start_unique [OF lay] sh(3) by auto
  ultimately have "p \<notin> live_ptrs h"
    using free sh(1) unfolding live_ptrs_def by auto
  moreover have "live_ptrs h' = insert p (live_ptrs h)"
    using sh free by (auto simp: live_ptrs_def split_block_def)
  ultimately show ?thesis by simp
qed

section \<open>The allocator as an interface\<close>

text \<open>
  What the rest of the kernel relies on when it takes a temporary buffer and gives it back.
\<close>

locale buffer_allocator =
  fixes alloc :: "'h \<Rightarrow> u32 \<Rightarrow> 'h \<times> ptr"
    and release :: "'h \<Rightarrow> ptr \<Rightarrow> 'h"
    and ok :: "'h \<Rightarrow> bool"
    and small :: "u32 \<Rightarrow> bool"
  assumes alloc_ok: "ok h \<Longrightarrow> small n \<Longrightarrow> alloc h n = (h', p) \<Longrightarrow> ok h'"
    and alloc_fail: "ok h \<Longrightarrow> alloc h n = (h', NULL) \<Longrightarrow> h' = h"
    and alloc_release: "ok h \<Longrightarrow> small n \<Longrightarrow> alloc h n = (h', p) \<Longrightarrow> p \<noteq> NULL \<Longrightarrow> release h' p = h"

text \<open>
  Buffers taken one after the other and given back in reverse order; a failing allocation
  ends the sequence, as the early returns of the clients do.
\<close>

fun bracketed :: "('h \<Rightarrow> u32 \<Rightarrow> 'h \<times> ptr) \<Rightarrow> ('h \<Rightarrow> ptr \<Rightarrow> 'h) \<Rightarrow> u32 list \<Rightarrow> 'h \<Rightarrow> 'h" where
  "bracketed alloc release [] h = h"
| "bracketed alloc release (n # ns) h =
     (let (h1, p) = alloc h n in
      if p = NULL then h1 else release (bracketed alloc release ns h1) p)"

context buffer_allocator
begin

lemma bracketed_restores:
  "ok h \<Longrightarrow> \<forall>n \<in> set ns. small n \<Longrightarrow> bracketed alloc release ns h = h"
proof (induction ns arbitrary: h)
  case Nil
  then show ?case by simp
next
  case (Cons n ns)
  obtain h1 p where a: "alloc h n = (h1, p)" by (cases "alloc h n")
  show ?case
  proof (cases "p = NULL")
    case True
    with a Cons.prems show ?thesis using alloc_fail by simp
  next
    case False
    have "ok h1" using a Cons.prems alloc_ok by auto
    then have "bracketed alloc release ns h1 = h1" using Cons by simp
    with a False Cons.prems show ?thesis using alloc_release by auto
  qed
qed

end

definition small_request :: "u32 \<Rightarrow> bool" where
  "small_request n \<longleftrightarrow> n \<le> 0xFFFFFFFC"

lemma small_request_nat: "small_request n \<longleftrightarrow> unat n + 3 < 2 ^ 32"
  by (auto simp: small_request_def word_le_nat_alt)

interpretation kernel_heap: buffer_allocator kmalloc kfree heap_ok small_request
proof unfold_locales
  show "heap_ok h \<Longrightarrow> small_request n \<Longrightarrow> kmalloc h n = (h', p) \<Longrightarrow> heap_ok h'" for h n h' p
    by (rule kmalloc_ok) (simp_all add: small_request_nat)
  show "heap_ok h \<Longrightarrow> kmalloc h n = (h', NULL) \<Longrightarrow> h' = h" for h n h'
    using layout_end_less(2) unfolding heap_ok_def by (blast intro: kmalloc_NULL)
  show "heap_ok h \<Longrightarrow> small_request n \<Longrightarrow> kmalloc h n = (h', p) \<Longrightarrow> p \<noteq> NULL \<Longrightarrow> kfree h' p = h"
    for h n h' p
    by (rule kmalloc_kfree) (simp_all add: small_request_nat)
qed

section \<open>Properties of the heap\<close>

definition booted_heap :: heap where
  "booted_heap = fst (heap_init heap_reset)"

lemmas booted_heap_eval = booted_heap_def heap_init_def heap_reset_def heap_consts

lemma booted_heap_ok: "heap_ok booted_heap"
  unfolding booted_heap_def by (rule heap_init_ok)



text \<open>
  Any sequence of allocations that is undone in reverse order, whatever the sizes and
  wherever it fails, leaves the heap as it was: nested temporary buffers neither leak nor
  fragment the heap.
\<close>

theorem nested_buffers_restore:
  assumes "heap_ok h" "\<forall>n \<in> set ns. small_request n"
  shows "bracketed kmalloc kfree ns h = h"
  using assms by (rule kernel_heap.bracketed_restores)

theorem nested_buffers_restore_witness:
  "bracketed kmalloc kfree [100, 4096, 0xFFFFFFFC, 60] booted_heap = booted_heap"
  by (rule nested_buffers_restore [OF booted_heap_ok]) (simp add: small_request_def)



text \<open>
  \<open>kmalloc\<close> is best fit: the block it picks is free and large enough, every other free
  block that is large enough is at least as big, and those before it in the chain are bigger.
  It fails only when no free block fits.
\<close>

theorem kmalloc_is_best_fit:
  assumes "n \<noteq> 0" "\<forall>b \<in> set (heap_blocks h). blk_start b \<noteq> 0"
  defines "sz \<equiv> (n + 3) AND NOT 3"
  shows "(snd (kmalloc h n) = NULL \<longleftrightarrow> (\<forall>b \<in> set (heap_blocks h). \<not> fits sz b)) \<and>
    (snd (kmalloc h n) \<noteq> NULL \<longrightarrow>
      (\<exists>i < length (heap_blocks h). fits sz (heap_blocks h ! i) \<and>
         snd (kmalloc h n) = blk_start (heap_blocks h ! i) \<and>
         blk_used (heap_blocks (fst (kmalloc h n)) ! i) \<and>
         (\<forall>j < length (heap_blocks h). fits sz (heap_blocks h ! j) \<longrightarrow>
            blk_size (heap_blocks h ! i) \<le> blk_size (heap_blocks h ! j) \<and>
            (j < i \<longrightarrow> blk_size (heap_blocks h ! i) < blk_size (heap_blocks h ! j)))))"
proof (cases "find_best_fit sz (heap_blocks h) 0 None 0xFFFFFFFF")
  case None
  then have "snd (kmalloc h n) = NULL"
    using assms(1) by (simp add: kmalloc_def sz_def)
  with None show ?thesis by (simp add: find_best_fit_None)
next
  case (Some i)
  note best = find_best_fit_Some [OF Some]
  have alloc: "snd (kmalloc h n) = blk_start (heap_blocks h ! i)"
    "blk_used (heap_blocks (fst (kmalloc h n)) ! i)"
    using assms(1) Some [unfolded sz_def] best(1)
    by (simp_all add: kmalloc_def Let_def split_block_def nth_append)
  moreover have "snd (kmalloc h n) \<noteq> NULL"
    using assms(2) best(1) alloc(1) by simp
  moreover have "\<not> (\<forall>b \<in> set (heap_blocks h). \<not> fits sz b)"
    using best(1,2) nth_mem by blast
  ultimately show ?thesis using best by blast
qed

theorem kmalloc_is_best_fit_witness:
  "snd (kmalloc booted_heap 100) = HEAP_START + sizeof_memory_block"
proof -
  have starts: "\<forall>b \<in> set (heap_blocks booted_heap). blk_start b \<noteq> 0"
    by (simp add: booted_heap_eval)
  have "fits 100 (hd (heap_blocks booted_heap))"
    by (simp add: fits_def booted_heap_eval)
  then have "snd (kmalloc booted_heap 100) \<noteq> NULL"
    using kmalloc_is_best_fit [of 100 booted_heap] starts by (simp add: booted_heap_eval)
  then show ?thesis
    using kmalloc_is_best_fit [of 100 booted_heap] starts by (simp add: booted_heap_eval)
qed

text \<open>
  Releasing a block in use keeps the heap accounting: descriptors and payloads still fill
  the window exactly, no two free neighbours remain unmerged, and the counter of used bytes
  drops by the size of the released block.
\<close>

theorem kfree_keeps_accounting:
  assumes "heap_ok h" "b \<in> set (heap_blocks h)" "blk_used b"
  shows "heap_inv (kfree h (blk_start b)) \<and>
    used_memory (kfree h (blk_start b)) = used_memory h - blk_size b"
proof -
  obtain pre post where bs: "heap_blocks h = pre @ b # post"
    using assms(2) by (meson split_list)
  have lay: "heap_layout (pre @ b # post)" using assms(1) bs by (simp add: heap_ok_def)
  have nn: "blk_start b \<noteq> NULL" using layout_end_less(2) [OF lay] by simp
  have "heap_inv (kfree h (blk_start b))"
    using assms(1,3) bs nn layout_start_unique [OF lay]
    by (intro kfree_inv) (auto simp: heap_ok_def)
  moreover have "used_memory (kfree h (blk_start b)) = used_memory h - blk_size b"
    using first_index_start [OF lay] nn bs by (simp add: kfree_def Let_def)
  ultimately show ?thesis by simp
qed

theorem kfree_keeps_accounting_witness:
  "heap_inv (kfree (fst (kmalloc booted_heap 100)) (HEAP_START + sizeof_memory_block))"
proof -
  let ?h = "fst (kmalloc booted_heap 100)"
  have "heap_ok ?h"
    by (rule kernel_heap.alloc_ok [OF booted_heap_ok _ prod.collapse [symmetric]])
       (simp add: small_request_def)
  moreover have "hd (heap_blocks ?h) \<in> set (heap_blocks ?h)" "blk_used (hd (heap_blocks ?h))"
    "blk_start (hd (heap_blocks ?h)) = HEAP_START + sizeof_memory_block"
    by (simp_all add: booted_heap_eval kmalloc_def split_block_def)
  ultimately show ?thesis
    using kfree_keeps_accounting [of ?h "hd (heap_blocks ?h)"] by simp
qed

section \<open>Where the allocator breaks its promise\<close>

text \<open>
  Three blocks of 100 bytes, the first two released again: \<open>kfree\<close> adds the size of a
  descriptor that the split never set aside, so the merged block reaches 16 bytes into the
  third, and the next allocation of 216 bytes overlaps a block in use.
\<close>

definition overlap_heap :: heap where
  "overlap_heap =
     (let (h1, a) = kmalloc booted_heap 100; (h2, b) = kmalloc h1 100; (h3, c) = kmalloc h2 100
      in fst (kmalloc (kfree (kfree h3 a) b) 216))"

lemmas heap_eval = kmalloc_def kfree_def split_block_def merge_next_def merge_prev_def
  kmalloc_aligned_def page_round_def booted_heap_eval Let_def

lemma overlap_blocks:
  "heap_blocks overlap_heap ! 0 =
     \<lparr>blk_addr = 0xD0000000, blk_start = 0xD0000010, blk_size = 216, blk_used = True\<rparr>"
  "heap_blocks overlap_heap ! 1 =
     \<lparr>blk_addr = 0xD00000D8, blk_start = 0xD00000D8, blk_size = 100, blk_used = True\<rparr>"
  "length (heap_blocks overlap_heap) = 3"
  unfolding overlap_heap_def by (simp_all add: heap_eval)

text \<open>
  Two blocks in use can overlap: after three allocations and two releases, the next
  allocation returns memory that another live block owns.
\<close>

theorem kfree_merge_makes_blocks_overlap:
  "\<exists>x y. x \<in> set (heap_blocks overlap_heap) \<and> y \<in> set (heap_blocks overlap_heap) \<and>
     blk_used x \<and> blk_used y \<and> blk_start x \<noteq> blk_start y \<and>
     unat (blk_start x) < unat (blk_start y) \<and> unat (blk_start y) < blk_end x"
  using overlap_blocks nth_mem [of 0 "heap_blocks overlap_heap"] nth_mem [of 1 "heap_blocks overlap_heap"]
  by (intro exI [of _ "heap_blocks overlap_heap ! 0"] exI [of _ "heap_blocks overlap_heap ! 1"])
     (simp add: blk_end_def)

text \<open>
  A request above \<open>0xFFFFFFFC\<close> wraps to zero when it is rounded, so it succeeds with an empty
  block instead of failing.
\<close>

lemma kmalloc_huge_request_succeeds:
  "snd (kmalloc booted_heap 0xFFFFFFFE) = 0xD0000010 \<and>
   blk_size (hd (heap_blocks (fst (kmalloc booted_heap 0xFFFFFFFE)))) = 0"
  by (simp add: heap_eval)

text \<open>
  The heap after \<open>p = kmalloc(8000); kmalloc(16); kfree(p);\<close>, a reachable state with a free
  block of 8000 bytes in front of the large one.
\<close>

definition fragmented_heap :: heap where
  "fragmented_heap =
     (let (h1, p) = kmalloc booted_heap 8000; (h2, q) = kmalloc h1 16 in kfree h2 p)"

definition block_holds :: "memory_block \<Rightarrow> ptr \<Rightarrow> bool" where
  "block_holds b p \<longleftrightarrow> unat (blk_start b) \<le> unat p \<and> unat p < blk_end b"

text \<open>
  \<open>kmalloc_aligned\<close> can return memory it does not own: it computes the aligned address
  from its first allocation, releases that, and its second allocation may come from another
  block. Here no block in use holds the returned page and a free block does.
\<close>

theorem kmalloc_aligned_returns_free_memory:
  "let (h, p) = kmalloc_aligned fragmented_heap 4096 in
     p \<noteq> NULL \<and> (\<forall>b \<in> set (heap_blocks h). blk_used b \<longrightarrow> \<not> block_holds b p) \<and>
     (\<exists>b \<in> set (heap_blocks h). \<not> blk_used b \<and> block_holds b p)"
  unfolding fragmented_heap_def by (simp add: heap_eval block_holds_def blk_end_def)

text \<open>
  A DMA buffer is released by the aligned address, which is not the start of any block, so
  on the fresh heap \<open>memory_free_dma\<close> releases nothing.
\<close>

lemma memory_free_dma_leaks:
  "let (h, p) = memory_alloc_dma booted_heap 4096 a in
     p = 0xD0001000 \<and> memory_free_dma h p = h \<and> get_used_memory h = 8176"
  by (simp add: memory_alloc_dma_def memory_free_dma_def get_used_memory_def heap_eval)

text \<open>Every page-aligned address really is a multiple of the page size.\<close>

lemma page_round_aligned: "unat (page_round x) mod 4096 = 0"
proof -
  have "NOT (PAGE_SIZE - 1) = (NOT (mask 12) :: u32)"
    by (simp add: PAGE_SIZE_def mask_numeral)
  then show ?thesis
    unfolding page_round_def by (simp add: unat_and_not_mask)
qed

lemma kmalloc_aligned_aligned:
  assumes "kmalloc_aligned h n = (h', p)"
  shows "unat p mod 4096 = 0"
  using assms
  by (auto simp: kmalloc_aligned_def Let_def page_round_aligned split: if_splits prod.splits)
     (metis page_round_aligned)

end
