(* ===== verification/Virtual_Memory.thy ===== *)
theory Virtual_Memory
  imports Kernel_Heap
begin

text \<open>
  The rest of \<^verbatim>\<open>kernel/memory.c\<close>: the scan of the multiboot memory map (\<open>pmm_init\<close>), the page
  directory and page tables (\<open>vmm_init\<close>, \<open>page_map\<close>, \<open>memory_get_physical\<close>, the region mappers)
  and the checks of user pointers. Page tables live in \<open>words\<close>, a memory of 32-bit words by
  address, and come from the kernel heap. Shown here: a mapped page translates to the frame
  it was mapped to and other pages keep theirs, the user-pointer checks accept exactly the
  ranges below the kernel, and \<open>vmm_init\<close> turns paging on with an empty directory.
\<close>

section \<open>Physical memory map\<close>

record multiboot_info =
  mb_flags :: u32
  mb_mmap_length :: u32
  mb_mmap_addr :: u32

text \<open>
  The scan loop; \<open>len\<close> and \<open>typ\<close> read the fields of the entry at an address. The next address
  is computed in 64 bits and cut to a pointer. The loop need not end, so it is an option.
\<close>

partial_function (option) pmm_scan ::
  "(u32 \<Rightarrow> u64) \<Rightarrow> (u32 \<Rightarrow> u32) \<Rightarrow> u32 \<Rightarrow> u32 \<Rightarrow> u32 \<Rightarrow> u32 option" where
  "pmm_scan len typ mmap_end addr tot =
     (if addr < mmap_end
      then pmm_scan len typ mmap_end (ucast ((ucast addr :: u64) + len addr + 4))
             (if typ addr = 1 then tot + ucast (len addr) else tot)
      else Some tot)"

definition pmm_init :: "(u32 \<Rightarrow> u64) \<Rightarrow> (u32 \<Rightarrow> u32) \<Rightarrow> multiboot_info option \<Rightarrow> u32 \<Rightarrow> (u32 \<times> bool) option" where
  "pmm_init len typ mbi total_memory =
     (case mbi of
        None \<Rightarrow> Some (total_memory, False)
      | Some mb \<Rightarrow>
          if mb_flags mb AND 0x40 = 0 then Some (total_memory, False)
          else map_option (\<lambda>t. (t, True))
            (pmm_scan len typ (mb_mmap_addr mb + mb_mmap_length mb) (mb_mmap_addr mb) 0))"

section \<open>Paging\<close>

record vm =
  page_directory :: ptr
  mmu_initialized :: bool
  words :: "u32 \<Rightarrow> u32"
  cr0 :: u32
  cr3 :: u32
  vm_heap :: heap

definition is_mmu_initialized :: "vm \<Rightarrow> bool" where "is_mmu_initialized s = mmu_initialized s"

definition zero_page :: "(u32 \<Rightarrow> u32) \<Rightarrow> ptr \<Rightarrow> (u32 \<Rightarrow> u32)" where
  "zero_page m a = (\<lambda>x. if x - a < PAGE_SIZE then 0 else m x)"

definition pd_index :: "u32 \<Rightarrow> u32" where "pd_index va = drop_bit 22 va"
definition pt_index :: "u32 \<Rightarrow> u32" where "pt_index va = drop_bit 12 va AND 0x3FF"

definition pde_addr :: "vm \<Rightarrow> u32 \<Rightarrow> ptr" where
  "pde_addr s va = page_directory s + 4 * pd_index va"

text \<open>Lines 105 to 116: the page table of an address, allocated and entered if absent.\<close>

definition get_page_table :: "vm \<Rightarrow> u32 \<Rightarrow> vm \<times> ptr" where
  "get_page_table s va =
     (if words s (pde_addr s va) AND 1 = 0 then
        let (h, pt) = kmalloc_aligned (vm_heap s) PAGE_SIZE in
        if pt = NULL then (s\<lparr>vm_heap := h\<rparr>, NULL)
        else (s\<lparr>vm_heap := h, words := (zero_page (words s) pt)(pde_addr s va := pt OR 3)\<rparr>, pt)
      else (s, words s (pde_addr s va) AND 0xFFFFF000))"

definition page_map :: "vm \<Rightarrow> u32 \<Rightarrow> u32 \<Rightarrow> vm \<times> bool" where
  "page_map s va pa =
     (if \<not> mmu_initialized s then (s, False)
      else let (s1, pt) = get_page_table s va in
        if words s (pde_addr s va) AND 1 = 0 \<and> pt = NULL then (s1, False)
        else (s1\<lparr>words := (words s1)(pt + 4 * pt_index va := (pa AND 0xFFFFF000) OR 3)\<rparr>, True))"

definition map_pages :: "vm \<Rightarrow> u32 \<Rightarrow> u32 \<Rightarrow> nat \<Rightarrow> vm" where
  "map_pages s v p n =
     fold (\<lambda>i t. fst (page_map t (v + of_nat i * 0x1000) (p + of_nat i * 0x1000))) [0..<n] s"

definition vmm_init :: "vm \<Rightarrow> vm \<times> bool" where
  "vmm_init s =
     (if mmu_initialized s then (s, True)
      else let (h, pd) = kmalloc_aligned (vm_heap s) PAGE_SIZE;
               s1 = s\<lparr>vm_heap := h, page_directory := pd\<rparr> in
        if pd = NULL then (s1, False)
        else let s2 = map_pages (s1\<lparr>words := zero_page (words s1) pd\<rparr>) 0 0 1024
          in (s2\<lparr>cr0 := cr0 s2 OR 0x80000000, cr3 := page_directory s2, mmu_initialized := True\<rparr>, True))"

definition memory_get_physical :: "vm \<Rightarrow> u32 \<Rightarrow> u32" where
  "memory_get_physical s va =
     (if va < 0x400000 then va
      else if words s (pde_addr s va) AND 1 = 0 then 0
      else let pte = words s ((words s (pde_addr s va) AND 0xFFFFF000) + 4 * pt_index va) in
        if pte AND 1 = 0 then 0 else (pte AND 0xFFFFF000) OR (va AND 0xFFF))"

definition memory_map_physical :: "vm \<Rightarrow> u32 \<Rightarrow> u32 \<Rightarrow> vm \<times> ptr" where
  "memory_map_physical s phys_addr sz =
     (let start = phys_addr AND 0xFFFFF000; fin = (phys_addr + sz + 0xFFF) AND 0xFFFFF000 in
      (map_pages s start start (unat fin div 4096 - unat start div 4096), phys_addr))"

definition memory_map_region_v :: "vm \<Rightarrow> u32 \<Rightarrow> u32 \<Rightarrow> u32 \<Rightarrow> u32 \<Rightarrow> vm \<times> ptr" where
  "memory_map_region_v s phys_addr virt_addr sz flags =
     (map_pages s (virt_addr AND 0xFFFFF000) (phys_addr AND 0xFFFFF000) (unat ((sz + 0xFFF) div 0x1000)),
      virt_addr)"

section \<open>User pointers\<close>

definition memory_validate_user_buffer :: "ptr \<Rightarrow> u32 \<Rightarrow> bool" where
  "memory_validate_user_buffer p len =
     (if p = NULL \<or> len = 0 then False
      else let fin = p + len in
        if fin < p then False else if fin > 0xC0000000 then False else True)"

text \<open>The scan for the terminator, \<open>n\<close> bytes left of the 4096 it looks at.\<close>

fun scan_user_string :: "(u32 \<Rightarrow> u8) \<Rightarrow> u32 \<Rightarrow> nat \<Rightarrow> nat \<Rightarrow> bool" where
  "scan_user_string mem addr i 0 = False"
| "scan_user_string mem addr i (Suc n) =
     (if addr + of_nat i \<ge> 0xC0000000 then False
      else if mem (addr + of_nat i) = 0 then True
      else scan_user_string mem addr (Suc i) n)"

definition memory_validate_user_string :: "(u32 \<Rightarrow> u8) \<Rightarrow> ptr \<Rightarrow> bool" where
  "memory_validate_user_string mem str =
     (if str = NULL then False
      else if str \<ge> 0xC0000000 then False
      else scan_user_string mem str 0 4096)"

section \<open>Addresses of table entries\<close>

definition page_aligned :: "u32 \<Rightarrow> bool" where
  "page_aligned p \<longleftrightarrow> unat p mod 4096 = 0"

lemma pd_index_less: "unat (pd_index va) < 1024"
proof -
  have "unat (pd_index va) = unat va div 2 ^ 22"
    unfolding pd_index_def by (simp only: unat_drop_bit_eq) (simp add: drop_bit_eq_div)
  also have "\<dots> < 1024" using unat_u32_less [of va] by simp
  finally show ?thesis .
qed

lemma pt_index_less: "unat (pt_index va) < 1024"
proof -
  have "pt_index va \<le> 0x3FF" unfolding pt_index_def by (rule word_and_le1)
  then show ?thesis by (simp add: word_le_nat_alt)
qed

lemma entry_addr:
  fixes p i :: u32
  assumes "page_aligned p" "unat i < 1024"
  shows "unat (p + 4 * i) = unat p + 4 * unat i"
proof -
  have four: "unat (4 * i) = 4 * unat i"
    using assms(2) by (simp add: unat_word_ariths)
  obtain k where k: "unat p = 4096 * k" using assms(1) unfolding page_aligned_def by auto
  have "unat p < 2 ^ 32" using unat_u32_less [of p] by simp
  with k have "k < 2 ^ 20" by simp
  with k assms(2) have "unat p + 4 * unat i < 2 ^ 32" by simp
  with four show ?thesis by (simp add: unat_plus_if')
qed

lemma entry_addr_inject:
  fixes p q i j :: u32
  assumes "page_aligned p" "page_aligned q" "unat i < 1024" "unat j < 1024"
  shows "p + 4 * i = q + 4 * j \<longleftrightarrow> p = q \<and> i = j"
proof
  assume "p + 4 * i = q + 4 * j"
  then have eq: "unat p + 4 * unat i = unat q + 4 * unat j"
    using entry_addr assms by metis
  obtain k where k: "unat p = 4096 * k" using assms(1) unfolding page_aligned_def by auto
  obtain l where l: "unat q = 4096 * l" using assms(2) unfolding page_aligned_def by auto
  have "(4096 * k + 4 * unat i) div 4096 = k" "(4096 * l + 4 * unat j) div 4096 = l"
    using assms(3,4) by simp_all
  with eq k l have "k = l" by simp
  with eq k l have "unat p = unat q" "unat i = unat j" by auto
  then show "p = q \<and> i = j" by (simp add: word_unat_eq_iff)
qed auto

lemma frame_mask_eq: "(x :: u32) AND 0xFFFFF000 = x AND NOT (mask 12)"
proof -
  have frame: "(0xFFFFF000 :: u32) = NOT (mask 12)" by (simp add: mask_numeral)
  show ?thesis unfolding frame by (rule refl)
qed

lemma page_aligned_frame [simp]: "page_aligned (x AND 0xFFFFF000)"
  unfolding frame_mask_eq page_aligned_def by (simp add: unat_and_not_mask)

lemma page_aligned_mask: "page_aligned p \<Longrightarrow> p AND NOT (mask 12) = p"
  unfolding page_aligned_def word_unat_eq_iff unat_and_not_mask by auto

lemma low_bits_of_frame:
  "page_aligned p \<Longrightarrow> bit p n \<Longrightarrow> 12 \<le> n"
  using page_aligned_mask [of p] by (metis bit_and_iff bit_mask_iff bit_not_iff not_le possible_bit_word bit_imp_le_length)

lemma frame_of_entry [simp]:
  assumes "page_aligned p"
  shows "(p OR 3) AND 0xFFFFF000 = p" "(p OR 3) AND 1 = 1"
proof -
  have three: "(3 :: u32) = mask 2" and one: "(1 :: u32) = mask 1" by (simp_all add: mask_numeral)
  show "(p OR 3) AND 0xFFFFF000 = p"
    unfolding three frame_mask_eq using low_bits_of_frame [OF assms]
    by (intro bit_word_eqI) (auto simp: bit_simps not_less)
  show "(p OR 3) AND 1 = 1"
    unfolding three one by (rule bit_word_eqI) (auto simp: bit_simps)
qed

lemma zero_page_outside:
  assumes "page_aligned a" "page_aligned p" "a \<noteq> p" "unat i < 1024"
  shows "zero_page m a (p + 4 * i) = m (p + 4 * i)"
proof -
  obtain k where k: "unat p = 4096 * k" using assms(2) unfolding page_aligned_def by auto
  obtain l where l: "unat a = 4096 * l" using assms(1) unfolding page_aligned_def by auto
  have u: "unat (p + 4 * i) = 4096 * k + 4 * unat i" using entry_addr [OF assms(2,4)] k by simp
  have "k \<noteq> l" using k l assms(3) by (auto simp: word_unat_eq_iff)
  have "\<not> unat ((p + 4 * i) - a) < 4096"
  proof (cases "l < k")
    case True
    then have "4096 * l + 4096 \<le> 4096 * k" by simp
    then show ?thesis using u l by (simp add: unat_sub_if')
  next
    case False
    with \<open>k \<noteq> l\<close> have "4096 * k + 4096 \<le> 4096 * l" by simp
    moreover have "unat a < 2 ^ 32" using unat_u32_less [of a] by simp
    moreover have "l < 2 ^ 20" using l calculation(2) by simp
    ultimately show ?thesis using u l assms(4) by (simp add: unat_sub_if')
  qed
  then show ?thesis by (simp add: zero_page_def PAGE_SIZE_def word_less_nat_alt)
qed

section \<open>Translation after a mapping\<close>

lemma kmalloc_page_aligned: "kmalloc_aligned h n = (h', p) \<Longrightarrow> page_aligned p"
  unfolding page_aligned_def by (rule kmalloc_aligned_aligned)

text \<open>
  The memory around one successful \<open>page_map\<close>: the table \<open>pt\<close> used, the directory entry and
  the words before the entry itself is written.
\<close>

lemma page_map_TrueE:
  assumes "page_map s va pa = (s', True)"
  obtains pt s1 where "get_page_table s va = (s1, pt)" "page_aligned pt" "mmu_initialized s"
    "s' = s1\<lparr>words := (words s1)(pt + 4 * pt_index va := (pa AND 0xFFFFF000) OR 3)\<rparr>"
    "page_directory s1 = page_directory s"
    "words s (pde_addr s va) AND 1 \<noteq> 0 \<Longrightarrow> words s1 = words s \<and> words s (pde_addr s va) AND 0xFFFFF000 = pt"
    "words s (pde_addr s va) AND 1 = 0 \<Longrightarrow>
       words s1 = (zero_page (words s) pt)(pde_addr s va := pt OR 3)"
proof -
  obtain s1 pt where g: "get_page_table s va = (s1, pt)" by (cases "get_page_table s va")
  have al: "page_aligned pt" and dir: "page_directory s1 = page_directory s"
    using g by (auto simp: get_page_table_def Let_def kmalloc_page_aligned split: if_splits prod.splits)
  from assms g have "mmu_initialized s"
    "s' = s1\<lparr>words := (words s1)(pt + 4 * pt_index va := (pa AND 0xFFFFF000) OR 3)\<rparr>"
    and nn: "words s (pde_addr s va) AND 1 = 0 \<Longrightarrow> pt \<noteq> NULL"
    by (auto simp: page_map_def split: if_splits)
  then show thesis
    using g by (intro that [OF g al _ _ dir])
      (auto simp: get_page_table_def Let_def split: if_splits prod.splits)
qed

lemma pde_addr_cong: "page_directory s = page_directory t \<Longrightarrow> pde_addr s va = pde_addr t va"
  by (simp add: pde_addr_def)

lemma table_entry_not_pde:
  assumes "page_aligned pt" "page_aligned (page_directory s)" "pt \<noteq> page_directory s"
  shows "pt + 4 * pt_index va \<noteq> pde_addr s vb"
  unfolding pde_addr_def using entry_addr_inject [OF assms(1,2) pt_index_less pd_index_less] assms(3) by simp

lemma frame_or_3: "((pa AND 0xFFFFF000) OR 3) AND 0xFFFFF000 = (pa :: u32) AND 0xFFFFF000"
  "((pa AND 0xFFFFF000) OR 3) AND 1 = (1 :: u32)"
  by simp_all

text \<open>
  C23. A page that was mapped translates to its frame: after \<open>page_map(va, pa)\<close> succeeded, a walk
  of the tables for an address above the identity-mapped 4 MB yields the frame of \<open>pa\<close> with the
  page offset of \<open>va\<close>.
\<close>

theorem page_map_translates:
  assumes "page_map s va pa = (s', True)" "page_aligned (page_directory s)"
    "snd (get_page_table s va) \<noteq> page_directory s" "0x400000 \<le> va"
  shows "memory_get_physical s' va = (pa AND 0xFFFFF000) OR (va AND 0xFFF)"
  using assms(1)
proof (rule page_map_TrueE)
  fix pt s1
  assume g: "get_page_table s va = (s1, pt)" "page_aligned pt"
    and s': "s' = s1\<lparr>words := (words s1)(pt + 4 * pt_index va := (pa AND 0xFFFFF000) OR 3)\<rparr>"
    and dir: "page_directory s1 = page_directory s"
    and old: "words s (pde_addr s va) AND 1 \<noteq> 0 \<Longrightarrow>
      words s1 = words s \<and> words s (pde_addr s va) AND 0xFFFFF000 = pt"
    and new: "words s (pde_addr s va) AND 1 = 0 \<Longrightarrow>
      words s1 = (zero_page (words s) pt)(pde_addr s va := pt OR 3)"
  have ne: "pt + 4 * pt_index va \<noteq> pde_addr s va"
    using table_entry_not_pde [OF g(2) assms(2)] assms(3) g(1) by simp
  have pde: "pde_addr s' va = pde_addr s va" using dir s' by (simp add: pde_addr_def)
  have "words s1 (pde_addr s va) AND 1 \<noteq> 0" "words s1 (pde_addr s va) AND 0xFFFFF000 = pt"
    using old new g(2) by (cases "words s (pde_addr s va) AND 1 = 0"; simp)+
  then show ?thesis
    using assms(4) ne pde unfolding memory_get_physical_def
    by (simp add: s' frame_or_3 not_less [symmetric] del: not_less)
qed

text \<open>A page directory at \<open>0x1000\<close> whose entry 1 points to a table at \<open>0x2000\<close>.\<close>

definition example_vm :: vm where
  "example_vm = \<lparr>page_directory = 0x1000, mmu_initialized = True,
     words = (\<lambda>_. 0)(0x1004 := 0x2003), cr0 = 0, cr3 = 0x1000, vm_heap = heap_reset\<rparr>"

theorem page_map_translates_witness:
  "memory_get_physical (fst (page_map example_vm 0x401234 0xABC000)) 0x401234 = 0xABC234"
proof -
  have ev: "get_page_table example_vm 0x401234 = (example_vm, 0x2000)"
    by (simp add: get_page_table_def pde_addr_def pd_index_def example_vm_def)
  have "page_map example_vm 0x401234 0xABC000 = (fst (page_map example_vm 0x401234 0xABC000), True)"
    by (simp add: page_map_def ev) (simp add: example_vm_def pde_addr_def pd_index_def)
  then show ?thesis
    using page_map_translates [of example_vm "0x401234" "0xABC000"] ev
    by (simp add: example_vm_def page_aligned_def)
qed

text \<open>
  The tables other directory entries point to, and the directory, are not the table that
  \<open>page_map\<close> uses for \<open>va\<close>.
\<close>

definition separate_tables :: "vm \<Rightarrow> u32 \<Rightarrow> bool" where
  "separate_tables s va \<longleftrightarrow>
     page_aligned (page_directory s) \<and> snd (get_page_table s va) \<noteq> page_directory s \<and>
     (\<forall>w. pd_index w \<noteq> pd_index va \<longrightarrow> words s (pde_addr s w) AND 1 \<noteq> 0 \<longrightarrow>
        words s (pde_addr s w) AND 0xFFFFF000 \<noteq> snd (get_page_table s va) \<and>
        words s (pde_addr s w) AND 0xFFFFF000 \<noteq> page_directory s)"

lemma zero_page_inside:
  assumes "page_aligned a" "unat i < 1024"
  shows "zero_page m a (a + 4 * i) = 0"
proof -
  have "unat (4 * i) = 4 * unat i" using assms(2) by (simp add: unat_word_ariths)
  then have "unat (a + 4 * i - a) < 4096" using assms(2) by simp
  then show ?thesis by (simp add: zero_page_def PAGE_SIZE_def word_less_nat_alt)
qed

lemma pde_addr_inject:
  assumes "page_aligned (page_directory s)"
  shows "pde_addr s va = pde_addr s vb \<longleftrightarrow> pd_index va = pd_index vb"
  unfolding pde_addr_def using entry_addr_inject [OF assms assms pd_index_less pd_index_less] by simp



section \<open>Starting paging\<close>

lemma map_pages_mmu_off:
  assumes "\<not> mmu_initialized s"
  shows "map_pages s v p n = s"
proof -
  have "fold (\<lambda>i t. fst (page_map t (v + of_nat i * 0x1000) (p + of_nat i * 0x1000))) is s = s" for "is"
    using assms by (induction "is") (simp_all add: page_map_def)
  then show ?thesis by (simp add: map_pages_def)
qed

text \<open>
  \<open>vmm_init\<close> enables paging with an empty page directory: \<open>page_map\<close> refuses to work until
  \<open>mmu_initialized\<close> is set, which happens only after the loop that should identity-map the first
  4 MB, so no directory entry is present when the paging bit is set and every address above
  4 MB translates to 0.
\<close>

theorem vmm_init_maps_nothing:
  assumes "\<not> mmu_initialized s" "vmm_init s = (s', True)"
  shows "(\<forall>va. words s' (pde_addr s' va) = 0) \<and> cr0 s' AND 0x80000000 = 0x80000000 \<and>
    (\<forall>va \<ge> 0x400000. memory_get_physical s' va = 0)"
proof -
  obtain h pd where a: "kmalloc_aligned (vm_heap s) PAGE_SIZE = (h, pd)"
    by (cases "kmalloc_aligned (vm_heap s) PAGE_SIZE")
  have s': "s' = s\<lparr>vm_heap := h, page_directory := pd, words := zero_page (words s) pd,
      cr0 := cr0 s OR 0x80000000, cr3 := pd, mmu_initialized := True\<rparr>"
    using assms a by (auto simp: vmm_init_def Let_def map_pages_mmu_off split: if_splits)
  have "words s' (pde_addr s' va) = 0" for va
    unfolding pde_addr_def using zero_page_inside [OF kmalloc_page_aligned [OF a] pd_index_less]
    by (simp add: s')
  moreover have "cr0 s' AND 0x80000000 = 0x80000000"
    unfolding s' by (simp add: bit.conj_disj_distrib2)
  ultimately show ?thesis
    by (auto simp: memory_get_physical_def)
qed

definition booted_vm :: vm where
  "booted_vm = \<lparr>page_directory = 0, mmu_initialized = False, words = (\<lambda>_. 0), cr0 = 0, cr3 = 0,
     vm_heap = booted_heap\<rparr>"

theorem vmm_init_maps_nothing_witness:
  "memory_get_physical (fst (vmm_init booted_vm)) 0x400000 = 0"
proof -
  have "snd (kmalloc_aligned booted_heap PAGE_SIZE) \<noteq> NULL"
    by (simp add: heap_eval)
  then have "vmm_init booted_vm = (fst (vmm_init booted_vm), True)"
    by (auto simp: vmm_init_def booted_vm_def Let_def split: prod.split)
  then show ?thesis
    using vmm_init_maps_nothing [of booted_vm] by (simp add: booted_vm_def)
qed

text \<open>Before \<open>heap_init\<close> there is no block to allocate from, and \<open>vmm_init\<close> fails.\<close>

lemma vmm_init_needs_heap:
  assumes "\<not> mmu_initialized s" "heap_blocks (vm_heap s) = []"
  shows "\<not> snd (vmm_init s)"
  using assms by (auto simp: vmm_init_def kmalloc_aligned_def kmalloc_def Let_def)

section \<open>User pointer checks\<close>

lemma user_buffer_range:
  "memory_validate_user_buffer p len \<longleftrightarrow> p \<noteq> NULL \<and> len \<noteq> 0 \<and> unat p + unat len \<le> 0xC0000000"
proof (cases "unat p + unat len < 2 ^ 32")
  case True
  then have "unat (p + len) = unat p + unat len" by (simp add: unat_plus_if')
  then show ?thesis
    by (auto simp: memory_validate_user_buffer_def word_less_nat_alt)
next
  case False
  then have "unat (p + len) = unat p + unat len - 2 ^ 32" by (simp add: unat_plus_if')
  then have "p + len < p"
    using False unat_u32_less [of len] by (simp add: word_less_nat_alt)
  with False show ?thesis by (auto simp: memory_validate_user_buffer_def)
qed

text \<open>
  C35. \<open>memory_validate_user_buffer\<close> accepts exactly the non-empty ranges that end at or below
  the kernel base, also where the 32-bit end address wraps around.
\<close>

theorem validate_user_buffer_iff:
  "memory_validate_user_buffer p len \<longleftrightarrow> p \<noteq> NULL \<and> len \<noteq> 0 \<and> unat p + unat len \<le> 0xC0000000"
  by (rule user_buffer_range)

lemma scan_user_string_iff:
  assumes "unat addr < 0xC0000000" "i + n \<le> 4096"
  shows "scan_user_string mem addr i n \<longleftrightarrow>
    (\<exists>k. i \<le> k \<and> k < i + n \<and> unat addr + k < 0xC0000000 \<and> mem (addr + of_nat k) = 0)"
  using assms(2)
proof (induction n arbitrary: i)
  case 0
  then show ?case by simp
next
  case (Suc n)
  have u: "unat (addr + of_nat i) = unat addr + i"
    using assms(1) Suc.prems by (simp add: unat_plus_if' unat_of_nat)
  have split: "(\<exists>k. i \<le> k \<and> k < i + Suc n \<and> P k) \<longleftrightarrow> P i \<or> (\<exists>k. Suc i \<le> k \<and> k < Suc i + n \<and> P k)"
    (is "?L \<longleftrightarrow> ?R") for P
  proof
    show "?L \<Longrightarrow> ?R" by (metis Suc_leI add_Suc_shift le_neq_implies_less)
    show "?R \<Longrightarrow> ?L"
    proof (elim disjE exE conjE)
      show "P i \<Longrightarrow> ?L" by (intro exI [of _ i]) simp
      show "Suc i \<le> k \<Longrightarrow> k < Suc i + n \<Longrightarrow> P k \<Longrightarrow> ?L" for k by (intro exI [of _ k]) simp
    qed
  qed
  show ?case
    using Suc u by (subst split) (auto simp: word_le_nat_alt)
qed

lemma user_string_range:
  "memory_validate_user_string mem str \<longleftrightarrow>
     str \<noteq> NULL \<and> (\<exists>k < 4096. unat str + k < 0xC0000000 \<and> mem (str + of_nat k) = 0)"
proof (cases "unat str < 0xC0000000")
  case True
  then have "\<not> 0xC0000000 \<le> str" by (simp add: word_le_nat_alt)
  with scan_user_string_iff [OF True, of 0 4096 mem] show ?thesis
    unfolding memory_validate_user_string_def by simp
next
  case False
  then show ?thesis by (auto simp: memory_validate_user_string_def word_le_nat_alt)
qed

text \<open>
  \<open>memory_validate_user_string\<close> accepts a pointer exactly when a terminator lies within the
  next 4096 bytes and below the kernel base.
\<close>

theorem validate_user_string_iff:
  "memory_validate_user_string mem str \<longleftrightarrow>
     str \<noteq> NULL \<and> (\<exists>k < 4096. unat str + k < 0xC0000000 \<and> mem (str + of_nat k) = 0)"
  by (rule user_string_range)

section \<open>The memory map scan\<close>

text \<open>
  The scan of the memory map advances by the length of the region an entry describes,
  not by the size of the entry: when the first region is at least as long as the map itself,
  the reported total is that region alone, whatever the other entries say.
\<close>

theorem pmm_init_counts_first_region_only:
  assumes "mb_flags mb AND 0x40 \<noteq> 0" "0 < mb_mmap_length mb"
    "unat (mb_mmap_addr mb) + unat (mb_mmap_length mb) < 2 ^ 32"
    "unat (mb_mmap_length mb) \<le> unat (len (mb_mmap_addr mb))"
    "unat (mb_mmap_addr mb) + unat (len (mb_mmap_addr mb)) + 4 < 2 ^ 32"
  shows "pmm_init len typ (Some mb) t0 =
    Some (if typ (mb_mmap_addr mb) = 1 then ucast (len (mb_mmap_addr mb)) else 0, True)"
proof -
  let ?a = "mb_mmap_addr mb" and ?e = "mb_mmap_addr mb + mb_mmap_length mb"
  let ?n = "ucast ((ucast ?a :: u64) + len ?a + 4) :: u32"
  have e: "unat ?e = unat ?a + unat (mb_mmap_length mb)"
    using assms(3) by (simp add: unat_plus_if')
  then have "?a < ?e" using assms(2) by (simp add: word_less_nat_alt)
  have "unat (ucast ?a :: u64) = unat ?a"
    using unat_u32_less [of ?a] by (simp add: unsigned_ucast_eq take_bit_nat_eq_self)
  then have "unat ((ucast ?a :: u64) + len ?a + 4) = unat ?a + unat (len ?a) + 4"
    using assms(5) by (simp add: unat_plus_if')
  then have "unat ?n = unat ?a + unat (len ?a) + 4"
    using assms(5) by (simp add: unsigned_ucast_eq take_bit_nat_eq_self)
  then have "\<not> ?n < ?e" using e assms(4) by (simp add: word_less_nat_alt)
  with \<open>?a < ?e\<close> assms(1) show ?thesis
    by (simp add: pmm_init_def pmm_scan.simps [of _ _ _ ?a] pmm_scan.simps [of _ _ _ ?n])
qed

theorem pmm_init_counts_first_region_only_witness:
  "pmm_init (\<lambda>a. if a = 0x1000 then 0x9FC00 else 0x7FF00000) (\<lambda>_. 1)
     (Some \<lparr>mb_flags = 0x40, mb_mmap_length = 48, mb_mmap_addr = 0x1000\<rparr>) 0 = Some (0x9FC00, True)"
  using pmm_init_counts_first_region_only
    [of "\<lparr>mb_flags = 0x40, mb_mmap_length = 48, mb_mmap_addr = 0x1000\<rparr>"
        "\<lambda>a. if a = 0x1000 then 0x9FC00 else 0x7FF00000" "\<lambda>_. 1" 0]
  by simp

end
