(* ===== verification/Process_Manager.thy ===== *)
theory Process_Manager
  imports Kernel_Heap
begin

text \<open>
  The process manager of \<^verbatim>\<open>kernel/process.c\<close>. Process structures are objects in a store
  \<open>k_procs\<close> keyed by the address \<open>kmalloc\<close> returned, the table \<open>processes\<close> holds their
  addresses, stacks live in the word memory \<open>k_mem\<close> and the registers \<open>esp\<close> and \<open>ebp\<close> are part
  of the state. The source writes \<open>process->id\<close> for the field \<open>pid\<close> and uses the fields \<open>stack\<close>
  and \<open>entry\<close> that the header lacks; the record has them. Shown here: the table invariant
  (position and pid agree, no process twice) survives creation and destruction, scheduling
  is round robin, and \<open>process_schedule\<close> never changes the stack it runs on.
\<close>

section \<open>State\<close>

datatype process_state =
  PROCESS_STATE_READY | PROCESS_STATE_RUNNING | PROCESS_STATE_BLOCKED | PROCESS_STATE_TERMINATED

record file_descriptor =
  fd_node :: ptr
  fd_offset :: u32
  fd_flags :: u32

record process =
  pid :: u32
  p_state :: process_state
  p_esp :: u32
  p_ebp :: u32
  p_eip :: u32
  p_page_directory :: u32
  p_priority :: u8
  p_quantum :: u32
  p_total_runtime :: u32
  p_last_run :: u32
  p_fds :: "file_descriptor list"
  p_fd_count :: u32
  p_caps :: u32
  p_next :: ptr
  p_name :: string
  p_stack :: ptr
  p_entry :: ptr

record kstate =
  k_heap :: heap
  k_procs :: "ptr \<rightharpoonup> process"
  k_mem :: "u32 \<Rightarrow> u32"
  k_esp :: u32
  k_ebp :: u32
  processes :: "ptr list"
  current_process :: ptr
  process_count :: nat
  pm_initialized :: bool

definition MAX_PROCESSES :: nat where "MAX_PROCESSES = 256"
definition PROCESS_STACK_SIZE :: u32 where "PROCESS_STACK_SIZE = 16384"
definition PROCESS_NAME_MAX :: nat where "PROCESS_NAME_MAX = 256"
definition MAX_FILES_PER_PROCESS :: nat where "MAX_FILES_PER_PROCESS = 32"
definition sizeof_process :: u32 where "sizeof_process = 697"

lemmas process_consts [kernel_defs] = MAX_PROCESSES_def PROCESS_STACK_SIZE_def PROCESS_NAME_MAX_def
  MAX_FILES_PER_PROCESS_def sizeof_process_def

text \<open>Writing a field of the process at an address; nothing happens at a dead address.\<close>

definition upd_proc :: "ptr \<Rightarrow> (process \<Rightarrow> process) \<Rightarrow> 'a kstate_scheme \<Rightarrow> 'a kstate_scheme" where
  "upd_proc p f k = k\<lparr>k_procs := (k_procs k)(p := map_option f (k_procs k p))\<rparr>"

lemma upd_proc_simps [simp]:
  "k_procs (upd_proc p f k) = (k_procs k)(p := map_option f (k_procs k p))"
  "k_heap (upd_proc p f k) = k_heap k" "k_mem (upd_proc p f k) = k_mem k"
  "k_esp (upd_proc p f k) = k_esp k" "k_ebp (upd_proc p f k) = k_ebp k"
  "processes (upd_proc p f k) = processes k" "current_process (upd_proc p f k) = current_process k"
  "process_count (upd_proc p f k) = process_count k" "pm_initialized (upd_proc p f k) = pm_initialized k"
  by (simp_all add: upd_proc_def)

section \<open>Operations\<close>

definition process_init :: "'a kstate_scheme \<Rightarrow> 'a kstate_scheme \<times> bool" where
  "process_init k =
     (if pm_initialized k then (k, True)
      else (k\<lparr>processes := replicate MAX_PROCESSES NULL, current_process := NULL,
              process_count := 0, pm_initialized := True\<rparr>, True))"

text \<open>\<^verbatim>\<open>*--stack = w\<close> for each word in turn.\<close>

fun push_words :: "(u32 \<Rightarrow> u32) \<Rightarrow> u32 \<Rightarrow> u32 list \<Rightarrow> (u32 \<Rightarrow> u32) \<times> u32" where
  "push_words mem sp [] = (mem, sp)"
| "push_words mem sp (w # ws) = push_words (mem(sp - 4 := w)) (sp - 4) ws"

definition initial_frame :: "ptr \<Rightarrow> u32 list" where
  "initial_frame entry =
     [0x202, 0x08, entry, 0, 0, 0, 0, 0, 0, 0, 0, 0, 0, 0x10, 0x10, 0x10, 0x10]"

definition process_create :: "'a kstate_scheme \<Rightarrow> string option \<Rightarrow> ptr \<Rightarrow> 'a kstate_scheme \<times> ptr" where
  "process_create k name entry =
     (if \<not> pm_initialized k \<or> name = None \<or> entry = NULL \<or> process_count k \<ge> MAX_PROCESSES
      then (k, NULL)
      else let (h1, p) = kmalloc (k_heap k) sizeof_process in
        if p = NULL then (k\<lparr>k_heap := h1\<rparr>, NULL)
        else let (h2, stack) = kmalloc h1 PROCESS_STACK_SIZE in
          if stack = NULL then (k\<lparr>k_heap := kfree h2 p\<rparr>, NULL)
          else let (mem, sp) = push_words (k_mem k) (stack + PROCESS_STACK_SIZE) (initial_frame entry);
                   proc = \<lparr>pid = of_nat (process_count k), p_state = PROCESS_STATE_READY,
                     p_esp = sp, p_ebp = 0, p_eip = 0, p_page_directory = 0, p_priority = 1, p_quantum = 10, p_total_runtime = 0,
                     p_last_run = 0,
                     p_fds = replicate MAX_FILES_PER_PROCESS \<lparr>fd_node = NULL, fd_offset = 0, fd_flags = 0\<rparr>,
                     p_fd_count = 0, p_caps = 0, p_next = NULL, p_name = take (PROCESS_NAME_MAX - 1) (the name),
                     p_stack = stack, p_entry = entry\<rparr>
            in (k\<lparr>k_heap := h2, k_mem := mem, k_procs := (k_procs k)(p \<mapsto> proc),
                  processes := (processes k)[process_count k := p],
                  process_count := Suc (process_count k)\<rparr>, p))"

text \<open>The inner loop of \<open>process_destroy\<close>: entries above \<open>i\<close> move down and get their new pid.\<close>

fun shift_processes :: "nat list \<Rightarrow> 'a kstate_scheme \<Rightarrow> 'a kstate_scheme" where
  "shift_processes [] k = k"
| "shift_processes (j # js) k =
     (let q = processes k ! Suc j in
      shift_processes js (upd_proc q (\<lambda>pr. pr\<lparr>pid := of_nat j\<rparr>) (k\<lparr>processes := (processes k)[j := q]\<rparr>)))"

definition unlink_process :: "'a kstate_scheme \<Rightarrow> ptr \<Rightarrow> 'a kstate_scheme" where
  "unlink_process k p =
     (case first_index (\<lambda>q. q = p) (take (process_count k) (processes k)) of
        None \<Rightarrow> k
      | Some i \<Rightarrow> (shift_processes [i..<process_count k - 1] k)\<lparr>process_count := process_count k - 1\<rparr>)"

definition process_destroy :: "'a kstate_scheme \<Rightarrow> ptr \<Rightarrow> fault + 'a kstate_scheme" where
  "process_destroy k p =
     (if \<not> pm_initialized k \<or> p = NULL then Inr k
      else let k1 = unlink_process k p in
        case k_procs k1 p of
          None \<Rightarrow> Inl Dangling_pointer
        | Some pr \<Rightarrow>
            let h1 = (if p_stack pr \<noteq> NULL then kfree (k_heap k1) (p_stack pr) else k_heap k1);
                k2 = k1\<lparr>k_heap := kfree h1 p, k_procs := (k_procs k1)(p := None)\<rparr>
            in Inr (if current_process k2 = p then k2\<lparr>current_process := NULL\<rparr> else k2))"

definition process_switch :: "'a kstate_scheme \<Rightarrow> ptr \<Rightarrow> fault + 'a kstate_scheme" where
  "process_switch k nxt =
     (if \<not> pm_initialized k \<or> nxt = NULL then Inr k
      else let k1 = (if current_process k \<noteq> NULL
                     then upd_proc (current_process k) (\<lambda>pr. pr\<lparr>p_esp := k_esp k, p_ebp := k_ebp k\<rparr>) k
                     else k) in
        case k_procs k1 nxt of
          None \<Rightarrow> Inl Dangling_pointer
        | Some pr \<Rightarrow> Inr (k1\<lparr>k_esp := p_esp pr, k_ebp := p_ebp pr, current_process := nxt\<rparr>))"

definition process_schedule :: "'a kstate_scheme \<Rightarrow> fault + 'a kstate_scheme" where
  "process_schedule k =
     (if \<not> pm_initialized k \<or> process_count k = 0 then Inr k
      else if current_process k = NULL then
        let k1 = k\<lparr>current_process := processes k ! 0\<rparr> in process_switch k1 (current_process k1)
      else case k_procs k (current_process k) of
          None \<Rightarrow> Inl Dangling_pointer
        | Some pr \<Rightarrow>
            let next_id = unat (pid pr + 1) mod process_count k;
                k1 = k\<lparr>current_process := processes k ! next_id\<rparr>
            in process_switch k1 (current_process k1))"

definition process_get_current :: "'a kstate_scheme \<Rightarrow> ptr" where
  "process_get_current k = current_process k"

definition process_get_count :: "'a kstate_scheme \<Rightarrow> nat" where
  "process_get_count k = process_count k"

definition process_is_initialized :: "'a kstate_scheme \<Rightarrow> bool" where
  "process_is_initialized k = pm_initialized k"

section \<open>The table invariant\<close>

definition table :: "'a kstate_scheme \<Rightarrow> ptr list" where
  "table k = take (process_count k) (processes k)"

definition pm_inv :: "'a kstate_scheme \<Rightarrow> bool" where
  "pm_inv k \<longleftrightarrow>
     length (processes k) = MAX_PROCESSES \<and> process_count k \<le> MAX_PROCESSES \<and>
     distinct (table k) \<and> NULL \<notin> set (table k) \<and>
     (\<forall>i < process_count k. \<exists>pr. k_procs k (processes k ! i) = Some pr \<and> pid pr = of_nat i) \<and>
     (current_process k = NULL \<or> current_process k \<in> set (table k))"

text \<open>Every process in the table sits in a block that the heap has handed out.\<close>

definition procs_allocated :: "'a kstate_scheme \<Rightarrow> bool" where
  "procs_allocated k \<longleftrightarrow>
     set (table k) \<subseteq> live_ptrs (k_heap k)"

lemma table_nth: "i < process_count k \<Longrightarrow> table k ! i = processes k ! i"
  by (simp add: table_def)

lemma length_table: "pm_inv k \<Longrightarrow> length (table k) = process_count k"
  by (simp add: pm_inv_def table_def)

lemma current_in_table:
  assumes "pm_inv k" "current_process k \<noteq> NULL"
  obtains i pr where "i < process_count k" "current_process k = processes k ! i"
    "k_procs k (current_process k) = Some pr" "pid pr = of_nat i"
proof -
  have "current_process k \<in> set (table k)" using assms by (simp add: pm_inv_def)
  then obtain i where "i < length (table k)" "table k ! i = current_process k"
    by (auto simp: in_set_conv_nth)
  then have i: "i < process_count k" "current_process k = processes k ! i"
    using length_table [OF assms(1)] by (simp_all add: table_nth)
  then show thesis using assms(1) that unfolding pm_inv_def by fastforce
qed

lemma shift_processes_frame [simp]:
  "process_count (shift_processes js k) = process_count k"
  "current_process (shift_processes js k) = current_process k"
  "pm_initialized (shift_processes js k) = pm_initialized k"
  "k_heap (shift_processes js k) = k_heap k"
  "k_esp (shift_processes js k) = k_esp k" "k_ebp (shift_processes js k) = k_ebp k"
  "length (processes (shift_processes js k)) = length (processes k)"
  by (induction js k rule: shift_processes.induct) (simp_all add: Let_def)

lemma shift_processes_table:
  assumes "m < length (processes k)"
  shows "processes (shift_processes [i..<m] k) ! j
    = (if i \<le> j \<and> j < m then processes k ! Suc j else processes k ! j)"
  using assms
proof (induction "m - i" arbitrary: i k)
  case 0
  then show ?case by auto
next
  case (Suc d)
  then have "i < m" by simp
  then have up: "[i..<m] = i # [Suc i..<m]" by (simp add: upt_rec)
  let ?k = "upd_proc (processes k ! Suc i) (\<lambda>pr. pr\<lparr>pid := of_nat i\<rparr>)
    (k\<lparr>processes := (processes k)[i := processes k ! Suc i]\<rparr>)"
  have "processes (shift_processes [Suc i..<m] ?k) ! j
    = (if Suc i \<le> j \<and> j < m then processes ?k ! Suc j else processes ?k ! j)"
    using Suc by (intro Suc.hyps(1)) simp_all
  with up \<open>i < m\<close> Suc.prems show ?case by (auto simp: Let_def nth_list_update)
qed

lemma shift_processes_miss:
  assumes "m < length (processes k)" "\<And>j. i \<le> j \<Longrightarrow> j < m \<Longrightarrow> q \<noteq> processes k ! Suc j"
  shows "k_procs (shift_processes [i..<m] k) q = k_procs k q"
  using assms
proof (induction "m - i" arbitrary: i k)
  case 0
  then show ?case by simp
next
  case (Suc d)
  then have "i < m" by simp
  then have up: "[i..<m] = i # [Suc i..<m]" by (simp add: upt_rec)
  let ?k = "upd_proc (processes k ! Suc i) (\<lambda>pr. pr\<lparr>pid := of_nat i\<rparr>)
    (k\<lparr>processes := (processes k)[i := processes k ! Suc i]\<rparr>)"
  have "k_procs (shift_processes [Suc i..<m] ?k) q = k_procs ?k q"
    using Suc.hyps(2) Suc.prems by (intro Suc.hyps(1)) simp_all
  with up Suc.prems(2) [of i] \<open>i < m\<close> show ?case by (simp add: Let_def)
qed

lemma shift_processes_hit:
  assumes "m < length (processes k)" "i \<le> j" "j < m"
    "\<And>a b. i < a \<Longrightarrow> a < b \<Longrightarrow> b \<le> m \<Longrightarrow> processes k ! a \<noteq> processes k ! b"
  shows "k_procs (shift_processes [i..<m] k) (processes k ! Suc j)
    = map_option (\<lambda>pr. pr\<lparr>pid := of_nat j\<rparr>) (k_procs k (processes k ! Suc j))"
  using assms
proof (induction "m - i" arbitrary: i k)
  case 0
  then show ?case by simp
next
  case (Suc d)
  then have "i < m" by simp
  then have up: "[i..<m] = i # [Suc i..<m]" by (simp add: upt_rec)
  let ?k = "upd_proc (processes k ! Suc i) (\<lambda>pr. pr\<lparr>pid := of_nat i\<rparr>)
    (k\<lparr>processes := (processes k)[i := processes k ! Suc i]\<rparr>)"
  show ?case
  proof (cases "j = i")
    case True
    have "k_procs (shift_processes [Suc i..<m] ?k) (processes k ! Suc i) = k_procs ?k (processes k ! Suc i)"
      using Suc.prems \<open>i < m\<close> by (intro shift_processes_miss) simp_all
    with True up show ?thesis by (simp add: Let_def)
  next
    case False
    have "k_procs (shift_processes [Suc i..<m] ?k) (processes ?k ! Suc j)
      = map_option (\<lambda>pr. pr\<lparr>pid := of_nat j\<rparr>) (k_procs ?k (processes ?k ! Suc j))"
      using Suc.hyps(2) Suc.prems False by (intro Suc.hyps(1)) simp_all
    moreover have "processes k ! Suc i \<noteq> processes k ! Suc j"
      using Suc.prems(2-4) False by simp
    ultimately show ?thesis using False Suc.prems(2) up by (simp add: Let_def)
  qed
qed

text \<open>Unlinking the process at position \<open>i\<close> of the table.\<close>

lemma unlink_at:
  assumes "pm_inv k" "i < process_count k"
  defines "k' \<equiv> unlink_process k (processes k ! i)"
  shows "process_count k' = process_count k - 1"
    "\<And>j. j < process_count k - 1 \<Longrightarrow> processes k' ! j = processes k ! (if i \<le> j then Suc j else j)"
    "\<And>j. j < process_count k - 1 \<Longrightarrow> \<exists>pr. k_procs k' (processes k' ! j) = Some pr \<and> pid pr = of_nat j"
    "k_procs k' (processes k ! i) = k_procs k (processes k ! i)"
    "length (processes k') = MAX_PROCESSES"
proof -
  let ?m = "process_count k - 1"
  have len: "?m < length (processes k)" "process_count k \<le> length (processes k)"
    using assms(1,2) by (auto simp: pm_inv_def process_consts)
  have dist: "processes k ! a \<noteq> processes k ! b" if "a < process_count k" "b < process_count k" "a \<noteq> b" for a b
    using assms(1) that length_table [OF assms(1)] table_nth [of a k] table_nth [of b k]
    unfolding pm_inv_def by (metis nth_eq_iff_index_eq)
  have "first_index (\<lambda>q. q = processes k ! i) (take (process_count k) (processes k)) = Some i"
    using assms(2) len dist by (intro first_index_SomeI) auto
  then have k': "k' = (shift_processes [i..<?m] k)\<lparr>process_count := ?m\<rparr>"
    by (simp add: k'_def unlink_process_def)
  show "process_count k' = ?m" "length (processes k') = MAX_PROCESSES"
    using assms(1) by (simp_all add: k' pm_inv_def)
  show nth: "processes k' ! j = processes k ! (if i \<le> j then Suc j else j)" if "j < ?m" for j
    using shift_processes_table [OF len(1)] that by (simp add: k')
  show "k_procs k' (processes k ! i) = k_procs k (processes k ! i)"
    unfolding k' by (simp, intro shift_processes_miss len(1)) (use dist assms(2) len in auto)
  show "\<exists>pr. k_procs k' (processes k' ! j) = Some pr \<and> pid pr = of_nat j" if j: "j < ?m" for j
  proof (cases "i \<le> j")
    case True
    have "k_procs k' (processes k ! Suc j) = map_option (\<lambda>pr. pr\<lparr>pid := of_nat j\<rparr>) (k_procs k (processes k ! Suc j))"
      unfolding k' using dist j True len(1) by (simp, intro shift_processes_hit) auto
    moreover obtain pr where "k_procs k (processes k ! Suc j) = Some pr"
      using assms(1) j unfolding pm_inv_def by (metis less_diff_conv Suc_eq_plus1)
    ultimately show ?thesis using nth [OF j] True by simp
  next
    case False
    have "k_procs k' (processes k ! j) = k_procs k (processes k ! j)"
      unfolding k' using dist j False len(1) by (simp, intro shift_processes_miss) auto
    moreover obtain pr where "k_procs k (processes k ! j) = Some pr" "pid pr = of_nat j"
      using assms(1) j unfolding pm_inv_def by (metis less_imp_diff_less less_trans diff_less_Suc less_SucE not_less_eq)
    ultimately show ?thesis using nth [OF j] False by simp
  qed
qed

lemma remove1_nth:
  assumes "distinct xs" "i < length xs"
  shows "remove1 (xs ! i) xs = take i xs @ drop (Suc i) xs"
proof -
  have xs: "xs = take i xs @ xs ! i # drop (Suc i) xs" using assms(2) by (rule id_take_nth_drop)
  have "xs ! i \<notin> set (take i xs)"
    using assms by (metis distinct_take id_take_nth_drop not_distinct_conv_prefix distinct_append xs Int_iff
        disjoint_iff list.set_intros(1))
  then show ?thesis by (subst (2) xs) (simp add: remove1_append)
qed

lemma unlink_table:
  assumes "pm_inv k" "i < process_count k"
  shows "table (unlink_process k (processes k ! i)) = remove1 (processes k ! i) (table k)"
proof -
  note u = unlink_at [OF assms]
  have len: "length (table k) = process_count k" using assms(1) by (rule length_table)
  have "table (unlink_process k (processes k ! i)) = take i (table k) @ drop (Suc i) (table k)"
  proof (rule nth_equalityI)
    show "length (table (unlink_process k (processes k ! i))) = length (take i (table k) @ drop (Suc i) (table k))"
      using u(1,5) assms len by (auto simp: table_def pm_inv_def)
    show "table (unlink_process k (processes k ! i)) ! j = (take i (table k) @ drop (Suc i) (table k)) ! j"
      if "j < length (table (unlink_process k (processes k ! i)))" for j
      using that u(1,2) assms(2) len by (auto simp: table_def nth_append)
  qed
  then show ?thesis
    using remove1_nth [of "table k" i] assms len by (simp add: pm_inv_def table_nth)
qed

lemma unlink_current [simp]:
  "current_process (unlink_process k p) = current_process k"
  "pm_initialized (unlink_process k p) = pm_initialized k"
  by (simp_all add: unlink_process_def split: option.split)

text \<open>One destruction, seen from the table and the store.\<close>

lemma process_destroy_step:
  assumes "pm_inv k" "pm_initialized k" "p \<in> set (table k)"
  shows "\<exists>k'. process_destroy k p = Inr k' \<and> pm_inv k' \<and> table k' = remove1 p (table k) \<and>
    k_procs k' p = None \<and>
    current_process k' = (if current_process k = p then NULL else current_process k)"
proof -
  obtain i where i: "i < process_count k" "p = processes k ! i"
    using assms(3) length_table [OF assms(1)] by (metis in_set_conv_nth table_nth)
  let ?u = "unlink_process k p"
  note u = unlink_at [OF assms(1) i(1), folded i(2)]
  note tab = unlink_table [OF assms(1) i(1), folded i(2)]
  have nn: "p \<noteq> NULL" using assms(1,3) by (auto simp: pm_inv_def)
  obtain pr where pr: "k_procs ?u p = Some pr"
    using u(4) assms(1) i unfolding pm_inv_def by metis
  have dist: "distinct (table k)" using assms(1) by (simp add: pm_inv_def)
  have np: "p \<notin> set (table ?u)" using tab dist by simp
  let ?h = "kfree (if p_stack pr \<noteq> NULL then kfree (k_heap ?u) (p_stack pr) else k_heap ?u) p"
  let ?k' = "?u\<lparr>k_heap := ?h, k_procs := (k_procs ?u)(p := None),
    current_process := (if current_process k = p then NULL else current_process k)\<rparr>"
  have eq: "process_destroy k p = Inr ?k'"
    using assms(2) nn pr by (auto simp: process_destroy_def Let_def)
  have tab': "table ?k' = table ?u" by (simp add: table_def)
  have "pm_inv ?k'"
    unfolding pm_inv_def tab'
  proof (intro conjI allI impI)
    show "length (processes ?k') = MAX_PROCESSES" "process_count ?k' \<le> MAX_PROCESSES"
      using u(1,5) assms(1) by (auto simp: pm_inv_def)
    show "distinct (table ?u)" "NULL \<notin> set (table ?u)"
      unfolding tab using assms(1) by (auto simp: pm_inv_def dest: notin_set_remove1)
    show "current_process ?k' = NULL \<or> current_process ?k' \<in> set (table ?u)"
      unfolding tab using assms(1) by (auto simp: pm_inv_def)
    show "\<exists>pr. k_procs ?k' (processes ?k' ! j) = Some pr \<and> pid pr = of_nat j"
      if "j < process_count ?k'" for j
    proof -
      have "table ?u ! j \<in> set (table ?u)"
        using that u(1,5) assms(1) by (intro nth_mem) (auto simp: table_def pm_inv_def)
      then have "processes ?u ! j \<noteq> p" using np that table_nth [of j ?u] by auto
      then show ?thesis using u(3) [of j] that u(1) by simp
    qed
  qed
  then show ?thesis using eq tab tab' by auto
qed

section \<open>Creating processes\<close>

lemma push_frame_entry:
  "fst (push_words mem sp (initial_frame entry)) (sp - 12) = entry"
  "snd (push_words mem sp (initial_frame entry)) = sp - 68"
  by (simp_all add: initial_frame_def)

lemma process_requests_small:
  "small_request sizeof_process" "small_request PROCESS_STACK_SIZE"
  by (simp_all add: small_request_def process_consts)

lemma process_create_SomeE:
  assumes "process_create k name entry = (k', p)" "p \<noteq> NULL"
  obtains h1 h2 stack proc where
    "pm_initialized k" "process_count k < MAX_PROCESSES"
    "kmalloc (k_heap k) sizeof_process = (h1, p)" "kmalloc h1 PROCESS_STACK_SIZE = (h2, stack)" "stack \<noteq> NULL"
    "k_heap k' = h2" "k_procs k' = (k_procs k)(p \<mapsto> proc)"
    "pid proc = of_nat (process_count k)" "p_state proc = PROCESS_STATE_READY"
    "p_esp proc = stack + PROCESS_STACK_SIZE - 68" "k_mem k' (p_esp proc + 56) = entry"
    "processes k' = (processes k)[process_count k := p]" "process_count k' = Suc (process_count k)"
    "current_process k' = current_process k" "pm_initialized k'"
proof -
  obtain h1 q where a: "kmalloc (k_heap k) sizeof_process = (h1, q)"
    by (cases "kmalloc (k_heap k) sizeof_process")
  obtain h2 stack where b: "kmalloc h1 PROCESS_STACK_SIZE = (h2, stack)"
    by (cases "kmalloc h1 PROCESS_STACK_SIZE")
  obtain mem sp where c: "push_words (k_mem k) (stack + PROCESS_STACK_SIZE) (initial_frame entry) = (mem, sp)"
    by (cases "push_words (k_mem k) (stack + PROCESS_STACK_SIZE) (initial_frame entry)")
  have sp: "sp = stack + PROCESS_STACK_SIZE - 68" "mem (stack + PROCESS_STACK_SIZE - 12) = entry"
    using push_frame_entry [of "k_mem k" "stack + PROCESS_STACK_SIZE" entry] c by simp_all
  have "stack + PROCESS_STACK_SIZE - 68 + 56 = stack + PROCESS_STACK_SIZE - 12" by simp
  with sp have "mem (stack + PROCESS_STACK_SIZE - 68 + 56) = entry" by metis
  show thesis
    using assms a b c sp
    by (intro that [of h1 h2 stack "the (k_procs k' p)"])
       (auto simp: process_create_def split: if_splits)
qed

lemma table_snoc:
  assumes "pm_inv k" "process_count k < MAX_PROCESSES"
    "processes k' = (processes k)[process_count k := p]" "process_count k' = Suc (process_count k)"
  shows "table k' = table k @ [p]"
  using assms by (simp add: table_def pm_inv_def take_Suc_conv_app_nth)

text \<open>One creation, seen from the table, the heap and the new process.\<close>

lemma process_create_step:
  assumes "pm_inv k" "heap_ok (k_heap k)" "procs_allocated k"
    "process_create k name entry = (k', p)" "p \<noteq> NULL"
  shows "pm_inv k' \<and> heap_ok (k_heap k') \<and> procs_allocated k' \<and> table k' = table k @ [p] \<and>
    p \<notin> set (table k) \<and>
    (\<exists>proc. k_procs k' p = Some proc \<and> pid proc = of_nat (process_count k) \<and>
       p_state proc = PROCESS_STATE_READY \<and> k_mem k' (p_esp proc + 56) = entry)"
  using assms(4,5)
proof (rule process_create_SomeE)
  fix h1 h2 stack proc
  assume room: "process_count k < MAX_PROCESSES"
    and a: "kmalloc (k_heap k) sizeof_process = (h1, p)"
    and b: "kmalloc h1 PROCESS_STACK_SIZE = (h2, stack)" "stack \<noteq> NULL"
    and k': "k_heap k' = h2" "k_procs k' = (k_procs k)(p \<mapsto> proc)"
      "processes k' = (processes k)[process_count k := p]" "process_count k' = Suc (process_count k)"
      "current_process k' = current_process k"
    and proc: "pid proc = of_nat (process_count k)" "p_state proc = PROCESS_STATE_READY"
      "k_mem k' (p_esp proc + 56) = entry"
  have ok1: "heap_ok h1"
    using assms(2) process_requests_small(1) a by (rule kernel_heap.alloc_ok)
  have ok2: "heap_ok h2"
    using ok1 process_requests_small(2) b(1) by (rule kernel_heap.alloc_ok)
  have live: "p \<notin> live_ptrs (k_heap k)" "live_ptrs h2 = insert stack (insert p (live_ptrs (k_heap k)))"
    using kmalloc_live [OF assms(2) a assms(5)] kmalloc_live [OF ok1 b] by auto
  have np: "p \<notin> set (table k)" using live(1) assms(3) by (auto simp: procs_allocated_def)
  have tab: "table k' = table k @ [p]" by (rule table_snoc [OF assms(1) room k'(3,4)])
  have "pm_inv k'"
    unfolding pm_inv_def tab
  proof (intro conjI allI impI)
    show "\<exists>pr. k_procs k' (processes k' ! i) = Some pr \<and> pid pr = of_nat i" if "i < process_count k'" for i
    proof (cases "i = process_count k")
      case True
      with k' proc(1) assms(1) room show ?thesis by (auto simp: pm_inv_def)
    next
      case False
      then have i: "i < process_count k" using that k'(4) by simp
      have "processes k ! i \<in> set (table k)"
        using i length_table [OF assms(1)] table_nth [OF i] by (metis nth_mem)
      with np have "processes k ! i \<noteq> p" by auto
      with i k' assms(1) show ?thesis by (auto simp: pm_inv_def)
    qed
  qed (use assms(1,5) np k' room in \<open>auto simp: pm_inv_def\<close>)
  moreover have "procs_allocated k'"
    using assms(3) live(2) k'(1) tab by (auto simp: procs_allocated_def)
  ultimately show ?thesis using ok2 k' tab np proc by auto
qed

text \<open>
  When \<open>process_create\<close> fails, whatever the reason, nothing has changed: a stack that
  cannot be allocated gives the process structure back to the heap and the pid is not used.
\<close>

theorem process_create_failure_changes_nothing:
  assumes "heap_ok (k_heap k)" "process_create k name entry = (k', NULL)"
  shows "k' = k"
proof -
  obtain h1 q where a: "kmalloc (k_heap k) sizeof_process = (h1, q)"
    by (cases "kmalloc (k_heap k) sizeof_process")
  obtain h2 stack where b: "kmalloc h1 PROCESS_STACK_SIZE = (h2, stack)"
    by (cases "kmalloc h1 PROCESS_STACK_SIZE")
  have first: "q = NULL \<Longrightarrow> h1 = k_heap k"
    using kernel_heap.alloc_fail [OF assms(1)] a by simp
  have "heap_ok h1"
    using assms(1) process_requests_small(1) a by (rule kernel_heap.alloc_ok)
  then have second: "stack = NULL \<Longrightarrow> h2 = h1"
    using kernel_heap.alloc_fail b by simp
  have third: "q \<noteq> NULL \<Longrightarrow> kfree h1 q = k_heap k"
    using kernel_heap.alloc_release [OF assms(1) process_requests_small(1) a] by simp
  show ?thesis
    using assms(2) a b first second third
    by (auto simp: process_create_def split: if_splits prod.splits)
qed


section \<open>Scheduling\<close>

text \<open>\<open>n\<close> calls of \<open>process_schedule\<close>, as the timer makes them.\<close>

primrec process_ticks :: "nat \<Rightarrow> 'a kstate_scheme \<Rightarrow> fault + 'a kstate_scheme" where
  "process_ticks 0 k = Inr k"
| "process_ticks (Suc n) k =
     (case process_schedule k of Inl e \<Rightarrow> Inl e | Inr k' \<Rightarrow> process_ticks n k')"

lemma next_pid: "i < MAX_PROCESSES \<Longrightarrow> unat ((of_nat i :: u32) + 1) = Suc i"
proof -
  assume "i < MAX_PROCESSES"
  then have "unat (of_nat (Suc i) :: u32) = Suc i"
    by (simp only: unat_of_nat take_bit_eq_mod) (simp add: process_consts)
  then show ?thesis by (simp add: add.commute)
qed

lemma pm_inv_upd_pid:
  assumes "pm_inv k" "\<And>pr. pid (f pr) = pid pr"
  shows "pm_inv (upd_proc p f k)"
proof -
  have "\<exists>pr. k_procs (upd_proc p f k) (processes k ! i) = Some pr \<and> pid pr = of_nat i"
    if i: "i < process_count k" for i
  proof -
    obtain pr where "k_procs k (processes k ! i) = Some pr" "pid pr = of_nat i"
      using assms(1) i unfolding pm_inv_def by blast
    with assms(2) show ?thesis by auto
  qed
  with assms(1) show ?thesis by (simp add: pm_inv_def table_def)
qed

text \<open>
  One scheduling step from position \<open>i\<close>: the next process becomes current, its saved stack
  pointer is overwritten with the one in use, and the registers stay as they are.
\<close>

lemma process_schedule_step:
  assumes "pm_inv k" "pm_initialized k" "i < process_count k" "current_process k = processes k ! i"
  defines "q \<equiv> processes k ! (Suc i mod process_count k)"
  shows "process_schedule k = Inr ((upd_proc q (\<lambda>pr. pr\<lparr>p_esp := k_esp k, p_ebp := k_ebp k\<rparr>) k)\<lparr>current_process := q\<rparr>)"
proof -
  have i: "i < MAX_PROCESSES" using assms(1,3) by (simp add: pm_inv_def)
  obtain pr where pr: "k_procs k (processes k ! i) = Some pr" "pid pr = of_nat i"
    using assms(1,3) unfolding pm_inv_def by blast
  have live: "current_process k \<noteq> NULL" "q \<noteq> NULL"
    using assms(1,3,4) length_table [OF assms(1)] nth_mem [of _ "table k"] table_nth [of _ k]
    unfolding pm_inv_def q_def by (metis mod_less_divisor gr_implies_not0 not_gr_zero)+
  obtain pq where pq: "k_procs k q = Some pq"
    using assms(1,3) unfolding pm_inv_def q_def by (metis mod_less_divisor gr_implies_not0 not_gr_zero)
  show ?thesis
    using assms(2,3,4) pr live pq next_pid [OF i]
    by (simp add: process_schedule_def process_switch_def Let_def q_def [symmetric] upd_proc_def)
qed

text \<open>
  C36. Scheduling is round robin: from the process at position \<open>i\<close>, after \<open>n\<close> calls the process
  at position \<open>i + n\<close>, counted around the table, is current, whatever \<open>n\<close>; the table stays
  as it is.
\<close>

theorem process_schedule_round_robin:
  assumes "pm_inv k" "pm_initialized k" "i < process_count k" "current_process k = processes k ! i"
  shows "\<exists>k'. process_ticks n k = Inr k' \<and> table k' = table k \<and> pm_inv k' \<and>
    current_process k' = table k ! ((i + n) mod process_count k)"
  using assms
proof (induction n arbitrary: k i)
  case 0
  then show ?case by (simp add: table_nth)
next
  case (Suc n)
  let ?j = "Suc i mod process_count k"
  let ?q = "processes k ! ?j"
  let ?k = "(upd_proc ?q (\<lambda>pr. pr\<lparr>p_esp := k_esp k, p_ebp := k_ebp k\<rparr>) k)\<lparr>current_process := ?q\<rparr>"
  have step: "process_schedule k = Inr ?k" by (rule process_schedule_step [OF Suc.prems])
  have j: "?j < process_count k" using Suc.prems(3) by (intro mod_less_divisor) simp
  then have "?q \<in> set (table k)"
    using length_table [OF Suc.prems(1)] table_nth [OF j] nth_mem by metis
  then have inv: "pm_inv ?k"
    using pm_inv_upd_pid [OF Suc.prems(1)] by (simp add: pm_inv_def table_def)
  have "\<exists>k'. process_ticks n ?k = Inr k' \<and> table k' = table ?k \<and> pm_inv k' \<and>
    current_process k' = table ?k ! ((?j + n) mod process_count ?k)"
    using Suc.prems j inv by (intro Suc.IH) simp_all
  moreover have "table ?k = table k" by (simp add: table_def)
  ultimately show ?case using step by (simp add: mod_simps)
qed

text \<open>
  \<open>process_schedule\<close> loses contexts: it sets the current process before it calls
  \<open>process_switch\<close>, so the stack and frame pointers in use are saved over those of the process
  that is about to run and loaded back at once. The processor stays on the stack it was on and
  the saved context of every other process, the preempted one included, is not updated.
\<close>

theorem process_schedule_never_changes_stack:
  assumes "pm_inv k" "pm_initialized k" "i < process_count k" "current_process k = processes k ! i"
    "process_schedule k = Inr k'"
  shows "k_esp k' = k_esp k \<and> k_ebp k' = k_ebp k \<and>
    map_option p_esp (k_procs k' (current_process k')) = Some (k_esp k) \<and>
    (\<forall>p. p \<noteq> current_process k' \<longrightarrow> k_procs k' p = k_procs k p)"
proof -
  let ?j = "Suc i mod process_count k"
  have "?j < process_count k" using assms(3) by (intro mod_less_divisor) simp
  then obtain pq where "k_procs k (processes k ! ?j) = Some pq"
    using assms(1) unfolding pm_inv_def by blast
  then show ?thesis using process_schedule_step [OF assms(1-4)] assms(5) by auto
qed

text \<open>
  \<open>process_switch\<close> itself does save and restore: switching from a process to another one
  and back gives the processor the stack and frame pointers it had, whatever the other process
  did with them in between.
\<close>

theorem process_switch_there_and_back:
  assumes "pm_initialized k" "p \<noteq> NULL" "q \<noteq> NULL" "p \<noteq> q" "current_process k = p"
    "k_procs k p = Some a" "k_procs k q = Some b" "process_switch k q = Inr k1"
  shows "k_esp k1 = p_esp b \<and> k_ebp k1 = p_ebp b \<and>
    (\<exists>k2. process_switch (k1\<lparr>k_esp := x, k_ebp := y\<rparr>) p = Inr k2 \<and>
       k_esp k2 = k_esp k \<and> k_ebp k2 = k_ebp k \<and> current_process k2 = p)"
  using assms by (auto simp: process_switch_def Let_def)

section \<open>A running system\<close>

text \<open>The kernel with two processes, built with the operations on a freshly initialised heap.\<close>

definition idle_kstate :: kstate where
  "idle_kstate = fst (process_init \<lparr>k_heap = booted_heap, k_procs = Map.empty, k_mem = (\<lambda>_. 0),
     k_esp = 0x9000, k_ebp = 0x9010, processes = [], current_process = NULL, process_count = 0,
     pm_initialized = False\<rparr>)"

definition one_process :: kstate where
  "one_process = fst (process_create idle_kstate (Some ''init'') 0x100000)"

definition two_processes :: kstate where
  "two_processes = fst (process_create one_process (Some ''shell'') 0x200000)"

lemma idle_kstate_inv:
  "pm_inv idle_kstate" "heap_ok (k_heap idle_kstate)" "procs_allocated idle_kstate"
  "pm_initialized idle_kstate"
  using booted_heap_ok
  by (simp_all add: idle_kstate_def process_init_def pm_inv_def table_def procs_allocated_def)

lemma one_process_eval:
  "snd (process_create idle_kstate (Some ''init'') 0x100000) = HEAP_START + sizeof_memory_block"
  by (simp add: process_create_def idle_kstate_def process_init_def process_consts booted_heap_eval
      kmalloc_def split_block_def initial_frame_def)

lemma one_process_inv:
  "pm_inv one_process" "heap_ok (k_heap one_process)" "procs_allocated one_process"
  "table one_process = [HEAP_START + sizeof_memory_block]" "pm_initialized one_process"
proof -
  have c: "process_create idle_kstate (Some ''init'') 0x100000 = (one_process, HEAP_START + sizeof_memory_block)"
    using one_process_eval by (simp add: one_process_def prod_eq_iff)
  have nn: "HEAP_START + sizeof_memory_block \<noteq> NULL" by (simp add: heap_consts)
  have t: "table idle_kstate = []" by (simp add: idle_kstate_def process_init_def table_def)
  show "pm_inv one_process" "heap_ok (k_heap one_process)" "procs_allocated one_process"
    "table one_process = [HEAP_START + sizeof_memory_block]"
    using process_create_step [OF idle_kstate_inv(1-3) c nn] t by simp_all
  show "pm_initialized one_process" using c nn by (rule process_create_SomeE)
qed

lemmas two_processes_eval = two_processes_def one_process_def idle_kstate_def process_create_def
  process_init_def process_consts booted_heap_eval kmalloc_def split_block_def initial_frame_def

lemma two_processes_inv:
  "pm_inv two_processes" "heap_ok (k_heap two_processes)"
  "table two_processes = [HEAP_START + sizeof_memory_block, 0xD00042CC]" "pm_initialized two_processes"
proof -
  have "snd (process_create one_process (Some ''shell'') 0x200000) = 0xD00042CC"
    by (simp add: two_processes_eval)
  then have c: "process_create one_process (Some ''shell'') 0x200000 = (two_processes, 0xD00042CC)"
    by (simp add: two_processes_def prod_eq_iff)
  have nn: "0xD00042CC \<noteq> NULL" by simp
  show "pm_inv two_processes" "heap_ok (k_heap two_processes)"
    "table two_processes = [HEAP_START + sizeof_memory_block, 0xD00042CC]"
    using process_create_step [OF one_process_inv(1-3) c nn] one_process_inv(4) by simp_all
  show "pm_initialized two_processes" using c nn by (rule process_create_SomeE)
qed



text \<open>
  C3. Destroying a process in the table succeeds and keeps the table consistent: the others
  keep their order, move up and carry the pid of their new position, the process is gone from
  the table and from the store, and it is no longer current.
\<close>

theorem process_destroy_keeps_table:
  assumes "pm_inv k" "pm_initialized k" "p \<in> set (table k)"
  shows "\<exists>k'. process_destroy k p = Inr k' \<and> pm_inv k' \<and> table k' = remove1 p (table k) \<and>
    k_procs k' p = None \<and>
    current_process k' = (if current_process k = p then NULL else current_process k)"
  using assms by (rule process_destroy_step)

theorem process_destroy_keeps_table_witness:
  "\<exists>k'. process_destroy two_processes (HEAP_START + sizeof_memory_block) = Inr k' \<and>
     table k' = [0xD00042CC] \<and> pm_inv k'"
  using process_destroy_keeps_table [OF two_processes_inv(1,4), of "HEAP_START + sizeof_memory_block"]
  by (auto simp: two_processes_inv(3) heap_consts)

theorem process_create_failure_changes_nothing_witness:
  "fst (process_create idle_kstate None 0x100000) = idle_kstate"
proof -
  have "process_create idle_kstate None 0x100000 = (fst (process_create idle_kstate None 0x100000), NULL)"
    by (simp add: process_create_def)
  then show ?thesis by (rule process_create_failure_changes_nothing [OF idle_kstate_inv(2)])
qed

text \<open>The first scheduling of the two processes picks the first one.\<close>

definition scheduled :: kstate where
  "scheduled = two_processes\<lparr>current_process := processes two_processes ! 0\<rparr>"

lemma scheduled_inv:
  "pm_inv scheduled" "pm_initialized scheduled" "0 < process_count scheduled"
  "process_count scheduled = 2" "current_process scheduled = processes scheduled ! 0"
  "table scheduled = [HEAP_START + sizeof_memory_block, 0xD00042CC]"
proof -
  have c: "process_count two_processes = 2"
    using length_table [OF two_processes_inv(1)] two_processes_inv(3) by simp
  then have "processes two_processes ! 0 \<in> set (table two_processes)"
    using table_nth [of 0 two_processes] two_processes_inv(3) by simp
  then show "pm_inv scheduled"
    using two_processes_inv(1) by (simp add: scheduled_def pm_inv_def table_def)
  show "pm_initialized scheduled" "0 < process_count scheduled" "process_count scheduled = 2"
    "current_process scheduled = processes scheduled ! 0"
    "table scheduled = [HEAP_START + sizeof_memory_block, 0xD00042CC]"
    using two_processes_inv(3,4) c by (simp_all add: scheduled_def table_def)
qed

theorem process_schedule_round_robin_witness:
  "\<exists>k'. process_ticks 5 scheduled = Inr k' \<and> current_process k' = 0xD00042CC"
  using process_schedule_round_robin [OF scheduled_inv(1-3,5), of 5]
  by (auto simp: scheduled_inv(4,6))

theorem process_schedule_never_changes_stack_witness:
  "\<exists>k'. process_schedule scheduled = Inr k' \<and> k_esp k' = 0x9000"
proof -
  obtain k' where k': "process_schedule scheduled = Inr k'"
    using process_schedule_step [OF scheduled_inv(1-3,5)] by simp
  moreover have "k_esp scheduled = 0x9000" by (simp add: scheduled_def two_processes_eval)
  ultimately show ?thesis
    using process_schedule_never_changes_stack [OF scheduled_inv(1-3,5) k'] by simp
qed

theorem process_switch_there_and_back_witness:
  "\<exists>k1 k2. process_switch scheduled 0xD00042CC = Inr k1 \<and>
     process_switch (k1\<lparr>k_esp := 0x1234, k_ebp := 0\<rparr>) (current_process scheduled) = Inr k2 \<and>
     k_esp k1 \<noteq> 0x9000 \<and> k_esp k2 = 0x9000"
proof -
  have t: "current_process scheduled = 0xD0000010" "processes scheduled ! Suc 0 = 0xD00042CC"
    using scheduled_inv(4-6) table_nth [of 0 scheduled] table_nth [of "Suc 0" scheduled]
    by (simp_all add: heap_consts)
  obtain a where a: "k_procs scheduled 0xD0000010 = Some a"
    using scheduled_inv(1,3,5) t(1) unfolding pm_inv_def by metis
  have b: "map_option p_esp (k_procs scheduled 0xD00042CC) = Some 0xD0008544"
    by (simp add: scheduled_def two_processes_eval)
  then obtain b where b: "k_procs scheduled 0xD00042CC = Some b" "p_esp b = 0xD0008544" by auto
  obtain k1 where k1: "process_switch scheduled 0xD00042CC = Inr k1"
    using b(1) t scheduled_inv(2) by (simp add: process_switch_def)
  have e: "k_esp scheduled = 0x9000" by (simp add: scheduled_def two_processes_eval)
  show ?thesis
    using process_switch_there_and_back [OF scheduled_inv(2) _ _ _ t(1) a b(1) k1, of 0 "0x1234"] k1 e t(1) b(2)
    by auto
qed

end
