(* ===== verification/Kernel_Log.thy ===== *)
theory Kernel_Log
  imports Maya_Prelude
begin

text \<open>
  The kernel log of \<^verbatim>\<open>kernel/logging.c\<close>: a ring of \<open>KLOG_RING_SIZE\<close> characters that keeps the
  latest output and mirrors it on the first serial port. \<^verbatim>\<open>vsnprintf\<close> and \<^verbatim>\<open>serial_write_char\<close> are
  declared but not defined in the repository: the formatter is an argument of \<open>klog\<close> and
  \<open>serial_out\<close> is the sequence of characters passed to the serial port. Shown here: the ring
  refines an append-only text cut to its last \<open>KLOG_RING_SIZE\<close> characters, and a dump sends that
  text.
\<close>

section \<open>State and operations\<close>

datatype klog_level = KLOG_DEBUG | KLOG_INFO | KLOG_WARN | KLOG_ERROR | KLOG_PANIC

text \<open>The arguments of a format: numbers and strings.\<close>

datatype fmt_arg = Num u32 | Str string

text \<open>\<^verbatim>\<open>vsnprintf\<close>: buffer size, format and arguments to the string stored in the buffer.\<close>

type_synonym formatter = "nat \<Rightarrow> string \<Rightarrow> fmt_arg list \<Rightarrow> string"

definition KLOG_RING_SIZE :: nat where "KLOG_RING_SIZE = 4096"

record klog_state =
  ring_buf :: string
  ring_head :: nat
  ring_tail :: nat
  ring_count :: nat
  log_initialized :: bool
  serial_out :: string

definition level_str :: "klog_level \<Rightarrow> string" where
  "level_str l = (case l of KLOG_DEBUG \<Rightarrow> ''[DEBUG] '' | KLOG_INFO \<Rightarrow> ''[INFO]  ''
     | KLOG_WARN \<Rightarrow> ''[WARN]  '' | KLOG_ERROR \<Rightarrow> ''[ERROR] '' | KLOG_PANIC \<Rightarrow> ''[PANIC] '')"

definition ring_putc :: "'a klog_state_scheme \<Rightarrow> char \<Rightarrow> 'a klog_state_scheme" where
  "ring_putc s c =
     (let s1 = s\<lparr>ring_buf := (ring_buf s)[ring_head s := c],
                 ring_head := (ring_head s + 1) mod KLOG_RING_SIZE\<rparr> in
      if ring_count s1 < KLOG_RING_SIZE then s1\<lparr>ring_count := ring_count s1 + 1\<rparr>
      else s1\<lparr>ring_tail := (ring_tail s1 + 1) mod KLOG_RING_SIZE\<rparr>)"

fun ring_puts :: "'a klog_state_scheme \<Rightarrow> string \<Rightarrow> 'a klog_state_scheme" where
  "ring_puts s [] = s"
| "ring_puts s (c # cs) =
     (let s1 = ring_putc s c in ring_puts (s1\<lparr>serial_out := serial_out s1 @ [c]\<rparr>) cs)"

definition klog :: "formatter \<Rightarrow> klog_level \<Rightarrow> string \<Rightarrow> fmt_arg list \<Rightarrow> 'a klog_state_scheme \<Rightarrow> 'a klog_state_scheme" where
  "klog vsnprintf level fmt args s =
     (if \<not> log_initialized s then s
      else let buf = vsnprintf 256 fmt args in
        ring_puts (ring_puts (ring_puts s (level_str level)) buf) [CHR 0x0D, CHR 0x0A])"

definition klog_init :: "formatter \<Rightarrow> 'a klog_state_scheme \<Rightarrow> 'a klog_state_scheme \<times> bool" where
  "klog_init vsnprintf s =
     (if log_initialized s then (s, True)
      else let s1 = s\<lparr>ring_buf := replicate KLOG_RING_SIZE (CHR 0x00), ring_head := 0, ring_tail := 0,
                      ring_count := 0, log_initialized := True\<rparr>
        in (klog vsnprintf KLOG_INFO ''Kernel log subsystem initialized (ring=%u bytes)''
              [Num (of_nat KLOG_RING_SIZE)] s1, True))"

text \<open>The countdown loop of \<open>klog_dump_serial\<close>.\<close>

fun dump_ring :: "string \<Rightarrow> nat \<Rightarrow> nat \<Rightarrow> string" where
  "dump_ring buf idx 0 = []"
| "dump_ring buf idx (Suc n) = buf ! idx # dump_ring buf ((idx + 1) mod KLOG_RING_SIZE) n"

definition klog_dump_serial :: "'a klog_state_scheme \<Rightarrow> 'a klog_state_scheme" where
  "klog_dump_serial s =
     (if \<not> log_initialized s then s
      else s\<lparr>serial_out := serial_out s @ dump_ring (ring_buf s) (ring_tail s) (ring_count s)\<rparr>)"

definition klog_flush :: "'a klog_state_scheme \<Rightarrow> 'a klog_state_scheme" where
  "klog_flush s = s"

definition klog_is_initialized :: "'a klog_state_scheme \<Rightarrow> bool" where
  "klog_is_initialized s = log_initialized s"

section \<open>The text the ring holds\<close>

text \<open>The ring is well formed, and its abstraction: the text from the oldest to the newest character.\<close>

definition klog_inv :: "'a klog_state_scheme \<Rightarrow> bool" where
  "klog_inv s \<longleftrightarrow> length (ring_buf s) = KLOG_RING_SIZE \<and> ring_tail s < KLOG_RING_SIZE \<and>
     ring_count s \<le> KLOG_RING_SIZE \<and> ring_head s = (ring_tail s + ring_count s) mod KLOG_RING_SIZE"

definition log_text :: "'a klog_state_scheme \<Rightarrow> string" where
  "log_text s = ring_contents (ring_buf s) (ring_tail s) (ring_count s)"

definition last_chars :: "nat \<Rightarrow> 'c list \<Rightarrow> 'c list" where
  "last_chars n xs = drop (length xs - n) xs"

definition log_line :: "formatter \<Rightarrow> klog_level \<Rightarrow> string \<Rightarrow> fmt_arg list \<Rightarrow> string" where
  "log_line vsnprintf level fmt args = level_str level @ vsnprintf 256 fmt args @ [CHR 0x0D, CHR 0x0A]"

lemma last_chars_append: "last_chars n (last_chars n xs @ ys) = last_chars n (xs @ ys)"
proof (cases "n \<le> length xs")
  case True
  then have "drop (length ys) (drop (length xs - n) xs @ ys) = drop (length xs + length ys - n) (xs @ ys)"
    by (simp add: drop_append add.commute)
  with True show ?thesis by (simp add: last_chars_def)
qed (simp add: last_chars_def)

lemma ring_putc_refines:
  assumes "klog_inv s"
  shows "klog_inv (ring_putc s c)" "log_text (ring_putc s c) = last_chars KLOG_RING_SIZE (log_text s @ [c])"
proof -
  have pos: "0 < KLOG_RING_SIZE" by (simp add: KLOG_RING_SIZE_def)
  have inv: "length (ring_buf s) = KLOG_RING_SIZE" "ring_tail s < KLOG_RING_SIZE"
    "ring_count s \<le> KLOG_RING_SIZE" "ring_head s = (ring_tail s + ring_count s) mod KLOG_RING_SIZE"
    using assms by (simp_all add: klog_inv_def)
  show "klog_inv (ring_putc s c)"
    using inv pos mod_add_self2 [of "Suc (ring_tail s)" KLOG_RING_SIZE]
    by (simp add: ring_putc_def klog_inv_def Let_def mod_simps)
  show "log_text (ring_putc s c) = last_chars KLOG_RING_SIZE (log_text s @ [c])"
  proof (cases "ring_count s < KLOG_RING_SIZE")
    case True
    then show ?thesis
      using ring_write [of "ring_count s" "ring_buf s" "ring_tail s" c] inv
      by (simp add: ring_putc_def log_text_def last_chars_def Let_def)
  next
    case False
    then have full: "ring_count s = KLOG_RING_SIZE" and head: "ring_head s = ring_tail s"
      using inv by auto
    have ne: "log_text s \<noteq> []"
      using full pos by (metis log_text_def length_ring_contents length_0_conv less_numeral_extra(3))
    show ?thesis
      using ring_overwrite [of "ring_tail s" "ring_buf s" c] inv full head ne
      by (simp add: ring_putc_def log_text_def last_chars_def Let_def drop_Suc)
  qed
qed

lemma ring_puts_refines:
  assumes "klog_inv s"
  shows "klog_inv (ring_puts s cs) \<and> log_text (ring_puts s cs) = last_chars KLOG_RING_SIZE (log_text s @ cs) \<and>
    serial_out (ring_puts s cs) = serial_out s @ cs \<and> log_initialized (ring_puts s cs) = log_initialized s"
  using assms
proof (induction s cs rule: ring_puts.induct)
  case (1 s)
  then show ?case by (simp add: last_chars_def log_text_def klog_inv_def)
next
  case (2 s c cs)
  let ?s = "(ring_putc s c)\<lparr>serial_out := serial_out (ring_putc s c) @ [c]\<rparr>"
  have inv: "klog_inv ?s" "log_text ?s = last_chars KLOG_RING_SIZE (log_text s @ [c])"
    using ring_putc_refines [OF 2(2), of c] by (simp_all add: klog_inv_def log_text_def)
  have frame: "serial_out ?s = serial_out s @ [c]" "log_initialized ?s = log_initialized s"
    by (simp_all add: ring_putc_def Let_def)
  show ?case
    using 2(1) [OF refl inv(1)] inv(2) frame last_chars_append [of KLOG_RING_SIZE "log_text s @ [c]" cs]
    by simp
qed

lemma dump_ring_contents:
  assumes "length buf = KLOG_RING_SIZE" "i < KLOG_RING_SIZE"
  shows "dump_ring buf i n = ring_contents buf i n"
  using assms
proof (induction n arbitrary: i)
  case (Suc n)
  then show ?case using ring_read [of i buf n] by (simp add: KLOG_RING_SIZE_def)
qed simp

lemma klog_refines:
  assumes "klog_inv s" "log_initialized s" "line = log_line vsnprintf level fmt args"
  shows "klog_inv (klog vsnprintf level fmt args s)" "log_text (klog vsnprintf level fmt args s) = last_chars KLOG_RING_SIZE (log_text s @ line)"
    "serial_out (klog vsnprintf level fmt args s) = serial_out s @ line" "log_initialized (klog vsnprintf level fmt args s)"
proof -
  let ?a = "ring_puts s (level_str level)"
  let ?b = "ring_puts ?a (vsnprintf 256 fmt args)"
  let ?c = "ring_puts ?b [CHR 0x0D, CHR 0x0A]"
  have a: "klog_inv ?a" "log_text ?a = last_chars KLOG_RING_SIZE (log_text s @ level_str level)"
    "serial_out ?a = serial_out s @ level_str level" "log_initialized ?a"
    using ring_puts_refines [OF assms(1)] assms(2) by simp_all
  have b: "klog_inv ?b" "log_text ?b = last_chars KLOG_RING_SIZE (log_text ?a @ vsnprintf 256 fmt args)"
    "serial_out ?b = serial_out ?a @ vsnprintf 256 fmt args" "log_initialized ?b"
    using ring_puts_refines [OF a(1)] a(4) by simp_all
  have c: "klog_inv ?c" "log_text ?c = last_chars KLOG_RING_SIZE (log_text ?b @ [CHR 0x0D, CHR 0x0A])"
    "serial_out ?c = serial_out ?b @ [CHR 0x0D, CHR 0x0A]" "log_initialized ?c"
    using ring_puts_refines [OF b(1)] b(4) by (simp_all del: ring_puts.simps)
  have eq: "klog vsnprintf level fmt args s = ?c" using assms(2) by (simp add: klog_def del: ring_puts.simps)
  show "klog_inv (klog vsnprintf level fmt args s)" "log_initialized (klog vsnprintf level fmt args s)"
    unfolding eq by (fact c)+
  show "log_text (klog vsnprintf level fmt args s) = last_chars KLOG_RING_SIZE (log_text s @ line)"
    by (simp add: eq c(2) b(2) a(2) last_chars_append assms(3) log_line_def del: ring_puts.simps)
  show "serial_out (klog vsnprintf level fmt args s) = serial_out s @ line"
    by (simp add: eq c(3) b(3) a(3) assms(3) log_line_def del: ring_puts.simps)
qed

lemma klog_dump_serial_text:
  assumes "klog_inv s" "log_initialized s"
  shows "serial_out (klog_dump_serial s) = serial_out s @ log_text s"
  using assms by (simp add: klog_dump_serial_def klog_inv_def log_text_def dump_ring_contents)

text \<open>
  C28. The log ring implements a text that is cut to its last \<open>KLOG_RING_SIZE\<close> characters:
  whatever \<open>vsnprintf\<close> produces, a call of \<open>klog\<close> appends the level prefix, the message and the
  line end, overwrites the oldest characters only when the ring is full, sends the same
  characters to the serial port, and a dump sends the whole text in order.
\<close>

theorem klog_keeps_latest_text:
  assumes "klog_inv s" "log_initialized s" "line = log_line vsnprintf level fmt args"
  shows "klog_inv (klog vsnprintf level fmt args s) \<and>
    log_text (klog vsnprintf level fmt args s) = last_chars KLOG_RING_SIZE (log_text s @ line) \<and>
    serial_out (klog_dump_serial (klog vsnprintf level fmt args s))
      = serial_out s @ line @ last_chars KLOG_RING_SIZE (log_text s @ line)"
  using klog_refines [OF assms] klog_dump_serial_text [OF klog_refines(1,4) [OF assms]] by simp

definition booted_log :: klog_state where
  "booted_log = \<lparr>ring_buf = replicate KLOG_RING_SIZE (CHR 0x00), ring_head = 0, ring_tail = 0,
     ring_count = 0, log_initialized = True, serial_out = []\<rparr>"

theorem klog_keeps_latest_text_witness:
  "log_text (klog (\<lambda>n fmt args. take (n - 1) fmt) KLOG_WARN ''disk'' [] booted_log)
     = ''[WARN]  disk'' @ [CHR 0x0D, CHR 0x0A]"
proof -
  have "klog_inv booted_log" "log_initialized booted_log" "log_text booted_log = []"
    by (simp_all add: booted_log_def klog_inv_def log_text_def KLOG_RING_SIZE_def)
  then show ?thesis
    using klog_keeps_latest_text [of booted_log _ "\<lambda>n fmt args. take (n - 1) fmt" KLOG_WARN "''disk''" "[]"]
    by (simp add: last_chars_def level_str_def log_line_def KLOG_RING_SIZE_def)
qed

text \<open>Clients reason about the log through these laws, not by running the loop.\<close>

declare ring_puts.simps [simp del]

lemmas ring_puts_frame_defs = ring_puts.simps ring_putc_def Let_def

end
