(* ===== verification/Security_Caps.thy ===== *)
theory Security_Caps
  imports Kernel_Log
begin

text \<open>
  The capability table of \<^verbatim>\<open>kernel/security.c\<close>: \<open>MAX_SEC_ENTRIES\<close> slots, each with a process id,
  a bit set of capabilities and an active flag. The interface \<open>capability_table\<close> states what the
  rest of the kernel relies on (an operation on one process id changes that id only) and the
  table is an instance of it; the history theorem follows from the interface.
\<close>

section \<open>State and operations\<close>

record sec_entry =
  se_pid :: u32
  se_caps :: u32
  se_active :: bool

definition MAX_SEC_ENTRIES :: nat where "MAX_SEC_ENTRIES = 256"

record sec_state = klog_state +
  cap_table :: "sec_entry list"
  sec_initialized :: bool

definition sec_init :: "formatter \<Rightarrow> 'a sec_state_scheme \<Rightarrow> 'a sec_state_scheme \<times> bool" where
  "sec_init vsn s =
     (if sec_initialized s then (s, True)
      else (klog vsn KLOG_INFO ''Security subsystem initialized (%u capability slots)'' [Num (of_nat MAX_SEC_ENTRIES)]
              (s\<lparr>cap_table := replicate MAX_SEC_ENTRIES \<lparr>se_pid = 0, se_caps = 0, se_active = False\<rparr>,
                 sec_initialized := True\<rparr>), True))"

definition sec_find_entry :: "sec_entry list \<Rightarrow> u32 \<Rightarrow> nat option" where
  "sec_find_entry t p = first_index (\<lambda>e. se_active e \<and> se_pid e = p) t"

definition sec_alloc_entry :: "sec_entry list \<Rightarrow> u32 \<Rightarrow> sec_entry list \<times> nat option" where
  "sec_alloc_entry t p =
     (case first_index (\<lambda>e. \<not> se_active e) t of
        None \<Rightarrow> (t, None)
      | Some i \<Rightarrow> (t[i := \<lparr>se_pid = p, se_caps = 0, se_active = True\<rparr>], Some i))"

definition sec_grant_cap :: "formatter \<Rightarrow> 'a sec_state_scheme \<Rightarrow> u32 \<Rightarrow> u32 \<Rightarrow> 'a sec_state_scheme \<times> bool" where
  "sec_grant_cap vsn s p caps =
     (if \<not> sec_initialized s then (s, False)
      else let (t, idx) = (case sec_find_entry (cap_table s) p of
                             Some i \<Rightarrow> (cap_table s, Some i)
                           | None \<Rightarrow> sec_alloc_entry (cap_table s) p) in
        case idx of
          None \<Rightarrow> (s\<lparr>cap_table := t\<rparr>, False)
        | Some i \<Rightarrow> (klog vsn KLOG_DEBUG ''PID %u granted caps 0x%08x'' [Num p, Num caps]
                      (s\<lparr>cap_table := t[i := (t ! i)\<lparr>se_caps := se_caps (t ! i) OR caps\<rparr>]\<rparr>), True))"

definition sec_check_cap :: "'a sec_state_scheme \<Rightarrow> u32 \<Rightarrow> u32 \<Rightarrow> bool" where
  "sec_check_cap s p cap =
     (if \<not> sec_initialized s then False
      else case sec_find_entry (cap_table s) p of
        None \<Rightarrow> False
      | Some i \<Rightarrow> se_caps (cap_table s ! i) AND cap = cap)"

definition sec_revoke_cap :: "formatter \<Rightarrow> 'a sec_state_scheme \<Rightarrow> u32 \<Rightarrow> u32 \<Rightarrow> 'a sec_state_scheme \<times> bool" where
  "sec_revoke_cap vsn s p caps =
     (if \<not> sec_initialized s then (s, False)
      else case sec_find_entry (cap_table s) p of
        None \<Rightarrow> (s, False)
      | Some i \<Rightarrow> (klog vsn KLOG_DEBUG ''PID %u revoked caps 0x%08x'' [Num p, Num caps]
                    (s\<lparr>cap_table := (cap_table s)[i := (cap_table s ! i)
                        \<lparr>se_caps := se_caps (cap_table s ! i) AND NOT caps\<rparr>]\<rparr>), True))"

definition sec_get_caps :: "'a sec_state_scheme \<Rightarrow> u32 \<Rightarrow> u32" where
  "sec_get_caps s p =
     (if \<not> sec_initialized s then 0
      else case sec_find_entry (cap_table s) p of None \<Rightarrow> 0 | Some i \<Rightarrow> se_caps (cap_table s ! i))"

definition sec_is_initialized :: "'a sec_state_scheme \<Rightarrow> bool" where
  "sec_is_initialized s = sec_initialized s"

section \<open>The interface\<close>

datatype sec_op = Grant u32 u32 | Revoke u32 u32

fun sec_op_pid :: "sec_op \<Rightarrow> u32" where
  "sec_op_pid (Grant p c) = p"
| "sec_op_pid (Revoke p c) = p"

fun apply_sec_op :: "u32 \<Rightarrow> sec_op \<Rightarrow> u32" where
  "apply_sec_op caps (Grant p c) = caps OR c"
| "apply_sec_op caps (Revoke p c) = caps AND NOT c"

text \<open>A history of calls: the final state and the calls that returned true.\<close>

fun run_sec :: "('s \<Rightarrow> u32 \<Rightarrow> u32 \<Rightarrow> 's \<times> bool) \<Rightarrow> ('s \<Rightarrow> u32 \<Rightarrow> u32 \<Rightarrow> 's \<times> bool) \<Rightarrow> 's \<Rightarrow> sec_op list \<Rightarrow> 's \<times> sec_op list" where
  "run_sec grant revoke s [] = (s, [])"
| "run_sec grant revoke s (op # ops) =
     (let (s1, b) = (case op of Grant p c \<Rightarrow> grant s p c | Revoke p c \<Rightarrow> revoke s p c);
          (s2, done) = run_sec grant revoke s1 ops
      in (s2, if b then op # done else done))"

locale capability_table =
  fixes get :: "'s \<Rightarrow> u32 \<Rightarrow> u32"
    and grant :: "'s \<Rightarrow> u32 \<Rightarrow> u32 \<Rightarrow> 's \<times> bool"
    and revoke :: "'s \<Rightarrow> u32 \<Rightarrow> u32 \<Rightarrow> 's \<times> bool"
  assumes grant_get: "grant s p c = (s', b) \<Longrightarrow> get s' q = (if b \<and> q = p then get s q OR c else get s q)"
    and revoke_get: "revoke s p c = (s', b) \<Longrightarrow> get s' q = (if b \<and> q = p then get s q AND NOT c else get s q)"
begin

lemma op_get:
  assumes "(case op of Grant p c \<Rightarrow> grant s p c | Revoke p c \<Rightarrow> revoke s p c) = (s', b)"
  shows "get s' q = (if b \<and> q = sec_op_pid op then apply_sec_op (get s q) op else get s q)"
  using assms grant_get revoke_get by (cases op) simp_all

lemma history:
  "run_sec grant revoke s ops = (s', granted) \<Longrightarrow>
    get s' q = foldl apply_sec_op (get s q) (filter (\<lambda>op. sec_op_pid op = q) granted)"
proof (induction ops arbitrary: s s' granted)
  case Nil
  then show ?case by simp
next
  case (Cons op ops)
  obtain s1 b where one: "(case op of Grant p c \<Rightarrow> grant s p c | Revoke p c \<Rightarrow> revoke s p c) = (s1, b)"
    by (metis surj_pair)
  obtain s2 rest where more: "run_sec grant revoke s1 ops = (s2, rest)" by (metis surj_pair)
  have "s' = s2" "granted = (if b then op # rest else rest)"
    using Cons.prems one more by simp_all
  then show ?case using Cons.IH [OF more] op_get [OF one, of q] by auto
qed

end

section \<open>The table implements the interface\<close>

lemma klog_frame [simp]:
  "cap_table (klog vsn l f as s) = cap_table s" "sec_initialized (klog vsn l f as s) = sec_initialized s"
proof -
  have "cap_table (ring_puts t cs) = cap_table t \<and> sec_initialized (ring_puts t cs) = sec_initialized t"
    for t :: "'a sec_state_scheme" and cs
    by (induction t cs rule: ring_puts.induct) (simp_all add: ring_puts_frame_defs)
  then show "cap_table (klog vsn l f as s) = cap_table s" "sec_initialized (klog vsn l f as s) = sec_initialized s"
    by (simp_all add: klog_def Let_def)
qed

text \<open>Rewriting the slot of an entry without changing its key.\<close>

lemma find_after_update:
  assumes "i < length t" "se_active e" "\<forall>q. q \<noteq> se_pid e \<longrightarrow> \<not> (se_active (t ! i) \<and> se_pid (t ! i) = q)"
    "\<And>j. j < i \<Longrightarrow> \<not> (se_active (t ! j) \<and> se_pid (t ! j) = se_pid e)"
  shows "sec_find_entry (t[i := e]) q = (if q = se_pid e then Some i else sec_find_entry t q)"
proof (cases "q = se_pid e")
  case True
  then show ?thesis
    using assms unfolding sec_find_entry_def by (auto intro!: first_index_SomeI)
next
  case False
  have "first_index (\<lambda>e. se_active e \<and> se_pid e = q) (t[i := e]) = first_index (\<lambda>e. se_active e \<and> se_pid e = q) t"
    using assms(1,3) False
  proof (induction t arbitrary: i)
    case (Cons x xs)
    then show ?case by (cases i) (auto split: if_splits)
  qed simp
  with False show ?thesis by (simp add: sec_find_entry_def)
qed

lemma sec_find_Some:
  assumes "sec_find_entry t p = Some i"
  shows "i < length t" "se_active (t ! i)" "se_pid (t ! i) = p"
    "\<And>j. j < i \<Longrightarrow> \<not> (se_active (t ! j) \<and> se_pid (t ! j) = p)"
  using first_index_SomeD [OF assms [unfolded sec_find_entry_def]] by auto

lemma caps_update_existing:
  assumes "sec_find_entry (cap_table s) p = Some i" "sec_initialized s"
  shows "sec_get_caps (s\<lparr>cap_table := (cap_table s)[i := (cap_table s ! i)\<lparr>se_caps := c\<rparr>]\<rparr>) q
    = (if q = p then c else sec_get_caps s q)"
proof -
  note e = sec_find_Some [OF assms(1)]
  have "sec_find_entry ((cap_table s)[i := (cap_table s ! i)\<lparr>se_caps := c\<rparr>]) q
    = (if q = p then Some i else sec_find_entry (cap_table s) q)"
    using e by (subst find_after_update) auto
  moreover have "j \<noteq> i" if "sec_find_entry (cap_table s) q = Some j" "q \<noteq> p" for j
    using sec_find_Some [OF that(1)] e(3) that(2) by auto
  ultimately show ?thesis
    using assms(2) e(1) by (auto simp: sec_get_caps_def split: option.split)
qed

lemma caps_new_entry:
  assumes "sec_find_entry (cap_table s) p = None" "sec_alloc_entry (cap_table s) p = (t, Some i)" "sec_initialized s"
  shows "sec_get_caps (s\<lparr>cap_table := t[i := (t ! i)\<lparr>se_caps := c\<rparr>]\<rparr>) q = (if q = p then c else sec_get_caps s q)"
    "se_caps (t ! i) = 0"
proof -
  have i: "first_index (\<lambda>e. \<not> se_active e) (cap_table s) = Some i"
    and t: "t = (cap_table s)[i := \<lparr>se_pid = p, se_caps = 0, se_active = True\<rparr>]"
    using assms(2) by (auto simp: sec_alloc_entry_def split: option.splits)
  note b = first_index_SomeD [OF i]
  show "se_caps (t ! i) = 0" using t b by simp
  have none: "\<not> (se_active (cap_table s ! j) \<and> se_pid (cap_table s ! j) = p)" if "j < length (cap_table s)" for j
    using assms(1) that nth_mem [OF that] unfolding sec_find_entry_def first_index_None by blast
  have "sec_find_entry ((cap_table s)[i := \<lparr>se_pid = p, se_caps = c, se_active = True\<rparr>]) q
    = (if q = p then Some i else sec_find_entry (cap_table s) q)"
    using b none by (subst find_after_update) auto
  moreover have "j \<noteq> i" if "sec_find_entry (cap_table s) q = Some j" for j
    using sec_find_Some [OF that] b by auto
  ultimately show "sec_get_caps (s\<lparr>cap_table := t[i := (t ! i)\<lparr>se_caps := c\<rparr>]\<rparr>) q = (if q = p then c else sec_get_caps s q)"
    using assms(3) b t by (auto simp: sec_get_caps_def split: option.split)
qed

lemma sec_get_caps_klog [simp]: "sec_get_caps (klog vsn l f as s) q = sec_get_caps s q"
  by (simp add: sec_get_caps_def split: option.split)

lemma sec_grant_get:
  assumes "sec_grant_cap vsn s p c = (s', b)"
  shows "sec_get_caps s' q = (if b \<and> q = p then sec_get_caps s q OR c else sec_get_caps s q)"
proof (cases "sec_initialized s")
  case False
  then show ?thesis using assms by (simp add: sec_grant_cap_def)
next
  case True
  show ?thesis
  proof (cases "sec_find_entry (cap_table s) p")
    case None
    obtain t idx where a: "sec_alloc_entry (cap_table s) p = (t, idx)" by (metis surj_pair)
    have zero: "sec_get_caps s p = 0" using None True by (simp add: sec_get_caps_def)
    show ?thesis
    proof (cases idx)
      case None
      then have "t = cap_table s" using a by (auto simp: sec_alloc_entry_def split: option.splits)
      with None \<open>sec_find_entry (cap_table s) p = None\<close> a True assms show ?thesis
        by (auto simp: sec_grant_cap_def)
    next
      case (Some i)
      with \<open>sec_find_entry (cap_table s) p = None\<close> a True assms zero show ?thesis
        using caps_new_entry [of s p t i] by (auto simp: sec_grant_cap_def)
    qed
  next
    case (Some i)
    then have "sec_get_caps s p = se_caps (cap_table s ! i)" using True by (simp add: sec_get_caps_def)
    with Some True assms show ?thesis
      using caps_update_existing [of s p i] by (auto simp: sec_grant_cap_def)
  qed
qed

lemma sec_revoke_get:
  assumes "sec_revoke_cap vsn s p c = (s', b)"
  shows "sec_get_caps s' q = (if b \<and> q = p then sec_get_caps s q AND NOT c else sec_get_caps s q)"
proof (cases "\<exists>i. sec_initialized s \<and> sec_find_entry (cap_table s) p = Some i")
  case True
  then obtain i where i: "sec_initialized s" "sec_find_entry (cap_table s) p = Some i" by blast
  then have "sec_get_caps s p = se_caps (cap_table s ! i)" by (simp add: sec_get_caps_def)
  with i assms show ?thesis
    using caps_update_existing [of s p i] by (auto simp: sec_revoke_cap_def)
next
  case False
  with assms show ?thesis by (auto simp: sec_revoke_cap_def split: if_splits option.splits)
qed

interpretation sec_caps: capability_table sec_get_caps "sec_grant_cap vsn" "sec_revoke_cap vsn"
  using sec_grant_get sec_revoke_get by unfold_locales

lemma check_iff_caps:
  "sec_check_cap s p cap \<longleftrightarrow> sec_initialized s \<and> sec_find_entry (cap_table s) p \<noteq> None \<and>
    sec_get_caps s p AND cap = cap"
  by (auto simp: sec_check_cap_def sec_get_caps_def split: option.splits)


definition booted_sec :: sec_state where
  "booted_sec = \<lparr>ring_buf = [], ring_head = 0, ring_tail = 0, ring_count = 0, log_initialized = False,
     serial_out = [], cap_table = [\<lparr>se_pid = 0, se_caps = 0, se_active = False\<rparr>, \<lparr>se_pid = 0, se_caps = 0, se_active = False\<rparr>], sec_initialized = True\<rparr>"


end
