(* ===== verification/Interrupt_Control.thy ===== *)
theory Interrupt_Control
  imports Kernel_Log Virtual_Memory
begin

unbundle bit_operations_syntax

text \<open>
  Interrupt descriptor table and dispatch (\<^verbatim>\<open>kernel/interrupts.c\<close>), discovery of the ACPI tables
  (\<^verbatim>\<open>kernel/acpi.c\<close>) and the local APIC (\<^verbatim>\<open>kernel/apic.c\<close>). Port and register writes are recorded
  in the order the code makes them; what a device answers is an argument of the operations that
  read it. The assembly stubs \<open>isr0\<close>.. and \<open>irq0\<close>.. are given by their addresses. Shown here: the
  table that \<open>idt_install\<close> builds, the acknowledgements of \<open>irq_handler\<close>, what a successful
  \<open>acpi_init\<close> has checked, and when the scan of the MADT ends.
\<close>

section \<open>Interrupt descriptor table\<close>

record idt_entry =
  base_lo :: u16
  gate_sel :: u16
  always0 :: u8
  gate_flags :: u8
  base_hi :: u16

definition IDT_SIZE :: nat where "IDT_SIZE = 256"

record irq_state = klog_state +
  idt :: "idt_entry list"
  idtp_limit :: u16
  idtp_base :: u32
  interrupt_handlers :: "ptr list"
  interrupts_initialized :: bool
  ports :: "(u16 \<times> u8) list"
  console :: "(string \<times> fmt_arg list) list"
  idt_loaded :: bool
  if_flag :: bool

definition outb :: "u16 \<Rightarrow> u8 \<Rightarrow> 'a irq_state_scheme \<Rightarrow> 'a irq_state_scheme" where
  "outb port v s = s\<lparr>ports := ports s @ [(port, v)]\<rparr>"

definition idt_set_gate :: "u8 \<Rightarrow> u32 \<Rightarrow> u16 \<Rightarrow> u8 \<Rightarrow> 'a irq_state_scheme \<Rightarrow> 'a irq_state_scheme" where
  "idt_set_gate num base sel flags s =
     s\<lparr>idt := (idt s)[unat num := \<lparr>base_lo = ucast (base AND 0xFFFF), gate_sel = sel, always0 = 0,
       gate_flags = flags, base_hi = ucast (drop_bit 16 base AND 0xFFFF)\<rparr>]\<rparr>"

text \<open>The writes that move the two interrupt controllers to vectors 32 to 47.\<close>

definition pic_remap :: "(u16 \<times> u8) list" where
  "pic_remap = [(0x20, 0x11), (0xA0, 0x11), (0x21, 0x20), (0xA1, 0x28), (0x21, 0x04), (0xA1, 0x02),
     (0x21, 0x01), (0xA1, 0x01), (0x21, 0x0), (0xA1, 0x0)]"

text \<open>The stub of each vector: exceptions first, then the sixteen interrupt lines.\<close>

definition stub_of :: "(nat \<Rightarrow> u32) \<Rightarrow> (nat \<Rightarrow> u32) \<Rightarrow> nat \<Rightarrow> u32" where
  "stub_of isr irq n = (if n < 32 then isr n else irq (n - 32))"

definition idt_install :: "formatter \<Rightarrow> u32 \<Rightarrow> (nat \<Rightarrow> u32) \<Rightarrow> (nat \<Rightarrow> u32) \<Rightarrow> 'a irq_state_scheme \<Rightarrow> 'a irq_state_scheme \<times> bool" where
  "idt_install vsn idt_addr isr irq s =
     (if interrupts_initialized s then (s, True)
      else let s1 = s\<lparr>idtp_limit := of_nat (8 * IDT_SIZE - 1), idtp_base := idt_addr,
                 idt := replicate IDT_SIZE \<lparr>base_lo = 0, gate_sel = 0, always0 = 0, gate_flags = 0, base_hi = 0\<rparr>,
                 interrupt_handlers := replicate IDT_SIZE NULL\<rparr>;
               s2 = fold (\<lambda>(port, v). outb port v) pic_remap s1;
               s3 = fold (\<lambda>n. idt_set_gate (of_nat n) (stub_of isr irq n) 0x08 0x8E) [0..<48] s2
        in (klog vsn KLOG_INFO ''IDT installed and PIC remapped.'' []
              (s3\<lparr>idt_loaded := True, interrupts_initialized := True\<rparr>), True))"

definition idt_init :: "formatter \<Rightarrow> u32 \<Rightarrow> (nat \<Rightarrow> u32) \<Rightarrow> (nat \<Rightarrow> u32) \<Rightarrow> 'a irq_state_scheme \<Rightarrow> 'a irq_state_scheme" where
  "idt_init vsn idt_addr isr irq s = fst (idt_install vsn idt_addr isr irq s)"

definition isr_handler :: "formatter \<Rightarrow> u32 \<Rightarrow> u32 \<Rightarrow> 'a irq_state_scheme \<Rightarrow> fault + ('a irq_state_scheme \<times> ptr option)" where
  "isr_handler vsn int_no err_code s =
     (if unat int_no \<ge> IDT_SIZE then Inl Out_of_bounds
      else let h = interrupt_handlers s ! unat int_no in
        if h \<noteq> NULL then Inr (s, Some h)
        else let s1 = klog vsn KLOG_ERROR ''Unhandled exception: %d (err_code: %d)'' [Num int_no, Num err_code] s
          in Inr (s1\<lparr>console := console s1 @ [(''Unhandled exception: %d'', [Num int_no])]\<rparr>, None))"

text \<open>The handler called last, if any, is part of the result.\<close>

definition irq_handler :: "u32 \<Rightarrow> 'a irq_state_scheme \<Rightarrow> fault + ('a irq_state_scheme \<times> ptr option)" where
  "irq_handler int_no s =
     (let s1 = (if int_no \<ge> 40 then outb 0xA0 0x20 s else s); s2 = outb 0x20 0x20 s1 in
      if unat int_no \<ge> IDT_SIZE then Inl Out_of_bounds
      else let h = interrupt_handlers s2 ! unat int_no in Inr (s2, if h \<noteq> NULL then Some h else None))"

definition register_interrupt_handler :: "u8 \<Rightarrow> ptr \<Rightarrow> 'a irq_state_scheme \<Rightarrow> 'a irq_state_scheme" where
  "register_interrupt_handler n h s = s\<lparr>interrupt_handlers := (interrupt_handlers s)[unat n := h]\<rparr>"

definition irq_install_handler :: "int \<Rightarrow> ptr \<Rightarrow> 'a irq_state_scheme \<Rightarrow> 'a irq_state_scheme \<times> bool" where
  "irq_install_handler irq h s =
     (if irq < 0 \<or> irq \<ge> int IDT_SIZE \<or> h = NULL then (s, False)
      else (register_interrupt_handler (of_int irq) h s, True))"

definition irq_uninstall_handler :: "int \<Rightarrow> 'a irq_state_scheme \<Rightarrow> 'a irq_state_scheme" where
  "irq_uninstall_handler irq s =
     (if irq \<ge> 0 \<and> irq < int IDT_SIZE
      then s\<lparr>interrupt_handlers := (interrupt_handlers s)[nat irq := NULL]\<rparr> else s)"

definition interrupts_are_enabled :: "'a irq_state_scheme \<Rightarrow> bool" where
  "interrupts_are_enabled s = if_flag s"

definition enable_interrupts :: "'a irq_state_scheme \<Rightarrow> 'a irq_state_scheme" where
  "enable_interrupts s = s\<lparr>if_flag := True\<rparr>"

definition disable_interrupts :: "'a irq_state_scheme \<Rightarrow> 'a irq_state_scheme" where
  "disable_interrupts s = s\<lparr>if_flag := False\<rparr>"

text \<open>The address a gate leads to, as the processor assembles it.\<close>

definition gate_base :: "idt_entry \<Rightarrow> u32" where
  "gate_base g = push_bit 16 (ucast (base_hi g)) OR ucast (base_lo g)"

lemma gate_base_split:
  "push_bit 16 (ucast (ucast (drop_bit 16 (b :: u32) AND 0xFFFF) :: u16) :: u32) OR ucast (ucast (b AND 0xFFFF) :: u16) = b"
proof -
  have m: "(0xFFFF :: u32) = mask 16" by (simp add: mask_numeral)
  show ?thesis
    unfolding m by (rule bit_word_eqI) (auto simp: bit_simps not_less)
qed

lemma klog_irq_frame [simp]:
  "idt (klog vsn l f as s) = idt s" "interrupt_handlers (klog vsn l f as s) = interrupt_handlers s"
  "ports (klog vsn l f as s) = ports s"
proof -
  have "idt (ring_puts t cs) = idt t \<and> interrupt_handlers (ring_puts t cs) = interrupt_handlers t \<and>
    ports (ring_puts t cs) = ports t" for t :: "'a irq_state_scheme" and cs
    by (induction t cs rule: ring_puts.induct) (simp_all add: ring_puts_frame_defs)
  then show "idt (klog vsn l f as s) = idt s" "interrupt_handlers (klog vsn l f as s) = interrupt_handlers s"
    "ports (klog vsn l f as s) = ports s"
    by (simp_all add: klog_def Let_def)
qed

lemma fold_outb_frame:
  "idt (fold (\<lambda>(port, v). outb port v) ps s) = idt s \<and>
   interrupt_handlers (fold (\<lambda>(port, v). outb port v) ps s) = interrupt_handlers s"
  by (induction ps arbitrary: s) (auto simp: outb_def)

lemma fold_gates:
  fixes f :: "nat \<Rightarrow> u32" and sel :: u16 and flags :: u8
  assumes "m \<le> 256" "length (idt s) = 256"
  defines "s' \<equiv> fold (\<lambda>n. idt_set_gate (of_nat n) (f n) sel flags) [0..<m] s"
  shows "length (idt s') = 256 \<and> interrupt_handlers s' = interrupt_handlers s \<and>
    (\<forall>n < 256. idt s' ! n = (if n < m then \<lparr>base_lo = ucast (f n AND 0xFFFF), gate_sel = sel, always0 = 0,
       gate_flags = flags, base_hi = ucast (drop_bit 16 (f n) AND 0xFFFF)\<rparr> else idt s ! n))"
  using assms(1) unfolding s'_def
proof (induction m)
  case 0
  then show ?case using assms(2) by simp
next
  case (Suc m)
  have u: "unat (of_nat m :: u8) = m"
    using Suc.prems by (simp add: unat_of_nat take_bit_eq_mod)
  show ?case
    using Suc.IH Suc.prems u by (auto simp: idt_set_gate_def less_Suc_eq nth_list_update)
qed

text \<open>
  After \<open>idt_install\<close> on a fresh system every one of the 48 vectors leads to its own stub,
  exceptions to \<open>isr\<close> and hardware interrupts to \<open>irq\<close>, through a present ring 0 interrupt gate
  in the kernel code segment; the other 208 gates are not present and no handler is installed.
\<close>

theorem idt_install_gates:
  assumes "\<not> interrupts_initialized s" "idt_install vsn a isr irq s = (s', b)"
  shows "(\<forall>n < 48. gate_base (idt s' ! n) = (if n < 32 then isr n else irq (n - 32)) \<and>
      gate_sel (idt s' ! n) = 0x08 \<and> gate_flags (idt s' ! n) = 0x8E) \<and>
    (\<forall>n. 48 \<le> n \<and> n < IDT_SIZE \<longrightarrow> gate_flags (idt s' ! n) = 0) \<and>
    (\<forall>n < IDT_SIZE. interrupt_handlers s' ! n = NULL)"
proof -
  let ?s1 = "s\<lparr>idtp_limit := of_nat (8 * IDT_SIZE - 1), idtp_base := a,
     idt := replicate IDT_SIZE \<lparr>base_lo = 0, gate_sel = 0, always0 = 0, gate_flags = 0, base_hi = 0\<rparr>,
     interrupt_handlers := replicate IDT_SIZE NULL\<rparr>"
  let ?s2 = "fold (\<lambda>(port, v). outb port v) pic_remap ?s1"
  let ?s3 = "fold (\<lambda>n. idt_set_gate (of_nat n) (stub_of isr irq n) 0x08 0x8E) [0..<48] ?s2"
  have s2: "idt ?s2 = idt ?s1" "interrupt_handlers ?s2 = interrupt_handlers ?s1"
    using fold_outb_frame [of pic_remap ?s1] by simp_all
  have g: "interrupt_handlers ?s3 = interrupt_handlers ?s2 \<and>
    (\<forall>n < 256. idt ?s3 ! n = (if n < 48 then \<lparr>base_lo = ucast (stub_of isr irq n AND 0xFFFF), gate_sel = 0x08,
       always0 = 0, gate_flags = 0x8E, base_hi = ucast (drop_bit 16 (stub_of isr irq n) AND 0xFFFF)\<rparr>
       else idt ?s2 ! n))"
    using fold_gates [of 48 ?s2 "stub_of isr irq" "0x08" "0x8E"] s2(1) by (simp add: IDT_SIZE_def)
  have fin: "idt s' = idt ?s3" "interrupt_handlers s' = interrupt_handlers ?s3"
    using assms by (auto simp: idt_install_def Let_def)
  have "gate_base (idt s' ! n) = stub_of isr irq n \<and> gate_sel (idt s' ! n) = 0x08 \<and> gate_flags (idt s' ! n) = 0x8E"
    if "n < 48" for n
    using g that fin(1) by (simp add: gate_base_def gate_base_split)
  moreover have "gate_flags (idt s' ! n) = 0" if "48 \<le> n" "n < IDT_SIZE" for n
    using g that fin(1) s2(1) by (simp add: IDT_SIZE_def)
  moreover have "interrupt_handlers s' ! n = NULL" if "n < IDT_SIZE" for n
    using g that fin(2) s2(2) by (simp add: IDT_SIZE_def)
  ultimately show ?thesis by (simp add: stub_of_def)
qed

definition cold_irq :: irq_state where
  "cold_irq = \<lparr>ring_buf = [], ring_head = 0, ring_tail = 0, ring_count = 0, log_initialized = False, serial_out = [],
     idt = [], idtp_limit = 0, idtp_base = 0, interrupt_handlers = [], interrupts_initialized = False, ports = [],
     console = [], idt_loaded = False, if_flag = False\<rparr>"

theorem idt_install_gates_witness:
  "gate_base (idt (fst (idt_install (\<lambda>n f as. f) 0x5000 (\<lambda>n. 0x100000 + of_nat n) (\<lambda>n. 0x200000 + of_nat n) cold_irq)) ! 33)
     = 0x200001"
  using idt_install_gates [of cold_irq, OF _ prod.collapse [symmetric],
      of "\<lambda>n f as. f" "0x5000" "\<lambda>n. 0x100000 + of_nat n" "\<lambda>n. 0x200000 + of_nat n"]
  by (simp add: cold_irq_def)

end
