(* ===== verification/Acpi_Apic.thy ===== *)
theory Acpi_Apic
  imports Virtual_Memory
begin

unbundle bit_operations_syntax

text \<open>
  Discovery of the ACPI tables (\<^verbatim>\<open>kernel/acpi.c\<close>) and the local APIC (\<^verbatim>\<open>kernel/apic.c\<close>). Firmware
  tables are read from a byte memory \<open>mem\<close> that the operations do not write; port and register
  writes are recorded in order, and what the devices answer is an argument. Shown here: what a
  successful \<open>acpi_init\<close> has verified, that the MADT scan returns when every entry has a nonzero
  length and picks up the boot processor, and that it never returns when it meets a zero length.
\<close>

section \<open>ACPI\<close>

type_synonym bytes = "u32 \<Rightarrow> u8"

definition read32 :: "bytes \<Rightarrow> ptr \<Rightarrow> u32" where
  "read32 m a = ucast (m a) OR push_bit 8 (ucast (m (a + 1))) OR push_bit 16 (ucast (m (a + 2)))
     OR push_bit 24 (ucast (m (a + 3)))"

definition sig_matches :: "bytes \<Rightarrow> ptr \<Rightarrow> u8 list \<Rightarrow> bool" where
  "sig_matches m a sg = (map (\<lambda>i. m (a + of_nat i)) [0..<length sg] = sg)"

definition RSDP_SIG :: "u8 list" where "RSDP_SIG = [0x52, 0x53, 0x44, 0x20, 0x50, 0x54, 0x52, 0x20]"
definition FADT_SIG :: "u8 list" where "FADT_SIG = [0x46, 0x41, 0x43, 0x50]"
definition MADT_SIG :: "u8 list" where "MADT_SIG = [0x41, 0x50, 0x49, 0x43]"

record acpi_state =
  rsdp :: ptr
  rsdt :: ptr
  fadt :: ptr
  acpi_initialized :: bool
  acpi_ports :: "(u32 \<times> u16) list"

fun sum_bytes :: "bytes \<Rightarrow> ptr \<Rightarrow> nat \<Rightarrow> u8 \<Rightarrow> u8" where
  "sum_bytes m a 0 acc = acc"
| "sum_bytes m a (Suc n) acc = sum_bytes m (a + 1) n (acc + m a)"

definition acpi_validate_table :: "bytes \<Rightarrow> ptr \<Rightarrow> u32 \<Rightarrow> bool" where
  "acpi_validate_table m table len = (sum_bytes m table (unat len) 0 = 0)"

text \<open>The search loop of \<open>acpi_find_table\<close>, from entry \<open>i\<close> with \<open>n\<close> entries left.\<close>

fun find_table :: "bytes \<Rightarrow> ptr \<Rightarrow> u8 list \<Rightarrow> u32 \<Rightarrow> nat \<Rightarrow> ptr" where
  "find_table m rs sg i 0 = NULL"
| "find_table m rs sg i (Suc n) =
     (let header = read32 m (rs + 36 + 4 * i) in
      if sig_matches m header sg \<and> acpi_validate_table m header (read32 m (header + 4)) then header
      else find_table m rs sg (i + 1) n)"

definition acpi_find_table :: "bytes \<Rightarrow> acpi_state \<Rightarrow> u8 list \<Rightarrow> ptr" where
  "acpi_find_table m s sg = find_table m (rsdt s) sg 0 (unat ((read32 m (rsdt s + 4) - 36) div 4))"

definition rsdp_candidates :: "ptr list" where
  "rsdp_candidates = map (\<lambda>i. 0xE0000 + 16 * of_nat i) [0..<0x2000]"

definition acpi_init :: "bytes \<Rightarrow> acpi_state \<Rightarrow> acpi_state \<times> bool" where
  "acpi_init m s =
     (if acpi_initialized s then (s, True)
      else let s1 = (case find (\<lambda>a. sig_matches m a RSDP_SIG) rsdp_candidates of
                       Some a \<Rightarrow> s\<lparr>rsdp := a\<rparr> | None \<Rightarrow> s) in
        if rsdp s1 = NULL then (s1, False)
        else if \<not> acpi_validate_table m (rsdp s1) 20 then (s1, False)
        else let s2 = s1\<lparr>rsdt := read32 m (rsdp s1 + 16)\<rparr> in
          if \<not> acpi_validate_table m (rsdt s2) (read32 m (rsdt s2 + 4)) then (s2, False)
          else let s3 = s2\<lparr>fadt := acpi_find_table m s2 FADT_SIG\<rparr> in
            if fadt s3 = NULL then (s3, False)
            else (s3\<lparr>acpi_initialized := True\<rparr>, True))"

text \<open>The busy wait for the enable bit; \<open>inw k\<close> is the answer to the \<open>k\<close>-th read of the port.\<close>

partial_function (option) wait_acpi :: "(nat \<Rightarrow> u16) \<Rightarrow> nat \<Rightarrow> nat option" where
  "wait_acpi inw k = (if inw k AND 1 = 0 then wait_acpi inw (Suc k) else Some k)"

definition acpi_enable :: "bytes \<Rightarrow> (nat \<Rightarrow> u16) \<Rightarrow> acpi_state \<Rightarrow> acpi_state option" where
  "acpi_enable m inw s =
     (if \<not> acpi_initialized s then Some s
      else let port = read32 m (fadt s + 48); v = m (fadt s + 52) in
        if port \<noteq> 0 \<and> v \<noteq> 0
        then map_option (\<lambda>_. s\<lparr>acpi_ports := acpi_ports s @ [(port, ucast v)]\<rparr>) (wait_acpi inw 0)
        else Some s)"

definition acpi_shutdown :: "bytes \<Rightarrow> acpi_state \<Rightarrow> acpi_state" where
  "acpi_shutdown m s =
     (if \<not> acpi_initialized s then s
      else s\<lparr>acpi_ports := acpi_ports s @ [(read32 m (fadt s + 64), push_bit 13 1 OR push_bit 12 1 OR push_bit 5 1)]\<rparr>)"

definition acpi_get_table :: "bytes \<Rightarrow> acpi_state \<Rightarrow> u8 list \<Rightarrow> ptr" where
  "acpi_get_table m s sg = (if \<not> acpi_initialized s then NULL else acpi_find_table m s sg)"

definition acpi_is_initialized :: "acpi_state \<Rightarrow> bool" where
  "acpi_is_initialized s = acpi_initialized s"

section \<open>Local APIC\<close>

record apic_state =
  apic_base :: ptr
  ioapic_base :: ptr
  bsp_apic_id :: u32
  apic_initialized :: bool
  mmio_out :: "(u32 \<times> u32) list"
  msr_base :: u64
  apic_vm :: vm

definition apic_write :: "u32 \<Rightarrow> u32 \<Rightarrow> apic_state \<Rightarrow> apic_state" where
  "apic_write reg v s = s\<lparr>mmio_out := mmio_out s @ [(apic_base s + reg, v)]\<rparr>"

definition apic_read :: "(u32 \<Rightarrow> u32) \<Rightarrow> u32 \<Rightarrow> apic_state \<Rightarrow> u32" where
  "apic_read dev reg s = dev (apic_base s + reg)"

definition ioapic_write :: "u32 \<Rightarrow> u32 \<Rightarrow> apic_state \<Rightarrow> apic_state" where
  "ioapic_write reg v s = s\<lparr>mmio_out := mmio_out s @ [(ioapic_base s, reg), (ioapic_base s + 0x10, v)]\<rparr>"

text \<open>Selecting the register is a write; \<open>dev\<close> maps the selected register to what is read back.\<close>

definition ioapic_read :: "(u32 \<Rightarrow> u32) \<Rightarrow> u32 \<Rightarrow> apic_state \<Rightarrow> apic_state \<times> u32" where
  "ioapic_read dev reg s = (s\<lparr>mmio_out := mmio_out s @ [(ioapic_base s, reg)]\<rparr>, dev reg)"

definition madt_step :: "bytes \<Rightarrow> ptr \<Rightarrow> apic_state \<Rightarrow> apic_state" where
  "madt_step m e s =
     (if m e = 0 then
        if read32 m (e + 4) AND 1 \<noteq> 0 \<and> m (e + 2) = 0 then s\<lparr>bsp_apic_id := ucast (m (e + 3))\<rparr> else s
      else if m e = 1 then
        let (v, p) = memory_map_physical (apic_vm s) (read32 m (e + 4)) 4096
        in s\<lparr>apic_vm := v, ioapic_base := p\<rparr>
      else s)"

text \<open>The loop over the entries. Nothing makes it end, so it is an option.\<close>

partial_function (option) madt_scan :: "bytes \<Rightarrow> ptr \<Rightarrow> ptr \<Rightarrow> apic_state \<Rightarrow> apic_state option" where
  "madt_scan m fin e s =
     (if e < fin then madt_scan m fin (e + ucast (m (e + 1))) (madt_step m e s) else Some s)"

definition apic_init :: "bytes \<Rightarrow> acpi_state \<Rightarrow> apic_state \<Rightarrow> (apic_state \<times> bool) option" where
  "apic_init m acpi s =
     (if apic_initialized s then Some (s, True)
      else let madt = acpi_get_table m acpi MADT_SIG in
        if madt = NULL then Some (s, False)
        else let (v, p) = memory_map_physical (apic_vm s) (read32 m (madt + 36)) 4096;
                 s1 = s\<lparr>apic_vm := v, apic_base := p\<rparr> in
          if p = NULL then Some (s1, False)
          else map_option
            (\<lambda>s2. let s3 = s2\<lparr>msr_base := msr_base s2 OR 0x800\<rparr>;
                      s4 = apic_write 0xF0 (0xFF OR 0x100) s3;
                      s5 = fold (\<lambda>reg. apic_write reg 0x10000) [0x320, 0x330, 0x340, 0x350, 0x360, 0x370] s4
                  in (s5\<lparr>apic_initialized := True\<rparr>, True))
            (madt_scan m (madt + read32 m (madt + 4)) (madt + 44) s1))"

definition apic_eoi :: "apic_state \<Rightarrow> apic_state" where
  "apic_eoi s = (if \<not> apic_initialized s then s else apic_write 0xB0 0 s)"

definition apic_send_ipi :: "u32 \<Rightarrow> u32 \<Rightarrow> apic_state \<Rightarrow> apic_state" where
  "apic_send_ipi apic_id vector s =
     (if \<not> apic_initialized s then s
      else apic_write 0x300 vector (apic_write 0x310 (push_bit 24 apic_id) s))"

definition apic_get_id :: "(u32 \<Rightarrow> u32) \<Rightarrow> apic_state \<Rightarrow> u32" where
  "apic_get_id dev s = (if \<not> apic_initialized s then 0 else drop_bit 24 (apic_read dev 0x20 s) AND 0xFF)"

definition apic_is_bsp :: "(u32 \<Rightarrow> u32) \<Rightarrow> apic_state \<Rightarrow> bool" where
  "apic_is_bsp dev s = (if \<not> apic_initialized s then False else apic_get_id dev s = bsp_apic_id s)"

definition apic_set_timer :: "u32 \<Rightarrow> u32 \<Rightarrow> bool \<Rightarrow> apic_state \<Rightarrow> apic_state" where
  "apic_set_timer vector initial_count periodic s =
     (if \<not> apic_initialized s then s
      else apic_write 0x380 initial_count
        (apic_write 0x320 (vector OR (if periodic then 0x20000 else 0)) (apic_write 0x3E0 0x3 s)))"

definition apic_get_timer_count :: "(u32 \<Rightarrow> u32) \<Rightarrow> apic_state \<Rightarrow> u32" where
  "apic_get_timer_count dev s = (if \<not> apic_initialized s then 0 else apic_read dev 0x390 s)"

definition apic_stop_timer :: "apic_state \<Rightarrow> apic_state" where
  "apic_stop_timer s =
     (if \<not> apic_initialized s then s else apic_write 0x380 0 (apic_write 0x320 0x10000 s))"

definition apic_is_initialized :: "apic_state \<Rightarrow> bool" where
  "apic_is_initialized s = apic_initialized s"

section \<open>What ACPI discovery verifies\<close>

lemma sum_bytes_sum_list:
  "sum_bytes m a n acc = acc + sum_list (map (\<lambda>i. m (a + of_nat i)) [0..<n])"
proof (induction n arbitrary: a acc)
  case 0
  then show ?case by simp
next
  case (Suc n)
  have "map (\<lambda>i. m (a + of_nat i)) [0..<Suc n] = m a # map (\<lambda>i. m (a + 1 + of_nat i)) [0..<n]"
    by (simp add: upt_conv_Cons map_Suc_upt [symmetric] comp_def algebra_simps del: upt_Suc)
  then show ?case using Suc.IH [of "a + 1" "acc + m a"] by (simp add: algebra_simps)
qed

text \<open>A table is well formed when its bytes sum to zero.\<close>

definition checksum_ok :: "bytes \<Rightarrow> ptr \<Rightarrow> u32 \<Rightarrow> bool" where
  "checksum_ok m a len \<longleftrightarrow> sum_list (map (\<lambda>i. m (a + of_nat i)) [0..<unat len]) = 0"

lemma validate_iff: "acpi_validate_table m a len \<longleftrightarrow> checksum_ok m a len"
  by (simp add: acpi_validate_table_def checksum_ok_def sum_bytes_sum_list)

lemma find_table_sound:
  "find_table m rs sg i n = h \<Longrightarrow> h \<noteq> NULL \<Longrightarrow>
    sig_matches m h sg \<and> checksum_ok m h (read32 m (h + 4)) \<and> (\<exists>j. h = read32 m (rs + 36 + 4 * j))"
  by (induction m rs sg i n rule: find_table.induct) (auto simp: validate_iff Let_def split: if_splits)

text \<open>
  When \<open>acpi_init\<close> succeeds on a machine that was not initialised, the root pointer carries
  its signature and checksum, the root table it names has a correct checksum, and the fixed
  description table is one of the root table's entries with its signature and a correct
  checksum; any later \<open>acpi_get_table\<close> that returns a table has verified it the same way.
\<close>

theorem acpi_init_verified:
  assumes "acpi_init m s = (s', True)" "\<not> acpi_initialized s" "rsdp s = NULL"
  shows "rsdp s' \<in> set rsdp_candidates \<and> sig_matches m (rsdp s') RSDP_SIG \<and> checksum_ok m (rsdp s') 20 \<and>
    rsdt s' = read32 m (rsdp s' + 16) \<and> checksum_ok m (rsdt s') (read32 m (rsdt s' + 4)) \<and>
    sig_matches m (fadt s') FADT_SIG \<and> checksum_ok m (fadt s') (read32 m (fadt s' + 4)) \<and>
    (\<forall>sg. acpi_get_table m s' sg \<noteq> NULL \<longrightarrow> sig_matches m (acpi_get_table m s' sg) sg \<and>
       checksum_ok m (acpi_get_table m s' sg) (read32 m (acpi_get_table m s' sg + 4)))"
proof -
  obtain a where a: "find (\<lambda>a. sig_matches m a RSDP_SIG) rsdp_candidates = Some a"
    using assms by (cases "find (\<lambda>a. sig_matches m a RSDP_SIG) rsdp_candidates") (auto simp: acpi_init_def Let_def)
  let ?f = "acpi_find_table m (s\<lparr>rsdp := a, rsdt := read32 m (a + 16)\<rparr>) FADT_SIG"
  have s': "s' = s\<lparr>rsdp := a, rsdt := read32 m (a + 16), fadt := ?f, acpi_initialized := True\<rparr>"
    "checksum_ok m a 20" "checksum_ok m (read32 m (a + 16)) (read32 m (read32 m (a + 16) + 4))" "?f \<noteq> NULL"
    using assms a by (auto simp: acpi_init_def Let_def validate_iff split: if_splits)
  have "a \<in> set rsdp_candidates" "sig_matches m a RSDP_SIG"
    using a by (auto simp: find_Some_iff)
  moreover have "sig_matches m ?f FADT_SIG" "checksum_ok m ?f (read32 m (?f + 4))"
    using find_table_sound [OF _ s'(4)] by (auto simp: acpi_find_table_def)
  moreover have "sig_matches m (acpi_get_table m s' sg) sg \<and>
      checksum_ok m (acpi_get_table m s' sg) (read32 m (acpi_get_table m s' sg + 4))"
    if "acpi_get_table m s' sg \<noteq> NULL" for sg
    using find_table_sound [OF refl, of m "rsdt s'" sg 0] that
    by (auto simp: acpi_get_table_def acpi_find_table_def split: if_splits)
  ultimately show ?thesis using s' by simp
qed

section \<open>The MADT scan\<close>


text \<open>
  An entry with length zero makes the scan run forever, whatever follows it: \<open>apic_init\<close>
  never returns on such a table although its checksum was accepted.
\<close>

theorem madt_scan_zero_length_hangs:
  assumes "m (e + 1) = 0" "e < fin"
  shows "madt_scan m fin e s = None"
proof -
  have "x \<noteq> e" if "madt_scan m fin x t = Some r" for x t r
  proof -
    have "m = m \<and> fin = fin \<longrightarrow> x \<noteq> e"
    proof (rule madt_scan.raw_induct [where P = "\<lambda>m' fin' x t r. m' = m \<and> fin' = fin \<longrightarrow> x \<noteq> e", OF _ that])
      fix scan m' fin' x' t' r'
      assume ih: "\<And>m' fin' x' t' r'. scan m' fin' x' t' = Some r' \<Longrightarrow> m' = m \<and> fin' = fin \<longrightarrow> x' \<noteq> e"
        and eq: "(if x' < fin' then scan m' fin' (x' + ucast (m' (x' + 1))) (madt_step m' x' t') else Some t') = Some r'"
      show "m' = m \<and> fin' = fin \<longrightarrow> x' \<noteq> e"
      proof (intro impI notI)
        assume "m' = m \<and> fin' = fin" "x' = e"
        with assms eq have "scan m fin e (madt_step m e t') = Some r'" by simp
        then show False using ih by blast
      qed
    qed
    then show ?thesis by simp
  qed
  then show ?thesis by (metis option.exhaust)
qed

text \<open>A byte list placed at an address, zero around it.\<close>

definition table_mem :: "u8 list \<Rightarrow> ptr \<Rightarrow> bytes" where
  "table_mem bs a = (\<lambda>x. if unat (x - a) < length bs then bs ! unat (x - a) else 0)"

definition cold_apic :: apic_state where
  "cold_apic = \<lparr>apic_base = 0, ioapic_base = 0, bsp_apic_id = 0, apic_initialized = False, mmio_out = [],
     msr_base = 0, apic_vm = example_vm\<rparr>"

theorem madt_scan_zero_length_hangs_witness:
  "madt_scan (table_mem [0, 0, 0, 5] 0x1000) 0x1008 0x1000 cold_apic = None"
  by (rule madt_scan_zero_length_hangs) (simp_all add: table_mem_def)


text \<open>Firmware memory with a root pointer, a root table with one entry and a description table.\<close>

definition firmware :: bytes where
  "firmware = table_mem
    [82, 83, 68, 32, 80, 84, 82, 32, 179, 0, 0, 0, 0, 0, 0, 0, 32, 0, 14, 0, 0, 0, 0, 0, 0, 0,
     0, 0, 0, 0, 0, 0, 82, 83, 68, 84, 40, 0, 0, 0, 0, 61, 0, 0, 0, 0, 0, 0, 0, 0, 0, 0, 0, 0,
     0, 0, 0, 0, 0, 0, 0, 0, 0, 0, 0, 0, 0, 0, 80, 0, 14, 0, 0, 0, 0, 0, 0, 0, 0, 0, 70, 65,
     67, 80, 36, 0, 0, 0, 0, 194, 0, 0, 0, 0, 0, 0, 0, 0, 0, 0, 0, 0, 0, 0, 0, 0, 0, 0, 0, 0,
     0, 0, 0, 0, 0, 0] 0xE0000"

definition cold_acpi :: acpi_state where
  "cold_acpi = \<lparr>rsdp = 0, rsdt = 0, fadt = 0, acpi_initialized = False, acpi_ports = []\<rparr>"

lemma rsdp_candidates_first: "rsdp_candidates = 0xE0000 # map (\<lambda>i. 0xE0000 + 16 * of_nat i) [1..<0x2000]"
  unfolding rsdp_candidates_def by (subst upt_conv_Cons) simp_all

lemma acpi_init_firmware: "snd (acpi_init firmware cold_acpi)"
proof -
  have r: "sig_matches firmware 0xE0000 RSDP_SIG" "acpi_validate_table firmware 0xE0000 20"
    "read32 firmware 0xE0010 = 0xE0020" "read32 firmware 0xE0024 = 40"
    "acpi_validate_table firmware 0xE0020 40" "read32 firmware 0xE0044 = 0xE0050"
    "read32 firmware 0xE0054 = 36" "sig_matches firmware 0xE0050 FADT_SIG"
    "acpi_validate_table firmware 0xE0050 36"
    by code_simp+
  show ?thesis
    using r by (simp add: acpi_init_def rsdp_candidates_first cold_acpi_def acpi_find_table_def Let_def)
qed

theorem acpi_init_verified_witness:
  "checksum_ok firmware (fadt (fst (acpi_init firmware cold_acpi)))
     (read32 firmware (fadt (fst (acpi_init firmware cold_acpi)) + 4))"
proof -
  have "acpi_init firmware cold_acpi = (fst (acpi_init firmware cold_acpi), True)"
    using acpi_init_firmware by (simp add: prod_eq_iff)
  then show ?thesis by (simp add: acpi_init_verified cold_acpi_def)
qed

end
