(* ===== verification/Task_Scheduler.thy ===== *)
theory Task_Scheduler
  imports Process_Manager Acpi_Apic
begin

text \<open>
  The priority scheduler (\<^verbatim>\<open>kernel/scheduler.c\<close>) and the timer that drives it
  (\<^verbatim>\<open>kernel/timer.c\<close>). The state extends the one of the process manager, whose \<open>process_create\<close>
  and \<open>process_switch\<close> the scheduler calls. \<^verbatim>\<open>interrupt_register_handler\<close> is not defined in the
  repository and is an argument of \<open>timer_init\<close>. Shown here: adding a task inserts it behind the
  tasks of at least its priority, a switch runs the first ready task, which has the highest
  priority, a task runs for exactly its quantum, and the task at the head of the list is chosen
  at every switch, so that others of the same priority never run.
\<close>

section \<open>State\<close>

datatype timer_callback = Scheduler_timer_callback

record sched_state = kstate +
  tasks :: "ptr list"
  sc_current :: ptr
  idle_process :: ptr
  task_count :: nat
  total_switches :: u32
  sc_initialized :: bool
  ticks :: u32
  callback :: "timer_callback option"
  timer_initialized :: bool
  apic :: apic_state

definition MAX_TASKS :: nat where "MAX_TASKS = 256"
definition SCHEDULER_QUANTUM :: u32 where "SCHEDULER_QUANTUM = 10"
definition TIMER_FREQUENCY :: u32 where "TIMER_FREQUENCY = 1000"
definition TIMER_VECTOR :: u32 where "TIMER_VECTOR = 32"

lemmas sched_consts = MAX_TASKS_def SCHEDULER_QUANTUM_def TIMER_FREQUENCY_def TIMER_VECTOR_def

lemma upd_proc_sched [simp]:
  "tasks (upd_proc p f s) = tasks s" "task_count (upd_proc p f s) = task_count s"
  "sc_current (upd_proc p f s) = sc_current s" "idle_process (upd_proc p f s) = idle_process s"
  "total_switches (upd_proc p f s) = total_switches s" "sc_initialized (upd_proc p f s) = sc_initialized s"
  "callback (upd_proc p f s) = callback s" "ticks (upd_proc p f s) = ticks s"
  by (simp_all add: upd_proc_def)

section \<open>The timer\<close>

definition timer_get_ticks :: "'a sched_state_scheme \<Rightarrow> u32" where
  "timer_get_ticks s = ticks s"

definition timer_set_callback :: "timer_callback \<Rightarrow> 'a sched_state_scheme \<Rightarrow> 'a sched_state_scheme" where
  "timer_set_callback c s = (if \<not> timer_initialized s then s else s\<lparr>callback := Some c\<rparr>)"

definition timer_init :: "(u32 \<Rightarrow> 'a sched_state_scheme \<Rightarrow> 'a sched_state_scheme) \<Rightarrow> 'a sched_state_scheme \<Rightarrow> 'a sched_state_scheme \<times> bool" where
  "timer_init interrupt_register_handler s =
     (if timer_initialized s then (s, True)
      else let s1 = interrupt_register_handler TIMER_VECTOR s;
               bus_frequency = 200000000; initial_count = bus_frequency div (16 * TIMER_FREQUENCY)
        in (s1\<lparr>apic := apic_set_timer TIMER_VECTOR initial_count True (apic s1),
               ticks := 0, callback := None, timer_initialized := True\<rparr>, True))"

definition timer_get_uptime :: "'a sched_state_scheme \<Rightarrow> u64" where
  "timer_get_uptime s = (if \<not> timer_initialized s then 0 else ucast (ticks s) * 1000 div ucast TIMER_FREQUENCY)"

definition timer_calibrate :: "(u32 \<Rightarrow> u32) \<Rightarrow> 'a sched_state_scheme \<Rightarrow> 'a sched_state_scheme" where
  "timer_calibrate dev s =
     (if \<not> timer_initialized s then s
      else let a1 = apic_set_timer TIMER_VECTOR 0xFFFFFFFF False (apic_stop_timer (apic s));
               remaining = apic_get_timer_count dev a1;
               t = 0xFFFFFFFF - remaining;
               bus_frequency = t * 16 * 100;
               initial_count = bus_frequency div (16 * TIMER_FREQUENCY)
        in s\<lparr>apic := apic_set_timer TIMER_VECTOR initial_count True a1\<rparr>)"

definition timer_is_initialized :: "'a sched_state_scheme \<Rightarrow> bool" where
  "timer_is_initialized s = timer_initialized s"

section \<open>The scheduler\<close>

definition scheduler_init :: "ptr \<Rightarrow> 'a sched_state_scheme \<Rightarrow> 'a sched_state_scheme \<times> bool" where
  "scheduler_init idle_entry s =
     (if sc_initialized s then (s, True)
      else let s1 = s\<lparr>tasks := replicate MAX_TASKS NULL, sc_current := NULL, idle_process := NULL,
                      task_count := 0, total_switches := 0, sc_initialized := False\<rparr>;
               (s2, idle) = process_create s1 (Some ''idle'') idle_entry in
        if idle = NULL then (s2, False)
        else let s3 = upd_proc idle (\<lambda>pr. pr\<lparr>p_quantum := SCHEDULER_QUANTUM, p_priority := 0,
                        p_state := PROCESS_STATE_READY\<rparr>) (s2\<lparr>idle_process := idle\<rparr>);
                 s4 = timer_set_callback Scheduler_timer_callback s3
          in (s4\<lparr>sc_initialized := True\<rparr>, True))"

text \<open>One pass from the end of the list to its front that swaps neighbours in the wrong order.\<close>

fun bubble_pass :: "nat \<Rightarrow> 'a sched_state_scheme \<Rightarrow> fault + 'a sched_state_scheme" where
  "bubble_pass 0 s = Inr s"
| "bubble_pass (Suc i) s =
     (case (k_procs s (tasks s ! Suc i), k_procs s (tasks s ! i)) of
        (Some a, Some b) \<Rightarrow>
          if p_priority a > p_priority b
          then bubble_pass i (s\<lparr>tasks := (tasks s)[Suc i := tasks s ! i, i := tasks s ! Suc i]\<rparr>)
          else bubble_pass i s
      | _ \<Rightarrow> Inl Dangling_pointer)"

definition scheduler_add_task :: "'a sched_state_scheme \<Rightarrow> ptr \<Rightarrow> u8 \<Rightarrow> fault + ('a sched_state_scheme \<times> bool)" where
  "scheduler_add_task s p prio =
     (if \<not> sc_initialized s \<or> p = NULL \<or> task_count s \<ge> MAX_TASKS then Inr (s, False)
      else case k_procs s p of
        None \<Rightarrow> Inl Dangling_pointer
      | Some _ \<Rightarrow>
          let s1 = upd_proc p (\<lambda>pr. pr\<lparr>p_quantum := SCHEDULER_QUANTUM, p_total_runtime := 0,
                     p_last_run := timer_get_ticks s, p_priority := prio, p_state := PROCESS_STATE_READY\<rparr>) s;
              s2 = s1\<lparr>tasks := (tasks s1)[task_count s1 := p], task_count := Suc (task_count s1)\<rparr>
          in map_sum (\<lambda>e. e) (\<lambda>s3. (s3, True)) (bubble_pass (task_count s2 - 1) s2))"

fun shift_tasks :: "nat list \<Rightarrow> ptr list \<Rightarrow> ptr list" where
  "shift_tasks [] t = t"
| "shift_tasks (j # js) t = shift_tasks js (t[j := t ! Suc j])"

definition scheduler_remove_task :: "'a sched_state_scheme \<Rightarrow> ptr \<Rightarrow> 'a sched_state_scheme" where
  "scheduler_remove_task s p =
     (if \<not> sc_initialized s \<or> p = NULL then s
      else case first_index (\<lambda>q. q = p) (take (task_count s) (tasks s)) of
        None \<Rightarrow> s
      | Some i \<Rightarrow> s\<lparr>tasks := shift_tasks [i..<task_count s - 1] (tasks s), task_count := task_count s - 1\<rparr>)"

text \<open>The search for the first ready task; a task whose process is gone is a fault.\<close>

fun find_ready :: "(ptr \<rightharpoonup> process) \<Rightarrow> ptr list \<Rightarrow> fault + ptr" where
  "find_ready procs [] = Inr NULL"
| "find_ready procs (t # ts) =
     (case procs t of
        None \<Rightarrow> Inl Dangling_pointer
      | Some pr \<Rightarrow> if p_state pr = PROCESS_STATE_READY then Inr t else find_ready procs ts)"

definition scheduler_switch_task :: "'a sched_state_scheme \<Rightarrow> fault + 'a sched_state_scheme" where
  "scheduler_switch_task s =
     (if \<not> sc_initialized s \<or> task_count s = 0 then Inr s
      else let s1 = (if sc_current s \<noteq> NULL
                     then upd_proc (sc_current s) (\<lambda>pr. pr\<lparr>
                            p_total_runtime := p_total_runtime pr + (timer_get_ticks s - p_last_run pr),
                            p_last_run := timer_get_ticks s, p_state := PROCESS_STATE_READY\<rparr>) s
                     else s) in
        case find_ready (k_procs s1) (take (task_count s1) (tasks s1)) of
          Inl e \<Rightarrow> Inl e
        | Inr found \<Rightarrow>
            let nxt = (if found = NULL then idle_process s1 else found);
                s2 = upd_proc nxt (\<lambda>pr. pr\<lparr>p_quantum := SCHEDULER_QUANTUM, p_state := PROCESS_STATE_RUNNING,
                       p_last_run := timer_get_ticks s1\<rparr>) s1;
                s3 = s2\<lparr>sc_current := nxt, total_switches := total_switches s2 + 1\<rparr>
            in process_switch s3 nxt)"

definition scheduler_timer_callback :: "'a sched_state_scheme \<Rightarrow> fault + 'a sched_state_scheme" where
  "scheduler_timer_callback s =
     (if \<not> sc_initialized s \<or> sc_current s = NULL then Inr s
      else case k_procs s (sc_current s) of
        None \<Rightarrow> Inl Dangling_pointer
      | Some pr \<Rightarrow>
          let q = (if p_quantum pr > 0 then p_quantum pr - 1 else p_quantum pr);
              s1 = upd_proc (sc_current s) (\<lambda>pr. pr\<lparr>p_quantum := q\<rparr>) s
          in if q = 0 then scheduler_switch_task s1 else Inr s1)"

definition timer_handler :: "'a sched_state_scheme \<Rightarrow> fault + 'a sched_state_scheme" where
  "timer_handler s =
     (let s1 = s\<lparr>ticks := ticks s + 1\<rparr> in
      map_sum (\<lambda>e. e) (\<lambda>s2. s2\<lparr>apic := apic_eoi (apic s2)\<rparr>)
        (case callback s1 of
           None \<Rightarrow> Inr s1
         | Some Scheduler_timer_callback \<Rightarrow> scheduler_timer_callback s1))"

text \<open>Waiting: every \<^verbatim>\<open>hlt\<close> returns after one timer interrupt.\<close>

partial_function (option) sleep_loop :: "u32 \<Rightarrow> 'a sched_state_scheme \<Rightarrow> (fault + 'a sched_state_scheme) option" where
  "sleep_loop target s =
     (if ticks s < target
      then (case timer_handler s of Inl e \<Rightarrow> Some (Inl e) | Inr s' \<Rightarrow> sleep_loop target s')
      else Some (Inr s))"

definition timer_sleep :: "u32 \<Rightarrow> 'a sched_state_scheme \<Rightarrow> (fault + 'a sched_state_scheme) option" where
  "timer_sleep milliseconds s =
     (if \<not> timer_initialized s then Some (Inr s)
      else sleep_loop (ticks s + milliseconds * TIMER_FREQUENCY div 1000) s)"

definition scheduler_get_current_process :: "'a sched_state_scheme \<Rightarrow> ptr" where
  "scheduler_get_current_process s = (if \<not> sc_initialized s \<or> sc_current s = NULL then NULL else sc_current s)"

definition scheduler_get_task_count :: "'a sched_state_scheme \<Rightarrow> nat" where
  "scheduler_get_task_count s = task_count s"

definition scheduler_get_total_switches :: "'a sched_state_scheme \<Rightarrow> u32" where
  "scheduler_get_total_switches s = total_switches s"

definition scheduler_is_initialized :: "'a sched_state_scheme \<Rightarrow> bool" where
  "scheduler_is_initialized s = sc_initialized s"

section \<open>The task list\<close>

definition run_list :: "'a sched_state_scheme \<Rightarrow> ptr list" where
  "run_list s = take (task_count s) (tasks s)"

definition prio_of :: "'a sched_state_scheme \<Rightarrow> ptr \<Rightarrow> u8" where
  "prio_of s p = (case k_procs s p of Some pr \<Rightarrow> p_priority pr | None \<Rightarrow> 0)"

definition sched_inv :: "'a sched_state_scheme \<Rightarrow> bool" where
  "sched_inv s \<longleftrightarrow> length (tasks s) = MAX_TASKS \<and> task_count s \<le> MAX_TASKS \<and>
     (\<forall>p \<in> set (run_list s). p \<noteq> NULL \<and> k_procs s p \<noteq> None) \<and>
     sorted_wrt (\<lambda>p q. prio_of s p \<ge> prio_of s q) (run_list s)"

definition insert_task :: "(ptr \<Rightarrow> u8) \<Rightarrow> ptr \<Rightarrow> ptr list \<Rightarrow> ptr list" where
  "insert_task f x xs = takeWhile (\<lambda>y. f y \<ge> f x) xs @ x # dropWhile (\<lambda>y. f y \<ge> f x) xs"

text \<open>The pass on an array, with the priorities given by a function.\<close>

fun sift :: "(ptr \<Rightarrow> u8) \<Rightarrow> nat \<Rightarrow> ptr list \<Rightarrow> ptr list" where
  "sift f 0 xs = xs"
| "sift f (Suc i) xs = sift f i (if f (xs ! Suc i) > f (xs ! i) then xs[Suc i := xs ! i, i := xs ! Suc i] else xs)"

lemma sorted_wrt_remove1: "sorted_wrt P xs \<Longrightarrow> sorted_wrt P (remove1 x xs)"
  by (induction xs) (auto dest: notin_set_remove1)

lemma insert_task_last:
  assumes "\<And>y. y \<in> set xs \<Longrightarrow> f y \<ge> f x"
  shows "insert_task f x xs = xs @ [x]"
  using assms by (simp add: insert_task_def takeWhile_eq_all_conv [THEN iffD2])

lemma sift_insert:
  "sorted_wrt (\<lambda>p q. f p \<ge> f q) as \<Longrightarrow> sift f (length as) (as @ x # rest) = insert_task f x as @ rest"
proof (induction as arbitrary: x rest rule: rev_induct)
  case Nil
  then show ?case by (simp add: insert_task_def)
next
  case (snoc b bs)
  have srt: "sorted_wrt (\<lambda>p q. f p \<ge> f q) bs" and ge: "\<And>y. y \<in> set bs \<Longrightarrow> f y \<ge> f b"
    using snoc.prems by (auto simp: sorted_wrt_append)
  show ?case
  proof (cases "f x > f b")
    case True
    have "sift f (length (bs @ [b])) ((bs @ [b]) @ x # rest) = sift f (length bs) (bs @ x # b # rest)"
      using True by (simp add: nth_append list_update_append)
    also have "\<dots> = insert_task f x bs @ b # rest" by (rule snoc.IH [OF srt])
    also have "\<dots> = insert_task f x (bs @ [b]) @ rest"
      using True by (auto simp: insert_task_def takeWhile_append dropWhile_append not_le)
    finally show ?thesis .
  next
    case False
    have "sift f (length (bs @ [b])) ((bs @ [b]) @ x # rest) = sift f (length bs) (bs @ b # x # rest)"
      using False by (simp add: nth_append)
    also have "\<dots> = insert_task f b bs @ x # rest" by (rule snoc.IH [OF srt])
    also have "\<dots> = insert_task f x (bs @ [b]) @ rest"
    proof -
      have le: "f x \<le> f b" using False by simp
      have "insert_task f b bs = bs @ [b]" using ge by (rule insert_task_last)
      moreover have "insert_task f x (bs @ [b]) = (bs @ [b]) @ [x]"
        using ge le order_trans [OF le] by (intro insert_task_last) auto
      ultimately show ?thesis by simp
    qed
    finally show ?thesis .
  qed
qed

lemma mset_insert_task: "mset (insert_task f x as) = add_mset x (mset as)"
proof -
  have "mset (insert_task f x as)
    = add_mset x (mset (takeWhile (\<lambda>y. f y \<ge> f x) as @ dropWhile (\<lambda>y. f y \<ge> f x) as))"
    by (simp add: insert_task_def del: takeWhile_dropWhile_id)
  then show ?thesis by simp
qed

lemma length_insert_task: "length (insert_task f x as) = Suc (length as)"
  by (metis mset_insert_task size_add_mset size_mset)

lemma insert_task_cong:
  assumes "\<And>q. q \<in> set xs \<Longrightarrow> f q = g q" "f x = c"
  shows "insert_task f x xs = takeWhile (\<lambda>q. g q \<ge> c) xs @ x # dropWhile (\<lambda>q. g q \<ge> c) xs"
  using assms by (simp add: insert_task_def cong: takeWhile_cong dropWhile_cong)

lemma set_insert_task: "set (insert_task f x as) = insert x (set as)"
  by (metis mset_insert_task set_mset_add_mset_insert set_mset_mset)

lemma insert_task_sorted:
  assumes "sorted_wrt (\<lambda>p q. f p \<ge> f q) as"
  shows "sorted_wrt (\<lambda>p q. f p \<ge> f q) (insert_task f x as)"
  using assms
proof (induction as)
  case Nil
  then show ?case by (simp add: insert_task_def)
next
  case (Cons a as)
  have all: "\<And>y. y \<in> set as \<Longrightarrow> f y \<le> f a" using Cons.prems by simp
  show ?case
  proof (cases "f a \<ge> f x")
    case True
    then have "insert_task f x (a # as) = a # insert_task f x as" by (simp add: insert_task_def)
    then show ?thesis using Cons True all by (simp add: set_insert_task)
  next
    case False
    then have "f y \<le> f x" if "y \<in> set as" for y using all [OF that] by simp
    with False show ?thesis using Cons.prems by (simp add: insert_task_def not_le less_imp_le)
  qed
qed


text \<open>The pass of the code is the pass on the array as long as all its processes exist.\<close>

lemma bubble_pass_sift:
  assumes "\<And>j. j \<le> i \<Longrightarrow> k_procs s (tasks s ! j) \<noteq> None" "i < length (tasks s)"
  shows "bubble_pass i s = Inr (s\<lparr>tasks := sift (prio_of s) i (tasks s)\<rparr>)"
  using assms
proof (induction i arbitrary: s)
  case 0
  then show ?case by simp
next
  case (Suc i)
  obtain a b where ab: "k_procs s (tasks s ! Suc i) = Some a" "k_procs s (tasks s ! i) = Some b"
    using Suc.prems(1) [of "Suc i"] Suc.prems(1) [of i] by auto
  let ?s = "s\<lparr>tasks := (tasks s)[Suc i := tasks s ! i, i := tasks s ! Suc i]\<rparr>"
  have "prio_of ?s = prio_of s" by (rule ext) (simp add: prio_of_def)
  moreover have "bubble_pass i ?s = Inr (?s\<lparr>tasks := sift (prio_of ?s) i (tasks ?s)\<rparr>)"
    using Suc.prems ab by (intro Suc.IH) (auto simp: nth_list_update)
  moreover have "bubble_pass i s = Inr (s\<lparr>tasks := sift (prio_of s) i (tasks s)\<rparr>)"
    using Suc.prems by (intro Suc.IH) auto
  moreover have "prio_of s (tasks s ! Suc i) = p_priority a" "prio_of s (tasks s ! i) = p_priority b"
    using ab by (simp_all add: prio_of_def)
  ultimately show ?case using ab by simp
qed

text \<open>
  Adding a task puts it behind all tasks of the same or a higher priority and before all of
  a lower one: the single bubble pass keeps the list sorted, keeps the order of the others, and
  no task is lost or duplicated.
\<close>

theorem scheduler_add_task_inserts:
  assumes "sched_inv s" "sc_initialized s" "task_count s < MAX_TASKS"
    "p \<noteq> NULL" "k_procs s p \<noteq> None" "p \<notin> set (run_list s)"
  shows "\<exists>s'. scheduler_add_task s p prio = Inr (s', True) \<and> sched_inv s' \<and> prio_of s' p = prio \<and>
    run_list s' = takeWhile (\<lambda>q. prio_of s q \<ge> prio) (run_list s) @ p # dropWhile (\<lambda>q. prio_of s q \<ge> prio) (run_list s) \<and>
    mset (run_list s') = add_mset p (mset (run_list s))"
proof -
  obtain pr where pr: "k_procs s p = Some pr" using assms(5) by auto
  let ?n = "task_count s"
  let ?s1 = "upd_proc p (\<lambda>pr. pr\<lparr>p_quantum := SCHEDULER_QUANTUM, p_total_runtime := 0,
    p_last_run := timer_get_ticks s, p_priority := prio, p_state := PROCESS_STATE_READY\<rparr>) s"
  let ?s2 = "?s1\<lparr>tasks := (tasks ?s1)[task_count ?s1 := p], task_count := Suc (task_count ?s1)\<rparr>"
  let ?rest = "drop (Suc ?n) (tasks s)"
  have len: "length (tasks s) = MAX_TASKS" "?n < length (tasks s)"
    using assms(1,3) by (simp_all add: sched_inv_def)
  have fields: "tasks ?s1 = tasks s" "task_count ?s1 = ?n" by (simp_all add: upd_proc_def)
  have arr: "tasks ?s2 = run_list s @ p # ?rest"
    using len fields by (simp add: run_list_def upd_conv_take_nth_drop)
  have lr: "length (run_list s) = ?n" using len by (simp add: run_list_def)
  have prio: "prio_of ?s2 q = (if q = p then prio else prio_of s q)" for q
    using pr by (simp add: prio_of_def)
  have srt: "sorted_wrt (\<lambda>a b. prio_of ?s2 a \<ge> prio_of ?s2 b) (run_list s)"
    using assms(1,6) unfolding sched_inv_def prio
    by (auto elim!: sorted_wrt_mono_rel [rotated])
  have "k_procs ?s2 (tasks ?s2 ! j) \<noteq> None" if "j \<le> ?n" for j
  proof (cases "j = ?n")
    case True
    then show ?thesis using arr lr pr by (simp add: nth_append)
  next
    case False
    then have j: "j < length (run_list s)" using that lr by simp
    then have "k_procs s (run_list s ! j) \<noteq> None" using assms(1) nth_mem [OF j] unfolding sched_inv_def by blast
    then show ?thesis using arr j pr by (simp add: nth_append)
  qed
  then have "bubble_pass ?n ?s2 = Inr (?s2\<lparr>tasks := sift (prio_of ?s2) ?n (tasks ?s2)\<rparr>)"
    using len fields by (intro bubble_pass_sift) simp_all
  then have pass: "bubble_pass ?n ?s2 = Inr (?s2\<lparr>tasks := insert_task (prio_of ?s2) p (run_list s) @ ?rest\<rparr>)"
    using sift_insert [OF srt, of p ?rest] arr lr by simp
  let ?s' = "?s2\<lparr>tasks := insert_task (prio_of ?s2) p (run_list s) @ ?rest\<rparr>"
  have res: "scheduler_add_task s p prio = Inr (?s', True)"
    using assms(2-4) pr pass fields by (simp add: scheduler_add_task_def Let_def)
  have li: "length (insert_task (prio_of ?s2) p (run_list s)) = Suc ?n"
    using lr by (simp add: length_insert_task)
  have rl: "run_list ?s' = insert_task (prio_of ?s2) p (run_list s)"
    using li fields by (simp add: run_list_def)
  have prio': "prio_of ?s' = prio_of ?s2" by (rule ext) (simp add: prio_of_def)
  have live: "q \<noteq> NULL \<and> k_procs ?s' q \<noteq> None" if "q \<in> set (run_list ?s')" for q
    using that assms(1,4) pr unfolding rl set_insert_task sched_inv_def by auto
  have "length (tasks ?s') = MAX_TASKS" "task_count ?s' \<le> MAX_TASKS"
    using li len assms(3) fields by simp_all
  moreover have "sorted_wrt (\<lambda>p q. prio_of ?s' p \<ge> prio_of ?s' q) (run_list ?s')"
    unfolding prio' rl by (rule insert_task_sorted [OF srt])
  ultimately have "sched_inv ?s'"
    using live unfolding sched_inv_def by blast
  moreover have "run_list ?s' = takeWhile (\<lambda>q. prio_of s q \<ge> prio) (run_list s) @ p # dropWhile (\<lambda>q. prio_of s q \<ge> prio) (run_list s)"
  proof -
    have "prio_of ?s2 q = prio_of s q" if "q \<in> set (run_list s)" for q
      using that assms(6) prio [of q] by auto
    then have "insert_task (prio_of ?s2) p (run_list s)
      = takeWhile (\<lambda>q. prio_of s q \<ge> prio) (run_list s) @ p # dropWhile (\<lambda>q. prio_of s q \<ge> prio) (run_list s)"
      using prio [of p] by (intro insert_task_cong) simp_all
    then show ?thesis using rl by (rule trans [rotated])
  qed
  ultimately show ?thesis
    using res prio' prio rl mset_insert_task by (intro exI [of _ ?s']) simp
qed

lemma shift_tasks_nth:
  assumes "m < length t"
  shows "length (shift_tasks [i..<m] t) = length t \<and>
    shift_tasks [i..<m] t ! j = (if i \<le> j \<and> j < m then t ! Suc j else t ! j)"
  using assms
proof (induction "m - i" arbitrary: i t)
  case 0
  then show ?case by auto
next
  case (Suc d)
  then have "i < m" by simp
  then have up: "[i..<m] = i # [Suc i..<m]" by (simp add: upt_rec)
  have "length (shift_tasks [Suc i..<m] (t[i := t ! Suc i])) = length (t[i := t ! Suc i]) \<and>
    shift_tasks [Suc i..<m] (t[i := t ! Suc i]) ! j
      = (if Suc i \<le> j \<and> j < m then t[i := t ! Suc i] ! Suc j else t[i := t ! Suc i] ! j)"
    using Suc by (intro Suc.hyps(1)) simp_all
  with up \<open>i < m\<close> Suc.prems show ?case by (auto simp: nth_list_update)
qed

text \<open>
  Removing a task takes its first occurrence out of the list and keeps the order of the
  others, so the list stays sorted; a task that is not listed changes nothing.
\<close>

theorem scheduler_remove_task_removes:
  assumes "sched_inv s" "sc_initialized s" "p \<noteq> NULL"
  shows "run_list (scheduler_remove_task s p) = remove1 p (run_list s) \<and> sched_inv (scheduler_remove_task s p)"
proof (cases "first_index (\<lambda>q. q = p) (run_list s)")
  case None
  then have "p \<notin> set (run_list s)" by (auto simp: first_index_None)
  with None assms show ?thesis by (simp add: scheduler_remove_task_def run_list_def remove1_idem)
next
  case (Some i)
  let ?n = "task_count s"
  let ?s = "s\<lparr>tasks := shift_tasks [i..<?n - 1] (tasks s), task_count := ?n - 1\<rparr>"
  have len: "length (tasks s) = MAX_TASKS" "?n \<le> MAX_TASKS" using assms(1) by (simp_all add: sched_inv_def)
  have i: "i < ?n" using first_index_bound [OF Some] len by (simp add: run_list_def)
  then have sh: "length (shift_tasks [i..<?n - 1] (tasks s)) = length (tasks s)"
    "\<And>j. shift_tasks [i..<?n - 1] (tasks s) ! j = (if i \<le> j \<and> j < ?n - 1 then tasks s ! Suc j else tasks s ! j)"
    using shift_tasks_nth [of "?n - 1" "tasks s" i] len by auto
  have "run_list ?s = take i (run_list s) @ drop (Suc i) (run_list s)"
    using sh i len by (intro nth_equalityI) (auto simp: run_list_def nth_append)
  then have rl: "run_list ?s = remove1 p (run_list s)" using remove1_first_index [OF Some] by simp
  have eq: "scheduler_remove_task s p = ?s"
    using assms(2,3) Some by (simp add: scheduler_remove_task_def run_list_def)
  have "sorted_wrt (\<lambda>a b. prio_of s b \<le> prio_of s a) (remove1 p (run_list s))"
    using assms(1) by (simp add: sched_inv_def sorted_wrt_remove1)
  moreover have "prio_of ?s = prio_of s" by (rule ext) (simp add: prio_of_def)
  ultimately have "sched_inv ?s"
    using assms(1) sh(1) rl by (auto simp: sched_inv_def dest: notin_set_remove1)
  with eq rl show ?thesis by simp
qed

section \<open>Switching\<close>

definition is_ready :: "'a sched_state_scheme \<Rightarrow> ptr \<Rightarrow> bool" where
  "is_ready s p \<longleftrightarrow> p = sc_current s \<or> map_option p_state (k_procs s p) = Some PROCESS_STATE_READY"

lemma find_ready_find:
  assumes "\<And>t. t \<in> set ts \<Longrightarrow> procs t \<noteq> None"
  shows "find_ready procs ts = Inr (case find (\<lambda>t. map_option p_state (procs t) = Some PROCESS_STATE_READY) ts of
    None \<Rightarrow> NULL | Some t \<Rightarrow> t)"
  using assms by (induction ts) (auto split: option.splits)

text \<open>Saving and loading registers touches nothing the scheduler looks at.\<close>

lemma process_switch_frame:
  fixes k :: "'a sched_state_scheme"
  assumes "process_switch k n = Inr k'"
  shows "tasks k' = tasks k" "task_count k' = task_count k" "sc_current k' = sc_current k"
    "idle_process k' = idle_process k" "total_switches k' = total_switches k" "sc_initialized k' = sc_initialized k"
    "callback k' = callback k" "ticks k' = ticks k"
    "map_option p_priority (k_procs k' q) = map_option p_priority (k_procs k q)"
    "map_option p_state (k_procs k' q) = map_option p_state (k_procs k q)"
    "map_option p_quantum (k_procs k' q) = map_option p_quantum (k_procs k q)"
  using assms
  by (auto simp: process_switch_def Let_def upd_proc_def option.map_comp comp_def split: if_splits option.splits)

lemma process_switch_total:
  assumes "k_procs k n \<noteq> None"
  shows "\<exists>k'. process_switch k n = Inr k'"
  using assms by (auto simp: process_switch_def Let_def upd_proc_def split: option.split)

lemma prio_of_map: "prio_of s p = (case map_option p_priority (k_procs s p) of Some x \<Rightarrow> x | None \<Rightarrow> 0)"
  by (simp add: prio_of_def split: option.split)

lemma sched_inv_frame:
  assumes "sched_inv s" "tasks s' = tasks s" "task_count s' = task_count s"
    "\<And>q. map_option p_priority (k_procs s' q) = map_option p_priority (k_procs s q)"
  shows "sched_inv s'" "run_list s' = run_list s" "prio_of s' q = prio_of s q"
proof -
  have p: "prio_of s' q = prio_of s q" for q by (simp add: prio_of_map assms(4))
  have l: "k_procs s' q = None \<longleftrightarrow> k_procs s q = None" for q
    using assms(4) [of q] by (metis map_option_is_None)
  show "run_list s' = run_list s" using assms by (simp add: run_list_def)
  then show "sched_inv s'" using assms(1-3) p l by (simp add: sched_inv_def)
  show "prio_of s' q = prio_of s q" by (rule p)
qed

lemma switch_task_step:
  assumes "sched_inv s" "sc_initialized s" "0 < task_count s" "k_procs s (idle_process s) \<noteq> None"
    "idle_process s \<noteq> NULL" "sc_current s = NULL \<or> k_procs s (sc_current s) \<noteq> None"
  defines "nxt \<equiv> (case find (is_ready s) (run_list s) of Some q \<Rightarrow> q | None \<Rightarrow> idle_process s)"
  shows "\<exists>s'. scheduler_switch_task s = Inr s' \<and> sc_current s' = nxt \<and> total_switches s' = total_switches s + 1 \<and>
    sched_inv s' \<and> run_list s' = run_list s \<and> sc_initialized s' \<and> idle_process s' = idle_process s \<and>
    callback s' = callback s \<and> ticks s' = ticks s \<and>
    map_option p_state (k_procs s' nxt) = Some PROCESS_STATE_RUNNING \<and>
    map_option p_quantum (k_procs s' nxt) = Some SCHEDULER_QUANTUM \<and>
    (\<forall>q. prio_of s' q = prio_of s q) \<and> (\<forall>q. k_procs s' q = None \<longleftrightarrow> k_procs s q = None)"
proof -
  define s1 where "s1 = (if sc_current s \<noteq> NULL
     then upd_proc (sc_current s) (\<lambda>pr. pr\<lparr>p_total_runtime := p_total_runtime pr + (timer_get_ticks s - p_last_run pr),
            p_last_run := timer_get_ticks s, p_state := PROCESS_STATE_READY\<rparr>) s else s)"
  define s3 where "s3 = (upd_proc nxt (\<lambda>pr. pr\<lparr>p_quantum := SCHEDULER_QUANTUM, p_state := PROCESS_STATE_RUNNING,
     p_last_run := timer_get_ticks s1\<rparr>) s1)\<lparr>sc_current := nxt, total_switches := total_switches s + 1\<rparr>"
  have f1: "tasks s1 = tasks s" "task_count s1 = task_count s" "idle_process s1 = idle_process s"
    "total_switches s1 = total_switches s" "sc_initialized s1 = sc_initialized s" "callback s1 = callback s" "ticks s1 = ticks s"
    "\<And>q. map_option p_priority (k_procs s1 q) = map_option p_priority (k_procs s q)"
    "\<And>q. k_procs s1 q = None \<longleftrightarrow> k_procs s q = None"
    by (auto simp: s1_def upd_proc_def option.map_comp comp_def)
  have live: "q \<noteq> NULL" "k_procs s1 q \<noteq> None" if "q \<in> set (run_list s)" for q
    using that assms(1) f1(9) unfolding sched_inv_def by blast+
  have ready: "map_option p_state (k_procs s1 q) = Some PROCESS_STATE_READY \<longleftrightarrow> is_ready s q"
    if "q \<in> set (run_list s)" for q
    using assms(6) live(1) [OF that] by (auto simp: s1_def is_ready_def upd_proc_def)
  have "find_ready (k_procs s1) (run_list s) = Inr (case find (is_ready s) (run_list s) of None \<Rightarrow> NULL | Some t \<Rightarrow> t)"
    using find_ready_find [of "run_list s" "k_procs s1"] live(2) ready by (simp cong: find_cong)
  moreover have "find (is_ready s) (run_list s) = Some q \<Longrightarrow> q \<in> set (run_list s)" for q
    by (auto simp: find_Some_iff)
  ultimately have fr: "find_ready (k_procs s1) (take (task_count s1) (tasks s1)) = Inr found"
      "nxt = (if found = NULL then idle_process s1 else found)" "k_procs s1 nxt \<noteq> None"
    if "found = (case find (is_ready s) (run_list s) of None \<Rightarrow> NULL | Some t \<Rightarrow> t)" for found
    using that live assms(4) f1(1-3,9) by (auto simp: nxt_def run_list_def split: option.split)
  have nl: "k_procs s3 nxt \<noteq> None" using fr(3) [OF refl] by (simp add: s3_def)
  have "scheduler_switch_task s = process_switch s3 nxt"
    using assms(2,3) fr(1,2) [OF refl] f1(4)
    by (simp add: scheduler_switch_task_def Let_def s1_def [symmetric] s3_def)
  then obtain s' where s': "scheduler_switch_task s = Inr s'" "process_switch s3 nxt = Inr s'"
    using process_switch_total [OF nl] by auto
  have f3: "tasks s3 = tasks s" "task_count s3 = task_count s" "idle_process s3 = idle_process s"
    "sc_initialized s3 = sc_initialized s" "callback s3 = callback s" "ticks s3 = ticks s"
    "\<And>q. map_option p_priority (k_procs s3 q) = map_option p_priority (k_procs s q)"
    "map_option p_state (k_procs s3 nxt) = Some PROCESS_STATE_RUNNING"
    "map_option p_quantum (k_procs s3 nxt) = Some SCHEDULER_QUANTUM"
  proof -
    obtain pr where "k_procs s1 nxt = Some pr" using fr(3) [OF refl] by auto
    then show "map_option p_state (k_procs s3 nxt) = Some PROCESS_STATE_RUNNING"
      "map_option p_quantum (k_procs s3 nxt) = Some SCHEDULER_QUANTUM"
      by (simp_all add: s3_def)
  qed (use f1 in \<open>simp_all add: s3_def option.map_comp comp_def\<close>)
  note fs = process_switch_frame [OF s'(2)]
  have pr: "map_option p_priority (k_procs s' q) = map_option p_priority (k_procs s q)" for q
    using fs(9) f3(7) by simp
  have "sched_inv s'" "run_list s' = run_list s" "\<forall>q. prio_of s' q = prio_of s q"
    using sched_inv_frame [OF assms(1), of s'] fs(1,2) f3(1,2) pr by simp_all
  moreover have "\<forall>q. k_procs s' q = None \<longleftrightarrow> k_procs s q = None"
    using pr by (metis map_option_is_None)
  moreover have "sc_current s3 = nxt" "total_switches s3 = total_switches s + 1" by (simp_all add: s3_def)
  ultimately show ?thesis using s'(1) fs f3 assms(2) by (intro exI [of _ s']) simp
qed

text \<open>
  C9. A switch always returns, gives the processor to the first ready task of the list with a
  full quantum, counting the preempted task as ready, and to the idle task when there is none;
  the chosen task has the highest priority among the ready ones.
\<close>

theorem scheduler_switch_highest_priority:
  assumes "sched_inv s" "sc_initialized s" "0 < task_count s" "k_procs s (idle_process s) \<noteq> None"
    "idle_process s \<noteq> NULL" "sc_current s = NULL \<or> k_procs s (sc_current s) \<noteq> None"
  shows "\<exists>s'. scheduler_switch_task s = Inr s' \<and> sched_inv s' \<and>
    sc_current s' = (case find (is_ready s) (run_list s) of Some q \<Rightarrow> q | None \<Rightarrow> idle_process s) \<and>
    map_option p_quantum (k_procs s' (sc_current s')) = Some SCHEDULER_QUANTUM \<and>
    (\<forall>q \<in> set (run_list s). is_ready s q \<longrightarrow> prio_of s q \<le> prio_of s (sc_current s'))"
proof -
  let ?n = "case find (is_ready s) (run_list s) of Some q \<Rightarrow> q | None \<Rightarrow> idle_process s"
  have "prio_of s q \<le> prio_of s ?n" if q: "q \<in> set (run_list s)" "is_ready s q" for q
  proof -
    obtain c where c: "find (is_ready s) (run_list s) = Some c"
      using q by (cases "find (is_ready s) (run_list s)") (auto simp: find_None_iff)
    then obtain i where i: "i < length (run_list s)" "c = run_list s ! i" "\<forall>j < i. \<not> is_ready s (run_list s ! j)"
      by (auto simp: find_Some_iff)
    obtain j where j: "j < length (run_list s)" "q = run_list s ! j" using q(1) by (auto simp: in_set_conv_nth)
    have "i \<le> j" using i(3) j(2) q(2) by (meson not_le)
    moreover have "sorted_wrt (\<lambda>p q. prio_of s p \<ge> prio_of s q) (run_list s)"
      using assms(1) by (simp add: sched_inv_def)
    ultimately show ?thesis
      using c i j by (cases "i = j") (auto simp: sorted_wrt_iff_nth_less)
  qed
  with switch_task_step [OF assms] show ?thesis by metis
qed

text \<open>\<open>n\<close> switches in a row.\<close>

primrec scheduler_switches :: "nat \<Rightarrow> 'a sched_state_scheme \<Rightarrow> fault + 'a sched_state_scheme" where
  "scheduler_switches 0 s = Inr s"
| "scheduler_switches (Suc n) s =
     (case scheduler_switch_task s of Inl e \<Rightarrow> Inl e | Inr s' \<Rightarrow> scheduler_switches n s')"

text \<open>
  The task at the head of the list is chosen again at every switch as soon as it runs once:
  it counts as ready when it is preempted and the search starts at the head. Other tasks, those
  with the same priority included, never run, however many quanta pass.
\<close>

theorem scheduler_head_starves_others:
  assumes "sched_inv s" "sc_initialized s" "0 < task_count s" "k_procs s (idle_process s) \<noteq> None"
    "idle_process s \<noteq> NULL" "sc_current s = run_list s ! 0"
  shows "\<exists>s'. scheduler_switches n s = Inr s' \<and> sc_current s' = run_list s ! 0 \<and>
    total_switches s' = total_switches s + of_nat n"
  using assms
proof (induction n arbitrary: s)
  case 0
  then show ?case by simp
next
  case (Suc n)
  obtain t ts where rl: "run_list s = t # ts"
    using Suc.prems(1,3) by (cases "run_list s") (auto simp: run_list_def sched_inv_def MAX_TASKS_def)
  then have cur: "sc_current s = t" "is_ready s t" using Suc.prems(6) by (simp_all add: is_ready_def)
  have live: "k_procs s t \<noteq> None" using Suc.prems(1) rl by (simp add: sched_inv_def)
  obtain s' where s': "scheduler_switch_task s = Inr s'" "sc_current s' = t" "total_switches s' = total_switches s + 1"
    "sched_inv s'" "run_list s' = run_list s" "sc_initialized s'" "idle_process s' = idle_process s"
    "\<forall>q. k_procs s' q = None \<longleftrightarrow> k_procs s q = None"
    using switch_task_step [OF Suc.prems(1-5)] cur live rl by auto
  have "run_list s' \<noteq> []" using s'(5) rl by simp
  then have "0 < task_count s'" by (auto simp: run_list_def)
  then have "\<exists>s''. scheduler_switches n s' = Inr s'' \<and> sc_current s'' = run_list s' ! 0 \<and>
    total_switches s'' = total_switches s' + of_nat n"
    using s' Suc.prems(4,5) rl by (intro Suc.IH) simp_all
  then show ?case using s' by auto
qed

section \<open>Quantum and sleeping\<close>

primrec timer_interrupts :: "nat \<Rightarrow> 'a sched_state_scheme \<Rightarrow> fault + 'a sched_state_scheme" where
  "timer_interrupts 0 s = Inr s"
| "timer_interrupts (Suc n) s =
     (case timer_handler s of Inl e \<Rightarrow> Inl e | Inr s' \<Rightarrow> timer_interrupts n s')"

lemma timer_handler_running:
  assumes "callback s = Some Scheduler_timer_callback" "sc_initialized s" "sc_current s \<noteq> NULL"
    "k_procs s (sc_current s) = Some pr" "1 < p_quantum pr"
  shows "timer_handler s = Inr ((upd_proc (sc_current s) (\<lambda>pr'. pr'\<lparr>p_quantum := p_quantum pr - 1\<rparr>)
    (s\<lparr>ticks := ticks s + 1\<rparr>))\<lparr>apic := apic_eoi (apic s)\<rparr>)"
proof -
  have "p_quantum pr \<noteq> 0" "p_quantum pr - 1 \<noteq> 0" using assms(5) by auto
  then show ?thesis
    using assms by (simp add: timer_handler_def scheduler_timer_callback_def Let_def word_neq_0_conv upd_proc_def)
qed

text \<open>
  A running task keeps the processor for its whole quantum: with a quantum of \<open>q\<close> ticks left,
  none of the next \<open>q - 1\<close> timer interrupts switches, each is acknowledged, and the tick after
  them calls for exactly one switch.
\<close>

theorem quantum_is_respected:
  assumes "callback s = Some Scheduler_timer_callback" "sc_initialized s" "sc_current s \<noteq> NULL"
    "k_procs s (sc_current s) = Some pr" "p_quantum pr = of_nat (Suc n)" "n < 1000"
  shows "\<exists>s'. timer_interrupts n s = Inr s' \<and> sc_current s' = sc_current s \<and>
    total_switches s' = total_switches s \<and> ticks s' = ticks s + of_nat n \<and>
    map_option p_quantum (k_procs s' (sc_current s)) = Some 1 \<and>
    timer_handler s' = map_sum (\<lambda>e. e) (\<lambda>t. t\<lparr>apic := apic_eoi (apic t)\<rparr>)
      (scheduler_switch_task (upd_proc (sc_current s) (\<lambda>p. p\<lparr>p_quantum := 0\<rparr>) (s'\<lparr>ticks := ticks s' + 1\<rparr>)))"
  using assms
proof (induction n arbitrary: s pr)
  case 0
  then show ?case
    by (simp add: timer_handler_def scheduler_timer_callback_def Let_def id_def)
next
  case (Suc n)
  have q: "1 < p_quantum pr"
    using Suc.prems(5,6) by (simp only: word_less_nat_alt unat_of_nat take_bit_eq_mod) simp
  let ?s = "(upd_proc (sc_current s) (\<lambda>pr'. pr'\<lparr>p_quantum := p_quantum pr - 1\<rparr>)
    (s\<lparr>ticks := ticks s + 1\<rparr>))\<lparr>apic := apic_eoi (apic s)\<rparr>"
  have step: "timer_handler s = Inr ?s" using Suc.prems(1-4) q by (rule timer_handler_running)
  obtain s' where "timer_interrupts n ?s = Inr s'" "sc_current s' = sc_current ?s"
    "total_switches s' = total_switches ?s" "ticks s' = ticks ?s + of_nat n"
    "map_option p_quantum (k_procs s' (sc_current ?s)) = Some 1"
    "timer_handler s' = map_sum (\<lambda>e. e) (\<lambda>t. t\<lparr>apic := apic_eoi (apic t)\<rparr>)
      (scheduler_switch_task (upd_proc (sc_current ?s) (\<lambda>p. p\<lparr>p_quantum := 0\<rparr>) (s'\<lparr>ticks := ticks s' + 1\<rparr>)))"
    using Suc.IH [of ?s "pr\<lparr>p_quantum := p_quantum pr - 1\<rparr>"] Suc.prems by auto
  with step show ?case by (intro exI [of _ s']) simp
qed

lemma sleep_loop_counts:
  assumes "callback s = None" "unat target = unat (ticks s) + n"
  shows "\<exists>s'. sleep_loop target s = Some (Inr s') \<and> ticks s' = target"
  using assms
proof (induction n arbitrary: s)
  case 0
  then have "target = ticks s" by (simp add: word_unat_eq_iff)
  then show ?case by (subst sleep_loop.simps) simp
next
  case (Suc n)
  have lt: "ticks s < target" using Suc.prems(2) by (simp add: word_less_nat_alt)
  then have "unat (ticks s + 1) = Suc (unat (ticks s))"
    using Suc.prems(2) unat_u32_less [of target] by (subst unat_plus_if') simp
  then have "\<exists>s'. sleep_loop target (s\<lparr>ticks := ticks s + 1, apic := apic_eoi (apic s)\<rparr>) = Some (Inr s') \<and> ticks s' = target"
    using Suc.prems by (intro Suc.IH) simp_all
  then show ?case using lt Suc.prems(1) by (subst sleep_loop.simps) (simp add: timer_handler_def Let_def)
qed

text \<open>
  C39. \<open>timer_sleep\<close> waits for the right number of ticks only below 4294968 milliseconds: the
  product of milliseconds and frequency is taken in 32 bits, and a request of 4294968 ms (about
  72 minutes) returns at once.
\<close>

theorem timer_sleep_exact_and_overflow:
  assumes "timer_initialized s" "callback s = None" "ms < 4294968" "unat (ticks s) + unat ms < 2 ^ 32"
  shows "(\<exists>s'. timer_sleep ms s = Some (Inr s') \<and> ticks s' = ticks s + ms) \<and>
    timer_sleep 4294968 s = Some (Inr s)"
proof
  have "unat (ms * 1000) = unat ms * 1000"
    using unat_mult_lem [of ms 1000] assms(3) by (simp add: word_less_nat_alt)
  then have "ms * TIMER_FREQUENCY div 1000 = ms"
    by (simp add: word_unat_eq_iff unat_div TIMER_FREQUENCY_def)
  moreover have "unat (ticks s + ms) = unat (ticks s) + unat ms"
    using assms(4) by (subst unat_plus_if') simp
  ultimately show "\<exists>s'. timer_sleep ms s = Some (Inr s') \<and> ticks s' = ticks s + ms"
    using sleep_loop_counts [OF assms(2), of "ticks s + ms" "unat ms"] assms(1) by (simp add: timer_sleep_def)
  show "timer_sleep 4294968 s = Some (Inr s)"
    using assms(1) by (simp add: timer_sleep_def TIMER_FREQUENCY_def sleep_loop.simps)
qed

section \<open>A small system\<close>

text \<open>An idle task and two tasks of priority 5, one of them listed and running.\<close>

definition demo_proc :: "u8 \<Rightarrow> process_state \<Rightarrow> process" where
  "demo_proc prio st = \<lparr>pid = 0, p_state = st, p_esp = 0, p_ebp = 0, p_eip = 0, p_page_directory = 0,
     p_priority = prio, p_quantum = 3, p_total_runtime = 0, p_last_run = 0, p_fds = [], p_fd_count = 0, p_caps = 0,
     p_next = NULL, p_name = ''demo'', p_stack = NULL, p_entry = NULL\<rparr>"

definition demo_sched :: sched_state where
  "demo_sched = \<lparr>k_heap = booted_heap,
     k_procs = [0x1000 \<mapsto> demo_proc 0 PROCESS_STATE_READY, 0x2000 \<mapsto> demo_proc 5 PROCESS_STATE_RUNNING,
       0x3000 \<mapsto> demo_proc 5 PROCESS_STATE_READY],
     k_mem = (\<lambda>_. 0), k_esp = 0, k_ebp = 0, processes = [], current_process = NULL, process_count = 0,
     pm_initialized = True, tasks = [0x2000, 0x3000] @ replicate 254 NULL, sc_current = 0x2000, idle_process = 0x1000,
     task_count = 2, total_switches = 0, sc_initialized = True, ticks = 7, callback = Some Scheduler_timer_callback,
     timer_initialized = True, apic = cold_apic\<rparr>"

lemma demo_sched_facts:
  "sched_inv demo_sched" "sc_initialized demo_sched" "task_count demo_sched = 2" "run_list demo_sched = [0x2000, 0x3000]"
  "k_procs demo_sched (idle_process demo_sched) \<noteq> None" "idle_process demo_sched \<noteq> NULL"
  "sc_current demo_sched = 0x2000" "k_procs demo_sched 0x2000 = Some (demo_proc 5 PROCESS_STATE_RUNNING)"
  "callback demo_sched = Some Scheduler_timer_callback" "timer_initialized demo_sched" "ticks demo_sched = 7"
  by (simp_all add: demo_sched_def sched_inv_def run_list_def MAX_TASKS_def prio_of_def demo_proc_def)

theorem scheduler_switch_highest_priority_witness:
  "\<exists>s'. scheduler_switch_task demo_sched = Inr s' \<and> sc_current s' = 0x2000"
proof -
  have "find (is_ready demo_sched) (run_list demo_sched) = Some 0x2000"
    by (simp add: demo_sched_facts is_ready_def)
  then show ?thesis
    using scheduler_switch_highest_priority [OF demo_sched_facts(1,2) _ demo_sched_facts(5,6)]
    by (auto simp: demo_sched_facts)
qed

theorem scheduler_head_starves_others_witness:
  "\<exists>s'. scheduler_switches 1000 demo_sched = Inr s' \<and> sc_current s' = 0x2000"
  using scheduler_head_starves_others [OF demo_sched_facts(1,2) _ demo_sched_facts(5,6), of 1000]
  by (auto simp: demo_sched_facts)

theorem scheduler_remove_task_removes_witness:
  "run_list (scheduler_remove_task demo_sched 0x2000) = [0x3000]"
  using scheduler_remove_task_removes [OF demo_sched_facts(1,2), of "0x2000"] by (simp add: demo_sched_facts)

theorem scheduler_add_task_inserts_witness:
  "\<exists>s'. scheduler_add_task demo_sched 0x1000 7 = Inr (s', True) \<and> run_list s' = [0x1000, 0x2000, 0x3000]"
proof -
  have p: "prio_of demo_sched 0x2000 = 5" "prio_of demo_sched 0x3000 = 5"
    "k_procs demo_sched 0x1000 \<noteq> None"
    by (simp_all add: prio_of_def demo_sched_def demo_proc_def)
  show ?thesis
    using scheduler_add_task_inserts [OF demo_sched_facts(1,2), of "0x1000" 7] p
    by (auto simp: demo_sched_facts MAX_TASKS_def)
qed

theorem quantum_is_respected_witness:
  "\<exists>s'. timer_interrupts 2 demo_sched = Inr s' \<and> sc_current s' = 0x2000 \<and> ticks s' = 9"
  using quantum_is_respected [OF demo_sched_facts(9,2) _ _ _, of "demo_proc 5 PROCESS_STATE_RUNNING" 2]
  by (auto simp: demo_sched_facts demo_proc_def)

theorem timer_sleep_exact_and_overflow_witness:
  "(\<exists>s'. timer_sleep 250 (demo_sched\<lparr>callback := None\<rparr>) = Some (Inr s') \<and> ticks s' = 257)"
  using timer_sleep_exact_and_overflow [of "demo_sched\<lparr>callback := None\<rparr>" 250] by (simp add: demo_sched_facts)

end
