(* ===== verification/Spinlock.thy ===== *)
theory Spinlock
  imports Maya_Prelude
begin

text \<open>
  Spinlocks (\<^verbatim>\<open>kernel/spinlock.c\<close>), twice. The functions describe one call that runs alone; the
  step relation interleaves the accesses of several processors and is where mutual exclusion is
  proved. \<^verbatim>\<open>interrupt_disable\<close>, \<^verbatim>\<open>interrupt_restore\<close>, \<^verbatim>\<open>process_wake\<close> and \<^verbatim>\<open>process_block\<close> have no
  definition in the repository: the functions take them, with the caller's processor number and
  process, as a record of operations on an arbitrary environment.
\<close>

section \<open>What the synchronisation objects call\<close>

record 'e os =
  interrupt_disable :: "'e \<Rightarrow> 'e \<times> u32"
  interrupt_restore :: "u32 \<Rightarrow> 'e \<Rightarrow> 'e"
  process_wake :: "ptr \<Rightarrow> 'e \<Rightarrow> 'e"
  process_block :: "ptr \<Rightarrow> 'e \<Rightarrow> 'e"
  this_cpu :: int
  this_process :: ptr

text \<open>
  Operations take the object itself; a call through a pointer is \<open>through\<close>, whose first equation
  is the guard \<^verbatim>\<open>if (!lock) return;\<close> that every one of them starts with.
\<close>

fun through :: "('o \<Rightarrow> 'e \<Rightarrow> fault + ('o \<times> 'e)) \<Rightarrow> 'o option \<Rightarrow> 'e \<Rightarrow> fault + ('o option \<times> 'e)" where
  "through f None e = Inr (None, e)"
| "through f (Some x) e = map_sum (\<lambda>er. er) (\<lambda>(x', e'). (Some x', e')) (f x e)"

section \<open>One call\<close>

record spinlock =
  locked :: u32
  lk_cpu :: int
  interrupt_flags :: u32

definition spinlock_init :: "spinlock \<Rightarrow> spinlock" where
  "spinlock_init l = l\<lparr>locked := 0, lk_cpu := -1, interrupt_flags := 0\<rparr>"

definition spinlock_acquire :: "'e os \<Rightarrow> spinlock \<Rightarrow> 'e \<Rightarrow> fault + (spinlock \<times> 'e)" where
  "spinlock_acquire os l e =
     (let (e1, flags) = interrupt_disable os e; l1 = l\<lparr>interrupt_flags := flags\<rparr>; cpu = this_cpu os in
      if locked l1 \<noteq> 0 \<and> lk_cpu l1 = cpu then Inr (l1, interrupt_restore os (interrupt_flags l1) e1)
      else if locked l1 \<noteq> 0 then Inl Spins_forever
      else Inr (l1\<lparr>locked := 1, lk_cpu := cpu\<rparr>, e1))"

definition spinlock_try_acquire :: "'e os \<Rightarrow> spinlock \<Rightarrow> 'e \<Rightarrow> (spinlock \<times> 'e) \<times> bool" where
  "spinlock_try_acquire os l e =
     (let (e1, flags) = interrupt_disable os e; cpu = this_cpu os in
      if locked l \<noteq> 0 \<and> lk_cpu l = cpu then ((l, interrupt_restore os flags e1), False)
      else if locked l \<noteq> 0 then ((l\<lparr>locked := 1\<rparr>, interrupt_restore os flags e1), False)
      else ((l\<lparr>locked := 1, lk_cpu := cpu, interrupt_flags := flags\<rparr>, e1), True))"

definition spinlock_release :: "'e os \<Rightarrow> spinlock \<Rightarrow> 'e \<Rightarrow> spinlock \<times> 'e" where
  "spinlock_release os l e =
     (if lk_cpu l \<noteq> this_cpu os then (l, e)
      else let l1 = l\<lparr>lk_cpu := -1, locked := 0\<rparr> in (l1, interrupt_restore os (interrupt_flags l1) e))"

definition spinlock_is_locked :: "spinlock \<Rightarrow> bool" where
  "spinlock_is_locked l = (locked l \<noteq> 0)"

definition spinlock_get_cpu :: "spinlock \<Rightarrow> int" where
  "spinlock_get_cpu l = lk_cpu l"

lemma spinlock_acquire_free:
  assumes "locked l = 0"
  shows "spinlock_acquire os l e = Inr (\<lparr>locked = 1, lk_cpu = this_cpu os,
    interrupt_flags = snd (interrupt_disable os e)\<rparr>, fst (interrupt_disable os e))"
  using assms by (simp add: spinlock_acquire_def case_prod_unfold Let_def)

lemma spinlock_release_held:
  "spinlock_release os \<lparr>locked = 1, lk_cpu = this_cpu os, interrupt_flags = f\<rparr> e
    = (\<lparr>locked = 0, lk_cpu = -1, interrupt_flags = f\<rparr>, interrupt_restore os f e)"
  by (simp add: spinlock_release_def)

lemma locked_after_init [simp]: "locked (spinlock_init l) = 0"
  by (simp add: spinlock_init_def)

section \<open>Several processors\<close>

text \<open>
  The program points of a processor: outside, after the flags are saved and interrupts are off,
  spinning, having set the lock word but not yet the owner, inside, and the three stores of the
  release. \<open>Saved\<close> is where \<open>spinlock_acquire\<close> looks for a recursive call. The interrupt flag of each
  processor and the flags word of the lock are booleans here: interrupts on or off.
\<close>

datatype pc = Outside | Saved | Spin | Set_owner | Inside | Clear_owner | Clear_lock | Restore

record smp =
  s_locked :: bool
  s_cpu :: "nat option"
  s_flags :: bool
  s_pc :: "nat \<Rightarrow> pc"
  s_if :: "nat \<Rightarrow> bool"

definition goto :: "nat \<Rightarrow> pc \<Rightarrow> smp \<Rightarrow> smp" where
  "goto c l s = s\<lparr>s_pc := (s_pc s)(c := l)\<rparr>"

inductive spin_step :: "smp \<Rightarrow> smp \<Rightarrow> bool" where
  save: "s_pc s c = Outside \<Longrightarrow>
    spin_step s (goto c Saved (s\<lparr>s_flags := s_if s c, s_if := (s_if s)(c := False)\<rparr>))"
| recursive: "s_pc s c = Saved \<Longrightarrow> s_locked s \<Longrightarrow> s_cpu s = Some c \<Longrightarrow>
    spin_step s (goto c Inside (s\<lparr>s_if := (s_if s)(c := s_flags s)\<rparr>))"
| to_spin: "s_pc s c = Saved \<Longrightarrow> \<not> (s_locked s \<and> s_cpu s = Some c) \<Longrightarrow> spin_step s (goto c Spin s)"
| spin: "s_pc s c = Spin \<Longrightarrow> s_locked s \<Longrightarrow> spin_step s s"
| take_lock: "s_pc s c = Spin \<Longrightarrow> \<not> s_locked s \<Longrightarrow> spin_step s (goto c Set_owner (s\<lparr>s_locked := True\<rparr>))"
| set_owner: "s_pc s c = Set_owner \<Longrightarrow> spin_step s (goto c Inside (s\<lparr>s_cpu := Some c\<rparr>))"
| release: "s_pc s c = Inside \<Longrightarrow> s_cpu s = Some c \<Longrightarrow> spin_step s (goto c Clear_owner s)"
| release_foreign: "s_pc s c = Inside \<Longrightarrow> s_cpu s \<noteq> Some c \<Longrightarrow> spin_step s (goto c Outside s)"
| clear_owner: "s_pc s c = Clear_owner \<Longrightarrow> spin_step s (goto c Clear_lock (s\<lparr>s_cpu := None\<rparr>))"
| clear_lock: "s_pc s c = Clear_lock \<Longrightarrow> spin_step s (goto c Restore (s\<lparr>s_locked := False\<rparr>))"
| restore: "s_pc s c = Restore \<Longrightarrow>
    spin_step s (goto c Outside (s\<lparr>s_if := (s_if s)(c := s_flags s)\<rparr>))"

definition spin_start :: smp where
  "spin_start = \<lparr>s_locked = False, s_cpu = None, s_flags = False, s_pc = (\<lambda>_. Outside), s_if = (\<lambda>_. True)\<rparr>"

definition holds_lock :: "smp \<Rightarrow> nat \<Rightarrow> bool" where
  "holds_lock s c \<longleftrightarrow> s_pc s c \<in> {Set_owner, Inside, Clear_owner, Clear_lock}"

text \<open>The invariant names the one processor, if any, between taking and clearing the lock word.\<close>

definition held_by :: "smp \<Rightarrow> nat option \<Rightarrow> bool" where
  "held_by s h \<longleftrightarrow> (\<forall>c. holds_lock s c \<longleftrightarrow> h = Some c) \<and> (s_locked s \<longleftrightarrow> h \<noteq> None) \<and>
     (\<forall>c. s_cpu s = Some c \<longleftrightarrow> s_pc s c = Inside \<or> s_pc s c = Clear_owner)"

lemma goto_simps [simp]:
  "s_locked (goto c l s) = s_locked s" "s_cpu (goto c l s) = s_cpu s" "s_flags (goto c l s) = s_flags s"
  "s_if (goto c l s) = s_if s" "s_pc (goto c l s) = (s_pc s)(c := l)"
  by (simp_all add: goto_def)

lemma held_by_outside:
  assumes "held_by s h" "s_pc s c \<in> {Outside, Saved, Spin, Restore}" "l \<in> {Outside, Saved, Spin, Restore}"
    "s_locked s' = s_locked s" "s_cpu s' = s_cpu s" "s_pc s' = (s_pc s)(c := l)"
  shows "held_by s' h"
proof -
  have "holds_lock s' d = holds_lock s d" for d using assms(2,3,6) by (auto simp: holds_lock_def)
  moreover have "(s_pc s' d = Inside \<or> s_pc s' d = Clear_owner) = (s_pc s d = Inside \<or> s_pc s d = Clear_owner)" for d
    using assms(2,3,6) by auto
  ultimately show ?thesis using assms(1,4,5) by (simp add: held_by_def)
qed

text \<open>The holder changes its program point, and the owner field with it.\<close>

lemma held_by_holder:
  assumes "held_by s h" "holds_lock s c" "s_locked s' = s_locked s" "s_pc s' = (s_pc s)(c := l)"
    "l \<in> {Set_owner, Inside, Clear_owner, Clear_lock}"
    "s_cpu s' = (if l = Inside \<or> l = Clear_owner then Some c else None)"
  shows "held_by s' h"
proof -
  have h: "h = Some c" using assms(1,2) by (simp add: held_by_def)
  have other: "s_pc s d \<noteq> Inside \<and> s_pc s d \<noteq> Clear_owner" if "d \<noteq> c" for d
    using assms(1) h that by (auto simp: held_by_def holds_lock_def)
  have "holds_lock s' d = holds_lock s d" for d
    using assms(2,4,5) by (cases "d = c") (simp_all add: holds_lock_def)
  moreover have "s_cpu s' = Some d \<longleftrightarrow> s_pc s' d = Inside \<or> s_pc s' d = Clear_owner" for d
    using assms(4,5,6) other by auto
  ultimately show ?thesis using assms(1,3) by (simp add: held_by_def)
qed

lemma held_by_step: "spin_step s s' \<Longrightarrow> held_by s h \<Longrightarrow> \<exists>h'. held_by s' h'"
proof (induction rule: spin_step.induct)
  case (save s c)
  show ?case by (rule exI [of _ h], rule held_by_outside [of s h c Saved]) (use save in \<open>auto\<close>)
next
  case (recursive s c)
  then have "s_pc s c = Inside \<or> s_pc s c = Clear_owner" unfolding held_by_def by blast
  with recursive show ?case by simp
next
  case (to_spin s c)
  show ?case by (rule exI [of _ h], rule held_by_outside [of s h c Spin]) (use to_spin in \<open>auto\<close>)
next
  case (spin s c)
  then show ?case by blast
next
  case (take_lock s c)
  then have none: "\<not> holds_lock s d" for d by (auto simp: held_by_def)
  then have "held_by (goto c Set_owner (s\<lparr>s_locked := True\<rparr>)) (Some c)"
    using take_lock by (auto simp: held_by_def holds_lock_def)
  then show ?case by blast
next
  case (set_owner s c)
  show ?case by (rule exI [of _ h], rule held_by_holder [of s h c _ Inside]) (use set_owner in \<open>auto simp: holds_lock_def\<close>)
next
  case (release s c)
  show ?case by (rule exI [of _ h], rule held_by_holder [of s h c _ Clear_owner]) (use release in \<open>auto simp: holds_lock_def\<close>)
next
  case (release_foreign s c)
  then have "s_cpu s = Some c" unfolding held_by_def by blast
  with release_foreign show ?case by simp
next
  case (clear_owner s c)
  show ?case by (rule exI [of _ h], rule held_by_holder [of s h c _ Clear_lock]) (use clear_owner in \<open>auto simp: holds_lock_def\<close>)
next
  case (clear_lock s c)
  then have c: "holds_lock s c" by (simp add: holds_lock_def)
  then have "\<not> holds_lock s d" if "d \<noteq> c" for d using clear_lock that by (auto simp: held_by_def)
  then have "held_by (goto c Restore (s\<lparr>s_locked := False\<rparr>)) None"
    using clear_lock by (auto simp: held_by_def holds_lock_def)
  then show ?case by blast
next
  case (restore s c)
  show ?case by (rule exI [of _ h], rule held_by_outside [of s h c Outside]) (use restore in \<open>auto\<close>)
qed

lemma held_by_reachable: "spin_step\<^sup>*\<^sup>* spin_start s \<Longrightarrow> \<exists>h. held_by s h"
proof (induction rule: rtranclp_induct)
  case base
  show ?case by (intro exI [of _ None]) (simp add: spin_start_def held_by_def holds_lock_def)
next
  case (step s s')
  then show ?case using held_by_step by blast
qed

text \<open>
  C6. Mutual exclusion: in every interleaving of any number of processors that acquire and
  release the lock, at most one of them is inside, and the lock names it as its owner.
\<close>

theorem spinlock_mutual_exclusion:
  assumes "spin_step\<^sup>*\<^sup>* spin_start s" "s_pc s c = Inside" "s_pc s d = Inside"
  shows "c = d \<and> s_cpu s = Some c \<and> s_locked s"
proof -
  obtain h where h: "held_by s h" using held_by_reachable [OF assms(1)] by blast
  have "holds_lock s c" "holds_lock s d" using assms(2,3) by (simp_all add: holds_lock_def)
  with h assms(2) show ?thesis by (auto simp: held_by_def)
qed

text \<open>A processor that acquires the lock alone gets inside.\<close>

lemma uncontended_run:
  "spin_step\<^sup>*\<^sup>* spin_start (spin_start\<lparr>s_locked := True, s_cpu := Some c, s_flags := True,
     s_pc := (\<lambda>_. Outside)(c := Inside), s_if := (\<lambda>_. True)(c := False)\<rparr>)"
proof -
  let ?a = "goto c Saved (spin_start\<lparr>s_flags := s_if spin_start c, s_if := (s_if spin_start)(c := False)\<rparr>)"
  let ?b = "goto c Spin ?a"
  let ?d = "goto c Set_owner (?b\<lparr>s_locked := True\<rparr>)"
  let ?e = "goto c Inside (?d\<lparr>s_cpu := Some c\<rparr>)"
  have "spin_step spin_start ?a" by (rule save) (simp add: spin_start_def)
  moreover have "spin_step ?a ?b" by (rule to_spin) (simp_all add: spin_start_def)
  moreover have "spin_step ?b ?d" by (rule take_lock) (simp_all add: spin_start_def goto_def)
  moreover have "spin_step ?d ?e" by (rule set_owner) simp
  ultimately have "spin_step\<^sup>*\<^sup>* spin_start ?e" by (meson converse_rtranclp_into_rtranclp r_into_rtranclp)
  moreover have "?e = spin_start\<lparr>s_locked := True, s_cpu := Some c, s_flags := True,
     s_pc := (\<lambda>_. Outside)(c := Inside), s_if := (\<lambda>_. True)(c := False)\<rparr>"
    by (simp add: goto_def spin_start_def)
  ultimately show ?thesis by simp
qed

theorem spinlock_mutual_exclusion_witness:
  "\<exists>s. spin_step\<^sup>*\<^sup>* spin_start s \<and> s_pc s 2 = Inside \<and> s_cpu s = Some 2"
proof -
  let ?s = "spin_start\<lparr>s_locked := True, s_cpu := Some 2, s_flags := True,
     s_pc := (\<lambda>_. Outside)(2 := Inside), s_if := (\<lambda>_. True)(2 := False)\<rparr>"
  have "s_cpu ?s = Some 2"
    using spinlock_mutual_exclusion [OF uncontended_run [of 2], of 2 2] by simp
  with uncontended_run [of 2] show ?thesis by (intro exI [of _ ?s]) simp
qed

text \<open>
  The saved interrupt flag is lost under contention: the flags word belongs to the lock and
  is written before the lock is held. There is a run in which processor 0 enters with interrupts
  on, processor 1 (interrupts off) starts to acquire meanwhile, and processor 0 leaves the
  critical section with its interrupts off.
\<close>

theorem spinlock_contention_loses_interrupt_flag:
  "\<exists>s. spin_step\<^sup>*\<^sup>* (spin_start\<lparr>s_if := (\<lambda>c. c \<noteq> 1)\<rparr>) s \<and> s_if (spin_start\<lparr>s_if := (\<lambda>c. c \<noteq> 1)\<rparr>) 0 \<and>
     s_pc s 0 = Outside \<and> \<not> s_if s 0"
proof -
  let ?s0 = "spin_start\<lparr>s_if := (\<lambda>c. c \<noteq> 1)\<rparr>"
  let ?a = "goto 0 Saved (?s0\<lparr>s_flags := s_if ?s0 0, s_if := (s_if ?s0)(0 := False)\<rparr>)"
  let ?b = "goto 0 Spin ?a"
  let ?d = "goto 0 Set_owner (?b\<lparr>s_locked := True\<rparr>)"
  let ?e = "goto 0 Inside (?d\<lparr>s_cpu := Some 0\<rparr>)"
  let ?f = "goto 1 Saved (?e\<lparr>s_flags := s_if ?e 1, s_if := (s_if ?e)(1 := False)\<rparr>)"
  let ?g = "goto 0 Clear_owner ?f"
  let ?h = "goto 0 Clear_lock (?g\<lparr>s_cpu := None\<rparr>)"
  let ?i = "goto 0 Restore (?h\<lparr>s_locked := False\<rparr>)"
  let ?j = "goto 0 Outside (?i\<lparr>s_if := (s_if ?i)(0 := s_flags ?i)\<rparr>)"
  have "spin_step ?s0 ?a" by (rule save) (simp add: spin_start_def)
  moreover have "spin_step ?a ?b" by (rule to_spin) (simp_all add: spin_start_def)
  moreover have "spin_step ?b ?d" by (rule take_lock) (simp_all add: spin_start_def goto_def)
  moreover have "spin_step ?d ?e" by (rule set_owner) simp
  moreover have "spin_step ?e ?f" by (rule save) (simp add: spin_start_def)
  moreover have "spin_step ?f ?g" by (rule release) simp_all
  moreover have "spin_step ?g ?h" by (rule clear_owner) simp
  moreover have "spin_step ?h ?i" by (rule clear_lock) simp
  moreover have "spin_step ?i ?j" by (rule restore) simp
  ultimately have "spin_step\<^sup>*\<^sup>* ?s0 ?j" by (meson converse_rtranclp_into_rtranclp r_into_rtranclp)
  then show ?thesis by (intro exI [of _ ?j]) (simp add: spin_start_def)
qed

end
