(* ===== verification/Mutex.thy ===== *)
theory Mutex
  imports Spinlock Kernel_Heap
begin

text \<open>
  Sleeping locks (\<^verbatim>\<open>kernel/mutex.c\<close>). A call of \<open>mutex_lock\<close> is split where the code yields with
  \<open>scheduler_switch_task\<close>: \<open>mutex_lock\<close> runs up to the first yield, \<open>mutex_lock_resume\<close> is one more
  turn of the loop. The list of waiters holds the address of each waiter structure and its
  process. Shown here: processes exclude each other as long as memory for the waiter structures
  can be allocated, and do not when it cannot.
\<close>

section \<open>Waiter lists\<close>

type_synonym waiters = "(ptr \<times> ptr) list"

definition sizeof_waiter :: u32 where "sizeof_waiter = 8"

text \<open>
  Removing a waiter structure from a linked list: the head is replaced by its successor,
  otherwise the predecessor is searched; running off the end dereferences a null pointer.
\<close>

fun unlink_waiter :: "ptr \<Rightarrow> waiters \<Rightarrow> fault + waiters" where
  "unlink_waiter w [] = Inl Null_deref"
| "unlink_waiter w (x # xs) =
     (if fst x = w then Inr xs else map_sum (\<lambda>e. e) (\<lambda>r. x # r) (unlink_waiter w xs))"

lemma unlink_waiter_Inr:
  "w \<in> fst ` set ws \<Longrightarrow> \<exists>ws'. unlink_waiter w ws = Inr ws' \<and> set ws' \<subseteq> set ws \<and> Suc (length ws') = length ws"
  by (induction ws) force+

lemma unlink_waiter_head [simp]: "unlink_waiter w ((w, p) # ws) = Inr ws"
  by simp

section \<open>Operations\<close>

record mutex =
  m_locked :: u32
  owner :: ptr
  m_waiters :: waiters

datatype lock_outcome = Returned | Waiting ptr

text \<open>The compare-and-swap of the static \<open>mutex_try_lock\<close>.\<close>

definition mutex_try_lock_word :: "ptr \<Rightarrow> mutex \<Rightarrow> mutex \<times> bool" where
  "mutex_try_lock_word cur m =
     (if m_locked m = 0 then (m\<lparr>m_locked := 1, owner := cur\<rparr>, True) else (m, False))"

definition mutex_init :: "mutex \<Rightarrow> mutex" where
  "mutex_init m = m\<lparr>m_locked := 0, owner := NULL, m_waiters := []\<rparr>"

text \<open>One test of the loop condition with interrupts off, and what follows it.\<close>

definition mutex_lock_turn :: "'e os \<Rightarrow> ptr \<Rightarrow> u32 \<Rightarrow> mutex \<Rightarrow> heap \<Rightarrow> 'e \<Rightarrow> fault + ((mutex \<times> heap \<times> 'e) \<times> lock_outcome)" where
  "mutex_lock_turn os w flags m h e =
     (let (m1, ok) = mutex_try_lock_word (this_process os) m in
      if \<not> ok then Inr ((m1, h, interrupt_restore os flags e), Waiting w)
      else case unlink_waiter w (m_waiters m1) of
          Inl f \<Rightarrow> Inl f
        | Inr ws \<Rightarrow> Inr ((m1\<lparr>m_waiters := ws\<rparr>, kfree h w, interrupt_restore os flags e), Returned))"

definition mutex_lock :: "'e os \<Rightarrow> mutex \<Rightarrow> heap \<Rightarrow> 'e \<Rightarrow> fault + ((mutex \<times> heap \<times> 'e) \<times> lock_outcome)" where
  "mutex_lock os m h e =
     (let (e1, flags) = interrupt_disable os e; current = this_process os;
          (m1, ok) = mutex_try_lock_word current m in
      if ok then Inr ((m1, h, interrupt_restore os flags e1), Returned)
      else if owner m1 = current then Inr ((m1, h, interrupt_restore os flags e1), Returned)
      else let (h1, waiter) = kmalloc h sizeof_waiter in
        if waiter = NULL then Inr ((m1, h1, interrupt_restore os flags e1), Returned)
        else mutex_lock_turn os waiter flags (m1\<lparr>m_waiters := m_waiters m1 @ [(waiter, current)]\<rparr>) h1 e1)"

definition mutex_lock_resume :: "'e os \<Rightarrow> ptr \<Rightarrow> mutex \<Rightarrow> heap \<Rightarrow> 'e \<Rightarrow> fault + ((mutex \<times> heap \<times> 'e) \<times> lock_outcome)" where
  "mutex_lock_resume os w m h e =
     (let (e1, flags) = interrupt_disable os e in mutex_lock_turn os w flags m h e1)"

definition mutex_try_lock :: "'e os \<Rightarrow> mutex \<Rightarrow> 'e \<Rightarrow> (mutex \<times> 'e) \<times> bool" where
  "mutex_try_lock os m e =
     (let (e1, flags) = interrupt_disable os e; (m1, result) = mutex_try_lock_word (this_process os) m
      in ((m1, interrupt_restore os flags e1), result))"

definition mutex_unlock :: "'e os \<Rightarrow> mutex \<Rightarrow> 'e \<Rightarrow> mutex \<times> 'e" where
  "mutex_unlock os m e =
     (let (e1, flags) = interrupt_disable os e in
      if owner m \<noteq> this_process os then (m, interrupt_restore os flags e1)
      else let m1 = m\<lparr>owner := NULL, m_locked := 0\<rparr>;
               e2 = (if m_waiters m1 \<noteq> [] then process_wake os (snd (hd (m_waiters m1))) e1 else e1)
        in (m1, interrupt_restore os flags e2))"

definition mutex_is_locked :: "mutex \<Rightarrow> bool" where
  "mutex_is_locked m = (m_locked m \<noteq> 0)"

definition mutex_get_owner :: "mutex \<Rightarrow> ptr" where
  "mutex_get_owner m = owner m"

section \<open>Uncontended use\<close>

lemma mutex_lock_free:
  assumes "m_locked m = 0"
  shows "mutex_lock os m h e = Inr ((m\<lparr>m_locked := 1, owner := this_process os\<rparr>, h,
    interrupt_restore os (snd (interrupt_disable os e)) (fst (interrupt_disable os e))), Returned)"
  using assms by (simp add: mutex_lock_def mutex_try_lock_word_def case_prod_unfold Let_def)

lemma mutex_unlock_object:
  "fst (mutex_unlock os m e) = (if owner m = this_process os then m\<lparr>owner := NULL, m_locked := 0\<rparr> else m)"
  by (simp add: mutex_unlock_def case_prod_unfold Let_def)

section \<open>Processes sharing a mutex\<close>

text \<open>
  The processes that have returned from \<open>mutex_lock\<close> and not yet called \<open>mutex_unlock\<close> are inside;
  the others are outside or wait with a waiter structure. A step is one call, or one turn of the
  waiting loop. The parameter says whether the allocation of a waiter structure may fail.
\<close>

record 'e mutex_sys =
  ms_mutex :: mutex
  ms_heap :: heap
  ms_env :: 'e
  ms_inside :: "ptr set"
  ms_waits :: "ptr \<rightharpoonup> ptr"

inductive mutex_step :: "'e os \<Rightarrow> bool \<Rightarrow> 'e mutex_sys \<Rightarrow> 'e mutex_sys \<Rightarrow> bool" for os oom where
  lock_enters: "\<lbrakk>p \<notin> ms_inside s; ms_waits s p = None;
      oom \<or> snd (kmalloc (ms_heap s) sizeof_waiter) \<noteq> NULL;
      mutex_lock (os\<lparr>this_process := p\<rparr>) (ms_mutex s) (ms_heap s) (ms_env s) = Inr ((m, h, e), Returned)\<rbrakk> \<Longrightarrow>
    mutex_step os oom s (s\<lparr>ms_mutex := m, ms_heap := h, ms_env := e, ms_inside := insert p (ms_inside s)\<rparr>)"
| lock_waits: "\<lbrakk>p \<notin> ms_inside s; ms_waits s p = None;
      mutex_lock (os\<lparr>this_process := p\<rparr>) (ms_mutex s) (ms_heap s) (ms_env s) = Inr ((m, h, e), Waiting w)\<rbrakk> \<Longrightarrow>
    mutex_step os oom s (s\<lparr>ms_mutex := m, ms_heap := h, ms_env := e, ms_waits := (ms_waits s)(p \<mapsto> w)\<rparr>)"
| resume_enters: "\<lbrakk>ms_waits s p = Some w; p \<notin> ms_inside s;
      mutex_lock_resume (os\<lparr>this_process := p\<rparr>) w (ms_mutex s) (ms_heap s) (ms_env s) = Inr ((m, h, e), Returned)\<rbrakk> \<Longrightarrow>
    mutex_step os oom s (s\<lparr>ms_mutex := m, ms_heap := h, ms_env := e, ms_inside := insert p (ms_inside s),
      ms_waits := (ms_waits s)(p := None)\<rparr>)"
| resume_waits: "\<lbrakk>ms_waits s p = Some w; p \<notin> ms_inside s;
      mutex_lock_resume (os\<lparr>this_process := p\<rparr>) w (ms_mutex s) (ms_heap s) (ms_env s) = Inr ((m, h, e), Waiting w')\<rbrakk> \<Longrightarrow>
    mutex_step os oom s (s\<lparr>ms_mutex := m, ms_heap := h, ms_env := e\<rparr>)"
| unlock: "\<lbrakk>p \<in> ms_inside s; mutex_unlock (os\<lparr>this_process := p\<rparr>) (ms_mutex s) (ms_env s) = (m, e)\<rbrakk> \<Longrightarrow>
    mutex_step os oom s (s\<lparr>ms_mutex := m, ms_env := e, ms_inside := ms_inside s - {p}\<rparr>)"

definition mutex_start :: "heap \<Rightarrow> 'e \<Rightarrow> 'e mutex_sys" where
  "mutex_start h e = \<lparr>ms_mutex = \<lparr>m_locked = 0, owner = NULL, m_waiters = []\<rparr>, ms_heap = h, ms_env = e,
     ms_inside = {}, ms_waits = Map.empty\<rparr>"

definition mutex_inv :: "'e mutex_sys \<Rightarrow> bool" where
  "mutex_inv s \<longleftrightarrow> ms_inside s = (if m_locked (ms_mutex s) = 0 then {} else {owner (ms_mutex s)})"

lemma mutex_lock_cases:
  assumes "mutex_lock os m h e = Inr ((m', h', e'), r)" "m_locked m \<noteq> 0 \<Longrightarrow> owner m \<noteq> this_process os"
    "r = Returned \<Longrightarrow> snd (kmalloc h sizeof_waiter) \<noteq> NULL"
  shows "if m_locked m = 0 then r = Returned \<and> m_locked m' \<noteq> 0 \<and> owner m' = this_process os
    else r \<noteq> Returned \<and> m_locked m' = m_locked m \<and> owner m' = owner m"
  using assms
  by (auto simp: mutex_lock_def mutex_lock_turn_def mutex_try_lock_word_def Let_def split: if_splits prod.splits)

lemma mutex_turn_cases:
  assumes "mutex_lock_resume os w m h e = Inr ((m', h', e'), r)"
  shows "if m_locked m = 0 then r = Returned \<and> m_locked m' \<noteq> 0 \<and> owner m' = this_process os
    else r \<noteq> Returned \<and> m_locked m' = m_locked m \<and> owner m' = owner m"
  using assms
  by (auto simp: mutex_lock_resume_def mutex_lock_turn_def mutex_try_lock_word_def Let_def
      split: if_splits prod.splits sum.splits)

lemma mutex_inv_step: "mutex_step os False s s' \<Longrightarrow> mutex_inv s \<Longrightarrow> mutex_inv s'"
proof (induction rule: mutex_step.induct)
  case (lock_enters p s m h e)
  then show ?case
    using mutex_lock_cases [OF lock_enters(4)] by (auto simp: mutex_inv_def split: if_splits)
next
  case (lock_waits p s m h e w)
  then show ?case
    using mutex_lock_cases [OF lock_waits(3)] by (auto simp: mutex_inv_def split: if_splits)
next
  case (resume_enters s p w m h e)
  then show ?case
    using mutex_turn_cases [OF resume_enters(3)] by (auto simp: mutex_inv_def split: if_splits)
next
  case (resume_waits s p w m h e w')
  then show ?case
    using mutex_turn_cases [OF resume_waits(3)] by (auto simp: mutex_inv_def split: if_splits)
next
  case (unlock p s m e)
  then show ?case
    using mutex_unlock_object [of "os\<lparr>this_process := p\<rparr>" "ms_mutex s" "ms_env s"]
    by (auto simp: mutex_inv_def split: if_splits)
qed


text \<open>
  When no memory is left for the waiter structure, \<open>mutex_lock\<close> returns like a successful
  call: two processes are inside at the same time.
\<close>

theorem mutex_lock_without_memory_admits_two:
  assumes "kmalloc h sizeof_waiter = (h, NULL)" "p \<noteq> q"
  shows "\<exists>s. (mutex_step os True)\<^sup>*\<^sup>* (mutex_start h e) s \<and> {p, q} \<subseteq> ms_inside s"
proof -
  let ?s0 = "mutex_start h e"
  let ?m = "\<lparr>m_locked = 1, owner = p, m_waiters = []\<rparr>"
  have "\<exists>e1. mutex_lock (os\<lparr>this_process := p\<rparr>) (ms_mutex ?s0) (ms_heap ?s0) (ms_env ?s0) = Inr ((?m, h, e1), Returned)"
    by (simp add: mutex_lock_free mutex_start_def)
  then obtain e1 where l1: "mutex_lock (os\<lparr>this_process := p\<rparr>) (ms_mutex ?s0) (ms_heap ?s0) (ms_env ?s0)
      = Inr ((?m, h, e1), Returned)" by blast
  let ?s1 = "?s0\<lparr>ms_mutex := ?m, ms_heap := h, ms_env := e1, ms_inside := insert p (ms_inside ?s0)\<rparr>"
  have s1: "mutex_step os True ?s0 ?s1"
    by (rule mutex_step.lock_enters [OF _ _ _ l1]) (simp_all add: mutex_start_def)
  have "\<exists>e2. mutex_lock (os\<lparr>this_process := q\<rparr>) (ms_mutex ?s1) (ms_heap ?s1) (ms_env ?s1) = Inr ((?m, h, e2), Returned)"
    using assms by (simp add: mutex_lock_def mutex_try_lock_word_def Let_def split: prod.split)
  then obtain e2 where l2: "mutex_lock (os\<lparr>this_process := q\<rparr>) (ms_mutex ?s1) (ms_heap ?s1) (ms_env ?s1)
      = Inr ((?m, h, e2), Returned)" by blast
  let ?s2 = "?s1\<lparr>ms_mutex := ?m, ms_heap := h, ms_env := e2, ms_inside := insert q (ms_inside ?s1)\<rparr>"
  have s2: "mutex_step os True ?s1 ?s2"
    by (rule mutex_step.lock_enters [OF _ _ _ l2]) (use assms(2) in \<open>simp_all add: mutex_start_def\<close>)
  have "(mutex_step os True)\<^sup>*\<^sup>* ?s0 ?s2" using s1 s2 by (meson converse_rtranclp_into_rtranclp r_into_rtranclp)
  then show ?thesis by (intro exI [of _ ?s2]) simp
qed

text \<open>A concrete set of kernel services: a counter of calls as the environment.\<close>

definition demo_os :: "nat os" where
  "demo_os = \<lparr>interrupt_disable = (\<lambda>e. (e + 1, 0x200)), interrupt_restore = (\<lambda>f e. e + 1),
     process_wake = (\<lambda>p e. e + 1), process_block = (\<lambda>p e. e + 1), this_cpu = 0, this_process = 0x1000\<rparr>"

theorem mutex_lock_without_memory_admits_two_witness:
  "\<exists>s. (mutex_step demo_os True)\<^sup>*\<^sup>* (mutex_start heap_reset 0) s \<and> {0x1000, 0x2000} \<subseteq> ms_inside s"
  by (rule mutex_lock_without_memory_admits_two) (simp_all add: kmalloc_def sizeof_waiter_def heap_reset_def)


end
