(* ===== verification/Semaphore.thy ===== *)
theory Semaphore
  imports Mutex
begin

text \<open>
  Counting semaphores (\<^verbatim>\<open>kernel/semaphore.c\<close>). \<open>semaphore_wait\<close> runs up to the call of
  \<open>process_block\<close>, \<open>semaphore_wait_resume\<close> is the clean-up after the process was woken. Shown here:
  the exact balance between the value, the signals and the waits that returned, which is the
  balance of a semaphore only as long as nobody had to block: a woken process does not take the
  unit it was woken for.
\<close>

section \<open>Operations\<close>

record semaphore =
  sem_value :: int
  s_waiters :: waiters
  s_lock :: spinlock

definition semaphore_init :: "semaphore \<Rightarrow> int \<Rightarrow> semaphore" where
  "semaphore_init s v =
     (if v < 0 then s else s\<lparr>sem_value := v, s_waiters := [], s_lock := spinlock_init (s_lock s)\<rparr>)"

text \<open>Leaving through \<open>spinlock_release\<close>.\<close>

definition sem_unlock :: "'e os \<Rightarrow> semaphore \<Rightarrow> 'e \<Rightarrow> semaphore \<times> 'e" where
  "sem_unlock os s e = (let (l, e') = spinlock_release os (s_lock s) e in (s\<lparr>s_lock := l\<rparr>, e'))"

definition semaphore_wait :: "'e os \<Rightarrow> semaphore \<Rightarrow> heap \<Rightarrow> 'e \<Rightarrow> fault + ((semaphore \<times> heap \<times> 'e) \<times> lock_outcome)" where
  "semaphore_wait os s h e =
     (case spinlock_acquire os (s_lock s) e of
        Inl f \<Rightarrow> Inl f
      | Inr (l, e1) \<Rightarrow>
          let s1 = s\<lparr>s_lock := l\<rparr> in
          if sem_value s1 > 0 then
            let (s2, e2) = sem_unlock os (s1\<lparr>sem_value := sem_value s1 - 1\<rparr>) e1 in Inr ((s2, h, e2), Returned)
          else let current = this_process os; (h1, waiter) = kmalloc h sizeof_waiter in
            if waiter = NULL then let (s2, e2) = sem_unlock os s1 e1 in Inr ((s2, h1, e2), Returned)
            else let (s2, e2) = sem_unlock os (s1\<lparr>s_waiters := s_waiters s1 @ [(waiter, current)]\<rparr>) e1
              in Inr ((s2, h1, process_block os current e2), Waiting waiter))"

definition semaphore_wait_resume :: "'e os \<Rightarrow> ptr \<Rightarrow> semaphore \<Rightarrow> heap \<Rightarrow> 'e \<Rightarrow> fault + (semaphore \<times> heap \<times> 'e)" where
  "semaphore_wait_resume os w s h e =
     (case spinlock_acquire os (s_lock s) e of
        Inl f \<Rightarrow> Inl f
      | Inr (l, e1) \<Rightarrow>
          case unlink_waiter w (s_waiters s) of
            Inl f \<Rightarrow> Inl f
          | Inr ws \<Rightarrow>
              let (s2, e2) = sem_unlock os (s\<lparr>s_lock := l, s_waiters := ws\<rparr>) e1 in Inr (s2, kfree h w, e2))"

definition semaphore_try_wait :: "'e os \<Rightarrow> semaphore \<Rightarrow> 'e \<Rightarrow> fault + ((semaphore \<times> 'e) \<times> bool)" where
  "semaphore_try_wait os s e =
     (case spinlock_acquire os (s_lock s) e of
        Inl f \<Rightarrow> Inl f
      | Inr (l, e1) \<Rightarrow>
          let s1 = s\<lparr>s_lock := l\<rparr> in
          if sem_value s1 > 0 then Inr (sem_unlock os (s1\<lparr>sem_value := sem_value s1 - 1\<rparr>) e1, True)
          else Inr (sem_unlock os s1 e1, False))"

definition semaphore_signal :: "'e os \<Rightarrow> semaphore \<Rightarrow> 'e \<Rightarrow> fault + (semaphore \<times> 'e)" where
  "semaphore_signal os s e =
     (case spinlock_acquire os (s_lock s) e of
        Inl f \<Rightarrow> Inl f
      | Inr (l, e1) \<Rightarrow>
          let s1 = s\<lparr>s_lock := l, sem_value := sem_value s + 1\<rparr>;
              e2 = (if s_waiters s1 \<noteq> [] then process_wake os (snd (hd (s_waiters s1))) e1 else e1)
          in Inr (sem_unlock os s1 e2))"

definition semaphore_get_value :: "'e os \<Rightarrow> semaphore \<Rightarrow> 'e \<Rightarrow> fault + ((semaphore \<times> 'e) \<times> int)" where
  "semaphore_get_value os s e =
     (case spinlock_acquire os (s_lock s) e of
        Inl f \<Rightarrow> Inl f
      | Inr (l, e1) \<Rightarrow> Inr (sem_unlock os (s\<lparr>s_lock := l\<rparr>) e1, sem_value s))"

definition semaphore_destroy :: "'e os \<Rightarrow> semaphore \<Rightarrow> heap \<Rightarrow> 'e \<Rightarrow> fault + (semaphore \<times> heap \<times> 'e)" where
  "semaphore_destroy os s h e =
     (case spinlock_acquire os (s_lock s) e of
        Inl f \<Rightarrow> Inl f
      | Inr (l, e1) \<Rightarrow>
          let (h2, e2) = fold (\<lambda>(w, p) (h, e). (kfree h w, process_wake os p e)) (s_waiters s) (h, e1);
              (s2, e3) = sem_unlock os (s\<lparr>s_lock := l, s_waiters := [], sem_value := 0\<rparr>) e2
          in Inr (s2, h2, e3))"

section \<open>Each call with the lock free\<close>

definition sem_free :: "semaphore \<Rightarrow> bool" where
  "sem_free s \<longleftrightarrow> locked (s_lock s) = 0"

lemma sem_unlock_held:
  "sem_unlock os (s\<lparr>s_lock := \<lparr>locked = 1, lk_cpu = this_cpu os, interrupt_flags = f\<rparr>\<rparr>) e
    = (s\<lparr>s_lock := \<lparr>locked = 0, lk_cpu = -1, interrupt_flags = f\<rparr>\<rparr>, interrupt_restore os f e)"
  by (simp add: sem_unlock_def spinlock_release_held)

lemmas sem_call_simps = spinlock_acquire_free sem_unlock_def spinlock_release_def sem_free_def Let_def

lemma semaphore_wait_free:
  assumes "sem_free s"
  shows "\<exists>s' h' e' out. semaphore_wait os s h e = Inr ((s', h', e'), out) \<and> sem_free s' \<and>
    (if sem_value s > 0 then out = Returned \<and> sem_value s' = sem_value s - 1 \<and> s_waiters s' = s_waiters s \<and> h' = h
     else sem_value s' = sem_value s \<and>
       (if snd (kmalloc h sizeof_waiter) = NULL then out = Returned \<and> s_waiters s' = s_waiters s
        else out = Waiting (snd (kmalloc h sizeof_waiter)) \<and>
          s_waiters s' = s_waiters s @ [(snd (kmalloc h sizeof_waiter), this_process os)]))"
proof (cases "sem_value s > 0")
  case True
  with assms show ?thesis by (simp add: semaphore_wait_def sem_call_simps)
next
  case False
  obtain h1 w where "kmalloc h sizeof_waiter = (h1, w)" by (metis surj_pair)
  with False assms show ?thesis by (simp add: semaphore_wait_def sem_call_simps)
qed

lemma semaphore_try_wait_free:
  assumes "sem_free s"
  shows "\<exists>s' e'. semaphore_try_wait os s e = Inr ((s', e'), sem_value s > 0) \<and> sem_free s' \<and>
    s_waiters s' = s_waiters s \<and> sem_value s' = (if sem_value s > 0 then sem_value s - 1 else sem_value s)"
  using assms by (auto simp: semaphore_try_wait_def sem_call_simps)

lemma semaphore_signal_free:
  assumes "sem_free s"
  shows "\<exists>s' e'. semaphore_signal os s e = Inr (s', e') \<and> sem_free s' \<and>
    s_waiters s' = s_waiters s \<and> sem_value s' = sem_value s + 1"
  using assms by (auto simp: semaphore_signal_def sem_call_simps)

lemma semaphore_resume_free:
  assumes "sem_free s" "semaphore_wait_resume os w s h e = Inr (s', h', e')"
  shows "sem_free s' \<and> sem_value s' = sem_value s"
  using assms by (auto simp: semaphore_wait_resume_def sem_call_simps split: sum.splits)

section \<open>The balance\<close>

text \<open>
  Runs of a shared semaphore with ghost counters: waits that returned, signals, returns of a
  process that had been blocked, and returns without a unit because no memory was left.
\<close>

record 'e sem_sys =
  ss_sem :: semaphore
  ss_heap :: heap
  ss_env :: 'e
  ss_passed :: int
  ss_signals :: int
  ss_resumed :: int
  ss_nomem :: int

inductive sem_step :: "'e os \<Rightarrow> 'e sem_sys \<Rightarrow> 'e sem_sys \<Rightarrow> bool" for os where
  wait_returns: "semaphore_wait (os\<lparr>this_process := p\<rparr>) (ss_sem s) (ss_heap s) (ss_env s) = Inr ((s', h', e'), Returned) \<Longrightarrow>
    sem_step os s (s\<lparr>ss_sem := s', ss_heap := h', ss_env := e', ss_passed := ss_passed s + 1,
      ss_nomem := ss_nomem s + (if sem_value (ss_sem s) > 0 then 0 else 1)\<rparr>)"
| wait_blocks: "semaphore_wait (os\<lparr>this_process := p\<rparr>) (ss_sem s) (ss_heap s) (ss_env s) = Inr ((s', h', e'), Waiting w) \<Longrightarrow>
    sem_step os s (s\<lparr>ss_sem := s', ss_heap := h', ss_env := e'\<rparr>)"
| resume: "semaphore_wait_resume (os\<lparr>this_process := p\<rparr>) w (ss_sem s) (ss_heap s) (ss_env s) = Inr (s', h', e') \<Longrightarrow>
    sem_step os s (s\<lparr>ss_sem := s', ss_heap := h', ss_env := e', ss_passed := ss_passed s + 1, ss_resumed := ss_resumed s + 1\<rparr>)"
| try_wait: "semaphore_try_wait (os\<lparr>this_process := p\<rparr>) (ss_sem s) (ss_env s) = Inr ((s', e'), ok) \<Longrightarrow>
    sem_step os s (s\<lparr>ss_sem := s', ss_env := e', ss_passed := ss_passed s + (if ok then 1 else 0)\<rparr>)"
| signal: "semaphore_signal (os\<lparr>this_process := p\<rparr>) (ss_sem s) (ss_env s) = Inr (s', e') \<Longrightarrow>
    sem_step os s (s\<lparr>ss_sem := s', ss_env := e', ss_signals := ss_signals s + 1\<rparr>)"

definition sem_start :: "semaphore \<Rightarrow> int \<Rightarrow> heap \<Rightarrow> 'e \<Rightarrow> 'e sem_sys" where
  "sem_start s v h e = \<lparr>ss_sem = semaphore_init s v, ss_heap = h, ss_env = e, ss_passed = 0, ss_signals = 0,
     ss_resumed = 0, ss_nomem = 0\<rparr>"

definition sem_balance :: "int \<Rightarrow> 'e sem_sys \<Rightarrow> bool" where
  "sem_balance v s \<longleftrightarrow> sem_free (ss_sem s) \<and> 0 \<le> sem_value (ss_sem s) \<and>
     sem_value (ss_sem s) + ss_passed s = v + ss_signals s + ss_resumed s + ss_nomem s"

lemma sem_balance_step: "sem_step os s t \<Longrightarrow> sem_balance v s \<Longrightarrow> sem_balance v t"
proof (induction rule: sem_step.induct)
  case (wait_returns p s s' h' e')
  then show ?case
    using semaphore_wait_free [of "ss_sem s" "os\<lparr>this_process := p\<rparr>" "ss_heap s" "ss_env s"] by (auto simp: sem_balance_def split: if_splits)
next
  case (wait_blocks p s s' h' e' w)
  then show ?case
    using semaphore_wait_free [of "ss_sem s" "os\<lparr>this_process := p\<rparr>" "ss_heap s" "ss_env s"] by (auto simp: sem_balance_def split: if_splits)
next
  case (resume p w s s' h' e')
  then show ?case
    using semaphore_resume_free [OF _ resume(1)] by (auto simp: sem_balance_def)
next
  case (try_wait p s s' e' ok)
  then show ?case
    using semaphore_try_wait_free [of "ss_sem s" "os\<lparr>this_process := p\<rparr>" "ss_env s"]
    by (auto simp: sem_balance_def split: if_splits)
next
  case (signal p s s' e')
  then show ?case
    using semaphore_signal_free [of "ss_sem s" "os\<lparr>this_process := p\<rparr>" "ss_env s"]
    by (auto simp: sem_balance_def)
qed


text \<open>
  One signal admits two processes: with value 0, a process that blocks, one signal, the
  return of the woken process and a wait of another one, both waits return.
\<close>

theorem semaphore_signal_admits_two:
  assumes "snd (kmalloc h sizeof_waiter) \<noteq> NULL"
  shows "\<exists>s. (sem_step os)\<^sup>*\<^sup>* (sem_start s0 0 h e) s \<and> ss_signals s = 1 \<and> ss_passed s = 2 \<and> ss_nomem s = 0"
proof -
  define a where "a = sem_start s0 0 h e"
  have a: "sem_free (ss_sem a)" "sem_value (ss_sem a) = 0" "s_waiters (ss_sem a) = []" "ss_heap a = h"
    "ss_passed a = 0" "ss_signals a = 0" "ss_nomem a = 0"
    by (simp_all add: a_def sem_start_def semaphore_init_def sem_free_def)
  let ?w = "snd (kmalloc h sizeof_waiter)"
  obtain s1 h1 e1 where w: "semaphore_wait (os\<lparr>this_process := 1\<rparr>) (ss_sem a) (ss_heap a) (ss_env a) = Inr ((s1, h1, e1), Waiting ?w)"
    "sem_free s1" "sem_value s1 = 0" "s_waiters s1 = [(?w, 1)]"
    using semaphore_wait_free [OF a(1), of "os\<lparr>this_process := 1\<rparr>" h "ss_env a"] a assms by auto
  define b where "b = a\<lparr>ss_sem := s1, ss_heap := h1, ss_env := e1\<rparr>"
  have ab: "sem_step os a b" unfolding b_def by (rule wait_blocks [OF w(1)])
  obtain s2 e2 where g: "semaphore_signal (os\<lparr>this_process := 2\<rparr>) (ss_sem b) (ss_env b) = Inr (s2, e2)"
    "sem_free s2" "sem_value s2 = 1" "s_waiters s2 = [(?w, 1)]"
    using semaphore_signal_free [of s1 "os\<lparr>this_process := 2\<rparr>" e1] w by (auto simp: b_def)
  define c where "c = b\<lparr>ss_sem := s2, ss_env := e2, ss_signals := ss_signals b + 1\<rparr>"
  have bc: "sem_step os b c" unfolding c_def by (rule signal [OF g(1)])
  obtain s3 h3 e3 where r: "semaphore_wait_resume (os\<lparr>this_process := 1\<rparr>) ?w (ss_sem c) (ss_heap c) (ss_env c) = Inr (s3, h3, e3)"
    using g by (auto simp: c_def semaphore_wait_resume_def sem_call_simps split: prod.split)
  have s3: "sem_free s3" "sem_value s3 = 1" using semaphore_resume_free [OF _ r] g by (simp_all add: c_def)
  define d where "d = c\<lparr>ss_sem := s3, ss_heap := h3, ss_env := e3, ss_passed := ss_passed c + 1, ss_resumed := ss_resumed c + 1\<rparr>"
  have cd: "sem_step os c d" unfolding d_def by (rule resume [OF r])
  obtain s4 h4 e4 where t: "semaphore_wait (os\<lparr>this_process := 3\<rparr>) (ss_sem d) (ss_heap d) (ss_env d) = Inr ((s4, h4, e4), Returned)"
    using semaphore_wait_free [OF s3(1), of "os\<lparr>this_process := 3\<rparr>" h3 e3] s3 by (auto simp: d_def)
  have "(sem_step os)\<^sup>*\<^sup>* a d" using ab bc cd by (meson converse_rtranclp_into_rtranclp r_into_rtranclp)
  define f where "f = d\<lparr>ss_sem := s4, ss_heap := h4, ss_env := e4, ss_passed := ss_passed d + 1,
      ss_nomem := ss_nomem d + (if sem_value (ss_sem d) > 0 then 0 else 1)\<rparr>"
  have "sem_step os d f" unfolding f_def by (rule wait_returns [OF t])
  with \<open>(sem_step os)\<^sup>*\<^sup>* a d\<close> have "(sem_step os)\<^sup>*\<^sup>* a f" by (rule rtranclp.rtrancl_into_rtrancl)
  moreover have "ss_signals f = 1" "ss_passed f = 2" "ss_nomem f = 0"
    by (simp_all add: f_def d_def c_def b_def a(5-7) s3)
  ultimately show ?thesis unfolding a_def by blast
qed

text \<open>
  A process that waits while the semaphore is destroyed crashes when it resumes: the waiter
  list is gone and the search for its own entry dereferences a null pointer.
\<close>

theorem semaphore_destroy_crashes_waiter:
  assumes "sem_free s" "semaphore_destroy os s h e = Inr (s', h', e')"
  shows "semaphore_wait_resume os' w s' h' e'' = Inl Null_deref"
  using assms by (auto simp: semaphore_wait_resume_def semaphore_destroy_def sem_call_simps split: prod.splits)

definition zero_sem :: semaphore where
  "zero_sem = \<lparr>sem_value = 0, s_waiters = [], s_lock = \<lparr>locked = 0, lk_cpu = -1, interrupt_flags = 0\<rparr>\<rparr>"


theorem semaphore_signal_admits_two_witness:
  "\<exists>s. (sem_step demo_os)\<^sup>*\<^sup>* (sem_start zero_sem 0 booted_heap 0) s \<and> ss_signals s = 1 \<and> ss_passed s = 2 \<and> ss_nomem s = 0"
  by (rule semaphore_signal_admits_two)
     (simp add: sizeof_waiter_def booted_heap_eval kmalloc_def split_block_def)

theorem semaphore_destroy_crashes_waiter_witness:
  "\<exists>s' h' e'. semaphore_destroy demo_os (zero_sem\<lparr>s_waiters := [(0xD0000010, 5)]\<rparr>) heap_reset 0 = Inr (s', h', e') \<and>
     semaphore_wait_resume (demo_os\<lparr>this_process := 5\<rparr>) 0xD0000010 s' h' e' = Inl Null_deref"
proof -
  let ?s = "zero_sem\<lparr>s_waiters := [(0xD0000010, 5)]\<rparr>"
  have f: "sem_free ?s" by (simp add: sem_free_def zero_sem_def)
  then obtain s' h' e' where "semaphore_destroy demo_os ?s heap_reset 0 = Inr (s', h', e')"
    by (auto simp: semaphore_destroy_def sem_call_simps split: prod.splits)
  then show ?thesis
    by (intro exI [of _ s'] exI [of _ h'] exI [of _ e'] conjI semaphore_destroy_crashes_waiter [OF f])
qed

end
