(* ===== verification/Condition_Variable.thy ===== *)
theory Condition_Variable
  imports Mutex
begin

text \<open>
  Condition variables (\<^verbatim>\<open>kernel/condition.c\<close>). \<open>condition_wait\<close> runs up to the call of
  \<open>process_block\<close>; the woken process goes on with \<open>mutex_lock\<close>. Shown here: waiters are woken in
  the order of arrival, one per signal, their structures are given back to the heap, and a
  broadcast wakes all of them.
\<close>

section \<open>Operations\<close>

record condition =
  c_waiters :: waiters
  c_lock :: spinlock

definition condition_init :: "condition \<Rightarrow> condition" where
  "condition_init c = c\<lparr>c_waiters := [], c_lock := spinlock_init (c_lock c)\<rparr>"

definition cond_unlock :: "'e os \<Rightarrow> condition \<Rightarrow> 'e \<Rightarrow> condition \<times> 'e" where
  "cond_unlock os c e = (let (l, e') = spinlock_release os (c_lock c) e in (c\<lparr>c_lock := l\<rparr>, e'))"

definition condition_wait :: "'e os \<Rightarrow> condition \<Rightarrow> mutex \<Rightarrow> heap \<Rightarrow> 'e \<Rightarrow> fault + ((condition \<times> mutex \<times> heap \<times> 'e) \<times> lock_outcome)" where
  "condition_wait os c m h e =
     (case spinlock_acquire os (c_lock c) e of
        Inl f \<Rightarrow> Inl f
      | Inr (l, e1) \<Rightarrow>
          let c1 = c\<lparr>c_lock := l\<rparr>; current = this_process os; (h1, waiter) = kmalloc h sizeof_waiter in
          if waiter = NULL then let (c2, e2) = cond_unlock os c1 e1 in Inr ((c2, m, h1, e2), Returned)
          else let c2 = c1\<lparr>c_waiters := c_waiters c1 @ [(waiter, current)]\<rparr>;
                   (m1, e2) = mutex_unlock os m e1;
                   (c3, e3) = cond_unlock os c2 e2
            in Inr ((c3, m1, h1, process_block os current e3), Waiting waiter))"

definition condition_wait_resume :: "'e os \<Rightarrow> condition \<Rightarrow> mutex \<Rightarrow> heap \<Rightarrow> 'e \<Rightarrow> fault + ((mutex \<times> heap \<times> 'e) \<times> lock_outcome)" where
  "condition_wait_resume os c m h e = mutex_lock os m h e"

definition condition_signal :: "'e os \<Rightarrow> condition \<Rightarrow> heap \<Rightarrow> 'e \<Rightarrow> fault + (condition \<times> heap \<times> 'e)" where
  "condition_signal os c h e =
     (case spinlock_acquire os (c_lock c) e of
        Inl f \<Rightarrow> Inl f
      | Inr (l, e1) \<Rightarrow>
          let c1 = c\<lparr>c_lock := l\<rparr> in
          case c_waiters c1 of
            [] \<Rightarrow> let (c2, e2) = cond_unlock os c1 e1 in Inr (c2, h, e2)
          | (w, p) # ws \<Rightarrow>
              let (c2, e2) = cond_unlock os (c1\<lparr>c_waiters := ws\<rparr>) (process_wake os p e1)
              in Inr (c2, kfree h w, e2))"

text \<open>The loop that wakes everybody.\<close>

fun wake_all :: "'e os \<Rightarrow> waiters \<Rightarrow> heap \<Rightarrow> 'e \<Rightarrow> heap \<times> 'e" where
  "wake_all os [] h e = (h, e)"
| "wake_all os ((w, p) # ws) h e = wake_all os ws (kfree h w) (process_wake os p e)"

definition condition_broadcast :: "'e os \<Rightarrow> condition \<Rightarrow> heap \<Rightarrow> 'e \<Rightarrow> fault + (condition \<times> heap \<times> 'e)" where
  "condition_broadcast os c h e =
     (case spinlock_acquire os (c_lock c) e of
        Inl f \<Rightarrow> Inl f
      | Inr (l, e1) \<Rightarrow>
          let (h1, e2) = wake_all os (c_waiters c) h e1;
              (c2, e3) = cond_unlock os (c\<lparr>c_lock := l, c_waiters := []\<rparr>) e2
          in Inr (c2, h1, e3))"

definition condition_destroy :: "'e os \<Rightarrow> condition \<Rightarrow> heap \<Rightarrow> 'e \<Rightarrow> fault + (condition \<times> heap \<times> 'e)" where
  "condition_destroy os c h e =
     (case spinlock_acquire os (c_lock c) e of
        Inl f \<Rightarrow> Inl f
      | Inr (l, e1) \<Rightarrow>
          let (h1, e2) = wake_all os (c_waiters c) h e1;
              (c2, e3) = cond_unlock os (c\<lparr>c_lock := l, c_waiters := []\<rparr>) e2
          in Inr (c2, h1, e3))"

definition condition_has_waiters :: "'e os \<Rightarrow> condition \<Rightarrow> 'e \<Rightarrow> fault + ((condition \<times> 'e) \<times> bool)" where
  "condition_has_waiters os c e =
     (case spinlock_acquire os (c_lock c) e of
        Inl f \<Rightarrow> Inl f
      | Inr (l, e1) \<Rightarrow> Inr (cond_unlock os (c\<lparr>c_lock := l\<rparr>) e1, c_waiters c \<noteq> []))"

section \<open>Wake-ups in order\<close>

definition cond_free :: "condition \<Rightarrow> bool" where
  "cond_free c \<longleftrightarrow> locked (c_lock c) = 0"

lemmas cond_call_simps = spinlock_acquire_free cond_unlock_def spinlock_release_def cond_free_def Let_def

lemma condition_signal_free:
  assumes "cond_free c"
  shows "\<exists>c' e'. condition_signal os c h e = Inr (c', (case c_waiters c of [] \<Rightarrow> h | x # _ \<Rightarrow> kfree h (fst x)), e') \<and>
    cond_free c' \<and> c_waiters c' = tl (c_waiters c)"
  using assms by (auto simp: condition_signal_def cond_call_simps split: list.split)

lemma condition_broadcast_free:
  assumes "cond_free c"
  shows "\<exists>c' h' e'. condition_broadcast os c h e = Inr (c', h', e') \<and> cond_free c' \<and> c_waiters c' = [] \<and>
    h' = foldl kfree h (map fst (c_waiters c))"
proof -
  have "fst (wake_all os ws h e) = foldl kfree h (map fst ws)" for ws h and e :: 'a
    by (induction ws arbitrary: h e) auto
  with assms show ?thesis
    by (auto simp: condition_broadcast_def cond_call_simps split: prod.split) (metis fst_conv)
qed

text \<open>
  The processes a run of signals wakes, when \<open>process_wake\<close> is observed on an environment that
  records them: interrupts and blocking leave the record alone.
\<close>

definition recording_os :: "int \<Rightarrow> ptr \<Rightarrow> ptr list os" where
  "recording_os cpu p = \<lparr>interrupt_disable = (\<lambda>e. (e, 0x200)), interrupt_restore = (\<lambda>f e. e),
     process_wake = (\<lambda>q e. e @ [q]), process_block = (\<lambda>q e. e), this_cpu = cpu, this_process = p\<rparr>"

primrec signals :: "'e os \<Rightarrow> nat \<Rightarrow> condition \<Rightarrow> heap \<Rightarrow> 'e \<Rightarrow> fault + (condition \<times> heap \<times> 'e)" where
  "signals os 0 c h e = Inr (c, h, e)"
| "signals os (Suc n) c h e =
     (case condition_signal os c h e of Inl f \<Rightarrow> Inl f | Inr (c', h', e') \<Rightarrow> signals os n c' h' e')"

text \<open>
  Signals wake waiters in the order in which they arrived, one each: \<open>n\<close> signals wake the
  first \<open>n\<close> waiters, give their structures back to the heap and leave the others queued; signals
  beyond the last waiter are lost.
\<close>

theorem condition_signals_fifo:
  assumes "cond_free c"
  shows "\<exists>c'. signals (recording_os cpu p) n c h e
      = Inr (c', foldl kfree h (map fst (take n (c_waiters c))), e @ map snd (take n (c_waiters c))) \<and>
    cond_free c' \<and> c_waiters c' = drop n (c_waiters c)"
  using assms
proof (induction n arbitrary: c h e)
  case 0
  then show ?case by simp
next
  case (Suc n)
  show ?case
  proof (cases "c_waiters c")
    case Nil
    obtain c1 where one: "condition_signal (recording_os cpu p) c h e = Inr (c1, h, e)" "cond_free c1" "c_waiters c1 = []"
      using Suc.prems Nil by (auto simp: condition_signal_def cond_call_simps recording_os_def)
    with Suc.IH [OF one(2), of h e] Nil show ?thesis by auto
  next
    case (Cons x ws)
    obtain c1 where one: "condition_signal (recording_os cpu p) c h e = Inr (c1, kfree h (fst x), e @ [snd x])"
      "cond_free c1" "c_waiters c1 = ws"
      using Suc.prems Cons by (cases x) (auto simp: condition_signal_def cond_call_simps recording_os_def)
    with Suc.IH [OF one(2), of "kfree h (fst x)" "e @ [snd x]"] Cons show ?thesis by auto
  qed
qed

definition demo_cond :: condition where
  "demo_cond = \<lparr>c_waiters = [(0x100, 7), (0x200, 8), (0x300, 9)], c_lock = \<lparr>locked = 0, lk_cpu = -1, interrupt_flags = 0\<rparr>\<rparr>"

theorem condition_signals_fifo_witness:
  "\<exists>c'. signals (recording_os 0 1) 2 demo_cond heap_reset [] = Inr (c', kfree (kfree heap_reset 0x100) 0x200, [7, 8]) \<and>
     c_waiters c' = [(0x300, 9)]"
  using condition_signals_fifo [of demo_cond 0 1 2 heap_reset "[]"]
  by (auto simp: demo_cond_def cond_free_def numeral_2_eq_2)

text \<open>
  A process that waits has been queued before the mutex is free, so a signal sent under the
  mutex after the wait began finds it.
\<close>

lemma condition_wait_queues_first:
  assumes "cond_free c" "owner m = this_process os" "condition_wait os c m h e = Inr ((c', m', h', e'), Waiting w)"
  shows "cond_free c' \<and> c_waiters c' = c_waiters c @ [(w, this_process os)] \<and> m_locked m' = 0 \<and> owner m' = NULL"
proof -
  obtain h1 a where k: "kmalloc h sizeof_waiter = (h1, a)" by (metis surj_pair)
  obtain m2 e2 where u: "mutex_unlock os m (fst (interrupt_disable os e)) = (m2, e2)" by (metis surj_pair)
  then have "m2 = m\<lparr>owner := NULL, m_locked := 0\<rparr>"
    using mutex_unlock_object [of os m "fst (interrupt_disable os e)"] assms(2) by simp
  then show ?thesis
    using assms(1,3) k u by (auto simp: condition_wait_def cond_call_simps split: if_splits)
qed

end
