(* ===== verification/Fifo_Interface.thy ===== *)
theory Fifo_Interface
  imports Maya_Prelude
begin

text \<open>
  The contract of every buffer of the kernel that passes data from a producer to a consumer: the
  message queue, the pipe and the keyboard buffer. \<open>put\<close> may refuse, \<open>get\<close> may find nothing; what
  is accepted comes out once, unchanged and in order. The history lemma is proved once, here, and
  each buffer is an interpretation.
\<close>

datatype 'a fifo_op = Put 'a | Get

text \<open>A history: the final state, what was accepted and what was taken.\<close>

fun run_fifo :: "('s \<Rightarrow> 'a \<Rightarrow> 's \<times> bool) \<Rightarrow> ('s \<Rightarrow> 's \<times> 'a option) \<Rightarrow> 's \<Rightarrow> 'a fifo_op list \<Rightarrow> 's \<times> 'a list \<times> 'a list" where
  "run_fifo put get s [] = (s, [], [])"
| "run_fifo put get s (Put x # ops) =
     (let (s1, b) = put s x; (s2, acc, tak) = run_fifo put get s1 ops
      in (s2, if b then x # acc else acc, tak))"
| "run_fifo put get s (Get # ops) =
     (let (s1, r) = get s; (s2, acc, tak) = run_fifo put get s1 ops
      in (s2, acc, case r of None \<Rightarrow> tak | Some x \<Rightarrow> x # tak))"

locale fifo =
  fixes contents :: "'s \<Rightarrow> 'a list"
    and put :: "'s \<Rightarrow> 'a \<Rightarrow> 's \<times> bool"
    and get :: "'s \<Rightarrow> 's \<times> 'a option"
    and ok :: "'s \<Rightarrow> bool"
  assumes put_law: "ok s \<Longrightarrow> put s x = (s', b) \<Longrightarrow> ok s' \<and> contents s' = (if b then contents s @ [x] else contents s)"
    and get_law: "ok s \<Longrightarrow> get s = (s', r) \<Longrightarrow> ok s' \<and> contents s = (case r of None \<Rightarrow> [] | Some x \<Rightarrow> [x]) @ contents s'"
begin

lemma history:
  "ok s \<Longrightarrow> run_fifo put get s ops = (s', acc, tak) \<Longrightarrow> ok s' \<and> contents s @ acc = tak @ contents s'"
proof (induction ops arbitrary: s acc tak)
  case Nil
  then show ?case by simp
next
  case (Cons op ops)
  show ?case
  proof (cases op)
    case (Put x)
    obtain s1 b where p: "put s x = (s1, b)" by (metis surj_pair)
    obtain s2 acc' tak' where r: "run_fifo put get s1 ops = (s2, acc', tak')" by (metis prod_cases3)
    have eq: "s' = s2" "acc = (if b then x # acc' else acc')" "tak = tak'" using Cons.prems(2) Put p r by auto
    have one: "ok s1" "contents s1 = (if b then contents s @ [x] else contents s)"
      using put_law [OF Cons.prems(1) p] by simp_all
    have "ok s2 \<and> contents s1 @ acc' = tak' @ contents s2"
      using Cons.IH [OF one(1)] r eq(1) by simp
    with one(2) eq show ?thesis by (auto split: if_splits)
  next
    case Get
    obtain s1 r where g: "get s = (s1, r)" by (metis surj_pair)
    obtain s2 acc' tak' where rest: "run_fifo put get s1 ops = (s2, acc', tak')" by (metis prod_cases3)
    have eq: "s' = s2" "acc = acc'" "tak = (case r of None \<Rightarrow> tak' | Some x \<Rightarrow> x # tak')"
      using Cons.prems(2) Get g rest by auto
    have one: "ok s1" "contents s = (case r of None \<Rightarrow> [] | Some x \<Rightarrow> [x]) @ contents s1"
      using get_law [OF Cons.prems(1) g] by simp_all
    have "ok s2 \<and> contents s1 @ acc' = tak' @ contents s2"
      using Cons.IH [OF one(1)] rest eq(1) by simp
    with one(2) eq show ?thesis by (auto split: option.splits)
  qed
qed

end

end
