(* ===== verification/Message_Queue.thy ===== *)
theory Message_Queue
  imports Condition_Variable Fifo_Interface
begin

text \<open>
  Bounded message queues (\<^verbatim>\<open>kernel/message_queue.c\<close>) on a mutex and two condition variables. The
  linked list from \<open>first\<close> to \<open>last\<close> is the list \<open>q_msgs\<close>; every message is a block of the kernel
  heap. A call that cannot go on is \<open>Blocked\<close>, with the state it leaves behind. The sizes of the
  structures depend on headers that are not in the repository and are arguments. Shown here: the
  queue is a FIFO for every history of non-blocking sends and receives with a large enough
  buffer; a smaller buffer loses the message, and closing loses what is queued.
\<close>

section \<open>State\<close>

definition MAX_MESSAGE_SIZE :: nat where "MAX_MESSAGE_SIZE = 1024"
definition MAX_MESSAGES :: nat where "MAX_MESSAGES = 64"
definition sizeof_message :: u32 where "sizeof_message = 1032"

record message =
  msg_addr :: ptr
  msg_data :: "u8 list"

record message_queue =
  q_msgs :: "message list"
  q_count :: nat
  max_messages :: nat
  max_size :: nat
  q_lock :: mutex
  not_full :: condition
  not_empty :: condition
  q_closed :: bool

datatype 'r outcome = Done 'r | Blocked

type_synonym 'e mq_state = "message_queue \<times> heap \<times> 'e"

section \<open>Operations\<close>

definition msgqueue_create :: "u32 \<Rightarrow> message_queue \<Rightarrow> nat \<Rightarrow> nat \<Rightarrow> heap \<Rightarrow> heap \<times> (message_queue \<times> ptr) option" where
  "msgqueue_create sizeof_queue raw mm ms h =
     (if mm = 0 \<or> ms = 0 \<or> mm > MAX_MESSAGES \<or> ms > MAX_MESSAGE_SIZE then (h, None)
      else let (h1, p) = kmalloc h sizeof_queue in
        if p = NULL then (h1, None)
        else (h1, Some (\<lparr>q_msgs = [], q_count = 0, max_messages = mm, max_size = ms,
                q_lock = mutex_init (q_lock raw), not_full = condition_init (not_full raw),
                not_empty = condition_init (not_empty raw), q_closed = False\<rparr>, p)))"

definition mq_unlock :: "'e os \<Rightarrow> message_queue \<Rightarrow> 'e \<Rightarrow> message_queue \<times> 'e" where
  "mq_unlock os q e = (let (m, e') = mutex_unlock os (q_lock q) e in (q\<lparr>q_lock := m\<rparr>, e'))"

text \<open>Taking the queue's mutex and going on with \<open>body\<close>, or waiting for it.\<close>

definition with_lock :: "'e os \<Rightarrow> (message_queue \<Rightarrow> heap \<Rightarrow> 'e \<Rightarrow> fault + ('e mq_state \<times> 'r outcome)) \<Rightarrow>
    message_queue \<Rightarrow> heap \<Rightarrow> 'e \<Rightarrow> fault + ('e mq_state \<times> 'r outcome)" where
  "with_lock os body q h e =
     (case mutex_lock os (q_lock q) h e of
        Inl f \<Rightarrow> Inl f
      | Inr ((m, h1, e1), Waiting w) \<Rightarrow> Inr ((q\<lparr>q_lock := m\<rparr>, h1, e1), Blocked)
      | Inr ((m, h1, e1), Returned) \<Rightarrow> body (q\<lparr>q_lock := m\<rparr>) h1 e1)"

text \<open>The part of a send after the queue is known to have room: allocate, copy, link, signal.\<close>

definition mq_append :: "'e os \<Rightarrow> u8 list \<Rightarrow> message_queue \<Rightarrow> heap \<Rightarrow> 'e \<Rightarrow> fault + ('e mq_state \<times> bool outcome)" where
  "mq_append os data q h e =
     (let (h1, p) = kmalloc h sizeof_message in
      if p = NULL then let (q1, e1) = mq_unlock os q e in Inr ((q1, h1, e1), Done False)
      else let q1 = q\<lparr>q_msgs := q_msgs q @ [\<lparr>msg_addr = p, msg_data = data\<rparr>], q_count := q_count q + 1\<rparr> in
        case condition_signal os (not_empty q1) h1 e of
          Inl f \<Rightarrow> Inl f
        | Inr (c, h2, e2) \<Rightarrow>
            let (q2, e3) = mq_unlock os (q1\<lparr>not_empty := c\<rparr>) e2 in Inr ((q2, h2, e3), Done True))"

text \<open>
  The waiting loop of a send. \<open>condition_wait\<close> returns at once when it has no memory for a waiter;
  nothing changes then and the loop spins.
\<close>

definition send_locked :: "'e os \<Rightarrow> u8 list \<Rightarrow> message_queue \<Rightarrow> heap \<Rightarrow> 'e \<Rightarrow> fault + ('e mq_state \<times> bool outcome)" where
  "send_locked os data q h e =
     (if q_count q \<ge> max_messages q \<and> \<not> q_closed q then
        (case condition_wait os (not_full q) (q_lock q) h e of
           Inl f \<Rightarrow> Inl f
         | Inr (_, Returned) \<Rightarrow> Inl Spins_forever
         | Inr ((c, m, h1, e1), Waiting w) \<Rightarrow> Inr ((q\<lparr>not_full := c, q_lock := m\<rparr>, h1, e1), Blocked))
      else if q_closed q then let (q1, e1) = mq_unlock os q e in Inr ((q1, h, e1), Done False)
      else mq_append os data q h e)"

definition msgqueue_send :: "'e os \<Rightarrow> message_queue \<Rightarrow> u8 list \<Rightarrow> heap \<Rightarrow> 'e \<Rightarrow> fault + ('e mq_state \<times> bool outcome)" where
  "msgqueue_send os q data h e =
     (if data = [] \<or> length data > max_size q \<or> q_closed q then Inr ((q, h, e), Done False)
      else with_lock os (send_locked os data) q h e)"

definition msgqueue_try_send :: "'e os \<Rightarrow> message_queue \<Rightarrow> u8 list \<Rightarrow> heap \<Rightarrow> 'e \<Rightarrow> fault + ('e mq_state \<times> bool outcome)" where
  "msgqueue_try_send os q data h e =
     (if data = [] \<or> length data > max_size q \<or> q_closed q then Inr ((q, h, e), Done False)
      else with_lock os (\<lambda>q h e.
          if q_count q \<ge> max_messages q then let (q1, e1) = mq_unlock os q e in Inr ((q1, h, e1), Done False)
          else mq_append os data q h e) q h e)"

text \<open>
  Taking the first message: the flag, what is copied into the buffer, and the new \<open>*size\<close>. The
  caller's buffer has \<open>n\<close> bytes.
\<close>

definition mq_take :: "'e os \<Rightarrow> nat \<Rightarrow> message_queue \<Rightarrow> heap \<Rightarrow> 'e \<Rightarrow> fault + ('e mq_state \<times> (bool \<times> u8 list \<times> nat) outcome)" where
  "mq_take os n q h e =
     (case q_msgs q of
        [] \<Rightarrow> Inl Null_deref
      | msg # rest \<Rightarrow>
          let q1 = q\<lparr>q_msgs := rest, q_count := q_count q - 1\<rparr>; sz = length (msg_data msg) in
          if n < sz then let (q2, e1) = mq_unlock os q1 e in Inr ((q2, kfree h (msg_addr msg), e1), Done (False, [], sz))
          else case condition_signal os (not_full q1) (kfree h (msg_addr msg)) e of
            Inl f \<Rightarrow> Inl f
          | Inr (c, h2, e2) \<Rightarrow>
              let (q2, e3) = mq_unlock os (q1\<lparr>not_full := c\<rparr>) e2 in Inr ((q2, h2, e3), Done (True, msg_data msg, sz)))"

definition receive_locked :: "'e os \<Rightarrow> nat \<Rightarrow> message_queue \<Rightarrow> heap \<Rightarrow> 'e \<Rightarrow> fault + ('e mq_state \<times> (bool \<times> u8 list \<times> nat) outcome)" where
  "receive_locked os n q h e =
     (if q_count q = 0 \<and> \<not> q_closed q then
        (case condition_wait os (not_empty q) (q_lock q) h e of
           Inl f \<Rightarrow> Inl f
         | Inr (_, Returned) \<Rightarrow> Inl Spins_forever
         | Inr ((c, m, h1, e1), Waiting w) \<Rightarrow> Inr ((q\<lparr>not_empty := c, q_lock := m\<rparr>, h1, e1), Blocked))
      else if q_count q = 0 \<and> q_closed q then let (q1, e1) = mq_unlock os q e in Inr ((q1, h, e1), Done (False, [], n))
      else mq_take os n q h e)"

definition msgqueue_receive :: "'e os \<Rightarrow> message_queue \<Rightarrow> nat \<Rightarrow> heap \<Rightarrow> 'e \<Rightarrow> fault + ('e mq_state \<times> (bool \<times> u8 list \<times> nat) outcome)" where
  "msgqueue_receive os q n h e =
     (if q_closed q then Inr ((q, h, e), Done (False, [], n))
      else with_lock os (receive_locked os n) q h e)"

definition msgqueue_try_receive :: "'e os \<Rightarrow> message_queue \<Rightarrow> nat \<Rightarrow> heap \<Rightarrow> 'e \<Rightarrow> fault + ('e mq_state \<times> (bool \<times> u8 list \<times> nat) outcome)" where
  "msgqueue_try_receive os q n h e =
     (if q_closed q then Inr ((q, h, e), Done (False, [], n))
      else with_lock os (\<lambda>q h e.
          if q_count q = 0 then let (q1, e1) = mq_unlock os q e in Inr ((q1, h, e1), Done (False, [], n))
          else mq_take os n q h e) q h e)"

definition msgqueue_close :: "'e os \<Rightarrow> message_queue \<Rightarrow> heap \<Rightarrow> 'e \<Rightarrow> fault + ('e mq_state \<times> unit outcome)" where
  "msgqueue_close os q h e =
     with_lock os (\<lambda>q h e.
       let (q1, e1) = mq_unlock os (q\<lparr>q_closed := True\<rparr>) e in
       case condition_broadcast os (not_full q1) h e1 of
         Inl f \<Rightarrow> Inl f
       | Inr (c, h2, e2) \<Rightarrow>
           case condition_broadcast os (not_empty q1) h2 e2 of
             Inl f \<Rightarrow> Inl f
           | Inr (d, h3, e3) \<Rightarrow> Inr ((q1\<lparr>not_full := c, not_empty := d\<rparr>, h3, e3), Done ())) q h e"

text \<open>The part of \<open>msgqueue_destroy\<close> after the close; \<open>p\<close> is the address of the queue.\<close>

definition msgqueue_destroy :: "'e os \<Rightarrow> ptr \<Rightarrow> message_queue \<Rightarrow> heap \<Rightarrow> 'e \<Rightarrow> fault + ('e mq_state \<times> unit outcome)" where
  "msgqueue_destroy os p q h e =
     (case msgqueue_close os q h e of
        Inl f \<Rightarrow> Inl f
      | Inr (s, Blocked) \<Rightarrow> Inr (s, Blocked)
      | Inr ((q1, h1, e1), Done _) \<Rightarrow>
          with_lock os (\<lambda>q h e.
            let h2 = foldl kfree h (map msg_addr (q_msgs q)); (q2, e2) = mq_unlock os (q\<lparr>q_msgs := []\<rparr>) e in
            case condition_destroy os (not_full q2) h2 e2 of
              Inl f \<Rightarrow> Inl f
            | Inr (c, h3, e3) \<Rightarrow>
                case condition_destroy os (not_empty q2) h3 e3 of
                  Inl f \<Rightarrow> Inl f
                | Inr (d, h4, e4) \<Rightarrow> Inr ((q2\<lparr>not_full := c, not_empty := d\<rparr>, kfree h4 p, e4), Done ())) q1 h1 e1)"

definition mq_read :: "'e os \<Rightarrow> (message_queue \<Rightarrow> 'r) \<Rightarrow> message_queue \<Rightarrow> heap \<Rightarrow> 'e \<Rightarrow> fault + ('e mq_state \<times> 'r outcome)" where
  "mq_read os f q h e = with_lock os (\<lambda>q h e. let (q1, e1) = mq_unlock os q e in Inr ((q1, h, e1), Done (f q))) q h e"

definition msgqueue_get_count :: "'e os \<Rightarrow> message_queue \<Rightarrow> heap \<Rightarrow> 'e \<Rightarrow> fault + ('e mq_state \<times> nat outcome)" where
  "msgqueue_get_count os = mq_read os q_count"

definition msgqueue_is_full :: "'e os \<Rightarrow> message_queue \<Rightarrow> heap \<Rightarrow> 'e \<Rightarrow> fault + ('e mq_state \<times> bool outcome)" where
  "msgqueue_is_full os = mq_read os (\<lambda>q. q_count q \<ge> max_messages q)"

definition msgqueue_is_empty :: "'e os \<Rightarrow> message_queue \<Rightarrow> heap \<Rightarrow> 'e \<Rightarrow> fault + ('e mq_state \<times> bool outcome)" where
  "msgqueue_is_empty os = mq_read os (\<lambda>q. q_count q = 0)"

definition msgqueue_is_closed :: "'e os \<Rightarrow> message_queue \<Rightarrow> heap \<Rightarrow> 'e \<Rightarrow> fault + ('e mq_state \<times> bool outcome)" where
  "msgqueue_is_closed os = mq_read os q_closed"

section \<open>The queue between calls\<close>

definition mq_ok :: "message_queue \<Rightarrow> bool" where
  "mq_ok q \<longleftrightarrow> q_count q = length (q_msgs q) \<and> q_count q \<le> max_messages q \<and> m_locked (q_lock q) = 0 \<and>
     cond_free (not_full q) \<and> cond_free (not_empty q) \<and> (\<forall>m \<in> set (q_msgs q). length (msg_data m) \<le> max_size q)"

definition mq_contents :: "message_queue \<Rightarrow> u8 list list" where
  "mq_contents q = map msg_data (q_msgs q)"

text \<open>Taking the free mutex and giving it back, as a frame around the body.\<close>

lemma with_lock_free:
  assumes "m_locked (q_lock q) = 0"
  obtains e1 where "with_lock os body q h e = body (q\<lparr>q_lock := (q_lock q)\<lparr>m_locked := 1, owner := this_process os\<rparr>\<rparr>) h e1"
  using mutex_lock_free [OF assms, of os h e] that by (simp add: with_lock_def)

lemma mq_unlock_held:
  assumes "owner (q_lock q) = this_process os"
  obtains e1 where "mq_unlock os q e = (q\<lparr>q_lock := (q_lock q)\<lparr>owner := NULL, m_locked := 0\<rparr>\<rparr>, e1)"
proof -
  obtain m e1 where u: "mutex_unlock os (q_lock q) e = (m, e1)" by (metis surj_pair)
  then have "m = (q_lock q)\<lparr>owner := NULL, m_locked := 0\<rparr>"
    using mutex_unlock_object [of os "q_lock q" e] assms by simp
  with u that show thesis by (simp add: mq_unlock_def)
qed

lemma try_send_cases:
  assumes "mq_ok q"
  shows "\<exists>q' h' e' b. msgqueue_try_send os q data h e = Inr ((q', h', e'), Done b) \<and> mq_ok q' \<and>
    max_size q' = max_size q \<and> q_closed q' = q_closed q \<and>
    mq_contents q' = (if b then mq_contents q @ [data] else mq_contents q) \<and>
    (b \<longleftrightarrow> data \<noteq> [] \<and> length data \<le> max_size q \<and> \<not> q_closed q \<and> length (mq_contents q) < max_messages q \<and>
       snd (kmalloc h sizeof_message) \<noteq> NULL)"
proof (cases "data = [] \<or> length data > max_size q \<or> q_closed q")
  case True
  with assms show ?thesis by (auto simp: msgqueue_try_send_def)
next
  case False
  let ?q = "q\<lparr>q_lock := (q_lock q)\<lparr>m_locked := 1, owner := this_process os\<rparr>\<rparr>"
  let ?full = "\<lambda>q h e. if q_count q \<ge> max_messages q then let (q1, e1) = mq_unlock os q e in Inr ((q1, h, e1), Done False)
          else mq_append os data q h e"
  obtain e1 where w: "msgqueue_try_send os q data h e = ?full ?q h e1"
    using with_lock_free [of q os ?full h e] assms False by (auto simp: msgqueue_try_send_def mq_ok_def)
  obtain h1 p where k: "kmalloc h sizeof_message = (h1, p)" by (metis surj_pair)
  obtain e2 where u: "mq_unlock os ?q e1 = (?q\<lparr>q_lock := (q_lock ?q)\<lparr>owner := NULL, m_locked := 0\<rparr>\<rparr>, e2)"
    using mq_unlock_held [of ?q os e1] by auto
  show ?thesis
  proof (cases "q_count q \<ge> max_messages q \<or> p = NULL")
    case True
    then show ?thesis
      using w u k assms by (auto simp: mq_append_def mq_ok_def mq_contents_def)
  next
    case False
    let ?q1 = "?q\<lparr>q_msgs := q_msgs ?q @ [\<lparr>msg_addr = p, msg_data = data\<rparr>], q_count := q_count ?q + 1\<rparr>"
    obtain c h2 e3 where s: "condition_signal os (not_empty ?q1) h1 e1 = Inr (c, h2, e3)" "cond_free c"
      using condition_signal_free [of "not_empty ?q1" os h1 e1] assms by (auto simp: mq_ok_def)
    obtain e4 where u1: "mq_unlock os (?q1\<lparr>not_empty := c\<rparr>) e3
        = (?q1\<lparr>not_empty := c, q_lock := (q_lock ?q1)\<lparr>owner := NULL, m_locked := 0\<rparr>\<rparr>, e4)"
      using mq_unlock_held [of "?q1\<lparr>not_empty := c\<rparr>" os e3] by auto
    show ?thesis
      using w s u1 k False \<open>\<not> (data = [] \<or> length data > max_size q \<or> q_closed q)\<close> assms
      by (auto simp: mq_append_def mq_ok_def mq_contents_def)
  qed
qed

lemma try_receive_cases:
  assumes "mq_ok q"
  shows "\<exists>q' h' e' b d m. msgqueue_try_receive os q n h e = Inr ((q', h', e'), Done (b, d, m)) \<and> mq_ok q' \<and>
    max_size q' = max_size q \<and> q_closed q' = q_closed q \<and>
    (if q_closed q \<or> mq_contents q = [] then \<not> b \<and> q_msgs q' = q_msgs q \<and> m = n
     else mq_contents q' = tl (mq_contents q) \<and> m = length (hd (mq_contents q)) \<and>
       (if length (hd (mq_contents q)) \<le> n then b \<and> d = hd (mq_contents q) else \<not> b \<and> d = []))"
proof (cases "q_closed q")
  case True
  with assms show ?thesis by (simp add: msgqueue_try_receive_def) blast
next
  case opened: False
  let ?q = "q\<lparr>q_lock := (q_lock q)\<lparr>m_locked := 1, owner := this_process os\<rparr>\<rparr>"
  let ?body = "\<lambda>q h e. if q_count q = 0 then let (q1, e1) = mq_unlock os q e in Inr ((q1, h, e1), Done (False, [], n))
          else mq_take os n q h e"
  obtain e1 where w: "msgqueue_try_receive os q n h e = ?body ?q h e1"
    using with_lock_free [of q os ?body h e] assms opened by (auto simp: msgqueue_try_receive_def mq_ok_def)
  show ?thesis
  proof (cases "q_msgs q")
    case Nil
    obtain e2 where "mq_unlock os ?q e1 = (?q\<lparr>q_lock := (q_lock ?q)\<lparr>owner := NULL, m_locked := 0\<rparr>\<rparr>, e2)"
      using mq_unlock_held [of ?q os e1] by auto
    with w Nil opened assms show ?thesis by (auto simp: mq_ok_def mq_contents_def)
  next
    case (Cons msg rest)
    let ?q1 = "?q\<lparr>q_msgs := rest, q_count := q_count ?q - 1\<rparr>"
    obtain e2 where u: "mq_unlock os ?q1 e1 = (?q1\<lparr>q_lock := (q_lock ?q1)\<lparr>owner := NULL, m_locked := 0\<rparr>\<rparr>, e2)"
      using mq_unlock_held [of ?q1 os e1] by auto
    obtain c h2 e3 where s: "condition_signal os (not_full ?q1) (kfree h (msg_addr msg)) e1 = Inr (c, h2, e3)" "cond_free c"
      using condition_signal_free [of "not_full ?q1" os "kfree h (msg_addr msg)" e1] assms by (auto simp: mq_ok_def)
    obtain e4 where u1: "mq_unlock os (?q1\<lparr>not_full := c\<rparr>) e3
        = (?q1\<lparr>not_full := c, q_lock := (q_lock ?q1)\<lparr>owner := NULL, m_locked := 0\<rparr>\<rparr>, e4)"
      using mq_unlock_held [of "?q1\<lparr>not_full := c\<rparr>" os e3] by auto
    show ?thesis
      using w s u u1 Cons opened assms by (auto simp: mq_take_def mq_ok_def mq_contents_def Let_def)
  qed
qed

section \<open>The queue as a FIFO\<close>

text \<open>The two non-blocking calls, on states, with a receive buffer of the queue's message size.\<close>

definition mq_put :: "'e os \<Rightarrow> 'e mq_state \<Rightarrow> u8 list \<Rightarrow> 'e mq_state \<times> bool" where
  "mq_put os s data =
     (case s of (q, h, e) \<Rightarrow> case msgqueue_try_send os q data h e of
        Inr (s', Done b) \<Rightarrow> (s', b) | _ \<Rightarrow> (s, False))"

definition mq_get :: "'e os \<Rightarrow> 'e mq_state \<Rightarrow> 'e mq_state \<times> u8 list option" where
  "mq_get os s =
     (case s of (q, h, e) \<Rightarrow> case msgqueue_try_receive os q (max_size q) h e of
        Inr (s', Done (b, d, m)) \<Rightarrow> (s', if b then Some d else None) | _ \<Rightarrow> (s, None))"

lemma mq_put_law:
  assumes "mq_ok (fst s)" "mq_put os s x = (s', b)"
  shows "mq_ok (fst s') \<and> mq_contents (fst s') = (if b then mq_contents (fst s) @ [x] else mq_contents (fst s))"
proof -
  obtain q h e where s: "s = (q, h, e)" by (metis prod_cases3)
  show ?thesis using try_send_cases [of q os x h e] assms s by (auto simp: mq_put_def)
qed

lemma mq_get_law:
  assumes "mq_ok (fst s)" "mq_get os s = (s', r)"
  shows "mq_ok (fst s') \<and> mq_contents (fst s) = (case r of None \<Rightarrow> [] | Some x \<Rightarrow> [x]) @ mq_contents (fst s')"
proof -
  obtain q h e where s: "s = (q, h, e)" by (metis prod_cases3)
  obtain q' h' e' b d m where r: "msgqueue_try_receive os q (max_size q) h e = Inr ((q', h', e'), Done (b, d, m))" "mq_ok q'"
    "if q_closed q \<or> mq_contents q = [] then \<not> b \<and> q_msgs q' = q_msgs q \<and> m = max_size q
     else mq_contents q' = tl (mq_contents q) \<and> m = length (hd (mq_contents q)) \<and>
       (if length (hd (mq_contents q)) \<le> max_size q then b \<and> d = hd (mq_contents q) else \<not> b \<and> d = [])"
    using try_receive_cases [of q os "max_size q" h e] assms(1) s by auto
  have small: "mq_contents q \<noteq> [] \<Longrightarrow> length (hd (mq_contents q)) \<le> max_size q"
    using assms(1) s by (cases "q_msgs q") (auto simp: mq_ok_def mq_contents_def)
  have eq: "s' = (q', h', e')" "r = (if b then Some d else None)" using assms(2) s r(1) by (auto simp: mq_get_def)
  show ?thesis
  proof (cases "q_closed q \<or> mq_contents q = []")
    case True
    then show ?thesis using r eq s by (simp add: mq_contents_def)
  next
    case False
    then show ?thesis using r eq s small by simp
  qed
qed

interpretation mq: fifo "\<lambda>s. mq_contents (fst s)" "mq_put os" "mq_get os" "\<lambda>s. mq_ok (fst s)"
  using mq_put_law mq_get_law by unfold_locales blast+


text \<open>
  A receive with a buffer smaller than the first message reports the size needed but has
  already removed the message: it is lost, and no sender is told about the free slot.
\<close>

theorem msgqueue_small_buffer_loses_message:
  assumes "mq_ok q" "\<not> q_closed q" "mq_contents q = d # ds" "n < length d"
  shows "\<exists>q' h' e'. msgqueue_try_receive os q n h e = Inr ((q', h', e'), Done (False, [], length d)) \<and>
    mq_contents q' = ds \<and> mq_ok q'"
  using try_receive_cases [OF assms(1), of os n h e] assms(2-4) by auto

text \<open>
  After \<open>msgqueue_close\<close> nothing queued can be received any more, although the code after the
  entry check is written to drain a closed queue: both receives fail and keep the messages.
\<close>

theorem msgqueue_closed_keeps_messages:
  assumes "mq_ok q" "msgqueue_close os q h e = Inr ((q', h', e'), r)"
  shows "r = Done () \<and> mq_contents q' = mq_contents q \<and>
    msgqueue_receive os q' n h' e' = Inr ((q', h', e'), Done (False, [], n)) \<and>
    msgqueue_try_receive os q' n h' e' = Inr ((q', h', e'), Done (False, [], n))"
proof -
  let ?q = "q\<lparr>q_lock := (q_lock q)\<lparr>m_locked := 1, owner := this_process os\<rparr>, q_closed := True\<rparr>"
  let ?q1 = "?q\<lparr>q_lock := (q_lock ?q)\<lparr>owner := NULL, m_locked := 0\<rparr>\<rparr>"
  let ?body = "\<lambda>q h e. let (q1, e1) = mq_unlock os (q\<lparr>q_closed := True\<rparr>) e in
       case condition_broadcast os (not_full q1) h e1 of
         Inl f \<Rightarrow> Inl f
       | Inr (c, h2, e2) \<Rightarrow>
           case condition_broadcast os (not_empty q1) h2 e2 of
             Inl f \<Rightarrow> Inl f
           | Inr (d, h3, e3) \<Rightarrow> Inr ((q1\<lparr>not_full := c, not_empty := d\<rparr>, h3, e3), Done ())"
  obtain e1 where w: "msgqueue_close os q h e = ?body (q\<lparr>q_lock := (q_lock q)\<lparr>m_locked := 1, owner := this_process os\<rparr>\<rparr>) h e1"
    using with_lock_free [of q os ?body h e] assms(1) by (auto simp: msgqueue_close_def mq_ok_def)
  obtain e2 where u: "mq_unlock os ?q e1 = (?q1, e2)"
    using mq_unlock_held [of ?q os e1] by auto
  obtain c h2 e3 where b1: "condition_broadcast os (not_full ?q1) h e2 = Inr (c, h2, e3)"
    using condition_broadcast_free [of "not_full ?q1" os h e2] assms(1) by (auto simp: mq_ok_def)
  obtain d h3 e4 where b2: "condition_broadcast os (not_empty ?q1) h2 e3 = Inr (d, h3, e4)"
    using condition_broadcast_free [of "not_empty ?q1" os h2 e3] assms(1) by (auto simp: mq_ok_def)
  have "q' = ?q1\<lparr>not_full := c, not_empty := d\<rparr>" "r = Done ()"
    using assms(2) w u b1 b2 by auto
  then show ?thesis by (simp add: msgqueue_receive_def msgqueue_try_receive_def mq_contents_def)
qed

definition demo_queue :: message_queue where
  "demo_queue = \<lparr>q_msgs = [\<lparr>msg_addr = 0xD0000010, msg_data = [1, 2, 3]\<rparr>], q_count = 1, max_messages = 2, max_size = 8,
     q_lock = \<lparr>m_locked = 0, owner = NULL, m_waiters = []\<rparr>,
     not_full = \<lparr>c_waiters = [], c_lock = \<lparr>locked = 0, lk_cpu = -1, interrupt_flags = 0\<rparr>\<rparr>,
     not_empty = \<lparr>c_waiters = [], c_lock = \<lparr>locked = 0, lk_cpu = -1, interrupt_flags = 0\<rparr>\<rparr>, q_closed = False\<rparr>"

lemma demo_queue_ok: "mq_ok demo_queue" "\<not> q_closed demo_queue" "mq_contents demo_queue = [[1, 2, 3]]"
  by (simp_all add: demo_queue_def mq_ok_def cond_free_def mq_contents_def)


theorem msgqueue_small_buffer_loses_message_witness:
  "\<exists>q' h' e'. msgqueue_try_receive demo_os demo_queue 2 booted_heap 0 = Inr ((q', h', e'), Done (False, [], 3)) \<and>
     mq_contents q' = []"
  using msgqueue_small_buffer_loses_message [OF demo_queue_ok(1,2), of "[1, 2, 3]" "[]" 2 demo_os booted_heap 0]
  by (auto simp: demo_queue_ok)

theorem msgqueue_closed_keeps_messages_witness:
  "\<exists>q' h' e'. msgqueue_close demo_os demo_queue booted_heap 0 = Inr ((q', h', e'), Done ()) \<and>
     msgqueue_try_receive demo_os q' 100 h' e' = Inr ((q', h', e'), Done (False, [], 100)) \<and> mq_contents q' = [[1, 2, 3]]"
proof -
  have "\<exists>x. msgqueue_close demo_os demo_queue booted_heap 0 = Inr x"
    by (simp add: msgqueue_close_def with_lock_def demo_queue_def mutex_lock_def mutex_try_lock_word_def demo_os_def
        mq_unlock_def mutex_unlock_def condition_broadcast_def spinlock_acquire_def cond_unlock_def spinlock_release_def)
  then obtain s r where "msgqueue_close demo_os demo_queue booted_heap 0 = Inr (s, r)" by auto
  moreover obtain q' h' e' where "s = (q', h', e')" by (metis prod_cases3)
  ultimately have c: "msgqueue_close demo_os demo_queue booted_heap 0 = Inr ((q', h', e'), r)" by simp
  show ?thesis
    using msgqueue_closed_keeps_messages [OF demo_queue_ok(1) c, of 100] c demo_queue_ok(3) by auto
qed

end
