(* ===== verification/Pipe.thy ===== *)
theory Pipe
  imports Semaphore Fifo_Interface
begin

text \<open>
  Pipes (\<^verbatim>\<open>kernel/pipe.c\<close>): a ring of \<open>PIPE_BUFFER_SIZE\<close> bytes, two semaphores and a mutex. The
  transfer loops need not end, so they are options; a call that has to wait is \<open>Io_blocked\<close> with
  the progress made. \<^verbatim>\<open>process_alloc_fd\<close> and \<^verbatim>\<open>process_free_fd\<close> are not defined in the repository
  and are arguments of \<open>pipe_create\<close>. Shown here: every byte that a write reports as written is
  read once and in order, whatever the chunking and blocking; but the semaphores count chunks and
  not bytes, so a reader blocks although data is there.
\<close>

section \<open>State\<close>

definition PIPE_BUFFER_SIZE :: nat where "PIPE_BUFFER_SIZE = 4096"

record pipe =
  p_buffer :: "u8 list"
  read_pos :: nat
  write_pos :: nat
  p_count :: nat
  read_sem :: semaphore
  write_sem :: semaphore
  p_lock :: mutex
  p_closed :: bool

type_synonym 'e pipe_state = "pipe \<times> heap \<times> 'e"

datatype fd_type = FD_TYPE_PIPE_READ | FD_TYPE_PIPE_WRITE

text \<open>The return value of the C function and what was transferred, or the progress before waiting.\<close>

datatype io_outcome = Io_done int "u8 list" | Io_blocked "u8 list"

section \<open>Operations\<close>

definition pipe_create :: "(ptr \<Rightarrow> fd_type \<Rightarrow> 'e \<Rightarrow> 'e \<times> int) \<Rightarrow> (int \<Rightarrow> 'e \<Rightarrow> 'e) \<Rightarrow> u32 \<Rightarrow> pipe \<Rightarrow> heap \<Rightarrow> 'e \<Rightarrow>
    (heap \<times> 'e) \<times> (pipe \<times> int \<times> int) option" where
  "pipe_create process_alloc_fd process_free_fd sizeof_pipe raw h e =
     (let (h1, p) = kmalloc h sizeof_pipe in
      if p = NULL then ((h1, e), None)
      else let (h2, b) = kmalloc h1 (of_nat PIPE_BUFFER_SIZE) in
        if b = NULL then ((kfree h2 p, e), None)
        else let pp = raw\<lparr>p_buffer := replicate PIPE_BUFFER_SIZE 0, read_pos := 0, write_pos := 0, p_count := 0, p_closed := False,
                   read_sem := semaphore_init (read_sem raw) 0,
                   write_sem := semaphore_init (write_sem raw) (int PIPE_BUFFER_SIZE), p_lock := mutex_init (p_lock raw)\<rparr>;
                 (e1, rfd) = process_alloc_fd p FD_TYPE_PIPE_READ e in
          if rfd < 0 then ((kfree (kfree h2 b) p, e1), None)
          else let (e2, wfd) = process_alloc_fd p FD_TYPE_PIPE_WRITE e1 in
            if wfd < 0 then ((kfree (kfree h2 b) p, process_free_fd rfd e2), None)
            else ((h2, e2), Some (pp, rfd, wfd)))"

fun copy_out :: "nat \<Rightarrow> pipe \<Rightarrow> u8 list \<times> pipe" where
  "copy_out 0 p = ([], p)"
| "copy_out (Suc k) p =
     (let c = p_buffer p ! read_pos p;
          (cs, p') = copy_out k (p\<lparr>read_pos := (read_pos p + 1) mod PIPE_BUFFER_SIZE, p_count := p_count p - 1\<rparr>)
      in (c # cs, p'))"

fun copy_in :: "u8 list \<Rightarrow> pipe \<Rightarrow> pipe" where
  "copy_in [] p = p"
| "copy_in (c # cs) p =
     copy_in cs (p\<lparr>p_buffer := (p_buffer p)[write_pos p := c], write_pos := (write_pos p + 1) mod PIPE_BUFFER_SIZE,
       p_count := p_count p + 1\<rparr>)"

text \<open>One turn of the read loop after the semaphore: the bytes taken, or a wait for the mutex.\<close>

definition read_turn :: "'e os \<Rightarrow> nat \<Rightarrow> pipe \<Rightarrow> heap \<Rightarrow> 'e \<Rightarrow> fault + ('e pipe_state \<times> u8 list option)" where
  "read_turn os want p h e =
     (case mutex_lock os (p_lock p) h e of
        Inl f \<Rightarrow> Inl f
      | Inr ((m, h1, e1), Waiting w) \<Rightarrow> Inr ((p\<lparr>p_lock := m\<rparr>, h1, e1), None)
      | Inr ((m, h1, e1), Returned) \<Rightarrow>
          let p1 = p\<lparr>p_lock := m\<rparr>; available = p_count p1; to_read = (if want > available then available else want);
              (bs, p2) = copy_out to_read p1; (m2, e2) = mutex_unlock os (p_lock p2) e1 in
          case semaphore_signal os (write_sem p2) e2 of
            Inl f \<Rightarrow> Inl f
          | Inr (ws, e3) \<Rightarrow> Inr ((p2\<lparr>p_lock := m2, write_sem := ws\<rparr>, h1, e3), Some bs))"

partial_function (option) read_loop :: "'e os \<Rightarrow> nat \<Rightarrow> u8 list \<Rightarrow> 'e pipe_state \<Rightarrow> (fault + ('e pipe_state \<times> io_outcome)) option" where
  "read_loop os n got s =
     (if \<not> length got < n then Some (Inr (s, Io_done (int (length got)) got))
      else case s of (p, h, e) \<Rightarrow>
        case semaphore_wait os (read_sem p) h e of
          Inl f \<Rightarrow> Some (Inl f)
        | Inr ((rs, h1, e1), Waiting w) \<Rightarrow> Some (Inr ((p\<lparr>read_sem := rs\<rparr>, h1, e1), Io_blocked got))
        | Inr ((rs, h1, e1), Returned) \<Rightarrow>
            let p1 = p\<lparr>read_sem := rs\<rparr> in
            if p_closed p1 then Some (Inr ((p1, h1, e1), Io_done (if length got > 0 then int (length got) else -1) got))
            else case read_turn os (n - length got) p1 h1 e1 of
                Inl f \<Rightarrow> Some (Inl f)
              | Inr (s2, None) \<Rightarrow> Some (Inr (s2, Io_blocked got))
              | Inr (s2, Some bs) \<Rightarrow>
                  if length (got @ bs) = n \<or> p_closed (fst s2) then Some (Inr (s2, Io_done (int (length (got @ bs))) (got @ bs)))
                  else read_loop os n (got @ bs) s2)"

definition pipe_read :: "'e os \<Rightarrow> nat \<Rightarrow> 'e pipe_state \<Rightarrow> (fault + ('e pipe_state \<times> io_outcome)) option" where
  "pipe_read os n s =
     (if n = 0 \<or> p_closed (fst s) then Some (Inr (s, Io_done (-1) [])) else read_loop os n [] s)"

definition write_turn :: "'e os \<Rightarrow> u8 list \<Rightarrow> pipe \<Rightarrow> heap \<Rightarrow> 'e \<Rightarrow> fault + ('e pipe_state \<times> u8 list option)" where
  "write_turn os rest p h e =
     (case mutex_lock os (p_lock p) h e of
        Inl f \<Rightarrow> Inl f
      | Inr ((m, h1, e1), Waiting w) \<Rightarrow> Inr ((p\<lparr>p_lock := m\<rparr>, h1, e1), None)
      | Inr ((m, h1, e1), Returned) \<Rightarrow>
          let p1 = p\<lparr>p_lock := m\<rparr>; available = PIPE_BUFFER_SIZE - p_count p1;
              to_write = (if length rest > available then available else length rest);
              p2 = copy_in (take to_write rest) p1; (m2, e2) = mutex_unlock os (p_lock p2) e1 in
          case semaphore_signal os (read_sem p2) e2 of
            Inl f \<Rightarrow> Inl f
          | Inr (rs, e3) \<Rightarrow> Inr ((p2\<lparr>p_lock := m2, read_sem := rs\<rparr>, h1, e3), Some (take to_write rest)))"

text \<open>\<open>don\<close> is the part of \<open>data\<close> already written.\<close>

partial_function (option) write_loop :: "'e os \<Rightarrow> u8 list \<Rightarrow> u8 list \<Rightarrow> 'e pipe_state \<Rightarrow> (fault + ('e pipe_state \<times> io_outcome)) option" where
  "write_loop os data don s =
     (if \<not> length don < length data then Some (Inr (s, Io_done (int (length don)) don))
      else case s of (p, h, e) \<Rightarrow>
        case semaphore_wait os (write_sem p) h e of
          Inl f \<Rightarrow> Some (Inl f)
        | Inr ((ws, h1, e1), Waiting w) \<Rightarrow> Some (Inr ((p\<lparr>write_sem := ws\<rparr>, h1, e1), Io_blocked don))
        | Inr ((ws, h1, e1), Returned) \<Rightarrow>
            let p1 = p\<lparr>write_sem := ws\<rparr> in
            if p_closed p1 then Some (Inr ((p1, h1, e1), Io_done (-1) don))
            else case write_turn os (drop (length don) data) p1 h1 e1 of
                Inl f \<Rightarrow> Some (Inl f)
              | Inr (s2, None) \<Rightarrow> Some (Inr (s2, Io_blocked don))
              | Inr (s2, Some bs) \<Rightarrow>
                  if length (don @ bs) = length data \<or> p_closed (fst s2) then Some (Inr (s2, Io_done (int (length (don @ bs))) (don @ bs)))
                  else write_loop os data (don @ bs) s2)"

definition pipe_write :: "'e os \<Rightarrow> u8 list \<Rightarrow> 'e pipe_state \<Rightarrow> (fault + ('e pipe_state \<times> io_outcome)) option" where
  "pipe_write os data s =
     (if data = [] \<or> p_closed (fst s) then Some (Inr (s, Io_done (-1) [])) else write_loop os data [] s)"

text \<open>The result says whether the mutex was available.\<close>

definition pipe_close :: "'e os \<Rightarrow> 'e pipe_state \<Rightarrow> fault + ('e pipe_state \<times> bool)" where
  "pipe_close os s =
     (case s of (p, h, e) \<Rightarrow>
        case mutex_lock os (p_lock p) h e of
          Inl f \<Rightarrow> Inl f
        | Inr ((m, h1, e1), Waiting w) \<Rightarrow> Inr ((p\<lparr>p_lock := m\<rparr>, h1, e1), False)
        | Inr ((m, h1, e1), Returned) \<Rightarrow>
            let (m2, e2) = mutex_unlock os m e1; p1 = p\<lparr>p_lock := m2, p_closed := True\<rparr> in
            case semaphore_signal os (read_sem p1) e2 of
              Inl f \<Rightarrow> Inl f
            | Inr (rs, e3) \<Rightarrow>
                case semaphore_signal os (write_sem p1) e3 of
                  Inl f \<Rightarrow> Inl f
                | Inr (ws, e4) \<Rightarrow> Inr ((p1\<lparr>read_sem := rs, write_sem := ws\<rparr>, h1, e4), True))"

text \<open>\<open>pp\<close> and \<open>bp\<close> are the addresses of the pipe and of its buffer.\<close>

definition pipe_destroy :: "'e os \<Rightarrow> ptr \<Rightarrow> ptr \<Rightarrow> 'e pipe_state \<Rightarrow> fault + ('e pipe_state \<times> bool)" where
  "pipe_destroy os pp bp s =
     (case pipe_close os s of
        Inl f \<Rightarrow> Inl f
      | Inr (s1, False) \<Rightarrow> Inr (s1, False)
      | Inr ((p, h, e), True) \<Rightarrow>
          case semaphore_destroy os (read_sem p) h e of
            Inl f \<Rightarrow> Inl f
          | Inr (rs, h1, e1) \<Rightarrow>
              case semaphore_destroy os (write_sem p) h1 e1 of
                Inl f \<Rightarrow> Inl f
              | Inr (ws, h2, e2) \<Rightarrow>
                  let h3 = (if bp \<noteq> NULL then kfree h2 bp else h2)
                  in Inr ((p\<lparr>read_sem := rs, write_sem := ws\<rparr>, kfree h3 pp, e2), True))"

definition pipe_is_closed :: "pipe \<Rightarrow> bool" where
  "pipe_is_closed p = p_closed p"

definition pipe_get_available :: "'e os \<Rightarrow> 'e pipe_state \<Rightarrow> fault + ('e pipe_state \<times> nat option)" where
  "pipe_get_available os s =
     (case s of (p, h, e) \<Rightarrow>
        case mutex_lock os (p_lock p) h e of
          Inl f \<Rightarrow> Inl f
        | Inr ((m, h1, e1), Waiting w) \<Rightarrow> Inr ((p\<lparr>p_lock := m\<rparr>, h1, e1), None)
        | Inr ((m, h1, e1), Returned) \<Rightarrow>
            let (m2, e2) = mutex_unlock os m e1 in Inr ((p\<lparr>p_lock := m2\<rparr>, h1, e2), Some (p_count p)))"

section \<open>The bytes in the ring\<close>

definition pipe_ring_inv :: "pipe \<Rightarrow> bool" where
  "pipe_ring_inv p \<longleftrightarrow> length (p_buffer p) = PIPE_BUFFER_SIZE \<and> read_pos p < PIPE_BUFFER_SIZE \<and>
     p_count p \<le> PIPE_BUFFER_SIZE \<and> write_pos p = (read_pos p + p_count p) mod PIPE_BUFFER_SIZE"

definition pipe_inv :: "pipe \<Rightarrow> bool" where
  "pipe_inv p \<longleftrightarrow> pipe_ring_inv p \<and> sem_free (read_sem p) \<and> sem_free (write_sem p) \<and> m_locked (p_lock p) = 0"

definition pipe_bytes :: "pipe \<Rightarrow> u8 list" where
  "pipe_bytes p = ring_contents (p_buffer p) (read_pos p) (p_count p)"

lemma PIPE_pos: "0 < PIPE_BUFFER_SIZE"
  by (simp add: PIPE_BUFFER_SIZE_def)

text \<open>What the copy loops leave alone.\<close>

lemma copy_out_frame:
  "read_sem (snd (copy_out k p)) = read_sem p \<and> write_sem (snd (copy_out k p)) = write_sem p \<and>
   p_lock (snd (copy_out k p)) = p_lock p \<and> p_closed (snd (copy_out k p)) = p_closed p"
  by (induction k p rule: copy_out.induct) (simp_all add: case_prod_unfold Let_def)

lemma copy_in_frame:
  "read_sem (copy_in cs p) = read_sem p \<and> write_sem (copy_in cs p) = write_sem p \<and>
   p_lock (copy_in cs p) = p_lock p \<and> p_closed (copy_in cs p) = p_closed p"
  by (induction cs p rule: copy_in.induct) simp_all

lemma copy_out_refines:
  "pipe_ring_inv p \<Longrightarrow> k \<le> p_count p \<Longrightarrow>
    pipe_ring_inv (snd (copy_out k p)) \<and> length (fst (copy_out k p)) = k \<and>
    pipe_bytes p = fst (copy_out k p) @ pipe_bytes (snd (copy_out k p))"
proof (induction k p rule: copy_out.induct)
  case (1 p)
  then show ?case by simp
next
  case (2 k p)
  let ?p = "p\<lparr>read_pos := (read_pos p + 1) mod PIPE_BUFFER_SIZE, p_count := p_count p - 1\<rparr>"
  obtain n where n: "p_count p = Suc n" using 2(3) by (cases "p_count p") auto
  have inv: "pipe_ring_inv ?p"
    using 2(2) n PIPE_pos by (simp add: pipe_ring_inv_def mod_simps)
  have head: "pipe_bytes p = p_buffer p ! read_pos p # pipe_bytes ?p"
    using ring_read [of "read_pos p" "p_buffer p" n] 2(2) n by (simp add: pipe_bytes_def pipe_ring_inv_def)
  have "pipe_ring_inv (snd (copy_out k ?p)) \<and> length (fst (copy_out k ?p)) = k \<and>
      pipe_bytes ?p = fst (copy_out k ?p) @ pipe_bytes (snd (copy_out k ?p))"
    using 2(3) inv n by (intro 2(1)) simp_all
  with head show ?case by (simp add: case_prod_unfold Let_def)
qed

lemma copy_in_refines:
  "pipe_ring_inv p \<Longrightarrow> p_count p + length cs \<le> PIPE_BUFFER_SIZE \<Longrightarrow>
    pipe_ring_inv (copy_in cs p) \<and> pipe_bytes (copy_in cs p) = pipe_bytes p @ cs"
proof (induction cs p rule: copy_in.induct)
  case (1 p)
  then show ?case by simp
next
  case (2 c cs p)
  let ?p = "p\<lparr>p_buffer := (p_buffer p)[write_pos p := c], write_pos := (write_pos p + 1) mod PIPE_BUFFER_SIZE,
       p_count := p_count p + 1\<rparr>"
  have inv: "pipe_ring_inv ?p"
    using 2(2,3) by (simp add: pipe_ring_inv_def mod_simps)
  have "pipe_bytes ?p = pipe_bytes p @ [c]"
    using ring_write [of "p_count p" "p_buffer p" "read_pos p" c] 2(2,3) by (simp add: pipe_bytes_def pipe_ring_inv_def)
  with 2(1) [OF inv] 2(3) show ?case by simp
qed

section \<open>Transfers\<close>

lemma read_turn_ok:
  assumes "pipe_inv p"
  shows "\<exists>p' e' bs. read_turn os want p h e = Inr ((p', h, e'), Some bs) \<and> pipe_inv p' \<and>
    length bs = min want (p_count p) \<and> pipe_bytes p = bs @ pipe_bytes p' \<and> p_closed p' = p_closed p \<and>
    sem_value (read_sem p') = sem_value (read_sem p)"
proof -
  let ?k = "if want > p_count p then p_count p else want"
  let ?p = "p\<lparr>p_lock := (p_lock p)\<lparr>m_locked := 1, owner := this_process os\<rparr>\<rparr>"
  obtain e1 where l: "mutex_lock os (p_lock p) h e = Inr (((p_lock p)\<lparr>m_locked := 1, owner := this_process os\<rparr>, h, e1), Returned)"
    using mutex_lock_free [of "p_lock p" os h e] assms by (auto simp: pipe_inv_def)
  obtain bs p2 where c: "copy_out ?k ?p = (bs, p2)" by (metis surj_pair)
  have r: "pipe_ring_inv p2" "length bs = ?k" "pipe_bytes ?p = bs @ pipe_bytes p2"
    using copy_out_refines [of ?p ?k] c assms by (auto simp: pipe_inv_def pipe_ring_inv_def)
  have f: "read_sem p2 = read_sem p" "write_sem p2 = write_sem p" "p_lock p2 = p_lock ?p" "p_closed p2 = p_closed p"
    using copy_out_frame [of ?k ?p] c by simp_all
  obtain m2 e2 where u: "mutex_unlock os (p_lock p2) e1 = (m2, e2)" by (metis surj_pair)
  have m2: "m_locked m2 = 0" using mutex_unlock_object [of os "p_lock p2" e1] u f by simp
  obtain ws e3 where s: "semaphore_signal os (write_sem p2) e2 = Inr (ws, e3)" "sem_free ws"
    using semaphore_signal_free [of "write_sem p2" os e2] f assms by (auto simp: pipe_inv_def)
  have "read_turn os want p h e = Inr ((p2\<lparr>p_lock := m2, write_sem := ws\<rparr>, h, e3), Some bs)"
    using l c u s by (cases "p_count p < want") (simp_all add: read_turn_def Let_def)
  then show ?thesis
    using r f m2 s(2) assms by (intro exI [of _ "p2\<lparr>p_lock := m2, write_sem := ws\<rparr>"]) (auto simp: pipe_inv_def pipe_ring_inv_def pipe_bytes_def)
qed

lemma write_turn_ok:
  assumes "pipe_inv p"
  shows "\<exists>p' e'. write_turn os rest p h e
      = Inr ((p', h, e'), Some (take (PIPE_BUFFER_SIZE - p_count p) rest)) \<and> pipe_inv p' \<and>
    pipe_bytes p' = pipe_bytes p @ take (PIPE_BUFFER_SIZE - p_count p) rest \<and> p_closed p' = p_closed p \<and>
    sem_value (read_sem p') = sem_value (read_sem p) + 1"
proof -
  let ?room = "PIPE_BUFFER_SIZE - p_count p"
  let ?p = "p\<lparr>p_lock := (p_lock p)\<lparr>m_locked := 1, owner := this_process os\<rparr>\<rparr>"
  obtain e1 where l: "mutex_lock os (p_lock p) h e = Inr (((p_lock p)\<lparr>m_locked := 1, owner := this_process os\<rparr>, h, e1), Returned)"
    using mutex_lock_free [of "p_lock p" os h e] assms by (auto simp: pipe_inv_def)
  let ?p2 = "copy_in (take ?room rest) ?p"
  have r: "pipe_ring_inv ?p2" "pipe_bytes ?p2 = pipe_bytes ?p @ take ?room rest"
    using copy_in_refines [of ?p "take ?room rest"] assms by (auto simp: pipe_inv_def pipe_ring_inv_def)
  have f: "read_sem ?p2 = read_sem p" "write_sem ?p2 = write_sem p" "p_lock ?p2 = p_lock ?p" "p_closed ?p2 = p_closed p"
    using copy_in_frame [of "take ?room rest" ?p] by simp_all
  obtain m2 e2 where u: "mutex_unlock os (p_lock ?p2) e1 = (m2, e2)" by (metis surj_pair)
  have m2: "m_locked m2 = 0" using mutex_unlock_object [of os "p_lock ?p2" e1] u f by simp
  obtain rs e3 where s: "semaphore_signal os (read_sem ?p2) e2 = Inr (rs, e3)" "sem_free rs" "sem_value rs = sem_value (read_sem p) + 1"
    using semaphore_signal_free [of "read_sem ?p2" os e2] f assms by (auto simp: pipe_inv_def)
  have "write_turn os rest p h e = Inr ((?p2\<lparr>p_lock := m2, read_sem := rs\<rparr>, h, e3), Some (take ?room rest))"
    using l u s(1) by (cases "?room < length rest") (simp_all add: write_turn_def Let_def)
  then show ?thesis
    using r f m2 s(2,3) assms by (intro exI [of _ "?p2\<lparr>p_lock := m2, read_sem := rs\<rparr>"]) (auto simp: pipe_inv_def pipe_ring_inv_def pipe_bytes_def)
qed


text \<open>Waiting on a semaphore of the pipe leaves its bytes alone.\<close>

lemma read_loop_refines:
  fixes os :: "'e os"
  shows "read_loop os n got s = Some (Inr (s', out)) \<Longrightarrow> pipe_inv (fst s) \<Longrightarrow>
    (\<exists>bs r. (out = Io_blocked (got @ bs) \<or> out = Io_done r (got @ bs) \<and>
        (r = int (length (got @ bs)) \<or> r = -1 \<and> got @ bs = [])) \<and>
      pipe_inv (fst s') \<and> pipe_bytes (fst s) = bs @ pipe_bytes (fst s'))"
proof -
  let ?P = "\<lambda>(os :: 'e os) (n :: nat) (got :: u8 list) (s :: 'e pipe_state) (r :: fault + ('e pipe_state \<times> io_outcome)). \<forall>s' out. r = Inr (s', out) \<longrightarrow> pipe_inv (fst s) \<longrightarrow>
    (\<exists>bs r. (out = Io_blocked (got @ bs) \<or> out = Io_done r (got @ bs) \<and>
        (r = int (length (got @ bs)) \<or> r = -1 \<and> got @ bs = [])) \<and>
      pipe_inv (fst s') \<and> pipe_bytes (fst s) = bs @ pipe_bytes (fst s'))"
  assume run: "read_loop os n got s = Some (Inr (s', out))" and inv: "pipe_inv (fst s)"
  have "?P os n got s (Inr (s', out))"
  proof (rule read_loop.raw_induct [where P = ?P, OF _ run], intro allI impI)
    fix loop and os :: "'e os" and n got s y s' out
    assume ih: "\<And>os n got s y. loop os n got s = Some y \<Longrightarrow> ?P os n got s y"
      and eq: "(if \<not> length got < n then Some (Inr (s, Io_done (int (length got)) got))
      else case s of (p, h, e) \<Rightarrow>
        case semaphore_wait os (read_sem p) h e of
          Inl f \<Rightarrow> Some (Inl f)
        | Inr ((rs, h1, e1), Waiting w) \<Rightarrow> Some (Inr ((p\<lparr>read_sem := rs\<rparr>, h1, e1), Io_blocked got))
        | Inr ((rs, h1, e1), Returned) \<Rightarrow>
            let p1 = p\<lparr>read_sem := rs\<rparr> in
            if p_closed p1 then Some (Inr ((p1, h1, e1), Io_done (if length got > 0 then int (length got) else -1) got))
            else case read_turn os (n - length got) p1 h1 e1 of
                Inl f \<Rightarrow> Some (Inl f)
              | Inr (s2, None) \<Rightarrow> Some (Inr (s2, Io_blocked got))
              | Inr (s2, Some bs) \<Rightarrow>
                  if length (got @ bs) = n \<or> p_closed (fst s2) then Some (Inr (s2, Io_done (int (length (got @ bs))) (got @ bs)))
                  else loop os n (got @ bs) s2) = Some y"
      and y: "y = Inr (s', out)" and inv: "pipe_inv (fst s)"
    obtain p h e where s: "s = (p, h, e)" by (metis prod_cases3)
    have inv: "pipe_inv p" using inv s by simp
    show "\<exists>bs r. (out = Io_blocked (got @ bs) \<or> out = Io_done r (got @ bs) \<and>
        (r = int (length (got @ bs)) \<or> r = -1 \<and> got @ bs = [])) \<and>
      pipe_inv (fst s') \<and> pipe_bytes (fst s) = bs @ pipe_bytes (fst s')"
    proof (cases "length got < n")
      case False
      with eq y inv s show ?thesis by (intro exI [of _ "[]"]) auto
    next
      case True
      obtain rs h1 e1 w where wt: "semaphore_wait os (read_sem p) h e = Inr ((rs, h1, e1), w)" "sem_free rs"
        using semaphore_wait_free [of "read_sem p" os h e] inv by (auto simp: pipe_inv_def)
      let ?p = "p\<lparr>read_sem := rs\<rparr>"
      have p1: "pipe_inv ?p" "pipe_bytes ?p = pipe_bytes p"
        using inv wt(2) by (simp_all add: pipe_inv_def pipe_ring_inv_def pipe_bytes_def)
      obtain p' e' bs where t: "read_turn os (n - length got) ?p h1 e1 = Inr ((p', h1, e'), Some bs)" "pipe_inv p'"
        "pipe_bytes ?p = bs @ pipe_bytes p'"
        using read_turn_ok [OF p1(1), of os "n - length got" h1 e1] by blast
      consider (wait) x where "w = Waiting x" | (closed) "w = Returned" "p_closed p"
        | (stop) "w = Returned" "\<not> p_closed p" "length (got @ bs) = n \<or> p_closed p'"
        | (again) "w = Returned" "\<not> p_closed p" "\<not> (length (got @ bs) = n \<or> p_closed p')"
        by (cases w) auto
      then show ?thesis
      proof cases
        case (wait x)
        with eq y True s wt p1 show ?thesis by (intro exI [of _ "[]"]) auto
      next
        case closed
        with eq y True s wt p1 show ?thesis by (intro exI [of _ "[]"]) (auto split: if_splits)
      next
        case stop
        with eq y True s wt t p1 show ?thesis by (intro exI [of _ bs]) auto
      next
        case again
        with eq y True s wt t have lp: "loop os n (got @ bs) (p', h1, e') = Some (Inr (s', out))" by auto
        have "pipe_inv (fst (p', h1, e'))" using t(2) by simp
        from ih [OF lp, rule_format, OF refl this] obtain cs r where
          "(out = Io_blocked ((got @ bs) @ cs) \<or> out = Io_done r ((got @ bs) @ cs) \<and>
            (r = int (length ((got @ bs) @ cs)) \<or> r = -1 \<and> (got @ bs) @ cs = []))"
          "pipe_inv (fst s')" "pipe_bytes (fst (p', h1, e')) = cs @ pipe_bytes (fst s')"
          by blast
        with t(3) p1(2) s show ?thesis by (intro exI [of _ "bs @ cs"] exI [of _ r]) auto
      qed
    qed
  qed
  with inv show ?thesis by blast
qed

lemma write_loop_refines:
  fixes os :: "'e os"
  shows "write_loop os data don s = Some (Inr (s', out)) \<Longrightarrow> pipe_inv (fst s) \<Longrightarrow>
    (\<exists>bs r. (out = Io_blocked (don @ bs) \<or> out = Io_done r (don @ bs) \<and>
        (r = int (length (don @ bs)) \<or> r = -1)) \<and>
      pipe_inv (fst s') \<and> pipe_bytes (fst s') = pipe_bytes (fst s) @ bs \<and> (\<exists>rest. drop (length don) data = bs @ rest))"
proof -
  let ?P = "\<lambda>(os :: 'e os) (data :: u8 list) (don :: u8 list) (s :: 'e pipe_state) (r :: fault + ('e pipe_state \<times> io_outcome)). \<forall>s' out. r = Inr (s', out) \<longrightarrow> pipe_inv (fst s) \<longrightarrow>
    (\<exists>bs r. (out = Io_blocked (don @ bs) \<or> out = Io_done r (don @ bs) \<and>
        (r = int (length (don @ bs)) \<or> r = -1)) \<and>
      pipe_inv (fst s') \<and> pipe_bytes (fst s') = pipe_bytes (fst s) @ bs \<and> (\<exists>rest. drop (length don) data = bs @ rest))"
  assume run: "write_loop os data don s = Some (Inr (s', out))" and inv: "pipe_inv (fst s)"
  have "?P os data don s (Inr (s', out))"
  proof (rule write_loop.raw_induct [where P = ?P, OF _ run], intro allI impI)
    fix loop and os :: "'e os" and data don s y s' out
    assume ih: "\<And>os data don s y. loop os data don s = Some y \<Longrightarrow> ?P os data don s y"
      and eq: "(if \<not> length don < length data then Some (Inr (s, Io_done (int (length don)) don))
      else case s of (p, h, e) \<Rightarrow>
        case semaphore_wait os (write_sem p) h e of
          Inl f \<Rightarrow> Some (Inl f)
        | Inr ((ws, h1, e1), Waiting w) \<Rightarrow> Some (Inr ((p\<lparr>write_sem := ws\<rparr>, h1, e1), Io_blocked don))
        | Inr ((ws, h1, e1), Returned) \<Rightarrow>
            let p1 = p\<lparr>write_sem := ws\<rparr> in
            if p_closed p1 then Some (Inr ((p1, h1, e1), Io_done (-1) don))
            else case write_turn os (drop (length don) data) p1 h1 e1 of
                Inl f \<Rightarrow> Some (Inl f)
              | Inr (s2, None) \<Rightarrow> Some (Inr (s2, Io_blocked don))
              | Inr (s2, Some bs) \<Rightarrow>
                  if length (don @ bs) = length data \<or> p_closed (fst s2) then Some (Inr (s2, Io_done (int (length (don @ bs))) (don @ bs)))
                  else loop os data (don @ bs) s2) = Some y"
      and y: "y = Inr (s', out)" and inv: "pipe_inv (fst s)"
    obtain p h e where s: "s = (p, h, e)" by (metis prod_cases3)
    have inv: "pipe_inv p" using inv s by simp
    show "\<exists>bs r. (out = Io_blocked (don @ bs) \<or> out = Io_done r (don @ bs) \<and>
        (r = int (length (don @ bs)) \<or> r = -1)) \<and>
      pipe_inv (fst s') \<and> pipe_bytes (fst s') = pipe_bytes (fst s) @ bs \<and> (\<exists>rest. drop (length don) data = bs @ rest)"
    proof (cases "length don < length data")
      case False
      with eq y inv s show ?thesis by (intro exI [of _ "[]"]) auto
    next
      case True
      obtain ws h1 e1 w where wt: "semaphore_wait os (write_sem p) h e = Inr ((ws, h1, e1), w)" "sem_free ws"
        using semaphore_wait_free [of "write_sem p" os h e] inv by (auto simp: pipe_inv_def)
      let ?p = "p\<lparr>write_sem := ws\<rparr>"
      have p1: "pipe_inv ?p" "pipe_bytes ?p = pipe_bytes p"
        using inv wt(2) by (simp_all add: pipe_inv_def pipe_ring_inv_def pipe_bytes_def)
      define bs where "bs = take (PIPE_BUFFER_SIZE - p_count ?p) (drop (length don) data)"
      have tk: "\<exists>rest. drop (length don) data = bs @ rest"
        unfolding bs_def by (metis append_take_drop_id)
      obtain p' e' where t: "write_turn os (drop (length don) data) ?p h1 e1 = Inr ((p', h1, e'), Some bs)" "pipe_inv p'"
        "pipe_bytes p' = pipe_bytes ?p @ bs"
        using write_turn_ok [OF p1(1), of os "drop (length don) data" h1 e1] unfolding bs_def by blast
      consider (wait) x where "w = Waiting x" | (closed) "w = Returned" "p_closed p"
        | (stop) "w = Returned" "\<not> p_closed p" "length (don @ bs) = length data \<or> p_closed p'"
        | (again) "w = Returned" "\<not> p_closed p" "\<not> (length (don @ bs) = length data \<or> p_closed p')"
        by (cases w) auto
      then show ?thesis
      proof cases
        case (wait x)
        with eq y True s wt p1 show ?thesis by (intro exI [of _ "[]"]) auto
      next
        case closed
        with eq y True s wt p1 show ?thesis by (intro exI [of _ "[]"]) (auto split: if_splits)
      next
        case stop
        with eq y True s wt t p1 tk show ?thesis by (intro exI [of _ bs]) auto
      next
        case again
        with eq y True s wt t have lp: "loop os data (don @ bs) (p', h1, e') = Some (Inr (s', out))" by auto
        have "pipe_inv (fst (p', h1, e'))" using t(2) by simp
        from ih [OF lp, rule_format, OF refl this] obtain cs r where
          "(out = Io_blocked ((don @ bs) @ cs) \<or> out = Io_done r ((don @ bs) @ cs) \<and>
            (r = int (length ((don @ bs) @ cs)) \<or> r = -1))"
          "pipe_inv (fst s')" "pipe_bytes (fst s') = pipe_bytes (fst (p', h1, e')) @ cs"
          "\<exists>rest. drop (length (don @ bs)) data = cs @ rest"
          by blast
        moreover have "\<exists>rest. drop (length don) data = (bs @ cs) @ rest"
        proof -
          obtain r1 where "drop (length don) data = bs @ r1" using tk by blast
          moreover from this have "drop (length (don @ bs)) data = r1"
            by (metis add.commute append_eq_conv_conj drop_drop length_append)
          ultimately show ?thesis using \<open>\<exists>rest. drop (length (don @ bs)) data = cs @ rest\<close> by auto
        qed
        ultimately show ?thesis using t(3) p1(2) s by (intro exI [of _ "bs @ cs"] exI [of _ r]) auto
      qed
    qed
  qed
  with inv show ?thesis by blast
qed


section \<open>Histories\<close>

datatype pipe_op = Write "u8 list" | Read nat

text \<open>The bytes an operation has moved, whether it is done or waits.\<close>

fun moved :: "io_outcome \<Rightarrow> u8 list" where
  "moved (Io_done r bs) = bs"
| "moved (Io_blocked bs) = bs"

text \<open>A sequence of calls that return or wait: the final state, bytes written, bytes read.\<close>

fun pipe_run :: "'e os \<Rightarrow> 'e pipe_state \<Rightarrow> pipe_op list \<Rightarrow> ('e pipe_state \<times> u8 list \<times> u8 list) option" where
  "pipe_run os s [] = Some (s, [], [])"
| "pipe_run os s (Write data # ops) =
     (case pipe_write os data s of
        Some (Inr (s1, out)) \<Rightarrow> map_option (\<lambda>(s2, w, r). (s2, moved out @ w, r)) (pipe_run os s1 ops)
      | _ \<Rightarrow> None)"
| "pipe_run os s (Read n # ops) =
     (case pipe_read os n s of
        Some (Inr (s1, out)) \<Rightarrow> map_option (\<lambda>(s2, w, r). (s2, w, moved out @ r)) (pipe_run os s1 ops)
      | _ \<Rightarrow> None)"

lemma pipe_write_refines:
  assumes "pipe_write os data s = Some (Inr (s', out))" "pipe_inv (fst s)"
  shows "pipe_inv (fst s') \<and> pipe_bytes (fst s') = pipe_bytes (fst s) @ moved out"
proof (cases "data = [] \<or> p_closed (fst s)")
  case True
  with assms show ?thesis by (auto simp: pipe_write_def)
next
  case False
  then have "write_loop os data [] s = Some (Inr (s', out))" using assms(1) by (auto simp: pipe_write_def)
  from write_loop_refines [OF this assms(2)] show ?thesis by auto
qed

lemma pipe_read_refines:
  assumes "pipe_read os n s = Some (Inr (s', out))" "pipe_inv (fst s)"
  shows "pipe_inv (fst s') \<and> pipe_bytes (fst s) = moved out @ pipe_bytes (fst s')"
proof (cases "n = 0 \<or> p_closed (fst s)")
  case True
  with assms show ?thesis by (auto simp: pipe_read_def)
next
  case False
  then have "read_loop os n [] s = Some (Inr (s', out))" using assms(1) by (auto simp: pipe_read_def)
  from read_loop_refines [OF this assms(2)] show ?thesis by auto
qed

text \<open>
  C7. A pipe loses, invents and reorders nothing: over any sequence of reads and writes of any
  sizes, each of which may complete or stop to wait, the bytes read followed by those still in the
  ring are the bytes that were in it followed by the bytes written.
\<close>

theorem pipe_history_fifo:
  assumes "pipe_inv (fst s)" "pipe_run os s ops = Some (s', written, got)"
  shows "pipe_inv (fst s') \<and> pipe_bytes (fst s) @ written = got @ pipe_bytes (fst s')"
  using assms
proof (induction os s ops arbitrary: s' written got rule: pipe_run.induct)
  case (1 os s)
  then show ?case by simp
next
  case (2 os s data ops)
  obtain s1 out w where o: "pipe_write os data s = Some (Inr (s1, out))" "pipe_run os s1 ops = Some (s', w, got)"
    "written = moved out @ w"
    using 2(3) by (auto split: option.splits sum.splits prod.splits)
  have one: "pipe_inv (fst s1)" "pipe_bytes (fst s1) = pipe_bytes (fst s) @ moved out"
    using pipe_write_refines [OF o(1) 2(2)] by simp_all
  have "pipe_inv (fst s') \<and> pipe_bytes (fst s1) @ w = got @ pipe_bytes (fst s')"
    by (rule 2(1) [OF o(1) refl refl one(1) o(2)])
  with one(2) o(3) show ?case by simp
next
  case (3 os s n ops)
  obtain s1 out r where o: "pipe_read os n s = Some (Inr (s1, out))" "pipe_run os s1 ops = Some (s', written, r)"
    "got = moved out @ r"
    using 3(3) by (auto split: option.splits sum.splits prod.splits)
  have one: "pipe_inv (fst s1)" "pipe_bytes (fst s) = moved out @ pipe_bytes (fst s1)"
    using pipe_read_refines [OF o(1) 3(2)] by simp_all
  have "pipe_inv (fst s') \<and> pipe_bytes (fst s1) @ written = r @ pipe_bytes (fst s')"
    by (rule 3(1) [OF o(1) refl refl one(1) o(2)])
  with one(2) o(3) show ?case by simp
qed

text \<open>
  The semaphores count calls, not bytes: in an empty open pipe a write of two bytes gives the
  readers one unit, so after a read of one byte the next reader blocks although a byte is there.
\<close>

theorem pipe_reader_blocks_with_data:
  assumes "pipe_inv p" "\<not> p_closed p" "p_count p = 0" "sem_value (read_sem p) = 0" "0 < sem_value (write_sem p)"
    "snd (kmalloc h sizeof_waiter) \<noteq> NULL"
  shows "\<exists>s1 s2 s3. pipe_write os [a, b] (p, h, e) = Some (Inr (s1, Io_done 2 [a, b])) \<and>
    pipe_read os 1 s1 = Some (Inr (s2, Io_done 1 [a])) \<and>
    pipe_bytes (fst s2) = [b] \<and> pipe_read os 1 s2 = Some (Inr (s3, Io_blocked []))"
proof -
  obtain ws e1 where w: "semaphore_wait os (write_sem p) h e = Inr ((ws, h, e1), Returned)" "sem_free ws"
    using semaphore_wait_free [of "write_sem p" os h e] assms(1,5) by (auto simp: pipe_inv_def)
  let ?p = "p\<lparr>write_sem := ws\<rparr>"
  have inv: "pipe_inv ?p" using assms(1) w(2) by (simp add: pipe_inv_def pipe_ring_inv_def)
  have room: "take (PIPE_BUFFER_SIZE - p_count ?p) [a, b] = [a, b]" using assms(3) by (simp add: PIPE_BUFFER_SIZE_def)
  obtain p1 e2 where t: "write_turn os [a, b] ?p h e1 = Inr ((p1, h, e2), Some [a, b])" "pipe_inv p1"
    "pipe_bytes p1 = pipe_bytes ?p @ [a, b]" "\<not> p_closed p1" "sem_value (read_sem p1) = 1"
    using write_turn_ok [OF inv, of os "[a, b]" h e1] assms(2,4) unfolding room by auto
  have wr: "pipe_write os [a, b] (p, h, e) = Some (Inr ((p1, h, e2), Io_done 2 [a, b]))"
    using assms(2) w(1) t(1) by (simp add: pipe_write_def write_loop.simps)
  have bytes1: "pipe_bytes p1 = [a, b]" using t(3) assms(3) by (simp add: pipe_bytes_def)
  then have c1: "p_count p1 = 2" by (metis pipe_bytes_def length_ring_contents length_Cons list.size(3) numeral_2_eq_2)
  obtain rs e3 where r: "semaphore_wait os (read_sem p1) h e2 = Inr ((rs, h, e3), Returned)" "sem_free rs" "sem_value rs = 0"
    using semaphore_wait_free [of "read_sem p1" os h e2] t(2,5) by (auto simp: pipe_inv_def)
  let ?q = "p1\<lparr>read_sem := rs\<rparr>"
  have qi: "pipe_inv ?q" using t(2) r(2) by (simp add: pipe_inv_def pipe_ring_inv_def)
  obtain p2 e4 bs where u: "read_turn os 1 ?q h e3 = Inr ((p2, h, e4), Some bs)" "pipe_inv p2"
    "length bs = 1" "pipe_bytes ?q = bs @ pipe_bytes p2" "\<not> p_closed p2" "sem_value (read_sem p2) = 0"
    using read_turn_ok [OF qi, of os 1 h e3] c1 t(4) r(3) by auto
  have bb: "bs = [a]" "pipe_bytes p2 = [b]"
    using u(3,4) bytes1 by (auto simp: pipe_bytes_def length_Suc_conv)
  have rd: "pipe_read os 1 (p1, h, e2) = Some (Inr ((p2, h, e4), Io_done 1 [a]))"
    using t(4) r(1) u(1) bb(1) by (simp add: pipe_read_def read_loop.simps)
  have "\<exists>s3. pipe_read os 1 (p2, h, e4) = Some (Inr (s3, Io_blocked []))"
    using semaphore_wait_free [of "read_sem p2" os h e4] u(2,5,6) assms(6)
    by (auto simp: pipe_read_def read_loop.simps pipe_inv_def)
  with wr rd bb(2) show ?thesis by auto
qed

definition empty_pipe :: pipe where
  "empty_pipe = \<lparr>p_buffer = replicate PIPE_BUFFER_SIZE 0, read_pos = 0, write_pos = 0, p_count = 0,
     read_sem = zero_sem, write_sem = zero_sem\<lparr>sem_value := 4096\<rparr>,
     p_lock = \<lparr>m_locked = 0, owner = NULL, m_waiters = []\<rparr>, p_closed = False\<rparr>"

lemma empty_pipe_inv: "pipe_inv empty_pipe"
  by (simp add: empty_pipe_def pipe_inv_def pipe_ring_inv_def sem_free_def zero_sem_def PIPE_BUFFER_SIZE_def)

theorem pipe_reader_blocks_with_data_witness:
  "\<exists>s1 s2 s3. pipe_write demo_os [1, 2] (empty_pipe, booted_heap, 0) = Some (Inr (s1, Io_done 2 [1, 2])) \<and>
     pipe_read demo_os 1 s1 = Some (Inr (s2, Io_done 1 [1])) \<and>
     pipe_bytes (fst s2) = [2] \<and> pipe_read demo_os 1 s2 = Some (Inr (s3, Io_blocked []))"
  by (rule pipe_reader_blocks_with_data [OF empty_pipe_inv])
     (simp_all add: empty_pipe_def zero_sem_def sizeof_waiter_def booted_heap_eval kmalloc_def split_block_def)

theorem pipe_history_fifo_witness:
  "\<exists>s'. pipe_run demo_os (empty_pipe, booted_heap, 0) [Write [5, 6], Read 2] = Some (s', [5, 6], [5, 6]) \<and> pipe_bytes (fst s') = []"
proof -
  have "\<exists>s'. pipe_run demo_os (empty_pipe, booted_heap, 0) [Write [5, 6], Read 2] = Some (s', [5, 6], [5, 6])"
    by (simp add: pipe_write_def pipe_read_def write_loop.simps read_loop.simps empty_pipe_def zero_sem_def
        semaphore_wait_def semaphore_signal_def sem_call_simps write_turn_def read_turn_def mutex_lock_def
        mutex_try_lock_word_def mutex_unlock_def demo_os_def numeral_2_eq_2 PIPE_BUFFER_SIZE_def spinlock_acquire_def)
  then obtain s' where r: "pipe_run demo_os (empty_pipe, booted_heap, 0) [Write [5, 6], Read 2] = Some (s', [5, 6], [5, 6])" by blast
  have "pipe_inv (fst (empty_pipe, booted_heap, 0 :: nat))" "pipe_bytes empty_pipe = []"
    using empty_pipe_inv by (simp_all add: pipe_bytes_def empty_pipe_def)
  with pipe_history_fifo [OF this(1) r] r show ?thesis by auto
qed

end
