(* ===== verification/Keyboard.thy ===== *)
theory Keyboard
  imports Interrupt_Control Fifo_Interface
begin

unbundle bit_operations_syntax

text \<open>
  The keyboard driver (\<^verbatim>\<open>drivers/keyboard.c\<close>): scan codes become characters of the US layout, with
  shift and caps lock, and go into a ring of \<open>KEYBOARD_BUFFER_SIZE\<close> bytes that keeps one slot free.
  The answers of the controller to the successive \<open>inb\<close> calls are an argument. Shown here: letters
  are upper case exactly when one of shift and caps lock is on, the ring is a FIFO, and the
  handler stays installed after \<open>keyboard_cleanup\<close>.
\<close>

section \<open>State\<close>

definition KEYBOARD_BUFFER_SIZE :: nat where "KEYBOARD_BUFFER_SIZE = 256"

definition scancode_to_ascii :: "u8 list" where
  "scancode_to_ascii =
    [0, 27, 49, 50, 51, 52, 53, 54, 55, 56, 57, 48, 45, 61, 8, 9, 113, 119, 101, 114, 116, 121, 117,
     105, 111, 112, 91, 93, 10, 0, 97, 115, 100, 102, 103, 104, 106, 107, 108, 59, 39, 96, 0, 92,
     122, 120, 99, 118, 98, 110, 109, 44, 46, 47, 0, 42, 0, 32, 0, 0, 0, 0, 0, 0, 0, 0, 0, 0, 0, 0,
     0, 0, 0, 0, 0, 0, 0, 0, 0, 0, 0, 0, 0, 0, 0, 0, 0]"

definition scancode_to_ascii_shift :: "u8 list" where
  "scancode_to_ascii_shift =
    [0, 27, 33, 64, 35, 36, 37, 94, 38, 42, 40, 41, 95, 43, 8, 9, 81, 87, 69, 82, 84, 89, 85, 73,
     79, 80, 123, 125, 10, 0, 65, 83, 68, 70, 71, 72, 74, 75, 76, 58, 34, 126, 0, 124, 90, 88, 67,
     86, 66, 78, 77, 60, 62, 63, 0, 42, 0, 32, 0, 0, 0, 0, 0, 0, 0, 0, 0, 0, 0, 0, 0, 0, 0, 0, 0, 0,
     0, 0, 0, 0, 0, 0, 0, 0, 0, 0, 0]"

text \<open>\<open>kb_calls\<close> are the calls made to the registered callback, with its address.\<close>

record kb_state = irq_state +
  kb_buffer :: "u8 list"
  kb_head :: nat
  kb_tail :: nat
  shift_pressed :: bool
  caps_lock :: bool
  num_lock :: bool
  scroll_lock :: bool
  kb_callback :: ptr
  kb_initialized :: bool
  kb_calls :: "(ptr \<times> u8) list"

section \<open>Operations\<close>

definition keyboard_buffer_push :: "'a kb_state_scheme \<Rightarrow> u8 \<Rightarrow> 'a kb_state_scheme" where
  "keyboard_buffer_push s c =
     (let nxt = (kb_head s + 1) mod KEYBOARD_BUFFER_SIZE in
      if nxt \<noteq> kb_tail s then s\<lparr>kb_buffer := (kb_buffer s)[kb_head s := c], kb_head := nxt\<rparr> else s)"

definition keyboard_buffer_pop :: "'a kb_state_scheme \<Rightarrow> 'a kb_state_scheme \<times> u8" where
  "keyboard_buffer_pop s =
     (if kb_tail s \<noteq> kb_head s
      then (s\<lparr>kb_tail := (kb_tail s + 1) mod KEYBOARD_BUFFER_SIZE\<rparr>, kb_buffer s ! kb_tail s)
      else (s, 0))"

definition is_letter :: "u8 \<Rightarrow> bool" where
  "is_letter c \<longleftrightarrow> c \<ge> 0x61 \<and> c \<le> 0x7A \<or> c \<ge> 0x41 \<and> c \<le> 0x5A"

text \<open>The character of a scan code under the current modifiers; 0 is none.\<close>

definition key_char :: "bool \<Rightarrow> bool \<Rightarrow> u8 \<Rightarrow> u8" where
  "key_char shift caps sc =
     (let c = (if shift then scancode_to_ascii_shift ! unat sc else scancode_to_ascii ! unat sc) in
      if c \<noteq> 0 \<and> caps \<and> is_letter c then c XOR 0x20 else c)"

definition keyboard_handler :: "u8 \<Rightarrow> 'a kb_state_scheme \<Rightarrow> 'a kb_state_scheme" where
  "keyboard_handler input s =
     (let released = (input AND 0x80 \<noteq> 0); sc = input AND NOT 0x80 in
      if sc = 0x2A \<or> sc = 0x36 then s\<lparr>shift_pressed := \<not> released\<rparr>
      else if sc = 0x3A then (if \<not> released then s\<lparr>caps_lock := \<not> caps_lock s\<rparr> else s)
      else if sc = 0x45 then (if \<not> released then s\<lparr>num_lock := \<not> num_lock s\<rparr> else s)
      else if sc = 0x46 then (if \<not> released then s\<lparr>scroll_lock := \<not> scroll_lock s\<rparr> else s)
      else if \<not> released \<and> unat sc < length scancode_to_ascii then
        let c = key_char (shift_pressed s) (caps_lock s) sc in
        if c \<noteq> 0 then
          let s1 = keyboard_buffer_push s c in
          if kb_callback s1 \<noteq> NULL then s1\<lparr>kb_calls := kb_calls s1 @ [(kb_callback s1, c)]\<rparr> else s1
        else s
      else s)"

definition keyboard_init :: "ptr \<Rightarrow> (nat \<Rightarrow> u8) \<Rightarrow> 'a kb_state_scheme \<Rightarrow> ('a kb_state_scheme \<times> bool) option" where
  "keyboard_init handler inb s =
     (if kb_initialized s then Some (s, True)
      else let s1 = register_interrupt_handler 33 handler
             (s\<lparr>kb_buffer := replicate KEYBOARD_BUFFER_SIZE 0, kb_head := 0, kb_tail := 0, shift_pressed := False,
                caps_lock := False, num_lock := False, scroll_lock := False, kb_callback := NULL, kb_initialized := False\<rparr>) in
        case wait_port (\<lambda>b. b AND 2 = 0) inb 0 of
          None \<Rightarrow> None
        | Some k1 \<Rightarrow>
            let s2 = outb 0x60 0xFF (outb 0x64 0xAE s1) in
            case wait_port (\<lambda>b. b AND 1 \<noteq> 0) inb k1 of
              None \<Rightarrow> None
            | Some k2 \<Rightarrow> if inb k2 \<noteq> 0xFA then Some (s2, False) else Some (s2\<lparr>kb_initialized := True\<rparr>, True))"

definition keyboard_set_callback :: "ptr \<Rightarrow> 'a kb_state_scheme \<Rightarrow> 'a kb_state_scheme" where
  "keyboard_set_callback cb s = (if \<not> kb_initialized s then s else s\<lparr>kb_callback := cb\<rparr>)"

definition keyboard_get_char :: "'a kb_state_scheme \<Rightarrow> 'a kb_state_scheme \<times> u8" where
  "keyboard_get_char s = (if \<not> kb_initialized s then (s, 0) else keyboard_buffer_pop s)"

text \<open>The loop of \<open>keyboard_read\<close> with room for \<open>n\<close> more characters.\<close>

fun read_chars :: "nat \<Rightarrow> 'a kb_state_scheme \<Rightarrow> 'a kb_state_scheme \<times> u8 list" where
  "read_chars 0 s = (s, [])"
| "read_chars (Suc n) s =
     (let (s1, c) = keyboard_buffer_pop s in
      if c = 0 then (s1, []) else let (s2, cs) = read_chars n s1 in (s2, c # cs))"

definition keyboard_read :: "nat \<Rightarrow> 'a kb_state_scheme \<Rightarrow> 'a kb_state_scheme \<times> u8 list" where
  "keyboard_read sz s = (if \<not> kb_initialized s \<or> sz = 0 then (s, []) else read_chars sz s)"

definition keyboard_is_shift_pressed :: "'a kb_state_scheme \<Rightarrow> bool" where
  "keyboard_is_shift_pressed s = shift_pressed s"

definition keyboard_is_caps_lock_on :: "'a kb_state_scheme \<Rightarrow> bool" where
  "keyboard_is_caps_lock_on s = caps_lock s"

definition keyboard_is_num_lock_on :: "'a kb_state_scheme \<Rightarrow> bool" where
  "keyboard_is_num_lock_on s = num_lock s"

definition keyboard_is_scroll_lock_on :: "'a kb_state_scheme \<Rightarrow> bool" where
  "keyboard_is_scroll_lock_on s = scroll_lock s"

definition keyboard_is_initialized :: "'a kb_state_scheme \<Rightarrow> bool" where
  "keyboard_is_initialized s = kb_initialized s"

definition keyboard_cleanup :: "(nat \<Rightarrow> u8) \<Rightarrow> 'a kb_state_scheme \<Rightarrow> 'a kb_state_scheme option" where
  "keyboard_cleanup inb s =
     (if \<not> kb_initialized s then Some s
      else case wait_port (\<lambda>b. b AND 2 = 0) inb 0 of
        None \<Rightarrow> None
      | Some k \<Rightarrow> Some ((fst (irq_install_handler 1 NULL (outb 0x64 0xAD s)))\<lparr>kb_initialized := False\<rparr>))"

section \<open>Letter case\<close>

text \<open>
  Every letter key gives the upper case letter when exactly one of shift and caps lock is on
  and the lower case one otherwise, and both tables agree on which keys are letters.
\<close>

theorem keyboard_letter_case:
  "\<forall>sc < 87. is_letter (scancode_to_ascii ! sc) \<longrightarrow>
     key_char shift caps (of_nat sc) = (if shift \<noteq> caps then scancode_to_ascii ! sc - 0x20 else scancode_to_ascii ! sc) \<and>
     is_letter (scancode_to_ascii_shift ! sc)"
proof -
  have u: "unat (of_nat sc :: u8) = sc" if "sc < 87" for sc
    using that by (simp add: unat_of_nat take_bit_eq_mod)
  have "list_all (\<lambda>(a, b). is_letter a \<longrightarrow> is_letter b \<and> b = a - 0x20 \<and> a XOR 0x20 = b \<and> b XOR 0x20 = a \<and> a \<noteq> 0 \<and> b \<noteq> 0)
      (zip scancode_to_ascii scancode_to_ascii_shift)"
    by (simp add: scancode_to_ascii_def scancode_to_ascii_shift_def is_letter_def)
  moreover have len: "length scancode_to_ascii = 87" "length scancode_to_ascii_shift = 87"
    by (simp_all add: scancode_to_ascii_def scancode_to_ascii_shift_def)
  ultimately have t: "is_letter (scancode_to_ascii ! sc) \<Longrightarrow> is_letter (scancode_to_ascii_shift ! sc) \<and>
      scancode_to_ascii_shift ! sc = scancode_to_ascii ! sc - 0x20 \<and>
      scancode_to_ascii ! sc XOR 0x20 = scancode_to_ascii_shift ! sc \<and>
      scancode_to_ascii_shift ! sc XOR 0x20 = scancode_to_ascii ! sc \<and>
      scancode_to_ascii ! sc \<noteq> 0 \<and> scancode_to_ascii_shift ! sc \<noteq> 0" if "sc < 87" for sc
    using that by (auto simp: list_all_length)
  show ?thesis
  proof (intro allI impI)
    fix sc :: nat
    assume "sc < 87" "is_letter (scancode_to_ascii ! sc)"
    with t [of sc] u [of sc] show "key_char shift caps (of_nat sc)
        = (if shift \<noteq> caps then scancode_to_ascii ! sc - 0x20 else scancode_to_ascii ! sc) \<and>
      is_letter (scancode_to_ascii_shift ! sc)"
      by (cases shift; cases caps) (simp_all add: key_char_def Let_def)
  qed
qed

section \<open>The buffer\<close>

definition kb_inv :: "'a kb_state_scheme \<Rightarrow> bool" where
  "kb_inv s \<longleftrightarrow> length (kb_buffer s) = KEYBOARD_BUFFER_SIZE \<and> kb_head s < KEYBOARD_BUFFER_SIZE \<and>
     kb_tail s < KEYBOARD_BUFFER_SIZE"

definition kb_used :: "'a kb_state_scheme \<Rightarrow> nat" where
  "kb_used s = (kb_head s + KEYBOARD_BUFFER_SIZE - kb_tail s) mod KEYBOARD_BUFFER_SIZE"

definition kb_contents :: "'a kb_state_scheme \<Rightarrow> u8 list" where
  "kb_contents s = ring_contents (kb_buffer s) (kb_tail s) (kb_used s)"

text \<open>The two operations as a producer and a consumer; a zero from the pop means empty.\<close>

definition kb_put :: "'a kb_state_scheme \<Rightarrow> u8 \<Rightarrow> 'a kb_state_scheme \<times> bool" where
  "kb_put s c = (let s' = keyboard_buffer_push s c in (s', kb_head s' \<noteq> kb_head s))"

definition kb_get :: "'a kb_state_scheme \<Rightarrow> 'a kb_state_scheme \<times> u8 option" where
  "kb_get s = (let (s', c) = keyboard_buffer_pop s in (s', if kb_tail s \<noteq> kb_head s then Some c else None))"

lemma kb_used_cases:
  assumes "kb_inv s"
  shows "kb_used s = (if kb_tail s \<le> kb_head s then kb_head s - kb_tail s else kb_head s + KEYBOARD_BUFFER_SIZE - kb_tail s)"
proof (cases "kb_tail s \<le> kb_head s")
  case True
  then have "kb_head s + KEYBOARD_BUFFER_SIZE - kb_tail s = (kb_head s - kb_tail s) + KEYBOARD_BUFFER_SIZE" by simp
  then have "kb_used s = (kb_head s - kb_tail s) mod KEYBOARD_BUFFER_SIZE"
    unfolding kb_used_def by (simp only: mod_add_self2)
  moreover have "kb_head s - kb_tail s < KEYBOARD_BUFFER_SIZE" using assms by (simp add: kb_inv_def less_imp_diff_less)
  ultimately show ?thesis using True by simp
next
  case False
  then have "kb_head s + KEYBOARD_BUFFER_SIZE - kb_tail s < KEYBOARD_BUFFER_SIZE"
    using assms by (auto simp: kb_inv_def)
  with False show ?thesis by (simp add: kb_used_def)
qed

lemma kb_used_head:
  assumes "kb_inv s"
  shows "kb_head s = (kb_tail s + kb_used s) mod KEYBOARD_BUFFER_SIZE" "kb_used s < KEYBOARD_BUFFER_SIZE"
  using assms by (auto simp: kb_used_cases kb_inv_def)

text \<open>The next position of a ring index.\<close>

lemma kb_next: "i < KEYBOARD_BUFFER_SIZE \<Longrightarrow>
    (i + 1) mod KEYBOARD_BUFFER_SIZE = (if i + 1 = KEYBOARD_BUFFER_SIZE then 0 else i + 1)"
  by simp

lemma kb_put_law:
  assumes "kb_inv s" "kb_put s c = (s', b)"
  shows "kb_inv s' \<and> kb_contents s' = (if b then kb_contents s @ [c] else kb_contents s)"
proof (cases "(kb_head s + 1) mod KEYBOARD_BUFFER_SIZE = kb_tail s")
  case True
  with assms show ?thesis by (auto simp: kb_put_def keyboard_buffer_push_def Let_def)
next
  case False
  let ?s = "s\<lparr>kb_buffer := (kb_buffer s)[kb_head s := c], kb_head := (kb_head s + 1) mod KEYBOARD_BUFFER_SIZE\<rparr>"
  have s': "s' = ?s" "b"
    using assms False kb_next [of "kb_head s"] 
    by (auto simp: kb_put_def keyboard_buffer_push_def Let_def kb_inv_def KEYBOARD_BUFFER_SIZE_def split: if_splits)
  have inv: "kb_inv ?s" using assms(1) by (simp add: kb_inv_def KEYBOARD_BUFFER_SIZE_def)
  have used: "kb_used ?s = Suc (kb_used s)"
    using assms(1) False kb_next [of "kb_head s"] unfolding kb_used_cases [OF inv] kb_used_cases [OF assms(1)]
    by (auto simp: kb_inv_def split: if_splits)
  have "kb_contents ?s = kb_contents s @ [c]"
    using ring_write [of "kb_used s" "kb_buffer s" "kb_tail s" c] kb_used_head [OF assms(1)] assms(1)
    unfolding kb_contents_def used by (simp add: kb_inv_def)
  with inv s' show ?thesis by simp
qed

lemma kb_get_law:
  assumes "kb_inv s" "kb_get s = (s', r)"
  shows "kb_inv s' \<and> kb_contents s = (case r of None \<Rightarrow> [] | Some x \<Rightarrow> [x]) @ kb_contents s'"
proof (cases "kb_tail s = kb_head s")
  case True
  with assms show ?thesis by (auto simp: kb_get_def keyboard_buffer_pop_def)
next
  case False
  let ?s = "s\<lparr>kb_tail := (kb_tail s + 1) mod KEYBOARD_BUFFER_SIZE\<rparr>"
  have s': "s' = ?s" "r = Some (kb_buffer s ! kb_tail s)"
    using assms(2) False by (auto simp: kb_get_def keyboard_buffer_pop_def)
  have inv: "kb_inv ?s" using assms(1) by (simp add: kb_inv_def KEYBOARD_BUFFER_SIZE_def)
  have used: "kb_used s = Suc (kb_used ?s)"
    using assms(1) False kb_next [of "kb_tail s"] unfolding kb_used_cases [OF inv] kb_used_cases [OF assms(1)]
    by (auto simp: kb_inv_def split: if_splits)
  have "kb_contents s = kb_buffer s ! kb_tail s # kb_contents ?s"
    using ring_read [of "kb_tail s" "kb_buffer s" "kb_used ?s"] assms(1)
    unfolding kb_contents_def used by (simp add: kb_inv_def)
  with inv s' show ?thesis by simp
qed

interpretation kb: fifo kb_contents kb_put kb_get kb_inv
  using kb_put_law kb_get_law by unfold_locales blast+

text \<open>
  The keyboard buffer is a FIFO: characters taken followed by those still buffered are the
  characters buffered before followed by those accepted; when it is full new ones are dropped.
\<close>

theorem keyboard_buffer_fifo:
  assumes "kb_inv s" "run_fifo kb_put kb_get s ops = (s', accepted, taken)"
  shows "kb_inv s' \<and> kb_contents s @ accepted = taken @ kb_contents s'"
  using assms by (rule kb.history)

text \<open>
  \<open>keyboard_cleanup\<close> leaves the interrupt handler installed: it asks to install a null handler
  on vector 1, which \<open>irq_install_handler\<close> refuses, and the driver's vector is 33.
\<close>

theorem keyboard_cleanup_keeps_handler:
  assumes "keyboard_cleanup inb s = Some s'"
  shows "interrupt_handlers s' = interrupt_handlers s"
  using assms by (auto simp: keyboard_cleanup_def irq_install_handler_def outb_def split: if_splits option.splits)

definition demo_kb :: kb_state where
  "demo_kb = irq_state.extend cold_irq \<lparr>kb_buffer = replicate KEYBOARD_BUFFER_SIZE 0, kb_head = 0, kb_tail = 0,
     shift_pressed = False, caps_lock = False, num_lock = False, scroll_lock = False, kb_callback = NULL,
     kb_initialized = True, kb_calls = []\<rparr>"

lemma demo_kb_inv: "kb_inv demo_kb"
  by (simp add: demo_kb_def kb_inv_def KEYBOARD_BUFFER_SIZE_def cold_irq_def irq_state.defs)

theorem keyboard_buffer_fifo_witness:
  "let (s, acc, tak) = run_fifo kb_put kb_get demo_kb [Put 65, Put 66, Get, Get, Get] in kb_contents demo_kb @ acc = tak @ kb_contents s"
proof -
  obtain s acc tak where r: "run_fifo kb_put kb_get demo_kb [Put 65, Put 66, Get, Get, Get] = (s, acc, tak)"
    by (metis prod_cases3)
  then show ?thesis using keyboard_buffer_fifo [OF demo_kb_inv r] by simp
qed

theorem keyboard_cleanup_keeps_handler_witness:
  "\<exists>s'. keyboard_cleanup (\<lambda>_. 0) demo_kb = Some s' \<and> interrupt_handlers s' = interrupt_handlers demo_kb"
proof -
  have "\<exists>s'. keyboard_cleanup (\<lambda>_. 0) demo_kb = Some s'"
    by (simp add: keyboard_cleanup_def wait_port.simps)
  then show ?thesis using keyboard_cleanup_keeps_handler by blast
qed

end
