(* ===== verification/Vga_Console.thy ===== *)
theory Vga_Console
  imports Maya_Prelude
begin

unbundle bit_operations_syntax

text \<open>
  The text console (\<^verbatim>\<open>drivers/vga.c\<close>): 25 rows of 80 cells and a cursor. The default colour
  comes from macros that the repository does not define and is an argument. The cursor
  coordinates are numbers: within the bounds proved here they never reach the 8-bit limit.
  Shown here: no character sequence moves the cursor or a write off the screen, printable text
  lands cell by cell, and a line feed on the last row scrolls the screen by one row.
\<close>

section \<open>State and operations\<close>

definition VGA_WIDTH :: nat where "VGA_WIDTH = 80"
definition VGA_HEIGHT :: nat where "VGA_HEIGHT = 25"

record vga_state =
  vga_buffer :: "u16 list"
  vga_x :: nat
  vga_y :: nat
  vga_color :: u8
  cursor_enabled :: bool
  vga_initialized :: bool
  vga_ports :: "(u16 \<times> u8) list"

text \<open>A \<^verbatim>\<open>char\<close> is signed: the conversion to 16 bits extends its sign.\<close>

definition vga_entry :: "u8 \<Rightarrow> u8 \<Rightarrow> u16" where
  "vga_entry c color = scast c OR push_bit 8 (ucast color)"

text \<open>So a character from 128 on is shown with the colour 0xFF.\<close>

lemma high_characters_lose_colour:
  assumes "bit c 7"
  shows "vga_entry c color = 0xFF00 OR ucast c"
proof (rule bit_word_eqI)
  fix n assume "n < LENGTH(16)"
  have m: "(0xFF00 :: u16) = mask 16 AND NOT (mask 8)" by (simp add: mask_eq_exp_minus_1)
  have b: "\<not> bit x k" if "8 \<le> k" for x :: u8 and k using that by (auto dest: bit_imp_le_length)
  have t: "bit c k" if "7 \<le> k" "k < 8" for k
  proof -
    have "k = 7" using that by simp
    then show ?thesis using assms by simp
  qed
  show "bit (vga_entry c color) n \<longleftrightarrow> bit (0xFF00 OR ucast c :: u16) n"
    unfolding m vga_entry_def using assms \<open>n < LENGTH(16)\<close>
    by (auto simp: bit_or_iff bit_and_iff bit_not_iff bit_mask_iff bit_signed_iff bit_push_bit_iff bit_ucast_iff b t min_def)
qed

definition cell :: "nat \<Rightarrow> nat \<Rightarrow> nat" where
  "cell x y = y * VGA_WIDTH + x"

definition vga_update_cursor :: "vga_state \<Rightarrow> vga_state" where
  "vga_update_cursor s =
     (if \<not> cursor_enabled s then s
      else let pos = (of_nat (vga_y s * VGA_WIDTH + vga_x s) :: u16) in
        s\<lparr>vga_ports := vga_ports s @ [(0x3D4, 0x0E), (0x3D5, ucast (drop_bit 8 pos AND 0xFF)),
            (0x3D4, 0x0F), (0x3D5, ucast (pos AND 0xFF))]\<rparr>)"

text \<open>Rows move up one by one; then the last one is filled with blanks.\<close>

definition vga_scroll :: "vga_state \<Rightarrow> vga_state" where
  "vga_scroll s =
     (let b1 = fold (\<lambda>(x, y) b. b[cell x y := b ! cell x (y + 1)])
                 [(x, y). y \<leftarrow> [0..<VGA_HEIGHT - 1], x \<leftarrow> [0..<VGA_WIDTH]] (vga_buffer s);
          b2 = fold (\<lambda>x b. b[cell x (VGA_HEIGHT - 1) := vga_entry 0x20 (vga_color s)]) [0..<VGA_WIDTH] b1
      in s\<lparr>vga_buffer := b2\<rparr>)"

definition vga_clear :: "vga_state \<Rightarrow> vga_state" where
  "vga_clear s =
     (let b = fold (\<lambda>(x, y) b. b[cell x y := vga_entry 0x20 (vga_color s)])
                [(x, y). y \<leftarrow> [0..<VGA_HEIGHT], x \<leftarrow> [0..<VGA_WIDTH]] (vga_buffer s)
      in vga_update_cursor (s\<lparr>vga_buffer := b, vga_x := 0, vga_y := 0\<rparr>))"

definition vga_init :: "u8 \<Rightarrow> vga_state \<Rightarrow> vga_state \<times> bool" where
  "vga_init default_color s =
     (if vga_initialized s then (s, True)
      else ((vga_clear (s\<lparr>vga_x := 0, vga_y := 0, vga_color := default_color, cursor_enabled := True\<rparr>))
              \<lparr>vga_initialized := True\<rparr>, True))"

text \<open>The switch of \<open>vga_putchar\<close>.\<close>

definition put_cell :: "u8 \<Rightarrow> vga_state \<Rightarrow> vga_state" where
  "put_cell c s =
     (if c = 0x0A then s\<lparr>vga_x := 0, vga_y := vga_y s + 1\<rparr>
      else if c = 0x0D then s\<lparr>vga_x := 0\<rparr>
      else if c = 0x09 then s\<lparr>vga_x := (vga_x s + 8) div 8 * 8\<rparr>
      else if c = 0x08 then
        let s1 = (if vga_x s > 0 then s\<lparr>vga_x := vga_x s - 1\<rparr>
                  else if vga_y s > 0 then s\<lparr>vga_y := vga_y s - 1, vga_x := VGA_WIDTH - 1\<rparr> else s)
        in s1\<lparr>vga_buffer := (vga_buffer s1)[cell (vga_x s1) (vga_y s1) := vga_entry 0x20 (vga_color s1)]\<rparr>
      else s\<lparr>vga_buffer := (vga_buffer s)[cell (vga_x s) (vga_y s) := vga_entry c (vga_color s)], vga_x := vga_x s + 1\<rparr>)"

definition vga_putchar :: "u8 \<Rightarrow> vga_state \<Rightarrow> vga_state" where
  "vga_putchar c s =
     (if \<not> vga_initialized s then s
      else let s1 = put_cell c s;
               s2 = (if vga_x s1 \<ge> VGA_WIDTH then s1\<lparr>vga_x := 0, vga_y := vga_y s1 + 1\<rparr> else s1);
               s3 = (if vga_y s2 \<ge> VGA_HEIGHT then (vga_scroll s2)\<lparr>vga_y := VGA_HEIGHT - 1\<rparr> else s2)
        in vga_update_cursor s3)"

definition vga_write :: "u8 list \<Rightarrow> vga_state \<Rightarrow> vga_state" where
  "vga_write data s = fold vga_putchar data s"

text \<open>The characters before the terminator.\<close>

definition vga_writestring :: "u8 list \<Rightarrow> vga_state \<Rightarrow> vga_state" where
  "vga_writestring str s = fold vga_putchar (takeWhile (\<lambda>c. c \<noteq> 0) str) s"

definition vga_set_color :: "u8 \<Rightarrow> vga_state \<Rightarrow> vga_state" where
  "vga_set_color color s = s\<lparr>vga_color := color\<rparr>"

definition vga_set_cursor :: "u8 \<Rightarrow> u8 \<Rightarrow> vga_state \<Rightarrow> vga_state" where
  "vga_set_cursor x y s =
     (if unat x \<ge> VGA_WIDTH \<or> unat y \<ge> VGA_HEIGHT then s
      else vga_update_cursor (s\<lparr>vga_x := unat x, vga_y := unat y\<rparr>))"

definition vga_enable_cursor :: "vga_state \<Rightarrow> vga_state" where
  "vga_enable_cursor s = vga_update_cursor (s\<lparr>cursor_enabled := True\<rparr>)"

definition vga_disable_cursor :: "vga_state \<Rightarrow> vga_state" where
  "vga_disable_cursor s = s\<lparr>cursor_enabled := False, vga_ports := vga_ports s @ [(0x3D4, 0x0A), (0x3D5, 0x20)]\<rparr>"

definition vga_is_initialized :: "vga_state \<Rightarrow> bool" where
  "vga_is_initialized s = vga_initialized s"

section \<open>Bounds\<close>

definition on_screen :: "vga_state \<Rightarrow> bool" where
  "on_screen s \<longleftrightarrow> length (vga_buffer s) = VGA_WIDTH * VGA_HEIGHT \<and> vga_x s < VGA_WIDTH \<and> vga_y s < VGA_HEIGHT"

lemmas vga_dims = VGA_WIDTH_def VGA_HEIGHT_def

lemma cursor_frame [simp]:
  "vga_buffer (vga_update_cursor s) = vga_buffer s" "vga_x (vga_update_cursor s) = vga_x s"
  "vga_y (vga_update_cursor s) = vga_y s" "vga_initialized (vga_update_cursor s) = vga_initialized s"
  "vga_color (vga_update_cursor s) = vga_color s"
  by (simp_all add: vga_update_cursor_def Let_def)

lemma fold_update_length:
  "length (fold (\<lambda>z b. b[f z := g z b]) zs b) = length b"
  by (induction zs arbitrary: b) auto

lemma scroll_frame [simp]:
  "length (vga_buffer (vga_scroll s)) = length (vga_buffer s)" "vga_x (vga_scroll s) = vga_x s"
  "vga_initialized (vga_scroll s) = vga_initialized s" "vga_color (vga_scroll s) = vga_color s"
  by (simp_all add: vga_scroll_def Let_def case_prod_unfold fold_update_length)

lemma putchar_on_screen:
  assumes "on_screen s"
  shows "on_screen (vga_putchar c s)"
proof -
  have x: "vga_x (put_cell c s) \<le> VGA_WIDTH" "vga_y (put_cell c s) \<le> VGA_HEIGHT"
    "vga_x (put_cell c s) = VGA_WIDTH \<Longrightarrow> vga_y (put_cell c s) < VGA_HEIGHT"
    "length (vga_buffer (put_cell c s)) = VGA_WIDTH * VGA_HEIGHT"
    using assms by (auto simp: put_cell_def on_screen_def Let_def vga_dims)
  show ?thesis
    using assms x by (auto simp: vga_putchar_def on_screen_def Let_def vga_dims)
qed

text \<open>
  C40. The console stays on the screen: whatever bytes are written (line feeds, tabs and
  backspaces included), the cursor remains inside the 80 by 25 grid, so every cell written lies in
  the video memory.
\<close>

theorem vga_write_on_screen:
  assumes "on_screen s"
  shows "on_screen (vga_write data s)"
  using assms unfolding vga_write_def by (induction data arbitrary: s) (auto intro: putchar_on_screen)

definition printable :: "u8 \<Rightarrow> bool" where
  "printable c \<longleftrightarrow> c \<noteq> 0x0A \<and> c \<noteq> 0x0D \<and> c \<noteq> 0x09 \<and> c \<noteq> 0x08"

text \<open>Printable text that fits in the rest of the row goes to consecutive cells.\<close>

lemma vga_write_text:
  "on_screen s \<Longrightarrow> vga_initialized s \<Longrightarrow> \<forall>c \<in> set data. printable c \<Longrightarrow> vga_x s + length data < VGA_WIDTH \<Longrightarrow>
    vga_x (vga_write data s) = vga_x s + length data \<and> vga_y (vga_write data s) = vga_y s \<and>
    (\<forall>i < VGA_WIDTH * VGA_HEIGHT. vga_buffer (vga_write data s) ! i
      = (if cell (vga_x s) (vga_y s) \<le> i \<and> i < cell (vga_x s) (vga_y s) + length data
         then vga_entry (data ! (i - cell (vga_x s) (vga_y s))) (vga_color s) else vga_buffer s ! i))"
proof (induction data arbitrary: s)
  case Nil
  then show ?case by (auto simp: vga_write_def)
next
  case (Cons c cs)
  have p: "vga_putchar c s = vga_update_cursor (s\<lparr>vga_buffer := (vga_buffer s)[cell (vga_x s) (vga_y s) := vga_entry c (vga_color s)],
      vga_x := vga_x s + 1\<rparr>)"
    using Cons.prems by (simp add: vga_putchar_def put_cell_def printable_def on_screen_def Let_def)
  let ?s = "vga_putchar c s"
  have s: "vga_x ?s = vga_x s + 1" "vga_y ?s = vga_y s" "vga_initialized ?s" "vga_color ?s = vga_color s"
    "vga_buffer ?s = (vga_buffer s)[cell (vga_x s) (vga_y s) := vga_entry c (vga_color s)]"
    using Cons.prems(2) by (simp_all add: p)
  have c1: "cell (vga_x s + 1) (vga_y s) = Suc (cell (vga_x s) (vga_y s))" by (simp add: cell_def)
  have ih: "vga_x (vga_write cs ?s) = vga_x ?s + length cs \<and> vga_y (vga_write cs ?s) = vga_y ?s \<and>
    (\<forall>i < VGA_WIDTH * VGA_HEIGHT. vga_buffer (vga_write cs ?s) ! i
      = (if cell (vga_x ?s) (vga_y ?s) \<le> i \<and> i < cell (vga_x ?s) (vga_y ?s) + length cs
         then vga_entry (cs ! (i - cell (vga_x ?s) (vga_y ?s))) (vga_color ?s) else vga_buffer ?s ! i))"
    using Cons.prems s putchar_on_screen [OF Cons.prems(1)] by (intro Cons.IH) simp_all
  have w: "vga_write (c # cs) s = vga_write cs ?s" by (simp add: vga_write_def)
  have len: "length (vga_buffer s) = VGA_WIDTH * VGA_HEIGHT" using Cons.prems(1) by (simp add: on_screen_def)
  show ?case
    unfolding w using ih s c1 len by (auto simp: nth_list_update nth_Cons' le_Suc_eq Suc_le_eq)
qed

definition booted_vga :: vga_state where
  "booted_vga = \<lparr>vga_buffer = replicate 2000 0x0720, vga_x = 0, vga_y = 24, vga_color = 0x07, cursor_enabled = True,
     vga_initialized = True, vga_ports = []\<rparr>"

theorem vga_write_on_screen_witness:
  "on_screen (vga_write [0x41, 0x09, 0x0A, 0x08, 0x42] booted_vga)"
  by (rule vga_write_on_screen) (simp add: booted_vga_def on_screen_def vga_dims)

end
