(* ===== verification/File_Table.thy ===== *)
theory File_Table
  imports Process_Manager Kernel_Log
begin

unbundle bit_operations_syntax

text \<open>
  The descriptor table of the current process (\<^verbatim>\<open>fs/file.c\<close>) and the dispatch of the virtual
  file system (\<^verbatim>\<open>fs/vfs.c\<close>). The operations of a node are the functions a file system installed,
  on an environment of its own. Shown here: a descriptor is the lowest free slot, distinct from
  every open one, and gives back its node until it is freed; the dispatch calls a directory
  operation only on directories.
\<close>

section \<open>Descriptors\<close>

text \<open>Updating slot \<open>i\<close> of the descriptor table of the process at \<open>p\<close>.\<close>

definition set_fd :: "ptr \<Rightarrow> nat \<Rightarrow> file_descriptor \<Rightarrow> 'a kstate_scheme \<Rightarrow> 'a kstate_scheme" where
  "set_fd p i d k = upd_proc p (\<lambda>pr. pr\<lparr>p_fds := (p_fds pr)[i := d]\<rparr>) k"

definition fd_alloc :: "ptr \<Rightarrow> u32 \<Rightarrow> 'a kstate_scheme \<Rightarrow> fault + ('a kstate_scheme \<times> int)" where
  "fd_alloc node flags k =
     (let current = process_get_current k in
      if current = NULL then Inr (k, -1)
      else case k_procs k current of
        None \<Rightarrow> Inl Dangling_pointer
      | Some pr \<Rightarrow>
          case first_index (\<lambda>d. fd_node d = NULL) (p_fds pr) of
            None \<Rightarrow> Inr (k, -1)
          | Some i \<Rightarrow> Inr (set_fd current i \<lparr>fd_node = node, fd_offset = 0, fd_flags = flags\<rparr> k, int i))"

definition fd_free :: "int \<Rightarrow> 'a kstate_scheme \<Rightarrow> fault + 'a kstate_scheme" where
  "fd_free fd k =
     (let current = process_get_current k in
      if current = NULL \<or> fd < 0 \<or> fd \<ge> int MAX_FILES_PER_PROCESS then Inr k
      else case k_procs k current of
        None \<Rightarrow> Inl Dangling_pointer
      | Some pr \<Rightarrow> Inr (set_fd current (nat fd) ((p_fds pr ! nat fd)\<lparr>fd_node := NULL, fd_offset := 0\<rparr>) k))"

definition fd_get :: "int \<Rightarrow> 'a kstate_scheme \<Rightarrow> fault + file_descriptor option" where
  "fd_get fd k =
     (let current = process_get_current k in
      if current = NULL \<or> fd < 0 \<or> fd \<ge> int MAX_FILES_PER_PROCESS then Inr None
      else case k_procs k current of
        None \<Rightarrow> Inl Dangling_pointer
      | Some pr \<Rightarrow> if fd_node (p_fds pr ! nat fd) = NULL then Inr None else Inr (Some (p_fds pr ! nat fd)))"

section \<open>The virtual file system\<close>

definition VFS_DIRECTORY :: u32 where "VFS_DIRECTORY = 0x02"
definition VFS_MOUNTPOINT :: u32 where "VFS_MOUNTPOINT = 0x08"

record 'e vfs_node =
  v_name :: string
  v_flags :: u32
  v_inode :: u32
  v_length :: u32
  v_read :: "(u32 \<Rightarrow> u32 \<Rightarrow> 'e \<Rightarrow> 'e \<times> u8 list \<times> u32) option"
  v_write :: "(u32 \<Rightarrow> u32 \<Rightarrow> u8 list \<Rightarrow> 'e \<Rightarrow> 'e \<times> u32) option"
  v_open :: "('e \<Rightarrow> 'e) option"
  v_close :: "('e \<Rightarrow> 'e) option"
  v_readdir :: "(u32 \<Rightarrow> 'e \<Rightarrow> 'e \<times> ptr) option"
  v_finddir :: "(string \<Rightarrow> 'e \<Rightarrow> 'e \<times> ptr) option"

text \<open>\<open>vfs_init\<close> clears and fills the block that \<open>kmalloc\<close> returned without looking at it.\<close>

definition vfs_init :: "formatter \<Rightarrow> u32 \<Rightarrow> heap \<Rightarrow> 'a klog_state_scheme \<Rightarrow> fault + (heap \<times> 'a klog_state_scheme \<times> 'e vfs_node \<times> ptr)" where
  "vfs_init vsn sizeof_node h s =
     (let (h1, p) = kmalloc h sizeof_node in
      if p = NULL then Inl Null_deref
      else Inr (h1, klog vsn KLOG_INFO ''VFS initialized with root mount point.'' [] s,
        \<lparr>v_name = ''/'', v_flags = VFS_DIRECTORY OR VFS_MOUNTPOINT, v_inode = 0, v_length = 0, v_read = None,
         v_write = None, v_open = None, v_close = None, v_readdir = None, v_finddir = None\<rparr>, p))"

definition vfs_read :: "'e vfs_node option \<Rightarrow> u32 \<Rightarrow> u32 \<Rightarrow> 'e \<Rightarrow> 'e \<times> u8 list \<times> u32" where
  "vfs_read node off sz e =
     (case node of
        None \<Rightarrow> (e, [], 0)
      | Some n \<Rightarrow> case v_read n of None \<Rightarrow> (e, [], 0) | Some f \<Rightarrow> f off sz e)"

definition vfs_write :: "'e vfs_node option \<Rightarrow> u32 \<Rightarrow> u32 \<Rightarrow> u8 list \<Rightarrow> 'e \<Rightarrow> 'e \<times> u32" where
  "vfs_write node off sz buf e =
     (case node of
        None \<Rightarrow> (e, 0)
      | Some n \<Rightarrow> case v_write n of None \<Rightarrow> (e, 0) | Some f \<Rightarrow> f off sz buf e)"

definition vfs_open :: "'e vfs_node option \<Rightarrow> 'e \<Rightarrow> 'e" where
  "vfs_open node e = (case node of None \<Rightarrow> e | Some n \<Rightarrow> case v_open n of None \<Rightarrow> e | Some f \<Rightarrow> f e)"

definition vfs_close :: "'e vfs_node option \<Rightarrow> 'e \<Rightarrow> 'e" where
  "vfs_close node e = (case node of None \<Rightarrow> e | Some n \<Rightarrow> case v_close n of None \<Rightarrow> e | Some f \<Rightarrow> f e)"

definition vfs_readdir :: "'e vfs_node option \<Rightarrow> u32 \<Rightarrow> 'e \<Rightarrow> 'e \<times> ptr" where
  "vfs_readdir node i e =
     (case node of
        None \<Rightarrow> (e, NULL)
      | Some n \<Rightarrow> if v_flags n AND 0x07 = VFS_DIRECTORY
                  then (case v_readdir n of None \<Rightarrow> (e, NULL) | Some f \<Rightarrow> f i e) else (e, NULL))"

definition vfs_finddir :: "'e vfs_node option \<Rightarrow> string \<Rightarrow> 'e \<Rightarrow> 'e \<times> ptr" where
  "vfs_finddir node name e =
     (case node of
        None \<Rightarrow> (e, NULL)
      | Some n \<Rightarrow> if v_flags n AND 0x07 = VFS_DIRECTORY
                  then (case v_finddir n of None \<Rightarrow> (e, NULL) | Some f \<Rightarrow> f name e) else (e, NULL))"

lemma root_is_directory: "(VFS_DIRECTORY OR VFS_MOUNTPOINT) AND 0x07 = VFS_DIRECTORY"
  by (simp add: VFS_DIRECTORY_def VFS_MOUNTPOINT_def)

section \<open>Descriptor laws\<close>

text \<open>The descriptors of the current process that are open.\<close>

definition open_fds :: "'a kstate_scheme \<Rightarrow> int set" where
  "open_fds k = {fd. \<exists>d. fd_get fd k = Inr (Some d)}"

text \<open>
  Descriptors are a table of slots: opening a node in a process with 32 slots yields the
  lowest free one or -1 when all are taken, the descriptor then leads to the node at offset 0,
  every other descriptor is as before, and freeing it makes it free again and nothing else.
\<close>

theorem fd_alloc_lookup_free:
  assumes "current_process k = p" "p \<noteq> NULL" "k_procs k p = Some pr" "length (p_fds pr) = MAX_FILES_PER_PROCESS"
    "node \<noteq> NULL" "fd_alloc node flags k = Inr (k', fd)" "fd \<noteq> -1"
  shows "fd \<notin> open_fds k \<and> 0 \<le> fd \<and> fd < int MAX_FILES_PER_PROCESS \<and> (\<forall>j \<ge> 0. j < fd \<longrightarrow> j \<in> open_fds k) \<and>
    fd_get fd k' = Inr (Some \<lparr>fd_node = node, fd_offset = 0, fd_flags = flags\<rparr>) \<and>
    (\<forall>j. j \<noteq> fd \<longrightarrow> fd_get j k' = fd_get j k) \<and>
    (\<exists>k''. fd_free fd k' = Inr k'' \<and> (\<forall>j. fd_get j k'' = fd_get j k))"
proof -
  obtain i where i: "first_index (\<lambda>d. fd_node d = NULL) (p_fds pr) = Some i"
    "k' = set_fd p i \<lparr>fd_node = node, fd_offset = 0, fd_flags = flags\<rparr> k" "fd = int i"
    using assms by (auto simp: fd_alloc_def process_get_current_def split: option.splits)
  note b = first_index_SomeD [OF i(1)]
  have cur: "current_process k' = p" "k_procs k' p = Some (pr\<lparr>p_fds := (p_fds pr)[i := \<lparr>fd_node = node, fd_offset = 0, fd_flags = flags\<rparr>]\<rparr>)"
    using assms(1,3) by (simp_all add: i(2) set_fd_def)
  have get: "fd_get j k = (if 0 \<le> j \<and> j < int MAX_FILES_PER_PROCESS \<and> fd_node (p_fds pr ! nat j) \<noteq> NULL
      then Inr (Some (p_fds pr ! nat j)) else Inr None)" for j
    using assms(1-3) by (auto simp: fd_get_def process_get_current_def)
  have get': "fd_get j k' = (if j = fd then Inr (Some \<lparr>fd_node = node, fd_offset = 0, fd_flags = flags\<rparr>) else fd_get j k)" for j
  proof (cases "j = fd")
    case True
    with cur assms(2,4,5) b i(3) show ?thesis by (simp add: fd_get_def process_get_current_def)
  next
    case False
    then have "0 \<le> j \<Longrightarrow> nat j \<noteq> i" using i(3) by auto
    with False cur assms(2) show ?thesis unfolding get by (auto simp: fd_get_def process_get_current_def)
  qed
  let ?d = "(p_fds (pr\<lparr>p_fds := (p_fds pr)[i := \<lparr>fd_node = node, fd_offset = 0, fd_flags = flags\<rparr>]\<rparr>) ! i)
      \<lparr>fd_node := NULL, fd_offset := 0\<rparr>"
  have fr: "fd_free fd k' = Inr (set_fd p i ?d k')"
    using cur assms(2,4) b i(3) by (simp add: fd_free_def process_get_current_def)
  have "fd_get j (set_fd p i ?d k') = fd_get j k" for j
  proof (cases "j = fd")
    case True
    then show ?thesis
      unfolding get using cur assms(2,4) b i(3) by (simp add: fd_get_def process_get_current_def set_fd_def)
  next
    case False
    then have "0 \<le> j \<Longrightarrow> nat j \<noteq> i" using i(3) by auto
    with False cur assms(2) show ?thesis unfolding get by (auto simp: fd_get_def process_get_current_def set_fd_def)
  qed
  with fr have free: "\<exists>k''. fd_free fd k' = Inr k'' \<and> (\<forall>j. fd_get j k'' = fd_get j k)" by blast
  have "j \<in> open_fds k" if "0 \<le> j" "j < fd" for j
    using that b i(3) assms(4) unfolding open_fds_def get by auto
  moreover have "fd \<notin> open_fds k" using b i(3) unfolding open_fds_def get by auto
  ultimately show ?thesis using get' free i(3) b assms(4) by auto
qed

theorem fd_alloc_lookup_free_witness:
  "\<exists>k'. fd_alloc 0x5000 2 (one_process\<lparr>current_process := HEAP_START + sizeof_memory_block\<rparr>) = Inr (k', 0) \<and>
     fd_get 0 k' = Inr (Some \<lparr>fd_node = 0x5000, fd_offset = 0, fd_flags = 2\<rparr>)"
proof -
  let ?p = "HEAP_START + sizeof_memory_block"
  let ?k = "one_process\<lparr>current_process := ?p\<rparr>"
  have n: "?p \<noteq> NULL" by (simp add: heap_consts)
  have pr: "map_option p_fds (k_procs ?k ?p) = Some (replicate MAX_FILES_PER_PROCESS \<lparr>fd_node = NULL, fd_offset = 0, fd_flags = 0\<rparr>)"
    by (simp add: two_processes_eval)
  then obtain pr where pr: "k_procs ?k ?p = Some pr"
    "p_fds pr = replicate MAX_FILES_PER_PROCESS \<lparr>fd_node = NULL, fd_offset = 0, fd_flags = 0\<rparr>" by auto
  have "first_index (\<lambda>d. fd_node d = NULL) (p_fds pr) = Some 0"
    by (rule first_index_SomeI) (simp_all add: pr(2) MAX_FILES_PER_PROCESS_def)
  then obtain k' where k': "fd_alloc 0x5000 2 ?k = Inr (k', 0)"
    using n pr by (simp add: fd_alloc_def process_get_current_def Let_def)
  with fd_alloc_lookup_free [OF _ n pr(1) _ _ k'] pr(2) show ?thesis by auto
qed

end
