(* ===== verification/Syscalls.thy ===== *)
theory Syscalls
  imports Process_Manager Interrupt_Control Vga_Console
begin

unbundle bit_operations_syntax

text \<open>
  System calls (\<^verbatim>\<open>kernel/syscall.c\<close>): the registration table, the dispatcher behind interrupt
  0x80 and the eight default handlers. The handlers are named by constructors; user memory is a
  byte map. Shown here: after \<open>syscall_init\<close> no system call exists, because the registration
  refuses to work before the flag that is set last; \<open>sys_write\<close> prints exactly the user's bytes
  and touches nothing above the user limit; \<open>sys_exit\<close> removes the caller from the process table.
\<close>

section \<open>State\<close>

definition MAX_SYSCALLS :: nat where "MAX_SYSCALLS = 128"
definition SYSCALL_INT :: u8 where "SYSCALL_INT = 0x80"

datatype sys_handler = Sys_exit | Sys_write | Sys_read | Sys_open | Sys_close | Sys_getpid | Sys_sleep | Sys_fork

record syscall_entry =
  e_handler :: "sys_handler option"
  e_name :: "string option"
  e_arg_count :: nat

record sys_state = kstate +
  sys_irq :: irq_state
  sys_vga :: vga_state
  syscalls :: "syscall_entry list"
  syscall_count :: nat
  sys_initialized :: bool

section \<open>Handlers\<close>

definition sys_exit :: "formatter \<Rightarrow> u32 list \<Rightarrow> nat \<Rightarrow> sys_state \<Rightarrow> fault + (sys_state \<times> u32)" where
  "sys_exit vsn args n s =
     (if n < 1 then Inr (s, -1)
      else let s1 = s\<lparr>sys_irq := klog vsn KLOG_INFO ''Process exit requested with code: %d'' [Num (args ! 0)] (sys_irq s)\<rparr>;
               current = process_get_current s1 in
        if current \<noteq> NULL then map_sum (\<lambda>e. e) (\<lambda>s2. (s2, 0)) (process_destroy s1 current)
        else Inr (s1, 0))"

definition sys_write :: "(u32 \<Rightarrow> u8) \<Rightarrow> u32 list \<Rightarrow> nat \<Rightarrow> sys_state \<Rightarrow> sys_state \<times> u32" where
  "sys_write mem args n s =
     (if n < 3 then (s, -1)
      else let fd = args ! 0; buf = args ! 1; cnt = args ! 2 in
        if buf = NULL \<or> cnt = 0 \<or> \<not> memory_validate_user_buffer buf cnt then (s, -1)
        else if fd = 1 \<or> fd = 2
          then (s\<lparr>sys_vga := vga_write (map (\<lambda>i. mem (buf + of_nat i)) [0..<unat cnt]) (sys_vga s)\<rparr>, cnt)
        else (s, -1))"

definition sys_read :: "u32 list \<Rightarrow> nat \<Rightarrow> sys_state \<Rightarrow> sys_state \<times> u32" where
  "sys_read args n s =
     (if n < 3 then (s, -1)
      else let fd = args ! 0; buf = args ! 1; cnt = args ! 2 in
        if buf = NULL \<or> cnt = 0 \<or> \<not> memory_validate_user_buffer buf cnt then (s, -1)
        else if fd = 0 then (s, 0) else (s, -1))"

definition sys_open :: "(u32 \<Rightarrow> u8) \<Rightarrow> u32 list \<Rightarrow> nat \<Rightarrow> sys_state \<Rightarrow> sys_state \<times> u32" where
  "sys_open mem args n s =
     (if n < 2 then (s, -1)
      else let path = args ! 0 in
        if path = NULL \<or> \<not> memory_validate_user_string mem path then (s, -1) else (s, -1))"

definition sys_close :: "u32 list \<Rightarrow> nat \<Rightarrow> sys_state \<Rightarrow> sys_state \<times> u32" where
  "sys_close args n s = (if n < 1 then (s, -1) else (s, -1))"

definition sys_getpid :: "u32 list \<Rightarrow> nat \<Rightarrow> sys_state \<Rightarrow> fault + (sys_state \<times> u32)" where
  "sys_getpid args n s =
     (let current = process_get_current s in
      if current = NULL then Inr (s, -1)
      else case k_procs s current of None \<Rightarrow> Inl Dangling_pointer | Some pr \<Rightarrow> Inr (s, pid pr))"

definition sys_sleep :: "u32 list \<Rightarrow> nat \<Rightarrow> sys_state \<Rightarrow> sys_state \<times> u32" where
  "sys_sleep args n s = (if n < 1 then (s, -1) else (s, 0))"

definition sys_fork :: "u32 list \<Rightarrow> nat \<Rightarrow> sys_state \<Rightarrow> sys_state \<times> u32" where
  "sys_fork args n s = (s, -1)"

definition call_handler :: "formatter \<Rightarrow> (u32 \<Rightarrow> u8) \<Rightarrow> sys_handler \<Rightarrow> u32 list \<Rightarrow> nat \<Rightarrow> sys_state \<Rightarrow> fault + (sys_state \<times> u32)" where
  "call_handler vsn mem hn args n s =
     (case hn of
        Sys_exit \<Rightarrow> sys_exit vsn args n s
      | Sys_write \<Rightarrow> Inr (sys_write mem args n s)
      | Sys_read \<Rightarrow> Inr (sys_read args n s)
      | Sys_open \<Rightarrow> Inr (sys_open mem args n s)
      | Sys_close \<Rightarrow> Inr (sys_close args n s)
      | Sys_getpid \<Rightarrow> sys_getpid args n s
      | Sys_sleep \<Rightarrow> Inr (sys_sleep args n s)
      | Sys_fork \<Rightarrow> Inr (sys_fork args n s))"

section \<open>Registration and dispatch\<close>

definition syscall_register :: "nat \<Rightarrow> sys_handler option \<Rightarrow> string option \<Rightarrow> nat \<Rightarrow> sys_state \<Rightarrow> sys_state \<times> bool" where
  "syscall_register num hn name n s =
     (if \<not> sys_initialized s \<or> num \<ge> MAX_SYSCALLS \<or> hn = None \<or> name = None then (s, False)
      else let s1 = s\<lparr>syscalls := (syscalls s)[num := \<lparr>e_handler = hn, e_name = name, e_arg_count = n\<rparr>]\<rparr> in
        (if num \<ge> syscall_count s1 then s1\<lparr>syscall_count := num + 1\<rparr> else s1, True))"

definition default_calls :: "(nat \<times> sys_handler \<times> string \<times> nat) list" where
  "default_calls = [(0, Sys_exit, ''exit'', 1), (1, Sys_write, ''write'', 3), (2, Sys_read, ''read'', 3),
     (3, Sys_open, ''open'', 2), (4, Sys_close, ''close'', 1), (5, Sys_getpid, ''getpid'', 0),
     (6, Sys_sleep, ''sleep'', 1), (7, Sys_fork, ''fork'', 0)]"

definition syscall_init_defaults :: "sys_state \<Rightarrow> sys_state" where
  "syscall_init_defaults s =
     fold (\<lambda>(num, hn, name, n) s. fst (syscall_register num (Some hn) (Some name) n s)) default_calls s"

definition syscall_init :: "formatter \<Rightarrow> ptr \<Rightarrow> sys_state \<Rightarrow> sys_state \<times> bool" where
  "syscall_init vsn handler s =
     (if sys_initialized s then (s, True)
      else let s1 = s\<lparr>syscalls := replicate MAX_SYSCALLS \<lparr>e_handler = None, e_name = None, e_arg_count = 0\<rparr>,
                 syscall_count := 0, sys_initialized := False\<rparr>;
               s2 = s1\<lparr>sys_irq := register_interrupt_handler SYSCALL_INT handler (sys_irq s1)\<rparr>;
               s3 = syscall_init_defaults s2;
               s4 = s3\<lparr>sys_initialized := True\<rparr>
        in (s4\<lparr>sys_irq := klog vsn KLOG_INFO ''System call subsystem initialized.'' [] (sys_irq s4)\<rparr>, True))"

text \<open>The dispatcher: \<open>eax\<close> and the five argument registers in, the new \<open>eax\<close> out.\<close>

definition syscall_handler :: "formatter \<Rightarrow> (u32 \<Rightarrow> u8) \<Rightarrow> u32 \<Rightarrow> u32 list \<Rightarrow> sys_state \<Rightarrow> fault + (sys_state \<times> u32)" where
  "syscall_handler vsn mem eax regs s =
     (if unat eax \<ge> syscall_count s \<or> e_handler (syscalls s ! unat eax) = None
      then Inr (s\<lparr>sys_irq := klog vsn KLOG_WARN ''Invalid syscall: %d'' [Num eax] (sys_irq s)\<rparr>, -1)
      else call_handler vsn mem (the (e_handler (syscalls s ! unat eax))) regs (e_arg_count (syscalls s ! unat eax)) s)"

definition syscall_get_name :: "nat \<Rightarrow> sys_state \<Rightarrow> string option" where
  "syscall_get_name num s = (if num \<ge> syscall_count s then None else e_name (syscalls s ! num))"

definition syscall_get_count :: "sys_state \<Rightarrow> nat" where
  "syscall_get_count s = syscall_count s"

definition syscall_is_initialized :: "sys_state \<Rightarrow> bool" where
  "syscall_is_initialized s = sys_initialized s"

section \<open>Properties\<close>

text \<open>
  After \<open>syscall_init\<close> there are no system calls: the defaults are registered before the
  initialised flag is set, every registration is refused, and each call returns -1 with nothing
  but a warning in the log.
\<close>

theorem syscall_init_registers_nothing:
  assumes "\<not> sys_initialized s" "syscall_init vsn h s = (s', b)"
  shows "b \<and> syscall_get_count s' = 0 \<and> syscall_get_name num s' = None \<and>
    (\<exists>s''. syscall_handler vsn mem eax regs s' = Inr (s'', -1) \<and> s'' = s'\<lparr>sys_irq := sys_irq s''\<rparr>)"
proof -
  have stay: "syscall_init_defaults t = t" if "\<not> sys_initialized t" for t
    using that by (simp add: syscall_init_defaults_def default_calls_def syscall_register_def)
  have "syscall_count s' = 0" "b"
    using assms by (auto simp: syscall_init_def Let_def stay)
  then show ?thesis
    by (simp add: syscall_get_count_def syscall_get_name_def syscall_handler_def)
qed

text \<open>
  \<open>sys_write\<close> respects the user boundary: it prints to the console only for the two output
  descriptors and for a buffer that lies entirely below the kernel, then exactly the bytes of
  the buffer in order, and returns their number; in every other case nothing changes and it
  returns -1.
\<close>

theorem sys_write_prints_user_bytes:
  assumes "sys_write mem [fd, buf, cnt] 3 s = (s', r)"
  shows "(if (fd = 1 \<or> fd = 2) \<and> buf \<noteq> NULL \<and> cnt \<noteq> 0 \<and> unat buf + unat cnt \<le> 0xC0000000
     then r = cnt \<and> s' = s\<lparr>sys_vga := vga_write (map (\<lambda>i. mem (buf + of_nat i)) [0..<unat cnt]) (sys_vga s)\<rparr> \<and>
       (\<forall>i < unat cnt. unat (buf + of_nat i) < 0xC0000000)
     else r = -1 \<and> s' = s)"
proof -
  have v: "memory_validate_user_buffer buf cnt \<longleftrightarrow> buf \<noteq> NULL \<and> cnt \<noteq> 0 \<and> unat buf + unat cnt \<le> 0xC0000000"
    by (rule user_buffer_range)
  have below: "unat (buf + of_nat i) < 0xC0000000" if "i < unat cnt" "unat buf + unat cnt \<le> 0xC0000000" for i
  proof -
    have "unat (of_nat i :: u32) = i"
      using that unat_u32_less [of cnt] by (simp add: unat_of_nat take_bit_eq_mod)
    with that show ?thesis by (subst unat_plus_if') simp
  qed
  have e: "nth [fd, buf, cnt] 0 = fd" "nth [fd, buf, cnt] 1 = buf" "nth [fd, buf, cnt] 2 = cnt" by simp_all
  show ?thesis
  proof (cases "(fd = 1 \<or> fd = 2) \<and> buf \<noteq> NULL \<and> cnt \<noteq> 0 \<and> unat buf + unat cnt \<le> 0xC0000000")
    case True
    moreover have "r = cnt" "s' = s\<lparr>sys_vga := vga_write (map (\<lambda>i. mem (buf + of_nat i)) [0..<unat cnt]) (sys_vga s)\<rparr>"
      using assms True v unfolding sys_write_def Let_def e by auto
    ultimately show ?thesis using below by simp
  next
    case False
    then have "r = -1 \<and> s' = s"
      using assms v unfolding sys_write_def Let_def e by (simp split: if_split_asm; blast)
    with False show ?thesis by (simp only: if_False)
  qed
qed

text \<open>
  Calling exit takes the caller out of the process table and out of the store, leaves no
  current process, keeps the other processes and returns 0.
\<close>

theorem sys_exit_removes_caller:
  assumes "pm_inv s" "pm_initialized s" "current_process s = p" "p \<noteq> NULL"
  shows "\<exists>s'. sys_exit vsn [code] 1 s = Inr (s', 0) \<and> pm_inv s' \<and> table s' = remove1 p (table s) \<and>
    k_procs s' p = None \<and> current_process s' = NULL"
proof -
  let ?s = "s\<lparr>sys_irq := klog vsn KLOG_INFO ''Process exit requested with code: %d'' [Num code] (sys_irq s)\<rparr>"
  have "p \<in> set (table s)" using assms by (auto simp: pm_inv_def)
  then have "\<exists>s'. process_destroy ?s p = Inr s' \<and> pm_inv s' \<and> table s' = remove1 p (table ?s) \<and>
    k_procs s' p = None \<and> current_process s' = (if current_process ?s = p then NULL else current_process ?s)"
    using assms(1,2) by (intro process_destroy_step) (simp_all add: pm_inv_def table_def)
  moreover have "table ?s = table s" by (simp add: table_def)
  ultimately show ?thesis using assms(3,4) by (auto simp: sys_exit_def process_get_current_def)
qed

definition cold_sys :: sys_state where
  "cold_sys = kstate.extend scheduled \<lparr>sys_irq = cold_irq, sys_vga = booted_vga, syscalls = [], syscall_count = 0,
     sys_initialized = False\<rparr>"

theorem syscall_init_registers_nothing_witness:
  "\<exists>s''. syscall_handler (\<lambda>n f as. f) (\<lambda>_. 0) 1 [1, 0x1000, 5, 0, 0] (fst (syscall_init (\<lambda>n f as. f) 0x9000 cold_sys)) = Inr (s'', -1)"
proof -
  have "\<not> sys_initialized cold_sys" by (simp add: cold_sys_def kstate.defs)
  from syscall_init_registers_nothing [OF this prod.collapse [symmetric], of "\<lambda>n f as. f" "0x9000" 0 "\<lambda>_. 0" 1 "[1, 0x1000, 5, 0, 0]"]
  show ?thesis by blast
qed

theorem sys_write_prints_user_bytes_witness:
  "snd (sys_write (\<lambda>_. 0x41) [1, 0x1000, 5] 3 cold_sys) = 5 \<and> snd (sys_write (\<lambda>_. 0x41) [1, 0xBFFFFFFF, 5] 3 cold_sys) = -1"
  using sys_write_prints_user_bytes [OF prod.collapse [symmetric], where mem = "\<lambda>_. 0x41" and fd = 1 and buf = "0x1000" and cnt = 5 and s = cold_sys]
    sys_write_prints_user_bytes [OF prod.collapse [symmetric], where mem = "\<lambda>_. 0x41" and fd = 1 and buf = "0xBFFFFFFF" and cnt = 5 and s = cold_sys]
  by simp

lemma cold_sys_inv:
  "pm_inv cold_sys" "pm_initialized cold_sys" "current_process cold_sys = HEAP_START + sizeof_memory_block"
  "table cold_sys = [HEAP_START + sizeof_memory_block, 0xD00042CC]"
proof -
  have f: "processes cold_sys = processes scheduled" "process_count cold_sys = process_count scheduled"
    "current_process cold_sys = current_process scheduled" "k_procs cold_sys = k_procs scheduled"
    "pm_initialized cold_sys = pm_initialized scheduled"
    by (simp_all add: cold_sys_def kstate.defs)
  then have t: "table cold_sys = table scheduled" by (simp add: table_def)
  show "pm_inv cold_sys" using scheduled_inv(1) t f by (simp add: pm_inv_def)
  show "pm_initialized cold_sys" "table cold_sys = [HEAP_START + sizeof_memory_block, 0xD00042CC]"
    using scheduled_inv(2,6) f(5) t by simp_all
  show "current_process cold_sys = HEAP_START + sizeof_memory_block"
    using scheduled_inv(3,5,6) f(3) table_nth [of 0 scheduled] by simp
qed

theorem sys_exit_removes_caller_witness:
  "\<exists>s'. sys_exit (\<lambda>n f as. f) [0] 1 cold_sys = Inr (s', 0) \<and> table s' = [0xD00042CC]"
  using sys_exit_removes_caller [OF cold_sys_inv(1-3), of "\<lambda>n f as. f" 0]
  by (auto simp: cold_sys_inv(4) heap_consts)

end
