(* ===== verification/Syscall_Table.thy ===== *)
theory Syscall_Table
  imports Process_Manager Virtual_Memory
begin

text \<open>
  The static system call table (\<^verbatim>\<open>kernel/syscall_table.c\<close>): twenty-two handlers that check user
  pointers and pass the call on. The file system, the sockets and the process services they pass
  it to are not part of the repository, so they are the fields of the record \<open>services\<close>; the
  numbers \<open>SYS_*\<close> are not either, so the table is indexed by the names. Shown here: no service ever
  sees a buffer that reaches into kernel memory, whatever the user passes; and \<open>sys_accept\<close> reads
  through the user's length pointer before it checks that pointer.
\<close>

section \<open>Services and calls\<close>

datatype sysno = SYS_EXIT | SYS_FORK | SYS_READ | SYS_WRITE | SYS_OPEN | SYS_CLOSE | SYS_EXECVE | SYS_WAIT
  | SYS_PIPE | SYS_DUP | SYS_DUP2 | SYS_GETPID | SYS_BRK | SYS_SLEEP | SYS_KILL | SYS_SOCKET | SYS_BIND
  | SYS_CONNECT | SYS_LISTEN | SYS_ACCEPT | SYS_SEND | SYS_RECV

text \<open>
  The kernel functions behind the handlers; each maps the state to the new state and the result.
  \<open>sv_load\<close> is a 32-bit read of memory by the kernel itself, which may fault.
\<close>

record 's services =
  process_exit :: "ptr \<Rightarrow> u32 \<Rightarrow> 's \<Rightarrow> 's"
  process_fork :: "ptr \<Rightarrow> 's \<Rightarrow> 's \<times> ptr"
  process_execve :: "ptr \<Rightarrow> ptr \<Rightarrow> ptr \<Rightarrow> 's \<Rightarrow> 's \<times> u32"
  process_wait :: "ptr \<Rightarrow> 's \<Rightarrow> 's \<times> u32"
  process_kill :: "u32 \<Rightarrow> u32 \<Rightarrow> 's \<Rightarrow> 's \<times> u32"
  fs_read :: "u32 \<Rightarrow> ptr \<Rightarrow> u32 \<Rightarrow> 's \<Rightarrow> 's \<times> u32"
  fs_write :: "u32 \<Rightarrow> ptr \<Rightarrow> u32 \<Rightarrow> 's \<Rightarrow> 's \<times> u32"
  fs_open :: "ptr \<Rightarrow> u32 \<Rightarrow> u32 \<Rightarrow> 's \<Rightarrow> 's \<times> u32"
  fs_close :: "u32 \<Rightarrow> 's \<Rightarrow> 's \<times> u32"
  fs_dup :: "u32 \<Rightarrow> 's \<Rightarrow> 's \<times> u32"
  fs_dup2 :: "u32 \<Rightarrow> u32 \<Rightarrow> 's \<Rightarrow> 's \<times> u32"
  sv_pipe_create :: "ptr \<Rightarrow> ptr \<Rightarrow> 's \<Rightarrow> 's \<times> u32"
  memory_sbrk :: "u32 \<Rightarrow> 's \<Rightarrow> 's \<times> u32"
  sv_timer_sleep :: "u32 \<Rightarrow> 's \<Rightarrow> 's"
  net_socket :: "u32 \<Rightarrow> u32 \<Rightarrow> u32 \<Rightarrow> 's \<Rightarrow> 's \<times> u32"
  net_bind :: "u32 \<Rightarrow> ptr \<Rightarrow> u32 \<Rightarrow> 's \<Rightarrow> 's \<times> u32"
  net_connect :: "u32 \<Rightarrow> ptr \<Rightarrow> u32 \<Rightarrow> 's \<Rightarrow> 's \<times> u32"
  net_listen :: "u32 \<Rightarrow> u32 \<Rightarrow> 's \<Rightarrow> 's \<times> u32"
  net_accept :: "u32 \<Rightarrow> ptr \<Rightarrow> ptr \<Rightarrow> 's \<Rightarrow> 's \<times> u32"
  net_send :: "u32 \<Rightarrow> ptr \<Rightarrow> u32 \<Rightarrow> u32 \<Rightarrow> 's \<Rightarrow> 's \<times> u32"
  net_recv :: "u32 \<Rightarrow> ptr \<Rightarrow> u32 \<Rightarrow> u32 \<Rightarrow> 's \<Rightarrow> 's \<times> u32"
  user_ptr_ok :: "ptr \<Rightarrow> bool"
  sv_byte :: "'s \<Rightarrow> ptr \<Rightarrow> u8"
  sv_load :: "'s \<Rightarrow> ptr \<Rightarrow> u32 option"

text \<open>The table itself: the name and the number of arguments of each call.\<close>

definition syscall_table :: "(sysno \<times> string \<times> nat) list" where
  "syscall_table = [(SYS_EXIT, ''exit'', 1), (SYS_FORK, ''fork'', 0), (SYS_READ, ''read'', 3), (SYS_WRITE, ''write'', 3),
     (SYS_OPEN, ''open'', 3), (SYS_CLOSE, ''close'', 1), (SYS_EXECVE, ''execve'', 3), (SYS_WAIT, ''wait'', 1),
     (SYS_PIPE, ''pipe'', 1), (SYS_DUP, ''dup'', 1), (SYS_DUP2, ''dup2'', 2), (SYS_GETPID, ''getpid'', 0),
     (SYS_BRK, ''brk'', 1), (SYS_SLEEP, ''sleep'', 1), (SYS_KILL, ''kill'', 2), (SYS_SOCKET, ''socket'', 3),
     (SYS_BIND, ''bind'', 3), (SYS_CONNECT, ''connect'', 3), (SYS_LISTEN, ''listen'', 2), (SYS_ACCEPT, ''accept'', 3),
     (SYS_SEND, ''send'', 4), (SYS_RECV, ''recv'', 4)]"

section \<open>The handlers\<close>

definition st_exit :: "'x kstate_scheme services \<Rightarrow> u32 list \<Rightarrow> 'x kstate_scheme \<Rightarrow> fault + ('x kstate_scheme \<times> u32)" where
  "st_exit sv args s = Inr (process_exit sv (process_get_current s) (args ! 0) s, 0)"

definition st_fork :: "'x kstate_scheme services \<Rightarrow> u32 list \<Rightarrow> 'x kstate_scheme \<Rightarrow> fault + ('x kstate_scheme \<times> u32)" where
  "st_fork sv args s =
     (let (s1, child) = process_fork sv (process_get_current s) s in
      if child = NULL then Inr (s1, -1)
      else case k_procs s1 child of None \<Rightarrow> Inl Dangling_pointer | Some pr \<Rightarrow> Inr (s1, pid pr))"

definition st_read :: "'s services \<Rightarrow> u32 list \<Rightarrow> 's \<Rightarrow> fault + ('s \<times> u32)" where
  "st_read sv args s =
     (if \<not> memory_validate_user_buffer (args ! 1) (args ! 2) then Inr (s, -1)
      else Inr (fs_read sv (args ! 0) (args ! 1) (args ! 2) s))"

definition st_write :: "'s services \<Rightarrow> u32 list \<Rightarrow> 's \<Rightarrow> fault + ('s \<times> u32)" where
  "st_write sv args s =
     (if \<not> memory_validate_user_buffer (args ! 1) (args ! 2) then Inr (s, -1)
      else Inr (fs_write sv (args ! 0) (args ! 1) (args ! 2) s))"

definition st_open :: "'s services \<Rightarrow> u32 list \<Rightarrow> 's \<Rightarrow> fault + ('s \<times> u32)" where
  "st_open sv args s =
     (if \<not> memory_validate_user_string (sv_byte sv s) (args ! 0) then Inr (s, -1)
      else Inr (fs_open sv (args ! 0) (args ! 1) (args ! 2) s))"

definition st_close :: "'s services \<Rightarrow> u32 list \<Rightarrow> 's \<Rightarrow> fault + ('s \<times> u32)" where
  "st_close sv args s = Inr (fs_close sv (args ! 0) s)"

definition st_execve :: "'s services \<Rightarrow> u32 list \<Rightarrow> 's \<Rightarrow> fault + ('s \<times> u32)" where
  "st_execve sv args s =
     (if \<not> memory_validate_user_string (sv_byte sv s) (args ! 0) \<or> \<not> user_ptr_ok sv (args ! 1) \<or> \<not> user_ptr_ok sv (args ! 2)
      then Inr (s, -1)
      else Inr (process_execve sv (args ! 0) (args ! 1) (args ! 2) s))"

definition st_wait :: "'s services \<Rightarrow> u32 list \<Rightarrow> 's \<Rightarrow> fault + ('s \<times> u32)" where
  "st_wait sv args s =
     (if args ! 0 \<noteq> NULL \<and> \<not> memory_validate_user_buffer (args ! 0) 4 then Inr (s, -1)
      else Inr (process_wait sv (args ! 0) s))"

definition st_pipe :: "'s services \<Rightarrow> u32 list \<Rightarrow> 's \<Rightarrow> fault + ('s \<times> u32)" where
  "st_pipe sv args s =
     (if \<not> memory_validate_user_buffer (args ! 0) (2 * 4) then Inr (s, -1)
      else Inr (sv_pipe_create sv (args ! 0) (args ! 0 + 4) s))"

definition st_dup :: "'s services \<Rightarrow> u32 list \<Rightarrow> 's \<Rightarrow> fault + ('s \<times> u32)" where
  "st_dup sv args s = Inr (fs_dup sv (args ! 0) s)"

definition st_dup2 :: "'s services \<Rightarrow> u32 list \<Rightarrow> 's \<Rightarrow> fault + ('s \<times> u32)" where
  "st_dup2 sv args s = Inr (fs_dup2 sv (args ! 0) (args ! 1) s)"

definition st_getpid :: "'x kstate_scheme services \<Rightarrow> u32 list \<Rightarrow> 'x kstate_scheme \<Rightarrow> fault + ('x kstate_scheme \<times> u32)" where
  "st_getpid sv args s =
     (let current = process_get_current s in
      if current = NULL then Inr (s, -1)
      else case k_procs s current of None \<Rightarrow> Inl Dangling_pointer | Some pr \<Rightarrow> Inr (s, pid pr))"

definition st_brk :: "'s services \<Rightarrow> u32 list \<Rightarrow> 's \<Rightarrow> fault + ('s \<times> u32)" where
  "st_brk sv args s = Inr (memory_sbrk sv (args ! 0) s)"

definition st_sleep :: "'s services \<Rightarrow> u32 list \<Rightarrow> 's \<Rightarrow> fault + ('s \<times> u32)" where
  "st_sleep sv args s = Inr (sv_timer_sleep sv (args ! 0) s, 0)"

definition st_kill :: "'s services \<Rightarrow> u32 list \<Rightarrow> 's \<Rightarrow> fault + ('s \<times> u32)" where
  "st_kill sv args s = Inr (process_kill sv (args ! 0) (args ! 1) s)"

definition st_socket :: "'s services \<Rightarrow> u32 list \<Rightarrow> 's \<Rightarrow> fault + ('s \<times> u32)" where
  "st_socket sv args s = Inr (net_socket sv (args ! 0) (args ! 1) (args ! 2) s)"

definition st_bind :: "'s services \<Rightarrow> u32 list \<Rightarrow> 's \<Rightarrow> fault + ('s \<times> u32)" where
  "st_bind sv args s =
     (if \<not> memory_validate_user_buffer (args ! 1) (args ! 2) then Inr (s, -1)
      else Inr (net_bind sv (args ! 0) (args ! 1) (args ! 2) s))"

definition st_connect :: "'s services \<Rightarrow> u32 list \<Rightarrow> 's \<Rightarrow> fault + ('s \<times> u32)" where
  "st_connect sv args s =
     (if \<not> memory_validate_user_buffer (args ! 1) (args ! 2) then Inr (s, -1)
      else Inr (net_connect sv (args ! 0) (args ! 1) (args ! 2) s))"

definition st_listen :: "'s services \<Rightarrow> u32 list \<Rightarrow> 's \<Rightarrow> fault + ('s \<times> u32)" where
  "st_listen sv args s = Inr (net_listen sv (args ! 0) (args ! 1) s)"

text \<open>
  In \<open>sys_accept\<close> the length is read through the user's pointer as part of the first half of the
  test, before the second half checks the pointer; a read of an unmapped address faults.
\<close>

definition st_accept :: "'s services \<Rightarrow> u32 list \<Rightarrow> 's \<Rightarrow> fault + ('s \<times> u32)" where
  "st_accept sv args s =
     (let addr = args ! 1; addrlen = args ! 2;
          first = (if addr \<noteq> NULL \<and> addrlen \<noteq> NULL
                   then map_option (\<lambda>len. \<not> memory_validate_user_buffer addr len) (sv_load sv s addrlen)
                   else Some False) in
      case first of
        None \<Rightarrow> Inl Dangling_pointer
      | Some bad \<Rightarrow>
          if bad \<or> \<not> memory_validate_user_buffer addrlen 4 then Inr (s, -1)
          else Inr (net_accept sv (args ! 0) addr addrlen s))"

definition st_send :: "'s services \<Rightarrow> u32 list \<Rightarrow> 's \<Rightarrow> fault + ('s \<times> u32)" where
  "st_send sv args s =
     (if \<not> memory_validate_user_buffer (args ! 1) (args ! 2) then Inr (s, -1)
      else Inr (net_send sv (args ! 0) (args ! 1) (args ! 2) (args ! 3) s))"

definition st_recv :: "'s services \<Rightarrow> u32 list \<Rightarrow> 's \<Rightarrow> fault + ('s \<times> u32)" where
  "st_recv sv args s =
     (if \<not> memory_validate_user_buffer (args ! 1) (args ! 2) then Inr (s, -1)
      else Inr (net_recv sv (args ! 0) (args ! 1) (args ! 2) (args ! 3) s))"

text \<open>The handler pointers of the table.\<close>

definition table_handler :: "sysno \<Rightarrow> 'x kstate_scheme services \<Rightarrow> u32 list \<Rightarrow> 'x kstate_scheme \<Rightarrow> fault + ('x kstate_scheme \<times> u32)" where
  "table_handler n =
     (case n of SYS_EXIT \<Rightarrow> st_exit | SYS_FORK \<Rightarrow> st_fork | SYS_READ \<Rightarrow> st_read | SYS_WRITE \<Rightarrow> st_write
      | SYS_OPEN \<Rightarrow> st_open | SYS_CLOSE \<Rightarrow> st_close | SYS_EXECVE \<Rightarrow> st_execve | SYS_WAIT \<Rightarrow> st_wait
      | SYS_PIPE \<Rightarrow> st_pipe | SYS_DUP \<Rightarrow> st_dup | SYS_DUP2 \<Rightarrow> st_dup2 | SYS_GETPID \<Rightarrow> st_getpid
      | SYS_BRK \<Rightarrow> st_brk | SYS_SLEEP \<Rightarrow> st_sleep | SYS_KILL \<Rightarrow> st_kill | SYS_SOCKET \<Rightarrow> st_socket
      | SYS_BIND \<Rightarrow> st_bind | SYS_CONNECT \<Rightarrow> st_connect | SYS_LISTEN \<Rightarrow> st_listen | SYS_ACCEPT \<Rightarrow> st_accept
      | SYS_SEND \<Rightarrow> st_send | SYS_RECV \<Rightarrow> st_recv)"

section \<open>Properties\<close>

text \<open>
  Two service records agree on user memory when they differ at most on calls with a buffer that
  reaches into the kernel: a range for the buffers, a terminated string for the paths.
\<close>

definition in_user :: "ptr \<Rightarrow> u32 \<Rightarrow> bool" where
  "in_user p len \<longleftrightarrow> p \<noteq> NULL \<and> len \<noteq> 0 \<and> unat p + unat len \<le> 0xC0000000"

definition user_string :: "(ptr \<Rightarrow> u8) \<Rightarrow> ptr \<Rightarrow> bool" where
  "user_string mem p \<longleftrightarrow> p \<noteq> NULL \<and> (\<exists>k < 4096. unat p + k < 0xC0000000 \<and> mem (p + of_nat k) = 0)"

definition agree_on_user :: "'s services \<Rightarrow> 's services \<Rightarrow> bool" where
  "agree_on_user a b \<longleftrightarrow>
     (\<forall>fd p n s. in_user p n \<longrightarrow> fs_read a fd p n s = fs_read b fd p n s \<and> fs_write a fd p n s = fs_write b fd p n s \<and>
        net_bind a fd p n s = net_bind b fd p n s \<and> net_connect a fd p n s = net_connect b fd p n s \<and>
        (\<forall>fl. net_send a fd p n fl s = net_send b fd p n fl s \<and> net_recv a fd p n fl s = net_recv b fd p n fl s)) \<and>
     (\<forall>p s. user_string (sv_byte a s) p \<longrightarrow> (\<forall>x y. fs_open a p x y s = fs_open b p x y s \<and>
        (user_ptr_ok a x \<and> user_ptr_ok a y \<longrightarrow> process_execve a p x y s = process_execve b p x y s))) \<and>
     (\<forall>p s. p = NULL \<or> in_user p 4 \<longrightarrow> process_wait a p s = process_wait b p s) \<and>
     (\<forall>p s. in_user p 8 \<longrightarrow> sv_pipe_create a p (p + 4) s = sv_pipe_create b p (p + 4) s) \<and>
     (\<forall>fd p l s. in_user l 4 \<and> (p = NULL \<or> (\<exists>n. sv_load a s l = Some n \<and> in_user p n)) \<longrightarrow>
        net_accept a fd p l s = net_accept b fd p l s) \<and>
     process_exit a = process_exit b \<and> process_fork a = process_fork b \<and> process_kill a = process_kill b \<and>
     fs_close a = fs_close b \<and> fs_dup a = fs_dup b \<and> fs_dup2 a = fs_dup2 b \<and> memory_sbrk a = memory_sbrk b \<and>
     sv_timer_sleep a = sv_timer_sleep b \<and> net_socket a = net_socket b \<and> net_listen a = net_listen b \<and>
     user_ptr_ok a = user_ptr_ok b \<and> sv_byte a = sv_byte b \<and> sv_load a = sv_load b"

lemma valid_in_user: "memory_validate_user_buffer p len \<longleftrightarrow> in_user p len"
  unfolding in_user_def by (rule user_buffer_range)

lemma valid_user_string: "memory_validate_user_string mem p \<longleftrightarrow> user_string mem p"
  unfolding user_string_def by (rule user_string_range)

lemmas table_handler_defs = st_exit_def st_fork_def st_read_def st_write_def st_open_def st_close_def st_execve_def
  st_wait_def st_pipe_def st_dup_def st_dup2_def st_getpid_def st_brk_def st_sleep_def st_kill_def st_socket_def
  st_bind_def st_connect_def st_listen_def st_send_def st_recv_def

lemma agree_parts:
  assumes "agree_on_user a b"
  shows "in_user p n \<Longrightarrow> fs_read a fd p n s = fs_read b fd p n s"
    "in_user p n \<Longrightarrow> fs_write a fd p n s = fs_write b fd p n s"
    "in_user p n \<Longrightarrow> net_bind a fd p n s = net_bind b fd p n s"
    "in_user p n \<Longrightarrow> net_connect a fd p n s = net_connect b fd p n s"
    "in_user p n \<Longrightarrow> net_send a fd p n fl s = net_send b fd p n fl s"
    "in_user p n \<Longrightarrow> net_recv a fd p n fl s = net_recv b fd p n fl s"
    "user_string (sv_byte a s) p \<Longrightarrow> fs_open a p x y s = fs_open b p x y s"
    "user_string (sv_byte a s) p \<Longrightarrow> user_ptr_ok a x \<Longrightarrow> user_ptr_ok a y \<Longrightarrow>
      process_execve a p x y s = process_execve b p x y s"
    "p = NULL \<or> in_user p 4 \<Longrightarrow> process_wait a p s = process_wait b p s"
    "in_user p 8 \<Longrightarrow> sv_pipe_create a p (p + 4) s = sv_pipe_create b p (p + 4) s"
    "in_user l 4 \<Longrightarrow> p = NULL \<or> (\<exists>n. sv_load a s l = Some n \<and> in_user p n) \<Longrightarrow>
      net_accept a fd p l s = net_accept b fd p l s"
  using assms by (simp_all add: agree_on_user_def) auto

lemma agree_same:
  assumes "agree_on_user a b"
  shows "process_exit a = process_exit b" "process_fork a = process_fork b" "process_kill a = process_kill b"
    "fs_close a = fs_close b" "fs_dup a = fs_dup b" "fs_dup2 a = fs_dup2 b" "memory_sbrk a = memory_sbrk b"
    "sv_timer_sleep a = sv_timer_sleep b" "net_socket a = net_socket b" "net_listen a = net_listen b"
    "user_ptr_ok a = user_ptr_ok b" "sv_byte a = sv_byte b" "sv_load a = sv_load b"
  using assms by (simp_all add: agree_on_user_def)

lemma st_accept_agree:
  assumes "agree_on_user a b"
  shows "st_accept a args s = st_accept b args s"
  using agree_same(13) [OF assms] agree_parts(11) [OF assms, of "args ! 2" "args ! 1" s "args ! 0"]
  by (cases "sv_load b s (args ! 2)") (auto simp: st_accept_def Let_def valid_in_user in_user_def)

text \<open>
  C10. No system call lets a service touch kernel memory: two kernels whose services differ only on
  buffers and strings outside user memory cannot be told apart by any call of the table, with any
  arguments, in any state.
\<close>

theorem table_calls_reach_user_memory_only:
  assumes "agree_on_user a b"
  shows "table_handler n a args s = table_handler n b args s"
proof (cases "n = SYS_ACCEPT")
  case True
  with st_accept_agree [OF assms] show ?thesis by (simp add: table_handler_def)
next
  case False
  then show ?thesis
    using agree_parts [OF assms] agree_same [OF assms]
    by (cases n) (simp_all add: table_handler_def table_handler_defs valid_in_user valid_user_string)
qed

text \<open>
  \<open>sys_accept\<close> trusts its length pointer too early: with a non-null address and a non-null but
  unmapped length pointer the kernel itself faults, where every other call with a bad buffer
  pointer fails with -1 and leaves the state alone.
\<close>

theorem accept_faults_on_bad_length_pointer:
  assumes "addr \<noteq> NULL" "addrlen \<noteq> NULL" "sv_load sv s addrlen = None" "unat addrlen \<ge> 0xC0000000"
  shows "table_handler SYS_ACCEPT sv [fd, addr, addrlen] s = Inl Dangling_pointer \<and>
    (\<forall>call \<in> {SYS_READ, SYS_WRITE, SYS_BIND, SYS_CONNECT, SYS_SEND, SYS_RECV}.
       table_handler call sv [fd, addrlen, n, 0] s = Inr (s, -1))"
proof -
  have bad: "\<not> in_user addrlen n" for n
  proof (cases "n = 0")
    case False
    then have "0 < unat n" by (simp add: unat_gt_0)
    with assms(4) show ?thesis by (simp add: in_user_def)
  qed (simp add: in_user_def)
  show ?thesis
    using assms(1-3) bad
    by (auto simp: table_handler_def table_handler_defs st_accept_def valid_in_user)
qed

text \<open>Services that do nothing, except that reading a file into kernel memory would be noticed.\<close>

definition idle_services :: "(ptr \<Rightarrow> u32 \<Rightarrow> 's \<Rightarrow> 's) \<Rightarrow> 's services" where
  "idle_services store =
     \<lparr>process_exit = \<lambda>p c s. s, process_fork = \<lambda>p s. (s, NULL), process_execve = \<lambda>p a e s. (s, -1),
      process_wait = \<lambda>p s. (s, -1), process_kill = \<lambda>p g s. (s, -1),
      fs_read = \<lambda>fd p n s. (if in_user p n then s else store p n s, n), fs_write = \<lambda>fd p n s. (s, n),
      fs_open = \<lambda>p fl m s. (s, -1), fs_close = \<lambda>fd s. (s, 0), fs_dup = \<lambda>fd s. (s, -1), fs_dup2 = \<lambda>a b s. (s, -1),
      sv_pipe_create = \<lambda>a b s. (s, 0), memory_sbrk = \<lambda>n s. (s, -1), sv_timer_sleep = \<lambda>n s. s,
      net_socket = \<lambda>a b c s. (s, -1), net_bind = \<lambda>fd p n s. (s, 0), net_connect = \<lambda>fd p n s. (s, 0),
      net_listen = \<lambda>a b s. (s, 0), net_accept = \<lambda>fd p l s. (s, -1), net_send = \<lambda>fd p n fl s. (s, n),
      net_recv = \<lambda>fd p n fl s. (s, 0), user_ptr_ok = \<lambda>p. p \<noteq> NULL, sv_byte = \<lambda>s p. 0,
      sv_load = \<lambda>s p. if p < 0xC0000000 then Some 16 else None\<rparr>"

theorem table_calls_reach_user_memory_only_witness:
  "table_handler SYS_READ (idle_services (\<lambda>p n s. s)) [0, 0xC0100000, 64] idle_kstate =
   table_handler SYS_READ (idle_services (\<lambda>p n s. s\<lparr>current_process := p\<rparr>)) [0, 0xC0100000, 64] idle_kstate"
proof -
  have "agree_on_user (idle_services (\<lambda>p n s. s)) (idle_services (\<lambda>p n s. s\<lparr>current_process := p\<rparr>))"
    by (simp add: agree_on_user_def idle_services_def)
  from table_calls_reach_user_memory_only [OF this] show ?thesis .
qed

theorem accept_faults_on_bad_length_pointer_witness:
  "table_handler SYS_ACCEPT (idle_services (\<lambda>p n s. s)) [3, 0x1000, 0xC0100000] idle_kstate = Inl Dangling_pointer \<and>
   table_handler SYS_READ (idle_services (\<lambda>p n s. s)) [3, 0xC0100000, 64, 0] idle_kstate = Inr (idle_kstate, -1)"
  using accept_faults_on_bad_length_pointer
    [of "0x1000" "0xC0100000" "idle_services (\<lambda>p n s. s)" idle_kstate 3 64]
  by (simp add: idle_services_def)

end
