(* ===== verification/Net_Checksum.thy ===== *)
theory Net_Checksum
  imports Maya_Prelude
begin

unbundle bit_operations_syntax

text \<open>
  Bytes on the wire and the Internet checksum. The packed header structs of \<^verbatim>\<open>net/\<close> are byte lists,
  their fields stored low byte first as the processor does; \<open>ip_checksum\<close> of \<^verbatim>\<open>net/ip.c\<close>, which
  \<^verbatim>\<open>net/icmp.c\<close> repeats word for word, adds 16-bit words in a 32-bit sum and folds it. Shown here:
  the folding loop ends and computes the sum modulo 65535, a packet that carries its own
  checksum sums to zero, and the checksum sees every change of one 16-bit word, except the
  exchange of 0 and 0xFFFF that this sum cannot see.
\<close>

section \<open>Fields of packed structs\<close>

definition le16 :: "u16 \<Rightarrow> u8 list" where
  "le16 x = [ucast x, ucast (drop_bit 8 x)]"

definition le32 :: "u32 \<Rightarrow> u8 list" where
  "le32 x = [ucast x, ucast (drop_bit 8 x), ucast (drop_bit 16 x), ucast (drop_bit 24 x)]"

definition get16 :: "u8 list \<Rightarrow> nat \<Rightarrow> u16" where
  "get16 bs i = ucast (bs ! i) OR push_bit 8 (ucast (bs ! (i + 1)))"

definition get32 :: "u8 list \<Rightarrow> nat \<Rightarrow> u32" where
  "get32 bs i = ucast (bs ! i) OR push_bit 8 (ucast (bs ! (i + 1))) OR
     push_bit 16 (ucast (bs ! (i + 2))) OR push_bit 24 (ucast (bs ! (i + 3)))"

lemma length_le [simp]: "length (le16 x) = 2" "length (le32 y) = 4"
  by (simp_all add: le16_def le32_def)

lemma get16_le16_pair [simp]: "(ucast (ucast x :: u8) :: u16) OR push_bit 8 (ucast (ucast (drop_bit 8 x) :: u8)) = (x :: u16)"
  by (rule bit_word_eqI) (auto simp: bit_simps)

lemma get32_le32_quad [simp]:
  "(ucast (ucast x :: u8) :: u32) OR push_bit 8 (ucast (ucast (drop_bit 8 x) :: u8)) OR
     push_bit 16 (ucast (ucast (drop_bit 16 x) :: u8)) OR push_bit 24 (ucast (ucast (drop_bit 24 x) :: u8)) = (x :: u32)"
proof (rule bit_word_eqI)
  fix n
  assume "n < LENGTH(32)"
  then consider "n < 8" | "8 \<le> n" "n < 16" | "16 \<le> n" "n < 24" | "24 \<le> n" "n < 32" by fastforce
  then show "bit ((ucast (ucast x :: u8) :: u32) OR push_bit 8 (ucast (ucast (drop_bit 8 x) :: u8)) OR
     push_bit 16 (ucast (ucast (drop_bit 16 x) :: u8)) OR push_bit 24 (ucast (ucast (drop_bit 24 x) :: u8))) n = bit x n"
    by cases (auto simp: bit_simps)
qed

lemma get16_append [simp]:
  "length xs = i \<Longrightarrow> get16 (xs @ le16 x @ ys) i = x"
  by (simp add: get16_def le16_def nth_append)

lemma get32_append [simp]:
  "length xs = i \<Longrightarrow> get32 (xs @ le32 x @ ys) i = x"
  by (simp add: get32_def le32_def nth_append)

section \<open>The checksum\<close>

text \<open>The loop over the words; an odd last byte counts as a low byte.\<close>

fun sum_words :: "u32 \<Rightarrow> u8 list \<Rightarrow> u32" where
  "sum_words acc [] = acc"
| "sum_words acc [b] = acc + ucast b"
| "sum_words acc (a # b # bs) = sum_words (acc + ucast (ucast a OR push_bit 8 (ucast b) :: u16)) bs"

lemma unat_u8_less: "unat (x :: u8) < 256"
  using unsigned_less [of x] by simp

lemma unat_u16_less: "unat (x :: u16) < 65536"
  using unsigned_less [of x] by simp

lemma unat_low16: "unat ((s :: u32) AND 0xFFFF) = unat s mod 65536"
proof -
  have "s AND 0xFFFF = take_bit 16 s" by (simp add: take_bit_eq_mask mask_numeral)
  then show ?thesis by (simp only: unsigned_take_bit_eq) (simp add: take_bit_eq_mod)
qed

lemma unat_split16: "unat (s :: u32) = 65536 * unat (drop_bit 16 s) + unat (s AND 0xFFFF)"
proof -
  have "unat (drop_bit 16 s) = unat s div 65536" by (simp add: drop_bit_eq_div unat_div)
  then show ?thesis unfolding unat_low16 by simp
qed

lemma unat_fold_step: "unat ((s AND 0xFFFF) + drop_bit 16 s) = unat (s AND 0xFFFF) + unat (drop_bit 16 (s :: u32))"
  using unat_split16 [of s] unat_u32_less [of s] by (subst unat_plus_if') simp

function fold_sum :: "u32 \<Rightarrow> u32" where
  "fold_sum s = (if drop_bit 16 s \<noteq> 0 then fold_sum ((s AND 0xFFFF) + drop_bit 16 s) else s)"
  by auto
termination
proof (relation "measure unat")
  fix s :: u32
  assume "drop_bit 16 s \<noteq> 0"
  then have "0 < unat (drop_bit 16 s)" by (simp add: unat_gt_0)
  then show "((s AND 0xFFFF) + drop_bit 16 s, s) \<in> measure unat"
    unfolding in_measure unat_fold_step by (subst (3) unat_split16) simp
qed simp

declare fold_sum.simps [simp del]

definition ip_checksum :: "u8 list \<Rightarrow> u16" where
  "ip_checksum data = ucast (NOT (fold_sum (sum_words 0 data)))"

section \<open>What the folding computes\<close>

text \<open>The representative between 1 and 65535 of a sum, or 0 for the zero sum.\<close>

definition residue :: "nat \<Rightarrow> nat" where
  "residue n = (if n = 0 then 0 else (n - 1) mod 65535 + 1)"

lemma residue_small: "n < 65536 \<Longrightarrow> residue n = n"
  by (auto simp: residue_def)

lemma residue_step: "residue (65536 * q + r) = residue (q + r)"
proof (cases "q + r = 0")
  case False
  then obtain m where "q + r = Suc m" by (cases "q + r") auto
  then have "65536 * q + r - 1 = m + 65535 * q" by simp
  moreover have "65536 * q + r \<noteq> 0" using False by simp
  ultimately show ?thesis using \<open>q + r = Suc m\<close> by (simp only: residue_def) simp
qed simp

lemma unat_fold_sum: "unat (fold_sum s) = residue (unat s)"
proof (induction s rule: fold_sum.induct)
  case (1 s)
  show ?case
  proof (cases "drop_bit 16 s = 0")
    case True
    then have "unat s < 65536" using unat_split16 [of s] by (simp add: unat_low16)
    with True show ?thesis by (simp add: fold_sum.simps [of s] residue_small)
  next
    case False
    have "unat (fold_sum s) = residue (unat ((s AND 0xFFFF) + drop_bit 16 s))"
      using False 1 by (simp add: fold_sum.simps [of s])
    also have "\<dots> = residue (unat s)"
      using residue_step [of "unat (drop_bit 16 s)" "unat (s AND 0xFFFF)"] unat_split16 [of s]
      unfolding unat_fold_step by (simp only: add.commute [of "unat (s AND 0xFFFF)"])
    finally show ?thesis .
  qed
qed

lemma fold_sum_less: "unat (fold_sum s) < 65536"
  unfolding unat_fold_sum residue_def by (simp add: less_Suc_eq_le [symmetric]) 

section \<open>The sum of a byte list\<close>

text \<open>The sum as a natural number; no 32-bit overflow happens below 64 kilobytes of data.\<close>

fun nat_sum :: "u8 list \<Rightarrow> nat" where
  "nat_sum [] = 0"
| "nat_sum [b] = unat b"
| "nat_sum (a # b # bs) = unat a + 256 * unat b + nat_sum bs"

lemma unat_le_pair: "unat (ucast (a :: u8) OR push_bit 8 (ucast (b :: u8)) :: u16) = unat a + 256 * unat b"
proof -
  have "(ucast a OR push_bit 8 (ucast b) :: u16) = ucast a + push_bit 8 (ucast b)"
    by (rule disjunctive_add_eq_or [symmetric]) (rule bit_word_eqI, auto simp: bit_simps dest: bit_imp_le_length)
  moreover have "unat (ucast a :: u16) = unat a" "unat (push_bit 8 (ucast b) :: u16) = 256 * unat b"
    using unat_u8_less [of a] unat_u8_less [of b]
    by (simp_all add: unsigned_ucast_eq unat_word_ariths(2) take_bit_eq_mod push_bit_eq_mult)
  ultimately show ?thesis using unat_u8_less [of a] unat_u8_less [of b] by (simp add: unat_plus_if')
qed

lemma nat_sum_le: "nat_sum bs \<le> 65535 * ((length bs + 1) div 2)"
proof (induction bs rule: nat_sum.induct)
  case (2 b)
  then show ?case using unat_u8_less [of b] by simp
next
  case (3 a b bs)
  then show ?case using unat_u8_less [of a] unat_u8_less [of b] by simp
qed simp

lemma unat_sum_words:
  "unat acc + nat_sum bs < 2 ^ 32 \<Longrightarrow> unat (sum_words acc bs) = unat acc + nat_sum bs"
proof (induction acc bs rule: sum_words.induct)
  case (2 acc b)
  then show ?case by (simp add: unat_plus_if' unat_ucast_u8)
next
  case (3 acc a b bs)
  have "unat (ucast (ucast a OR push_bit 8 (ucast b) :: u16) :: u32) = unat a + 256 * unat b"
    using unat_le_pair [of a b] unat_u16_less [of "ucast a OR push_bit 8 (ucast b) :: u16"]
    by (simp add: unsigned_ucast_eq take_bit_eq_mod)
  then have "unat (acc + ucast (ucast a OR push_bit 8 (ucast b) :: u16)) = unat acc + unat a + 256 * unat b"
    using 3(2) by (simp add: unat_plus_if')
  with 3 show ?case by simp
qed simp

text \<open>A packet small enough for its sum.\<close>

definition summable :: "u8 list \<Rightarrow> bool" where
  "summable bs \<longleftrightarrow> length bs \<le> 65536"

lemma unat_sum_words0: "summable bs \<Longrightarrow> unat (sum_words 0 bs) = nat_sum bs"
  using nat_sum_le [of bs] unat_sum_words [of 0 bs] by (simp add: summable_def)

lemma unat_not32: "unat (NOT (x :: u32)) = 2 ^ 32 - 1 - unat x"
proof -
  have "unat (-1 - x) = unat (-1 :: u32) - unat x" by (rule unat_sub) simp
  moreover have "NOT x = -1 - x" by (simp add: not_eq_complement)
  moreover have "unat (-1 :: u32) = 2 ^ 32 - 1" by (simp add: unsigned_minus_1_eq_mask mask_eq_exp_minus_1)
  ultimately show ?thesis by (simp only:)
qed

lemma low_half_complement:
  assumes "n < 65536"
  shows "(4294967295 - n) mod 65536 = 65535 - (n :: nat)"
proof -
  have "4294967295 - n = (65535 - n) + 65535 * 65536" using assms by simp
  then have "(4294967295 - n) mod 65536 = (65535 - n) mod 65536" by (simp only: mod_mult_self1)
  then show ?thesis by simp
qed

lemma unat_ip_checksum:
  assumes "summable bs"
  shows "unat (ip_checksum bs) = 65535 - residue (nat_sum bs)"
proof -
  let ?f = "fold_sum (sum_words 0 bs)"
  have f: "unat ?f = residue (nat_sum bs)" using assms by (simp add: unat_fold_sum unat_sum_words0)
  have "unat (ip_checksum bs) = (2 ^ 32 - 1 - unat ?f) mod 65536"
    unfolding ip_checksum_def by (simp add: unsigned_ucast_eq take_bit_eq_mod unat_not32)
  also have "\<dots> = 65535 - unat ?f"
    using low_half_complement [OF fold_sum_less] by simp
  finally show ?thesis by (simp only: f)
qed

lemma nat_sum_append: "even (length xs) \<Longrightarrow> nat_sum (xs @ ys) = nat_sum xs + nat_sum ys"
  by (induction xs rule: nat_sum.induct) auto

lemma nat_sum_le16 [simp]: "nat_sum (le16 x @ bs) = unat x + nat_sum bs"
  using unat_le_pair [of "ucast x" "ucast (drop_bit 8 x)"] by (simp add: le16_def)

lemma residue_less: "residue n < 65536"
  unfolding residue_def by (simp add: less_Suc_eq_le [symmetric])

lemma residue_add: "residue (residue n + m) = residue (n + m)"
proof (cases "n = 0")
  case True
  then show ?thesis by (simp add: residue_def)
next
  case False
  have "residue n + m - 1 = (n - 1) mod 65535 + m" "n + m - 1 = (n - 1) + m" "residue n + m \<noteq> 0"
    using False by (simp_all add: residue_def)
  then show ?thesis using False unfolding residue_def [of "residue n + m"] residue_def [of "n + m"]
    by (simp add: mod_simps)
qed

lemma residue_eq_cases:
  assumes "residue (n + x) = residue (n + y)" "x \<le> y" "y \<le> 65535"
  shows "x = y \<or> (x = 0 \<and> y = 65535)"
proof (cases "n + x = 0")
  case True
  with assms(1) have "y = 0" by (auto simp: residue_def split: if_splits)
  with assms(2) show ?thesis by simp
next
  case False
  then have "(n + x - 1) mod 65535 = (n + y - 1) mod 65535"
    using assms(1,2) by (simp add: residue_def split: if_splits)
  moreover have "n + y - 1 - (n + x - 1) = y - x" "n + x - 1 \<le> n + y - 1" using assms(2) False by simp_all
  ultimately have "65535 dvd y - x" using mod_eq_dvd_iff_nat [of "n + x - 1" "n + y - 1" 65535] by simp
  then have "y - x = 0 \<or> 65535 \<le> y - x" by (cases "y - x = 0") (auto dest: dvd_imp_le)
  with assms(2,3) show ?thesis by linarith
qed

section \<open>Properties\<close>

text \<open>
  The checksum of a packet with its own checksum filled in is zero, wherever the field lies on
  a word boundary: what the senders write is what every receiver that sums the whole packet
  accepts.
\<close>

theorem ip_checksum_self_verifies:
  assumes "even (length a)" "summable (a @ le16 0 @ b)"
  shows "ip_checksum (a @ le16 (ip_checksum (a @ le16 0 @ b)) @ b) = 0"
proof -
  let ?n = "nat_sum a + nat_sum b" and ?c = "ip_checksum (a @ le16 0 @ b)"
  have c: "unat ?c = 65535 - residue ?n"
    using unat_ip_checksum [OF assms(2)] by (simp add: nat_sum_append [OF assms(1)])
  have "summable (a @ le16 ?c @ b)" using assms(2) by (simp add: summable_def)
  then have "unat (ip_checksum (a @ le16 ?c @ b)) = 65535 - residue (?n + unat ?c)"
    by (subst unat_ip_checksum) (simp_all add: nat_sum_append [OF assms(1)] ac_simps)
  also have "residue (?n + unat ?c) = residue (residue ?n + (65535 - residue ?n))"
    unfolding c by (simp only: residue_add)
  also have "\<dots> = 65535" using residue_less [of ?n] by (simp add: residue_def)
  finally show ?thesis by (simp add: unat_eq_0)
qed

theorem ip_checksum_self_verifies_witness:
  "ip_checksum ([0x45, 0] @ le16 (ip_checksum ([0x45, 0] @ le16 0 @ [0xAB])) @ [0xAB]) = 0"
  using ip_checksum_self_verifies [of "[0x45, 0]" "[0xAB]"] by (simp add: summable_def)

text \<open>
  The checksum sees every change of one aligned 16-bit word of a packet, whatever surrounds it,
  with the one exception any such sum has: 0 replaced by 0xFFFF or the reverse.
\<close>

theorem ip_checksum_detects_word_change:
  assumes "even (length a)" "summable (a @ le16 w @ b)" "w \<noteq> w'" "{w, w'} \<noteq> {0, 0xFFFF}"
  shows "ip_checksum (a @ le16 w @ b) \<noteq> ip_checksum (a @ le16 w' @ b)"
proof
  let ?n = "nat_sum a + nat_sum b"
  assume "ip_checksum (a @ le16 w @ b) = ip_checksum (a @ le16 w' @ b)"
  then have "unat (ip_checksum (a @ le16 w @ b)) = unat (ip_checksum (a @ le16 w' @ b))" by simp
  moreover have "summable (a @ le16 w' @ b)" using assms(2) by (simp add: summable_def)
  ultimately have "65535 - residue (?n + unat w) = 65535 - residue (?n + unat w')"
    using assms(2) by (simp add: unat_ip_checksum nat_sum_append [OF assms(1)] ac_simps)
  then have r: "residue (?n + unat w) = residue (?n + unat w')"
    using residue_less [of "?n + unat w"] residue_less [of "?n + unat w'"] by simp
  have b: "unat w \<le> 65535" "unat w' \<le> 65535" using unat_u16_less [of w] unat_u16_less [of w'] by simp_all
  have m: "unat v = 65535 \<longleftrightarrow> v = 0xFFFF" for v :: u16 by (simp add: word_unat_eq_iff)
  from residue_eq_cases [OF r _ b(2)] residue_eq_cases [OF r [symmetric] _ b(1)]
  have "unat w = unat w' \<or> unat w = 0 \<and> unat w' = 65535 \<or> unat w' = 0 \<and> unat w = 65535" by linarith
  moreover have "unat w \<noteq> unat w'" using assms(3) by (simp add: word_unat_eq_iff)
  ultimately have "w = 0 \<and> w' = 0xFFFF \<or> w' = 0 \<and> w = 0xFFFF" unfolding m by (simp add: unat_eq_0)
  then show False using assms(4) by auto
qed

theorem ip_checksum_detects_word_change_witness:
  "ip_checksum [0x45, 0, 0x12, 0x34, 7] \<noteq> ip_checksum [0x45, 0, 0x12, 0x35, 7]"
proof -
  have "{0x3412, 0x3512} \<noteq> {0, 0xFFFF :: u16}" by (simp add: doubleton_eq_iff)
  moreover have "le16 0x3412 = [0x12, 0x34]" "le16 0x3512 = [0x12, 0x35]"
    unfolding le16_def by code_simp+
  ultimately show ?thesis
    using ip_checksum_detects_word_change [of "[0x45, 0]" "0x3412" "[7]" "0x3512"]
    by (simp add: summable_def)
qed

end
