(* ===== verification/Ethernet.thy ===== *)
theory Ethernet
  imports Kernel_Heap Kernel_Log Net_Checksum
begin

unbundle bit_operations_syntax

text \<open>
  The lowest network layers: the RTL8139 driver (\<^verbatim>\<open>drivers/rtl8139.c\<close>), the card selection of
  \<^verbatim>\<open>net/nic.c\<close> and the frames of \<^verbatim>\<open>net/ethernet.c\<close>. A transmission is the two register writes the
  driver makes; \<open>tx_log\<close> records them together with the bytes that were in the buffer at that
  moment. A buffer is given by its contents, null pointers are \<open>None\<close>; sizes of buffers in a
  32-bit address space do not overflow the sums of the code, so they are natural numbers.
  Shown here: what a frame sent to a station or to everybody delivers there, the bounds of its
  size, that sending restores the heap, and that the buffer is already free when the card reads it.
\<close>

section \<open>State\<close>

record tx =
  tx_desc_reg :: u32
  tx_addr :: ptr
  tx_status_reg :: u32
  tx_status :: u32
  tx_frame :: "u8 list"

record eth_net = klog_state +
  n_heap :: heap
  rtl_io_base :: u32
  rtl_mac :: "u8 list"
  rtl_rx_buffer :: ptr
  rtl_initialized :: bool
  rtl_tx_num :: u8
  io_writes :: "(u32 \<times> u32) list"
  tx_log :: "tx list"
  nic_mac_addr :: "u8 list"
  is_rtl8139 :: bool
  nic_initialized :: bool
  nic_rx_callback :: ptr
  eth_mac :: "u8 list"
  eth_rx_callback :: ptr
  eth_initialized :: bool
  net_ticks :: u32

section \<open>The RTL8139 driver\<close>

text \<open>
  What the driver finds: the base address register of the card if there is one, the
  configuration writes that enable bus mastering, whether the reset bit clears and the bytes of
  the hardware address.
\<close>

record rtl_hw =
  hw_bar0 :: "u32 option"
  hw_bus_master :: "(u32 \<times> u32) list"
  hw_reset_clears :: bool
  hw_mac_byte :: "nat \<Rightarrow> u8"

definition RX_BUF_SIZE :: u32 where "RX_BUF_SIZE = 8192"

definition rtl8139_init :: "formatter \<Rightarrow> rtl_hw \<Rightarrow> 'a eth_net_scheme \<Rightarrow> fault + ('a eth_net_scheme \<times> bool)" where
  "rtl8139_init vsn hw s =
     (if rtl_initialized s then Inr (s, True)
      else case hw_bar0 hw of
        None \<Rightarrow> Inr (klog vsn KLOG_WARN ''RTL8139 network card not found.'' [] s, False)
      | Some bar \<Rightarrow>
          let io = bar AND NOT 3;
              s1 = s\<lparr>rtl_io_base := io, io_writes := io_writes s @ hw_bus_master hw @ [(io + 0x52, 0x00), (io + 0x37, 0x10)]\<rparr> in
          if \<not> hw_reset_clears hw then Inl Spins_forever
          else let (h, p) = kmalloc (n_heap s1) (RX_BUF_SIZE + 1514 + 16) in
            if p = NULL then Inl Null_deref
            else let s2 = s1\<lparr>n_heap := h, rtl_rx_buffer := p, io_writes := io_writes s1 @
                       [(io + 0x30, p), (io + 0x3C, 0x0005), (io + 0x44, 0xf OR push_bit 7 1), (io + 0x37, 0x0C)],
                       rtl_mac := map (hw_mac_byte hw) [0..<6], rtl_initialized := True\<rparr>
              in Inr (klog vsn KLOG_INFO ''RTL8139 initialized. MAC: %02x:%02x:%02x:%02x:%02x:%02x''
                   (map (\<lambda>b. Num (ucast b)) (rtl_mac s2)) s2, True))"

definition rtl8139_send :: "ptr \<Rightarrow> u8 list \<Rightarrow> 'a eth_net_scheme \<Rightarrow> 'a eth_net_scheme" where
  "rtl8139_send p bytes s =
     (if \<not> rtl_initialized s then s
      else let desc = rtl_io_base s + 0x20 + ucast (rtl_tx_num s) * 4;
               status = rtl_io_base s + 0x10 + ucast (rtl_tx_num s) * 4;
               len = of_nat (length bytes) AND 0x1FFF
        in s\<lparr>io_writes := io_writes s @ [(desc, p), (status, len)],
             tx_log := tx_log s @ [\<lparr>tx_desc_reg = desc, tx_addr = p, tx_status_reg = status, tx_status = len, tx_frame = bytes\<rparr>],
             rtl_tx_num := (rtl_tx_num s + 1) mod 4\<rparr>)"

definition rtl8139_receive_handler :: "u32 \<Rightarrow> 'a eth_net_scheme \<Rightarrow> 'a eth_net_scheme" where
  "rtl8139_receive_handler status s =
     (if \<not> rtl_initialized s then s else s\<lparr>io_writes := io_writes s @ [(rtl_io_base s + 0x3E, status)]\<rparr>)"

definition rtl8139_get_mac_address :: "'a eth_net_scheme \<Rightarrow> u8 list" where
  "rtl8139_get_mac_address s = rtl_mac s"

section \<open>Network card selection\<close>

definition nic_init :: "formatter \<Rightarrow> rtl_hw \<Rightarrow> 'a eth_net_scheme \<Rightarrow> fault + ('a eth_net_scheme \<times> bool)" where
  "nic_init vsn hw s =
     (if nic_initialized s then Inr (s, True)
      else case rtl8139_init vsn hw s of
        Inl f \<Rightarrow> Inl f
      | Inr (s1, True) \<Rightarrow>
          Inr (klog vsn KLOG_INFO ''NIC: RTL8139 initialized.'' []
            (s1\<lparr>nic_mac_addr := rtl8139_get_mac_address s1, is_rtl8139 := True, nic_initialized := True\<rparr>), True)
      | Inr (s1, False) \<Rightarrow>
          Inr (klog vsn KLOG_WARN ''NIC: No supported network card found.'' [] s1, False))"

definition nic_send_packet :: "ptr \<Rightarrow> u8 list \<Rightarrow> 'a eth_net_scheme \<Rightarrow> 'a eth_net_scheme \<times> bool" where
  "nic_send_packet p bytes s =
     (if \<not> nic_initialized s then (s, False)
      else if is_rtl8139 s then (rtl8139_send p bytes s, True)
      else (s, False))"

definition nic_set_rx_callback :: "ptr \<Rightarrow> 'a eth_net_scheme \<Rightarrow> 'a eth_net_scheme" where
  "nic_set_rx_callback cb s = s\<lparr>nic_rx_callback := cb\<rparr>"

definition nic_get_mac_address :: "'a eth_net_scheme \<Rightarrow> u8 list" where
  "nic_get_mac_address s = nic_mac_addr s"

definition nic_is_initialized :: "'a eth_net_scheme \<Rightarrow> bool" where
  "nic_is_initialized s = nic_initialized s"

section \<open>Frames\<close>

definition ETHERNET_MIN_FRAME_SIZE :: nat where "ETHERNET_MIN_FRAME_SIZE = 60"
definition ETHERNET_MAX_FRAME_SIZE :: nat where "ETHERNET_MAX_FRAME_SIZE = 1514"
definition ETHERNET_HEADER_SIZE :: nat where "ETHERNET_HEADER_SIZE = 14"

lemmas eth_consts = ETHERNET_MIN_FRAME_SIZE_def ETHERNET_MAX_FRAME_SIZE_def ETHERNET_HEADER_SIZE_def

definition ethernet_init :: "u8 list option \<Rightarrow> 'a eth_net_scheme \<Rightarrow> 'a eth_net_scheme \<times> bool" where
  "ethernet_init mac s =
     (if eth_initialized s then (s, True)
      else case mac of
        None \<Rightarrow> (s, False)
      | Some a \<Rightarrow> (s\<lparr>eth_mac := take 6 a, eth_rx_callback := NULL, eth_initialized := True\<rparr>, True))"

definition ethernet_set_rx_callback :: "ptr \<Rightarrow> 'a eth_net_scheme \<Rightarrow> 'a eth_net_scheme" where
  "ethernet_set_rx_callback cb s = (if \<not> eth_initialized s then s else s\<lparr>eth_rx_callback := cb\<rparr>)"

text \<open>The contents of the frame buffer after lines 74 to 86.\<close>

definition frame_bytes :: "u8 list \<Rightarrow> u8 list \<Rightarrow> u16 \<Rightarrow> u8 list \<Rightarrow> nat \<Rightarrow> u8 list" where
  "frame_bytes dest src typ data frame_size =
     take 6 dest @ take 6 src @ le16 (swap16 typ) @ data @ replicate (frame_size - (ETHERNET_HEADER_SIZE + length data)) 0"

definition frame_size_for :: "nat \<Rightarrow> nat" where
  "frame_size_for len =
     (if ETHERNET_HEADER_SIZE + len < ETHERNET_MIN_FRAME_SIZE then ETHERNET_MIN_FRAME_SIZE else ETHERNET_HEADER_SIZE + len)"

definition ethernet_send_frame :: "u8 list option \<Rightarrow> u16 \<Rightarrow> u8 list option \<Rightarrow> 'a eth_net_scheme \<Rightarrow> 'a eth_net_scheme \<times> bool" where
  "ethernet_send_frame dest typ data s =
     (if \<not> eth_initialized s \<or> dest = None \<or> data = None \<or> the data = [] then (s, False)
      else let frame_size = frame_size_for (length (the data)) in
        if frame_size > ETHERNET_MAX_FRAME_SIZE then (s, False)
        else let (h, frame) = kmalloc (n_heap s) (of_nat frame_size); s1 = s\<lparr>n_heap := h\<rparr> in
          if frame = NULL then (s1, False)
          else let (s2, result) = nic_send_packet frame (frame_bytes (the dest) (eth_mac s) typ (the data) frame_size) s1
            in (s2\<lparr>n_heap := kfree (n_heap s2) frame\<rparr>, result))"

text \<open>What the receive callback is called with, if it is called.\<close>

record rx_call =
  rx_callback :: ptr
  rx_src_mac :: "u8 list"
  rx_type :: u16
  rx_data :: "u8 list"

definition ethernet_handle_frame :: "u8 list option \<Rightarrow> 'a eth_net_scheme \<Rightarrow> rx_call option" where
  "ethernet_handle_frame frame s =
     (if \<not> eth_initialized s \<or> frame = None \<or> length (the frame) < ETHERNET_HEADER_SIZE \<or>
         length (the frame) > ETHERNET_MAX_FRAME_SIZE then None
      else let f = the frame; dest = take 6 f; is_broadcast = list_all (\<lambda>b. b = 0xFF) dest in
        if \<not> is_broadcast \<and> dest \<noteq> eth_mac s then None
        else if eth_rx_callback s \<noteq> NULL
          then Some \<lparr>rx_callback = eth_rx_callback s, rx_src_mac = take 6 (drop 6 f), rx_type = swap16 (get16 f 12),
                 rx_data = drop ETHERNET_HEADER_SIZE f\<rparr>
        else None)"

definition ethernet_get_mac_address :: "'a eth_net_scheme \<Rightarrow> u8 list option" where
  "ethernet_get_mac_address s = (if \<not> eth_initialized s then None else Some (eth_mac s))"

definition ethernet_is_initialized :: "'a eth_net_scheme \<Rightarrow> bool" where
  "ethernet_is_initialized s = eth_initialized s"

section \<open>What a transmission does\<close>

definition card_ready :: "'a eth_net_scheme \<Rightarrow> bool" where
  "card_ready s \<longleftrightarrow> nic_initialized s \<and> is_rtl8139 s \<and> rtl_initialized s"

lemma rtl8139_send_frame [simp]:
  "n_heap (rtl8139_send p bytes s) = n_heap s" "eth_mac (rtl8139_send p bytes s) = eth_mac s"
  "eth_initialized (rtl8139_send p bytes s) = eth_initialized s" "net_ticks (rtl8139_send p bytes s) = net_ticks s"
  "nic_mac_addr (rtl8139_send p bytes s) = nic_mac_addr s" "nic_initialized (rtl8139_send p bytes s) = nic_initialized s"
  "is_rtl8139 (rtl8139_send p bytes s) = is_rtl8139 s" "rtl_initialized (rtl8139_send p bytes s) = rtl_initialized s"
  by (simp_all add: rtl8139_send_def Let_def)

lemma rtl8139_send_more [simp]: "eth_net.more (rtl8139_send p bytes s) = eth_net.more s"
  by (simp add: rtl8139_send_def Let_def)

lemma card_ready_heap [simp]: "card_ready (s\<lparr>n_heap := h\<rparr>) = card_ready s"
  by (simp add: card_ready_def)

lemma of_nat_small: "n \<le> 1514 \<Longrightarrow> unat (of_nat n :: u32) = n"
  by (simp add: unat_of_nat take_bit_eq_mod)

lemma frame_size_bounds:
  "frame_size_for n \<le> ETHERNET_MAX_FRAME_SIZE \<Longrightarrow> n \<le> 1500 \<and> 60 \<le> frame_size_for n \<and> frame_size_for n \<le> 1514"
  by (auto simp: frame_size_for_def eth_consts split: if_splits)

lemma frame_size_small: "n \<le> 1500 \<Longrightarrow> frame_size_for n \<le> ETHERNET_MAX_FRAME_SIZE"
  by (simp add: frame_size_for_def eth_consts)

lemma length_frame_bytes:
  "length d = 6 \<Longrightarrow> length m = 6 \<Longrightarrow> length (frame_bytes d m typ data (frame_size_for (length data))) = frame_size_for (length data)"
  by (simp add: frame_bytes_def frame_size_for_def eth_consts)

text \<open>The two outcomes of a send: one entry in the transmit log and the old heap, or nothing at all.\<close>

lemma ethernet_send_cases:
  assumes "heap_ok (n_heap s)" "ethernet_send_frame dest typ data s = (s', r)"
  obtains (idle) "s' = s" "\<not> card_ready s \<or> \<not> r"
  | (sent) d p q where "r" "card_ready s" "eth_initialized s" "dest = Some d" "data = Some p" "p \<noteq> []" "length p \<le> 1500"
      "q \<notin> live_ptrs (n_heap s)" "s' = rtl8139_send q (frame_bytes d (eth_mac s) typ p (frame_size_for (length p))) s"
proof (cases "\<not> eth_initialized s \<or> dest = None \<or> data = None \<or> the data = [] \<or>
    frame_size_for (length (the data)) > ETHERNET_MAX_FRAME_SIZE")
  case True
  then show ?thesis using assms(2) idle by (auto simp: ethernet_send_frame_def Let_def split: if_splits)
next
  case False
  then obtain d p where dp: "dest = Some d" "data = Some p" "p \<noteq> []" "eth_initialized s"
    and sz: "frame_size_for (length p) \<le> ETHERNET_MAX_FRAME_SIZE" by auto
  let ?n = "of_nat (frame_size_for (length p)) :: u32"
  obtain h q where k: "kmalloc (n_heap s) ?n = (h, q)" by (cases "kmalloc (n_heap s) ?n")
  have small: "small_request ?n"
    using frame_size_bounds [OF sz] by (simp add: small_request_nat of_nat_small)
  show ?thesis
  proof (cases "q = NULL")
    case True
    then have "h = n_heap s" using kernel_heap.alloc_fail [OF assms(1)] k by simp
    with True show ?thesis using assms(2) False dp k sz idle by (simp add: ethernet_send_frame_def)
  next
    case q: False
    have restore: "kfree h q = n_heap s" by (rule kernel_heap.alloc_release [OF assms(1) small k q])
    have fresh: "q \<notin> live_ptrs (n_heap s)" using kmalloc_live [OF assms(1) k q] by simp
    have eq: "ethernet_send_frame dest typ data s =
        (let (s2, result) = nic_send_packet q (frame_bytes d (eth_mac s) typ p (frame_size_for (length p))) (s\<lparr>n_heap := h\<rparr>)
         in (s2\<lparr>n_heap := kfree (n_heap s2) q\<rparr>, result))"
      using dp k q sz by (simp add: ethernet_send_frame_def Let_def)
    show ?thesis
    proof (cases "card_ready s")
      case True
      then have "s' = rtl8139_send q (frame_bytes d (eth_mac s) typ p (frame_size_for (length p))) s" "r"
        using assms(2) restore unfolding eq
        by (auto simp: nic_send_packet_def card_ready_def rtl8139_send_def Let_def)
      with True dp sz fresh frame_size_bounds [OF sz] sent show ?thesis by blast
    next
      case False
      then have "s' = s"
        using assms(2) restore unfolding eq
        by (auto simp: nic_send_packet_def card_ready_def rtl8139_send_def Let_def split: if_splits)
      with False idle show ?thesis by blast
    qed
  qed
qed

lemma ethernet_send_heap:
  assumes "heap_ok (n_heap s)"
  shows "n_heap (fst (ethernet_send_frame dest typ data s)) = n_heap s"
  by (rule ethernet_send_cases [OF assms surjective_pairing [of "ethernet_send_frame dest typ data s"]]) auto

lemma ethernet_send_keeps:
  assumes "heap_ok (n_heap s)" "ethernet_send_frame dest typ data s = (s', r)"
  shows "eth_net.more s' = eth_net.more s \<and> eth_mac s' = eth_mac s \<and> eth_initialized s' = eth_initialized s \<and>
    nic_mac_addr s' = nic_mac_addr s \<and> net_ticks s' = net_ticks s \<and> card_ready s' = card_ready s \<and> n_heap s' = n_heap s"
  by (rule ethernet_send_cases [OF assms]) (auto simp: card_ready_def)

section \<open>Properties\<close>

abbreviation broadcast :: "u8 list" where "broadcast \<equiv> replicate 6 0xFF"

lemma take_frame [simp]:
  assumes "length d = 6" "length m = 6"
  shows "take 6 (frame_bytes d m typ p n) = d" "take 6 (drop 6 (frame_bytes d m typ p n)) = m"
    "get16 (frame_bytes d m typ p n) 12 = swap16 typ"
    "drop 14 (frame_bytes d m typ p n) = p @ replicate (n - (14 + length p)) 0"
  using assms get16_append [of "d @ m" 12 "swap16 typ" "p @ replicate (n - (14 + length p)) 0"]
  by (simp_all add: frame_bytes_def eth_consts)

text \<open>
  A frame reaches exactly the stations it is meant for: what \<open>ethernet_send_frame\<close> hands to the
  card is accepted by a station with the destination address, and by every station when the
  destination is the broadcast address, with the sender's address, the type and the data (padded
  with zeros to 46 bytes); every other station ignores it.
\<close>

theorem ethernet_frame_reaches_destination:
  assumes "heap_ok (n_heap s)" "ethernet_send_frame (Some d) typ (Some p) s = (s', True)" "card_ready s"
    and "length d = 6" "length (eth_mac s) = 6"
    and "eth_initialized r" "eth_rx_callback r \<noteq> NULL"
  shows "ethernet_handle_frame (Some (tx_frame (last (tx_log s')))) r =
    (if d = eth_mac r \<or> d = broadcast
     then Some \<lparr>rx_callback = eth_rx_callback r, rx_src_mac = eth_mac s, rx_type = typ, rx_data = p @ replicate (46 - length p) 0\<rparr>
     else None)"
  using assms(1,2)
proof (cases rule: ethernet_send_cases)
  case idle
  with assms(3) show ?thesis by simp
next
  case (sent d' p' q)
  then have fr: "tx_frame (last (tx_log s')) = frame_bytes d (eth_mac s) typ p (frame_size_for (length p))"
    by (simp add: rtl8139_send_def card_ready_def Let_def)
  have len: "length (frame_bytes d (eth_mac s) typ p (frame_size_for (length p))) = frame_size_for (length p)"
    by (rule length_frame_bytes) (simp_all add: assms)
  have sz: "60 \<le> frame_size_for (length p)" "frame_size_for (length p) \<le> 1514"
    using frame_size_bounds [OF frame_size_small, of "length p"] sent by simp_all
  have pad: "frame_size_for (length p) - (14 + length p) = 46 - length p"
    by (simp add: frame_size_for_def eth_consts)
  have bc: "list_all (\<lambda>b. b = 0xFF) d \<longleftrightarrow> d = broadcast"
    using assms(4) by (auto simp: list_all_iff intro: replicate_eqI)
  define f where "f = frame_bytes d (eth_mac s) typ p (frame_size_for (length p))"
  have "take 6 f = d" "take 6 (drop 6 f) = eth_mac s" "get16 f 12 = swap16 typ" "drop 14 f = p @ replicate (46 - length p) 0"
    unfolding f_def by (simp_all only: take_frame [OF assms(4,5)] pad)
  then show ?thesis
    using assms(6,7) sz unfolding ethernet_handle_frame_def fr f_def [symmetric]
    by (simp add: len [folded f_def] eth_consts bc Let_def)
qed

text \<open>
  The frame buffer is released while the card still owns it: after a successful send the
  address the driver wrote into the transmit descriptor is that of a block that is free again, so
  the next allocation may overwrite the frame before the card has read it.
\<close>

theorem ethernet_frame_freed_before_transmission:
  assumes "heap_ok (n_heap s)" "ethernet_send_frame dest typ data s = (s', True)" "card_ready s"
  shows "tx_addr (last (tx_log s')) \<notin> live_ptrs (n_heap s') \<and>
    (tx_desc_reg (last (tx_log s')), tx_addr (last (tx_log s'))) \<in> set (io_writes s')"
  using assms(1,2)
proof (cases rule: ethernet_send_cases)
  case idle
  with assms(3) show ?thesis by simp
next
  case (sent d p q)
  then show ?thesis by (simp add: rtl8139_send_def card_ready_def Let_def)
qed

text \<open>
  Frames keep their bounds and leave no trace in memory: whatever is sent, the heap afterwards is
  the heap before; a frame given to the card has between 60 and 1514 bytes, the length register
  holds exactly its length, and data of more than 1500 bytes or none at all is refused.
\<close>

theorem ethernet_send_bounds:
  assumes "heap_ok (n_heap s)" "ethernet_send_frame (Some d) typ (Some p) s = (s', r)" "card_ready s"
    and "length d = 6" "length (eth_mac s) = 6"
  shows "n_heap s' = n_heap s \<and> (p = [] \<or> length p > 1500 \<longrightarrow> s' = s \<and> \<not> r) \<and>
    (r \<longrightarrow> (let t = last (tx_log s') in 60 \<le> length (tx_frame t) \<and> length (tx_frame t) \<le> 1514 \<and>
       unat (tx_status t) = length (tx_frame t)))"
  using assms(1,2)
proof (cases rule: ethernet_send_cases)
  case idle
  with assms(3) show ?thesis by simp
next
  case (sent d' p' q)
  have len: "length (frame_bytes d (eth_mac s) typ p (frame_size_for (length p))) = frame_size_for (length p)"
    by (rule length_frame_bytes) (simp_all add: assms)
  have sz: "60 \<le> frame_size_for (length p)" "frame_size_for (length p) \<le> 1514"
    using frame_size_bounds [OF frame_size_small, of "length p"] sent by simp_all
  have m: "(0x1FFF :: u32) = mask 13" by (simp add: mask_numeral)
  have "unat ((of_nat (frame_size_for (length p)) :: u32) AND 0x1FFF) = frame_size_for (length p)"
    unfolding m take_bit_eq_mask [symmetric] unsigned_take_bit_eq of_nat_small [OF sz(2)]
    using sz by (simp add: take_bit_eq_mod)
  with sent sz len show ?thesis by (simp add: rtl8139_send_def card_ready_def Let_def)
qed

section \<open>A station\<close>

definition demo_eth :: eth_net where
  "demo_eth = \<lparr>ring_buf = [], ring_head = 0, ring_tail = 0, ring_count = 0, log_initialized = False, serial_out = [],
     n_heap = booted_heap, rtl_io_base = 0xC000, rtl_mac = [2, 0, 0, 0, 0, 1], rtl_rx_buffer = 0, rtl_initialized = True,
     rtl_tx_num = 0, io_writes = [], tx_log = [], nic_mac_addr = [2, 0, 0, 0, 0, 1], is_rtl8139 = True, nic_initialized = True,
     nic_rx_callback = 0, eth_mac = [2, 0, 0, 0, 0, 1], eth_rx_callback = 0x7000, eth_initialized = True, net_ticks = 5\<rparr>"

lemma demo_eth_facts [simp]:
  "heap_ok (n_heap demo_eth)" "card_ready demo_eth" "length (eth_mac demo_eth) = 6" "eth_initialized demo_eth"
  "eth_rx_callback demo_eth \<noteq> NULL" "eth_mac demo_eth = [2, 0, 0, 0, 0, 1]" "n_heap demo_eth = booted_heap"
  by (simp_all add: demo_eth_def card_ready_def booted_heap_ok)

lemma booted_heap_small_block: "snd (kmalloc booted_heap 60) = 0xD0000010"
  by (simp add: heap_eval booted_heap_eval)

lemma demo_eth_sends: "snd (ethernet_send_frame (Some broadcast) 0x0800 (Some [1, 2, 3]) demo_eth)"
  using booted_heap_small_block
  by (simp add: ethernet_send_frame_def frame_size_for_def eth_consts nic_send_packet_def case_prod_unfold Let_def demo_eth_def)

lemma demo_eth_send_pair:
  "ethernet_send_frame (Some broadcast) 0x0800 (Some [1, 2, 3]) demo_eth =
   (fst (ethernet_send_frame (Some broadcast) 0x0800 (Some [1, 2, 3]) demo_eth), True)"
  using demo_eth_sends by (simp add: prod_eq_iff)

theorem ethernet_frame_reaches_destination_witness:
  "ethernet_handle_frame (Some (tx_frame (last (tx_log
      (fst (ethernet_send_frame (Some broadcast) 0x0800 (Some [1, 2, 3]) demo_eth)))))) demo_eth =
   Some \<lparr>rx_callback = 0x7000, rx_src_mac = [2, 0, 0, 0, 0, 1], rx_type = 0x0800, rx_data = [1, 2, 3] @ replicate 43 0\<rparr>"
  using ethernet_frame_reaches_destination [OF demo_eth_facts(1) demo_eth_send_pair demo_eth_facts(2) _ demo_eth_facts(3-5)]
  by (simp add: demo_eth_def)

theorem ethernet_frame_freed_before_transmission_witness:
  "tx_addr (last (tx_log (fst (ethernet_send_frame (Some broadcast) 0x0800 (Some [1, 2, 3]) demo_eth))))
     \<notin> live_ptrs (n_heap (fst (ethernet_send_frame (Some broadcast) 0x0800 (Some [1, 2, 3]) demo_eth)))"
  using ethernet_frame_freed_before_transmission [OF demo_eth_facts(1) demo_eth_send_pair demo_eth_facts(2)] by (rule conjunct1)

theorem ethernet_send_bounds_witness:
  "let t = last (tx_log (fst (ethernet_send_frame (Some broadcast) 0x0800 (Some [1, 2, 3]) demo_eth))) in
     60 \<le> length (tx_frame t) \<and> length (tx_frame t) \<le> 1514 \<and> unat (tx_status t) = length (tx_frame t)"
  using ethernet_send_bounds [OF demo_eth_facts(1) demo_eth_send_pair demo_eth_facts(2) _ demo_eth_facts(3)] by simp

end
