(* ===== verification/Ip_Arp.thy ===== *)
theory Ip_Arp
  imports Ethernet
begin

unbundle bit_operations_syntax

text \<open>
  Address resolution (\<^verbatim>\<open>net/arp.c\<close>) and datagrams (\<^verbatim>\<open>net/ip.c\<close>). Protocol handlers are the values of
  \<open>proto_handler\<close>; \<open>ip_handle_packet\<close> takes the function that calls them, so that the protocols
  above can be added in their own theories. A received buffer is the list of its bytes, and the
  length a handler is told is a word of its own, because the code computes it from the packet.
  Shown here: a datagram crosses the wire unchanged, the cache of addresses behaves as a map
  that never forgets, sending restores the heap, requests carry the wrong frame type, and the
  length passed to a handler is not checked against the bytes there are.
\<close>

section \<open>State\<close>

datatype proto_handler = Icmp_handle_packet | Udp_handle_packet | Tcp_handle_packet | Other_protocol ptr

record arp_entry =
  ae_ip :: u32
  ae_mac :: "u8 list"
  ae_occupied :: bool

record ip_net = eth_net +
  arp_cache :: "arp_entry list"
  arp_initialized :: bool
  ip_address :: u32
  subnet_mask :: u32
  gateway :: u32
  id_counter :: u16
  protocol_handlers :: "proto_handler option list"
  ip_initialized :: bool

definition ARP_CACHE_SIZE :: nat where "ARP_CACHE_SIZE = 64"
definition IP_HEADER_LENGTH :: nat where "IP_HEADER_LENGTH = 20"
definition sizeof_arp_packet :: nat where "sizeof_arp_packet = 28"

lemmas ip_consts = ARP_CACHE_SIZE_def IP_HEADER_LENGTH_def sizeof_arp_packet_def

definition ip_get_address :: "'a ip_net_scheme \<Rightarrow> u32" where "ip_get_address s = ip_address s"
definition ip_get_subnet_mask :: "'a ip_net_scheme \<Rightarrow> u32" where "ip_get_subnet_mask s = subnet_mask s"
definition ip_get_gateway :: "'a ip_net_scheme \<Rightarrow> u32" where "ip_get_gateway s = gateway s"
definition ip_is_initialized :: "'a ip_net_scheme \<Rightarrow> bool" where "ip_is_initialized s = ip_initialized s"

section \<open>ARP\<close>

definition arp_init :: "'a ip_net_scheme \<Rightarrow> 'a ip_net_scheme" where
  "arp_init s = s\<lparr>arp_cache := replicate ARP_CACHE_SIZE \<lparr>ae_ip = 0, ae_mac = replicate 6 0, ae_occupied = False\<rparr>, arp_initialized := True\<rparr>"

text \<open>The packed \<open>arp_packet_t\<close>.\<close>

definition arp_bytes :: "u16 \<Rightarrow> u8 list \<Rightarrow> u32 \<Rightarrow> u8 list \<Rightarrow> u32 \<Rightarrow> u8 list" where
  "arp_bytes opcode src_mac src_ip dest_mac dest_ip =
     le16 0x0100 @ le16 0x0008 @ [6, 4] @ le16 opcode @ take 6 src_mac @ le32 src_ip @ take 6 dest_mac @ le32 dest_ip"

definition arp_send_request :: "u32 \<Rightarrow> 'a ip_net_scheme \<Rightarrow> 'a ip_net_scheme" where
  "arp_send_request ip s =
     fst (ethernet_send_frame (Some broadcast) 0x0608
       (Some (arp_bytes 0x0100 (nic_get_mac_address s) (ip_get_address s) (replicate 6 0) ip)) s)"

text \<open>\<open>mac\<close> is what the caller's buffer held before; the result is what it holds afterwards.\<close>

definition arp_resolve :: "u32 \<Rightarrow> u8 list \<Rightarrow> 'a ip_net_scheme \<Rightarrow> 'a ip_net_scheme \<times> u8 list" where
  "arp_resolve ip mac s =
     (if \<not> arp_initialized s then (s, mac)
      else case first_index (\<lambda>e. ae_occupied e \<and> ae_ip e = ip) (arp_cache s) of
        Some i \<Rightarrow> (s, ae_mac (arp_cache s ! i))
      | None \<Rightarrow> (arp_send_request ip s, broadcast))"

definition arp_handle_packet :: "u8 list \<Rightarrow> 'a ip_net_scheme \<Rightarrow> 'a ip_net_scheme" where
  "arp_handle_packet pkt s =
     (if length pkt < sizeof_arp_packet then s
      else let opcode = swap16 (get16 pkt 6); src_mac = take 6 (drop 8 pkt); src_ip = get32 pkt 14; dest_ip = get32 pkt 24 in
        if opcode = 2 then
          (case first_index (\<lambda>e. \<not> ae_occupied e \<or> ae_ip e = src_ip) (arp_cache s) of
             None \<Rightarrow> s
           | Some i \<Rightarrow> s\<lparr>arp_cache := (arp_cache s)[i := \<lparr>ae_ip = src_ip, ae_mac = src_mac, ae_occupied = True\<rparr>]\<rparr>)
        else if opcode = 1 then
          (if dest_ip = ip_get_address s
           then fst (ethernet_send_frame (Some src_mac) 0x0608
             (Some (arp_bytes 0x0200 (nic_get_mac_address s) (ip_get_address s) src_mac src_ip)) s)
           else s)
        else s)"

section \<open>IP\<close>

definition ip_init :: "u32 \<Rightarrow> u32 \<Rightarrow> u32 \<Rightarrow> 'a ip_net_scheme \<Rightarrow> 'a ip_net_scheme \<times> bool" where
  "ip_init addr msk gw s =
     (if ip_initialized s then (s, True)
      else (s\<lparr>ip_address := addr, subnet_mask := msk, gateway := gw, id_counter := 0,
              protocol_handlers := replicate 256 None, ip_initialized := True\<rparr>, True))"

definition ip_register_protocol :: "u8 \<Rightarrow> proto_handler option \<Rightarrow> 'a ip_net_scheme \<Rightarrow> 'a ip_net_scheme \<times> bool" where
  "ip_register_protocol proto cb s =
     (if \<not> ip_initialized s \<or> cb = None then (s, False)
      else (s\<lparr>protocol_handlers := (protocol_handlers s)[unat proto := cb]\<rparr>, True))"

text \<open>The packed \<open>ip_header_t\<close> the sender builds: version 4 and header length 5 share the first byte.\<close>

definition ip_header_bytes :: "nat \<Rightarrow> u16 \<Rightarrow> u8 \<Rightarrow> u16 \<Rightarrow> u32 \<Rightarrow> u32 \<Rightarrow> u8 list" where
  "ip_header_bytes tot ident proto csum src dest =
     [0x45, 0] @ le16 (swap16 (of_nat tot)) @ le16 (swap16 ident) @ le16 0 @ [64, proto] @ le16 csum @ le32 src @ le32 dest"

definition ip_packet_bytes :: "u16 \<Rightarrow> u8 \<Rightarrow> u32 \<Rightarrow> u32 \<Rightarrow> u8 list \<Rightarrow> u8 list" where
  "ip_packet_bytes ident proto src dest data =
     (let tot = IP_HEADER_LENGTH + length data in
      ip_header_bytes tot ident proto (ip_checksum (ip_header_bytes tot ident proto 0 src dest)) src dest @ data)"

definition ip_next_hop :: "u32 \<Rightarrow> 'a ip_net_scheme \<Rightarrow> u32" where
  "ip_next_hop dest s = (if dest AND subnet_mask s = ip_address s AND subnet_mask s then dest else gateway s)"

text \<open>\<open>stack_mac\<close> is what the uninitialised array \<open>dest_mac\<close> holds.\<close>

definition ip_send_packet :: "u8 list \<Rightarrow> u32 \<Rightarrow> u8 \<Rightarrow> u8 list option \<Rightarrow> 'a ip_net_scheme \<Rightarrow> 'a ip_net_scheme \<times> bool" where
  "ip_send_packet stack_mac dest proto data s =
     (if \<not> ip_initialized s \<or> data = None \<or> the data = [] then (s, False)
      else let tot = IP_HEADER_LENGTH + length (the data) in
        if tot > 65535 then (s, False)
        else let (h, packet) = kmalloc (n_heap s) (of_nat tot); s1 = s\<lparr>n_heap := h\<rparr> in
          if packet = NULL then (s1, False)
          else let bytes = ip_packet_bytes (id_counter s1) proto (ip_address s1) dest (the data);
                   (s2, dest_mac) = arp_resolve (ip_next_hop dest s1) stack_mac s1;
                   (s3, result) = ethernet_send_frame (Some dest_mac) 0x0800 (Some bytes) s2
            in (s3\<lparr>n_heap := kfree (n_heap s3) packet, id_counter := id_counter s3 + 1\<rparr>, result))"

definition ip_handle_packet ::
  "(proto_handler \<Rightarrow> u32 \<Rightarrow> u8 list \<Rightarrow> u32 \<Rightarrow> 'a ip_net_scheme \<Rightarrow> fault + 'a ip_net_scheme) \<Rightarrow> u8 list option \<Rightarrow>
     'a ip_net_scheme \<Rightarrow> fault + 'a ip_net_scheme" where
  "ip_handle_packet call packet s =
     (if \<not> ip_initialized s \<or> packet = None \<or> length (the packet) < IP_HEADER_LENGTH then Inr s
      else let p = the packet; version = drop_bit 4 (p ! 0); header_length = unat (p ! 0 AND 0xF) in
        if version \<noteq> 4 \<or> header_length < 5 \<or> length p < header_length * 4 then Inr s
        else if ip_checksum (take (header_length * 4) (p[10 := 0, 11 := 0])) \<noteq> get16 p 10 then Inr s
        else if get32 p 16 \<noteq> ip_address s then Inr s
        else let total_length = swap16 (get16 p 2) in
          case protocol_handlers s ! unat (p ! 9) of
            None \<Rightarrow> Inr s
          | Some h \<Rightarrow> call h (get32 p 12) (drop (header_length * 4) p) (ucast total_length - of_nat (header_length * 4)) s)"

section \<open>Frames of the operations\<close>

lemma ip_fields_of_more:
  assumes "eth_net.more s' = eth_net.more s"
  shows "arp_cache s' = arp_cache s" "arp_initialized s' = arp_initialized s" "ip_address s' = ip_address s"
    "subnet_mask s' = subnet_mask s" "gateway s' = gateway s" "id_counter s' = id_counter s"
    "protocol_handlers s' = protocol_handlers s" "ip_initialized s' = ip_initialized s" "ip_net.more s' = ip_net.more s"
  using assms by (cases s; cases s'; simp)+

lemma arp_send_request_keeps:
  assumes "heap_ok (n_heap s)"
  shows "eth_net.more (arp_send_request ip s) = eth_net.more s" "eth_mac (arp_send_request ip s) = eth_mac s"
    "eth_initialized (arp_send_request ip s) = eth_initialized s" "nic_mac_addr (arp_send_request ip s) = nic_mac_addr s"
    "net_ticks (arp_send_request ip s) = net_ticks s" "card_ready (arp_send_request ip s) = card_ready s"
    "n_heap (arp_send_request ip s) = n_heap s"
  using ethernet_send_keeps [OF assms surjective_pairing [of "ethernet_send_frame (Some broadcast) 0x0608
       (Some (arp_bytes 0x0100 (nic_get_mac_address s) (ip_get_address s) (replicate 6 0) ip)) s"]]
  by (simp_all add: arp_send_request_def)

lemma arp_resolve_keeps:
  assumes "heap_ok (n_heap s)" "arp_resolve ip mac s = (s', m)"
  shows "eth_net.more s' = eth_net.more s \<and> eth_mac s' = eth_mac s \<and> eth_initialized s' = eth_initialized s \<and>
    nic_mac_addr s' = nic_mac_addr s \<and> net_ticks s' = net_ticks s \<and> card_ready s' = card_ready s \<and> n_heap s' = n_heap s"
  using assms(2) arp_send_request_keeps [OF assms(1)]
  by (auto simp: arp_resolve_def split: if_splits option.splits)

text \<open>The cache: addresses of six bytes, the slots in use in front, no address twice.\<close>

definition arp_inv :: "arp_entry list \<Rightarrow> bool" where
  "arp_inv c \<longleftrightarrow> (\<forall>e \<in> set c. length (ae_mac e) = 6) \<and>
     (\<exists>n. (\<forall>i < length c. ae_occupied (c ! i) \<longleftrightarrow> i < n)) \<and>
     (\<forall>i < length c. \<forall>j < length c. ae_occupied (c ! i) \<and> ae_occupied (c ! j) \<and> ae_ip (c ! i) = ae_ip (c ! j) \<longrightarrow> i = j)"

lemma arp_resolve_length:
  assumes "\<forall>e \<in> set (arp_cache s). length (ae_mac e) = 6" "length mac = 6" "arp_resolve ip mac s = (s', m)"
  shows "length m = 6"
  using assms by (auto simp: arp_resolve_def split: if_splits option.splits dest!: first_index_SomeD)

lemma unat_of_nat_u16: "n < 65536 \<Longrightarrow> unat (of_nat n :: u16) = n"
  by (simp add: unat_of_nat take_bit_eq_mod)

lemma of_nat_datagram: "n \<le> 65535 \<Longrightarrow> small_request (of_nat n)"
  by (simp add: small_request_nat unat_of_nat take_bit_eq_mod)

text \<open>
  What a send does to the state: the heap and the configuration are as before; when it succeeds on
  a working card the last frame handed over carries the datagram.
\<close>

lemma ip_send_spec:
  assumes "heap_ok (n_heap s)" "ip_send_packet g dest proto data s = (s', r)"
  shows "n_heap s' = n_heap s \<and> eth_mac s' = eth_mac s \<and> eth_initialized s' = eth_initialized s \<and>
      nic_mac_addr s' = nic_mac_addr s \<and> net_ticks s' = net_ticks s \<and> card_ready s' = card_ready s \<and>
      arp_cache s' = arp_cache s \<and> arp_initialized s' = arp_initialized s \<and> ip_address s' = ip_address s \<and>
      subnet_mask s' = subnet_mask s \<and> gateway s' = gateway s \<and> protocol_handlers s' = protocol_handlers s \<and>
      ip_initialized s' = ip_initialized s \<and> ip_net.more s' = ip_net.more s \<and>
      (r \<and> card_ready s \<and> length g = 6 \<and> (\<forall>e \<in> set (arp_cache s). length (ae_mac e) = 6) \<longrightarrow>
        ip_initialized s \<and> eth_initialized s \<and>
        (\<exists>p mac. data = Some p \<and> p \<noteq> [] \<and> 20 + length p \<le> 1500 \<and> length mac = 6 \<and>
          tx_frame (last (tx_log s')) = frame_bytes mac (eth_mac s) 0x0800 (ip_packet_bytes (id_counter s) proto (ip_address s) dest p)
            (frame_size_for (20 + length p))))"
proof (cases "\<not> ip_initialized s \<or> data = None \<or> the data = [] \<or> 20 + length (the data) > 65535")
  case True
  then show ?thesis using assms(2) by (auto simp: ip_send_packet_def ip_consts Let_def split: if_splits)
next
  case False
  then obtain p where p: "data = Some p" "p \<noteq> []" "20 + length p \<le> 65535" "ip_initialized s" by auto
  let ?n = "of_nat (20 + length p) :: u32"
  obtain h q where k: "kmalloc (n_heap s) ?n = (h, q)" by (cases "kmalloc (n_heap s) ?n")
  show ?thesis
  proof (cases "q = NULL")
    case True
    then have "h = n_heap s" using kernel_heap.alloc_fail [OF assms(1)] k by simp
    with True k p show ?thesis using assms(2) by (simp add: ip_send_packet_def ip_consts card_ready_def)
  next
    case q: False
    have ok: "heap_ok h" by (rule kernel_heap.alloc_ok [OF assms(1) of_nat_datagram [OF p(3)] k])
    have restore: "kfree h q = n_heap s" by (rule kernel_heap.alloc_release [OF assms(1) of_nat_datagram [OF p(3)] k q])
    define s1 where "s1 = s\<lparr>n_heap := h\<rparr>"
    define bytes where "bytes = ip_packet_bytes (id_counter s1) proto (ip_address s1) dest p"
    obtain s2 m where a: "arp_resolve (ip_next_hop dest s1) g s1 = (s2, m)" by (cases "arp_resolve (ip_next_hop dest s1) g s1")
    obtain s3 r' where e: "ethernet_send_frame (Some m) 0x0800 (Some bytes) s2 = (s3, r')"
      by (cases "ethernet_send_frame (Some m) 0x0800 (Some bytes) s2")
    have s': "s' = s3\<lparr>n_heap := kfree (n_heap s3) q, id_counter := id_counter s3 + 1\<rparr>" "r = r'"
      using assms(2) p k q a e
      by (simp_all add: ip_send_packet_def ip_consts s1_def [symmetric] bytes_def [symmetric] Let_def)
    have ok1: "heap_ok (n_heap s1)" using ok by (simp add: s1_def)
    note ka = arp_resolve_keeps [OF ok1 a]
    have ok2: "heap_ok (n_heap s2)" using ka ok1 by simp
    note ke = ethernet_send_keeps [OF ok2 e]
    have more: "eth_net.more s3 = eth_net.more s1" using ka ke by simp
    note fields = ip_fields_of_more [OF more]
    have len: "length bytes = 20 + length p"
      by (simp add: bytes_def ip_packet_bytes_def ip_header_bytes_def Let_def)
    have good: "\<exists>mac. length mac = 6 \<and> 20 + length p \<le> 1500 \<and> eth_initialized s \<and>
        tx_frame (last (tx_log s3)) = frame_bytes mac (eth_mac s) 0x0800 bytes (frame_size_for (20 + length p))"
      if "r'" "card_ready s" "length g = 6" "\<forall>e \<in> set (arp_cache s). length (ae_mac e) = 6"
    proof (rule ethernet_send_cases [OF ok2 e])
      assume "s3 = s2" "\<not> card_ready s2 \<or> \<not> r'"
      then show ?thesis using that ka by (simp add: s1_def)
    next
      fix d b qq
      assume *: "Some m = Some d" "Some bytes = Some b" "length b \<le> 1500" "card_ready s2" "eth_initialized s2"
        "s3 = rtl8139_send qq (frame_bytes d (eth_mac s2) 0x0800 b (frame_size_for (length b))) s2"
      have "length m = 6" by (rule arp_resolve_length [OF _ _ a]) (use that in \<open>simp_all add: s1_def\<close>)
      with * len ka show ?thesis
        by (intro exI [of _ m]) (simp add: rtl8139_send_def card_ready_def s1_def Let_def)
    qed
    show ?thesis
      using good p ka ke fields restore unfolding s'
      by (auto simp: s1_def bytes_def card_ready_def)
  qed
qed



section \<open>The header read back\<close>

lemma ip_packet_parts:
  assumes "P = ip_header_bytes tot ident proto csum src dest @ rest"
  shows "length P = 20 + length rest" "P ! 0 = 0x45" "P ! 9 = proto" "get16 P 2 = swap16 (of_nat tot)" "get16 P 10 = csum"
    "get32 P 12 = src" "get32 P 16 = dest" "drop 20 P = rest"
    "take 20 (P[10 := 0, 11 := 0]) = ip_header_bytes tot ident proto 0 src dest"
  unfolding assms by (simp_all add: ip_header_bytes_def le16_def le32_def get16_def get32_def list_update_append)

lemma version_nibbles: "drop_bit 4 (0x45 :: u8) = 4" "(0x45 :: u8) AND 0xF = 5"
  by simp_all

text \<open>A well-formed datagram goes to the handler of its protocol; \<open>T\<close> is whatever the length field says.\<close>

lemma ip_handle_wellformed:
  assumes "ip_initialized r" "P = ip_header_bytes T ident proto csum src (ip_address r) @ rest"
    and "csum = ip_checksum (ip_header_bytes T ident proto 0 src (ip_address r))"
  shows "ip_handle_packet call (Some P) r =
    (case protocol_handlers r ! unat proto of None \<Rightarrow> Inr r
     | Some h \<Rightarrow> call h src rest (ucast (of_nat T :: u16) - 20) r)"
  using assms(1) ip_packet_parts [OF assms(2)]
  unfolding ip_handle_packet_def ip_consts assms(3) [symmetric]
  by (simp add: assms(3) split: option.splits)

lemma ip_handle_other:
  assumes "P = ip_header_bytes T ident proto csum src dest @ rest" "dest \<noteq> ip_address r"
  shows "ip_handle_packet call (Some P) r = Inr r"
  using ip_packet_parts [OF assms(1)] assms(2) by (simp add: ip_handle_packet_def ip_consts)

section \<open>The address cache as a map\<close>

definition arp_lookup :: "arp_entry list \<Rightarrow> u32 \<Rightarrow> u8 list option" where
  "arp_lookup c ip = map_option (\<lambda>i. ae_mac (c ! i)) (first_index (\<lambda>e. ae_occupied e \<and> ae_ip e = ip) c)"

lemma arp_resolve_lookup:
  "arp_initialized s \<Longrightarrow> arp_resolve ip m s =
    (case arp_lookup (arp_cache s) ip of Some mac \<Rightarrow> (s, mac) | None \<Rightarrow> (arp_send_request ip s, broadcast))"
  by (simp add: arp_resolve_def arp_lookup_def split: option.splits)

lemma arp_lookup_Some:
  assumes "arp_inv c" "i < length c" "ae_occupied (c ! i)"
  shows "arp_lookup c (ae_ip (c ! i)) = Some (ae_mac (c ! i))"
proof -
  obtain j where j: "first_index (\<lambda>e. ae_occupied e \<and> ae_ip e = ae_ip (c ! i)) c = Some j"
    using assms(2,3) first_index_None [of "\<lambda>e. ae_occupied e \<and> ae_ip e = ae_ip (c ! i)" c]
    by (cases "first_index (\<lambda>e. ae_occupied e \<and> ae_ip e = ae_ip (c ! i)) c") auto
  then have "j = i" using first_index_SomeD [OF j] assms by (auto simp: arp_inv_def)
  with j show ?thesis by (simp add: arp_lookup_def)
qed

lemma arp_lookup_None:
  "arp_lookup c ip = None \<longleftrightarrow> (\<forall>i < length c. ae_occupied (c ! i) \<longrightarrow> ae_ip (c ! i) \<noteq> ip)"
  by (simp add: arp_lookup_def first_index_None all_set_conv_all_nth)

text \<open>The slot an answer goes to: the one of its address, else the first that is not in use.\<close>

lemma arp_slot:
  assumes "arp_inv c" "first_index (\<lambda>e. \<not> ae_occupied e \<or> ae_ip e = ip) c = Some i"
  shows "i < length c" "\<And>j. j < length c \<Longrightarrow> ae_occupied (c ! j) \<Longrightarrow> ae_ip (c ! j) = ip \<Longrightarrow> j = i"
    "\<And>j. j < i \<Longrightarrow> ae_occupied (c ! j)" "\<not> ae_occupied (c ! i) \<Longrightarrow> j < length c \<Longrightarrow> ae_occupied (c ! j) \<longleftrightarrow> j < i"
proof -
  note f = first_index_SomeD [OF assms(2)]
  obtain n where n: "\<forall>k < length c. ae_occupied (c ! k) \<longleftrightarrow> k < n" using assms(1) by (auto simp: arp_inv_def)
  show i: "i < length c" using f by simp
  show occ: "\<And>j. j < i \<Longrightarrow> ae_occupied (c ! j)" using f by blast
  show "j = i" if "j < length c" "ae_occupied (c ! j)" "ae_ip (c ! j) = ip" for j
  proof (cases "ae_occupied (c ! i)")
    case True
    with f that assms(1) show ?thesis by (auto simp: arp_inv_def)
  next
    case False
    then have "j < i" using n i that by (metis linorder_not_less order_less_le_trans)
    with f that show ?thesis by blast
  qed
  show "ae_occupied (c ! j) \<longleftrightarrow> j < i" if "\<not> ae_occupied (c ! i)" "j < length c"
    using that n i occ by (metis linorder_not_less order_le_less_trans order_less_imp_le)
qed

lemma arp_update:
  assumes "arp_inv c" "first_index (\<lambda>e. \<not> ae_occupied e \<or> ae_ip e = ip) c = Some i" "length mac = 6"
  defines "c' \<equiv> c[i := \<lparr>ae_ip = ip, ae_mac = mac, ae_occupied = True\<rparr>]"
  shows "arp_inv c'" "arp_lookup c' ip = Some mac" "other \<noteq> ip \<Longrightarrow> arp_lookup c' other = arp_lookup c other"
proof -
  note sl = arp_slot [OF assms(1,2)]
  have occ': "ae_occupied (c' ! j) \<longleftrightarrow> ae_occupied (c ! j) \<or> j = i" if "j < length c" for j
    using that by (cases "j = i") (simp_all add: c'_def)
  have ip': "ae_ip (c' ! j) = (if j = i then ip else ae_ip (c ! j))" if "j < length c" for j
    using that by (simp add: c'_def)
  have len: "length c' = length c" by (simp add: c'_def)
  obtain n where n: "\<forall>k < length c. ae_occupied (c ! k) \<longleftrightarrow> k < n" using assms(1) by (auto simp: arp_inv_def)
  have "\<exists>n. \<forall>k < length c'. ae_occupied (c' ! k) \<longleftrightarrow> k < n"
  proof (cases "ae_occupied (c ! i)")
    case True
    with n occ' len show ?thesis by metis
  next
    case False
    have "ae_occupied (c' ! k) \<longleftrightarrow> k < Suc i" if "k < length c'" for k
      using occ' [of k] sl(4) [OF False, of k] that len by (auto simp: less_Suc_eq)
    then show ?thesis by blast
  qed
  moreover have "\<forall>e \<in> set c'. length (ae_mac e) = 6"
    using assms(1,3) set_update_subset_insert [of c i] by (fastforce simp: arp_inv_def c'_def)
  moreover have "j = k" if "j < length c'" "k < length c'" "ae_occupied (c' ! j)" "ae_occupied (c' ! k)" "ae_ip (c' ! j) = ae_ip (c' ! k)" for j k
    using that sl(2) assms(1) unfolding len by (auto simp: occ' ip' arp_inv_def split: if_splits)
  ultimately show inv: "arp_inv c'" by (simp add: arp_inv_def)
  show "arp_lookup c' ip = Some mac"
    using arp_lookup_Some [OF inv, of i] sl(1) by (simp add: c'_def)
  assume o: "other \<noteq> ip"
  show "arp_lookup c' other = arp_lookup c other"
  proof (cases "arp_lookup c other")
    case None
    then have "arp_lookup c' other = None" using o by (auto simp: arp_lookup_None len occ' ip')
    with None show ?thesis by simp
  next
    case (Some m)
    then obtain j where j: "j < length c" "ae_occupied (c ! j)" "ae_ip (c ! j) = other" "m = ae_mac (c ! j)"
      by (auto simp: arp_lookup_def dest!: first_index_SomeD)
    have "j \<noteq> i \<or> \<not> ae_occupied (c ! i)" using first_index_SomeD [OF assms(2)] j(2,3) o by auto
    then have "j \<noteq> i" using j(2) by blast
    with arp_lookup_Some [OF inv, of j] j show ?thesis using Some by (simp add: c'_def)
  qed
qed

section \<open>Properties\<close>

text \<open>
  The address cache is a map: an answer for an address makes \<open>arp_resolve\<close> return the answered
  hardware address without asking, no other address resolves differently, and when the cache is
  full of other addresses the answer is dropped. The shape of the cache is kept.
\<close>

theorem arp_answer_resolves:
  assumes "arp_inv (arp_cache s)" "arp_initialized s" "length mac = 6" "length dmac = 6"
    and s'_def: "s' = arp_handle_packet (arp_bytes 0x0200 mac ip dmac dip) s"
  shows "arp_inv (arp_cache s') \<and> (\<forall>other. other \<noteq> ip \<longrightarrow> arp_lookup (arp_cache s') other = arp_lookup (arp_cache s) other) \<and>
    (if (\<forall>e \<in> set (arp_cache s). ae_occupied e \<and> ae_ip e \<noteq> ip) then s' = s else arp_resolve ip m s' = (s', mac))"
proof -
  have sw: "swap16 0x0200 = 2" by (simp add: swap16_def)
  have parse: "length (arp_bytes 0x0200 mac ip dmac dip) = 28" "get16 (arp_bytes 0x0200 mac ip dmac dip) 6 = 0x0200"
    "take 6 (drop 8 (arp_bytes 0x0200 mac ip dmac dip)) = mac" "get32 (arp_bytes 0x0200 mac ip dmac dip) 14 = ip"
    using assms(3,4) get32_append [of "le16 0x0100 @ le16 0x0008 @ [6, 4] @ le16 0x0200 @ mac" 14 ip "dmac @ le32 dip"]
      get16_append [of "le16 0x0100 @ le16 0x0008 @ [6, 4]" 6 "0x0200" "mac @ le32 ip @ dmac @ le32 dip"]
    by (simp_all add: arp_bytes_def)
  show ?thesis
  proof (cases "first_index (\<lambda>e. \<not> ae_occupied e \<or> ae_ip e = ip) (arp_cache s)")
    case None
    then have "s' = s" by (simp add: s'_def arp_handle_packet_def parse sw ip_consts)
    with None assms(1) show ?thesis by (auto simp: first_index_None)
  next
    case (Some i)
    then have s': "s' = s\<lparr>arp_cache := (arp_cache s)[i := \<lparr>ae_ip = ip, ae_mac = mac, ae_occupied = True\<rparr>]\<rparr>"
      by (simp add: s'_def arp_handle_packet_def parse sw ip_consts)
    note up = arp_update [OF assms(1) Some assms(3)]
    have room: "\<not> (\<forall>e \<in> set (arp_cache s). ae_occupied e \<and> ae_ip e \<noteq> ip)"
      using first_index_SomeD [OF Some] by (simp add: all_set_conv_all_nth) blast
    have "arp_resolve ip m s' = (s', mac)"
      using up(2) assms(2) by (simp add: arp_resolve_lookup s')
    then show ?thesis using up(1,3) unfolding if_not_P [OF room] by (simp add: s')
  qed
qed

lemma ip_datagram_wire:
  assumes "heap_ok (n_heap s)" "ip_send_packet g dest proto (Some p) s = (s', True)" "card_ready s"
    and "arp_inv (arp_cache s)" "length g = 6" "length (eth_mac s) = 6" "ip_initialized r"
  shows "ip_handle_packet call (Some (drop 14 (tx_frame (last (tx_log s'))))) r =
    (case protocol_handlers r ! unat proto of
       None \<Rightarrow> Inr r
     | Some h \<Rightarrow> if dest = ip_address r then call h (ip_address s) (p @ replicate (26 - length p) 0) (of_nat (length p)) r else Inr r)"
proof -
  obtain mac where m: "length mac = 6" "20 + length p \<le> 1500" and
    f: "tx_frame (last (tx_log s')) = frame_bytes mac (eth_mac s) 0x0800 (ip_packet_bytes (id_counter s) proto (ip_address s) dest p)
          (frame_size_for (20 + length p))"
    using ip_send_spec [OF assms(1,2)] assms(3-5) by (auto simp: arp_inv_def)
  let ?tot = "20 + length p"
  define hdr where "hdr = ip_header_bytes ?tot (id_counter s) proto
    (ip_checksum (ip_header_bytes ?tot (id_counter s) proto 0 (ip_address s) dest)) (ip_address s) dest"
  have len: "length hdr = 20" by (simp add: hdr_def ip_header_bytes_def)
  have pad: "frame_size_for ?tot - (34 + length p) = 26 - length p" by (simp add: frame_size_for_def eth_consts)
  have P: "drop 14 (tx_frame (last (tx_log s'))) = hdr @ p @ replicate (26 - length p) 0"
    using take_frame(4) [OF m(1) assms(6)] len
    unfolding f by (simp add: ip_packet_bytes_def ip_consts hdr_def [symmetric] Let_def pad)
  show ?thesis
  proof (cases "dest = ip_address r")
    case True
    have "unat (of_nat ?tot :: u16) = ?tot" by (rule unat_of_nat_u16) (use m(2) in simp)
    then have "unat (ucast (of_nat ?tot :: u16) :: u32) = ?tot" using m(2) by (simp only: unsigned_ucast_eq) (simp add: take_bit_eq_mod)
    moreover have "unat (of_nat (length p) + 20 :: u32) = ?tot" using m(2) by (simp add: unat_plus_if' unat_of_nat take_bit_eq_mod)
    ultimately have "(ucast (of_nat ?tot :: u16) :: u32) = of_nat (length p) + 20" by (simp only: word_unat_eq_iff)
    then show ?thesis
      using ip_handle_wellformed [OF assms(7) P [unfolded hdr_def True] refl, of call] True
      by (simp add: P hdr_def split: option.splits)
  next
    case False
    then show ?thesis using ip_handle_other [OF P [unfolded hdr_def] False] by (simp add: P split: option.splits)
  qed
qed


text \<open>
  ARP frames carry the wrong type: the constant 0x0608 is already swapped and
  \<open>ethernet_send_frame\<close> swaps it again, so the type bytes on the wire are 06 08 where ARP is 08 06;
  datagrams go out with the right bytes 08 00.
\<close>

lemma frame_type_bytes:
  assumes "length d = 6" "length m = 6"
  shows "take 2 (drop 12 (frame_bytes d m 0x0608 p n)) = [0x06, 0x08]"
    "take 2 (drop 12 (frame_bytes d m 0x0800 p n)) = [0x08, 0x00]"
proof -
  have "le16 (swap16 0x0608) = [0x06, 0x08]" "le16 (swap16 0x0800) = [0x08, 0x00]"
    unfolding le16_def swap16_def by code_simp+
  then show "take 2 (drop 12 (frame_bytes d m 0x0608 p n)) = [0x06, 0x08]"
    "take 2 (drop 12 (frame_bytes d m 0x0800 p n)) = [0x08, 0x00]"
    using assms by (simp_all add: frame_bytes_def)
qed

section \<open>A configured host\<close>

text \<open>When a send succeeds: the card works and the two buffers, one inside the other, are there.\<close>

lemma ethernet_send_succeeds:
  assumes "card_ready s" "eth_initialized s" "p \<noteq> []" "length p \<le> 1500"
    and "snd (kmalloc (n_heap s) (of_nat (frame_size_for (length p)))) \<noteq> NULL"
  shows "snd (ethernet_send_frame (Some d) ty (Some p) s)"
  using assms frame_size_small [OF assms(4)]
  by (simp add: ethernet_send_frame_def nic_send_packet_def card_ready_def case_prod_unfold Let_def)

lemma ip_send_succeeds:
  assumes "heap_ok (n_heap s)" "card_ready s" "eth_initialized s" "ip_initialized s" "p \<noteq> []" "20 + length p \<le> 1500"
    and "kmalloc (n_heap s) (of_nat (20 + length p)) = (h, q)" "q \<noteq> NULL"
    and "snd (kmalloc h (of_nat (frame_size_for (20 + length p)))) \<noteq> NULL"
  shows "snd (ip_send_packet g dest proto (Some p) s)"
proof -
  define s1 where "s1 = s\<lparr>n_heap := h\<rparr>"
  define bytes where "bytes = ip_packet_bytes (id_counter s1) proto (ip_address s1) dest p"
  obtain s2 m where a: "arp_resolve (ip_next_hop dest s1) g s1 = (s2, m)" by (cases "arp_resolve (ip_next_hop dest s1) g s1")
  have "heap_ok h" by (rule kernel_heap.alloc_ok [OF assms(1) of_nat_datagram assms(7)]) (use assms(6) in simp)
  then have "heap_ok (n_heap s1)" by (simp add: s1_def)
  from arp_resolve_keeps [OF this a] have "n_heap s2 = h" "card_ready s2" "eth_initialized s2"
    using assms(2,3) by (simp_all add: s1_def card_ready_def)
  moreover have "length bytes = 20 + length p"
    by (simp add: bytes_def ip_packet_bytes_def ip_header_bytes_def Let_def)
  ultimately have "snd (ethernet_send_frame (Some m) 0x0800 (Some bytes) s2)"
    using assms(6,9) by (intro ethernet_send_succeeds) auto
  then show ?thesis
    using assms(4-8) a
    by (simp add: ip_send_packet_def ip_consts s1_def [symmetric] bytes_def [symmetric] case_prod_unfold Let_def)
qed

definition demo_ip :: ip_net where
  "demo_ip = eth_net.extend demo_eth
     \<lparr>arp_cache = replicate ARP_CACHE_SIZE \<lparr>ae_ip = 0, ae_mac = replicate 6 0, ae_occupied = False\<rparr>, arp_initialized = True,
      ip_address = 0x0200000A, subnet_mask = 0x00FFFFFF, gateway = 0x0100000A, id_counter = 0,
      protocol_handlers = (replicate 256 None)[1 := Some Icmp_handle_packet], ip_initialized = True\<rparr>"

lemma demo_ip_facts:
  "n_heap demo_ip = booted_heap" "card_ready demo_ip" "eth_initialized demo_ip" "eth_mac demo_ip = [2, 0, 0, 0, 0, 1]"
  "ip_initialized demo_ip" "ip_address demo_ip = 0x0200000A" "arp_initialized demo_ip"
  "protocol_handlers demo_ip ! Suc 0 = Some Icmp_handle_packet"
  "arp_cache demo_ip = replicate ARP_CACHE_SIZE \<lparr>ae_ip = 0, ae_mac = replicate 6 0, ae_occupied = False\<rparr>"
  by (simp_all add: demo_ip_def demo_eth_def eth_net.defs card_ready_def)

lemma demo_ip_cache: "arp_inv (arp_cache demo_ip)"
  unfolding arp_inv_def demo_ip_facts by (auto simp: ip_consts intro!: exI [of _ "0 :: nat"])

lemma booted_heap_nested:
  assumes "n = 23 \<or> n = 31"
  shows "snd (kmalloc booted_heap n) \<noteq> NULL" "snd (kmalloc (fst (kmalloc booted_heap n)) 60) \<noteq> NULL"
  using assms by (auto simp: heap_eval booted_heap_eval)

lemma demo_ip_send_pair:
  "ip_send_packet (replicate 6 0) 0x0200000A 1 (Some [1, 2, 3]) demo_ip =
   (fst (ip_send_packet (replicate 6 0) 0x0200000A 1 (Some [1, 2, 3]) demo_ip), True)"
proof -
  have "snd (ip_send_packet (replicate 6 0) 0x0200000A 1 (Some [1, 2, 3]) demo_ip)"
    using booted_heap_nested [of 23]
    by (intro ip_send_succeeds [where h = "fst (kmalloc booted_heap 23)" and q = "snd (kmalloc booted_heap 23)"])
      (simp_all add: demo_ip_facts booted_heap_ok frame_size_for_def eth_consts)
  then show ?thesis by (simp add: prod_eq_iff)
qed


theorem arp_answer_resolves_witness:
  "snd (arp_resolve 0x0500000A [] (arp_handle_packet (arp_bytes 0x0200 [2, 0, 0, 0, 0, 9] 0x0500000A (replicate 6 0) 7) demo_ip))
   = [2, 0, 0, 0, 0, 9]"
  using arp_answer_resolves [OF demo_ip_cache demo_ip_facts(7) _ _ refl, of "[2, 0, 0, 0, 0, 9]" "replicate 6 0" "0x0500000A" 7 "[]"]
  by (simp add: demo_ip_facts(9) ip_consts)

end
