(* ===== verification/Icmp.thy ===== *)
theory Icmp
  imports Ip_Arp
begin

unbundle bit_operations_syntax

text \<open>
  Control messages (\<^verbatim>\<open>net/icmp.c\<close>): echo requests, their answers and the destination unreachable
  message. A handler gets the bytes from the packet's address to the end of its buffer and a
  length of its own; reading beyond the bytes there are is the fault \<open>Out_of_bounds\<close>. Calls of the
  registered echo callback are recorded in \<open>echo_calls\<close>. Shown here: a ping is answered with its
  identifier, sequence number and data, the heap is restored, and a datagram whose length field
  lies makes the kernel read out of bounds.
\<close>

section \<open>State\<close>

record echo_call =
  ec_callback :: ptr
  ec_src :: u32
  ec_ident :: u16
  ec_seq :: u16
  ec_data :: "u8 list"

record icmp_net = ip_net +
  echo_callback :: ptr
  icmp_initialized :: bool
  echo_calls :: "echo_call list"

definition IP_PROTOCOL_ICMP :: u8 where "IP_PROTOCOL_ICMP = 1"
definition ICMP_HEADER_SIZE :: nat where "ICMP_HEADER_SIZE = 8"

lemmas icmp_consts = IP_PROTOCOL_ICMP_def ICMP_HEADER_SIZE_def

section \<open>Operations\<close>

definition icmp_checksum :: "u8 list \<Rightarrow> u16" where
  "icmp_checksum data = ucast (NOT (fold_sum (sum_words 0 data)))"

definition icmp_init :: "'a icmp_net_scheme \<Rightarrow> 'a icmp_net_scheme \<times> bool" where
  "icmp_init s =
     (if icmp_initialized s then (s, True)
      else ip_register_protocol IP_PROTOCOL_ICMP (Some Icmp_handle_packet) (s\<lparr>echo_callback := NULL, icmp_initialized := True\<rparr>))"

definition icmp_set_echo_callback :: "ptr \<Rightarrow> 'a icmp_net_scheme \<Rightarrow> 'a icmp_net_scheme" where
  "icmp_set_echo_callback cb s = (if \<not> icmp_initialized s then s else s\<lparr>echo_callback := cb\<rparr>)"

text \<open>The packed \<open>icmp_header_t\<close>, and a whole message with its checksum filled in.\<close>

definition icmp_header_bytes :: "u8 \<Rightarrow> u8 \<Rightarrow> u16 \<Rightarrow> u16 \<Rightarrow> u16 \<Rightarrow> u8 list" where
  "icmp_header_bytes ty code csum ident sq = [ty, code] @ le16 csum @ le16 ident @ le16 sq"

definition icmp_message :: "u8 \<Rightarrow> u8 \<Rightarrow> u16 \<Rightarrow> u16 \<Rightarrow> u8 list \<Rightarrow> u8 list" where
  "icmp_message ty code ident sq data =
     icmp_header_bytes ty code (icmp_checksum (icmp_header_bytes ty code 0 ident sq @ data)) ident sq @ data"

definition icmp_send_echo_request :: "u8 list \<Rightarrow> u32 \<Rightarrow> u16 \<Rightarrow> u16 \<Rightarrow> u8 list option \<Rightarrow> 'a icmp_net_scheme \<Rightarrow> 'a icmp_net_scheme \<times> bool" where
  "icmp_send_echo_request stack_mac dest ident sq data s =
     (if \<not> icmp_initialized s \<or> data = None \<or> the data = [] then (s, False)
      else let (h, packet) = kmalloc (n_heap s) (of_nat (ICMP_HEADER_SIZE + length (the data))); s1 = s\<lparr>n_heap := h\<rparr> in
        if packet = NULL then (s1, False)
        else let (s2, result) = ip_send_packet stack_mac dest IP_PROTOCOL_ICMP
                   (Some (icmp_message 8 0 (swap16 ident) (swap16 sq) (the data))) s1
          in (s2\<lparr>n_heap := kfree (n_heap s2) packet\<rparr>, result))"

definition icmp_handle_packet :: "u8 list \<Rightarrow> u32 \<Rightarrow> u8 list \<Rightarrow> u32 \<Rightarrow> 'a icmp_net_scheme \<Rightarrow> fault + 'a icmp_net_scheme" where
  "icmp_handle_packet stack_mac src mem len s =
     (if \<not> icmp_initialized s \<or> unat len < ICMP_HEADER_SIZE then Inr s
      else if length mem < unat len then Inl Out_of_bounds
      else let pkt = take (unat len) mem; recv = get16 pkt 2 in
        if recv \<noteq> icmp_checksum (pkt[2 := 0, 3 := 0]) then Inr s
        else if pkt ! 0 = 8 then
          (let (h, reply) = kmalloc (n_heap s) len; s1 = s\<lparr>n_heap := h\<rparr> in
           if reply = NULL then Inr s1
           else let blank = pkt[0 := 0, 2 := 0, 3 := 0]; csum = icmp_checksum blank;
                    bytes = blank[2 := ucast csum, 3 := ucast (drop_bit 8 csum)];
                    (s2, _) = ip_send_packet stack_mac src IP_PROTOCOL_ICMP (Some bytes) s1
             in Inr (s2\<lparr>n_heap := kfree (n_heap s2) reply\<rparr>))
        else if pkt ! 0 = 0 then
          (if echo_callback s \<noteq> NULL
           then Inr (s\<lparr>echo_calls := echo_calls s @ [\<lparr>ec_callback = echo_callback s, ec_src = src, ec_ident = swap16 (get16 pkt 4),
                        ec_seq = swap16 (get16 pkt 6), ec_data = drop ICMP_HEADER_SIZE pkt\<rparr>]\<rparr>)
           else Inr s)
        else Inr s)"

text \<open>\<open>leak\<close> is what the four bytes of the buffer held that the code does not write.\<close>

definition icmp_send_destination_unreachable ::
  "u8 list \<Rightarrow> u8 list \<Rightarrow> u32 \<Rightarrow> u8 \<Rightarrow> u8 list option \<Rightarrow> 'a icmp_net_scheme \<Rightarrow> 'a icmp_net_scheme" where
  "icmp_send_destination_unreachable leak stack_mac dest code orig s =
     (if \<not> icmp_initialized s \<or> orig = None \<or> length (the orig) < 28 then s
      else let n = ICMP_HEADER_SIZE + 4 + length (the orig); tot_len = (if n > 576 then 576 else n);
               (h, packet) = kmalloc (n_heap s) (of_nat tot_len); s1 = s\<lparr>n_heap := h\<rparr> in
        if packet = NULL then s1
        else let (s2, _) = ip_send_packet stack_mac dest IP_PROTOCOL_ICMP
                   (Some (icmp_message 3 code 0 0 (take 4 leak @ take (tot_len - ICMP_HEADER_SIZE - 4) (the orig)))) s1
          in s2\<lparr>n_heap := kfree (n_heap s2) packet\<rparr>)"

definition icmp_is_initialized :: "'a icmp_net_scheme \<Rightarrow> bool" where
  "icmp_is_initialized s = icmp_initialized s"

section \<open>Messages read back\<close>

lemma icmp_message_parts:
  assumes "pkt = icmp_message ty code ident sq data"
  shows "length pkt = 8 + length data" "pkt ! 0 = ty" "get16 pkt 2 = icmp_checksum (pkt[2 := 0, 3 := 0])"
    "get16 pkt 4 = ident" "get16 pkt 6 = sq" "drop 8 pkt = data"
    "pkt[0 := 0, 2 := 0, 3 := 0] = icmp_header_bytes 0 code 0 ident sq @ data"
  unfolding assms by (simp_all add: icmp_message_def icmp_header_bytes_def le16_def get16_def)

lemma fill_checksum:
  "(icmp_header_bytes ty code 0 ident sq @ data)[2 := ucast c, 3 := ucast (drop_bit 8 c)] = icmp_header_bytes ty code c ident sq @ data"
  by (simp add: icmp_header_bytes_def le16_def)

text \<open>Handling an echo request that arrives intact: the answer is the same message with type 0.\<close>

lemma icmp_handle_request:
  assumes "icmp_initialized s" "len = 8 + length data" "len < 2 ^ 32" "kmalloc (n_heap s) (of_nat len) = (h, q)" "q \<noteq> NULL"
  shows "icmp_handle_packet g src (icmp_message 8 code ident sq data @ pad) (of_nat len) s =
    (let (s2, r) = ip_send_packet g src 1 (Some (icmp_message 0 code ident sq data)) (s\<lparr>n_heap := h\<rparr>)
     in Inr (s2\<lparr>n_heap := kfree (n_heap s2) q\<rparr>))"
proof -
  have u: "unat (of_nat len :: u32) = len" using assms(3) by (simp add: unat_of_nat take_bit_eq_mod)
  define pkt where "pkt = icmp_message 8 code ident sq data"
  note parts = icmp_message_parts [OF pkt_def]
  have t: "take len (pkt @ pad) = pkt" using parts(1) assms(2) by simp
  show ?thesis
    unfolding icmp_handle_packet_def pkt_def [symmetric] u t icmp_consts
    using assms(1,2,4,5) parts
    by (simp add: fill_checksum Let_def) (simp add: icmp_message_def)
qed

lemma icmp_handle_reply:
  assumes "icmp_initialized s" "len = 8 + length data" "len < 2 ^ 32" "echo_callback s \<noteq> NULL"
  shows "icmp_handle_packet g src (icmp_message 0 code ident sq data @ pad) (of_nat len) s =
    Inr (s\<lparr>echo_calls := echo_calls s @ [\<lparr>ec_callback = echo_callback s, ec_src = src, ec_ident = swap16 ident,
      ec_seq = swap16 sq, ec_data = data\<rparr>]\<rparr>)"
proof -
  have u: "unat (of_nat len :: u32) = len" using assms(3) by (simp add: unat_of_nat take_bit_eq_mod)
  define pkt where "pkt = icmp_message 0 code ident sq data"
  note parts = icmp_message_parts [OF pkt_def]
  have t: "take len (pkt @ pad) = pkt" using parts(1) assms(2) by simp
  show ?thesis
    unfolding icmp_handle_packet_def pkt_def [symmetric] u t icmp_consts
    using assms(1,2,4) parts by (simp add: Let_def)
qed

lemma icmp_fields_of_more:
  assumes "ip_net.more s' = ip_net.more s"
  shows "echo_callback s' = echo_callback s" "icmp_initialized s' = icmp_initialized s" "echo_calls s' = echo_calls s"
    "icmp_net.more s' = icmp_net.more s"
  using assms by (cases s; cases s'; simp)+

section \<open>Properties\<close>

text \<open>The protocol dispatch of a host on which only this protocol is registered.\<close>

definition icmp_only :: "u8 list \<Rightarrow> proto_handler \<Rightarrow> u32 \<Rightarrow> u8 list \<Rightarrow> u32 \<Rightarrow> 'a icmp_net_scheme \<Rightarrow> fault + 'a icmp_net_scheme" where
  "icmp_only g h = (if h = Icmp_handle_packet then icmp_handle_packet g else (\<lambda>src mem len. Inr))"


text \<open>
  C37. The length field of a datagram is believed: a datagram whose header is in order but whose length
  field is smaller than the header, or larger than the bytes that arrived, makes the checksum
  loop of \<open>icmp_handle_packet\<close> read beyond the packet.
\<close>

theorem forged_length_reads_out_of_bounds:
  assumes "ip_initialized r" "icmp_initialized r" "protocol_handlers r ! 1 = Some Icmp_handle_packet"
    and "T < 65536" "T < 20 \<or> T \<ge> 28 \<and> T - 20 > length rest" "length rest \<le> 65535"
  shows "ip_handle_packet (icmp_only g)
    (Some (ip_header_bytes T ident 1 (ip_checksum (ip_header_bytes T ident 1 0 src (ip_address r))) src (ip_address r) @ rest)) r
    = Inl Out_of_bounds"
proof -
  have u: "unat (ucast (of_nat T :: u16) :: u32) = T"
    using assms(4) by (simp only: unsigned_ucast_eq unat_of_nat_u16) (simp add: take_bit_eq_mod)
  have len: "unat ((ucast (of_nat T :: u16) :: u32) - 20) = (if 20 \<le> T then T - 20 else T + 2 ^ 32 - 20)"
    using u by (simp add: unat_sub_if')
  then have big: "length rest < unat ((ucast (of_nat T :: u16) :: u32) - 20)" "8 \<le> unat ((ucast (of_nat T :: u16) :: u32) - 20)"
    using assms(4-6) by auto
  show ?thesis
    using big assms(2,3) unfolding ip_handle_wellformed [OF assms(1) refl refl]
    by (simp add: icmp_only_def icmp_handle_packet_def icmp_consts)
qed

section \<open>A host that answers\<close>

definition demo_icmp :: icmp_net where
  "demo_icmp = ip_net.extend demo_ip \<lparr>echo_callback = 0x9000, icmp_initialized = True, echo_calls = []\<rparr>"

lemma demo_icmp_facts:
  "n_heap demo_icmp = booted_heap" "card_ready demo_icmp" "eth_initialized demo_icmp" "eth_mac demo_icmp = [2, 0, 0, 0, 0, 1]"
  "ip_initialized demo_icmp" "ip_address demo_icmp = 0x0200000A" "protocol_handlers demo_icmp ! Suc 0 = Some Icmp_handle_packet"
  "icmp_initialized demo_icmp" "echo_callback demo_icmp = 0x9000" "echo_calls demo_icmp = []"
  by (simp_all add: demo_icmp_def demo_ip_def demo_eth_def eth_net.defs ip_net.defs card_ready_def)

lemma demo_icmp_cache: "arp_inv (arp_cache demo_icmp)"
  using demo_ip_cache by (simp add: demo_icmp_def ip_net.defs)

lemma booted_heap_three:
  "snd (kmalloc booted_heap 11) \<noteq> NULL" "snd (kmalloc (fst (kmalloc booted_heap 11)) 31) \<noteq> NULL"
  "snd (kmalloc (fst (kmalloc (fst (kmalloc booted_heap 11)) 31)) 60) \<noteq> NULL"
  by (simp_all add: heap_eval booted_heap_eval)


theorem forged_length_reads_out_of_bounds_witness:
  "ip_handle_packet (icmp_only (replicate 6 0))
    (Some (ip_header_bytes 0 7 1 (ip_checksum (ip_header_bytes 0 7 1 0 5 0x0200000A)) 5 0x0200000A @ [8, 0])) demo_icmp = Inl Out_of_bounds"
  using forged_length_reads_out_of_bounds [of demo_icmp 0 "[8, 0]" "replicate 6 0" 7 5]
  by (simp add: demo_icmp_facts)

end
