(* ===== verification/Udp.thy ===== *)
theory Udp
  imports Icmp
begin

unbundle bit_operations_syntax

text \<open>
  User datagrams (\<^verbatim>\<open>net/udp.c\<close>): the socket table, sending and the delivery to the callback of a
  socket. Callbacks are the values of \<open>udp_handler\<close>; \<open>udp_handle_packet\<close> takes the function that
  calls them. A socket pointer is its index in the table. Shown here: a datagram reaches exactly
  the socket that has its port, with sender, port and data; the ports of the table stay distinct;
  and the checksum is not the one of the standard, so that datagrams of other systems are dropped.
\<close>

section \<open>State\<close>

datatype udp_handler = Dhcp_handle_packet | Dns_handle_response | Other_udp ptr

record udp_socket =
  us_port :: u16
  us_callback :: "udp_handler option"
  us_in_use :: bool

record udp_net = icmp_net +
  udp_sockets :: "udp_socket list"
  udp_next_port :: u16
  udp_initialized :: bool

definition UDP_MAX_SOCKETS :: nat where "UDP_MAX_SOCKETS = 256"
definition UDP_HEADER_SIZE :: nat where "UDP_HEADER_SIZE = 8"
definition IP_PROTOCOL_UDP :: u8 where "IP_PROTOCOL_UDP = 17"

lemmas udp_consts = UDP_MAX_SOCKETS_def UDP_HEADER_SIZE_def IP_PROTOCOL_UDP_def

definition free_socket :: udp_socket where
  "free_socket = \<lparr>us_port = 0, us_callback = None, us_in_use = False\<rparr>"

section \<open>Operations\<close>

text \<open>The sum before folding; \<open>hdr\<close> are the eight bytes of the header, whose checksum field is skipped.\<close>

definition udp_sum :: "u32 \<Rightarrow> u32 \<Rightarrow> u8 list \<Rightarrow> u8 list \<Rightarrow> u32" where
  "udp_sum src dest hdr data =
     (let s0 = (drop_bit 16 src AND 0xFFFF) + (src AND 0xFFFF) + (drop_bit 16 dest AND 0xFFFF) + (dest AND 0xFFFF) +
               ucast IP_PROTOCOL_UDP + ucast (get16 hdr 4);
          s1 = sum_words s0 (take 6 hdr);
          s2 = sum_words s1 (take (2 * (length data div 2)) data)
      in if odd (length data) then s2 + push_bit 8 (ucast (last data)) else s2)"

definition udp_checksum :: "u32 \<Rightarrow> u32 \<Rightarrow> u8 list \<Rightarrow> u8 list \<Rightarrow> u16" where
  "udp_checksum src dest hdr data = ucast (NOT (fold_sum (udp_sum src dest hdr data)))"

definition udp_init :: "'a udp_net_scheme \<Rightarrow> 'a udp_net_scheme \<times> bool" where
  "udp_init s =
     (if udp_initialized s then (s, True)
      else ip_register_protocol IP_PROTOCOL_UDP (Some Udp_handle_packet)
        (s\<lparr>udp_sockets := replicate UDP_MAX_SOCKETS free_socket, udp_next_port := 49152, udp_initialized := True\<rparr>))"

text \<open>The choice of the port: the given one, or the next dynamic one.\<close>

definition udp_pick_port :: "u16 \<Rightarrow> 'a udp_net_scheme \<Rightarrow> 'a udp_net_scheme \<times> u16" where
  "udp_pick_port port s =
     (if port = 0 then
        let nxt = udp_next_port s + 1 in
        (s\<lparr>udp_next_port := (if nxt < 49152 then 49152 else nxt)\<rparr>, udp_next_port s)
      else (s, port))"

definition udp_create_socket :: "u16 \<Rightarrow> udp_handler option \<Rightarrow> 'a udp_net_scheme \<Rightarrow> 'a udp_net_scheme \<times> nat option" where
  "udp_create_socket port cb s =
     (if \<not> udp_initialized s \<or> cb = None then (s, None)
      else let (s1, port1) = udp_pick_port port s in
        case first_index (\<lambda>k. us_in_use k \<and> us_port k = port1) (udp_sockets s1) of
          Some _ \<Rightarrow> (s1, None)
        | None \<Rightarrow>
            case first_index (\<lambda>k. \<not> us_in_use k) (udp_sockets s1) of
              None \<Rightarrow> (s1, None)
            | Some i \<Rightarrow> (s1\<lparr>udp_sockets := (udp_sockets s1)[i := \<lparr>us_port = port1, us_callback = cb, us_in_use = True\<rparr>]\<rparr>, Some i))"

definition udp_close_socket :: "nat option \<Rightarrow> 'a udp_net_scheme \<Rightarrow> 'a udp_net_scheme" where
  "udp_close_socket sock s =
     (if \<not> udp_initialized s \<or> sock = None then s
      else s\<lparr>udp_sockets := (udp_sockets s)[the sock := free_socket]\<rparr>)"

text \<open>The packed \<open>udp_header_t\<close>, in network byte order but for the checksum.\<close>

definition udp_header_bytes :: "u16 \<Rightarrow> u16 \<Rightarrow> nat \<Rightarrow> u16 \<Rightarrow> u8 list" where
  "udp_header_bytes sport dport tot csum = le16 (swap16 sport) @ le16 (swap16 dport) @ le16 (swap16 (of_nat tot)) @ le16 csum"

definition udp_packet_bytes :: "u32 \<Rightarrow> u32 \<Rightarrow> u16 \<Rightarrow> u16 \<Rightarrow> u8 list \<Rightarrow> u8 list" where
  "udp_packet_bytes src dest sport dport data =
     (let tot = UDP_HEADER_SIZE + length data in
      udp_header_bytes sport dport tot (udp_checksum src dest (udp_header_bytes sport dport tot 0) data) @ data)"

definition udp_send :: "u8 list \<Rightarrow> nat option \<Rightarrow> u32 \<Rightarrow> u16 \<Rightarrow> u8 list option \<Rightarrow> 'a udp_net_scheme \<Rightarrow> 'a udp_net_scheme \<times> bool" where
  "udp_send stack_mac sock dest dport data s =
     (if \<not> udp_initialized s \<or> sock = None \<or> data = None \<or> the data = [] then (s, False)
      else let tot = UDP_HEADER_SIZE + length (the data) in
        if tot > 65507 then (s, False)
        else let (h, packet) = kmalloc (n_heap s) (of_nat tot); s1 = s\<lparr>n_heap := h\<rparr> in
          if packet = NULL then (s1, False)
          else let (s2, result) = ip_send_packet stack_mac dest IP_PROTOCOL_UDP
                     (Some (udp_packet_bytes (ip_get_address s1) dest (us_port (udp_sockets s1 ! the sock)) dport (the data))) s1
            in (s2\<lparr>n_heap := kfree (n_heap s2) packet\<rparr>, result))"

definition udp_handle_packet ::
  "(udp_handler \<Rightarrow> u32 \<Rightarrow> u16 \<Rightarrow> u8 list \<Rightarrow> 'a udp_net_scheme \<Rightarrow> fault + 'a udp_net_scheme) \<Rightarrow> u32 \<Rightarrow> u8 list \<Rightarrow> u32 \<Rightarrow>
     'a udp_net_scheme \<Rightarrow> fault + 'a udp_net_scheme" where
  "udp_handle_packet call src mem len s =
     (if \<not> udp_initialized s \<or> unat len < UDP_HEADER_SIZE then Inr s
      else if length mem < UDP_HEADER_SIZE then Inl Out_of_bounds
      else let dest_port = swap16 (get16 mem 2); src_port = swap16 (get16 mem 0) in
        case first_index (\<lambda>k. us_in_use k \<and> us_port k = dest_port) (udp_sockets s) of
          None \<Rightarrow> Inr s
        | Some i \<Rightarrow>
            if length mem < unat len then Inl Out_of_bounds
            else let data = drop UDP_HEADER_SIZE (take (unat len) mem); recv = get16 mem 6;
                     calc = udp_checksum src (ip_get_address s) ((take UDP_HEADER_SIZE mem)[6 := 0, 7 := 0]) data in
              if recv \<noteq> calc then Inr s
              else case us_callback (udp_sockets s ! i) of
                  None \<Rightarrow> Inl Null_deref
                | Some cb \<Rightarrow> call cb src src_port data s)"

definition udp_is_initialized :: "'a udp_net_scheme \<Rightarrow> bool" where
  "udp_is_initialized s = udp_initialized s"

section \<open>Datagrams read back\<close>

lemma length_udp_header [simp]: "length (udp_header_bytes sport dport tot csum) = 8"
  by (simp add: udp_header_bytes_def)

lemma udp_header_fields:
  "get16 (udp_header_bytes sport dport tot csum @ rest) 0 = swap16 sport"
  "get16 (udp_header_bytes sport dport tot csum @ rest) 2 = swap16 dport"
  "get16 (udp_header_bytes sport dport tot csum @ rest) 4 = swap16 (of_nat tot)"
  "get16 (udp_header_bytes sport dport tot csum @ rest) 6 = csum"
  "(udp_header_bytes sport dport tot csum)[6 := 0, 7 := 0] = udp_header_bytes sport dport tot 0"
  by (simp_all add: udp_header_bytes_def le16_def get16_def)

lemma udp_handle_wellformed:
  assumes "udp_initialized r" "length data \<le> 65535"
  shows "udp_handle_packet call src (udp_packet_bytes src (ip_address r) sport dport data @ pad) (of_nat (8 + length data)) r =
    (case first_index (\<lambda>k. us_in_use k \<and> us_port k = dport) (udp_sockets r) of
       None \<Rightarrow> Inr r
     | Some i \<Rightarrow> (case us_callback (udp_sockets r ! i) of None \<Rightarrow> Inl Null_deref | Some cb \<Rightarrow> call cb src sport data r))"
proof -
  define H where "H = udp_header_bytes sport dport (8 + length data) (udp_checksum src (ip_address r) (udp_header_bytes sport dport (8 + length data) 0) data)"
  have P: "udp_packet_bytes src (ip_address r) sport dport data @ pad = H @ data @ pad"
    by (simp add: udp_packet_bytes_def H_def udp_consts Let_def)
  have u: "unat (of_nat (8 + length data) :: u32) = 8 + length data"
    using assms(2) by (simp only: unat_of_nat) (simp add: take_bit_eq_mod)
  have H: "length H = 8" "get16 (H @ data @ pad) 0 = swap16 sport" "get16 (H @ data @ pad) 2 = swap16 dport"
    "get16 (H @ data @ pad) 6 = udp_checksum src (ip_address r) (H[6 := 0, 7 := 0]) data"
    by (simp_all add: H_def udp_header_fields)
  show ?thesis
    unfolding udp_handle_packet_def P u udp_consts
    using assms(1) H by (simp add: ip_get_address_def split: option.splits)
qed


section \<open>The checksum against the standard\<close>

text \<open>The words summed by RFC 768: pseudo header, header without its checksum, data.\<close>

definition rfc768_bytes :: "u32 \<Rightarrow> u32 \<Rightarrow> u16 \<Rightarrow> u16 \<Rightarrow> u8 list \<Rightarrow> u8 list" where
  "rfc768_bytes src dest sport dport data =
     (let tot = UDP_HEADER_SIZE + length data
      in le32 src @ le32 dest @ [0, IP_PROTOCOL_UDP] @ le16 (swap16 (of_nat tot)) @ udp_header_bytes sport dport tot 0 @ data)"

lemma unat_high16: "unat (drop_bit 16 (x :: u32)) = unat x div 65536"
  by (simp add: drop_bit_eq_div unat_div)

lemma unat_ucast_byte: "unat (ucast (x :: u32) :: u8) = unat x mod 256"
  by (simp add: unsigned_ucast_eq take_bit_eq_mod)

lemma nat_sum_le32: "nat_sum (le32 x) = unat (drop_bit 16 x AND 0xFFFF) + unat (x AND 0xFFFF)"
proof -
  define n where "n = unat x"
  have b: "unat (drop_bit 8 x) = n div 256" "unat (drop_bit 16 x) = n div 65536" "unat (drop_bit 24 x) = n div 16777216"
    by (simp_all add: drop_bit_eq_div unat_div n_def)
  have n: "n < 4294967296" using unat_u32_less [of x] by (simp add: n_def)
  have "n div 65536 div 256 = n div 16777216" "n div 16777216 mod 256 = n div 16777216"
    using n by (simp_all add: div_mult2_eq [symmetric] less_mult_imp_div_less)
  moreover have "n mod 65536 = n mod 256 + 256 * (n div 256 mod 256)" using mod_mult2_eq [of n 256 256] by simp
  moreover have "n div 65536 mod 256 + 256 * (n div 65536 div 256) = n div 65536" by simp
  ultimately have eq: "n mod 256 + 256 * (n div 256 mod 256) + (n div 65536 mod 256 + 256 * (n div 16777216)) = n div 65536 + n mod 65536"
    by (simp only:)
  show ?thesis
    unfolding le32_def unat_low16 using n eq by (simp add: unat_ucast_byte b n_def [symmetric])
qed

lemma unat_udp_sum:
  assumes "length hdr = 8" "even (length data)" "length data \<le> 65507"
  shows "unat (udp_sum src dest hdr data) =
    nat_sum (le32 src) + nat_sum (le32 dest) + 17 + unat (get16 hdr 4) + nat_sum (take 6 hdr) + nat_sum data"
proof -
  let ?a = "drop_bit 16 src AND 0xFFFF" and ?b = "src AND 0xFFFF" and ?c = "drop_bit 16 dest AND 0xFFFF" and ?d = "dest AND 0xFFFF"
  have l: "unat ?a < 65536" "unat ?b < 65536" "unat ?c < 65536" "unat ?d < 65536" unfolding unat_low16 by simp_all
  have g: "unat (ucast (get16 hdr 4) :: u32) = unat (get16 hdr 4)" "unat (get16 hdr 4) < 65536"
    using unat_u16_less [of "get16 hdr 4"] by (simp_all add: unsigned_ucast_eq take_bit_eq_mod)
  have h: "nat_sum (take 6 hdr) \<le> 65535 * 3" using nat_sum_le [of "take 6 hdr"] assms(1) by simp
  have "(length data + 1) div 2 \<le> 32754" using assms(3) by linarith
  then have dt: "nat_sum data \<le> 65535 * 32754" using nat_sum_le [of data] by (meson le_trans mult_le_mono2)
  define s0 where "s0 = ?a + ?b + ?c + ?d + ucast IP_PROTOCOL_UDP + ucast (get16 hdr 4)"
  have s0: "unat s0 = unat ?a + unat ?b + unat ?c + unat ?d + 17 + unat (get16 hdr 4)"
    using l g unfolding s0_def udp_consts by (simp add: unat_plus_if')
  have s1: "unat (sum_words s0 (take 6 hdr)) = unat s0 + nat_sum (take 6 hdr)"
    by (rule unat_sum_words) (use s0 l g h in simp)
  have "unat (sum_words (sum_words s0 (take 6 hdr)) data) = unat (sum_words s0 (take 6 hdr)) + nat_sum data"
    by (rule unat_sum_words) (use s0 s1 l g h dt in simp)
  moreover have "2 * (length data div 2) = length data" using assms(2) by simp
  ultimately show ?thesis
    using assms(2) unfolding udp_sum_def s0_def [symmetric] Let_def by (simp add: s0 s1 nat_sum_le32)
qed

lemma unat_folded:
  "unat (ucast (NOT (fold_sum s)) :: u16) = 65535 - residue (unat s)"
proof -
  have "unat (ucast (NOT (fold_sum s)) :: u16) = (2 ^ 32 - 1 - unat (fold_sum s)) mod 65536"
    by (simp add: unsigned_ucast_eq take_bit_eq_mod unat_not32)
  also have "\<dots> = 65535 - unat (fold_sum s)"
    using low_half_complement [OF fold_sum_less] by simp
  finally show ?thesis by (simp only: unat_fold_sum)
qed

lemma udp_checksum_not_rfc:
  assumes "even (length data)" "length data \<le> 65507"
  shows "udp_checksum src dest (udp_header_bytes sport dport (8 + length data) 0) data \<noteq> ip_checksum (rfc768_bytes src dest sport dport data)"
proof
  let ?h = "udp_header_bytes sport dport (8 + length data) 0" and ?L = "swap16 (of_nat (8 + length data))"
  define n where "n = nat_sum (le32 src) + nat_sum (le32 dest) + unat ?L + nat_sum (take 6 ?h) + nat_sum data"
  have g: "get16 ?h 4 = ?L" using udp_header_fields(3) [of sport dport "8 + length data" 0 "[]"] by simp
  have "unat (udp_checksum src dest ?h data) = 65535 - residue (n + 17)"
    unfolding udp_checksum_def unat_folded unat_udp_sum [OF length_udp_header assms] g n_def
    by (simp only: ac_simps)
  moreover have "nat_sum (rfc768_bytes src dest sport dport data) = n + 4352"
  proof -
    have "?h = take 6 ?h @ le16 0" by (simp add: udp_header_bytes_def)
    then have "nat_sum (?h @ data) = nat_sum (take 6 ?h @ le16 0 @ data)" by (simp only: append_assoc [symmetric])
    also have "\<dots> = nat_sum (take 6 ?h) + nat_sum data" by (simp add: nat_sum_append)
    finally have "nat_sum (?h @ data) = nat_sum (take 6 ?h) + nat_sum data" .
    then show ?thesis
      by (simp add: rfc768_bytes_def Let_def udp_consts n_def nat_sum_append)
  qed
  moreover have "summable (rfc768_bytes src dest sport dport data)"
    using assms(2) by (simp add: summable_def rfc768_bytes_def udp_consts Let_def)
  moreover assume "udp_checksum src dest ?h data = ip_checksum (rfc768_bytes src dest sport dport data)"
  ultimately have "65535 - residue (n + 17) = 65535 - residue (n + 4352)" by (simp add: unat_ip_checksum)
  then have "residue (n + 17) = residue (n + 4352)" using residue_less [of "n + 17"] residue_less [of "n + 4352"] by simp
  from residue_eq_cases [OF this] show False by simp
qed


section \<open>The table of sockets\<close>

text \<open>No two sockets in use share a port, and a socket in use has a callback.\<close>

definition udp_table_ok :: "udp_socket list \<Rightarrow> bool" where
  "udp_table_ok ks \<longleftrightarrow> (\<forall>i < length ks. us_in_use (ks ! i) \<longrightarrow> us_callback (ks ! i) \<noteq> None \<and>
     (\<forall>j < length ks. us_in_use (ks ! j) \<and> us_port (ks ! j) = us_port (ks ! i) \<longrightarrow> j = i))"

lemma udp_table_lookup:
  assumes "udp_table_ok ks" "i < length ks" "us_in_use (ks ! i)"
  shows "first_index (\<lambda>k. us_in_use k \<and> us_port k = us_port (ks ! i)) ks = Some i"
proof (rule first_index_SomeI)
  show "\<not> (us_in_use (ks ! j) \<and> us_port (ks ! j) = us_port (ks ! i))" if "j < i" for j
    using assms that less_trans [OF that assms(2)] unfolding udp_table_ok_def by blast
qed (use assms in auto)

lemma udp_table_insert:
  assumes "udp_table_ok ks" "\<forall>k \<in> set ks. \<not> (us_in_use k \<and> us_port k = p)" "i < length ks" "cb \<noteq> None"
  shows "udp_table_ok (ks[i := \<lparr>us_port = p, us_callback = cb, us_in_use = True\<rparr>])"
  using assms unfolding udp_table_ok_def by (auto simp: nth_list_update all_set_conv_all_nth)

lemma udp_table_remove:
  "udp_table_ok ks \<Longrightarrow> udp_table_ok (ks[i := free_socket])"
  unfolding udp_table_ok_def
  by (cases "i < length ks") (auto simp: nth_list_update free_socket_def list_update_beyond split: if_splits)

lemma udp_pick_port_keeps [simp]:
  "udp_sockets (fst (udp_pick_port p s)) = udp_sockets s" "udp_initialized (fst (udp_pick_port p s)) = udp_initialized s"
  by (simp_all add: udp_pick_port_def Let_def)

section \<open>Properties\<close>

text \<open>The protocol dispatch of a host on which only this protocol is registered.\<close>

definition udp_only :: "(udp_handler \<Rightarrow> u32 \<Rightarrow> u16 \<Rightarrow> u8 list \<Rightarrow> 'a udp_net_scheme \<Rightarrow> fault + 'a udp_net_scheme) \<Rightarrow>
    proto_handler \<Rightarrow> u32 \<Rightarrow> u8 list \<Rightarrow> u32 \<Rightarrow> 'a udp_net_scheme \<Rightarrow> fault + 'a udp_net_scheme" where
  "udp_only call h = (if h = Udp_handle_packet then udp_handle_packet call else (\<lambda>src mem len. Inr))"

lemma udp_fields_of_more:
  assumes "ip_net.more s' = ip_net.more s"
  shows "udp_sockets s' = udp_sockets s" "udp_initialized s' = udp_initialized s"
  using assms by (cases s; cases s'; simp)+

text \<open>Whatever happens to a datagram, the heap and the layers' configuration are as before.\<close>

lemma udp_send_keeps:
  assumes "heap_ok (n_heap s)"
  shows "n_heap (fst (udp_send g sock dest dport data s)) = n_heap s \<and> ip_net.more (fst (udp_send g sock dest dport data s)) = ip_net.more s"
proof (cases "\<not> udp_initialized s \<or> sock = None \<or> data = None \<or> the data = [] \<or> 8 + length (the data) > 65507")
  case True
  then show ?thesis by (auto simp: udp_send_def udp_consts)
next
  case False
  then obtain d where d: "data = Some d" "d \<noteq> []" "8 + length d \<le> 65507" "udp_initialized s" "sock \<noteq> None" by auto
  obtain h q where k: "kmalloc (n_heap s) (of_nat (8 + length d)) = (h, q)" by (cases "kmalloc (n_heap s) (of_nat (8 + length d))")
  show ?thesis
  proof (cases "q = NULL")
    case True
    then have "h = n_heap s" using kernel_heap.alloc_fail [OF assms] k by simp
    with True d k show ?thesis by (simp add: udp_send_def udp_consts)
  next
    case q: False
    have small: "small_request (of_nat (8 + length d))" using d(3) by (intro of_nat_datagram) simp
    have ok1: "heap_ok (n_heap (s\<lparr>n_heap := h\<rparr>))" using kernel_heap.alloc_ok [OF assms small k] by simp
    have restored: "kfree h q = n_heap s" by (rule kernel_heap.alloc_release [OF assms small k q])
    define P where "P = Some (udp_packet_bytes (ip_get_address (s\<lparr>n_heap := h\<rparr>)) dest (us_port (udp_sockets s ! the sock)) dport d)"
    obtain s2 t where send: "ip_send_packet g dest 17 P (s\<lparr>n_heap := h\<rparr>) = (s2, t)"
      by (cases "ip_send_packet g dest 17 P (s\<lparr>n_heap := h\<rparr>)")
    show ?thesis
      using d k q restored ip_send_spec [OF ok1 send] send by (auto simp: udp_send_def udp_consts P_def [symmetric])
  qed
qed


text \<open>
  Ports are exclusive: creating and closing sockets keeps the ports of the sockets in use
  distinct; a created socket gets the port asked for (or the next dynamic one) and changes no
  other, and creation fails exactly when that port is taken or all sockets are in use.
\<close>

theorem udp_ports_exclusive:
  assumes "udp_initialized s" "udp_table_ok (udp_sockets s)" "cb \<noteq> None" "udp_create_socket p cb s = (s', r)"
    and p'_def: "p' = (if p = 0 then udp_next_port s else p)"
  shows "udp_table_ok (udp_sockets s') \<and> udp_table_ok (udp_sockets (udp_close_socket k s)) \<and>
    (case r of
       None \<Rightarrow> udp_sockets s' = udp_sockets s \<and> ((\<exists>e \<in> set (udp_sockets s). us_in_use e \<and> us_port e = p') \<or> (\<forall>e \<in> set (udp_sockets s). us_in_use e))
     | Some i \<Rightarrow> i < length (udp_sockets s) \<and> \<not> us_in_use (udp_sockets s ! i) \<and> (\<forall>e \<in> set (udp_sockets s). us_in_use e \<longrightarrow> us_port e \<noteq> p') \<and>
         udp_sockets s' = (udp_sockets s)[i := \<lparr>us_port = p', us_callback = cb, us_in_use = True\<rparr>])"
proof -
  obtain s1 where s1: "udp_pick_port p s = (s1, p')" "udp_sockets s1 = udp_sockets s"
    using udp_pick_port_keeps(1) [of p s] by (cases "udp_pick_port p s") (auto simp: udp_pick_port_def p'_def Let_def split: if_splits)
  have close: "udp_table_ok (udp_sockets (udp_close_socket k s))"
    using udp_table_remove [OF assms(2)] assms(2) by (simp add: udp_close_socket_def)
  show ?thesis
  proof (cases "first_index (\<lambda>k. us_in_use k \<and> us_port k = p') (udp_sockets s)")
    case (Some j)
    then have "s' = s1 \<and> r = None" using assms(1,3,4) s1 by (auto simp: udp_create_socket_def)
    moreover have "\<exists>e \<in> set (udp_sockets s). us_in_use e \<and> us_port e = p'" using first_index_SomeD [OF Some] nth_mem by blast
    ultimately show ?thesis using s1(2) assms(2) close by simp
  next
    case None
    then have free: "\<forall>e \<in> set (udp_sockets s). \<not> (us_in_use e \<and> us_port e = p')" by (simp add: first_index_None)
    show ?thesis
    proof (cases "first_index (\<lambda>k. \<not> us_in_use k) (udp_sockets s)")
      case full: None
      then have "s' = s1 \<and> r = None" using assms(1,3,4) s1 None by (auto simp add: udp_create_socket_def)
      moreover have "\<forall>e \<in> set (udp_sockets s). us_in_use e" using full by (simp add: first_index_None)
      ultimately show ?thesis using s1(2) assms(2) close by simp
    next
      case (Some i)
      then have "udp_sockets s' = (udp_sockets s)[i := \<lparr>us_port = p', us_callback = cb, us_in_use = True\<rparr>]" "r = Some i"
        using assms(1,3,4) s1 None by (auto simp: udp_create_socket_def)
      then show ?thesis
        using udp_table_insert [OF assms(2) free _ assms(3)] first_index_SomeD [OF Some] free close by auto
    qed
  qed
qed

text \<open>
  The checksum is not the one of RFC 768: the protocol number is added without the byte swap the
  other terms have, so for data of even length the checksum computed always differs from the
  standard one, and a datagram that carries the standard checksum is dropped.
\<close>

theorem udp_rejects_standard_checksums:
  assumes "udp_initialized r" "even (length data)" "length data \<le> 65507"
  shows "udp_handle_packet call src (udp_header_bytes sport dport (8 + length data) (ip_checksum (rfc768_bytes src (ip_address r) sport dport data)) @ data)
    (of_nat (8 + length data)) r = Inr r"
proof -
  define H where "H = udp_header_bytes sport dport (8 + length data) (ip_checksum (rfc768_bytes src (ip_address r) sport dport data))"
  have u: "unat (of_nat (8 + length data) :: u32) = 8 + length data"
    using assms(3) by (simp only: unat_of_nat) (simp add: take_bit_eq_mod)
  have H: "length H = 8" "get16 (H @ data) 6 \<noteq> udp_checksum src (ip_address r) (H[6 := 0, 7 := 0]) data"
    using udp_checksum_not_rfc [OF assms(2,3), of src "ip_address r" sport dport]
    by (simp_all add: H_def udp_header_fields)
  show ?thesis
    unfolding udp_handle_packet_def H_def [symmetric] u udp_consts
    using assms(1) H by (simp add: ip_get_address_def Let_def split: option.splits)
qed

section \<open>A host with a socket\<close>

definition demo_udp :: udp_net where
  "demo_udp = icmp_net.extend (demo_icmp\<lparr>protocol_handlers := (replicate 256 None)[17 := Some Udp_handle_packet]\<rparr>)
     \<lparr>udp_sockets = \<lparr>us_port = 53, us_callback = Some Dns_handle_response, us_in_use = True\<rparr> # replicate 255 free_socket,
      udp_next_port = 49152, udp_initialized = True\<rparr>"

lemma demo_udp_facts:
  "n_heap demo_udp = booted_heap" "card_ready demo_udp" "eth_initialized demo_udp" "eth_mac demo_udp = [2, 0, 0, 0, 0, 1]"
  "ip_initialized demo_udp" "ip_address demo_udp = 0x0200000A" "protocol_handlers demo_udp ! 17 = Some Udp_handle_packet"
  "udp_sockets demo_udp = \<lparr>us_port = 53, us_callback = Some Dns_handle_response, us_in_use = True\<rparr> # replicate 255 free_socket"
  "udp_initialized demo_udp" "udp_next_port demo_udp = 49152"
  by (simp_all add: demo_udp_def demo_icmp_def demo_ip_def demo_eth_def eth_net.defs ip_net.defs icmp_net.defs card_ready_def)

lemma demo_udp_cache: "arp_inv (arp_cache demo_udp)"
  using demo_ip_cache by (simp add: demo_udp_def demo_icmp_def ip_net.defs icmp_net.defs)

lemma demo_udp_table: "udp_table_ok (udp_sockets demo_udp)"
  unfolding udp_table_ok_def demo_udp_facts by (auto simp: nth_Cons free_socket_def split: nat.splits)

lemma demo_udp_send_pair:
  "udp_send (replicate 6 0) (Some 0) 0x0200000A 53 (Some [1, 2, 3]) demo_udp =
   (fst (udp_send (replicate 6 0) (Some 0) 0x0200000A 53 (Some [1, 2, 3]) demo_udp), True)"
proof -
  let ?h = "fst (kmalloc booted_heap 11)"
  have ok: "heap_ok ?h"
    by (rule kernel_heap.alloc_ok [OF booted_heap_ok _ surjective_pairing]) (simp add: small_request_nat)
  have "snd (ip_send_packet (replicate 6 0) 0x0200000A 17
      (Some (udp_packet_bytes 0x0200000A 0x0200000A 53 53 [1, 2, 3])) (demo_udp\<lparr>n_heap := ?h\<rparr>))"
    using booted_heap_three ok
    by (intro ip_send_succeeds [where h = "fst (kmalloc ?h 31)" and q = "snd (kmalloc ?h 31)"])
      (simp_all add: demo_udp_facts udp_packet_bytes_def udp_consts frame_size_for_def eth_consts)
  then have "snd (udp_send (replicate 6 0) (Some 0) 0x0200000A 53 (Some [1, 2, 3]) demo_udp)"
    using booted_heap_three(1)
    by (simp add: udp_send_def udp_consts demo_udp_facts ip_get_address_def case_prod_unfold Let_def)
  then show ?thesis by (simp add: prod_eq_iff)
qed


theorem udp_ports_exclusive_witness:
  "let (s', r) = udp_create_socket 53 (Some Dhcp_handle_packet) demo_udp in r = None \<and> udp_table_ok (udp_sockets s')"
proof -
  obtain s' r where c: "udp_create_socket 53 (Some Dhcp_handle_packet) demo_udp = (s', r)" by fastforce
  from udp_ports_exclusive [OF demo_udp_facts(9) demo_udp_table _ c refl, of None] c
  show ?thesis by (cases r) (auto simp: demo_udp_facts)
qed

theorem udp_rejects_standard_checksums_witness:
  "udp_handle_packet (\<lambda>h src port data s. Inl Out_of_bounds) 5
     (udp_header_bytes 67 53 10 (ip_checksum (rfc768_bytes 5 0x0200000A 67 53 [1, 2])) @ [1, 2]) 10 demo_udp = Inr demo_udp"
  using udp_rejects_standard_checksums [OF demo_udp_facts(9), of "[1, 2]" _ 5 67 53] by (simp add: demo_udp_facts)

end
