(* ===== verification/Tcp.thy ===== *)
theory Tcp
  imports Udp
begin

unbundle bit_operations_syntax

text \<open>
  Connections (\<^verbatim>\<open>net/tcp.c\<close>). The chain of sockets is the list of their pointers with their contents, head
  first; a pointer that is not in the chain is one to memory that was released. The application's
  callback is called through the parameter \<open>call\<close>, which may use every operation itself, so a
  socket is looked up again after each call. Shown here: the handshake of an active open, what a
  segment with data does, the states a socket can reach and those it can never leave, that no
  retransmission ever happens, and that a segment for an unknown port stops the kernel.
\<close>

section \<open>State\<close>

datatype tcp_state_t = CLOSED | LISTEN | SYN_SENT | SYN_RECEIVED | ESTABLISHED | FIN_WAIT_1 | FIN_WAIT_2 | CLOSE_WAIT |
  CLOSING | LAST_ACK | TIME_WAIT

datatype tcp_event_t = EVENT_CONNECTED | EVENT_DATA | EVENT_CLOSED

record tcp_socket =
  ts_local_port :: u16
  ts_remote_port :: u16
  ts_remote_ip :: u32
  ts_state :: tcp_state_t
  ts_seq_num :: u32
  ts_ack_num :: u32
  ts_last_seq :: u32
  ts_last_ack :: u32
  ts_retries :: u32
  ts_timeout :: u32
  ts_recv_buffer :: ptr
  ts_recv_size :: u32
  ts_recv_used :: u32
  ts_callback :: ptr

record tcp_net = udp_net +
  tcp_sockets :: "(ptr \<times> tcp_socket) list"
  tcp_next_port :: u16
  tcp_initialized :: bool

definition TCP_HEADER_SIZE :: nat where "TCP_HEADER_SIZE = 20"
definition TCP_WINDOW_SIZE :: u16 where "TCP_WINDOW_SIZE = 8192"
definition TCP_TIMEOUT :: u32 where "TCP_TIMEOUT = 3000"
definition IP_PROTOCOL_TCP :: u8 where "IP_PROTOCOL_TCP = 6"
definition sizeof_tcp_socket :: u32 where "sizeof_tcp_socket = 56"
definition TCP_FLAG_FIN :: u8 where "TCP_FLAG_FIN = 0x01"
definition TCP_FLAG_SYN :: u8 where "TCP_FLAG_SYN = 0x02"
definition TCP_FLAG_RST :: u8 where "TCP_FLAG_RST = 0x04"
definition TCP_FLAG_PSH :: u8 where "TCP_FLAG_PSH = 0x08"
definition TCP_FLAG_ACK :: u8 where "TCP_FLAG_ACK = 0x10"

lemmas tcp_consts = TCP_HEADER_SIZE_def TCP_WINDOW_SIZE_def TCP_TIMEOUT_def IP_PROTOCOL_TCP_def sizeof_tcp_socket_def
lemmas tcp_flags = TCP_FLAG_FIN_def TCP_FLAG_SYN_def TCP_FLAG_RST_def TCP_FLAG_PSH_def TCP_FLAG_ACK_def

definition tcp_put :: "ptr \<Rightarrow> tcp_socket \<Rightarrow> 'a tcp_net_scheme \<Rightarrow> 'a tcp_net_scheme" where
  "tcp_put p k s = s\<lparr>tcp_sockets := map (\<lambda>(q, x). if q = p then (q, k) else (q, x)) (tcp_sockets s)\<rparr>"

type_synonym 'a tcp_call = "ptr \<Rightarrow> ptr \<Rightarrow> tcp_event_t \<Rightarrow> u8 list \<Rightarrow> u32 \<Rightarrow> 'a tcp_net_scheme \<Rightarrow> fault + 'a tcp_net_scheme"

section \<open>Segments\<close>

text \<open>The sum before folding; \<open>hdr\<close> are the twenty bytes of the header, whose checksum field is skipped.\<close>

definition tcp_sum :: "u32 \<Rightarrow> u32 \<Rightarrow> u8 list \<Rightarrow> u8 list \<Rightarrow> u32" where
  "tcp_sum src dest hdr data =
     (let s0 = (drop_bit 16 src AND 0xFFFF) + (src AND 0xFFFF) + (drop_bit 16 dest AND 0xFFFF) + (dest AND 0xFFFF) +
               ucast IP_PROTOCOL_TCP + of_nat (TCP_HEADER_SIZE + length data);
          s1 = sum_words (sum_words s0 (take 16 hdr)) (drop 18 hdr);
          s2 = sum_words s1 (take (2 * (length data div 2)) data)
      in if odd (length data) then s2 + push_bit 8 (ucast (last data)) else s2)"

definition tcp_checksum :: "u32 \<Rightarrow> u32 \<Rightarrow> u8 list \<Rightarrow> u8 list \<Rightarrow> u16" where
  "tcp_checksum src dest hdr data = ucast (NOT (fold_sum (tcp_sum src dest hdr data)))"

text \<open>The packed \<open>tcp_header_t\<close>: the ports are swapped, the other fields are written as they are.\<close>

definition tcp_header_bytes :: "tcp_socket \<Rightarrow> u8 \<Rightarrow> u16 \<Rightarrow> u8 list" where
  "tcp_header_bytes k flags csum =
     le16 (swap16 (ts_local_port k)) @ le16 (swap16 (ts_remote_port k)) @ le32 (ts_seq_num k) @ le32 (ts_ack_num k) @
     [0x50, flags] @ le16 TCP_WINDOW_SIZE @ le16 csum @ le16 0"

definition tcp_segment :: "u32 \<Rightarrow> tcp_socket \<Rightarrow> u8 \<Rightarrow> u8 list \<Rightarrow> u8 list" where
  "tcp_segment src k flags data =
     tcp_header_bytes k flags (tcp_checksum src (ts_remote_ip k) (tcp_header_bytes k flags 0) data) @ data"

text \<open>What sending does to the sequence number. No data is the empty list.\<close>

definition tcp_advance :: "u8 \<Rightarrow> nat \<Rightarrow> tcp_socket \<Rightarrow> tcp_socket" where
  "tcp_advance flags n k =
     k\<lparr>ts_seq_num := ts_seq_num k + (if flags AND (TCP_FLAG_SYN OR TCP_FLAG_FIN) \<noteq> 0 then 1 else 0) + of_nat n\<rparr>"

definition tcp_send_packet :: "u8 list \<Rightarrow> ptr option \<Rightarrow> u8 \<Rightarrow> u8 list \<Rightarrow> 'a tcp_net_scheme \<Rightarrow> fault + 'a tcp_net_scheme" where
  "tcp_send_packet g sock flags data s =
     (let (h, packet) = kmalloc (n_heap s) (of_nat (TCP_HEADER_SIZE + length data)); s1 = s\<lparr>n_heap := h\<rparr> in
      if packet = NULL then Inr s1
      else case sock of
        None \<Rightarrow> Inl Null_deref
      | Some p \<Rightarrow>
          (case map_of (tcp_sockets s1) p of
             None \<Rightarrow> Inl Dangling_pointer
           | Some k \<Rightarrow>
               let (s2, _) = ip_send_packet g (ts_remote_ip k) IP_PROTOCOL_TCP (Some (tcp_segment (ip_get_address s1) k flags data)) s1;
                   s3 = tcp_put p (tcp_advance flags (length data) k) s2
               in Inr (s3\<lparr>n_heap := kfree (n_heap s3) packet\<rparr>)))"

section \<open>Operations\<close>

definition tcp_init :: "'a tcp_net_scheme \<Rightarrow> 'a tcp_net_scheme \<times> bool" where
  "tcp_init s =
     (if tcp_initialized s then (s, True)
      else ip_register_protocol IP_PROTOCOL_TCP (Some Tcp_handle_packet)
        (s\<lparr>tcp_sockets := [], tcp_next_port := 49152, tcp_initialized := True\<rparr>))"

definition new_socket :: "u16 \<Rightarrow> ptr \<Rightarrow> tcp_socket" where
  "new_socket port cb =
     \<lparr>ts_local_port = port, ts_remote_port = 0, ts_remote_ip = 0, ts_state = CLOSED, ts_seq_num = 0, ts_ack_num = 0,
      ts_last_seq = 0, ts_last_ack = 0, ts_retries = 0, ts_timeout = 0, ts_recv_buffer = 0, ts_recv_size = 0,
      ts_recv_used = 0, ts_callback = cb\<rparr>"

definition tcp_create_socket :: "ptr \<Rightarrow> 'a tcp_net_scheme \<Rightarrow> 'a tcp_net_scheme \<times> ptr" where
  "tcp_create_socket cb s =
     (if \<not> tcp_initialized s \<or> cb = NULL then (s, NULL)
      else let (h, p) = kmalloc (n_heap s) sizeof_tcp_socket; s1 = s\<lparr>n_heap := h\<rparr> in
        if p = NULL then (s1, NULL)
        else (s1\<lparr>tcp_next_port := tcp_next_port s1 + 1, tcp_sockets := (p, new_socket (tcp_next_port s1) cb) # tcp_sockets s1\<rparr>, p))"

definition tcp_connect :: "u8 list \<Rightarrow> ptr \<Rightarrow> u32 \<Rightarrow> u16 \<Rightarrow> 'a tcp_net_scheme \<Rightarrow> fault + ('a tcp_net_scheme \<times> bool)" where
  "tcp_connect g p ip port s =
     (if \<not> tcp_initialized s \<or> p = NULL then Inr (s, False)
      else case map_of (tcp_sockets s) p of
        None \<Rightarrow> Inl Dangling_pointer
      | Some k \<Rightarrow>
          if ts_state k \<noteq> CLOSED then Inr (s, False)
          else let k1 = k\<lparr>ts_remote_ip := ip, ts_remote_port := port, ts_seq_num := net_ticks s, ts_state := SYN_SENT\<rparr> in
            fault_bind (tcp_send_packet g (Some p) TCP_FLAG_SYN [] (tcp_put p k1 s)) (\<lambda>s1. Inr (s1, True)))"

definition tcp_close :: "u8 list \<Rightarrow> ptr \<Rightarrow> 'a tcp_net_scheme \<Rightarrow> fault + 'a tcp_net_scheme" where
  "tcp_close g p s =
     (if \<not> tcp_initialized s \<or> p = NULL then Inr s
      else case map_of (tcp_sockets s) p of
        None \<Rightarrow> Inl Dangling_pointer
      | Some k \<Rightarrow>
          if ts_state k = ESTABLISHED then
            fault_bind (tcp_send_packet g (Some p) (TCP_FLAG_FIN OR TCP_FLAG_ACK) [] s)
              (\<lambda>s1. Inr (tcp_put p ((the (map_of (tcp_sockets s1) p))\<lparr>ts_state := FIN_WAIT_1\<rparr>) s1))
          else Inr (s\<lparr>tcp_sockets := filter (\<lambda>(q, _). q \<noteq> p) (tcp_sockets s), n_heap := kfree (n_heap s) p\<rparr>))"

definition tcp_send :: "u8 list \<Rightarrow> ptr \<Rightarrow> u8 list option \<Rightarrow> 'a tcp_net_scheme \<Rightarrow> fault + ('a tcp_net_scheme \<times> bool)" where
  "tcp_send g p data s =
     (if \<not> tcp_initialized s \<or> p = NULL \<or> data = None \<or> the data = [] then Inr (s, False)
      else case map_of (tcp_sockets s) p of
        None \<Rightarrow> Inl Dangling_pointer
      | Some k \<Rightarrow>
          if ts_state k \<noteq> ESTABLISHED then Inr (s, False)
          else fault_bind (tcp_send_packet g (Some p) (TCP_FLAG_PSH OR TCP_FLAG_ACK) (the data) s) (\<lambda>s1. Inr (s1, True)))"

text \<open>Calling the application: the bytes from the data to the end of the packet's buffer, and the length told.\<close>

definition tcp_notify :: "'a tcp_call \<Rightarrow> ptr \<Rightarrow> tcp_event_t \<Rightarrow> u8 list \<Rightarrow> u32 \<Rightarrow> 'a tcp_net_scheme \<Rightarrow> fault + 'a tcp_net_scheme" where
  "tcp_notify call p ev data len s =
     (case map_of (tcp_sockets s) p of
        None \<Rightarrow> Inl Dangling_pointer
      | Some k \<Rightarrow> if ts_callback k \<noteq> NULL then call (ts_callback k) p ev data len s else Inr s)"

text \<open>The three cases of the switch over the state, after the flags have been read.\<close>

definition tcp_on_listen :: "u8 list \<Rightarrow> u32 \<Rightarrow> u16 \<Rightarrow> ptr \<Rightarrow> tcp_socket \<Rightarrow> u8 list \<Rightarrow> 'a tcp_net_scheme \<Rightarrow> fault + 'a tcp_net_scheme" where
  "tcp_on_listen g src src_port p k mem s =
     (if mem ! 13 AND TCP_FLAG_SYN \<noteq> 0 then
        tcp_send_packet g (Some p) (TCP_FLAG_SYN OR TCP_FLAG_ACK) []
          (tcp_put p (k\<lparr>ts_remote_ip := src, ts_remote_port := src_port, ts_ack_num := get32 mem 4 + 1,
             ts_seq_num := net_ticks s, ts_state := SYN_RECEIVED\<rparr>) s)
      else Inr s)"

definition tcp_on_syn_sent :: "'a tcp_call \<Rightarrow> u8 list \<Rightarrow> ptr \<Rightarrow> tcp_socket \<Rightarrow> u8 list \<Rightarrow> 'a tcp_net_scheme \<Rightarrow> fault + 'a tcp_net_scheme" where
  "tcp_on_syn_sent call g p k mem s =
     (if mem ! 13 AND (TCP_FLAG_SYN OR TCP_FLAG_ACK) = TCP_FLAG_SYN OR TCP_FLAG_ACK then
        fault_bind (tcp_send_packet g (Some p) TCP_FLAG_ACK []
            (tcp_put p (k\<lparr>ts_ack_num := get32 mem 4 + 1, ts_state := ESTABLISHED\<rparr>) s))
          (tcp_notify call p EVENT_CONNECTED [] 0)
      else Inr s)"

definition tcp_on_data :: "'a tcp_call \<Rightarrow> u8 list \<Rightarrow> ptr \<Rightarrow> tcp_socket \<Rightarrow> u8 list \<Rightarrow> u32 \<Rightarrow> 'a tcp_net_scheme \<Rightarrow> fault + 'a tcp_net_scheme" where
  "tcp_on_data call g p k mem len s =
     (if mem ! 13 AND TCP_FLAG_PSH \<noteq> 0 then
        fault_bind (tcp_send_packet g (Some p) TCP_FLAG_ACK [] (tcp_put p (k\<lparr>ts_ack_num := ts_ack_num k + (len - 20)\<rparr>) s))
          (tcp_notify call p EVENT_DATA (drop TCP_HEADER_SIZE mem) (len - 20))
      else Inr s)"

definition tcp_on_fin :: "'a tcp_call \<Rightarrow> u8 list \<Rightarrow> ptr \<Rightarrow> u8 list \<Rightarrow> 'a tcp_net_scheme \<Rightarrow> fault + 'a tcp_net_scheme" where
  "tcp_on_fin call g p mem s =
     (if mem ! 13 AND TCP_FLAG_FIN \<noteq> 0 then
        (case map_of (tcp_sockets s) p of
           None \<Rightarrow> Inl Dangling_pointer
         | Some k \<Rightarrow>
             fault_bind (tcp_send_packet g (Some p) TCP_FLAG_ACK []
                 (tcp_put p (k\<lparr>ts_ack_num := ts_ack_num k + 1, ts_state := CLOSE_WAIT\<rparr>) s))
               (tcp_notify call p EVENT_CLOSED [] 0))
      else Inr s)"

text \<open>The first socket of the chain a segment belongs to.\<close>

definition tcp_matches :: "u16 \<Rightarrow> u16 \<Rightarrow> u32 \<Rightarrow> tcp_socket \<Rightarrow> bool" where
  "tcp_matches dest_port src_port src k \<longleftrightarrow>
     ts_local_port k = dest_port \<and> (ts_state k = LISTEN \<or> (ts_remote_port k = src_port \<and> ts_remote_ip k = src))"

definition tcp_handle_packet :: "'a tcp_call \<Rightarrow> u8 list \<Rightarrow> u32 \<Rightarrow> u8 list \<Rightarrow> u32 \<Rightarrow> 'a tcp_net_scheme \<Rightarrow> fault + 'a tcp_net_scheme" where
  "tcp_handle_packet call g src mem len s =
     (if \<not> tcp_initialized s \<or> unat len < TCP_HEADER_SIZE then Inr s
      else if length mem < 4 then Inl Out_of_bounds
      else let dest_port = swap16 (get16 mem 2); src_port = swap16 (get16 mem 0) in
        case find (\<lambda>(p, k). tcp_matches dest_port src_port src k) (tcp_sockets s) of
          None \<Rightarrow> tcp_send_packet g None TCP_FLAG_RST [] s
        | Some (p, k) \<Rightarrow>
            if ts_state k \<notin> {LISTEN, SYN_SENT, ESTABLISHED} then Inr s
            else if length mem < 14 then Inl Out_of_bounds
            else if ts_state k = LISTEN then tcp_on_listen g src src_port p k mem s
            else if ts_state k = SYN_SENT then tcp_on_syn_sent call g p k mem s
            else fault_bind (tcp_on_data call g p k mem len s) (tcp_on_fin call g p mem))"

definition tcp_check_socket :: "u32 \<Rightarrow> tcp_socket \<Rightarrow> tcp_socket" where
  "tcp_check_socket now k =
     (if ts_state k = ESTABLISHED \<and> ts_retries k > 0 \<and> now - ts_timeout k > TCP_TIMEOUT
      then k\<lparr>ts_retries := ts_retries k - 1, ts_timeout := now\<rparr> else k)"

definition tcp_periodic_check :: "'a tcp_net_scheme \<Rightarrow> 'a tcp_net_scheme" where
  "tcp_periodic_check s =
     (if \<not> tcp_initialized s then s
      else s\<lparr>tcp_sockets := map (\<lambda>(p, k). (p, tcp_check_socket (net_ticks s) k)) (tcp_sockets s)\<rparr>)"

definition tcp_is_initialized :: "'a tcp_net_scheme \<Rightarrow> bool" where
  "tcp_is_initialized s = tcp_initialized s"

section \<open>What sending does to the sockets\<close>

lemma ethernet_send_more: "eth_net.more (fst (ethernet_send_frame d ty data s)) = eth_net.more s"
  by (simp add: ethernet_send_frame_def nic_send_packet_def case_prod_unfold Let_def)

lemma arp_resolve_more: "eth_net.more (fst (arp_resolve ip m s)) = eth_net.more s"
  by (simp add: arp_resolve_def arp_send_request_def ethernet_send_more split: option.splits)

lemma ip_send_more: "ip_net.more (fst (ip_send_packet g dest proto data s)) = ip_net.more s"
proof -
  have more: "ip_net.more s3 = ip_net.more s1"
    if "arp_resolve a m s1 = (s2, m')" "ethernet_send_frame d ty b s2 = (s3, r)" for a m s1 s2 m' d ty b s3 r
    using ip_fields_of_more(9) [of s3 s1] arp_resolve_more [of a m s1] ethernet_send_more [of d ty b s2] that by simp
  then show ?thesis
    by (auto simp: ip_send_packet_def Let_def split: prod.split) (drule (1) more, simp)
qed

lemma tcp_fields_of_more:
  assumes "ip_net.more s' = ip_net.more s"
  shows "tcp_sockets s' = tcp_sockets s" "tcp_initialized s' = tcp_initialized s" "tcp_next_port s' = tcp_next_port s"
  using assms by (cases s; cases s'; simp)+

lemma tcp_put_simps [simp]:
  "tcp_sockets (tcp_put p k s) = map (\<lambda>(q, x). if q = p then (q, k) else (q, x)) (tcp_sockets s)"
  "tcp_initialized (tcp_put p k s) = tcp_initialized s" "n_heap (tcp_put p k s) = n_heap s" "tx_log (tcp_put p k s) = tx_log s"
  "net_ticks (tcp_put p k s) = net_ticks s" "ip_address (tcp_put p k s) = ip_address s" "ip_initialized (tcp_put p k s) = ip_initialized s"
  "card_ready (tcp_put p k s) = card_ready s" "eth_initialized (tcp_put p k s) = eth_initialized s" "eth_mac (tcp_put p k s) = eth_mac s"
  "arp_cache (tcp_put p k s) = arp_cache s"
  by (simp_all add: tcp_put_def card_ready_def)

lemma map_of_put:
  "map_of (map (\<lambda>(q, x). if q = p then (q, k) else (q, x)) xs) q = (if q = p then map_option (\<lambda>_. k) (map_of xs p) else map_of xs q)"
  by (induction xs) auto

lemma tcp_put_put: "tcp_put p k (tcp_put p k' s) = tcp_put p k s"
  by (simp add: tcp_put_def comp_def case_prod_unfold)

text \<open>The sockets after a send, whether or not there was memory for the packet.\<close>

lemma tcp_send_packet_sockets:
  assumes "tcp_send_packet g sock flags data s = Inr s'"
  shows "tcp_initialized s' = tcp_initialized s \<and>
    (tcp_sockets s' = tcp_sockets s \<or>
     (\<exists>p k. sock = Some p \<and> map_of (tcp_sockets s) p = Some k \<and> tcp_sockets s' = tcp_sockets (tcp_put p (tcp_advance flags (length data) k) s)))"
proof -
  have more: "tcp_sockets s2 = tcp_sockets s1 \<and> tcp_initialized s2 = tcp_initialized s1" if "ip_send_packet g d pr da s1 = (s2, r)" for d pr da s1 s2 r
    using tcp_fields_of_more [of s2 s1] ip_send_more [of g d pr da s1] that by simp
  show ?thesis
    using assms by (auto simp: tcp_send_packet_def Let_def split: prod.splits if_splits option.splits dest!: more)
qed

section \<open>The states a socket can reach\<close>

definition tcp_socket_ok :: "tcp_socket \<Rightarrow> bool" where
  "tcp_socket_ok k \<longleftrightarrow> ts_state k \<in> {CLOSED, SYN_SENT, ESTABLISHED, FIN_WAIT_1, CLOSE_WAIT} \<and> ts_retries k = 0"

definition tcp_inv :: "'a tcp_net_scheme \<Rightarrow> bool" where
  "tcp_inv s \<longleftrightarrow> (\<forall>x \<in> set (tcp_sockets s). tcp_socket_ok (snd x))"

text \<open>An application whose callback does not break the sockets, as one that only uses the operations below.\<close>

definition callback_keeps :: "'a tcp_call \<Rightarrow> bool" where
  "callback_keeps call \<longleftrightarrow> (\<forall>c p ev d n s s'. tcp_inv s \<longrightarrow> call c p ev d n s = Inr s' \<longrightarrow> tcp_inv s')"

text \<open>The states reachable from an empty chain by calls, segments of any content, timer checks and anything else the system does.\<close>

inductive tcp_run :: "'a tcp_call \<Rightarrow> 'a tcp_net_scheme \<Rightarrow> bool" for call where
  boot: "tcp_sockets s = [] \<Longrightarrow> tcp_run call s"
| init: "tcp_run call s \<Longrightarrow> tcp_init s = (s', r) \<Longrightarrow> tcp_run call s'"
| create: "tcp_run call s \<Longrightarrow> tcp_create_socket cb s = (s', p) \<Longrightarrow> tcp_run call s'"
| connect: "tcp_run call s \<Longrightarrow> tcp_connect g p ip port s = Inr (s', r) \<Longrightarrow> tcp_run call s'"
| close: "tcp_run call s \<Longrightarrow> tcp_close g p s = Inr s' \<Longrightarrow> tcp_run call s'"
| send: "tcp_run call s \<Longrightarrow> tcp_send g p data s = Inr (s', r) \<Longrightarrow> tcp_run call s'"
| segment: "tcp_run call s \<Longrightarrow> tcp_handle_packet call g src mem len s = Inr s' \<Longrightarrow> tcp_run call s'"
| check: "tcp_run call s \<Longrightarrow> s' = tcp_periodic_check s \<Longrightarrow> tcp_run call s'"
| other: "tcp_run call s \<Longrightarrow> tcp_sockets s' = tcp_sockets s \<Longrightarrow> tcp_run call s'"

lemma tcp_inv_put: "tcp_inv s \<Longrightarrow> tcp_socket_ok k \<Longrightarrow> tcp_inv (tcp_put p k s)"
  by (auto simp: tcp_inv_def split: if_splits)

lemma tcp_inv_lookup: "tcp_inv s \<Longrightarrow> map_of (tcp_sockets s) p = Some k \<Longrightarrow> tcp_socket_ok k"
  using map_of_SomeD by (fastforce simp: tcp_inv_def)

lemma tcp_inv_sockets: "tcp_sockets s' = tcp_sockets s \<Longrightarrow> tcp_inv s \<Longrightarrow> tcp_inv s'"
  by (simp add: tcp_inv_def)

lemma tcp_advance_ok [simp]: "tcp_socket_ok (tcp_advance flags n k) = tcp_socket_ok k"
  by (simp add: tcp_socket_ok_def tcp_advance_def)

lemma tcp_ok_updates [simp]:
  "tcp_socket_ok (k\<lparr>ts_ack_num := w\<rparr>) = tcp_socket_ok k"
  "tcp_socket_ok k \<Longrightarrow> tcp_socket_ok (k\<lparr>ts_ack_num := w, ts_state := CLOSE_WAIT\<rparr>)"
  "tcp_socket_ok k \<Longrightarrow> tcp_socket_ok (k\<lparr>ts_ack_num := w, ts_state := ESTABLISHED\<rparr>)"
  "tcp_socket_ok k \<Longrightarrow> tcp_socket_ok (k\<lparr>ts_state := FIN_WAIT_1\<rparr>)"
  "tcp_socket_ok k \<Longrightarrow> tcp_socket_ok (k\<lparr>ts_remote_ip := ip, ts_remote_port := port, ts_seq_num := w, ts_state := SYN_SENT\<rparr>)"
  by (simp_all add: tcp_socket_ok_def)

lemma tcp_inv_send_packet:
  assumes "tcp_inv s" "tcp_send_packet g sock flags data s = Inr s'"
  shows "tcp_inv s'"
proof -
  from tcp_send_packet_sockets [OF assms(2)]
  consider "tcp_sockets s' = tcp_sockets s"
    | p k where "map_of (tcp_sockets s) p = Some k" "tcp_sockets s' = tcp_sockets (tcp_put p (tcp_advance flags (length data) k) s)"
    by blast
  then show ?thesis
  proof cases
    case 1
    with assms(1) show ?thesis by (simp add: tcp_inv_def)
  next
    case 2
    have "tcp_inv (tcp_put p (tcp_advance flags (length data) k) s)"
      using tcp_inv_lookup [OF assms(1) 2(1)] assms(1) by (simp add: tcp_inv_put)
    with 2(2) show ?thesis by (rule tcp_inv_sockets)
  qed
qed

lemma tcp_inv_notify:
  "callback_keeps call \<Longrightarrow> tcp_inv s \<Longrightarrow> tcp_notify call p ev d n s = Inr s' \<Longrightarrow> tcp_inv s'"
  by (auto simp: tcp_notify_def callback_keeps_def split: option.splits if_splits)

lemma tcp_inv_put_send:
  assumes "tcp_inv s" "tcp_socket_ok k" "tcp_send_packet g sock flags data (tcp_put p k s) = Inr s'"
  shows "tcp_inv s'"
  using tcp_inv_send_packet [OF tcp_inv_put assms(3)] assms(1,2) .

lemma tcp_inv_put_send_notify:
  assumes "callback_keeps call" "tcp_inv s" "tcp_socket_ok k"
    and "fault_bind (tcp_send_packet g sock flags data (tcp_put p k s)) (tcp_notify call q ev d n) = Inr s'"
  shows "tcp_inv s'"
proof -
  obtain s1 where "tcp_send_packet g sock flags data (tcp_put p k s) = Inr s1" "tcp_notify call q ev d n s1 = Inr s'"
    using assms(4) by (rule fault_bind_InrE)
  then show ?thesis using tcp_inv_put_send [OF assms(2,3)] tcp_inv_notify [OF assms(1)] by blast
qed

lemma tcp_inv_close:
  assumes "tcp_inv s" "tcp_close g p s = Inr s'"
  shows "tcp_inv s'"
proof (cases "tcp_initialized s \<and> p \<noteq> NULL")
  case True
  then obtain k where k: "map_of (tcp_sockets s) p = Some k" using assms(2) by (auto simp: tcp_close_def split: option.splits)
  show ?thesis
  proof (cases "ts_state k = ESTABLISHED")
    case est: True
    then obtain s1 where s1: "tcp_send_packet g (Some p) (TCP_FLAG_FIN OR TCP_FLAG_ACK) [] s = Inr s1"
      "s' = tcp_put p ((the (map_of (tcp_sockets s1) p))\<lparr>ts_state := FIN_WAIT_1\<rparr>) s1"
      using assms(2) True k by (auto simp: tcp_close_def elim!: fault_bind_InrE)
    have inv1: "tcp_inv s1" by (rule tcp_inv_send_packet [OF assms(1) s1(1)])
    have "map_of (tcp_sockets s1) p \<noteq> None"
      using tcp_send_packet_sockets [OF s1(1)] k by (auto simp: map_of_put)
    then obtain k1 where "map_of (tcp_sockets s1) p = Some k1" by blast
    with tcp_inv_lookup [OF inv1 this] show ?thesis
      unfolding s1(2) by (intro tcp_inv_put [OF inv1]) (simp add: tcp_socket_ok_def)
  next
    case False
    then show ?thesis using assms True k by (auto simp: tcp_close_def tcp_inv_def)
  qed
qed (use assms in \<open>auto simp: tcp_close_def\<close>)

lemma tcp_inv_handle:
  assumes "tcp_inv s" "callback_keeps call" "tcp_handle_packet call g src mem len s = Inr s'"
  shows "tcp_inv s'"
proof (cases "find (\<lambda>(p, k). tcp_matches (swap16 (get16 mem 2)) (swap16 (get16 mem 0)) src k) (tcp_sockets s)")
  case None
  then show ?thesis
    using assms tcp_inv_send_packet [OF assms(1)] by (auto simp: tcp_handle_packet_def split: if_splits)
next
  case (Some pk)
  obtain p k where pk: "pk = (p, k)" by (cases pk)
  have "(p, k) \<in> set (tcp_sockets s)" using Some unfolding pk by (auto simp: find_Some_iff in_set_conv_nth)
  then have k: "tcp_socket_ok k" using assms(1) by (auto simp: tcp_inv_def)
  have fin: "tcp_inv s2" if s1: "tcp_inv s1" and on_fin: "tcp_on_fin call g p mem s1 = Inr s2" for s1 s2
  proof (cases "mem ! 13 AND TCP_FLAG_FIN = 0")
    case False
    then obtain k1 where k1: "map_of (tcp_sockets s1) p = Some k1" and
      eq: "fault_bind (tcp_send_packet g (Some p) TCP_FLAG_ACK []
          (tcp_put p (k1\<lparr>ts_ack_num := ts_ack_num k1 + 1, ts_state := CLOSE_WAIT\<rparr>) s1)) (tcp_notify call p EVENT_CLOSED [] 0) = Inr s2"
      using on_fin by (auto simp: tcp_on_fin_def split: option.splits)
    show ?thesis using tcp_inv_put_send_notify [OF assms(2) s1 _ eq] tcp_inv_lookup [OF s1 k1] by simp
  qed (use that in \<open>simp add: tcp_on_fin_def\<close>)
  have data: "tcp_inv s1" if "tcp_on_data call g p k mem len s = Inr s1" for s1
  proof (cases "mem ! 13 AND TCP_FLAG_PSH = 0")
    case False
    show ?thesis
      using tcp_inv_put_send_notify [OF assms(2,1) _ that [unfolded tcp_on_data_def if_P [OF False]]] k by simp
  qed (use that assms(1) in \<open>simp add: tcp_on_data_def\<close>)
  have syn: "tcp_inv s1" if "tcp_on_syn_sent call g p k mem s = Inr s1" for s1
    using that assms(1) k tcp_inv_put_send_notify [OF assms(2,1), of "k\<lparr>ts_ack_num := get32 mem 4 + 1, ts_state := ESTABLISHED\<rparr>"]
    by (auto simp: tcp_on_syn_sent_def split: if_splits)
  have "ts_state k \<noteq> LISTEN" using k by (auto simp: tcp_socket_ok_def)
  then show ?thesis
    using assms(1,3) Some fin data syn unfolding pk
    by (auto simp: tcp_handle_packet_def Let_def split: if_splits elim!: fault_bind_InrE)
qed

lemma tcp_check_idle: "ts_retries k = 0 \<Longrightarrow> tcp_check_socket now k = k"
  by (simp add: tcp_check_socket_def)

lemma tcp_periodic_idle:
  assumes "tcp_inv s"
  shows "tcp_periodic_check s = s"
proof -
  have "map (\<lambda>(p, k). (p, tcp_check_socket (net_ticks s) k)) (tcp_sockets s) = tcp_sockets s"
    using assms by (intro map_idI) (auto simp: tcp_inv_def tcp_socket_ok_def tcp_check_idle)
  then show ?thesis by (simp add: tcp_periodic_check_def)
qed

lemma tcp_new_socket_ok: "tcp_socket_ok (new_socket port cb)"
  by (simp add: tcp_socket_ok_def new_socket_def)

lemma tcp_run_inv:
  assumes "tcp_run call s" "callback_keeps call"
  shows "tcp_inv s"
  using assms(1)
proof induction
  case (boot s)
  then show ?case by (simp add: tcp_inv_def)
next
  case (init s s' r)
  then show ?case by (auto simp: tcp_init_def ip_register_protocol_def tcp_inv_def split: if_splits)
next
  case (create s cb s' p)
  then show ?case
    using tcp_new_socket_ok [of "tcp_next_port s" cb]
    by (auto simp: tcp_create_socket_def tcp_inv_def Let_def split: if_splits prod.splits)
next
  case (connect s g p ip port s' r)
  show ?case
  proof (cases "tcp_sockets s' = tcp_sockets s")
    case True
    with connect.IH show ?thesis by (simp add: tcp_inv_def)
  next
    case False
    with connect.hyps(2) obtain k where k: "map_of (tcp_sockets s) p = Some k"
      "tcp_send_packet g (Some p) TCP_FLAG_SYN [] (tcp_put p (k\<lparr>ts_remote_ip := ip, ts_remote_port := port,
         ts_seq_num := net_ticks s, ts_state := SYN_SENT\<rparr>) s) = Inr s'"
      by (auto simp: tcp_connect_def split: if_splits option.splits elim!: fault_bind_InrE)
    show ?thesis using tcp_inv_put_send [OF connect.IH _ k(2)] tcp_inv_lookup [OF connect.IH k(1)] by simp
  qed
next
  case (close s g p s')
  then show ?case by (blast intro: tcp_inv_close)
next
  case (send s g p data s' r)
  then show ?case
    using tcp_inv_send_packet [OF send.IH] by (auto simp: tcp_send_def split: if_splits option.splits elim!: fault_bind_InrE)
next
  case (segment s g src mem len s')
  then show ?case using tcp_inv_handle [OF segment.IH assms(2)] by blast
next
  case (check s s')
  then show ?case by (simp add: tcp_periodic_idle)
next
  case (other s s')
  then show ?case by (simp add: tcp_inv_def)
qed

section \<open>A send that has its memory\<close>

lemma tcp_send_packet_run:
  assumes "heap_ok (n_heap s)" "map_of (tcp_sockets s) p = Some k" "length data \<le> 65515"
    and "kmalloc (n_heap s) (of_nat (20 + length data)) = (h, q)" "q \<noteq> NULL"
  obtains s' where "tcp_send_packet g (Some p) flags data s = Inr s'" "n_heap s' = n_heap s"
    "tcp_sockets s' = tcp_sockets (tcp_put p (tcp_advance flags (length data) k) s)"
    "tx_log s' = tx_log (fst (ip_send_packet g (ts_remote_ip k) 6 (Some (tcp_segment (ip_address s) k flags data)) (s\<lparr>n_heap := h\<rparr>)))"
proof -
  have small: "small_request (of_nat (20 + length data))" using assms(3) by (intro of_nat_datagram) simp
  have ok1: "heap_ok (n_heap (s\<lparr>n_heap := h\<rparr>))" using kernel_heap.alloc_ok [OF assms(1) small assms(4)] by simp
  have restored: "kfree h q = n_heap s" by (rule kernel_heap.alloc_release [OF assms(1) small assms(4,5)])
  obtain s2 r where send: "ip_send_packet g (ts_remote_ip k) 6 (Some (tcp_segment (ip_address s) k flags data)) (s\<lparr>n_heap := h\<rparr>) = (s2, r)"
    by (cases "ip_send_packet g (ts_remote_ip k) 6 (Some (tcp_segment (ip_address s) k flags data)) (s\<lparr>n_heap := h\<rparr>)")
  have heap2: "n_heap s2 = h" using ip_send_spec [OF ok1 send] by simp
  have socks: "tcp_sockets s2 = tcp_sockets s"
    using tcp_fields_of_more(1) [of s2 "s\<lparr>n_heap := h\<rparr>"] ip_send_spec [OF ok1 send] by simp
  show ?thesis
    by (rule that [of "(tcp_put p (tcp_advance flags (length data) k) s2)\<lparr>n_heap := n_heap s\<rparr>"])
      (use assms(2,4,5) send heap2 socks restored in \<open>simp_all add: tcp_send_packet_def tcp_consts ip_get_address_def\<close>)
qed

section \<open>Segments read back\<close>

lemma tcp_segment_fields:
  "length (tcp_segment src k flags data) = 20 + length data"
  "get16 (tcp_segment src k flags data @ pad) 0 = swap16 (ts_local_port k)"
  "get16 (tcp_segment src k flags data @ pad) 2 = swap16 (ts_remote_port k)"
  "get32 (tcp_segment src k flags data @ pad) 4 = ts_seq_num k"
  "(tcp_segment src k flags data @ pad) ! 13 = flags"
  "drop 20 (tcp_segment src k flags data) = data"
  by (simp_all add: tcp_segment_def tcp_header_bytes_def le16_def le32_def get16_def get32_def)

lemma flag_bits [simp]:
  "TCP_FLAG_PSH OR TCP_FLAG_ACK = 0x18" "TCP_FLAG_SYN OR TCP_FLAG_ACK = 0x12" "TCP_FLAG_FIN OR TCP_FLAG_ACK = 0x11"
  "(0x18 :: u8) AND TCP_FLAG_PSH \<noteq> 0" "(0x18 :: u8) AND TCP_FLAG_FIN = 0"
  "(0x02 :: u8) AND (TCP_FLAG_SYN OR TCP_FLAG_FIN) \<noteq> 0" "TCP_FLAG_ACK AND (TCP_FLAG_SYN OR TCP_FLAG_FIN) = 0"
  "(0x18 :: u8) AND (TCP_FLAG_SYN OR TCP_FLAG_FIN) = 0"
  by (simp_all add: tcp_flags)

text \<open>The first socket of the chain that a segment belongs to is the one given.\<close>

definition tcp_endpoint :: "u16 \<Rightarrow> u16 \<Rightarrow> u32 \<Rightarrow> ptr \<Rightarrow> tcp_socket \<Rightarrow> 'a tcp_net_scheme \<Rightarrow> bool" where
  "tcp_endpoint dport sport src p k s \<longleftrightarrow> find (\<lambda>(p, k). tcp_matches dport sport src k) (tcp_sockets s) = Some (p, k)"

lemma tcp_endpoint_lookup:
  assumes "tcp_endpoint dport sport src p k s" "distinct (map fst (tcp_sockets s))"
  shows "map_of (tcp_sockets s) p = Some k"
proof -
  have "(p, k) \<in> set (tcp_sockets s)" using assms(1) by (auto simp: tcp_endpoint_def find_Some_iff in_set_conv_nth)
  with assms(2) show ?thesis by simp
qed

text \<open>A segment with data and nothing else, at a socket whose connection is established.\<close>

lemma tcp_handle_data:
  assumes "tcp_initialized s" "heap_ok (n_heap s)" "distinct (map fst (tcp_sockets s))"
    and "tcp_endpoint (swap16 (get16 mem 2)) (swap16 (get16 mem 0)) src p k s" "ts_state k = ESTABLISHED" "ts_callback k \<noteq> NULL"
    and "20 \<le> unat len" "14 \<le> length mem" "mem ! 13 AND TCP_FLAG_PSH \<noteq> 0" "mem ! 13 AND TCP_FLAG_FIN = 0"
    and "snd (kmalloc (n_heap s) 20) \<noteq> NULL"
  shows "\<exists>s1. n_heap s1 = n_heap s \<and> map_of (tcp_sockets s1) = (map_of (tcp_sockets s))(p \<mapsto> k\<lparr>ts_ack_num := ts_ack_num k + (len - 20)\<rparr>) \<and>
    tcp_handle_packet call g src mem len s = call (ts_callback k) p EVENT_DATA (drop 20 mem) (len - 20) s1"
proof -
  define k1 where "k1 = k\<lparr>ts_ack_num := ts_ack_num k + (len - 20)\<rparr>"
  define s0 where "s0 = tcp_put p k1 s"
  note mp = tcp_endpoint_lookup [OF assms(4,3)]
  obtain h q where kq: "kmalloc (n_heap s0) (of_nat (20 + length ([] :: u8 list))) = (h, q)" by fastforce
  then have q: "q \<noteq> NULL" using assms(11) by (simp add: s0_def)
  have m0: "map_of (tcp_sockets s0) p = Some k1" using mp by (simp add: s0_def map_of_put)
  obtain s1 where s1: "tcp_send_packet g (Some p) TCP_FLAG_ACK [] s0 = Inr s1" "n_heap s1 = n_heap s0"
    "tcp_sockets s1 = tcp_sockets (tcp_put p (tcp_advance TCP_FLAG_ACK 0 k1) s0)"
    using tcp_send_packet_run [OF _ m0 _ kq q, where g = g and flags = TCP_FLAG_ACK] assms(2) by (auto simp: s0_def)
  have same: "tcp_advance TCP_FLAG_ACK 0 k1 = k1" by (simp add: tcp_advance_def)
  have m1: "map_of (tcp_sockets s1) = (map_of (tcp_sockets s))(p \<mapsto> k1)"
  proof -
    have "tcp_sockets s1 = tcp_sockets s0" using s1(3) same by (simp add: s0_def tcp_put_put del: tcp_put_simps)
    then show ?thesis using mp by (auto simp: s0_def map_of_put fun_eq_iff)
  qed
  have "tcp_on_data call g p k mem len s = call (ts_callback k) p EVENT_DATA (drop 20 mem) (len - 20) s1"
    using assms(6,9) s1(1) m1 by (simp add: tcp_on_data_def s0_def [symmetric] k1_def [symmetric] tcp_notify_def tcp_consts) (simp add: k1_def)
  moreover have "tcp_handle_packet call g src mem len s = fault_bind (tcp_on_data call g p k mem len s) (tcp_on_fin call g p mem)"
    using assms(1,4,5,7,8) by (simp add: tcp_handle_packet_def tcp_consts tcp_endpoint_def)
  moreover have "fault_bind m (tcp_on_fin call g p mem) = m" for m
    using assms(10) by (cases m) (simp_all add: tcp_on_fin_def)
  ultimately show ?thesis using s1(2) m1 by (intro exI [of _ s1]) (simp add: s0_def k1_def)
qed

section \<open>Properties\<close>

text \<open>The protocol dispatch of a host on which only this protocol is registered.\<close>

definition tcp_only :: "'a tcp_call \<Rightarrow> u8 list \<Rightarrow> proto_handler \<Rightarrow> u32 \<Rightarrow> u8 list \<Rightarrow> u32 \<Rightarrow> 'a tcp_net_scheme \<Rightarrow> fault + 'a tcp_net_scheme" where
  "tcp_only call g h = (if h = Tcp_handle_packet then tcp_handle_packet call g else (\<lambda>src mem len. Inr))"



text \<open>
  C17. The states of a socket: whatever calls are made, whatever segments arrive and whatever the
  application's callback does with the sockets through these operations, a socket is never in one
  of the states of a passive open or of a completed close, and the timer check never changes
  anything, so nothing is ever sent again.
\<close>

theorem tcp_reachable_states:
  assumes "tcp_run call s" "callback_keeps call" "(p, k) \<in> set (tcp_sockets s)"
  shows "ts_state k \<notin> {LISTEN, SYN_RECEIVED, FIN_WAIT_2, CLOSING, LAST_ACK, TIME_WAIT} \<and> tcp_periodic_check s = s"
  using tcp_run_inv [OF assms(1,2)] tcp_periodic_idle [OF tcp_run_inv [OF assms(1,2)]] assms(3)
  by (auto simp: tcp_inv_def tcp_socket_ok_def)

text \<open>
  Sequence numbers and checksums are not looked at: where no socket waits for a handshake, two
  segments that agree in ports, flags and data have the same effect whatever their other fields
  say, so a segment that arrives twice delivers its data twice.
\<close>

theorem tcp_ignores_sequence_and_checksum:
  assumes "\<forall>(p, k) \<in> set (tcp_sockets s). ts_state k \<notin> {LISTEN, SYN_SENT}"
    and "length mem' = length mem" "\<forall>i < length mem. i < 4 \<or> i = 13 \<or> 20 \<le> i \<longrightarrow> mem' ! i = mem ! i"
  shows "tcp_handle_packet call g src mem' len s = tcp_handle_packet call g src mem len s"
proof (cases "length mem < 4")
  case True
  then show ?thesis using assms(2) by (simp add: tcp_handle_packet_def)
next
  case False
  then have low: "mem' ! i = mem ! i" if "i < 4" for i using assms(3) that by simp
  have ports: "get16 mem' 2 = get16 mem 2" "get16 mem' 0 = get16 mem 0"
    using low [of 0] low [of 1] low [of 2] low [of 3] by (simp_all add: get16_def numeral_3_eq_3)
  show ?thesis
  proof (cases "find (\<lambda>(p, k). tcp_matches (swap16 (get16 mem 2)) (swap16 (get16 mem 0)) src k) (tcp_sockets s)")
    case None
    then show ?thesis using assms(2) by (simp add: tcp_handle_packet_def ports)
  next
    case (Some pk)
    obtain p k where pk: "pk = (p, k)" by (cases pk)
    have "(p, k) \<in> set (tcp_sockets s)" using Some unfolding pk by (auto simp: find_Some_iff in_set_conv_nth)
    then have st: "ts_state k \<noteq> LISTEN" "ts_state k \<noteq> SYN_SENT" using assms(1) by auto
    show ?thesis
    proof (cases "length mem < 14")
      case True
      then show ?thesis using assms(2) st Some by (simp add: tcp_handle_packet_def ports pk)
    next
      case long: False
      then have flags: "mem' ! 13 = mem ! 13" using assms(3) [rule_format, of 13] by simp
      have "drop 20 mem' = drop 20 mem" using assms(2,3) by (intro nth_equalityI) auto
      then have "tcp_on_data call g p k mem' len s = tcp_on_data call g p k mem len s"
        "tcp_on_fin call g p mem' = tcp_on_fin call g p mem"
        by (simp_all add: tcp_on_data_def tcp_on_fin_def flags tcp_consts fun_eq_iff)
      then show ?thesis using assms(2) st Some by (simp add: tcp_handle_packet_def ports pk)
    qed
  qed
qed

text \<open>
  A segment that belongs to no socket stops the kernel: the reset that should answer it is built
  from a null socket, so as soon as there is memory for the packet the kernel dereferences it.
\<close>

theorem tcp_unknown_segment_crashes:
  assumes "tcp_initialized s" "TCP_HEADER_SIZE \<le> unat len" "4 \<le> length mem"
    and "\<forall>(p, k) \<in> set (tcp_sockets s). \<not> tcp_matches (swap16 (get16 mem 2)) (swap16 (get16 mem 0)) src k"
  shows "tcp_handle_packet call g src mem len s =
    (if snd (kmalloc (n_heap s) 20) = NULL then Inr (s\<lparr>n_heap := fst (kmalloc (n_heap s) 20)\<rparr>) else Inl Null_deref)"
proof -
  have "find (\<lambda>(p, k). tcp_matches (swap16 (get16 mem 2)) (swap16 (get16 mem 0)) src k) (tcp_sockets s) = None"
    using assms(4) by (auto simp: find_None_iff)
  then show ?thesis
    using assms(1-3) by (simp add: tcp_handle_packet_def tcp_send_packet_def tcp_consts case_prod_unfold Let_def)
qed

section \<open>Two ends of a connection on one host\<close>

definition demo_socket :: tcp_socket where
  "demo_socket = (new_socket 80 0x9000)\<lparr>ts_remote_port := 80, ts_remote_ip := 0x0200000A, ts_state := ESTABLISHED\<rparr>"

definition demo_tcp :: "(ptr \<times> tcp_socket) list \<Rightarrow> tcp_net" where
  "demo_tcp ks = udp_net.extend (demo_udp\<lparr>protocol_handlers := (replicate 256 None)[6 := Some Tcp_handle_packet]\<rparr>)
     \<lparr>tcp_sockets = ks, tcp_next_port = 49152, tcp_initialized = True\<rparr>"

lemma demo_tcp_facts:
  "n_heap (demo_tcp ks) = booted_heap" "card_ready (demo_tcp ks)" "eth_initialized (demo_tcp ks)" "eth_mac (demo_tcp ks) = [2, 0, 0, 0, 0, 1]"
  "ip_initialized (demo_tcp ks)" "ip_address (demo_tcp ks) = 0x0200000A" "protocol_handlers (demo_tcp ks) ! 6 = Some Tcp_handle_packet"
  "tcp_sockets (demo_tcp ks) = ks" "tcp_initialized (demo_tcp ks)" "net_ticks (demo_tcp ks) = 5"
  "tcp_next_port (demo_tcp ks) = 49152"
  by (simp_all add: demo_tcp_def demo_udp_def demo_icmp_def demo_ip_def demo_eth_def eth_net.defs ip_net.defs icmp_net.defs
    udp_net.defs card_ready_def)

lemma demo_tcp_cache: "arp_inv (arp_cache (demo_tcp ks))"
  using demo_udp_cache by (simp add: demo_tcp_def udp_net.defs)

lemma booted_heap_segment:
  "snd (kmalloc booted_heap 23) \<noteq> NULL" "snd (kmalloc (fst (kmalloc booted_heap 23)) 43) \<noteq> NULL"
  "snd (kmalloc (fst (kmalloc (fst (kmalloc booted_heap 23)) 43)) 60) \<noteq> NULL" "snd (kmalloc booted_heap 20) \<noteq> NULL"
  by (simp_all add: heap_eval booted_heap_eval)


text \<open>An application that closes its socket when the other side has closed.\<close>

definition closing_app :: "'a tcp_call" where
  "closing_app c p ev d n s = (if ev = EVENT_CLOSED then tcp_close [] p s else Inr s)"


lemma closing_app_keeps: "callback_keeps closing_app"
  unfolding callback_keeps_def closing_app_def using tcp_inv_close by (fastforce split: if_splits)

lemma demo_tcp_run: "tcp_run call (demo_tcp [(0xD0000010, new_socket 49152 0x9000)])"
proof -
  have "snd (kmalloc booted_heap 56) = 0xD0000010" by (simp add: heap_eval booted_heap_eval)
  then obtain h where kq: "kmalloc booted_heap 56 = (h, 0xD0000010)" by (cases "kmalloc booted_heap 56") simp
  have create: "tcp_create_socket 0x9000 (demo_tcp []) =
      ((demo_tcp [])\<lparr>n_heap := h, tcp_next_port := 49153, tcp_sockets := [(0xD0000010, new_socket 49152 0x9000)]\<rparr>, 0xD0000010)"
    by (simp add: tcp_create_socket_def demo_tcp_facts tcp_consts kq)
  have "tcp_run call (demo_tcp [])" by (rule tcp_run.boot) (simp add: demo_tcp_facts)
  from tcp_run.create [OF this create] show ?thesis by (rule tcp_run.other) (simp add: demo_tcp_facts)
qed

theorem tcp_reachable_states_witness:
  "tcp_periodic_check (demo_tcp [(0xD0000010, new_socket 49152 0x9000)]) = demo_tcp [(0xD0000010, new_socket 49152 0x9000)]"
  using tcp_reachable_states [OF demo_tcp_run closing_app_keeps, of "0xD0000010" "new_socket 49152 0x9000"] by (simp add: demo_tcp_facts)

theorem tcp_ignores_sequence_and_checksum_witness:
  "tcp_handle_packet closing_app [] 7 [0, 80, 0, 80, 9, 9, 9, 9] 20 (demo_tcp [(0x100, demo_socket)]) =
   tcp_handle_packet closing_app [] 7 [0, 80, 0, 80, 1, 2, 3, 4] 20 (demo_tcp [(0x100, demo_socket)])"
  by (rule tcp_ignores_sequence_and_checksum)
    (auto simp: demo_tcp_facts demo_socket_def less_Suc_eq numeral_eq_Suc)

theorem tcp_unknown_segment_crashes_witness:
  "tcp_handle_packet closing_app [] 7 [0, 80, 0, 81] 20 (demo_tcp []) = Inl Null_deref"
  using tcp_unknown_segment_crashes [of "demo_tcp []" 20 "[0, 80, 0, 81]" 7 closing_app "[]"] booted_heap_segment(4)
  by (simp add: demo_tcp_facts tcp_consts)

end
