(* ===== verification/Dhcp.thy ===== *)
theory Dhcp
  imports Udp
begin

unbundle bit_operations_syntax

text \<open>
  The address client (\<^verbatim>\<open>net/dhcp.c\<close>): the options of its messages, the three messages it handles and
  the two it sends. The calls of the registered callback are recorded in \<open>dhcp_calls\<close>. A message is
  the list of its bytes; reading beyond it is \<open>Out_of_bounds\<close>, and what an uninitialised local
  variable holds is the parameter \<open>stk\<close>. Shown here: options written are read back, the messages
  sent fit their buffer, what an offer and an acknowledgement do, that a reply with the cookie
  of the standard is dropped, and that the option search reads past the end of a message.
\<close>

section \<open>State\<close>

record dhcp_info =
  di_ip_address :: u32
  di_subnet_mask :: u32
  di_router :: u32
  di_dns_server :: u32
  di_server_ip :: u32
  di_lease_time :: u32

record dhcp_net = udp_net +
  dhcp_socket :: "nat option"
  dhcp_xid :: u32
  dhcp_server_ip :: u32
  dhcp_offered_ip :: u32
  dhcp_lease_time :: u32
  dhcp_callback :: ptr
  dhcp_initialized :: bool
  dhcp_calls :: "(ptr \<times> dhcp_info) list"

definition DHCP_SERVER_PORT :: u16 where "DHCP_SERVER_PORT = 67"
definition DHCP_CLIENT_PORT :: u16 where "DHCP_CLIENT_PORT = 68"
definition DHCP_MAGIC_COOKIE :: u32 where "DHCP_MAGIC_COOKIE = 0x63825363"
definition sizeof_dhcp_packet :: nat where "sizeof_dhcp_packet = 240"

lemmas dhcp_consts = DHCP_SERVER_PORT_def DHCP_CLIENT_PORT_def DHCP_MAGIC_COOKIE_def sizeof_dhcp_packet_def

section \<open>Options\<close>

text \<open>Writing one option at an offset of the option area; the new offset is returned with it.\<close>

definition dhcp_add_option :: "u8 list \<Rightarrow> nat \<Rightarrow> u8 \<Rightarrow> u8 list \<Rightarrow> fault + (u8 list \<times> nat)" where
  "dhcp_add_option options offset ty data =
     (if offset + 2 + length data > length options then Inl Out_of_bounds
      else Inr (take offset options @ [ty, of_nat (length data)] @ data @ drop (offset + 2 + length data) options,
                offset + 2 + length data))"

fun dhcp_add_options :: "u8 list \<Rightarrow> nat \<Rightarrow> (u8 \<times> u8 list) list \<Rightarrow> fault + (u8 list \<times> nat)" where
  "dhcp_add_options options offset [] = Inr (options, offset)"
| "dhcp_add_options options offset ((ty, data) # os) =
     fault_bind (dhcp_add_option options offset ty data) (\<lambda>(options', offset'). dhcp_add_options options' offset' os)"

text \<open>The options of a message up to and with the end mark, written into the 32 bytes set aside for them.\<close>

definition dhcp_option_area :: "(u8 \<times> u8 list) list \<Rightarrow> fault + u8 list" where
  "dhcp_option_area os =
     fault_bind (dhcp_add_options (replicate 32 0) 0 os) (\<lambda>(options, offset).
       if offset \<ge> length options then Inl Out_of_bounds else Inr (take (offset + 1) (options[offset := 255])))"

text \<open>The search loop from an offset on; \<open>options\<close> is what can be read, \<open>len\<close> the length the code was told.\<close>

function dhcp_scan :: "u8 list \<Rightarrow> nat \<Rightarrow> u8 \<Rightarrow> nat \<Rightarrow> nat \<Rightarrow> fault + u8 list option" where
  "dhcp_scan options len ty cap offset =
     (if offset \<ge> len then Inr None
      else if offset \<ge> length options then Inl Out_of_bounds
      else if options ! offset = 255 then Inr None
      else if options ! offset = 0 then dhcp_scan options len ty cap (offset + 1)
      else if offset + 1 \<ge> length options then Inl Out_of_bounds
      else let n = unat (options ! (offset + 1)) in
        if offset + 2 + n > len then Inr None
        else if options ! offset = ty then
          (if n > cap then Inr None
           else if offset + 2 + n > length options then Inl Out_of_bounds
           else Inr (Some (take n (drop (offset + 2) options))))
        else dhcp_scan options len ty cap (offset + 2 + n))"
  by pat_completeness auto
termination
  by (relation "measure (\<lambda>(options, len, ty, cap, offset). len - offset)") (auto simp del: One_nat_def)

declare dhcp_scan.simps [simp del]

definition dhcp_get_option :: "u8 list \<Rightarrow> nat \<Rightarrow> u8 \<Rightarrow> nat \<Rightarrow> fault + u8 list option" where
  "dhcp_get_option options len ty cap = dhcp_scan options len ty cap 0"

section \<open>Messages\<close>

text \<open>The fixed part of the packed \<open>dhcp_packet_t\<close> as the client fills it in.\<close>

definition dhcp_fixed_bytes :: "u32 \<Rightarrow> u8 list \<Rightarrow> u8 list" where
  "dhcp_fixed_bytes xid mac =
     [1, 1, 6, 0] @ le32 xid @ le16 0 @ le16 0x0000 @ le32 0 @ le32 0 @ le32 0 @ le32 0 @ take 6 mac @ replicate 10 0 @
     replicate 64 0 @ replicate 128 0 @ le32 DHCP_MAGIC_COOKIE"

text \<open>The shared tail of both senders: build the options, send, release the buffer.\<close>

definition dhcp_send_message :: "u8 list \<Rightarrow> ptr \<Rightarrow> (u8 \<times> u8 list) list \<Rightarrow> 'a dhcp_net_scheme \<Rightarrow> fault + 'a dhcp_net_scheme" where
  "dhcp_send_message g packet os s =
     fault_bind (dhcp_option_area os) (\<lambda>options.
       let (s1, _) = udp_send g (dhcp_socket s) 0xFFFFFFFF DHCP_SERVER_PORT
             (Some (dhcp_fixed_bytes (dhcp_xid s) (nic_get_mac_address s) @ options)) s
       in Inr (s1\<lparr>n_heap := kfree (n_heap s1) packet\<rparr>))"

definition dhcp_discover_options :: "(u8 \<times> u8 list) list" where
  "dhcp_discover_options = [(53, [1]), (55, [1, 3, 6])]"

definition dhcp_request_options :: "u32 \<Rightarrow> u32 \<Rightarrow> (u8 \<times> u8 list) list" where
  "dhcp_request_options offered server = [(53, [3]), (50, le32 offered), (54, le32 server), (55, [1, 3, 6])]"

definition dhcp_send_discover :: "u8 list \<Rightarrow> 'a dhcp_net_scheme \<Rightarrow> fault + 'a dhcp_net_scheme" where
  "dhcp_send_discover g s =
     (if \<not> dhcp_initialized s then Inr s
      else let (h, packet) = kmalloc (n_heap s) (of_nat (sizeof_dhcp_packet + 32)); s1 = s\<lparr>n_heap := h\<rparr> in
        if packet = NULL then Inr s1
        else dhcp_send_message g packet dhcp_discover_options (s1\<lparr>dhcp_xid := net_ticks s1\<rparr>))"

definition dhcp_send_request :: "u8 list \<Rightarrow> 'a dhcp_net_scheme \<Rightarrow> fault + 'a dhcp_net_scheme" where
  "dhcp_send_request g s =
     (if \<not> dhcp_initialized s then Inr s
      else let (h, packet) = kmalloc (n_heap s) (of_nat (sizeof_dhcp_packet + 32)); s1 = s\<lparr>n_heap := h\<rparr> in
        if packet = NULL then Inr s1
        else dhcp_send_message g packet (dhcp_request_options (dhcp_offered_ip s1) (dhcp_server_ip s1)) s1)"

definition dhcp_init :: "u8 list \<Rightarrow> ptr \<Rightarrow> 'a dhcp_net_scheme \<Rightarrow> fault + ('a dhcp_net_scheme \<times> bool)" where
  "dhcp_init g cb s =
     (if dhcp_initialized s then Inr (s, True)
      else if cb = NULL then Inr (s, False)
      else let (s1, sock) = udp_create_socket DHCP_CLIENT_PORT (Some Dhcp_handle_packet) s; s2 = s1\<lparr>dhcp_socket := sock\<rparr> in
        if sock = None then Inr (s2, False)
        else fault_bind (dhcp_send_discover g (s2\<lparr>dhcp_callback := cb, dhcp_initialized := True\<rparr>)) (\<lambda>s3. Inr (s3, True)))"

definition dhcp_is_initialized :: "'a dhcp_net_scheme \<Rightarrow> bool" where
  "dhcp_is_initialized s = dhcp_initialized s"

section \<open>Handling a message\<close>

text \<open>Copying the bytes of an option over a 32-bit variable, and reversing its bytes.\<close>

definition overwrite32 :: "u32 \<Rightarrow> u8 list \<Rightarrow> u32" where
  "overwrite32 old bs = get32 (bs @ drop (length bs) (le32 old)) 0"

definition bswap32 :: "u32 \<Rightarrow> u32" where
  "bswap32 x = get32 (rev (le32 x)) 0"

text \<open>What the uninitialised locals hold: the message type and the structure for the callback.\<close>

record dhcp_stack =
  stk_type :: u8
  stk_info :: dhcp_info

definition dhcp_read32 :: "u8 list \<Rightarrow> u8 \<Rightarrow> u32 \<Rightarrow> fault + u32" where
  "dhcp_read32 options ty old =
     fault_bind (dhcp_get_option options (length options) ty 4)
       (\<lambda>r. case r of None \<Rightarrow> Inr old | Some bs \<Rightarrow> Inr (overwrite32 old bs))"

definition dhcp_on_offer :: "u8 list \<Rightarrow> u32 \<Rightarrow> u8 list \<Rightarrow> 'a dhcp_net_scheme \<Rightarrow> fault + 'a dhcp_net_scheme" where
  "dhcp_on_offer g src data s =
     (let s1 = s\<lparr>dhcp_offered_ip := get32 data 16, dhcp_server_ip := src\<rparr>; options = drop sizeof_dhcp_packet data in
      fault_bind (dhcp_get_option options (length options) 51 4) (\<lambda>r.
        dhcp_send_request g (s1\<lparr>dhcp_lease_time :=
          (case r of None \<Rightarrow> 3600 | Some bs \<Rightarrow> bswap32 (overwrite32 (dhcp_lease_time s1) bs))\<rparr>)))"

definition dhcp_on_ack :: "dhcp_stack \<Rightarrow> u8 list \<Rightarrow> 'a dhcp_net_scheme \<Rightarrow> fault + 'a dhcp_net_scheme" where
  "dhcp_on_ack stk data s =
     (if dhcp_callback s = NULL then Inr s
      else let options = drop sizeof_dhcp_packet data in
        fault_bind (dhcp_read32 options 1 (di_subnet_mask (stk_info stk))) (\<lambda>subnet.
        fault_bind (dhcp_read32 options 3 (di_router (stk_info stk))) (\<lambda>router.
        fault_bind (dhcp_read32 options 6 (di_dns_server (stk_info stk))) (\<lambda>dns.
          Inr (s\<lparr>dhcp_calls := dhcp_calls s @ [(dhcp_callback s,
            \<lparr>di_ip_address = get32 data 16, di_subnet_mask = subnet, di_router = router, di_dns_server = dns,
             di_server_ip = dhcp_server_ip s, di_lease_time = dhcp_lease_time s\<rparr>)]\<rparr>)))))"

definition dhcp_handle_packet :: "dhcp_stack \<Rightarrow> u8 list \<Rightarrow> u32 \<Rightarrow> u16 \<Rightarrow> u8 list \<Rightarrow> 'a dhcp_net_scheme \<Rightarrow> fault + 'a dhcp_net_scheme" where
  "dhcp_handle_packet stk g src src_port data s =
     (if length data < sizeof_dhcp_packet then Inr s
      else if data ! 0 \<noteq> 2 \<or> get32 data 4 \<noteq> dhcp_xid s \<or> get32 data 236 \<noteq> DHCP_MAGIC_COOKIE then Inr s
      else let options = drop sizeof_dhcp_packet data in
        fault_bind (dhcp_get_option options (length options) 53 1) (\<lambda>r.
          case r of
            None \<Rightarrow> Inr s
          | Some bs \<Rightarrow>
              let message_type = (if bs = [] then stk_type stk else bs ! 0) in
              if message_type = 2 then dhcp_on_offer g src data s
              else if message_type = 5 then dhcp_on_ack stk data s
              else if message_type = 6 then dhcp_send_discover g s
              else Inr s))"

section \<open>Options written and found\<close>

definition option_bytes :: "(u8 \<times> u8 list) list \<Rightarrow> u8 list" where
  "option_bytes os = concat (map (\<lambda>(ty, data). ty # of_nat (length data) # data) os)"

text \<open>Options the format can carry: no padding or end mark, and a length that fits a byte.\<close>

definition options_ok :: "(u8 \<times> u8 list) list \<Rightarrow> bool" where
  "options_ok os \<longleftrightarrow> (\<forall>(ty, data) \<in> set os. ty \<noteq> 0 \<and> ty \<noteq> 255 \<and> length data \<le> 255)"

lemma option_bytes_simps [simp]:
  "option_bytes [] = []" "option_bytes ((ty, data) # os) = ty # of_nat (length data) # data @ option_bytes os"
  by (simp_all add: option_bytes_def)

lemma dhcp_add_options_bytes:
  assumes "offset + length (option_bytes os) \<le> length options"
  shows "dhcp_add_options options offset os =
    Inr (take offset options @ option_bytes os @ drop (offset + length (option_bytes os)) options, offset + length (option_bytes os))"
  using assms
proof (induction os arbitrary: options offset)
  case Nil
  then show ?case by simp
next
  case (Cons o1 os)
  obtain ty data where o1: "o1 = (ty, data)" by (cases o1)
  define pre where "pre = take offset options @ [ty, of_nat (length data)] @ data"
  have len: "length pre = offset + 2 + length data" using Cons.prems by (simp add: pre_def)
  define opts where "opts = pre @ drop (length pre) options"
  have add: "dhcp_add_option options offset ty data = Inr (opts, length pre)"
    unfolding dhcp_add_option_def using Cons.prems len by (simp add: o1 opts_def pre_def)
  have rest: "dhcp_add_options opts (length pre) os =
      Inr (take (length pre) opts @ option_bytes os @ drop (length pre + length (option_bytes os)) opts, length pre + length (option_bytes os))"
    by (rule Cons.IH) (use Cons.prems o1 len in \<open>simp add: opts_def\<close>)
  have parts: "take (length pre) opts = pre" "drop (length pre + length (option_bytes os)) opts = drop (length pre + length (option_bytes os)) options"
    by (simp_all add: opts_def add.commute)
  show ?case
    unfolding o1 dhcp_add_options.simps add fault_bind_simps prod.case rest parts
    using len by (simp add: pre_def add.assoc)
qed

lemma dhcp_option_area_bytes:
  assumes "length (option_bytes os) \<le> 31"
  shows "dhcp_option_area os = Inr (option_bytes os @ [255])"
proof -
  let ?n = "length (option_bytes os)"
  have "32 - ?n = Suc (31 - ?n)" using assms by linarith
  then have "drop ?n (replicate 32 (0 :: u8)) = 0 # replicate (31 - ?n) 0"
    by (simp only: drop_replicate replicate_Suc)
  then show ?thesis
    using assms dhcp_add_options_bytes [of 0 os "replicate 32 0"]
    by (simp add: dhcp_option_area_def list_update_append)
qed

lemma dhcp_scan_finds:
  assumes "options_ok os" "options = pre @ option_bytes os @ 255 # rest"
  shows "dhcp_scan options (length options) ty cap (length pre) =
    Inr (case map_of os ty of None \<Rightarrow> None | Some d \<Rightarrow> if length d \<le> cap then Some d else None)"
  using assms
proof (induction os arbitrary: pre)
  case Nil
  then show ?case by (subst dhcp_scan.simps) simp
next
  case (Cons o1 os)
  obtain t d where o1: "o1 = (t, d)" by (cases o1)
  have ok: "t \<noteq> 0" "t \<noteq> 255" "length d \<le> 255" "options_ok os" using Cons.prems(1) by (auto simp: options_ok_def o1)
  have n: "unat (of_nat (length d) :: u8) = length d" using ok(3) by (simp only: unat_of_nat) (simp add: take_bit_eq_mod)
  have at: "options ! length pre = t" "options ! (length pre + 1) = of_nat (length d)"
    "drop (length pre + 2) options = d @ option_bytes os @ 255 # rest" "length pre + 2 + length d < length options"
    using Cons.prems(2) by (simp_all add: o1 nth_append)
  have next_one: "dhcp_scan options (length options) ty cap (length pre + 2 + length d) =
      Inr (case map_of os ty of None \<Rightarrow> None | Some d \<Rightarrow> if length d \<le> cap then Some d else None)"
    using Cons.IH [of "pre @ t # of_nat (length d) # d"] Cons.prems(2) ok(4) o1 by (simp add: add.assoc [symmetric])
  show ?case
    by (subst dhcp_scan.simps) (use at ok n next_one o1 in \<open>auto simp: Let_def\<close>)
qed

lemma dhcp_get_option_finds:
  "options_ok os \<Longrightarrow> dhcp_get_option (option_bytes os @ 255 # rest) (length (option_bytes os @ 255 # rest)) ty cap =
    Inr (case map_of os ty of None \<Rightarrow> None | Some d \<Rightarrow> if length d \<le> cap then Some d else None)"
  unfolding dhcp_get_option_def using dhcp_scan_finds [of os _ "[]" rest ty cap] by simp

section \<open>What a send leaves behind\<close>

lemma dhcp_fields_of_more:
  assumes "ip_net.more s' = ip_net.more s"
  shows "dhcp_socket s' = dhcp_socket s" "dhcp_xid s' = dhcp_xid s" "dhcp_server_ip s' = dhcp_server_ip s"
    "dhcp_offered_ip s' = dhcp_offered_ip s" "dhcp_lease_time s' = dhcp_lease_time s" "dhcp_callback s' = dhcp_callback s"
    "dhcp_initialized s' = dhcp_initialized s" "dhcp_calls s' = dhcp_calls s"
  using assms by (cases s; cases s'; simp)+

lemma dhcp_request_fits: "length (option_bytes (dhcp_request_options a b)) \<le> 31" "length (option_bytes dhcp_discover_options) \<le> 31"
  by (simp_all add: dhcp_request_options_def dhcp_discover_options_def)

text \<open>The state of the client without the layers below.\<close>

definition dhcp_view :: "'a dhcp_net_scheme \<Rightarrow> u32 \<times> u32 \<times> u32 \<times> ptr \<times> (ptr \<times> dhcp_info) list" where
  "dhcp_view s = (dhcp_server_ip s, dhcp_offered_ip s, dhcp_lease_time s, dhcp_callback s, dhcp_calls s)"

lemma dhcp_send_message_keeps:
  assumes "heap_ok h0" "kmalloc h0 272 = (n_heap s, q)" "q \<noteq> NULL" "length (option_bytes os) \<le> 31"
  shows "\<exists>s'. dhcp_send_message g q os s = Inr s' \<and> n_heap s' = h0 \<and> dhcp_view s' = dhcp_view s \<and> dhcp_xid s' = dhcp_xid s"
proof -
  have small: "small_request 272" by (simp add: small_request_nat)
  have ok: "heap_ok (n_heap s)" by (rule kernel_heap.alloc_ok [OF assms(1) small assms(2)])
  have restored: "kfree (n_heap s) q = h0" by (rule kernel_heap.alloc_release [OF assms(1) small assms(2,3)])
  define msg where "msg = Some (dhcp_fixed_bytes (dhcp_xid s) (nic_get_mac_address s) @ option_bytes os @ [255])"
  obtain s1 r where u: "udp_send g (dhcp_socket s) 0xFFFFFFFF DHCP_SERVER_PORT msg s = (s1, r)"
    by (cases "udp_send g (dhcp_socket s) 0xFFFFFFFF DHCP_SERVER_PORT msg s")
  have k: "n_heap s1 = n_heap s" "ip_net.more s1 = ip_net.more s"
    using udp_send_keeps [OF ok, of g "dhcp_socket s" "0xFFFFFFFF" DHCP_SERVER_PORT msg] u by simp_all
  note f = dhcp_fields_of_more [OF k(2)]
  show ?thesis
    unfolding dhcp_send_message_def dhcp_option_area_bytes [OF assms(4)] msg_def [symmetric] u fault_bind_simps
    by (simp add: k restored f dhcp_view_def)
qed

lemma dhcp_send_request_keeps:
  assumes "heap_ok (n_heap s)"
  shows "\<exists>s'. dhcp_send_request g s = Inr s' \<and> n_heap s' = n_heap s \<and> dhcp_view s' = dhcp_view s \<and> dhcp_xid s' = dhcp_xid s"
proof (cases "dhcp_initialized s")
  case True
  obtain h q where k: "kmalloc (n_heap s) 272 = (h, q)" by fastforce
  show ?thesis
  proof (cases "q = NULL")
    case q: True
    then have "h = n_heap s" using kernel_heap.alloc_fail [OF assms] k by simp
    with True k q show ?thesis by (simp add: dhcp_send_request_def dhcp_consts)
  next
    case q: False
    from dhcp_send_message_keeps [OF assms, of "s\<lparr>n_heap := h\<rparr>" q "dhcp_request_options (dhcp_offered_ip s) (dhcp_server_ip s)" g] k q dhcp_request_fits(1)
    show ?thesis using True k q by (simp add: dhcp_send_request_def dhcp_consts dhcp_view_def)
  qed
qed (simp add: dhcp_send_request_def)

lemma dhcp_send_discover_keeps:
  assumes "heap_ok (n_heap s)"
  shows "\<exists>s'. dhcp_send_discover g s = Inr s' \<and> n_heap s' = n_heap s \<and> dhcp_view s' = dhcp_view s"
proof (cases "dhcp_initialized s")
  case True
  obtain h q where k: "kmalloc (n_heap s) 272 = (h, q)" by fastforce
  show ?thesis
  proof (cases "q = NULL")
    case q: True
    then have "h = n_heap s" using kernel_heap.alloc_fail [OF assms] k by simp
    with True k q show ?thesis by (simp add: dhcp_send_discover_def dhcp_consts)
  next
    case q: False
    from dhcp_send_message_keeps [OF assms, of "s\<lparr>n_heap := h, dhcp_xid := net_ticks s\<rparr>" q dhcp_discover_options g] k q dhcp_request_fits(2)
    show ?thesis using True k q by (auto simp: dhcp_send_discover_def dhcp_consts dhcp_view_def)
  qed
qed (simp add: dhcp_send_discover_def)

section \<open>Properties\<close>

text \<open>
  C29. Options survive the trip: any options the format can carry that fit the 32 bytes set aside are
  written without leaving them, and searching the result, whatever follows it, finds for each type
  the data of its first option, unless it is longer than the caller's variable.
\<close>

theorem dhcp_options_roundtrip:
  assumes "options_ok os" "length (option_bytes os) \<le> 31"
  shows "\<exists>bs. dhcp_option_area os = Inr bs \<and> length bs \<le> 32 \<and>
    (\<forall>ty cap rest. dhcp_get_option (bs @ rest) (length (bs @ rest)) ty cap =
       Inr (case map_of os ty of None \<Rightarrow> None | Some d \<Rightarrow> if length d \<le> cap then Some d else None))"
  using dhcp_option_area_bytes [OF assms(2)] dhcp_get_option_finds [OF assms(1)] assms(2)
  by (intro exI [of _ "option_bytes os @ [255]"]) simp

text \<open>
  Both messages the client sends fit their buffer, in every state: building and sending them
  never leaves the option area and leaves the heap and the lease data as they were.
\<close>

theorem dhcp_messages_fit:
  assumes "heap_ok (n_heap s)"
  shows "(\<exists>s'. dhcp_send_discover g s = Inr s' \<and> n_heap s' = n_heap s \<and> dhcp_view s' = dhcp_view s) \<and>
    (\<exists>s'. dhcp_send_request g s = Inr s' \<and> n_heap s' = n_heap s \<and> dhcp_view s' = dhcp_view s)"
  using dhcp_send_discover_keeps [OF assms, of g] dhcp_send_request_keeps [OF assms, of g] by blast

text \<open>A reply as the client accepts it: fixed part, well-formed options and anything after their end.\<close>

definition dhcp_reply :: "u8 list \<Rightarrow> u32 \<Rightarrow> u32 \<Rightarrow> (u8 \<times> u8 list) list \<Rightarrow> bool" where
  "dhcp_reply data xid yiaddr os \<longleftrightarrow> 240 \<le> length data \<and> data ! 0 = 2 \<and> get32 data 4 = xid \<and> get32 data 16 = yiaddr \<and>
     get32 data 236 = DHCP_MAGIC_COOKIE \<and> options_ok os \<and> (\<exists>rest. drop 240 data = option_bytes os @ 255 # rest)"

lemma dhcp_reply_option:
  assumes "dhcp_reply data xid y os"
  shows "dhcp_get_option (drop 240 data) (length (drop 240 data)) ty cap =
    Inr (case map_of os ty of None \<Rightarrow> None | Some d \<Rightarrow> if length d \<le> cap then Some d else None)"
proof -
  obtain rest where r: "drop 240 data = option_bytes os @ 255 # rest" "options_ok os" using assms by (auto simp: dhcp_reply_def)
  show ?thesis unfolding r(1) by (rule dhcp_get_option_finds) (rule r(2))
qed

lemma dhcp_handle_reply:
  assumes "dhcp_reply data (dhcp_xid s) y os" "map_of os 53 = Some [m]"
  shows "dhcp_handle_packet stk g src port data s =
    (if m = 2 then dhcp_on_offer g src data s else if m = 5 then dhcp_on_ack stk data s else if m = 6 then dhcp_send_discover g s else Inr s)"
  using dhcp_reply_option [OF assms(1), of 53 1] assms by (simp add: dhcp_handle_packet_def dhcp_consts dhcp_reply_def)

lemma overwrite32_le32: "overwrite32 old (le32 x) = x"
  using get32_append [of "[]" 0 x "[]"] by (simp add: overwrite32_def)

lemma dhcp_read_reply:
  assumes "dhcp_reply data xid y os" "map_of os ty = Some (le32 x)"
  shows "dhcp_read32 (drop 240 data) ty old = Inr x"
  using dhcp_reply_option [OF assms(1), of ty 4] assms(2) by (simp add: dhcp_read32_def overwrite32_le32)

text \<open>
  An exchange configures the client: an offer is remembered with its sender and its lease time, read
  in network byte order or one hour if there is none, and answered by a request; the
  acknowledgement then calls the callback once, with the acknowledged address, the mask, the router
  and the name server of its options, and the server and the lease time of the offer.
\<close>

theorem dhcp_exchange_configures:
  assumes "heap_ok (n_heap s)" "dhcp_callback s \<noteq> NULL"
    and offer: "dhcp_reply d1 (dhcp_xid s) y1 os1" "map_of os1 53 = Some [2]" "map_of os1 51 = lease" "lease = None \<or> lease = Some (le32 t)"
    and ack: "dhcp_reply d2 (dhcp_xid s) y2 os2" "map_of os2 53 = Some [5]"
      "map_of os2 1 = Some (le32 msk)" "map_of os2 3 = Some (le32 rt)" "map_of os2 6 = Some (le32 dns)"
  shows "\<exists>s1. dhcp_handle_packet stk g src port d1 s = Inr s1 \<and> n_heap s1 = n_heap s \<and> dhcp_offered_ip s1 = y1 \<and> dhcp_calls s1 = dhcp_calls s \<and>
    dhcp_handle_packet stk g src' port' d2 s1 =
      Inr (s1\<lparr>dhcp_calls := dhcp_calls s @ [(dhcp_callback s, \<lparr>di_ip_address = y2, di_subnet_mask = msk, di_router = rt, di_dns_server = dns,
        di_server_ip = src, di_lease_time = (if lease = None then 3600 else bswap32 t)\<rparr>)]\<rparr>)"
proof -
  define l where "l = (if lease = None then 3600 else bswap32 t)"
  define s0 where "s0 = s\<lparr>dhcp_offered_ip := y1, dhcp_server_ip := src, dhcp_lease_time := l\<rparr>"
  have y: "get32 d1 16 = y1" "get32 d2 16 = y2" using offer(1) ack(1) by (simp_all add: dhcp_reply_def)
  have "dhcp_handle_packet stk g src port d1 s = dhcp_on_offer g src d1 s"
    by (simp add: dhcp_handle_reply [OF offer(1,2)])
  also have "\<dots> = dhcp_send_request g s0"
    using dhcp_reply_option [OF offer(1), of 51 4] offer(3,4) by (auto simp: dhcp_on_offer_def dhcp_consts y s0_def l_def overwrite32_le32)
  finally have h1: "dhcp_handle_packet stk g src port d1 s = dhcp_send_request g s0" .
  have "heap_ok (n_heap s0)" using assms(1) by (simp add: s0_def)
  from dhcp_send_request_keeps [OF this, of g] obtain s1 where
    s1: "dhcp_send_request g s0 = Inr s1" "n_heap s1 = n_heap s0" "dhcp_view s1 = dhcp_view s0" "dhcp_xid s1 = dhcp_xid s0" by blast
  have f: "dhcp_server_ip s1 = src" "dhcp_offered_ip s1 = y1" "dhcp_lease_time s1 = l" "dhcp_callback s1 = dhcp_callback s" "dhcp_calls s1 = dhcp_calls s"
    using s1(3) by (simp_all add: dhcp_view_def s0_def)
  have "dhcp_reply d2 (dhcp_xid s1) y2 os2" using ack(1) s1(4) by (simp add: s0_def)
  from dhcp_handle_reply [OF this ack(2)]
  have "dhcp_handle_packet stk g src' port' d2 s1 = dhcp_on_ack stk d2 s1" by simp
  also have "\<dots> = Inr (s1\<lparr>dhcp_calls := dhcp_calls s @ [(dhcp_callback s, \<lparr>di_ip_address = y2, di_subnet_mask = msk, di_router = rt,
      di_dns_server = dns, di_server_ip = src, di_lease_time = l\<rparr>)]\<rparr>)"
    using assms(2) by (simp add: dhcp_on_ack_def dhcp_consts f y dhcp_read_reply [OF ack(1,3)] dhcp_read_reply [OF ack(1,4)] dhcp_read_reply [OF ack(1,5)])
  finally show ?thesis using h1 s1(1,2) f by (intro exI [of _ s1]) (simp add: s0_def l_def)
qed

text \<open>
  The cookie of the standard is refused: the cookie is compared as a number of the host, so a reply
  whose four cookie bytes are 99, 130, 83, 99 as RFC 2131 has them is dropped whatever else it says.
\<close>

theorem dhcp_drops_standard_replies:
  assumes "take 4 (drop 236 data) = [99, 130, 83, 99]"
  shows "dhcp_handle_packet stk g src port data s = Inr s"
proof (cases "length data < 240")
  case True
  then show ?thesis by (simp add: dhcp_handle_packet_def dhcp_consts)
next
  case False
  have at: "drop 236 data ! i = data ! (236 + i)" for i using False by simp
  have "take 4 (drop 236 data) ! i = drop 236 data ! i" if "i < 4" for i using that by simp
  from this [of 0] this [of 1] this [of 2] this [of 3]
  have "data ! 236 = 99" "data ! 237 = 130" "data ! 238 = 83" "data ! 239 = 99"
    unfolding assms at by (simp_all add: numeral_3_eq_3)
  then have "get32 data 236 \<noteq> DHCP_MAGIC_COOKIE"
    by (simp add: get32_def dhcp_consts)
  then show ?thesis by (simp add: dhcp_handle_packet_def Let_def)
qed

lemma dhcp_scan_bounds: "length options = Suc len \<Longrightarrow> \<exists>r. dhcp_scan options len ty cap offset = Inr r"
proof (induction options len ty cap offset rule: dhcp_scan.induct)
  case (1 options len ty cap offset)
  show ?case
    using 1 by (subst dhcp_scan.simps) (auto simp: Let_def)
qed

lemma dhcp_scan_lone_type:
  "ty' \<noteq> 0 \<Longrightarrow> ty' \<noteq> 255 \<Longrightarrow> dhcp_scan [ty'] 1 ty cap 0 = Inl Out_of_bounds"
  by (subst dhcp_scan.simps) simp

lemma dhcp_scan_end: "len \<le> offset \<Longrightarrow> dhcp_scan options len ty cap offset = Inr None"
  by (subst dhcp_scan.simps) simp

text \<open>
  The option search can read one byte past a message and never more: with one readable byte after
  the options no search faults, whatever the options and the type; without it a message
  that ends in a lone type byte makes the search read beyond it.
\<close>

theorem dhcp_option_search_bounds:
  "(\<exists>r. dhcp_get_option (options @ [x]) (length options) ty cap = Inr r) \<and> dhcp_get_option [ty] 1 ty cap = (if ty = 0 \<or> ty = 255 then Inr None else Inl Out_of_bounds)"
proof -
  have "dhcp_scan [ty] 1 ty cap 0 = Inr None" if "ty = 0 \<or> ty = 255"
    using that by (subst dhcp_scan.simps) (auto simp: dhcp_scan_end)
  then show ?thesis
    using dhcp_scan_bounds [of "options @ [x]" "length options" ty cap 0] dhcp_scan_lone_type [of ty ty cap]
    by (auto simp: dhcp_get_option_def)
qed

section \<open>A client\<close>

definition demo_stack :: dhcp_stack where
  "demo_stack = \<lparr>stk_type = 0, stk_info = \<lparr>di_ip_address = 0, di_subnet_mask = 0, di_router = 0, di_dns_server = 0,
     di_server_ip = 0, di_lease_time = 0\<rparr>\<rparr>"

definition demo_dhcp :: dhcp_net where
  "demo_dhcp = udp_net.extend demo_udp
     \<lparr>dhcp_socket = Some 0, dhcp_xid = 5, dhcp_server_ip = 0, dhcp_offered_ip = 0, dhcp_lease_time = 0, dhcp_callback = 0x9000,
      dhcp_initialized = True, dhcp_calls = []\<rparr>"

lemma demo_dhcp_facts:
  "n_heap demo_dhcp = booted_heap" "dhcp_xid demo_dhcp = 5" "dhcp_callback demo_dhcp = 0x9000" "dhcp_calls demo_dhcp = []"
  using demo_udp_facts(1) by (simp_all add: demo_dhcp_def udp_net.defs)

text \<open>A reply for the transaction 5 and the address 7 with the given options.\<close>

definition demo_reply :: "(u8 \<times> u8 list) list \<Rightarrow> u8 list" where
  "demo_reply os = [2, 1, 6, 0] @ le32 5 @ replicate 8 0 @ le32 7 @ replicate 216 0 @ le32 DHCP_MAGIC_COOKIE @ option_bytes os @ [255]"

lemma demo_reply_ok: "options_ok os \<Longrightarrow> dhcp_reply (demo_reply os) 5 7 os"
  using get32_append [of "[2, 1, 6, 0]" 4 5] get32_append [of "[2, 1, 6, 0] @ le32 5 @ replicate 8 0" 16 7]
    get32_append [of "[2, 1, 6, 0] @ le32 5 @ replicate 8 0 @ le32 7 @ replicate 216 0" 236 DHCP_MAGIC_COOKIE]
  by (simp add: dhcp_reply_def demo_reply_def)

theorem dhcp_options_roundtrip_witness:
  "\<exists>bs. dhcp_option_area [(53, [1]), (50, [10, 0, 0, 2])] = Inr bs \<and> dhcp_get_option (bs @ [9]) (length (bs @ [9])) 50 4 = Inr (Some [10, 0, 0, 2])"
proof -
  have "options_ok [(53, [1]), (50, [10, 0, 0, 2])]" "length (option_bytes [(53, [1]), (50, [10, 0, 0, 2])]) \<le> 31"
    by (simp_all add: options_ok_def)
  from dhcp_options_roundtrip [OF this] obtain bs where bs: "dhcp_option_area [(53, [1]), (50, [10, 0, 0, 2])] = Inr bs"
    "\<And>rest. dhcp_get_option (bs @ rest) (length (bs @ rest)) 50 4 = Inr (Some [10, 0, 0, 2])" by auto
  show ?thesis using bs(1) bs(2) [of "[9]"] by blast
qed

theorem dhcp_messages_fit_witness:
  "\<exists>s'. dhcp_send_request (replicate 6 0) demo_dhcp = Inr s' \<and> n_heap s' = booted_heap"
  using dhcp_messages_fit [of demo_dhcp "replicate 6 0"] booted_heap_ok by (auto simp: demo_dhcp_facts)

theorem dhcp_exchange_configures_witness:
  "\<exists>s1. dhcp_handle_packet demo_stack (replicate 6 0) 9 67 (demo_reply [(53, [2])]) demo_dhcp = Inr s1 \<and>
    (\<exists>s2. dhcp_handle_packet demo_stack (replicate 6 0) 9 67 (demo_reply [(53, [5]), (1, le32 1), (3, le32 2), (6, le32 3)]) s1 = Inr s2 \<and>
      dhcp_calls s2 = [(0x9000, \<lparr>di_ip_address = 7, di_subnet_mask = 1, di_router = 2, di_dns_server = 3, di_server_ip = 9, di_lease_time = 3600\<rparr>)])"
proof -
  have ok: "options_ok [(53, [2])]" "options_ok [(53, [5]), (1, le32 1), (3, le32 2), (6, le32 3)]" by (simp_all add: options_ok_def)
  have pre: "heap_ok (n_heap demo_dhcp)" "dhcp_callback demo_dhcp \<noteq> NULL"
    "dhcp_reply (demo_reply [(53, [2])]) (dhcp_xid demo_dhcp) 7 [(53, [2])]"
    "dhcp_reply (demo_reply [(53, [5]), (1, le32 1), (3, le32 2), (6, le32 3)]) (dhcp_xid demo_dhcp) 7 [(53, [5]), (1, le32 1), (3, le32 2), (6, le32 3)]"
    using demo_reply_ok [OF ok(1)] demo_reply_ok [OF ok(2)] booted_heap_ok by (simp_all add: demo_dhcp_facts)
  from dhcp_exchange_configures [OF pre(1-3) _ _ _ pre(4), of None 0 1 2 3 demo_stack "replicate 6 0" 9 67 9 67]
  show ?thesis by (auto simp: demo_dhcp_facts)
qed

theorem dhcp_drops_standard_replies_witness:
  "dhcp_handle_packet demo_stack [] 9 67 (replicate 236 0 @ [99, 130, 83, 99, 53, 1, 2, 255]) demo_dhcp = Inr demo_dhcp"
  by (rule dhcp_drops_standard_replies) simp

end
