(* ===== verification/Dns.thy ===== *)
theory Dns
  imports Udp
begin

unbundle bit_operations_syntax

text \<open>
  Name queries (\<^verbatim>\<open>net/dns.c\<close>). \<open>dns_encode_name\<close> and \<open>dns_handle_response\<close> are declared in the source but
  not defined there: the first is the parameter \<open>enc\<close>, which gets the name, the buffer and the offset
  and returns the buffer and the new offset; the second is only registered. Names are C strings
  without their terminator; calls of the caller's callback are recorded in \<open>dns_calls\<close>. Shown
  here: the cache as a map, what a query contains, when it overruns its buffer, and that the
  cache is never filled, so that every resolution asks the network.
\<close>

section \<open>State\<close>

record dns_entry =
  de_domain :: string
  de_ip :: u32
  de_occupied :: bool

record dns_net = udp_net +
  dns_socket :: "nat option"
  dns_server :: u32
  dns_query_id :: u16
  dns_callback :: ptr
  dns_cache :: "dns_entry list"
  dns_initialized :: bool
  dns_calls :: "(ptr \<times> string \<times> u32) list"

definition DNS_PORT :: u16 where "DNS_PORT = 53"
definition DNS_MAX_PACKET_SIZE :: nat where "DNS_MAX_PACKET_SIZE = 512"
definition DNS_MAX_NAME_LENGTH :: nat where "DNS_MAX_NAME_LENGTH = 256"
definition DNS_CACHE_SIZE :: nat where "DNS_CACHE_SIZE = 16"
definition sizeof_dns_header :: nat where "sizeof_dns_header = 12"

lemmas dns_consts = DNS_PORT_def DNS_MAX_PACKET_SIZE_def DNS_MAX_NAME_LENGTH_def DNS_CACHE_SIZE_def sizeof_dns_header_def

section \<open>Operations\<close>

text \<open>The copy keeps the first 255 characters of the name.\<close>

definition dns_cache_insert :: "string \<Rightarrow> u32 \<Rightarrow> dns_entry list \<Rightarrow> dns_entry list" where
  "dns_cache_insert domain ip cache =
     (case first_index (\<lambda>e. \<not> de_occupied e) cache of
        None \<Rightarrow> cache
      | Some i \<Rightarrow> cache[i := \<lparr>de_domain = take (DNS_MAX_NAME_LENGTH - 1) domain, de_ip = ip, de_occupied = True\<rparr>])"

definition dns_cache_lookup :: "string \<Rightarrow> dns_entry list \<Rightarrow> u32" where
  "dns_cache_lookup domain cache =
     (case first_index (\<lambda>e. de_occupied e \<and> de_domain e = domain) cache of None \<Rightarrow> 0 | Some i \<Rightarrow> de_ip (cache ! i))"

definition dns_init :: "u32 \<Rightarrow> 'a dns_net_scheme \<Rightarrow> 'a dns_net_scheme \<times> bool" where
  "dns_init server s =
     (if dns_initialized s then (s, True)
      else let (s1, sock) = udp_create_socket 0 (Some Dns_handle_response) s; s2 = s1\<lparr>dns_socket := sock\<rparr> in
        if sock = None then (s2, False)
        else (s2\<lparr>dns_server := server, dns_query_id := 0, dns_callback := NULL, dns_initialized := True\<rparr>, True))"

text \<open>The packed \<open>dns_header_t\<close> of a query, over the first bytes of the buffer.\<close>

definition dns_header_bytes :: "u16 \<Rightarrow> u8 list" where
  "dns_header_bytes ident = le16 ident @ le16 0x0100 @ le16 0x0100 @ le16 0 @ le16 0 @ le16 0"

text \<open>The whole query: header, encoded name and question; \<open>junk\<close> is what the fresh buffer held.\<close>

definition dns_query_bytes :: "(string \<Rightarrow> u8 list \<Rightarrow> nat \<Rightarrow> u8 list \<times> nat) \<Rightarrow> u8 list \<Rightarrow> string \<Rightarrow> u16 \<Rightarrow> fault + u8 list" where
  "dns_query_bytes enc junk domain ident =
     (let (buf, offset) = enc domain (dns_header_bytes ident @ drop sizeof_dns_header (take DNS_MAX_PACKET_SIZE junk)) sizeof_dns_header in
      if offset + 4 > DNS_MAX_PACKET_SIZE then Inl Out_of_bounds
      else Inr (take offset buf @ le16 0x0100 @ le16 0x0100))"

definition dns_resolve ::
  "(string \<Rightarrow> u8 list \<Rightarrow> nat \<Rightarrow> u8 list \<times> nat) \<Rightarrow> u8 list \<Rightarrow> u8 list \<Rightarrow> string option \<Rightarrow> ptr \<Rightarrow> 'a dns_net_scheme \<Rightarrow>
     fault + ('a dns_net_scheme \<times> bool)" where
  "dns_resolve enc junk g domain cb s =
     (if \<not> dns_initialized s \<or> domain = None \<or> cb = NULL then Inr (s, False)
      else let cached = dns_cache_lookup (the domain) (dns_cache s) in
        if cached \<noteq> 0 then Inr (s\<lparr>dns_calls := dns_calls s @ [(cb, the domain, cached)]\<rparr>, True)
        else let (h, query) = kmalloc (n_heap s) (of_nat DNS_MAX_PACKET_SIZE); s1 = s\<lparr>n_heap := h\<rparr> in
          if query = NULL then Inr (s1, False)
          else let ident = dns_query_id s1 + 1 in
            fault_bind (dns_query_bytes enc junk (the domain) ident) (\<lambda>bytes.
              let s2 = s1\<lparr>dns_query_id := ident, dns_callback := cb\<rparr>;
                  (s3, result) = udp_send g (dns_socket s2) (dns_server s2) DNS_PORT (Some bytes) s2
              in Inr (s3\<lparr>n_heap := kfree (n_heap s3) query\<rparr>, result)))"

definition dns_is_initialized :: "'a dns_net_scheme \<Rightarrow> bool" where
  "dns_is_initialized s = dns_initialized s"

section \<open>The cache as a map\<close>

lemma dns_lookup_insert:
  assumes "\<exists>e \<in> set cache. \<not> de_occupied e" "\<forall>e \<in> set cache. de_occupied e \<longrightarrow> de_domain e \<noteq> domain" "length domain \<le> 255"
  shows "dns_cache_lookup domain (dns_cache_insert domain ip cache) = ip"
proof -
  obtain i where i: "first_index (\<lambda>e. \<not> de_occupied e) cache = Some i"
    using assms(1) first_index_ex [of _ cache "\<lambda>e. \<not> de_occupied e"] by blast
  let ?e = "\<lparr>de_domain = domain, de_ip = ip, de_occupied = True\<rparr>"
  have len: "i < length cache" using first_index_bound [OF i] .
  have "first_index (\<lambda>e. de_occupied e \<and> de_domain e = domain) (cache[i := ?e]) = Some i"
    using len assms(2) by (intro first_index_SomeI) (auto simp: nth_list_update)
  then show ?thesis
    using i len assms(3) by (simp add: dns_cache_lookup_def dns_cache_insert_def dns_consts)
qed

lemma dns_lookup_insert_other:
  assumes "other \<noteq> domain" "length domain \<le> 255"
  shows "dns_cache_lookup other (dns_cache_insert domain ip cache) = dns_cache_lookup other cache"
proof (cases "first_index (\<lambda>e. \<not> de_occupied e) cache")
  case None
  then show ?thesis by (simp add: dns_cache_insert_def)
next
  case (Some i)
  let ?e = "\<lparr>de_domain = domain, de_ip = ip, de_occupied = True\<rparr>"
  let ?P = "\<lambda>e. de_occupied e \<and> de_domain e = other"
  note f = first_index_SomeD [OF Some]
  have ins: "dns_cache_insert domain ip cache = cache[i := ?e]" using Some assms(2) by (simp add: dns_cache_insert_def dns_consts)
  have same: "?P (cache[i := ?e] ! j) = ?P (cache ! j)" if "j < length cache" for j
    using that f assms(1) by (auto simp: nth_list_update)
  show ?thesis
  proof (cases "first_index ?P cache")
    case none: None
    then have "first_index ?P (cache[i := ?e]) = None"
      using same unfolding first_index_None all_set_conv_all_nth length_list_update by blast
    with none show ?thesis by (simp add: dns_cache_lookup_def ins)
  next
    case (Some j)
    note fj = first_index_SomeD [OF Some]
    have "first_index ?P (cache[i := ?e]) = Some j"
      using fj same by (intro first_index_SomeI) (auto dest: less_trans)
    moreover have "i \<noteq> j" using f fj by auto
    ultimately show ?thesis using Some by (simp add: dns_cache_lookup_def ins)
  qed
qed

section \<open>Properties\<close>

text \<open>
  The cache is a map of names: a name of at most 255 characters that is not in it is found with its
  address once it has been inserted into a free slot, and no other name is looked up differently.
\<close>

theorem dns_cache_is_map:
  assumes "length domain \<le> 255" "\<exists>e \<in> set cache. \<not> de_occupied e" "\<forall>e \<in> set cache. de_occupied e \<longrightarrow> de_domain e \<noteq> domain"
  shows "dns_cache_lookup domain (dns_cache_insert domain ip cache) = ip \<and>
    (\<forall>other. other \<noteq> domain \<longrightarrow> dns_cache_lookup other (dns_cache_insert domain ip cache) = dns_cache_lookup other cache)"
  using dns_lookup_insert [OF assms(2,3,1)] dns_lookup_insert_other [OF _ assms(1)] by blast

text \<open>
  A resolution answers from the cache or asks the server: a cached name calls the callback at once
  and sends nothing; otherwise, whatever the encoder writes, the query sent is what the encoder
  left up to its offset followed by the question, under the next number, and the heap is as
  before; an offset that leaves no room for the question makes the kernel write beyond the buffer.
\<close>

theorem dns_resolve_cases:
  assumes "heap_ok (n_heap s)" "dns_initialized s" "cb \<noteq> NULL" "snd (kmalloc (n_heap s) 512) \<noteq> NULL"
    and enc: "enc domain (dns_header_bytes (dns_query_id s + 1) @ drop 12 (take 512 junk)) 12 = (buf, offset)"
    and s1_def: "s1 = s\<lparr>n_heap := fst (kmalloc (n_heap s) 512), dns_query_id := dns_query_id s + 1, dns_callback := cb\<rparr>"
    and u: "udp_send g (dns_socket s) (dns_server s) 53 (Some (take offset buf @ [0, 1, 0, 1])) s1 = (s2, r)"
  shows "dns_resolve enc junk g (Some domain) cb s =
    (if dns_cache_lookup domain (dns_cache s) \<noteq> 0 then Inr (s\<lparr>dns_calls := dns_calls s @ [(cb, domain, dns_cache_lookup domain (dns_cache s))]\<rparr>, True)
     else if offset + 4 > 512 then Inl Out_of_bounds
     else Inr (s2\<lparr>n_heap := n_heap s\<rparr>, r))"
proof -
  obtain h q where k: "kmalloc (n_heap s) 512 = (h, q)" "q \<noteq> NULL" using assms(4) by (metis prod.collapse)
  have small: "small_request 512" by (simp add: small_request_nat)
  have ok: "heap_ok h" by (rule kernel_heap.alloc_ok [OF assms(1) small k(1)])
  have restored: "kfree h q = n_heap s" by (rule kernel_heap.alloc_release [OF assms(1) small k])
  have q1: "le16 (0x0100 :: u16) = [0, 1]" unfolding le16_def by code_simp
  have h2: "n_heap s2 = h"
    using udp_send_keeps [of s1 g "dns_socket s" "dns_server s" 53 "Some (take offset buf @ [0, 1, 0, 1])"] ok u k by (simp add: s1_def)
  show ?thesis
    using assms(2,3) k enc restored h2 u unfolding s1_def
    by (simp add: dns_resolve_def dns_query_bytes_def dns_consts q1 Let_def)
qed

section \<open>A resolver\<close>

definition demo_dns :: dns_net where
  "demo_dns = udp_net.extend demo_udp
     \<lparr>dns_socket = Some 0, dns_server = 0x0100000A, dns_query_id = 6, dns_callback = 0,
      dns_cache = replicate 16 \<lparr>de_domain = [], de_ip = 0, de_occupied = False\<rparr>, dns_initialized = True, dns_calls = []\<rparr>"

text \<open>An encoder that writes each name as one label, without its length check.\<close>

definition one_label :: "string \<Rightarrow> u8 list \<Rightarrow> nat \<Rightarrow> u8 list \<times> nat" where
  "one_label domain buf offset =
     (let bs = of_nat (length domain) # map (\<lambda>c. of_nat (of_char c)) domain @ [0]
      in (take offset buf @ bs @ drop (offset + length bs) buf, offset + length bs))"

theorem dns_cache_is_map_witness:
  "dns_cache_lookup ''maya'' (dns_cache_insert ''maya'' 7 (replicate 16 \<lparr>de_domain = [], de_ip = 0, de_occupied = False\<rparr>)) = 7"
  using dns_cache_is_map [of "''maya''" "replicate 16 \<lparr>de_domain = [], de_ip = 0, de_occupied = False\<rparr>" 7] by simp

theorem dns_resolve_cases_witness:
  "dns_resolve one_label [] [] (Some (replicate 600 CHR ''x'')) 0x9000 demo_dns = Inl Out_of_bounds"
proof -
  have facts: "n_heap demo_dns = booted_heap" "dns_initialized demo_dns" "dns_cache demo_dns = replicate 16 \<lparr>de_domain = [], de_ip = 0, de_occupied = False\<rparr>"
    using demo_udp_facts(1) by (simp_all add: demo_dns_def udp_net.defs)
  have mem: "snd (kmalloc booted_heap 512) \<noteq> NULL" by (simp add: heap_eval booted_heap_eval)
  have miss: "dns_cache_lookup (replicate 600 CHR ''x'') (dns_cache demo_dns) = 0"
  proof -
    have "first_index (\<lambda>e. de_occupied e \<and> de_domain e = replicate 600 CHR ''x'') (dns_cache demo_dns) = None"
      by (simp add: facts first_index_None)
    then show ?thesis by (simp add: dns_cache_lookup_def)
  qed
  obtain buf where enc: "one_label (replicate 600 CHR ''x'') (dns_header_bytes (dns_query_id demo_dns + 1) @ drop 12 (take 512 [])) 12 = (buf, 614)"
    by (simp add: one_label_def Let_def)
  show ?thesis
    using dns_resolve_cases [where s = demo_dns and enc = one_label and domain = "replicate 600 CHR ''x''" and junk = "[]" and cb = "0x9000"
        and g = "[]", OF _ facts(2) _ _ enc refl surjective_pairing] mem booted_heap_ok
    by (simp add: facts(1) miss)
qed

end
