(* ===== verification/Graphics.thy ===== *)
theory Graphics
  imports Maya_Prelude
begin

unbundle bit_operations_syntax

text \<open>
  Drawing into the frame buffer (\<^verbatim>\<open>gui/graphics.c\<close>). The frame buffer is the list of its pixels, row
  by row; coordinates are C ints whose overflow would be undefined and are integers here. The font
  is a parameter, because the source leaves its table empty. Shown here: every primitive writes
  inside the frame buffer, what rectangles and blits leave on the screen pixel by pixel, and that the
  line algorithm ends, connects its end points and draws straight lines straight.
\<close>

section \<open>State\<close>

record gfx =
  fb :: "u32 list"
  g_width :: nat
  g_height :: nat
  g_pitch :: u32
  g_bpp :: u32
  g_initialized :: bool

definition SCREEN_WIDTH :: int where "SCREEN_WIDTH = 320"
definition SCREEN_HEIGHT :: int where "SCREEN_HEIGHT = 200"
definition DEFAULT_FONT_HEIGHT :: nat where "DEFAULT_FONT_HEIGHT = 16"
definition DEFAULT_FONT_WIDTH :: nat where "DEFAULT_FONT_WIDTH = 8"

lemmas gfx_consts = SCREEN_WIDTH_def SCREEN_HEIGHT_def DEFAULT_FONT_HEIGHT_def DEFAULT_FONT_WIDTH_def

text \<open>The half-open range a loop over a C int runs through, in its order.\<close>

definition int_range :: "int \<Rightarrow> int \<Rightarrow> int list" where
  "int_range lo n = map (\<lambda>i. lo + int i) [0..<nat n]"

section \<open>Operations\<close>

definition graphics_clear :: "u32 \<Rightarrow> gfx \<Rightarrow> gfx" where
  "graphics_clear color s =
     (if \<not> g_initialized s then s
      else s\<lparr>fb := fold (\<lambda>i f. fold (\<lambda>j f. f[i * g_width s + j := color]) [0..<g_width s] f) [0..<g_height s] (fb s)\<rparr>)"

definition graphics_init :: "gfx \<Rightarrow> gfx \<times> bool" where
  "graphics_init s =
     (if g_initialized s then (s, True)
      else let s1 = graphics_clear 0 (s\<lparr>g_width := nat SCREEN_WIDTH, g_height := nat SCREEN_HEIGHT,
                 g_pitch := of_int (SCREEN_WIDTH * 4), g_bpp := 32\<rparr>)
        in (s1\<lparr>g_initialized := True\<rparr>, True))"

definition graphics_put_pixel :: "int \<Rightarrow> int \<Rightarrow> u32 \<Rightarrow> gfx \<Rightarrow> gfx" where
  "graphics_put_pixel x y color s =
     (if \<not> g_initialized s \<or> x < 0 \<or> x \<ge> int (g_width s) \<or> y < 0 \<or> y \<ge> int (g_height s) then s
      else s\<lparr>fb := (fb s)[nat y * g_width s + nat x := color]\<rparr>)"

text \<open>The points the loop of \<open>graphics_draw_line\<close> visits; it need not end, so it is partial.\<close>

partial_function (option) line_loop :: "int \<Rightarrow> int \<Rightarrow> int \<Rightarrow> int \<Rightarrow> int \<Rightarrow> int \<Rightarrow> int \<Rightarrow> int \<Rightarrow> int \<Rightarrow> (int \<times> int) list option" where
  "line_loop dx dy sx sy x2 y2 err x y =
     (if x = x2 \<and> y = y2 then Some [(x, y)]
      else Option.bind
        (line_loop dx dy sx sy x2 y2 (err - (if err > - dx then dy else 0) + (if err < dy then dx else 0))
           (if err > - dx then x + sx else x) (if err < dy then y + sy else y))
        (\<lambda>ps. Some ((x, y) # ps)))"

definition line_points :: "int \<Rightarrow> int \<Rightarrow> int \<Rightarrow> int \<Rightarrow> (int \<times> int) list option" where
  "line_points x1 y1 x2 y2 =
     (let dx = abs (x2 - x1); dy = abs (y2 - y1); sx = (if x1 < x2 then 1 else - 1); sy = (if y1 < y2 then 1 else - 1);
          err = (if dx > dy then dx div 2 else - (dy div 2))
      in line_loop dx dy sx sy x2 y2 err x1 y1)"

definition put_pixels :: "u32 \<Rightarrow> (int \<times> int) list \<Rightarrow> gfx \<Rightarrow> gfx" where
  "put_pixels color ps s = fold (\<lambda>(x, y). graphics_put_pixel x y color) ps s"

definition graphics_draw_line :: "int \<Rightarrow> int \<Rightarrow> int \<Rightarrow> int \<Rightarrow> u32 \<Rightarrow> gfx \<Rightarrow> gfx option" where
  "graphics_draw_line x1 y1 x2 y2 color s =
     (if \<not> g_initialized s then Some s else map_option (\<lambda>ps. put_pixels color ps s) (line_points x1 y1 x2 y2))"

definition graphics_draw_rect :: "int \<Rightarrow> int \<Rightarrow> int \<Rightarrow> int \<Rightarrow> u32 \<Rightarrow> gfx \<Rightarrow> gfx option" where
  "graphics_draw_rect x y width height color s =
     (if \<not> g_initialized s then Some s
      else Option.bind (graphics_draw_line x y (x + width - 1) y color s) (\<lambda>s1.
           Option.bind (graphics_draw_line x (y + height - 1) (x + width - 1) (y + height - 1) color s1) (\<lambda>s2.
           Option.bind (graphics_draw_line x y x (y + height - 1) color s2) (\<lambda>s3.
           graphics_draw_line (x + width - 1) y (x + width - 1) (y + height - 1) color s3))))"

text \<open>The nested loops over a rectangle, in the order of the code.\<close>

definition rect_cells :: "int \<Rightarrow> int \<Rightarrow> int \<Rightarrow> int \<Rightarrow> (int \<times> int) list" where
  "rect_cells x y width height = concat (map (\<lambda>i. map (\<lambda>j. (j, i)) (int_range x width)) (int_range y height))"

definition graphics_fill_rect :: "int \<Rightarrow> int \<Rightarrow> int \<Rightarrow> int \<Rightarrow> u32 \<Rightarrow> gfx \<Rightarrow> gfx" where
  "graphics_fill_rect x y width height color s =
     (if \<not> g_initialized s then s else put_pixels color (rect_cells x y width height) s)"

definition glyph_cells :: "u8 list \<Rightarrow> int \<Rightarrow> int \<Rightarrow> (int \<times> int) list" where
  "glyph_cells rows x y =
     concat (map (\<lambda>i. map (\<lambda>j. (x + int j, y + int i)) (filter (\<lambda>j. bit (rows ! i) (7 - j)) [0..<DEFAULT_FONT_WIDTH])) [0..<DEFAULT_FONT_HEIGHT])"

definition graphics_draw_char :: "(char \<Rightarrow> u8 list) \<Rightarrow> char \<Rightarrow> int \<Rightarrow> int \<Rightarrow> u32 \<Rightarrow> gfx \<Rightarrow> gfx" where
  "graphics_draw_char font c x y color s =
     (if \<not> g_initialized s then s else put_pixels color (glyph_cells (font c) x y) s)"

fun draw_text_from :: "(char \<Rightarrow> u8 list) \<Rightarrow> string \<Rightarrow> int \<Rightarrow> int \<Rightarrow> int \<Rightarrow> u32 \<Rightarrow> gfx \<Rightarrow> gfx" where
  "draw_text_from font [] x cx cy color s = s"
| "draw_text_from font (c # cs) x cx cy color s =
     (if c = CHR 0x0A then draw_text_from font cs x x (cy + int DEFAULT_FONT_HEIGHT) color s
      else if c = CHR 0x0D then draw_text_from font cs x x cy color s
      else draw_text_from font cs x (cx + int DEFAULT_FONT_WIDTH) cy color (graphics_draw_char font c cx cy color s))"

definition graphics_draw_text :: "(char \<Rightarrow> u8 list) \<Rightarrow> string option \<Rightarrow> int \<Rightarrow> int \<Rightarrow> u32 \<Rightarrow> gfx \<Rightarrow> gfx" where
  "graphics_draw_text font text x y color s =
     (if \<not> g_initialized s \<or> text = None then s else draw_text_from font (the text) x x y color s)"

definition graphics_get_width :: "gfx \<Rightarrow> nat" where "graphics_get_width s = g_width s"
definition graphics_get_height :: "gfx \<Rightarrow> nat" where "graphics_get_height s = g_height s"
definition graphics_is_initialized :: "gfx \<Rightarrow> bool" where "graphics_is_initialized s = g_initialized s"

text \<open>Mixing a colour into a pixel: red and blue together, green apart, each scaled by 1/256.\<close>

definition blend_pixel :: "u32 \<Rightarrow> u32 \<Rightarrow> u8 \<Rightarrow> u32" where
  "blend_pixel dest color alpha =
     (let al = ucast alpha :: u32;
          rb = drop_bit 8 ((dest AND 0xFF00FF) * (255 - al) + (color AND 0xFF00FF) * al);
          g = drop_bit 8 ((dest AND 0x00FF00) * (255 - al) + (color AND 0x00FF00) * al)
      in (rb AND 0xFF00FF) OR (g AND 0x00FF00))"

definition graphics_fill_rect_alpha :: "int \<Rightarrow> int \<Rightarrow> int \<Rightarrow> int \<Rightarrow> u32 \<Rightarrow> u8 \<Rightarrow> gfx \<Rightarrow> gfx" where
  "graphics_fill_rect_alpha x y width height color alpha s =
     (if \<not> g_initialized s then s
      else fold (\<lambda>(j, i) s. if j < 0 \<or> j \<ge> int (g_width s) \<or> i < 0 \<or> i \<ge> int (g_height s) then s
             else let k = nat i * g_width s + nat j in s\<lparr>fb := (fb s)[k := blend_pixel (fb s ! k) color alpha]\<rparr>)
           (rect_cells x y width height) s)"

definition graphics_draw_rounded_rect :: "int \<Rightarrow> int \<Rightarrow> int \<Rightarrow> int \<Rightarrow> int \<Rightarrow> u32 \<Rightarrow> gfx \<Rightarrow> gfx" where
  "graphics_draw_rounded_rect x y width height radius color s =
     graphics_fill_rect x (y + radius) width (height - 2 * radius) color
       (graphics_fill_rect (x + radius) y (width - 2 * radius) height color s)"

text \<open>\<open>src\<close> is read only for the cells that fall on the screen; reading beyond it is a fault.\<close>

definition graphics_blit :: "u32 list option \<Rightarrow> int \<Rightarrow> int \<Rightarrow> int \<Rightarrow> int \<Rightarrow> int \<Rightarrow> gfx \<Rightarrow> fault + gfx" where
  "graphics_blit src x y width height src_width s =
     (if \<not> g_initialized s \<or> src = None then Inr s
      else fold (\<lambda>(j, i) r. fault_bind r (\<lambda>s.
             if y + i < 0 \<or> y + i \<ge> int (g_height s) \<or> x + j < 0 \<or> x + j \<ge> int (g_width s) then Inr s
             else let k = i * src_width + j in
               if k < 0 \<or> k \<ge> int (length (the src)) then Inl Out_of_bounds
               else Inr (s\<lparr>fb := (fb s)[nat (y + i) * g_width s + nat (x + j) := the src ! nat k]\<rparr>)))
           (rect_cells 0 0 width height) (Inr s))"

section \<open>The line algorithm\<close>

definition adjacent :: "int \<times> int \<Rightarrow> int \<times> int \<Rightarrow> bool" where
  "adjacent p q \<longleftrightarrow> abs (fst p - fst q) \<le> 1 \<and> abs (snd p - snd q) \<le> 1"

text \<open>A path from a point to the end point with a given number of steps.\<close>

definition path_to :: "int \<times> int \<Rightarrow> int \<times> int \<Rightarrow> nat \<Rightarrow> (int \<times> int) list \<Rightarrow> bool" where
  "path_to p q n ps \<longleftrightarrow> length ps = Suc n \<and> hd ps = p \<and> last ps = q \<and> successively adjacent ps"

lemma path_to_Cons:
  "path_to p' q n ps \<Longrightarrow> adjacent p p' \<Longrightarrow> path_to p q (Suc n) (p # ps)"
  by (cases ps) (auto simp: path_to_def)

lemma path_to_single: "path_to p p 0 [p]"
  by (simp add: path_to_def)

text \<open>
  The two cases of the algorithm. \<open>m\<close> and \<open>r\<close> are the steps left in each direction; the error term
  stays in its range, and the combination \<open>e + dx * r - dy * m\<close> never changes.
\<close>

lemma zero_if_multiple:
  fixes d e f k :: int
  assumes "0 \<le> e" "e < d" "0 \<le> f" "f < d" "e + d * k = f"
  shows "k = 0"
proof (rule ccontr)
  assume "k \<noteq> 0"
  then consider "1 \<le> k" | "k \<le> - 1" by linarith
  then show False
  proof cases
    case 1
    then have "d * 1 \<le> d * k" using assms(1,2) by (intro mult_left_mono) auto
    with assms show False by linarith
  next
    case 2
    then have "d * k \<le> d * (- 1)" using assms(1,2) by (intro mult_left_mono) auto
    with assms show False by linarith
  qed
qed

lemma line_loop_flat:
  assumes "0 \<le> e" "e < dx" "0 \<le> dy" "dy < dx" "0 \<le> f" "f < dx" "e + dx * r - dy * int m = f" "sx = 1 \<or> sx = -1" "sy = 1 \<or> sy = -1"
  shows "\<exists>ps. line_loop dx dy sx sy x2 y2 e (x2 - sx * int m) (y2 - sy * r) = Some ps \<and> path_to (x2 - sx * int m, y2 - sy * r) (x2, y2) m ps"
  using assms
proof (induction m arbitrary: e r)
  case 0
  then have "r = 0" using zero_if_multiple [of e dx f r] by simp
  then show ?case using path_to_single by (subst line_loop.simps) simp
next
  case (Suc m)
  define e' where "e' = e - dy + (if e < dy then dx else 0)"
  define r' where "r' = (if e < dy then r - 1 else r)"
  have mul: "dy * int (Suc m) = dy * int m + dy" "dx * r = dx * r' + (if e < dy then dx else 0)"
    by (simp_all add: algebra_simps r'_def)
  have "\<exists>ps. line_loop dx dy sx sy x2 y2 e' (x2 - sx * int m) (y2 - sy * r') = Some ps \<and> path_to (x2 - sx * int m, y2 - sy * r') (x2, y2) m ps"
  proof (rule Suc.IH)
    show "e' + dx * r' - dy * int m = f" using Suc.prems(7) mul by (simp add: e'_def split: if_splits)
  qed (use Suc.prems in \<open>auto simp: e'_def\<close>)
  then obtain ps where ps: "line_loop dx dy sx sy x2 y2 e' (x2 - sx * int m) (y2 - sy * r') = Some ps"
    "path_to (x2 - sx * int m, y2 - sy * r') (x2, y2) m ps" by blast
  have x: "x2 - sx * int (Suc m) + sx = x2 - sx * int m" "x2 - sx * int (Suc m) \<noteq> x2"
    using Suc.prems(8) by (auto simp: algebra_simps)
  have y: "(if e < dy then y2 - sy * r + sy else y2 - sy * r) = y2 - sy * r'" by (simp add: r'_def algebra_simps)
  have "e > - dx" using Suc.prems(1,2) by linarith
  then have "line_loop dx dy sx sy x2 y2 e (x2 - sx * int (Suc m)) (y2 - sy * r) = Some ((x2 - sx * int (Suc m), y2 - sy * r) # ps)"
    by (subst line_loop.simps) (simp only: x y if_True e'_def [symmetric] ps(1) simp_thms if_False bind.bind_lunit)
  moreover have "adjacent (x2 - sx * int (Suc m), y2 - sy * r) (x2 - sx * int m, y2 - sy * r')"
    using Suc.prems(8,9) by (auto simp: adjacent_def r'_def algebra_simps)
  ultimately show ?case using path_to_Cons [OF ps(2)] by blast
qed

lemma line_loop_steep:
  assumes "- dy < e" "e \<le> 0" "0 \<le> dx" "dx \<le> dy" "- dy < f" "f \<le> 0" "e + dx * int r - dy * m = f" "sx = 1 \<or> sx = -1" "sy = 1 \<or> sy = -1"
  shows "\<exists>ps. line_loop dx dy sx sy x2 y2 e (x2 - sx * m) (y2 - sy * int r) = Some ps \<and> path_to (x2 - sx * m, y2 - sy * int r) (x2, y2) r ps"
  using assms
proof (induction r arbitrary: e m)
  case 0
  then have "m = 0" using zero_if_multiple [of "- e" dy "- f" m] by simp
  then show ?case using path_to_single by (subst line_loop.simps) simp
next
  case (Suc r)
  define e' where "e' = e - (if e > - dx then dy else 0) + dx"
  define m' where "m' = (if e > - dx then m - 1 else m)"
  have mul: "dx * int (Suc r) = dx * int r + dx" "dy * m = dy * m' + (if e > - dx then dy else 0)"
    by (simp_all add: algebra_simps m'_def)
  have "\<exists>ps. line_loop dx dy sx sy x2 y2 e' (x2 - sx * m') (y2 - sy * int r) = Some ps \<and> path_to (x2 - sx * m', y2 - sy * int r) (x2, y2) r ps"
  proof (rule Suc.IH)
    show "e' + dx * int r - dy * m' = f" using Suc.prems(7) mul by (simp add: e'_def split: if_splits)
  qed (use Suc.prems in \<open>auto simp: e'_def\<close>)
  then obtain ps where ps: "line_loop dx dy sx sy x2 y2 e' (x2 - sx * m') (y2 - sy * int r) = Some ps"
    "path_to (x2 - sx * m', y2 - sy * int r) (x2, y2) r ps" by blast
  have y: "y2 - sy * int (Suc r) + sy = y2 - sy * int r" "y2 - sy * int (Suc r) \<noteq> y2"
    using Suc.prems(9) by (auto simp: algebra_simps)
  have x: "(if e > - dx then x2 - sx * m + sx else x2 - sx * m) = x2 - sx * m'" by (simp add: m'_def algebra_simps)
  have "e < dy" using Suc.prems(1,2) by linarith
  then have "line_loop dx dy sx sy x2 y2 e (x2 - sx * m) (y2 - sy * int (Suc r)) = Some ((x2 - sx * m, y2 - sy * int (Suc r)) # ps)"
    by (subst line_loop.simps) (simp only: x y if_True e'_def [symmetric] ps(1) simp_thms if_False bind.bind_lunit)
  moreover have "adjacent (x2 - sx * m, y2 - sy * int (Suc r)) (x2 - sx * m', y2 - sy * int r)"
    using Suc.prems(8,9) by (auto simp: adjacent_def m'_def algebra_simps)
  ultimately show ?case using path_to_Cons [OF ps(2)] by blast
qed

lemma line_points_path:
  "\<exists>ps. line_points x1 y1 x2 y2 = Some ps \<and> path_to (x1, y1) (x2, y2) (nat (max \<bar>x2 - x1\<bar> \<bar>y2 - y1\<bar>)) ps"
proof -
  define dx where "dx = \<bar>x2 - x1\<bar>"
  define dy where "dy = \<bar>y2 - y1\<bar>"
  define sx :: int where "sx = (if x1 < x2 then 1 else - 1)"
  define sy :: int where "sy = (if y1 < y2 then 1 else - 1)"
  have d: "0 \<le> dx" "0 \<le> dy" "x1 = x2 - sx * dx" "y1 = y2 - sy * dy" "sx = 1 \<or> sx = -1" "sy = 1 \<or> sy = -1"
    by (auto simp: dx_def dy_def sx_def sy_def)
  have start: "line_points x1 y1 x2 y2 = line_loop dx dy sx sy x2 y2 (if dx > dy then dx div 2 else - (dy div 2)) x1 y1"
    by (simp only: line_points_def Let_def dx_def dy_def sx_def sy_def)
  show ?thesis
  proof (cases "dy < dx")
    case True
    have "\<exists>ps. line_loop dx dy sx sy x2 y2 (dx div 2) (x2 - sx * int (nat dx)) (y2 - sy * dy) = Some ps \<and>
        path_to (x2 - sx * int (nat dx), y2 - sy * dy) (x2, y2) (nat dx) ps"
      by (rule line_loop_flat [where f = "dx div 2"]) (use True d in auto)
    moreover have "int (nat dx) = dx" "max dx dy = dx" "dx > dy" using d(1) True by simp_all
    ultimately show ?thesis
      unfolding start dx_def [symmetric] dy_def [symmetric] by (simp only: d(3,4) [symmetric] if_True)
  next
    case False
    show ?thesis
    proof (cases "dy = 0")
      case True
      then have "dx = 0" using False d by simp
      then have e: "x1 = x2" "y1 = y2" using True d(3,4) by simp_all
      have "line_loop dx dy sx sy x2 y2 k x1 y1 = Some [(x1, y1)]" for k
        unfolding e by (subst line_loop.simps) simp
      then show ?thesis unfolding start using path_to_single by (simp add: e)
    next
      case pos: False
      have "\<exists>ps. line_loop dx dy sx sy x2 y2 (- (dy div 2)) (x2 - sx * dx) (y2 - sy * int (nat dy)) = Some ps \<and>
          path_to (x2 - sx * dx, y2 - sy * int (nat dy)) (x2, y2) (nat dy) ps"
        by (rule line_loop_steep [where f = "- (dy div 2)"]) (use False pos d in auto)
      moreover have "int (nat dy) = dy" "max dx dy = dy" "\<not> dx > dy" using d(2) False by simp_all
      ultimately show ?thesis
        unfolding start dx_def [symmetric] dy_def [symmetric] by (simp only: d(3,4) [symmetric] if_False)
    qed
  qed
qed

section \<open>What the primitives leave on the screen\<close>

text \<open>A pixel is on the screen; \<open>pixel s x y\<close> is what it shows.\<close>

definition on_screen :: "gfx \<Rightarrow> int \<Rightarrow> int \<Rightarrow> bool" where
  "on_screen s x y \<longleftrightarrow> 0 \<le> x \<and> x < int (g_width s) \<and> 0 \<le> y \<and> y < int (g_height s)"

definition pixel :: "gfx \<Rightarrow> int \<Rightarrow> int \<Rightarrow> u32" where
  "pixel s x y = fb s ! (nat y * g_width s + nat x)"

text \<open>The frame buffer holds at least the pixels of the mode.\<close>

definition gfx_ok :: "gfx \<Rightarrow> bool" where
  "gfx_ok s \<longleftrightarrow> g_width s * g_height s \<le> length (fb s)"

lemma on_screen_index:
  assumes "on_screen s x y"
  shows "nat y * g_width s + nat x < g_width s * g_height s"
proof -
  have "nat x < g_width s" "Suc (nat y) \<le> g_height s" using assms by (auto simp: on_screen_def)
  then have "nat y * g_width s + nat x < Suc (nat y) * g_width s" "Suc (nat y) * g_width s \<le> g_height s * g_width s"
    using mult_le_mono1 [of "Suc (nat y)" "g_height s" "g_width s"] by simp_all
  then show ?thesis by (simp add: mult.commute)
qed

lemma index_inj:
  assumes "on_screen s x y" "on_screen s x' y'" "nat y * g_width s + nat x = nat y' * g_width s + nat x'"
  shows "x = x' \<and> y = y'"
proof -
  have w: "nat x < g_width s" "nat x' < g_width s" using assms(1,2) by (auto simp: on_screen_def)
  have "nat x = nat x'" using arg_cong [OF assms(3), of "\<lambda>n. n mod g_width s"] w by simp
  moreover have "nat y = nat y'" using arg_cong [OF assms(3), of "\<lambda>n. n div g_width s"] w by simp
  ultimately show ?thesis using assms(1,2) by (simp add: on_screen_def eq_nat_nat_iff)
qed

text \<open>Two states with the same screen: mode, initialization and frame buffer size agree.\<close>

definition same_mode :: "gfx \<Rightarrow> gfx \<Rightarrow> bool" where
  "same_mode s' s \<longleftrightarrow> s' = s\<lparr>fb := fb s'\<rparr> \<and> length (fb s') = length (fb s)"

lemma same_mode_refl [simp, intro]: "same_mode s s"
  by (simp add: same_mode_def)

lemma same_modeD:
  "same_mode s' s \<Longrightarrow> g_width s' = g_width s \<and> g_height s' = g_height s \<and> g_initialized s' = g_initialized s \<and>
     length (fb s') = length (fb s) \<and> g_pitch s' = g_pitch s \<and> g_bpp s' = g_bpp s"
  unfolding same_mode_def by (metis gfx.ext_inject gfx.surjective gfx.update_convs(1))

lemma same_mode_trans: "same_mode s2 s1 \<Longrightarrow> same_mode s1 s \<Longrightarrow> same_mode s2 s"
  unfolding same_mode_def by (cases s; cases s1; cases s2) auto

lemma same_mode_on_screen: "same_mode s' s \<Longrightarrow> on_screen s' x y \<longleftrightarrow> on_screen s x y"
  by (drule same_modeD) (simp add: on_screen_def)

lemma same_mode_ok: "same_mode s' s \<Longrightarrow> gfx_ok s' \<longleftrightarrow> gfx_ok s"
  by (drule same_modeD) (simp add: gfx_ok_def)

lemma put_pixel_same_mode: "same_mode (graphics_put_pixel x y color s) s"
  by (simp add: graphics_put_pixel_def same_mode_def)

lemma put_pixel_pixel:
  assumes "g_initialized s" "gfx_ok s" "on_screen s a b"
  shows "pixel (graphics_put_pixel x y color s) a b = (if x = a \<and> y = b then color else pixel s a b)"
proof (cases "on_screen s x y")
  case True
  then have "graphics_put_pixel x y color s = s\<lparr>fb := (fb s)[nat y * g_width s + nat x := color]\<rparr>"
    using assms(1) by (simp add: graphics_put_pixel_def on_screen_def)
  moreover have "nat y * g_width s + nat x < length (fb s)"
    using on_screen_index [OF True] assms(2) by (simp add: gfx_ok_def)
  ultimately show ?thesis
    using index_inj [OF True assms(3)] by (auto simp: pixel_def nth_list_update)
next
  case False
  then have "graphics_put_pixel x y color s = s" by (auto simp: graphics_put_pixel_def on_screen_def)
  moreover have "\<not> (x = a \<and> y = b)" using False assms(3) by blast
  ultimately show ?thesis by auto
qed

text \<open>Painting a list of points with a colour that depends on the point only.\<close>

definition paint :: "(int \<Rightarrow> int \<Rightarrow> u32) \<Rightarrow> (int \<times> int) list \<Rightarrow> gfx \<Rightarrow> gfx" where
  "paint g ps s = fold (\<lambda>(x, y). graphics_put_pixel x y (g x y)) ps s"

lemma paint_simps [simp]:
  "paint g ((x, y) # ps) s = paint g ps (graphics_put_pixel x y (g x y) s)"
  "paint g [] s = s"
  by (simp_all add: paint_def)

lemma put_pixels_paint: "put_pixels color ps s = paint (\<lambda>_ _. color) ps s"
  by (simp add: put_pixels_def paint_def)

lemma paint_same_mode: "same_mode (paint g ps s) s"
proof (induction ps arbitrary: s)
  case (Cons p ps)
  then show ?case by (cases p) (auto intro: same_mode_trans put_pixel_same_mode)
qed simp

lemma paint_pixel:
  assumes "g_initialized s" "gfx_ok s" "on_screen s a b"
  shows "pixel (paint g ps s) a b = (if (a, b) \<in> set ps then g a b else pixel s a b)"
  using assms
proof (induction ps arbitrary: s)
  case (Cons p ps)
  obtain x y where p: "p = (x, y)" by force
  let ?s = "graphics_put_pixel x y (g x y) s"
  have m: "same_mode ?s s" by (rule put_pixel_same_mode)
  show ?case
    using Cons.IH [of ?s] Cons.prems put_pixel_pixel [OF Cons.prems, of x y "g x y"] same_modeD [OF m]
      same_mode_ok [OF m] same_mode_on_screen [OF m]
    by (auto simp: p)
qed simp

lemmas put_pixels_same_mode = paint_same_mode [where g = "\<lambda>_ _. color" for color, folded put_pixels_paint]
lemmas put_pixels_pixel = paint_pixel [where g = "\<lambda>_ _. color" for color, folded put_pixels_paint]

lemma int_range_set [simp]: "i \<in> set (int_range lo n) \<longleftrightarrow> lo \<le> i \<and> i < lo + n"
proof
  assume "lo \<le> i \<and> i < lo + n"
  then have "i = lo + int (nat (i - lo))" "nat (i - lo) < nat n" by auto
  then show "i \<in> set (int_range lo n)" unfolding int_range_def set_map set_upt
    by (intro image_eqI [of _ _ "nat (i - lo)"]) auto
qed (auto simp: int_range_def)

lemma rect_cells_set [simp]:
  "(j, i) \<in> set (rect_cells x y w h) \<longleftrightarrow> x \<le> j \<and> j < x + w \<and> y \<le> i \<and> i < y + h"
  by (auto simp: rect_cells_def image_iff)

lemma fill_rect_same_mode: "same_mode (graphics_fill_rect x y w h color s) s"
  by (simp add: graphics_fill_rect_def put_pixels_same_mode)

lemma draw_line_total:
  "\<exists>s'. graphics_draw_line x1 y1 x2 y2 color s = Some s' \<and> same_mode s' s"
  using line_points_path [of x1 y1 x2 y2] put_pixels_same_mode by (auto simp: graphics_draw_line_def)

text \<open>
  A blit whose source is large enough is a painting: the cell \<open>(j, i)\<close> of the source lands on
  \<open>(x + j, y + i)\<close>.
\<close>

definition blit_cell :: "u32 list \<Rightarrow> int \<Rightarrow> int \<Rightarrow> int \<Rightarrow> int \<Rightarrow> int \<Rightarrow> u32" where
  "blit_cell src x y src_width a b = src ! nat ((b - y) * src_width + (a - x))"

lemma blit_fold:
  assumes "g_initialized s"
    "\<And>j i. (j, i) \<in> set ps \<Longrightarrow> 0 \<le> i * src_width + j \<and> i * src_width + j < int (length src)"
  shows "fold (\<lambda>(j, i) r. fault_bind r (\<lambda>s.
             if y + i < 0 \<or> y + i \<ge> int (g_height s) \<or> x + j < 0 \<or> x + j \<ge> int (g_width s) then Inr s
             else let k = i * src_width + j in
               if k < 0 \<or> k \<ge> int (length src) then Inl Out_of_bounds
               else Inr (s\<lparr>fb := (fb s)[nat (y + i) * g_width s + nat (x + j) := src ! nat k]\<rparr>))) ps (Inr s)
    = Inr (paint (blit_cell src x y src_width) (map (\<lambda>(j, i). (x + j, y + i)) ps) s)"
  using assms
proof (induction ps arbitrary: s)
  case (Cons p ps)
  obtain j i where p: "p = (j, i)" by force
  have k: "0 \<le> i * src_width + j" "i * src_width + j < int (length src)" using Cons.prems(2) [of j i] by (simp_all add: p)
  have step: "(if y + i < 0 \<or> y + i \<ge> int (g_height s) \<or> x + j < 0 \<or> x + j \<ge> int (g_width s) then Inr s
             else let k = i * src_width + j in
               if k < 0 \<or> k \<ge> int (length src) then Inl Out_of_bounds
               else Inr (s\<lparr>fb := (fb s)[nat (y + i) * g_width s + nat (x + j) := src ! nat k]\<rparr>))
     = (Inr (graphics_put_pixel (x + j) (y + i) (blit_cell src x y src_width (x + j) (y + i)) s) :: fault + gfx)"
    using k Cons.prems(1) by (auto simp: graphics_put_pixel_def blit_cell_def Let_def)
  have "g_initialized (graphics_put_pixel (x + j) (y + i) (blit_cell src x y src_width (x + j) (y + i)) s)"
    using Cons.prems(1) same_modeD [OF put_pixel_same_mode] by blast
  then show ?case
    using Cons.IH [OF _ Cons.prems(2)] by (simp add: p step del: split_paired_All)
qed simp

section \<open>Straight lines and rectangles\<close>

lemma line_loop_right:
  assumes "0 \<le> e" "0 < dx"
  shows "line_loop dx 0 sx sy (x + int n) y e x y = Some (map (\<lambda>i. (x + int i, y)) [0..<Suc n]) \<or> sx \<noteq> 1"
proof (cases "sx = 1")
  case True
  have "line_loop dx 0 1 sy (x + int n) y e x y = Some (map (\<lambda>i. (x + int i, y)) [0..<Suc n])"
  proof (induction n arbitrary: x)
    case 0
    show ?case by (subst line_loop.simps) simp
  next
    case (Suc n)
    have "line_loop dx 0 1 sy (x + 1 + int n) y e (x + 1) y = Some (map (\<lambda>i. (x + 1 + int i, y)) [0..<Suc n])"
      by (rule Suc.IH)
    moreover have "(x, y) # map (\<lambda>i. (x + 1 + int i, y)) [0..<Suc n] = map (\<lambda>i. (x + int i, y)) [0..<Suc (Suc n)]"
      unfolding upt_conv_Cons [OF zero_less_Suc] map_Suc_upt [symmetric] by (simp add: comp_def add.assoc)
    ultimately show ?case using assms
      by (subst line_loop.simps) (simp add: add.assoc del: upt_Suc)
  qed
  with True show ?thesis by simp
qed simp

lemma line_loop_down:
  assumes "e \<le> 0" "0 < dy"
  shows "line_loop 0 dy sx 1 x (y + int n) e x y = Some (map (\<lambda>i. (x, y + int i)) [0..<Suc n])"
proof (induction n arbitrary: y)
  case 0
  show ?case by (subst line_loop.simps) simp
next
  case (Suc n)
  have "line_loop 0 dy sx 1 x (y + 1 + int n) e x (y + 1) = Some (map (\<lambda>i. (x, y + 1 + int i)) [0..<Suc n])"
    by (rule Suc.IH)
  moreover have "(x, y) # map (\<lambda>i. (x, y + 1 + int i)) [0..<Suc n] = map (\<lambda>i. (x, y + int i)) [0..<Suc (Suc n)]"
    unfolding upt_conv_Cons [OF zero_less_Suc] map_Suc_upt [symmetric] by (simp add: comp_def add.assoc)
  ultimately show ?case using assms
    by (subst line_loop.simps) (simp add: add.assoc del: upt_Suc)
qed

lemma line_loop_point: "line_loop dx dy sx sy x y e x y = Some [(x, y)]"
  by (subst line_loop.simps) simp

lemma horizontal_points:
  assumes "x1 \<le> x2"
  shows "\<exists>ps. line_points x1 y x2 y = Some ps \<and> set ps = {x1..x2} \<times> {y}"
proof (cases "x1 = x2")
  case True
  then show ?thesis by (auto simp: line_points_def line_loop_point)
next
  case False
  then have x: "x1 < x2" "x2 = x1 + int (nat (x2 - x1))" using assms by simp_all
  have "line_points x1 y x2 y = Some (map (\<lambda>i. (x1 + int i, y)) [0..<Suc (nat (x2 - x1))])"
    using line_loop_right [of "(x2 - x1) div 2" "x2 - x1" 1 "- 1" x1 "nat (x2 - x1)" y] x
    by (simp add: line_points_def del: upt_Suc)
  moreover have "set (map (\<lambda>i. (x1 + int i, y)) [0..<Suc (nat (x2 - x1))]) = {x1..x2} \<times> {y}"
  proof (intro set_eqI iffI)
    fix p assume "p \<in> {x1..x2} \<times> {y}"
    then have "p = (x1 + int (nat (fst p - x1)), y)" "nat (fst p - x1) \<in> set [0..<Suc (nat (x2 - x1))]" by auto
    then show "p \<in> set (map (\<lambda>i. (x1 + int i, y)) [0..<Suc (nat (x2 - x1))])" unfolding set_map by blast
  qed (use x(1) in auto)
  ultimately show ?thesis by blast
qed

lemma vertical_points:
  assumes "y1 \<le> y2"
  shows "\<exists>ps. line_points x y1 x y2 = Some ps \<and> set ps = {x} \<times> {y1..y2}"
proof (cases "y1 = y2")
  case True
  then show ?thesis by (auto simp: line_points_def line_loop_point)
next
  case False
  then have y: "y1 < y2" "y2 = y1 + int (nat (y2 - y1))" using assms by simp_all
  have "line_points x y1 x y2 = Some (map (\<lambda>i. (x, y1 + int i)) [0..<Suc (nat (y2 - y1))])"
    using line_loop_down [of "- ((y2 - y1) div 2)" "y2 - y1" "- 1" x y1 "nat (y2 - y1)"] y
    by (simp add: line_points_def del: upt_Suc)
  moreover have "set (map (\<lambda>i. (x, y1 + int i)) [0..<Suc (nat (y2 - y1))]) = {x} \<times> {y1..y2}"
  proof (intro set_eqI iffI)
    fix p assume "p \<in> {x} \<times> {y1..y2}"
    then have "p = (x, y1 + int (nat (snd p - y1)))" "nat (snd p - y1) \<in> set [0..<Suc (nat (y2 - y1))]" by auto
    then show "p \<in> set (map (\<lambda>i. (x, y1 + int i)) [0..<Suc (nat (y2 - y1))])" unfolding set_map by blast
  qed (use y(1) in auto)
  ultimately show ?thesis by blast
qed

lemma draw_line_set:
  assumes "g_initialized s" "\<exists>ps. line_points x1 y1 x2 y2 = Some ps \<and> set ps = A"
  shows "\<exists>ps. graphics_draw_line x1 y1 x2 y2 color s = Some (put_pixels color ps s) \<and> set ps = A"
  using assms by (auto simp: graphics_draw_line_def)

lemma put_pixels_append: "put_pixels color qs (put_pixels color ps s) = put_pixels color (ps @ qs) s"
  by (simp add: put_pixels_def)

lemma put_pixels_initialized [simp]: "g_initialized (put_pixels color ps s) = g_initialized s"
  using same_modeD [OF put_pixels_same_mode] by blast

text \<open>The four lines of a rectangle together are its border.\<close>

definition border_cells :: "int \<Rightarrow> int \<Rightarrow> int \<Rightarrow> int \<Rightarrow> (int \<times> int) set" where
  "border_cells x y w h = {(a, b). x \<le> a \<and> a < x + w \<and> y \<le> b \<and> b < y + h \<and> (a = x \<or> a = x + w - 1 \<or> b = y \<or> b = y + h - 1)}"

lemma draw_rect_cells:
  assumes "g_initialized s" "0 < w" "0 < h"
  shows "\<exists>ps. graphics_draw_rect x y w h color s = Some (put_pixels color ps s) \<and> set ps = border_cells x y w h"
proof -
  have w: "x \<le> x + w - 1" and h: "y \<le> y + h - 1" using assms by simp_all
  have i: "g_initialized (put_pixels color ps s)" for ps using assms(1) by simp
  obtain p1 where 1: "graphics_draw_line x y (x + w - 1) y color s = Some (put_pixels color p1 s)" "set p1 = {x..x + w - 1} \<times> {y}"
    using draw_line_set [OF assms(1) horizontal_points [OF w]] by blast
  obtain p2 where 2: "graphics_draw_line x (y + h - 1) (x + w - 1) (y + h - 1) color (put_pixels color p1 s)
      = Some (put_pixels color p2 (put_pixels color p1 s))" "set p2 = {x..x + w - 1} \<times> {y + h - 1}"
    using draw_line_set [OF i [of p1] horizontal_points [OF w]] by blast
  obtain p3 where 3: "graphics_draw_line x y x (y + h - 1) color (put_pixels color (p1 @ p2) s)
      = Some (put_pixels color p3 (put_pixels color (p1 @ p2) s))" "set p3 = {x} \<times> {y..y + h - 1}"
    using draw_line_set [OF i [of "p1 @ p2"] vertical_points [OF h]] by blast
  obtain p4 where 4: "graphics_draw_line (x + w - 1) y (x + w - 1) (y + h - 1) color (put_pixels color (p1 @ p2 @ p3) s)
      = Some (put_pixels color p4 (put_pixels color (p1 @ p2 @ p3) s))" "set p4 = {x + w - 1} \<times> {y..y + h - 1}"
    using draw_line_set [OF i [of "p1 @ p2 @ p3"] vertical_points [OF h]] by blast
  have "graphics_draw_rect x y w h color s = Some (put_pixels color (p1 @ p2 @ p3 @ p4) s)"
    using assms(1) 1(1) 2(1) 3(1) 4(1) by (simp add: graphics_draw_rect_def put_pixels_append)
  moreover have "set (p1 @ p2 @ p3 @ p4) = border_cells x y w h"
    using 1(2) 2(2) 3(2) 4(2) assms(2,3) by (auto simp: border_cells_def)
  ultimately show ?thesis by blast
qed

section \<open>Properties\<close>

text \<open>
  \<open>graphics_draw_line\<close> always returns: its points are a connected path of \<open>max |dx| |dy| + 1\<close>
  points from the first end to the last, and exactly the points of the path that are on the screen
  get the colour; every other pixel is unchanged.
\<close>

theorem draw_line_connects:
  assumes "g_initialized s" "gfx_ok s"
  shows "\<exists>ps s'. graphics_draw_line x1 y1 x2 y2 color s = Some s' \<and> same_mode s' s \<and>
    path_to (x1, y1) (x2, y2) (nat (max \<bar>x2 - x1\<bar> \<bar>y2 - y1\<bar>)) ps \<and>
    (\<forall>a b. on_screen s a b \<longrightarrow> pixel s' a b = (if (a, b) \<in> set ps then color else pixel s a b))"
proof -
  obtain ps where "line_points x1 y1 x2 y2 = Some ps"
    "path_to (x1, y1) (x2, y2) (nat (max \<bar>x2 - x1\<bar> \<bar>y2 - y1\<bar>)) ps"
    using line_points_path by blast
  then show ?thesis
    using assms put_pixels_pixel [OF assms] put_pixels_same_mode [of color ps s]
    by (intro exI [of _ ps] exI [of _ "put_pixels color ps s"]) (simp add: graphics_draw_line_def)
qed

definition demo_screen :: gfx where
  "demo_screen = \<lparr>fb = replicate 12 7, g_width = 4, g_height = 3, g_pitch = 16, g_bpp = 32, g_initialized = True\<rparr>"

lemma demo_screen_ok: "g_initialized demo_screen" "gfx_ok demo_screen"
  by (simp_all add: demo_screen_def gfx_ok_def)

theorem draw_line_connects_witness:
  "\<exists>ps s'. graphics_draw_line 0 0 3 2 9 demo_screen = Some s' \<and> same_mode s' demo_screen \<and>
    path_to (0, 0) (3, 2) (nat (max \<bar>3 - 0\<bar> \<bar>2 - 0\<bar>)) ps \<and>
    (\<forall>a b. on_screen demo_screen a b \<longrightarrow> pixel s' a b = (if (a, b) \<in> set ps then 9 else pixel demo_screen a b))"
  by (rule draw_line_connects [OF demo_screen_ok])

text \<open>
  \<open>graphics_fill_rect\<close> paints exactly the on-screen part of its rectangle, and
  \<open>graphics_draw_rect\<close> of a non-empty rectangle exactly the on-screen part of its border.
\<close>

theorem rects_paint_exactly:
  assumes "g_initialized s" "gfx_ok s" "on_screen s a b"
  shows "pixel (graphics_fill_rect x y w h color s) a b
      = (if x \<le> a \<and> a < x + w \<and> y \<le> b \<and> b < y + h then color else pixel s a b) \<and>
    (0 < w \<and> 0 < h \<longrightarrow> (\<exists>s'. graphics_draw_rect x y w h color s = Some s' \<and>
       pixel s' a b = (if (a, b) \<in> border_cells x y w h then color else pixel s a b)))"
proof (intro conjI impI)
  show "pixel (graphics_fill_rect x y w h color s) a b
      = (if x \<le> a \<and> a < x + w \<and> y \<le> b \<and> b < y + h then color else pixel s a b)"
    using assms(1) put_pixels_pixel [OF assms] by (simp add: graphics_fill_rect_def)
next
  assume "0 < w \<and> 0 < h"
  then show "\<exists>s'. graphics_draw_rect x y w h color s = Some s' \<and>
       pixel s' a b = (if (a, b) \<in> border_cells x y w h then color else pixel s a b)"
    using draw_rect_cells [OF assms(1)] put_pixels_pixel [OF assms] by metis
qed

theorem rects_paint_exactly_witness:
  "pixel (graphics_fill_rect 1 1 9 1 (5 :: u32) demo_screen) 3 1 = 5"
  using rects_paint_exactly [OF demo_screen_ok, of 3 1 1 1 9 1 5]
  by (simp add: on_screen_def demo_screen_def)

text \<open>
  \<open>graphics_blit\<close> of a source with enough rows never reads outside it and copies it pixel for
  pixel: the screen shows the source inside the rectangle and what it showed before elsewhere.
\<close>

theorem blit_copies:
  assumes "g_initialized s" "gfx_ok s" "0 \<le> w" "w \<le> sw" "0 \<le> h" "h * sw \<le> int (length src)"
  shows "\<exists>s'. graphics_blit (Some src) x y w h sw s = Inr s' \<and> same_mode s' s \<and>
    (\<forall>a b. on_screen s a b \<longrightarrow> pixel s' a b =
       (if x \<le> a \<and> a < x + w \<and> y \<le> b \<and> b < y + h then src ! nat ((b - y) * sw + (a - x)) else pixel s a b))"
proof -
  let ?ps = "map (\<lambda>(j, i). (x + j, y + i)) (rect_cells 0 0 w h)"
  have range: "0 \<le> i * sw + j \<and> i * sw + j < int (length src)" if "(j, i) \<in> set (rect_cells 0 0 w h)" for j i
  proof -
    have ji: "0 \<le> j" "j < w" "0 \<le> i" "i + 1 \<le> h" using that by simp_all
    then have "0 \<le> i * sw" "(i + 1) * sw \<le> h * sw" using assms(3,4) by (auto intro: mult_right_mono)
    then show ?thesis using ji assms(4,6) by (simp add: algebra_simps)
  qed
  have "graphics_blit (Some src) x y w h sw s = Inr (paint (blit_cell src x y sw) ?ps s)"
    unfolding graphics_blit_def option.sel using assms(1)
    by (subst blit_fold [where ps = "rect_cells 0 0 w h", OF assms(1) range]) simp_all
  moreover have "(a, b) \<in> set ?ps \<longleftrightarrow> x \<le> a \<and> a < x + w \<and> y \<le> b \<and> b < y + h" for a b
  proof
    assume "x \<le> a \<and> a < x + w \<and> y \<le> b \<and> b < y + h"
    then have "(a - x, b - y) \<in> set (rect_cells 0 0 w h)" by simp
    then show "(a, b) \<in> set ?ps" unfolding set_map by (rule image_eqI [rotated]) simp
  qed auto
  ultimately show ?thesis
    using paint_same_mode [of "blit_cell src x y sw" ?ps s] paint_pixel [OF assms(1,2), of _ _ "blit_cell src x y sw" ?ps]
    by (simp add: blit_cell_def del: set_map)
qed

theorem blit_copies_witness:
  "\<exists>s'. graphics_blit (Some [1, 2, 3, 4]) 3 2 2 2 2 demo_screen = Inr s' \<and> pixel s' 3 2 = 1"
proof -
  have "on_screen demo_screen 3 2" by (simp add: demo_screen_def on_screen_def)
  then show ?thesis using blit_copies [OF demo_screen_ok, of 2 2 2 "[1, 2, 3, 4]" 3 2] by auto
qed

lemma draw_char_same_mode: "same_mode (graphics_draw_char font c x y color s) s"
  by (simp add: graphics_draw_char_def put_pixels_same_mode)

lemma draw_text_same_mode: "same_mode (graphics_draw_text font text x y color s) s"
proof -
  have "same_mode (draw_text_from font cs x cx cy color s) s" for cs cx cy s
    by (induction font cs x cx cy color s rule: draw_text_from.induct)
      (auto intro: same_mode_trans draw_char_same_mode)
  then show ?thesis by (simp add: graphics_draw_text_def)
qed

lemma fill_rect_alpha_same_mode: "same_mode (graphics_fill_rect_alpha x y w h color alpha s) s"
proof -
  have "same_mode (fold (\<lambda>(j, i) s. if j < 0 \<or> j \<ge> int (g_width s) \<or> i < 0 \<or> i \<ge> int (g_height s) then s
             else let k = nat i * g_width s + nat j in s\<lparr>fb := (fb s)[k := blend_pixel (fb s ! k) color alpha]\<rparr>) ps s) s" for ps s
  proof (induction ps arbitrary: s)
    case (Cons p ps)
    obtain j i where p: "p = (j, i)" by force
    have "same_mode (if j < 0 \<or> j \<ge> int (g_width s) \<or> i < 0 \<or> i \<ge> int (g_height s) then s
             else let k = nat i * g_width s + nat j in s\<lparr>fb := (fb s)[k := blend_pixel (fb s ! k) color alpha]\<rparr>) s"
      by (auto simp: same_mode_def Let_def)
    from same_mode_trans [OF Cons.IH this] show ?case by (simp add: p)
  qed simp
  then show ?thesis by (simp add: graphics_fill_rect_alpha_def)
qed

text \<open>
  No drawing operation changes the mode or the size of the frame buffer: whatever the
  coordinates, nothing is written beside the screen.
\<close>

theorem drawing_keeps_mode:
  "same_mode (graphics_put_pixel x y color s) s \<and> same_mode (graphics_fill_rect x y w h color s) s \<and>
   same_mode (graphics_draw_text font txt x y color s) s \<and> same_mode (graphics_fill_rect_alpha x y w h color alpha s) s \<and>
   same_mode (graphics_draw_rounded_rect x y w h radius color s) s"
  unfolding graphics_draw_rounded_rect_def
  by (intro conjI put_pixel_same_mode fill_rect_same_mode draw_text_same_mode fill_rect_alpha_same_mode
      same_mode_trans [OF fill_rect_same_mode fill_rect_same_mode])

text \<open>Blending: full opacity is not the colour itself (the division is by 256, not 255), and zero
  opacity darkens the pixel for the same reason.\<close>

lemma blend_extremes:
  "blend_pixel 0xFFFFFF 0xFFFFFF 255 = 0xFEFEFE" "blend_pixel 0xFFFFFF 0 0 = 0xFEFEFE"
  by (simp_all add: blend_pixel_def)

text \<open>The first \<open>graphics_init\<close> does not clear the screen: \<open>graphics_clear\<close> returns at once before
  the flag is set.\<close>

lemma init_does_not_clear:
  "\<not> g_initialized s \<Longrightarrow> fb (fst (graphics_init s)) = fb s"
  by (simp add: graphics_init_def graphics_clear_def Let_def)

end
