(* ===== verification/Input_Events.thy ===== *)
theory Input_Events
  imports Fifo_Interface
begin

unbundle bit_operations_syntax

text \<open>
  The input manager of the desktop (\<^verbatim>\<open>gui/input.c\<close>): a ring of 32 events filled by the keyboard, mouse
  and touch callbacks, modifier and pointer state, double clicks and global shortcuts. A shortcut is
  returned as a value, for the part of the desktop it belongs to. Shown here: the ring is a FIFO, what
  a mouse report queues, that the pointer state follows the accepted reports, when a double click is
  seen, and which shortcuts can ever fire.
\<close>

section \<open>State\<close>

datatype input_event_type = INPUT_KEY_PRESS | INPUT_KEY_RELEASE | INPUT_MOUSE_MOVE | INPUT_MOUSE_CLICK | INPUT_MOUSE_RELEASE

text \<open>The union of a key (ascii, scan code, modifiers) and a mouse report (x, y, buttons).\<close>

datatype event_data = Key_data u8 u8 u8 | Mouse_data int int u8

record input_event =
  ev_type :: input_event_type
  ev_data :: event_data
  ev_timestamp :: u32

definition INPUT_QUEUE_SIZE :: nat where "INPUT_QUEUE_SIZE = 32"

record input_manager =
  event_queue :: "input_event list"
  queue_head :: nat
  queue_tail :: nat
  queue_count :: nat
  mouse_x :: int
  mouse_y :: int
  mouse_buttons :: u8
  key_modifiers :: u8
  tablet_mode_active :: u8
  is_touch_event :: u8
  last_click_time :: u32
  last_click_x :: int
  last_click_y :: int
  is_double_click :: u8
  key_repeat_delay :: u32

datatype shortcut = Toggle_start_menu | Taskview_open u8 | Close_focused_window | Global_copy | Global_paste

definition MAYA_KEY_CTRL :: u8 where "MAYA_KEY_CTRL = 29"
definition MAYA_KEY_ALT :: u8 where "MAYA_KEY_ALT = 56"
definition MAYA_KEY_SHIFT :: u8 where "MAYA_KEY_SHIFT = 42"
definition MAYA_KEY_SUPER :: u8 where "MAYA_KEY_SUPER = 91"
definition KEY_TAB :: u8 where "KEY_TAB = 15"
definition KEY_F4 :: u8 where "KEY_F4 = 62"
definition MAYA_MOUSE_LEFT :: u8 where "MAYA_MOUSE_LEFT = 1"

lemmas key_codes = MAYA_KEY_CTRL_def MAYA_KEY_ALT_def MAYA_KEY_SHIFT_def MAYA_KEY_SUPER_def KEY_TAB_def KEY_F4_def

text \<open>The all-zero event an empty queue returns: a key press.\<close>

definition zero_event :: input_event where
  "zero_event = \<lparr>ev_type = INPUT_KEY_PRESS, ev_data = Key_data 0 0 0, ev_timestamp = 0\<rparr>"

section \<open>Operations\<close>

definition maya_input_init :: "input_manager \<Rightarrow> input_manager" where
  "maya_input_init s =
     \<lparr>event_queue = replicate INPUT_QUEUE_SIZE zero_event, queue_head = 0, queue_tail = 0, queue_count = 0,
      mouse_x = 0, mouse_y = 0, mouse_buttons = 0, key_modifiers = 0, tablet_mode_active = 0, is_touch_event = 0,
      last_click_time = 0, last_click_x = 0, last_click_y = 0, is_double_click = 0, key_repeat_delay = 500\<rparr>"

text \<open>Filling the slot at the head and advancing; both kinds of event end with it.\<close>

definition push_event :: "input_event \<Rightarrow> input_manager \<Rightarrow> input_manager" where
  "push_event e s = s\<lparr>event_queue := (event_queue s)[queue_head s := e],
     queue_head := (queue_head s + 1) mod INPUT_QUEUE_SIZE, queue_count := queue_count s + 1\<rparr>"

definition set_modifier :: "u8 \<Rightarrow> bool \<Rightarrow> input_manager \<Rightarrow> input_manager" where
  "set_modifier b pressed s = s\<lparr>key_modifiers := (if pressed then key_modifiers s OR b else key_modifiers s AND NOT b)\<rparr>"

definition update_modifiers :: "u8 \<Rightarrow> bool \<Rightarrow> input_manager \<Rightarrow> input_manager" where
  "update_modifiers scancode pressed s =
     (if scancode = MAYA_KEY_CTRL then set_modifier 0x01 pressed s
      else if scancode = MAYA_KEY_ALT then set_modifier 0x02 pressed s
      else if scancode = MAYA_KEY_SHIFT then set_modifier 0x04 pressed s
      else s)"

text \<open>The shortcut a pressed key triggers, which is then not queued.\<close>

definition find_shortcut :: "u8 \<Rightarrow> u8 \<Rightarrow> u8 \<Rightarrow> shortcut option" where
  "find_shortcut mods ascii scancode =
     (if scancode = MAYA_KEY_SUPER then
        (if mods AND 0x08 \<noteq> 0 then Some (Taskview_open 0) else Some Toggle_start_menu)
      else if mods AND 0x02 \<noteq> 0 \<and> scancode = KEY_F4 then Some Close_focused_window
      else if mods AND 0x01 \<noteq> 0 \<and> ascii = 0x63 then Some Global_copy
      else if mods AND 0x01 \<noteq> 0 \<and> ascii = 0x76 then Some Global_paste
      else if mods AND 0x02 \<noteq> 0 \<and> scancode = KEY_TAB then Some (Taskview_open 1)
      else None)"

definition maya_input_add_key_event :: "u32 \<Rightarrow> u8 \<Rightarrow> u8 \<Rightarrow> bool \<Rightarrow> input_manager \<Rightarrow> input_manager \<times> shortcut option" where
  "maya_input_add_key_event now ascii scancode pressed s =
     (if queue_count s \<ge> INPUT_QUEUE_SIZE then (s, None)
      else let s1 = update_modifiers scancode pressed s;
               sc = (if pressed then find_shortcut (key_modifiers s1) ascii scancode else None) in
        if sc \<noteq> None then (s1, sc)
        else (push_event \<lparr>ev_type = (if pressed then INPUT_KEY_PRESS else INPUT_KEY_RELEASE),
                ev_data = Key_data ascii scancode (key_modifiers s1), ev_timestamp = now\<rparr> s1, None))"

definition note_click :: "u32 \<Rightarrow> int \<Rightarrow> int \<Rightarrow> input_manager \<Rightarrow> input_manager" where
  "note_click now x y s =
     s\<lparr>is_double_click := (if now - last_click_time s < 50 \<and> abs (x - last_click_x s) < 5 \<and> abs (y - last_click_y s) < 5 then 1 else 0),
       last_click_time := now, last_click_x := x, last_click_y := y\<rparr>"

definition maya_input_add_mouse_event :: "u32 \<Rightarrow> int \<Rightarrow> int \<Rightarrow> u8 \<Rightarrow> input_manager \<Rightarrow> input_manager" where
  "maya_input_add_mouse_event now x y buttons s =
     (if queue_count s \<ge> INPUT_QUEUE_SIZE then s
      else if x = mouse_x s \<and> y = mouse_y s \<and> buttons = mouse_buttons s then s
      else let moved = (x \<noteq> mouse_x s \<or> y \<noteq> mouse_y s);
               ty = (if moved then INPUT_MOUSE_MOVE
                     else if buttons > mouse_buttons s then INPUT_MOUSE_CLICK else INPUT_MOUSE_RELEASE);
               s1 = (if ty = INPUT_MOUSE_CLICK \<and> buttons = MAYA_MOUSE_LEFT then note_click now x y s else s)
        in push_event \<lparr>ev_type = ty, ev_data = Mouse_data x y buttons, ev_timestamp = now\<rparr>
             (s1\<lparr>mouse_x := x, mouse_y := y, mouse_buttons := buttons\<rparr>))"

definition maya_input_add_key_event_callback :: "u32 \<Rightarrow> u8 \<Rightarrow> input_manager \<Rightarrow> input_manager \<times> shortcut option" where
  "maya_input_add_key_event_callback now ascii s = maya_input_add_key_event now ascii 0 True s"

definition maya_input_add_mouse_event_callback :: "u32 \<Rightarrow> int \<Rightarrow> int \<Rightarrow> u8 \<Rightarrow> input_manager \<Rightarrow> input_manager" where
  "maya_input_add_mouse_event_callback now x y buttons s =
     maya_input_add_mouse_event now x y buttons (s\<lparr>is_touch_event := 0\<rparr>)"

definition maya_input_add_touch_event_callback :: "u32 \<Rightarrow> int \<Rightarrow> int \<Rightarrow> bool \<Rightarrow> input_manager \<Rightarrow> input_manager" where
  "maya_input_add_touch_event_callback now x y down s =
     maya_input_add_mouse_event now x y (if down then MAYA_MOUSE_LEFT else 0) (s\<lparr>is_touch_event := 1\<rparr>)"

definition maya_input_has_events :: "input_manager \<Rightarrow> bool" where
  "maya_input_has_events s \<longleftrightarrow> queue_count s > 0"

definition maya_input_get_event :: "input_manager \<Rightarrow> input_manager \<times> input_event" where
  "maya_input_get_event s =
     (if queue_count s > 0
      then (s\<lparr>queue_tail := (queue_tail s + 1) mod INPUT_QUEUE_SIZE, queue_count := queue_count s - 1\<rparr>, event_queue s ! queue_tail s)
      else (s, zero_event))"

definition maya_input_is_key_pressed :: "u8 \<Rightarrow> input_manager \<Rightarrow> bool" where "maya_input_is_key_pressed scancode s = False"
definition maya_input_is_ctrl_pressed :: "input_manager \<Rightarrow> bool" where "maya_input_is_ctrl_pressed s \<longleftrightarrow> key_modifiers s AND 0x01 \<noteq> 0"
definition maya_input_is_alt_pressed :: "input_manager \<Rightarrow> bool" where "maya_input_is_alt_pressed s \<longleftrightarrow> key_modifiers s AND 0x02 \<noteq> 0"
definition maya_input_is_shift_pressed :: "input_manager \<Rightarrow> bool" where "maya_input_is_shift_pressed s \<longleftrightarrow> key_modifiers s AND 0x04 \<noteq> 0"
definition maya_input_get_mouse_pos :: "input_manager \<Rightarrow> int \<times> int" where "maya_input_get_mouse_pos s = (mouse_x s, mouse_y s)"
definition maya_input_is_mouse_button_pressed :: "u8 \<Rightarrow> input_manager \<Rightarrow> bool" where
  "maya_input_is_mouse_button_pressed button s \<longleftrightarrow> mouse_buttons s AND button \<noteq> 0"
definition maya_input_is_double_click :: "input_manager \<Rightarrow> u8" where "maya_input_is_double_click s = is_double_click s"
definition maya_input_clear_double_click :: "input_manager \<Rightarrow> input_manager" where "maya_input_clear_double_click s = s\<lparr>is_double_click := 0\<rparr>"
definition maya_input_set_tablet_mode :: "u8 \<Rightarrow> input_manager \<Rightarrow> input_manager" where "maya_input_set_tablet_mode active s = s\<lparr>tablet_mode_active := active\<rparr>"
definition maya_input_is_tablet_mode :: "input_manager \<Rightarrow> u8" where "maya_input_is_tablet_mode s = tablet_mode_active s"

section \<open>The queue\<close>

definition input_inv :: "input_manager \<Rightarrow> bool" where
  "input_inv s \<longleftrightarrow> length (event_queue s) = INPUT_QUEUE_SIZE \<and> queue_tail s < INPUT_QUEUE_SIZE \<and>
     queue_count s \<le> INPUT_QUEUE_SIZE \<and> queue_head s = (queue_tail s + queue_count s) mod INPUT_QUEUE_SIZE"

definition input_contents :: "input_manager \<Rightarrow> input_event list" where
  "input_contents s = ring_contents (event_queue s) (queue_tail s) (queue_count s)"

definition input_put :: "input_manager \<Rightarrow> input_event \<Rightarrow> input_manager \<times> bool" where
  "input_put s e = (if queue_count s \<ge> INPUT_QUEUE_SIZE then (s, False) else (push_event e s, True))"

definition input_get :: "input_manager \<Rightarrow> input_manager \<times> input_event option" where
  "input_get s = (let (s', e) = maya_input_get_event s in (s', if maya_input_has_events s then Some e else None))"

lemma init_inv: "input_inv (maya_input_init s)" "input_contents (maya_input_init s) = []"
  by (simp_all add: input_inv_def maya_input_init_def INPUT_QUEUE_SIZE_def input_contents_def)

lemma push_event_law:
  assumes "input_inv s" "queue_count s < INPUT_QUEUE_SIZE"
  shows "input_inv (push_event e s) \<and> input_contents (push_event e s) = input_contents s @ [e]"
  using assms ring_write [of "queue_count s" "event_queue s" "queue_tail s" e]
  by (auto simp: input_inv_def input_contents_def push_event_def mod_Suc_eq)

lemma get_event_law:
  assumes "input_inv s" "queue_count s = Suc n"
  shows "input_inv (fst (maya_input_get_event s)) \<and>
    input_contents s = snd (maya_input_get_event s) # input_contents (fst (maya_input_get_event s))"
  using assms ring_read [of "queue_tail s" "event_queue s" n]
  by (auto simp: input_inv_def input_contents_def maya_input_get_event_def mod_add_left_eq INPUT_QUEUE_SIZE_def)

interpretation input_queue: fifo input_contents input_put input_get input_inv
proof unfold_locales
  fix s e s' b
  assume "input_inv s" "input_put s e = (s', b)"
  then show "input_inv s' \<and> input_contents s' = (if b then input_contents s @ [e] else input_contents s)"
    using push_event_law [of s e] by (auto simp: input_put_def split: if_splits)
next
  fix s s' r
  assume a: "input_inv s" "input_get s = (s', r)"
  show "input_inv s' \<and> input_contents s = (case r of None \<Rightarrow> [] | Some x \<Rightarrow> [x]) @ input_contents s'"
  proof (cases "queue_count s")
    case 0
    then show ?thesis using a
      by (auto simp: input_get_def maya_input_get_event_def maya_input_has_events_def input_contents_def)
  next
    case (Suc n)
    then show ?thesis using a get_event_law [OF a(1) Suc]
      by (auto simp: input_get_def maya_input_has_events_def split: prod.splits)
  qed
qed

text \<open>
  The event queue is a FIFO of 32 events: events handed out followed by those still queued are
  those queued before followed by those accepted, in order.
\<close>

theorem input_queue_fifo:
  assumes "input_inv s" "run_fifo input_put input_get s ops = (s', accepted, taken)"
  shows "input_inv s' \<and> input_contents s @ accepted = taken @ input_contents s'"
  using assms by (rule input_queue.history)

section \<open>Mouse reports and keys\<close>

text \<open>
  A mouse report on a queue with room records position and buttons, and queues one event exactly
  when something changed: a move if the position did, otherwise a click or a release.
\<close>

lemma mouse_report_queued_inv:
  assumes "input_inv s" "queue_count s < INPUT_QUEUE_SIZE" "s' = maya_input_add_mouse_event now x y buttons s"
  shows "input_inv s' \<and> maya_input_get_mouse_pos s' = (x, y) \<and> mouse_buttons s' = buttons \<and>
    input_contents s' = input_contents s @
      (if (x, y) = maya_input_get_mouse_pos s \<and> buttons = mouse_buttons s then []
       else [\<lparr>ev_type = (if (x, y) \<noteq> maya_input_get_mouse_pos s then INPUT_MOUSE_MOVE
                       else if buttons > mouse_buttons s then INPUT_MOUSE_CLICK else INPUT_MOUSE_RELEASE),
              ev_data = Mouse_data x y buttons, ev_timestamp = now\<rparr>])"
proof (cases "x = mouse_x s \<and> y = mouse_y s \<and> buttons = mouse_buttons s")
  case True
  then show ?thesis using assms by (simp add: maya_input_add_mouse_event_def maya_input_get_mouse_pos_def)
next
  case False
  let ?ty = "if x \<noteq> mouse_x s \<or> y \<noteq> mouse_y s then INPUT_MOUSE_MOVE
    else if buttons > mouse_buttons s then INPUT_MOUSE_CLICK else INPUT_MOUSE_RELEASE"
  define s0 where "s0 = (if ?ty = INPUT_MOUSE_CLICK \<and> buttons = MAYA_MOUSE_LEFT then note_click now x y s else s)"
  define s1 where "s1 = s0\<lparr>mouse_x := x, mouse_y := y, mouse_buttons := buttons\<rparr>"
  define e where "e = \<lparr>ev_type = ?ty, ev_data = Mouse_data x y buttons, ev_timestamp = now\<rparr>"
  have s': "s' = push_event e s1"
    unfolding assms(3) maya_input_add_mouse_event_def Let_def s1_def s0_def e_def using False assms(2) by (simp only: not_le [symmetric] if_False simp_thms)
  have "event_queue s1 = event_queue s" "queue_tail s1 = queue_tail s" "queue_count s1 = queue_count s" "queue_head s1 = queue_head s"
    by (simp_all add: s1_def s0_def note_click_def)
  then have s1: "input_inv s1" "queue_count s1 < INPUT_QUEUE_SIZE" "input_contents s1 = input_contents s"
    using assms(1,2) by (simp_all add: input_inv_def input_contents_def)
  have m: "mouse_x s1 = x" "mouse_y s1 = y" "mouse_buttons s1 = buttons" by (simp_all add: s1_def)
  have "\<not> ((x, y) = maya_input_get_mouse_pos s \<and> buttons = mouse_buttons s)"
    using False by (simp add: maya_input_get_mouse_pos_def)
  then show ?thesis using push_event_law [OF s1(1,2), of e] s1(3) m
    by (simp add: s' maya_input_get_mouse_pos_def e_def) (simp add: push_event_def)
qed

text \<open>A key event: the queue grows by the event unless a shortcut takes the key.\<close>

lemma set_modifier_inv [simp]:
  "input_inv (set_modifier b p s) = input_inv s" "input_contents (set_modifier b p s) = input_contents s"
  "queue_count (set_modifier b p s) = queue_count s"
  by (simp_all add: set_modifier_def input_inv_def input_contents_def)

lemma update_modifiers_inv [simp]:
  "input_inv (update_modifiers sc p s) = input_inv s" "input_contents (update_modifiers sc p s) = input_contents s"
  "queue_count (update_modifiers sc p s) = queue_count s"
  by (simp_all add: update_modifiers_def)

lemma key_event_law:
  assumes "input_inv s" "maya_input_add_key_event now ascii sc pressed s = (s', sh)"
  shows "input_inv s'"
  using assms push_event_law [of "update_modifiers sc pressed s"]
  by (auto simp: maya_input_add_key_event_def Let_def split: if_splits)

text \<open>The bit that should say the Super key is held is never set.\<close>

definition no_super_bit :: "input_manager \<Rightarrow> bool" where
  "no_super_bit s \<longleftrightarrow> key_modifiers s AND 0x08 = 0"

lemma low_update:
  assumes "no_super_bit s"
  shows "no_super_bit (update_modifiers sc p s)"
proof -
  have "(m OR b) AND 8 = (m AND 8) OR (b AND 8)" "(m AND NOT b) AND 8 = (m AND 8) AND NOT b" for m b :: u8
    by (simp_all add: bit.conj_disj_distrib2 ac_simps)
  with assms have "no_super_bit (set_modifier b p s)" if "b AND 8 = 0" for b
    using that by (simp add: no_super_bit_def set_modifier_def)
  with assms show ?thesis by (simp add: update_modifiers_def)
qed

lemma key_event_modifiers:
  "maya_input_add_key_event now ascii sc pressed s = (s', sh) \<Longrightarrow>
     key_modifiers s' = key_modifiers s \<or> key_modifiers s' = key_modifiers (update_modifiers sc pressed s)"
  by (auto simp: maya_input_add_key_event_def Let_def push_event_def split: if_splits)

lemma key_event_shortcut:
  "maya_input_add_key_event now ascii sc pressed s = (s', Some c) \<Longrightarrow>
     find_shortcut (key_modifiers (update_modifiers sc pressed s)) ascii sc = Some c"
  by (auto simp: maya_input_add_key_event_def Let_def split: if_splits)

lemma no_task_view: "m AND 8 = 0 \<Longrightarrow> find_shortcut m ascii sc \<noteq> Some (Taskview_open 0)"
  by (simp add: find_shortcut_def)

text \<open>
  Runs of the input manager. With \<open>drv\<close> only the callbacks the drivers know feed it; otherwise any
  key event may be reported. The list collects the shortcuts that fired.
\<close>

inductive input_run :: "bool \<Rightarrow> input_manager \<Rightarrow> shortcut list \<Rightarrow> bool" where
  Init: "input_run drv (maya_input_init s) []"
| Key: "input_run drv s cs \<Longrightarrow> maya_input_add_key_event_callback now ascii s = (s', sh) \<Longrightarrow>
     input_run drv s' (case sh of None \<Rightarrow> cs | Some c \<Rightarrow> c # cs)"
| Raw_key: "input_run drv s cs \<Longrightarrow> \<not> drv \<Longrightarrow> maya_input_add_key_event now ascii sc pressed s = (s', sh) \<Longrightarrow>
     input_run drv s' (case sh of None \<Rightarrow> cs | Some c \<Rightarrow> c # cs)"
| Mouse: "input_run drv s cs \<Longrightarrow> input_run drv (maya_input_add_mouse_event_callback now x y buttons s) cs"
| Touch: "input_run drv s cs \<Longrightarrow> input_run drv (maya_input_add_touch_event_callback now x y down s) cs"
| Take: "input_run drv s cs \<Longrightarrow> input_run drv (fst (maya_input_get_event s)) cs"
| Clear: "input_run drv s cs \<Longrightarrow> input_run drv (maya_input_clear_double_click s) cs"
| Tablet: "input_run drv s cs \<Longrightarrow> input_run drv (maya_input_set_tablet_mode active s) cs"

lemma mouse_event_keeps:
  "key_modifiers (maya_input_add_mouse_event now x y buttons s) = key_modifiers s"
  by (simp add: maya_input_add_mouse_event_def Let_def note_click_def push_event_def)

lemma mouse_event_inv:
  assumes "input_inv s" shows "input_inv (maya_input_add_mouse_event now x y buttons s)"
proof (cases "queue_count s < INPUT_QUEUE_SIZE")
  case True
  with mouse_report_queued_inv [OF assms True refl] show ?thesis by blast
next
  case False
  with assms show ?thesis by (simp add: maya_input_add_mouse_event_def)
qed

lemma get_event_inv:
  assumes "input_inv s" shows "input_inv (fst (maya_input_get_event s))"
  using get_event_law [OF assms] assms by (cases "queue_count s") (auto simp: maya_input_get_event_def)

lemma inv_flags [simp]:
  "input_inv (s\<lparr>is_touch_event := t\<rparr>) = input_inv s" "input_inv (maya_input_clear_double_click s) = input_inv s"
  "input_inv (maya_input_set_tablet_mode active s) = input_inv s"
  by (simp_all add: input_inv_def maya_input_clear_double_click_def maya_input_set_tablet_mode_def)

lemma input_run_inv: "input_run drv s cs \<Longrightarrow> input_inv s"
  by (induction rule: input_run.induct)
    (auto simp: init_inv maya_input_add_key_event_callback_def maya_input_add_mouse_event_callback_def
      maya_input_add_touch_event_callback_def get_event_inv mouse_event_inv intro: key_event_law)

lemma run_modifiers:
  "input_run drv s cs \<Longrightarrow> no_super_bit s \<and> Taskview_open 0 \<notin> set cs \<and> (drv \<longrightarrow> key_modifiers s = 0 \<and> cs = [])"
proof (induction rule: input_run.induct)
  case (Key drv s cs now ascii s' sh)
  have k: "maya_input_add_key_event now ascii 0 True s = (s', sh)" using Key.hyps(2) by (simp add: maya_input_add_key_event_callback_def)
  have u: "update_modifiers 0 True s = s" by (simp add: update_modifiers_def key_codes)
  have n: "sh \<noteq> None \<Longrightarrow> find_shortcut (key_modifiers s) ascii 0 = sh" using key_event_shortcut k u by fastforce
  have "key_modifiers s' = key_modifiers s" using key_event_modifiers [OF k] u by simp
  moreover have "sh \<noteq> Some (Taskview_open 0)" using n no_task_view Key.IH by (auto simp: no_super_bit_def)
  moreover have "drv \<Longrightarrow> sh = None" using n Key.IH by (cases sh) (auto simp: find_shortcut_def key_codes)
  ultimately show ?case using Key.IH by (auto simp: no_super_bit_def split: option.splits)
next
  case (Raw_key drv s cs now ascii sc pressed s' sh)
  have "no_super_bit s'" using key_event_modifiers [OF Raw_key.hyps(3)] low_update Raw_key.IH by (auto simp: no_super_bit_def)
  moreover have "sh \<noteq> Some (Taskview_open 0)"
    using key_event_shortcut Raw_key.hyps(3) no_task_view low_update Raw_key.IH by (metis no_super_bit_def)
  ultimately show ?case using Raw_key.IH Raw_key.hyps(2) by (auto split: option.splits)
qed (auto simp: no_super_bit_def maya_input_init_def maya_input_add_mouse_event_callback_def mouse_event_keeps
    maya_input_add_touch_event_callback_def maya_input_get_event_def maya_input_clear_double_click_def maya_input_set_tablet_mode_def)

text \<open>
  In every state of the input manager the queue invariant holds, and the Super key never opens
  the task view, because no key ever sets its modifier bit. As long as keys come from the keyboard
  driver, whose callback reports scan code 0, no modifier is ever set and no shortcut fires at all.
\<close>

theorem input_runs_safe:
  assumes "input_run drv s cs"
  shows "input_inv s \<and> Taskview_open 0 \<notin> set cs \<and> (drv \<longrightarrow> key_modifiers s = 0 \<and> cs = [])"
  using input_run_inv [OF assms] run_modifiers [OF assms] by blast

text \<open>
  The tag of an event tells which member of its union is set: a key for a press or release of a key,
  a mouse report for the others.
\<close>

definition well_tagged :: "input_event \<Rightarrow> bool" where
  "well_tagged e \<longleftrightarrow> (case ev_data e of Key_data a sc m \<Rightarrow> ev_type e \<in> {INPUT_KEY_PRESS, INPUT_KEY_RELEASE}
     | Mouse_data x y b \<Rightarrow> ev_type e \<in> {INPUT_MOUSE_MOVE, INPUT_MOUSE_CLICK, INPUT_MOUSE_RELEASE})"

definition queue_tagged :: "input_manager \<Rightarrow> bool" where
  "queue_tagged s \<longleftrightarrow> (\<forall>e \<in> set (event_queue s). well_tagged e)"

lemma push_tagged: "queue_tagged s \<Longrightarrow> well_tagged e \<Longrightarrow> queue_tagged (push_event e s)"
  using set_update_subset_insert [of "event_queue s" "queue_head s" e] by (auto simp: queue_tagged_def push_event_def)

lemma same_queue_tagged [simp]:
  "queue_tagged (update_modifiers sc p s) = queue_tagged s" "queue_tagged (s\<lparr>is_touch_event := t\<rparr>) = queue_tagged s"
  "queue_tagged (note_click now x y s) = queue_tagged s" "queue_tagged (fst (maya_input_get_event s)) = queue_tagged s"
  "queue_tagged (s\<lparr>mouse_x := x, mouse_y := y, mouse_buttons := b\<rparr>) = queue_tagged s"
  "queue_tagged (maya_input_clear_double_click s) = queue_tagged s" "queue_tagged (maya_input_set_tablet_mode a s) = queue_tagged s"
  by (simp_all add: queue_tagged_def update_modifiers_def set_modifier_def note_click_def maya_input_get_event_def
    maya_input_clear_double_click_def maya_input_set_tablet_mode_def)

lemma key_event_tagged:
  "queue_tagged s \<Longrightarrow> maya_input_add_key_event now ascii sc pressed s = (s', sh) \<Longrightarrow> queue_tagged s'"
  by (auto simp: maya_input_add_key_event_def Let_def well_tagged_def intro!: push_tagged split: if_splits)

lemma mouse_event_tagged: "queue_tagged s \<Longrightarrow> queue_tagged (maya_input_add_mouse_event now x y buttons s)"
  by (simp add: maya_input_add_mouse_event_def Let_def well_tagged_def push_tagged)

lemma init_tagged: "queue_tagged (maya_input_init s)"
  by (simp add: queue_tagged_def maya_input_init_def zero_event_def well_tagged_def)

lemma input_run_tagged: "input_run drv s cs \<Longrightarrow> queue_tagged s"
  by (induction rule: input_run.induct)
    (auto simp: init_tagged maya_input_add_key_event_callback_def maya_input_add_mouse_event_callback_def maya_input_add_touch_event_callback_def
      intro: mouse_event_tagged key_event_tagged)

text \<open>
  C21. Whatever happened to the input manager, the event it hands out carries the member of the union
  that its tag announces, also when the queue is empty: a reader that looks at the tag first never reads the
  wrong member.
\<close>

theorem handed_out_events_well_tagged:
  assumes "input_run drv s cs"
  shows "well_tagged (snd (maya_input_get_event s))"
proof (cases "queue_count s > 0")
  case True
  have "queue_tail s < length (event_queue s)" using input_run_inv [OF assms] by (simp add: input_inv_def)
  then show ?thesis using True input_run_tagged [OF assms] by (simp add: queue_tagged_def maya_input_get_event_def)
qed (simp add: maya_input_get_event_def zero_event_def well_tagged_def)

text \<open>
  Two left clicks on the same spot with a release between them are a double click exactly when
  less than 50 ticks passed, whatever the clock's wrap-around does.
\<close>

theorem double_click_seen:
  assumes "queue_count s \<le> 29" "maya_input_get_mouse_pos s = (x, y)" "mouse_buttons s = 0"
  shows "is_double_click (maya_input_add_mouse_event t3 x y 1 (maya_input_add_mouse_event t2 x y 0
      (maya_input_add_mouse_event t1 x y 1 s))) = (if t3 - t1 < 50 then 1 else 0)"
  using assms
  by (simp add: maya_input_add_mouse_event_def Let_def note_click_def push_event_def INPUT_QUEUE_SIZE_def
      maya_input_get_mouse_pos_def MAYA_MOUSE_LEFT_def)

text \<open>A press reported together with a movement is queued as a movement only: the next report, with
  the same position and buttons, queues nothing, so no click event ever appears for it.\<close>

lemma press_while_moving_lost:
  assumes "input_inv s" "queue_count s < 31" "(x, y) \<noteq> maya_input_get_mouse_pos s"
  shows "input_contents (maya_input_add_mouse_event t2 x y 1 (maya_input_add_mouse_event t1 x y 1 s))
    = input_contents s @ [\<lparr>ev_type = INPUT_MOUSE_MOVE, ev_data = Mouse_data x y 1, ev_timestamp = t1\<rparr>]"
proof -
  let ?s = "maya_input_add_mouse_event t1 x y 1 s"
  have "queue_count s < INPUT_QUEUE_SIZE" using assms(2) by (simp add: INPUT_QUEUE_SIZE_def)
  note one = mouse_report_queued_inv [OF assms(1) this refl, of t1 x y 1]
  have "maya_input_add_mouse_event t2 x y 1 ?s = ?s"
    using one by (simp add: maya_input_add_mouse_event_def [of t2] maya_input_get_mouse_pos_def)
  with one assms(3) show ?thesis by auto
qed

text \<open>
  A mouse report on a queue with room records position and buttons, and queues one event exactly
  when something changed: a move if the position did, otherwise a click or a release.
\<close>

theorem mouse_report_queued:
  assumes "input_inv s" "queue_count s < INPUT_QUEUE_SIZE"
  shows "let s' = maya_input_add_mouse_event now x y buttons s in
    input_inv s' \<and> maya_input_get_mouse_pos s' = (x, y) \<and> mouse_buttons s' = buttons \<and>
    input_contents s' = input_contents s @
      (if (x, y) = maya_input_get_mouse_pos s \<and> buttons = mouse_buttons s then []
       else [\<lparr>ev_type = (if (x, y) \<noteq> maya_input_get_mouse_pos s then INPUT_MOUSE_MOVE
                       else if buttons > mouse_buttons s then INPUT_MOUSE_CLICK else INPUT_MOUSE_RELEASE),
              ev_data = Mouse_data x y buttons, ev_timestamp = now\<rparr>])"
  unfolding Let_def by (rule mouse_report_queued_inv [OF assms refl])

section \<open>Instances\<close>

definition demo_input :: input_manager where
  "demo_input = maya_input_init
     \<lparr>event_queue = [], queue_head = 9, queue_tail = 9, queue_count = 9, mouse_x = 9, mouse_y = 9, mouse_buttons = 9,
      key_modifiers = 9, tablet_mode_active = 9, is_touch_event = 9, last_click_time = 9, last_click_x = 9,
      last_click_y = 9, is_double_click = 9, key_repeat_delay = 9\<rparr>"

lemma demo_input_ok: "input_inv demo_input" "queue_count demo_input = 0" "mouse_buttons demo_input = 0"
  "maya_input_get_mouse_pos demo_input = (0, 0)" "input_run drv demo_input []"
proof -
  show "input_inv demo_input" unfolding demo_input_def by (rule init_inv)
  show "input_run drv demo_input []" unfolding demo_input_def by (rule input_run.Init)
qed (simp_all add: demo_input_def maya_input_init_def maya_input_get_mouse_pos_def)

theorem input_queue_fifo_witness:
  "let (s, acc, tak) = run_fifo input_put input_get demo_input [Put zero_event, Get, Get]
   in input_contents demo_input @ acc = tak @ input_contents s"
proof -
  obtain s acc tak where r: "run_fifo input_put input_get demo_input [Put zero_event, Get, Get] = (s, acc, tak)"
    by (metis prod_cases3)
  then show ?thesis using input_queue_fifo [OF demo_input_ok(1) r] by simp
qed

theorem handed_out_events_well_tagged_witness:
  "well_tagged (snd (maya_input_get_event (maya_input_add_mouse_event_callback 7 3 4 1 demo_input)))"
  by (rule handed_out_events_well_tagged [OF input_run.Mouse [OF demo_input_ok(5)]])

theorem mouse_report_queued_witness:
  "mouse_buttons (maya_input_add_mouse_event 5 10 20 1 demo_input) = 1"
  using mouse_report_queued [OF demo_input_ok(1), of 5 10 20 1] demo_input_ok(2)
  by (simp add: INPUT_QUEUE_SIZE_def Let_def)

theorem input_runs_safe_witness:
  "let (s, sh) = maya_input_add_key_event_callback 1 0x63 demo_input in key_modifiers s = 0 \<and> sh = None"
proof -
  obtain s sh where k: "maya_input_add_key_event_callback 1 0x63 demo_input = (s, sh)" by force
  from input_runs_safe [OF input_run.Key [OF demo_input_ok(5) k, where drv = True]] k
  show ?thesis by (auto split: option.splits)
qed

theorem double_click_seen_witness:
  "is_double_click (maya_input_add_mouse_event 5 0 0 1 (maya_input_add_mouse_event 0 0 0 0
      (maya_input_add_mouse_event 0xFFFFFFF0 0 0 1 demo_input))) = 1"
  using double_click_seen [of demo_input 0 0 5 0 "0xFFFFFFF0"] demo_input_ok by simp

end
