(* ===== verification/Window_Manager.thy ===== *)
theory Window_Manager
  imports Graphics
begin

unbundle bit_operations_syntax

text \<open>
  The window manager (\<^verbatim>\<open>gui/window.c\<close>): windows live in a store from addresses to window structures,
  so that a released window is a dangling pointer; the manager keeps them in a list from bottom to top
  with the focused one. Results of \<open>kmalloc\<close> are arguments of the operations that call it: the address
  of a new window (or none), and whether a buffer was found; \<open>left\<close> is the button mask the code calls
  \<open>MOUSE_LEFT_BUTTON\<close>, which no file defines. Shown here: on every run the list, the
  window ids, the focus and the title bar buttons stay consistent and no released window is touched,
  the focused window is always on top, and what a mouse event does.
\<close>

section \<open>State\<close>

datatype window_state_t = WINDOW_STATE_NORMAL | WINDOW_STATE_MINIMIZED | WINDOW_STATE_MAXIMIZED
  | WINDOW_STATE_DRAGGING | WINDOW_STATE_RESIZING

record window =
  w_x :: int
  w_y :: int
  w_width :: int
  w_height :: int
  w_title :: string
  w_buffer :: "u32 list option"
  w_visible :: bool
  w_dragging :: bool
  w_resizing :: bool
  w_state :: window_state_t
  w_id :: nat
  w_widgets :: "nat option"
  close_x :: int
  close_y :: int
  close_w :: int
  close_h :: int
  min_x :: int
  min_y :: int
  min_w :: int
  min_h :: int
  max_x :: int
  max_y :: int
  max_w :: int
  max_h :: int

text \<open>The count of the code is the length of the list; slots beyond it are never read.\<close>

record window_manager =
  wm_store :: "nat \<Rightarrow> window option"
  wm_windows :: "nat list"
  wm_focused :: "nat option"
  wm_initialized :: bool
  drag_start_x :: int
  drag_start_y :: int

definition WINDOW_TITLE_MAX :: nat where "WINDOW_TITLE_MAX = 64"
definition MAX_WINDOWS :: nat where "MAX_WINDOWS = 32"
definition WINDOW_TITLE_HEIGHT :: int where "WINDOW_TITLE_HEIGHT = 20"
definition WINDOW_BORDER_WIDTH :: int where "WINDOW_BORDER_WIDTH = 2"
definition MIN_WINDOW_WIDTH :: int where "MIN_WINDOW_WIDTH = 100"
definition MIN_WINDOW_HEIGHT :: int where "MIN_WINDOW_HEIGHT = 50"
definition TITLE_BUTTON_SIZE :: int where "TITLE_BUTTON_SIZE = 14"
definition TITLE_BUTTON_MARGIN :: int where "TITLE_BUTTON_MARGIN = 3"

lemmas window_consts = WINDOW_TITLE_HEIGHT_def MIN_WINDOW_WIDTH_def MIN_WINDOW_HEIGHT_def
  TITLE_BUTTON_SIZE_def TITLE_BUTTON_MARGIN_def

text \<open>Pixels in a buffer of \<open>width * height * 4\<close> bytes, a 32-bit product that wraps.\<close>

definition buffer_words :: "int \<Rightarrow> int \<Rightarrow> nat" where
  "buffer_words width height = nat (width * height * 4 mod 2 ^ 32) div 4"

section \<open>Operations\<close>

definition window_manager_init :: "window_manager \<Rightarrow> window_manager \<times> bool" where
  "window_manager_init s =
     (if wm_initialized s then (s, True)
      else (s\<lparr>wm_windows := [], wm_focused := None, wm_initialized := True\<rparr>, True))"

definition on_window :: "nat \<Rightarrow> (window \<Rightarrow> window) \<Rightarrow> window_manager \<Rightarrow> fault + window_manager" where
  "on_window w f s = (case wm_store s w of None \<Rightarrow> Inl Dangling_pointer
     | Some win \<Rightarrow> Inr (s\<lparr>wm_store := (wm_store s)(w \<mapsto> f win)\<rparr>))"

text \<open>The loops that close a gap store the new position of every window moved in its id.\<close>

fun renumber :: "nat \<Rightarrow> nat list \<Rightarrow> (nat \<Rightarrow> window option) \<Rightarrow> fault + (nat \<Rightarrow> window option)" where
  "renumber j [] st = Inr st"
| "renumber j (w # ws) st = (case st w of None \<Rightarrow> Inl Dangling_pointer
     | Some win \<Rightarrow> renumber (Suc j) ws (st(w \<mapsto> win\<lparr>w_id := j\<rparr>)))"

definition close_gap :: "nat \<Rightarrow> window_manager \<Rightarrow> fault + window_manager" where
  "close_gap i s = fault_bind (renumber i (drop (Suc i) (wm_windows s)) (wm_store s))
     (\<lambda>st. Inr (s\<lparr>wm_store := st, wm_windows := take i (wm_windows s) @ drop (Suc i) (wm_windows s)\<rparr>))"

definition window_focus :: "nat \<Rightarrow> window_manager \<Rightarrow> fault + window_manager" where
  "window_focus w s =
     (if \<not> wm_initialized s then Inr s
      else if wm_focused s = Some w then Inr s
      else fault_bind
        (case first_index (\<lambda>v. v = w) (wm_windows s) of
           None \<Rightarrow> Inr s
         | Some i \<Rightarrow> fault_bind (close_gap i s) (\<lambda>s1.
             on_window w (\<lambda>win. win\<lparr>w_id := length (wm_windows s1)\<rparr>) (s1\<lparr>wm_windows := wm_windows s1 @ [w]\<rparr>)))
        (\<lambda>s2. Inr (s2\<lparr>wm_focused := Some w\<rparr>)))"

text \<open>The three buttons follow the width of the window.\<close>

definition place_buttons :: "window \<Rightarrow> window" where
  "place_buttons win =
     (let c = w_width win - TITLE_BUTTON_SIZE - TITLE_BUTTON_MARGIN;
          m = c - TITLE_BUTTON_SIZE - TITLE_BUTTON_MARGIN
      in win\<lparr>close_x := c, max_x := m, min_x := m - TITLE_BUTTON_SIZE - TITLE_BUTTON_MARGIN\<rparr>)"

text \<open>\<open>fresh\<close> is what the memory of the new structure held before; its widget list is not set.\<close>

definition new_window :: "window \<Rightarrow> string \<Rightarrow> int \<Rightarrow> int \<Rightarrow> int \<Rightarrow> int \<Rightarrow> nat \<Rightarrow> window" where
  "new_window fresh title x y width height wid = place_buttons
     (fresh\<lparr>w_title := take (WINDOW_TITLE_MAX - 1) title, w_x := x, w_y := y, w_width := width, w_height := height,
        w_visible := True, w_dragging := False, w_resizing := False, w_state := WINDOW_STATE_NORMAL, w_id := wid,
        close_w := TITLE_BUTTON_SIZE, close_h := TITLE_BUTTON_SIZE, close_y := TITLE_BUTTON_MARGIN,
        max_w := TITLE_BUTTON_SIZE, max_h := TITLE_BUTTON_SIZE, max_y := TITLE_BUTTON_MARGIN,
        min_w := TITLE_BUTTON_SIZE, min_h := TITLE_BUTTON_SIZE, min_y := TITLE_BUTTON_MARGIN,
        w_buffer := Some (replicate (buffer_words width height) 0)\<rparr>)"

definition window_create :: "nat option \<Rightarrow> bool \<Rightarrow> window \<Rightarrow> string option \<Rightarrow> int \<Rightarrow> int \<Rightarrow> int \<Rightarrow> int
    \<Rightarrow> window_manager \<Rightarrow> fault + window_manager \<times> nat option" where
  "window_create alloc buf fresh title x y width height s =
     (if \<not> wm_initialized s \<or> title = None \<or> width < MIN_WINDOW_WIDTH \<or> height < MIN_WINDOW_HEIGHT then Inr (s, None)
      else if length (wm_windows s) \<ge> MAX_WINDOWS then Inr (s, None)
      else case alloc of None \<Rightarrow> Inr (s, None)
      | Some p \<Rightarrow>
          if \<not> buf then Inr (s, None)
          else let s1 = s\<lparr>wm_store := (wm_store s)(p \<mapsto> new_window fresh (the title) x y width height (length (wm_windows s))),
                          wm_windows := wm_windows s @ [p]\<rparr>
            in fault_bind (window_focus p s1) (\<lambda>s2. Inr (s2, Some p)))"

definition window_destroy :: "nat \<Rightarrow> window_manager \<Rightarrow> fault + window_manager" where
  "window_destroy w s =
     (if \<not> wm_initialized s then Inr s
      else fault_bind (case first_index (\<lambda>v. v = w) (wm_windows s) of None \<Rightarrow> Inr s | Some i \<Rightarrow> close_gap i s) (\<lambda>s1.
        let s2 = (if wm_focused s1 = Some w
                  then s1\<lparr>wm_focused := (if wm_windows s1 \<noteq> [] then Some (last (wm_windows s1)) else None)\<rparr> else s1)
        in if wm_store s2 w = None then Inl Dangling_pointer else Inr (s2\<lparr>wm_store := (wm_store s2)(w := None)\<rparr>)))"

definition window_show :: "nat \<Rightarrow> window_manager \<Rightarrow> fault + window_manager" where
  "window_show w s = on_window w (\<lambda>win. win\<lparr>w_visible := True\<rparr>) s"

definition window_hide :: "nat \<Rightarrow> window_manager \<Rightarrow> fault + window_manager" where
  "window_hide w s = on_window w (\<lambda>win. win\<lparr>w_visible := False\<rparr>) s"

definition window_move :: "nat \<Rightarrow> int \<Rightarrow> int \<Rightarrow> window_manager \<Rightarrow> fault + window_manager" where
  "window_move w x y s = on_window w (\<lambda>win. win\<lparr>w_x := x, w_y := y\<rparr>) s"

definition window_resize :: "bool \<Rightarrow> nat \<Rightarrow> int \<Rightarrow> int \<Rightarrow> window_manager \<Rightarrow> fault + window_manager" where
  "window_resize buf w width height s =
     (if width < MIN_WINDOW_WIDTH \<or> height < MIN_WINDOW_HEIGHT then Inr s
      else if \<not> buf then Inr s
      else on_window w (\<lambda>win. place_buttons
        (win\<lparr>w_buffer := Some (replicate (buffer_words width height) 0), w_width := width, w_height := height\<rparr>)) s)"

definition window_set_title :: "nat \<Rightarrow> string \<Rightarrow> window_manager \<Rightarrow> fault + window_manager" where
  "window_set_title w title s = on_window w (\<lambda>win. win\<lparr>w_title := take (WINDOW_TITLE_MAX - 1) title\<rparr>) s"

definition window_is_initialized :: "window_manager \<Rightarrow> bool" where "window_is_initialized s = wm_initialized s"
definition window_get_focused :: "window_manager \<Rightarrow> nat option" where "window_get_focused s = wm_focused s"
definition window_get_count :: "window_manager \<Rightarrow> nat" where
  "window_get_count s = (if wm_initialized s then length (wm_windows s) else 0)"
definition window_get_by_index :: "int \<Rightarrow> window_manager \<Rightarrow> nat option" where
  "window_get_by_index i s =
     (if \<not> wm_initialized s \<or> i < 0 \<or> i \<ge> int (length (wm_windows s)) then None else Some (wm_windows s ! nat i))"

section \<open>The mouse\<close>

definition in_window :: "window \<Rightarrow> int \<Rightarrow> int \<Rightarrow> bool" where
  "in_window win x y \<longleftrightarrow> w_x win \<le> x \<and> x < w_x win + w_width win \<and> w_y win \<le> y \<and> y < w_y win + w_height win"

text \<open>The first visible window under the pointer, from the top.\<close>

fun window_at :: "(nat \<Rightarrow> window option) \<Rightarrow> nat list \<Rightarrow> int \<Rightarrow> int \<Rightarrow> fault + nat option" where
  "window_at st [] x y = Inr None"
| "window_at st (w # ws) x y = (case st w of None \<Rightarrow> Inl Dangling_pointer
     | Some win \<Rightarrow> if w_visible win \<and> in_window win x y then Inr (Some w) else window_at st ws x y)"

definition in_close :: "window \<Rightarrow> int \<Rightarrow> int \<Rightarrow> bool" where
  "in_close win rx ry \<longleftrightarrow> rx \<ge> close_x win \<and> rx < close_x win + close_w win \<and> ry \<ge> close_y win \<and> ry < close_y win + close_h win"

definition in_max :: "window \<Rightarrow> int \<Rightarrow> int \<Rightarrow> bool" where
  "in_max win rx ry \<longleftrightarrow> rx \<ge> max_x win \<and> rx < max_x win + max_w win \<and> ry \<ge> max_y win \<and> ry < max_y win + max_h win"

definition toggle_maximize :: "bool \<Rightarrow> nat \<Rightarrow> window \<Rightarrow> window_manager \<Rightarrow> fault + window_manager" where
  "toggle_maximize buf w win s =
     (if w_state win = WINDOW_STATE_MAXIMIZED
      then fault_bind (on_window w (\<lambda>v. v\<lparr>w_state := WINDOW_STATE_NORMAL, w_x := 50, w_y := 50\<rparr>) s) (window_resize buf w 640 480)
      else fault_bind (on_window w (\<lambda>v. v\<lparr>w_state := WINDOW_STATE_MAXIMIZED, w_x := 0, w_y := 0\<rparr>) s)
             (window_resize buf w SCREEN_WIDTH SCREEN_HEIGHT))"

text \<open>A press of the left button on the title bar of the window found.\<close>

definition title_press :: "bool \<Rightarrow> nat \<Rightarrow> window \<Rightarrow> int \<Rightarrow> int \<Rightarrow> window_manager \<Rightarrow> fault + window_manager" where
  "title_press buf w win rx ry s =
     (if in_close win rx ry then window_destroy w s
      else if in_max win rx ry then toggle_maximize buf w win s
      else if w_dragging win then Inr s
      else fault_bind (window_focus w s) (\<lambda>s1.
        if rx > w_width win - 15 \<and> ry > w_height win - 15 then on_window w (\<lambda>v. v\<lparr>w_resizing := True\<rparr>) s1
        else on_window w (\<lambda>v. v\<lparr>w_dragging := True\<rparr>) (s1\<lparr>drag_start_x := rx, drag_start_y := ry\<rparr>)))"

definition drag_focused :: "u8 \<Rightarrow> int \<Rightarrow> int \<Rightarrow> u8 \<Rightarrow> window_manager \<Rightarrow> fault + window_manager \<times> bool" where
  "drag_focused left x y buttons s =
     (case wm_focused s of None \<Rightarrow> Inr (s, False)
      | Some w \<Rightarrow> (case wm_store s w of None \<Rightarrow> Inl Dangling_pointer
        | Some win \<Rightarrow>
            if \<not> w_dragging win then Inr (s, False)
            else fault_bind
              (if buttons AND left \<noteq> 0
               then on_window w (\<lambda>v. v\<lparr>w_x := x - drag_start_x s, w_y := y - drag_start_y s\<rparr>) s
               else on_window w (\<lambda>v. v\<lparr>w_dragging := False\<rparr>) s)
              (\<lambda>s1. Inr (s1, True))))"

definition window_handle_mouse :: "u8 \<Rightarrow> bool \<Rightarrow> int \<Rightarrow> int \<Rightarrow> u8 \<Rightarrow> window_manager \<Rightarrow> fault + window_manager \<times> bool" where
  "window_handle_mouse left buf x y buttons s =
     (if \<not> wm_initialized s then Inr (s, False)
      else fault_bind (window_at (wm_store s) (rev (wm_windows s)) x y) (\<lambda>hit.
        case hit of
          None \<Rightarrow> drag_focused left x y buttons s
        | Some w \<Rightarrow> (case wm_store s w of None \<Rightarrow> Inl Dangling_pointer
            | Some win \<Rightarrow>
                if y < w_y win + WINDOW_TITLE_HEIGHT \<and> buttons AND left \<noteq> 0
                then fault_bind (title_press buf w win (x - w_x win) (y - w_y win) s) (\<lambda>s1. Inr (s1, True))
                else Inr (s, True))))"

section \<open>Well-formed windows and managers\<close>

definition window_ok :: "window \<Rightarrow> bool" where
  "window_ok win \<longleftrightarrow> w_width win \<ge> MIN_WINDOW_WIDTH \<and> w_height win \<ge> MIN_WINDOW_HEIGHT \<and> \<not> w_resizing win \<and>
     close_x win = w_width win - 17 \<and> max_x win = w_width win - 34 \<and> min_x win = w_width win - 51 \<and>
     close_y win = 3 \<and> max_y win = 3 \<and> min_y win = 3 \<and> close_w win = 14 \<and> close_h win = 14 \<and>
     max_w win = 14 \<and> max_h win = 14 \<and> min_w win = 14 \<and> min_h win = 14 \<and> length (w_title win) < WINDOW_TITLE_MAX \<and>
     map_option length (w_buffer win) = Some (buffer_words (w_width win) (w_height win))"

text \<open>The live windows are those listed, each once, with its position as id; the focus is the top.\<close>

definition wm_list_ok :: "window_manager \<Rightarrow> bool" where
  "wm_list_ok s \<longleftrightarrow> wm_initialized s \<and> distinct (wm_windows s) \<and> length (wm_windows s) \<le> MAX_WINDOWS \<and>
     dom (wm_store s) = set (wm_windows s) \<and>
     (\<forall>i win. i < length (wm_windows s) \<longrightarrow> wm_store s (wm_windows s ! i) = Some win \<longrightarrow> w_id win = i \<and> window_ok win)"

definition wm_ok :: "window_manager \<Rightarrow> bool" where
  "wm_ok s \<longleftrightarrow> wm_list_ok s \<and>
     wm_focused s = (if wm_windows s = [] then None else Some (last (wm_windows s)))"

lemma new_window_ok:
  assumes "width \<ge> MIN_WINDOW_WIDTH" "height \<ge> MIN_WINDOW_HEIGHT"
  shows "window_ok (new_window fresh title x y width height i)" "w_id (new_window fresh title x y width height i) = i"
  using assms
  by (simp_all add: window_ok_def new_window_def place_buttons_def Let_def TITLE_BUTTON_SIZE_def TITLE_BUTTON_MARGIN_def
      WINDOW_TITLE_MAX_def min_def)

text \<open>Renumbering changes ids only, and succeeds when all windows are live.\<close>

lemma renumber_ids:
  assumes "distinct ws" "set ws \<subseteq> dom st"
  shows "\<exists>st'. renumber j ws st = Inr st' \<and> dom st' = dom st \<and>
    (\<forall>w. w \<notin> set ws \<longrightarrow> st' w = st w) \<and>
    (\<forall>i < length ws. st' (ws ! i) = map_option (w_id_update (\<lambda>_. j + i)) (st (ws ! i)))"
  using assms
proof (induction ws arbitrary: j st)
  case (Cons w ws)
  obtain win where win: "st w = Some win" using Cons.prems(2) by auto
  let ?st = "st(w \<mapsto> win\<lparr>w_id := j\<rparr>)"
  have d: "dom ?st = dom st" using win by auto
  have "distinct ws" "set ws \<subseteq> dom ?st" using Cons.prems d by auto
  from Cons.IH [OF this, of "Suc j"]
  obtain st' where st': "renumber (Suc j) ws ?st = Inr st'" "dom st' = dom ?st"
    "\<forall>v. v \<notin> set ws \<longrightarrow> st' v = ?st v"
    "\<forall>i < length ws. st' (ws ! i) = map_option (w_id_update (\<lambda>_. Suc j + i)) (?st (ws ! i))"
    by blast
  have "st' ((w # ws) ! i) = map_option (w_id_update (\<lambda>_. j + i)) (st ((w # ws) ! i))" if "i < length (w # ws)" for i
  proof (cases i)
    case 0
    then show ?thesis using st'(3) Cons.prems(1) win by simp
  next
    case (Suc k)
    then have "ws ! k \<noteq> w" "k < length ws" using that Cons.prems(1) nth_mem by fastforce+
    then show ?thesis using st'(4) Suc by simp
  qed
  then show ?case using st' d win by (intro exI [of _ st']) auto
qed simp

lemma window_ok_id [simp]: "window_ok (w_id_update f win) = window_ok win"
  by (simp add: window_ok_def)

text \<open>What both uses of the gap-closing loop need: window \<open>i\<close> is out of the list, the others follow in order.\<close>

lemma close_gap_ok:
  assumes "distinct (wm_windows s)" "set (wm_windows s) \<subseteq> dom (wm_store s)" "i < length (wm_windows s)"
    "\<And>k win. k < length (wm_windows s) \<Longrightarrow> wm_store s (wm_windows s ! k) = Some win \<Longrightarrow> w_id win = k \<and> window_ok win"
  shows "\<exists>st. close_gap i s = Inr (s\<lparr>wm_windows := remove1 (wm_windows s ! i) (wm_windows s), wm_store := st\<rparr>) \<and>
    dom st = dom (wm_store s) \<and> st (wm_windows s ! i) = wm_store s (wm_windows s ! i) \<and>
    (\<forall>k win. k < length (remove1 (wm_windows s ! i) (wm_windows s)) \<longrightarrow>
       st (remove1 (wm_windows s ! i) (wm_windows s) ! k) = Some win \<longrightarrow> w_id win = k \<and> window_ok win)"
proof -
  let ?ws = "wm_windows s" and ?w = "wm_windows s ! i"
  have dist: "distinct (drop (Suc i) ?ws)" "set (drop (Suc i) ?ws) \<subseteq> dom (wm_store s)"
    using assms(1,2) by (auto dest: in_set_dropD)
  obtain st' where st': "renumber i (drop (Suc i) ?ws) (wm_store s) = Inr st'" "dom st' = dom (wm_store s)"
    "\<forall>w. w \<notin> set (drop (Suc i) ?ws) \<longrightarrow> st' w = wm_store s w"
    "\<forall>k < length (drop (Suc i) ?ws). st' (drop (Suc i) ?ws ! k) = map_option (w_id_update (\<lambda>_. i + k)) (wm_store s (drop (Suc i) ?ws ! k))"
    using renumber_ids [OF dist, of i] by blast
  have out: "?ws ! k \<notin> set (drop (Suc i) ?ws)" if "k \<le> i" for k
    using assms(1,3) that by (auto simp: in_set_conv_nth nth_eq_iff_index_eq)
  have rem: "remove1 ?w ?ws = take i ?ws @ drop (Suc i) ?ws"
  proof (rule remove1_first_index)
    show "first_index (\<lambda>y. y = ?w) ?ws = Some i"
      using assms(1,3) by (intro first_index_SomeI) (auto simp: nth_eq_iff_index_eq)
  qed
  have eq: "close_gap i s = Inr (s\<lparr>wm_windows := take i ?ws @ drop (Suc i) ?ws, wm_store := st'\<rparr>)"
    using st'(1) by (simp add: close_gap_def)
  have ids: "w_id win = k \<and> window_ok win"
    if k: "k < length (take i ?ws @ drop (Suc i) ?ws)" and win: "st' ((take i ?ws @ drop (Suc i) ?ws) ! k) = Some win" for k win
  proof (cases "k < i")
    case True
    then have "st' (?ws ! k) = wm_store s (?ws ! k)" using out st'(3) by simp
    then show ?thesis using assms(3) assms(4) [of k win] win True by (simp add: nth_append)
  next
    case False
    then have pos: "(take i ?ws @ drop (Suc i) ?ws) ! k = drop (Suc i) ?ws ! (k - i)" "k - i < length (drop (Suc i) ?ws)"
      using k assms(3) by (auto simp: nth_append)
    then obtain v where v: "wm_store s (drop (Suc i) ?ws ! (k - i)) = Some v" "win = v\<lparr>w_id := k\<rparr>"
      using st'(4) [rule_format, OF pos(2)] win False unfolding pos(1) by auto
    then have "window_ok v" using assms(4) [of "Suc i + (k - i)" v] pos(2) by simp
    then show ?thesis using v(2) window_ok_id [of "\<lambda>_. k" v] by simp
  qed
  show ?thesis
    using eq st'(2) st'(3) out [OF order.refl] ids unfolding rem by (intro exI [of _ st']) blast
qed

lemma wm_okD:
  assumes "wm_list_ok s"
  shows "distinct (wm_windows s)" "set (wm_windows s) \<subseteq> dom (wm_store s)" "wm_initialized s"
    "\<And>k win. k < length (wm_windows s) \<Longrightarrow> wm_store s (wm_windows s ! k) = Some win \<Longrightarrow> w_id win = k \<and> window_ok win"
    "length (wm_windows s) \<le> MAX_WINDOWS" "dom (wm_store s) = set (wm_windows s)"
  using assms by (auto simp: wm_list_ok_def)

lemma wm_ok_list: "wm_ok s \<Longrightarrow> wm_list_ok s"
  by (simp add: wm_ok_def)

lemma wm_ok_live:
  assumes "wm_list_ok s" "w \<in> set (wm_windows s)"
  obtains i win where "i < length (wm_windows s)" "wm_windows s ! i = w" "first_index (\<lambda>v. v = w) (wm_windows s) = Some i"
    "wm_store s w = Some win" "w_id win = i" "window_ok win"
proof -
  obtain i where i: "i < length (wm_windows s)" "wm_windows s ! i = w" using assms(2) by (auto simp: in_set_conv_nth)
  have "first_index (\<lambda>v. v = w) (wm_windows s) = Some i"
    using i wm_okD(1) [OF assms(1)] by (intro first_index_SomeI) (auto simp: nth_eq_iff_index_eq)
  moreover obtain win where "wm_store s w = Some win" using wm_okD(2) [OF assms(1)] assms(2) by auto
  ultimately show ?thesis using that i wm_okD(4) [OF assms(1) i(1)] by auto
qed

text \<open>Taking a listed window out of the list.\<close>

lemma take_out:
  assumes "wm_list_ok s" "w \<in> set (wm_windows s)"
  obtains i win st ws where "first_index (\<lambda>v. v = w) (wm_windows s) = Some i" "wm_store s w = Some win" "window_ok win"
    "ws = remove1 w (wm_windows s)" "close_gap i s = Inr (s\<lparr>wm_windows := ws, wm_store := st\<rparr>)"
    "dom st = set (wm_windows s)" "st w = Some win"
    "\<And>k win. k < length ws \<Longrightarrow> st (ws ! k) = Some win \<Longrightarrow> w_id win = k \<and> window_ok win"
    "w \<notin> set ws" "set ws = set (wm_windows s) - {w}" "distinct ws" "length (wm_windows s) = Suc (length ws)"
proof -
  note ok = wm_okD [OF assms(1)]
  obtain i win where w: "i < length (wm_windows s)" "wm_windows s ! i = w" "first_index (\<lambda>v. v = w) (wm_windows s) = Some i"
    "wm_store s w = Some win" "window_ok win"
    using wm_ok_live [OF assms] by metis
  obtain st where st: "close_gap i s = Inr (s\<lparr>wm_windows := remove1 w (wm_windows s), wm_store := st\<rparr>)"
    "dom st = dom (wm_store s)" "st w = wm_store s w"
    "\<forall>k win. k < length (remove1 w (wm_windows s)) \<longrightarrow> st (remove1 w (wm_windows s) ! k) = Some win \<longrightarrow> w_id win = k \<and> window_ok win"
    using close_gap_ok [OF ok(1,2) w(1) ok(4)] unfolding w(2) by blast
  have "length (wm_windows s) = Suc (length (remove1 w (wm_windows s)))"
    using assms(2) w(1) by (simp add: length_remove1)
  then show ?thesis
    using that [OF w(3,4,5) refl st(1)] st(2-4) ok(1,6) w(4) by simp
qed

text \<open>Changing a window without touching its id keeps the manager well-formed.\<close>

lemma on_window_ok:
  assumes "wm_ok s" "w \<in> set (wm_windows s)" "\<And>win. window_ok win \<Longrightarrow> window_ok (f win) \<and> w_id (f win) = w_id win"
  shows "\<exists>s'. on_window w f s = Inr s' \<and> wm_ok s' \<and> wm_windows s' = wm_windows s \<and> wm_focused s' = wm_focused s \<and>
    wm_store s' = (wm_store s)(w := map_option f (wm_store s w))"
proof -
  note l = wm_ok_list [OF assms(1)]
  obtain i win where w: "i < length (wm_windows s)" "wm_windows s ! i = w" "wm_store s w = Some win" "w_id win = i" "window_ok win"
    using wm_ok_live [OF l assms(2)] by metis
  let ?s = "s\<lparr>wm_store := (wm_store s)(w \<mapsto> f win)\<rparr>"
  have "w_id v = k \<and> window_ok v" if "k < length (wm_windows s)" "wm_store ?s (wm_windows s ! k) = Some v" for k v
  proof (cases "k = i")
    case True
    then show ?thesis using that(2) w assms(3) by auto
  next
    case False
    then have "wm_windows s ! k \<noteq> w" using that(1) w(1,2) wm_okD(1) [OF l] by (auto simp: nth_eq_iff_index_eq)
    then show ?thesis using that wm_okD(4) [OF l that(1)] by auto
  qed
  moreover have "dom (wm_store ?s) = dom (wm_store s)" using w(3) by auto
  ultimately have "wm_ok ?s" using assms(1) unfolding wm_ok_def wm_list_ok_def by simp
  then show ?thesis using w(3) by (intro exI [of _ ?s]) (simp add: on_window_def)
qed

text \<open>Raising a window that does not have the focus needs no assumption on the focus.\<close>

lemma raise_ok:
  assumes "wm_list_ok s" "w \<in> set (wm_windows s)" "wm_focused s \<noteq> Some w"
  shows "\<exists>s' win. window_focus w s = Inr s' \<and> wm_ok s' \<and> wm_windows s' = remove1 w (wm_windows s) @ [w] \<and> wm_focused s' = Some w \<and>
    wm_store s w = Some win \<and> wm_store s' w = Some (win\<lparr>w_id := length (wm_windows s) - 1\<rparr>)"
proof -
  obtain i win st ws where t: "first_index (\<lambda>v. v = w) (wm_windows s) = Some i" "wm_store s w = Some win" "window_ok win"
    "ws = remove1 w (wm_windows s)" "close_gap i s = Inr (s\<lparr>wm_windows := ws, wm_store := st\<rparr>)"
    "dom st = set (wm_windows s)" "st w = Some win"
    "\<And>k win. k < length ws \<Longrightarrow> st (ws ! k) = Some win \<Longrightarrow> w_id win = k \<and> window_ok win"
    "w \<notin> set ws" "set ws = set (wm_windows s) - {w}" "distinct ws" "length (wm_windows s) = Suc (length ws)"
    by (rule take_out [OF assms(1,2)]) (rule that; assumption)
  let ?s = "s\<lparr>wm_windows := ws @ [w], wm_store := st(w \<mapsto> win\<lparr>w_id := length ws\<rparr>), wm_focused := Some w\<rparr>"
  have f: "window_focus w s = Inr ?s"
    using wm_okD(3) [OF assms(1)] assms(3) t(1,5,7) by (simp add: window_focus_def on_window_def)
  have "w_id v = k \<and> window_ok v" if "k < Suc (length ws)" "(st(w \<mapsto> win\<lparr>w_id := length ws\<rparr>)) ((ws @ [w]) ! k) = Some v" for k v
  proof (cases "k = length ws")
    case True
    then show ?thesis using that(2) t(3) window_ok_id [of "\<lambda>_. length ws" win] by auto
  next
    case False
    then have k: "k < length ws" using that(1) by simp
    then have "ws ! k \<noteq> w" using t(9) nth_mem by blast
    then show ?thesis using that(2) k t(8) [OF k, of v] by (simp add: nth_append)
  qed
  moreover have "dom (st(w \<mapsto> win\<lparr>w_id := length ws\<rparr>)) = set (ws @ [w])"
    using t(6,10) assms(2) by auto
  ultimately have "wm_ok ?s"
    using t(9,11,12) wm_okD(3,5) [OF assms(1)] unfolding wm_ok_def wm_list_ok_def by simp
  then show ?thesis using f t(2,4,12) by (intro exI [of _ ?s] exI [of _ win]) simp
qed

lemma focus_ok:
  assumes "wm_ok s" "w \<in> set (wm_windows s)"
  shows "\<exists>s'. window_focus w s = Inr s' \<and> wm_ok s' \<and> wm_windows s' = remove1 w (wm_windows s) @ [w] \<and> wm_focused s' = Some w \<and>
    (\<exists>win. wm_store s w = Some win \<and> wm_store s' w = Some (win\<lparr>w_id := length (wm_windows s) - 1\<rparr>))"
proof (cases "wm_focused s = Some w")
  case True
  obtain i win where w: "i < length (wm_windows s)" "wm_windows s ! i = w" "wm_store s w = Some win" "w_id win = i"
    using wm_ok_live [OF wm_ok_list [OF assms(1)] assms(2)] by metis
  have last: "last (wm_windows s) = w" "wm_windows s \<noteq> []" using True assms(1) by (auto simp: wm_ok_def split: if_splits)
  then obtain us where us: "wm_windows s = us @ [w]" by (metis append_butlast_last_id)
  then have "w \<notin> set us" "i = length us" using wm_okD(1) [OF wm_ok_list [OF assms(1)]] w(1,2) by (auto simp: nth_append split: if_splits)
  then show ?thesis using True assms(1) us w by (auto simp: window_focus_def remove1_append)
next
  case False
  with raise_ok [OF wm_ok_list [OF assms(1)] assms(2)] show ?thesis by blast
qed

lemma destroy_ok:
  assumes "wm_ok s" "w \<in> set (wm_windows s)"
  shows "\<exists>s'. window_destroy w s = Inr s' \<and> wm_ok s' \<and> wm_windows s' = remove1 w (wm_windows s) \<and>
    wm_store s' w = None"
proof -
  note l = wm_ok_list [OF assms(1)]
  obtain i win st ws where t: "first_index (\<lambda>v. v = w) (wm_windows s) = Some i" "wm_store s w = Some win" "window_ok win"
    "ws = remove1 w (wm_windows s)" "close_gap i s = Inr (s\<lparr>wm_windows := ws, wm_store := st\<rparr>)"
    "dom st = set (wm_windows s)" "st w = Some win"
    "\<And>k win. k < length ws \<Longrightarrow> st (ws ! k) = Some win \<Longrightarrow> w_id win = k \<and> window_ok win"
    "w \<notin> set ws" "set ws = set (wm_windows s) - {w}" "distinct ws" "length (wm_windows s) = Suc (length ws)"
    by (rule take_out [OF l assms(2)]) (rule that; assumption)
  define f where "f = (if ws = [] then None else Some (last ws))"
  let ?s = "s\<lparr>wm_windows := ws, wm_store := st(w := None), wm_focused := f\<rparr>"
  have foc: "wm_focused s = f" if "wm_focused s \<noteq> Some w"
  proof -
    have ne: "wm_windows s \<noteq> []" using assms(2) by auto
    then have "last (wm_windows s) \<noteq> w" using that assms(1) by (auto simp: wm_ok_def)
    moreover obtain us v where us: "wm_windows s = us @ [v]" using ne by (metis append_butlast_last_id)
    ultimately have "w \<in> set us" "w \<noteq> v" using assms(2) by auto
    then have "ws = remove1 w us @ [v]" by (simp add: t(4) us remove1_append)
    then show ?thesis using assms(1) us by (simp add: wm_ok_def f_def)
  qed
  have d: "window_destroy w s = Inr ?s"
  proof (cases "wm_focused s = Some w")
    case True
    then show ?thesis using wm_okD(3) [OF l] t(1,5,7) by (simp add: window_destroy_def Let_def f_def)
  next
    case False
    then have "?s = s\<lparr>wm_windows := ws, wm_store := st(w := None)\<rparr>" using foc by simp
    with False show ?thesis using wm_okD(3) [OF l] t(1,5,7) by (simp add: window_destroy_def Let_def)
  qed
  have "w_id v = k \<and> window_ok v" if "k < length ws" "(st(w := None)) (ws ! k) = Some v" for k v
    using that t(8) [of k v] t(9) by (auto split: if_splits)
  moreover have "dom (st(w := None)) = set ws" using t(6,10) by auto
  ultimately have "wm_ok ?s"
    using t(9,11,12) wm_okD(3,5) [OF l] unfolding wm_ok_def wm_list_ok_def f_def by simp
  then show ?thesis using d by (intro exI [of _ ?s]) (simp add: t(4))
qed

lemma create_ok:
  assumes "wm_ok s" "\<And>p. alloc = Some p \<Longrightarrow> wm_store s p = None"
  shows "\<exists>s' r. window_create alloc buf fresh title x y width height s = Inr (s', r) \<and> wm_ok s' \<and>
    (case r of None \<Rightarrow> s' = s | Some p \<Rightarrow> alloc = Some p \<and> wm_windows s' = wm_windows s @ [p] \<and> wm_focused s' = Some p \<and>
       (\<exists>t. title = Some t \<and> wm_store s' p = Some (new_window fresh t x y width height (length (wm_windows s)))))"
proof (cases "title = None \<or> width < MIN_WINDOW_WIDTH \<or> height < MIN_WINDOW_HEIGHT \<or>
    length (wm_windows s) \<ge> MAX_WINDOWS \<or> alloc = None \<or> \<not> buf")
  case True
  then have "window_create alloc buf fresh title x y width height s = Inr (s, None)"
    unfolding window_create_def by (auto split: option.splits)
  then show ?thesis using assms(1) by auto
next
  case False
  then obtain t p where tp: "title = Some t" "alloc = Some p" by auto
  let ?n = "length (wm_windows s)"
  let ?win = "new_window fresh t x y width height ?n"
  let ?s = "s\<lparr>wm_store := (wm_store s)(p \<mapsto> ?win), wm_windows := wm_windows s @ [p]\<rparr>"
  note l = wm_ok_list [OF assms(1)]
  have p: "p \<notin> set (wm_windows s)" using assms(2) [OF tp(2)] wm_okD(2) [OF l] by auto
  have win: "window_ok ?win" "w_id ?win = ?n" using False by (auto intro: new_window_ok)
  have "w_id v = k \<and> window_ok v" if "k < Suc ?n" "((wm_store s)(p \<mapsto> ?win)) ((wm_windows s @ [p]) ! k) = Some v" for k v
  proof (cases "k = ?n")
    case True
    then show ?thesis using that(2) win by auto
  next
    case False
    then have "wm_windows s ! k \<noteq> p" "k < ?n" using that(1) p nth_mem by fastforce+
    then show ?thesis using that(2) wm_okD(4) [OF l, of k v] by (simp add: nth_append)
  qed
  then have l': "wm_list_ok ?s"
    using wm_okD(1,3,6) [OF l] p False unfolding wm_list_ok_def by simp
  have "wm_focused ?s \<noteq> Some p" using assms(1) p by (auto simp: wm_ok_def split: if_splits)
  then obtain s2 v where s2: "window_focus p ?s = Inr s2" "wm_ok s2" "wm_windows s2 = remove1 p (wm_windows ?s) @ [p]"
    "wm_focused s2 = Some p" "wm_store ?s p = Some v" "wm_store s2 p = Some (v\<lparr>w_id := length (wm_windows ?s) - 1\<rparr>)"
    using raise_ok [OF l'] by fastforce
  have "v\<lparr>w_id := length (wm_windows ?s) - 1\<rparr> = ?win" using s2(5) win(2) by auto
  then show ?thesis using False tp wm_okD(3) [OF l] s2 p
    by (intro exI [of _ s2] exI [of _ "Some p"]) (simp add: window_create_def not_less remove1_append)
qed

section \<open>Mouse events\<close>

definition under_pointer :: "window_manager \<Rightarrow> int \<Rightarrow> int \<Rightarrow> nat \<Rightarrow> bool" where
  "under_pointer s x y w = (case wm_store s w of None \<Rightarrow> False | Some win \<Rightarrow> w_visible win \<and> in_window win x y)"

lemma window_at_find:
  "set ws \<subseteq> dom (wm_store s) \<Longrightarrow> window_at (wm_store s) ws x y = Inr (List.find (under_pointer s x y) ws)"
  by (induction ws) (auto simp: under_pointer_def)

lemma hit_window:
  assumes "wm_ok s"
  shows "window_at (wm_store s) (rev (wm_windows s)) x y = Inr (List.find (under_pointer s x y) (rev (wm_windows s)))"
  using wm_okD(2) [OF wm_ok_list [OF assms]] by (simp add: window_at_find)

lemma find_in_set: "List.find P xs = Some w \<Longrightarrow> w \<in> set xs \<and> P w"
  by (auto simp: find_Some_iff)

lemma resize_window_ok:
  assumes "wm_ok s" "w \<in> set (wm_windows s)"
  shows "\<exists>s'. window_resize buf w width height s = Inr s' \<and> wm_ok s' \<and> wm_windows s' = wm_windows s \<and> wm_focused s' = wm_focused s \<and>
    (\<forall>v. v \<noteq> w \<longrightarrow> wm_store s' v = wm_store s v)"
proof (cases "width < MIN_WINDOW_WIDTH \<or> height < MIN_WINDOW_HEIGHT \<or> \<not> buf")
  case True
  then have "window_resize buf w width height s = Inr s" by (auto simp: window_resize_def)
  then show ?thesis using assms(1) by blast
next
  case False
  let ?f = "\<lambda>win. place_buttons (win\<lparr>w_buffer := Some (replicate (buffer_words width height) 0), w_width := width, w_height := height\<rparr>)"
  have "window_ok (?f win) \<and> w_id (?f win) = w_id win" if "window_ok win" for win
    using that False by (simp add: window_ok_def place_buttons_def Let_def TITLE_BUTTON_SIZE_def TITLE_BUTTON_MARGIN_def)
  from on_window_ok [OF assms this] obtain s' where "on_window w ?f s = Inr s'" "wm_ok s'" "wm_windows s' = wm_windows s"
    "wm_focused s' = wm_focused s" "wm_store s' = (wm_store s)(w := map_option ?f (wm_store s w))" by blast
  then show ?thesis using False by (auto simp: window_resize_def)
qed

lemma on_window_simple:
  assumes "wm_ok s" "w \<in> set (wm_windows s)" "\<And>win. window_ok win \<Longrightarrow> window_ok (f win) \<and> w_id (f win) = w_id win"
  shows "\<exists>s'. on_window w f s = Inr s' \<and> wm_ok s' \<and> wm_windows s' = wm_windows s"
  using on_window_ok [OF assms] by blast

lemma window_ok_fields [simp]:
  "window_ok (win\<lparr>w_x := x\<rparr>) = window_ok win" "window_ok (win\<lparr>w_y := y\<rparr>) = window_ok win"
  "window_ok (win\<lparr>w_visible := b\<rparr>) = window_ok win" "window_ok (win\<lparr>w_dragging := b\<rparr>) = window_ok win"
  "window_ok (win\<lparr>w_state := st\<rparr>) = window_ok win"
  by (simp_all add: window_ok_def)

lemma toggle_ok:
  assumes "wm_ok s" "w \<in> set (wm_windows s)"
  shows "\<exists>s'. toggle_maximize buf w win s = Inr s' \<and> wm_ok s' \<and> wm_windows s' = wm_windows s"
proof -
  let ?st = "if w_state win = WINDOW_STATE_MAXIMIZED then WINDOW_STATE_NORMAL else WINDOW_STATE_MAXIMIZED"
  let ?p = "if w_state win = WINDOW_STATE_MAXIMIZED then 50 else 0"
  obtain s1 where s1: "on_window w (\<lambda>v. v\<lparr>w_state := ?st, w_x := ?p, w_y := ?p\<rparr>) s = Inr s1" "wm_ok s1" "wm_windows s1 = wm_windows s"
    using on_window_simple [OF assms, of "\<lambda>v. v\<lparr>w_state := ?st, w_x := ?p, w_y := ?p\<rparr>"] by auto
  have in1: "w \<in> set (wm_windows s1)" using assms(2) s1(3) by simp
  show ?thesis
    using s1 resize_window_ok [OF s1(2) in1, of buf 640 480] resize_window_ok [OF s1(2) in1, of buf SCREEN_WIDTH SCREEN_HEIGHT]
    by (cases "w_state win = WINDOW_STATE_MAXIMIZED") (auto simp: toggle_maximize_def)
qed

text \<open>The resize corner lies below the title bar, so a press never starts a resize.\<close>

lemma title_press_ok:
  assumes "wm_ok s" "wm_store s w = Some win" "ry < WINDOW_TITLE_HEIGHT"
  shows "\<exists>s'. title_press buf w win rx ry s = Inr s' \<and> wm_ok s' \<and> set (wm_windows s') \<subseteq> set (wm_windows s)"
proof -
  have w: "w \<in> set (wm_windows s)" using assms(2) wm_okD(6) [OF wm_ok_list [OF assms(1)]] by auto
  then obtain i where "i < length (wm_windows s)" "wm_windows s ! i = w" by (auto simp: in_set_conv_nth)
  then have "window_ok win" using wm_okD(4) [OF wm_ok_list [OF assms(1)]] assms(2) by blast
  then have corner: "\<not> (rx > w_width win - 15 \<and> ry > w_height win - 15)"
    using assms(3) by (simp add: window_ok_def window_consts)
  obtain s1 where s1: "window_focus w s = Inr s1" "wm_ok s1" "wm_windows s1 = remove1 w (wm_windows s) @ [w]"
    using focus_ok [OF assms(1) w] by blast
  let ?s = "s1\<lparr>drag_start_x := rx, drag_start_y := ry\<rparr>"
  have ok: "wm_ok ?s" using s1(2) by (simp add: wm_ok_def wm_list_ok_def)
  have "w \<in> set (wm_windows ?s)" using s1(3) by simp
  then obtain s2 where s2: "on_window w (\<lambda>v. v\<lparr>w_dragging := True\<rparr>) ?s = Inr s2" "wm_ok s2" "wm_windows s2 = wm_windows ?s"
    using on_window_simple [OF ok, of w "\<lambda>v. v\<lparr>w_dragging := True\<rparr>"] by auto
  have sub: "set (wm_windows s2) \<subseteq> set (wm_windows s)"
    using s2(3) s1(3) w set_remove1_subset [of w "wm_windows s"] by auto
  consider "in_close win rx ry" | "\<not> in_close win rx ry" "in_max win rx ry"
    | "\<not> in_close win rx ry" "\<not> in_max win rx ry" "w_dragging win" | "\<not> in_close win rx ry" "\<not> in_max win rx ry" "\<not> w_dragging win" by blast
  then show ?thesis
  proof cases
    case 1
    then show ?thesis using destroy_ok [OF assms(1) w] set_remove1_subset by (fastforce simp: title_press_def)
  next
    case 2
    then show ?thesis using toggle_ok [OF assms(1) w, of buf win] by (auto simp: title_press_def)
  next
    case 3
    then show ?thesis using assms(1) by (simp add: title_press_def)
  next
    case 4
    then have "title_press buf w win rx ry s = Inr s2"
      unfolding title_press_def s1(1) fault_bind_simps if_not_P [OF corner] s2(1) by simp
    then show ?thesis using s2(2) sub by blast
  qed
qed

lemma drag_ok:
  assumes "wm_ok s"
  shows "\<exists>s' b. drag_focused left x y buttons s = Inr (s', b) \<and> wm_ok s' \<and> wm_windows s' = wm_windows s"
proof (cases "wm_focused s")
  case (Some w)
  then have w: "w \<in> set (wm_windows s)" using assms by (auto simp: wm_ok_def split: if_splits)
  then obtain win where win: "wm_store s w = Some win" using wm_okD(2) [OF wm_ok_list [OF assms]] by auto
  let ?f = "if buttons AND left \<noteq> 0 then (\<lambda>v. v\<lparr>w_x := x - drag_start_x s, w_y := y - drag_start_y s\<rparr>) else (\<lambda>v. v\<lparr>w_dragging := False\<rparr>)"
  have "window_ok (?f v) \<and> w_id (?f v) = w_id v" if "window_ok v" for v using that by simp
  from on_window_simple [OF assms w this]
  obtain s' where "on_window w ?f s = Inr s'" "wm_ok s'" "wm_windows s' = wm_windows s" by blast
  then show ?thesis using Some win assms by (auto simp: drag_focused_def split: if_splits)
next
  case None
  then have "drag_focused left x y buttons s = Inr (s, False)" by (simp add: drag_focused_def)
  with assms show ?thesis by blast
qed

lemma mouse_event_ok:
  assumes "wm_ok s"
  shows "\<exists>s' b. window_handle_mouse left buf x y buttons s = Inr (s', b) \<and> wm_ok s' \<and> set (wm_windows s') \<subseteq> set (wm_windows s)"
proof (cases "List.find (under_pointer s x y) (rev (wm_windows s))")
  case None
  then show ?thesis using drag_ok [OF assms, of left x y buttons] hit_window [OF assms, of x y] assms
    by (auto simp: window_handle_mouse_def wm_okD(3) [OF wm_ok_list])
next
  case (Some w)
  then obtain win where win: "wm_store s w = Some win"
    using find_in_set by (fastforce simp: under_pointer_def split: option.splits)
  show ?thesis
  proof (cases "y < w_y win + WINDOW_TITLE_HEIGHT \<and> buttons AND left \<noteq> 0")
    case True
    then have "y - w_y win < WINDOW_TITLE_HEIGHT" by simp
    from title_press_ok [OF assms win this, of buf "x - w_x win"] True Some win show ?thesis
      by (auto simp: window_handle_mouse_def wm_okD(3) [OF wm_ok_list [OF assms]] hit_window [OF assms])
  next
    case False
    then show ?thesis using Some win assms
      by (auto simp: window_handle_mouse_def wm_okD(3) [OF wm_ok_list [OF assms]] hit_window [OF assms])
  qed
qed

section \<open>Runs\<close>

inductive wm_run :: "window_manager \<Rightarrow> bool" where
  Boot: "wm_store s = (\<lambda>_. None) \<Longrightarrow> \<not> wm_initialized s \<Longrightarrow> wm_run (fst (window_manager_init s))"
| Create: "wm_run s \<Longrightarrow> (\<And>p. alloc = Some p \<Longrightarrow> wm_store s p = None) \<Longrightarrow>
     window_create alloc buf fresh title x y width height s = Inr (s', r) \<Longrightarrow> wm_run s'"
| Destroy: "wm_run s \<Longrightarrow> w \<in> set (wm_windows s) \<Longrightarrow> window_destroy w s = Inr s' \<Longrightarrow> wm_run s'"
| Focus: "wm_run s \<Longrightarrow> w \<in> set (wm_windows s) \<Longrightarrow> window_focus w s = Inr s' \<Longrightarrow> wm_run s'"
| Show: "wm_run s \<Longrightarrow> w \<in> set (wm_windows s) \<Longrightarrow> window_show w s = Inr s' \<Longrightarrow> wm_run s'"
| Hide: "wm_run s \<Longrightarrow> w \<in> set (wm_windows s) \<Longrightarrow> window_hide w s = Inr s' \<Longrightarrow> wm_run s'"
| Move: "wm_run s \<Longrightarrow> w \<in> set (wm_windows s) \<Longrightarrow> window_move w x y s = Inr s' \<Longrightarrow> wm_run s'"
| Resize: "wm_run s \<Longrightarrow> w \<in> set (wm_windows s) \<Longrightarrow> window_resize buf w width height s = Inr s' \<Longrightarrow> wm_run s'"
| Title: "wm_run s \<Longrightarrow> w \<in> set (wm_windows s) \<Longrightarrow> window_set_title w title s = Inr s' \<Longrightarrow> wm_run s'"
| Mouse: "wm_run s \<Longrightarrow> window_handle_mouse left buf x y buttons s = Inr (s', b) \<Longrightarrow> wm_run s'"

lemma window_ok_title: "window_ok win \<Longrightarrow> window_ok (win\<lparr>w_title := take (WINDOW_TITLE_MAX - 1) title\<rparr>)"
  by (auto simp: window_ok_def WINDOW_TITLE_MAX_def)

lemma on_window_keeps:
  assumes "wm_ok s" "w \<in> set (wm_windows s)" "on_window w f s = Inr s'"
    "\<And>win. window_ok win \<Longrightarrow> window_ok (f win) \<and> w_id (f win) = w_id win"
  shows "wm_ok s'"
  using on_window_simple [OF assms(1,2,4)] assms(3) by auto

lemma wm_run_ok: "wm_run s \<Longrightarrow> wm_ok s"
proof (induction rule: wm_run.induct)
  case (Boot s)
  then show ?case by (simp add: window_manager_init_def wm_ok_def wm_list_ok_def)
next
  case (Create s alloc buf fresh title x y width height s' r)
  have fresh_p: "\<And>p. alloc = Some p \<Longrightarrow> wm_store s p = None" by (rule Create.hyps(2))
  obtain s'' r' where "window_create alloc buf fresh title x y width height s = Inr (s'', r')" "wm_ok s''"
    using create_ok [OF Create.IH fresh_p] by blast
  with Create.hyps(3) show ?case by simp
next
  case (Destroy s w s')
  then show ?case using destroy_ok [OF Destroy.IH Destroy.hyps(2)] by auto
next
  case (Focus s w s')
  then show ?case using focus_ok [OF Focus.IH Focus.hyps(2)] by auto
next
  case (Resize s w buf width height s')
  then show ?case using resize_window_ok [OF Resize.IH Resize.hyps(2), of buf width height] by auto
next
  case (Mouse s left buf x y buttons s' b)
  then show ?case using mouse_event_ok [OF Mouse.IH, of left buf x y buttons] by auto
next
  case (Show s w s')
  then show ?case using on_window_keeps [OF Show.IH Show.hyps(2,3) [unfolded window_show_def]] by simp
next
  case (Hide s w s')
  then show ?case using on_window_keeps [OF Hide.IH Hide.hyps(2,3) [unfolded window_hide_def]] by simp
next
  case (Move s w x y s')
  then show ?case using on_window_keeps [OF Move.IH Move.hyps(2,3) [unfolded window_move_def]] by simp
next
  case (Title s w title s')
  then show ?case using on_window_keeps [OF Title.IH Title.hyps(2,3) [unfolded window_set_title_def]] window_ok_title by simp
qed

section \<open>Properties\<close>

text \<open>
  C14. After any sequence of window operations and mouse events: the live windows are exactly the
  listed ones, ids are positions, every window is at least the minimal size with its three buttons
  in place and is never in the resizing state, the focused window is the top one, and no mouse event or
  destruction of a listed window touches released memory.
\<close>

theorem windows_stay_consistent:
  assumes "wm_run s"
  shows "wm_ok s \<and> (\<forall>w \<in> set (wm_windows s). \<exists>s'. window_destroy w s = Inr s' \<and> wm_store s' w = None) \<and>
    (\<forall>left buf x y buttons. \<exists>r. window_handle_mouse left buf x y buttons s = Inr r)"
  using wm_run_ok [OF assms] destroy_ok mouse_event_ok by blast

text \<open>
  A mouse event goes to the topmost visible window under the pointer. A press of the left button
  on its title bar, beside the buttons, raises it, focuses it and starts a drag at the pressed point;
  the order of the other windows is kept. A press on its close button destroys it.
\<close>

theorem title_press_raises:
  assumes "wm_ok s" "List.find (under_pointer s x y) (rev (wm_windows s)) = Some w" "wm_store s w = Some win"
    "y < w_y win + WINDOW_TITLE_HEIGHT" "buttons AND left \<noteq> 0" "\<not> in_max win (x - w_x win) (y - w_y win)" "\<not> w_dragging win"
  shows "\<exists>s'. window_handle_mouse left buf x y buttons s = Inr (s', True) \<and>
    (if in_close win (x - w_x win) (y - w_y win) then wm_windows s' = remove1 w (wm_windows s) \<and> wm_store s' w = None
     else wm_windows s' = remove1 w (wm_windows s) @ [w] \<and> window_get_focused s' = Some w \<and>
       (\<exists>win'. wm_store s' w = Some win' \<and> w_dragging win') \<and>
       drag_start_x s' = x - w_x win \<and> drag_start_y s' = y - w_y win)"
proof -
  note l = wm_ok_list [OF assms(1)]
  have w: "w \<in> set (wm_windows s)" using assms(3) wm_okD(6) [OF l] by auto
  then have "window_ok win" using wm_okD(4) [OF l] assms(3) by (auto simp: in_set_conv_nth)
  then have corner: "\<not> (x - w_x win > w_width win - 15 \<and> y - w_y win > w_height win - 15)"
    using assms(4) by (simp add: window_ok_def window_consts)
  have start: "window_handle_mouse left buf x y buttons s =
      fault_bind (title_press buf w win (x - w_x win) (y - w_y win) s) (\<lambda>s1. Inr (s1, True))"
    using assms(2-5) wm_okD(3) [OF l] by (simp add: window_handle_mouse_def hit_window [OF assms(1)])
  show ?thesis
  proof (cases "in_close win (x - w_x win) (y - w_y win)")
    case True
    then show ?thesis using destroy_ok [OF assms(1) w] start by (auto simp: title_press_def)
  next
    case False
    obtain s1 v where s1: "window_focus w s = Inr s1" "wm_windows s1 = remove1 w (wm_windows s) @ [w]" "wm_focused s1 = Some w"
      "wm_store s1 w = Some v"
      using focus_ok [OF assms(1) w] by blast
    have "title_press buf w win (x - w_x win) (y - w_y win) s =
        on_window w (\<lambda>v. v\<lparr>w_dragging := True\<rparr>) (s1\<lparr>drag_start_x := x - w_x win, drag_start_y := y - w_y win\<rparr>)"
      unfolding title_press_def s1(1) fault_bind_simps if_not_P [OF corner] using False assms(6,7) by simp
    then show ?thesis using start s1 False by (simp add: on_window_def window_get_focused_def)
  qed
qed

text \<open>
  A mouse event over a visible window that is not a left press on the title bar changes nothing:
  in particular a drag neither follows the pointer nor ends while the pointer is over any window.
\<close>

theorem drag_ignored_over_windows:
  assumes "wm_ok s" "List.find (under_pointer s x y) (rev (wm_windows s)) = Some w" "wm_store s w = Some win"
    "w_y win + WINDOW_TITLE_HEIGHT \<le> y \<or> buttons AND left = 0"
  shows "window_handle_mouse left buf x y buttons s = Inr (s, True)"
  using assms(2-4) wm_okD(3) [OF wm_ok_list [OF assms(1)]] by (auto simp: window_handle_mouse_def hit_window [OF assms(1)])

text \<open>
  \<open>window_create\<close> with a free address either changes nothing and returns no window, or puts a
  focused, visible window of the requested geometry on top, with a cleared buffer of
  \<open>width * height * 4 mod 2^32\<close> bytes.
\<close>

theorem create_puts_on_top:
  assumes "wm_ok s" "\<And>p. alloc = Some p \<Longrightarrow> wm_store s p = None"
  shows "\<exists>s' r. window_create alloc buf fresh title x y width height s = Inr (s', r) \<and> wm_ok s' \<and>
    (case r of None \<Rightarrow> s' = s
     | Some p \<Rightarrow> wm_windows s' = wm_windows s @ [p] \<and> wm_focused s' = Some p \<and>
         (\<exists>win. wm_store s' p = Some win \<and> w_x win = x \<and> w_y win = y \<and> w_width win = width \<and> w_height win = height \<and>
            w_visible win \<and> w_buffer win = Some (replicate (buffer_words width height) 0)))"
proof -
  obtain s' r where c: "window_create alloc buf fresh title x y width height s = Inr (s', r)" "wm_ok s'"
    "case r of None \<Rightarrow> s' = s | Some p \<Rightarrow> alloc = Some p \<and> wm_windows s' = wm_windows s @ [p] \<and> wm_focused s' = Some p \<and>
       (\<exists>t. title = Some t \<and> wm_store s' p = Some (new_window fresh t x y width height (length (wm_windows s))))"
    using create_ok [OF assms] by blast
  then show ?thesis
    by (cases r) (auto simp: new_window_def place_buttons_def Let_def)
qed

text \<open>The size of the buffer wraps: a window of 32768 by 32768 pixels gets an empty one.\<close>

lemma buffer_size_wraps: "buffer_words 32768 32768 = 0"
  by (simp add: buffer_words_def)

text \<open>A window destroyed twice is a use of released memory.\<close>

lemma destroy_twice_faults:
  assumes "wm_ok s" "w \<in> set (wm_windows s)" "window_destroy w s = Inr s'"
  shows "window_destroy w s' = Inl Dangling_pointer"
proof -
  obtain s'' where s'': "window_destroy w s = Inr s''" "wm_ok s''" "wm_windows s'' = remove1 w (wm_windows s)" "wm_store s'' w = None"
    using destroy_ok [OF assms(1,2)] by blast
  then have s': "s' = s''" using assms(3) by simp
  have "w \<notin> set (wm_windows s')" using s'' s' wm_okD(1) [OF wm_ok_list [OF assms(1)]] by simp
  then have "first_index (\<lambda>v. v = w) (wm_windows s') = None" by (auto simp: first_index_None)
  then show ?thesis using s'' s' wm_okD(3) [OF wm_ok_list [OF s''(2)]] by (simp add: window_destroy_def Let_def)
qed

section \<open>Instances\<close>

definition demo_fresh :: window where
  "demo_fresh = \<lparr>w_x = 7, w_y = 7, w_width = 7, w_height = 7, w_title = [], w_buffer = None, w_visible = False,
     w_dragging = True, w_resizing = True, w_state = WINDOW_STATE_MINIMIZED, w_id = 7, w_widgets = Some 7,
     close_x = 7, close_y = 7, close_w = 7, close_h = 7, min_x = 7, min_y = 7, min_w = 7, min_h = 7,
     max_x = 7, max_y = 7, max_w = 7, max_h = 7\<rparr>"

definition demo_wm0 :: window_manager where
  "demo_wm0 = fst (window_manager_init \<lparr>wm_store = (\<lambda>_. None), wm_windows = [], wm_focused = None, wm_initialized = False,
     drag_start_x = 0, drag_start_y = 0\<rparr>)"

definition demo_win :: window where
  "demo_win = new_window demo_fresh ''a'' 10 10 120 60 0"

definition demo_wm :: window_manager where
  "demo_wm = demo_wm0\<lparr>wm_store := [5 \<mapsto> demo_win], wm_windows := [5], wm_focused := Some 5\<rparr>"

lemma demo_wm0_run: "wm_run demo_wm0"
  unfolding demo_wm0_def by (rule wm_run.Boot) simp_all

lemma demo_wm_create: "window_create (Some 5) True demo_fresh (Some ''a'') 10 10 120 60 demo_wm0 = Inr (demo_wm, Some 5)"
proof -
  have "demo_win\<lparr>w_id := 0\<rparr> = demo_win" by (simp add: demo_win_def new_window_def place_buttons_def Let_def)
  then show ?thesis
    by (simp add: window_create_def demo_wm_def demo_wm0_def window_manager_init_def window_focus_def close_gap_def on_window_def
        MIN_WINDOW_WIDTH_def MIN_WINDOW_HEIGHT_def MAX_WINDOWS_def demo_win_def [symmetric])
qed

lemma demo_wm_run: "wm_run demo_wm"
proof (rule wm_run.Create [OF demo_wm0_run _ demo_wm_create])
  show "wm_store demo_wm0 p = None" for p by (simp add: demo_wm0_def window_manager_init_def)
qed

lemma demo_win_geometry: "w_x demo_win = 10" "w_y demo_win = 10" "w_width demo_win = 120" "w_height demo_win = 60" "w_visible demo_win"
  "\<not> w_dragging demo_win" "close_x demo_win = 103" "max_x demo_win = 86" "close_y demo_win = 3" "max_y demo_win = 3"
  "close_w demo_win = 14" "max_w demo_win = 14" "close_h demo_win = 14" "max_h demo_win = 14"
  by (simp_all add: demo_win_def new_window_def place_buttons_def Let_def TITLE_BUTTON_SIZE_def TITLE_BUTTON_MARGIN_def)

lemma demo_find: "10 \<le> x \<Longrightarrow> x < 130 \<Longrightarrow> 10 \<le> y \<Longrightarrow> y < 70 \<Longrightarrow>
  List.find (under_pointer demo_wm x y) (rev (wm_windows demo_wm)) = Some 5"
  by (simp add: demo_wm_def under_pointer_def in_window_def demo_win_geometry)

lemma demo_wm_facts: "wm_store demo_wm 5 = Some demo_win" "wm_windows demo_wm = [5]"
  by (simp_all add: demo_wm_def)

theorem windows_stay_consistent_witness:
  "wm_ok demo_wm \<and> (\<exists>s'. window_destroy 5 demo_wm = Inr s')"
  using windows_stay_consistent [OF demo_wm_run] demo_wm_facts(2) by auto

theorem title_press_raises_witness:
  "\<exists>s'. window_handle_mouse 1 True 20 15 1 demo_wm = Inr (s', True) \<and> window_get_focused s' = Some 5 \<and> drag_start_x s' = 10"
  using title_press_raises [OF wm_run_ok [OF demo_wm_run] demo_find demo_wm_facts(1), of 20 15 1 1 True]
  by (auto simp: demo_win_geometry in_max_def in_close_def WINDOW_TITLE_HEIGHT_def)

theorem drag_ignored_over_windows_witness:
  "window_handle_mouse 1 True 20 15 0 demo_wm = Inr (demo_wm, True)"
  using drag_ignored_over_windows [OF wm_run_ok [OF demo_wm_run] demo_find demo_wm_facts(1), of 20 15 0 1 True] by simp

theorem create_puts_on_top_witness:
  "\<exists>s' r. window_create (Some 6) True demo_fresh (Some ''b'') 0 0 200 100 demo_wm = Inr (s', r) \<and> wm_ok s'"
proof -
  have "wm_store demo_wm p = None" if "Some 6 = Some p" for p using that by (auto simp: demo_wm_def)
  then show ?thesis
    using create_puts_on_top [OF wm_run_ok [OF demo_wm_run], where alloc = "Some 6" and buf = True and fresh = demo_fresh and
      title = "Some ''b''" and x = 0 and y = 0 and width = 200 and height = 100] by blast
qed

end
