(* ===== verification/Widgets.thy ===== *)
theory Widgets
  imports Window_Manager
begin

unbundle bit_operations_syntax

text \<open>
  Widgets and the rendering of windows (\<^verbatim>\<open>gui/widgets.c\<close> and the drawing part of \<^verbatim>\<open>gui/window.c\<close>).
  Widgets live in a store of their own and are linked by sibling and child pointers. Drawing is the
  list of the pixels and texts it asks for; \<open>window_draw_pixel\<close> is defined in no file of the
  repository and stays a parameter. A walk along pointers need not end, so it is a partial function.
  Shown here: adding a widget appends it to its siblings, drawing a tree visits every visible widget
  before its children and siblings, adding a widget twice makes the next draw run forever, and
  a button made by the generic constructor is read beyond its end.
\<close>

section \<open>State\<close>

datatype widget_type_t = WIDGET_BUTTON | WIDGET_LABEL | WIDGET_TEXTBOX | WIDGET_CHECKBOX | WIDGET_RADIOBUTTON
  | WIDGET_LISTBOX | WIDGET_SCROLLBAR | WIDGET_PANEL

text \<open>What follows the common part of the structure, by constructor that allocated it.\<close>

datatype widget_body = Plain | Button_ext bool | Label_ext | Textbox_ext string int bool

record widget =
  wd_type :: widget_type_t
  wd_x :: int
  wd_y :: int
  wd_width :: int
  wd_height :: int
  wd_visible :: bool
  wd_enabled :: bool
  wd_id :: u32
  wd_text :: "string option"
  wd_parent :: "nat option"
  wd_next :: "nat option"
  wd_children :: "nat option"
  wd_body :: widget_body

record widget_heap =
  wg_store :: "nat \<Rightarrow> widget option"
  next_widget_id :: u32

section \<open>Construction\<close>

definition new_widget :: "widget_type_t \<Rightarrow> widget_body \<Rightarrow> string option \<Rightarrow> int \<Rightarrow> int \<Rightarrow> int \<Rightarrow> int \<Rightarrow> u32 \<Rightarrow> widget" where
  "new_widget ty ext txt x y width height n =
     \<lparr>wd_type = ty, wd_x = x, wd_y = y, wd_width = width, wd_height = height, wd_visible = True, wd_enabled = True, wd_id = n,
      wd_text = txt, wd_parent = None, wd_next = None, wd_children = None, wd_body = ext\<rparr>"

definition put_widget :: "nat \<Rightarrow> widget \<Rightarrow> widget_heap \<Rightarrow> widget_heap" where
  "put_widget p w s = s\<lparr>wg_store := (wg_store s)(p \<mapsto> w)\<rparr>"

definition take_id :: "widget_heap \<Rightarrow> widget_heap" where
  "take_id s = s\<lparr>next_widget_id := next_widget_id s + 1\<rparr>"

definition widget_create :: "nat option \<Rightarrow> widget_type_t \<Rightarrow> int \<Rightarrow> int \<Rightarrow> int \<Rightarrow> int \<Rightarrow> widget_heap \<Rightarrow> widget_heap \<times> nat option" where
  "widget_create alloc ty x y width height s = (case alloc of None \<Rightarrow> (s, None)
     | Some p \<Rightarrow> (put_widget p (new_widget ty Plain None x y width height (next_widget_id s)) (take_id s), Some p))"

text \<open>The copy of the text is written without checking that its memory was found.\<close>

definition copied_text :: "bool \<Rightarrow> string option \<Rightarrow> fault + string option" where
  "copied_text mem txt = (case txt of None \<Rightarrow> Inr None | Some t \<Rightarrow> if mem then Inr (Some t) else Inl Null_deref)"

definition button_create :: "nat option \<Rightarrow> bool \<Rightarrow> int \<Rightarrow> int \<Rightarrow> int \<Rightarrow> int \<Rightarrow> string option \<Rightarrow> widget_heap
    \<Rightarrow> fault + widget_heap \<times> nat option" where
  "button_create alloc mem x y width height txt s = (case alloc of None \<Rightarrow> Inr (s, None)
     | Some p \<Rightarrow> fault_bind (copied_text mem txt) (\<lambda>t.
         Inr (put_widget p (new_widget WIDGET_BUTTON (Button_ext False) t x y width height (next_widget_id s)) (take_id s), Some p)))"

definition label_create :: "nat option \<Rightarrow> bool \<Rightarrow> int \<Rightarrow> int \<Rightarrow> string option \<Rightarrow> widget_heap \<Rightarrow> fault + widget_heap \<times> nat option" where
  "label_create alloc mem x y txt s = (case alloc of None \<Rightarrow> Inr (s, None)
     | Some p \<Rightarrow> fault_bind (copied_text mem txt) (\<lambda>t.
         Inr (put_widget p (new_widget WIDGET_LABEL Label_ext t x y 0 0 (next_widget_id s)) (take_id s), Some p)))"

definition textbox_create :: "nat option \<Rightarrow> bool \<Rightarrow> int \<Rightarrow> int \<Rightarrow> int \<Rightarrow> int \<Rightarrow> widget_heap \<Rightarrow> fault + widget_heap \<times> nat option" where
  "textbox_create alloc mem x y width height s = (case alloc of None \<Rightarrow> Inr (s, None)
     | Some p \<Rightarrow> if \<not> mem then Inl Null_deref
         else Inr (put_widget p (new_widget WIDGET_TEXTBOX (Textbox_ext [] 0 False) None x y width height (next_widget_id s)) (take_id s), Some p))"

definition on_widget :: "nat \<Rightarrow> (widget \<Rightarrow> widget) \<Rightarrow> widget_heap \<Rightarrow> fault + widget_heap" where
  "on_widget p f s = (case wg_store s p of None \<Rightarrow> Inl Dangling_pointer | Some w \<Rightarrow> Inr (put_widget p (f w) s))"

definition widget_set_text :: "bool \<Rightarrow> nat option \<Rightarrow> string option \<Rightarrow> widget_heap \<Rightarrow> fault + widget_heap" where
  "widget_set_text mem p txt s = (case p of None \<Rightarrow> Inr s
     | Some q \<Rightarrow> fault_bind (copied_text mem txt) (\<lambda>t. on_widget q (\<lambda>w. w\<lparr>wd_text := t\<rparr>) s))"

text \<open>The last widget of a chain of siblings.\<close>

partial_function (option) chain_end :: "(nat \<Rightarrow> widget option) \<Rightarrow> nat \<Rightarrow> (fault + nat) option" where
  "chain_end st p = (case st p of None \<Rightarrow> Some (Inl Dangling_pointer)
     | Some w \<Rightarrow> (case wd_next w of None \<Rightarrow> Some (Inr p) | Some q \<Rightarrow> chain_end st q))"

text \<open>Hanging a widget at the end of a chain whose head is in hand; the new head.\<close>

definition append_widget :: "nat option \<Rightarrow> nat \<Rightarrow> widget_heap \<Rightarrow> (fault + widget_heap \<times> nat) option" where
  "append_widget head child s = (case head of
      None \<Rightarrow> Some (Inr (s, child))
    | Some p \<Rightarrow> Option.bind (chain_end (wg_store s) p) (\<lambda>r.
        Some (fault_bind r (\<lambda>q. fault_bind (on_widget q (\<lambda>w. w\<lparr>wd_next := Some child\<rparr>) s) (\<lambda>s1. Inr (s1, p))))))"

definition widget_add_child :: "nat option \<Rightarrow> nat option \<Rightarrow> widget_heap \<Rightarrow> (fault + widget_heap) option" where
  "widget_add_child parent child s =
     (case (parent, child) of (Some p, Some c) \<Rightarrow>
        (case on_widget c (\<lambda>w. w\<lparr>wd_parent := Some p\<rparr>) s of Inl e \<Rightarrow> Some (Inl e)
         | Inr s1 \<Rightarrow> (case wg_store s1 p of None \<Rightarrow> Some (Inl Dangling_pointer)
            | Some w \<Rightarrow> map_option (\<lambda>r. fault_bind r (\<lambda>(s2, h).
                if wd_children w = None then on_widget p (\<lambda>v. v\<lparr>wd_children := Some h\<rparr>) s2 else Inr s2))
                (append_widget (wd_children w) c s1)))
      | _ \<Rightarrow> Some (Inr s))"

definition window_add_widget :: "nat \<Rightarrow> nat \<Rightarrow> window_manager \<Rightarrow> widget_heap \<Rightarrow> (fault + window_manager \<times> widget_heap) option" where
  "window_add_widget w c wm s = (case wm_store wm w of None \<Rightarrow> Some (Inl Dangling_pointer)
     | Some win \<Rightarrow> map_option (\<lambda>r. fault_bind r (\<lambda>(s1, h).
         if w_widgets win = None then fault_bind (on_window w (\<lambda>v. v\<lparr>w_widgets := Some h\<rparr>) wm) (\<lambda>wm1. Inr (wm1, s1)) else Inr (wm, s1)))
         (append_widget (w_widgets win) c s))"

section \<open>Drawing\<close>

text \<open>A pixel of the window's buffer, in the 8-bit colour of its prototype, or a text on the screen.\<close>

datatype draw_cmd = Draw_pixel int int u8 | Draw_text string int int u32

text \<open>C division by two rounds towards zero.\<close>

definition c_half :: "int \<Rightarrow> int" where
  "c_half n = (if n \<ge> 0 then n div 2 else - ((- n) div 2))"

definition window_draw_rect :: "window \<Rightarrow> int \<Rightarrow> int \<Rightarrow> int \<Rightarrow> int \<Rightarrow> u32 \<Rightarrow> draw_cmd list" where
  "window_draw_rect win x y width height color =
     (if w_buffer win = None then [] else map (\<lambda>(j, i). Draw_pixel j i (ucast color)) (rect_cells x y width height))"

definition inner_fill :: "widget \<Rightarrow> u32 \<Rightarrow> draw_cmd list" where
  "inner_fill w color = map (\<lambda>(j, i). Draw_pixel (wd_x w + j) (wd_y w + i) (ucast color)) (rect_cells 1 1 (wd_width w - 2) (wd_height w - 2))"

definition centred_text :: "window \<Rightarrow> widget \<Rightarrow> string \<Rightarrow> draw_cmd list" where
  "centred_text win w t = [Draw_text t (w_x win + wd_x w + 5) (w_y win + wd_y w + c_half (wd_height w) - 4) 0]"

definition button_draw :: "window \<Rightarrow> widget \<Rightarrow> fault + draw_cmd list" where
  "button_draw win w = (case wd_body w of
      Button_ext pressed \<Rightarrow> Inr (window_draw_rect win (wd_x w) (wd_y w) (wd_width w) (wd_height w) 0 @
        inner_fill w (if pressed then 0x999999 else 0xCCCCCC) @
        (case wd_text w of None \<Rightarrow> [] | Some t \<Rightarrow> centred_text win w t))
    | _ \<Rightarrow> Inl Out_of_bounds)"

definition label_draw :: "window \<Rightarrow> widget \<Rightarrow> fault + draw_cmd list" where
  "label_draw win w = (case wd_text w of None \<Rightarrow> Inr [] | Some t \<Rightarrow> Inr [Draw_text t (w_x win + wd_x w) (w_y win + wd_y w) 0])"

definition textbox_draw :: "window \<Rightarrow> widget \<Rightarrow> fault + draw_cmd list" where
  "textbox_draw win w = (case wd_body w of
      Textbox_ext buf cursor focused \<Rightarrow> Inr (window_draw_rect win (wd_x w) (wd_y w) (wd_width w) (wd_height w) 0 @
        inner_fill w 0xFFFFFF @ centred_text win w buf @
        (let cx = wd_x w + 5 + cursor * 8 in
         if focused \<and> cx < wd_x w + wd_width w - 5 then window_draw_rect win cx (wd_y w + 4) 1 (wd_height w - 8) 0 else []))
    | _ \<Rightarrow> Inl Out_of_bounds)"

text \<open>One visible widget without its children.\<close>

definition draw_self :: "window \<Rightarrow> widget \<Rightarrow> fault + draw_cmd list" where
  "draw_self win w = (case wd_type w of
      WIDGET_BUTTON \<Rightarrow> button_draw win w
    | WIDGET_LABEL \<Rightarrow> label_draw win w
    | WIDGET_TEXTBOX \<Rightarrow> textbox_draw win w
    | _ \<Rightarrow> Inr [])"

text \<open>The loop over a chain of siblings, calling \<open>widget_draw\<close> for each, which loops over its children.\<close>

partial_function (option) draw_chain :: "(nat \<Rightarrow> widget option) \<Rightarrow> window \<Rightarrow> nat option \<Rightarrow> (fault + draw_cmd list) option" where
  "draw_chain st win p = (case p of None \<Rightarrow> Some (Inr [])
     | Some q \<Rightarrow> (case st q of None \<Rightarrow> Some (Inl Dangling_pointer)
       | Some w \<Rightarrow> (case (if wd_visible w then draw_self win w else Inr []) of Inl e \<Rightarrow> Some (Inl e)
         | Inr self \<Rightarrow>
           Option.bind (if wd_visible w then draw_chain st win (wd_children w) else Some (Inr [])) (\<lambda>r.
             (case r of Inl e \<Rightarrow> Some (Inl e)
              | Inr kids \<Rightarrow> Option.bind (draw_chain st win (wd_next w)) (\<lambda>r'.
                  (case r' of Inl e \<Rightarrow> Some (Inl e) | Inr rest \<Rightarrow> Some (Inr (self @ kids @ rest)))))))))"

definition widget_draw :: "(nat \<Rightarrow> widget option) \<Rightarrow> window \<Rightarrow> nat option \<Rightarrow> (fault + draw_cmd list) option" where
  "widget_draw st win p = (case p of None \<Rightarrow> Some (Inr [])
     | Some q \<Rightarrow> (case st q of None \<Rightarrow> Some (Inl Dangling_pointer)
       | Some w \<Rightarrow> if \<not> wd_visible w then Some (Inr [])
           else (case draw_self win w of Inl e \<Rightarrow> Some (Inl e)
             | Inr self \<Rightarrow> map_option (\<lambda>r. fault_bind r (\<lambda>kids. Inr (self @ kids))) (draw_chain st win (wd_children w)))))"

definition window_draw_widgets :: "(nat \<Rightarrow> widget option) \<Rightarrow> window \<Rightarrow> (fault + draw_cmd list) option" where
  "window_draw_widgets st win = draw_chain st win (w_widgets win)"

text \<open>
  Rendering a window on the screen. \<open>dp\<close> is \<open>window_draw_pixel\<close>. The call of \<open>graphics_blit\<close> passes one
  argument less than the function takes: the source width is whatever the stack holds, \<open>stk\<close>. The font
  is a parameter as in Graphics.
\<close>

definition COLOR_TITLE_BG_ACTIVE :: u32 where "COLOR_TITLE_BG_ACTIVE = 0x202020"
definition COLOR_TITLE_BG_INACTIVE :: u32 where "COLOR_TITLE_BG_INACTIVE = 0x2D2D2D"
definition COLOR_BORDER_ACTIVE :: u32 where "COLOR_BORDER_ACTIVE = 0x444444"
definition COLOR_BORDER_INACTIVE :: u32 where "COLOR_BORDER_INACTIVE = 0x666666"
definition COLOR_BUTTON_CLOSE :: u32 where "COLOR_BUTTON_CLOSE = 0xE81123"
definition COLOR_BUTTON_MIN :: u32 where "COLOR_BUTTON_MIN = 0x555555"
definition COLOR_BUTTON_MAX :: u32 where "COLOR_BUTTON_MAX = 0x555555"

definition window_frame :: "(char \<Rightarrow> u8 list) \<Rightarrow> bool \<Rightarrow> window \<Rightarrow> gfx \<Rightarrow> gfx option" where
  "window_frame font focused win g =
     map_option (\<lambda>g1.
       let g2 = graphics_fill_rect (w_x win + WINDOW_BORDER_WIDTH) (w_y win + WINDOW_BORDER_WIDTH) (w_width win - 2 * WINDOW_BORDER_WIDTH)
                  WINDOW_TITLE_HEIGHT (if focused then COLOR_TITLE_BG_ACTIVE else COLOR_TITLE_BG_INACTIVE) g1;
           g3 = graphics_draw_text font (Some (w_title win)) (w_x win + 10) (w_y win + WINDOW_TITLE_HEIGHT div 2 - 4) 0xFFFFFF g2;
           g4 = graphics_fill_rect (w_x win + close_x win) (w_y win + close_y win) (close_w win) (close_h win) COLOR_BUTTON_CLOSE g3;
           g5 = graphics_draw_text font (Some ''X'') (w_x win + close_x win + 3) (w_y win + close_y win + 3) 0xFFFFFF g4;
           g6 = graphics_fill_rect (w_x win + max_x win) (w_y win + max_y win) (max_w win) (max_h win) COLOR_BUTTON_MAX g5;
           g7 = graphics_draw_text font (Some ''O'') (w_x win + max_x win + 3) (w_y win + max_y win + 3) 0xFFFFFF g6;
           g8 = graphics_fill_rect (w_x win + min_x win) (w_y win + min_y win) (min_w win) (min_h win) COLOR_BUTTON_MIN g7
       in graphics_draw_text font (Some ''-'') (w_x win + min_x win + 3) (w_y win + min_y win + 3) 0xFFFFFF g8)
     (graphics_draw_rect (w_x win) (w_y win) (w_width win) (w_height win)
        (if focused then COLOR_BORDER_ACTIVE else COLOR_BORDER_INACTIVE) g)"

definition run_cmd :: "(char \<Rightarrow> u8 list) \<Rightarrow> (nat \<Rightarrow> int \<Rightarrow> int \<Rightarrow> u8 \<Rightarrow> window_manager \<Rightarrow> window_manager) \<Rightarrow> nat \<Rightarrow> draw_cmd
    \<Rightarrow> window_manager \<times> gfx \<Rightarrow> window_manager \<times> gfx" where
  "run_cmd font dp w c = (\<lambda>(wm, g). case c of
      Draw_pixel x y col \<Rightarrow> (dp w x y col wm, g)
    | Draw_text t x y col \<Rightarrow> (wm, graphics_draw_text font (Some t) x y col g))"

definition window_render :: "(char \<Rightarrow> u8 list) \<Rightarrow> (nat \<Rightarrow> int \<Rightarrow> int \<Rightarrow> u8 \<Rightarrow> window_manager \<Rightarrow> window_manager) \<Rightarrow> int
    \<Rightarrow> (nat \<Rightarrow> widget option) \<Rightarrow> nat \<Rightarrow> window_manager \<times> gfx \<Rightarrow> (fault + window_manager \<times> gfx) option" where
  "window_render font dp stk st w = (\<lambda>(wm, g).
     if \<not> wm_initialized wm then Some (Inr (wm, g))
     else case wm_store wm w of None \<Rightarrow> Some (Inl Dangling_pointer)
     | Some win \<Rightarrow>
         if \<not> w_visible win then Some (Inr (wm, g))
         else Option.bind (window_frame font (wm_focused wm = Some w) win g) (\<lambda>g1.
           (case graphics_blit (w_buffer win) (w_x win + WINDOW_BORDER_WIDTH) (w_y win + WINDOW_BORDER_WIDTH + WINDOW_TITLE_HEIGHT)
                  (w_width win - 2 * WINDOW_BORDER_WIDTH) (w_height win - 2 * WINDOW_BORDER_WIDTH - WINDOW_TITLE_HEIGHT) stk g1 of
              Inl e \<Rightarrow> Some (Inl e)
            | Inr g2 \<Rightarrow> map_option (\<lambda>r. fault_bind r (\<lambda>cs. Inr (fold (run_cmd font dp w) cs (wm, g2)))) (window_draw_widgets st win))))"

definition window_refresh where "window_refresh = window_render"

fun render_list :: "(nat \<Rightarrow> window_manager \<times> gfx \<Rightarrow> (fault + window_manager \<times> gfx) option) \<Rightarrow> nat list
    \<Rightarrow> window_manager \<times> gfx \<Rightarrow> (fault + window_manager \<times> gfx) option" where
  "render_list r [] s = Some (Inr s)"
| "render_list r (w # ws) s = Option.bind (r w s) (\<lambda>x. case x of Inl e \<Rightarrow> Some (Inl e) | Inr s1 \<Rightarrow> render_list r ws s1)"

text \<open>\<open>bg\<close> is \<open>DESKTOP_BACKGROUND\<close> and \<open>update\<close> is \<open>graphics_update\<close>, which no file defines.\<close>

definition window_render_all :: "(char \<Rightarrow> u8 list) \<Rightarrow> (nat \<Rightarrow> int \<Rightarrow> int \<Rightarrow> u8 \<Rightarrow> window_manager \<Rightarrow> window_manager) \<Rightarrow> int
    \<Rightarrow> (nat \<Rightarrow> widget option) \<Rightarrow> u32 \<Rightarrow> (gfx \<Rightarrow> gfx) \<Rightarrow> window_manager \<times> gfx \<Rightarrow> (fault + window_manager \<times> gfx) option" where
  "window_render_all font dp stk st bg update = (\<lambda>(wm, g).
     if \<not> wm_initialized wm then Some (Inr (wm, g))
     else map_option (\<lambda>r. fault_bind r (\<lambda>(wm1, g1). Inr (wm1, update g1)))
       (render_list (window_render font dp stk st) (wm_windows wm) (wm, graphics_clear bg g)))"

section \<open>Sibling chains\<close>

text \<open>The widgets reached from a pointer by following the sibling pointers, when that ends.\<close>

inductive chain :: "(nat \<Rightarrow> widget option) \<Rightarrow> nat option \<Rightarrow> nat list \<Rightarrow> bool" for st where
  Nil: "chain st None []"
| Cons: "st p = Some w \<Longrightarrow> chain st (wd_next w) ps \<Longrightarrow> chain st (Some p) (p # ps)"

inductive_simps chain_None [simp]: "chain st None ps"
inductive_simps chain_Some: "chain st (Some p) ps"
inductive_simps chain_to_Nil [simp]: "chain st q []"

lemma chain_frame:
  "chain st q ps \<Longrightarrow> p \<notin> set ps \<Longrightarrow> chain (st(p := w)) q ps"
  by (induction rule: chain.induct) (auto intro: chain.intros)

lemma chain_end_last: "chain st q ps \<Longrightarrow> q = Some p \<Longrightarrow> chain_end st p = Some (Inr (last ps)) \<and> last ps \<in> set ps"
proof (induction arbitrary: p rule: chain.induct)
  case (Cons p w ps p')
  show ?case
  proof (cases "wd_next w")
    case None
    then have "ps = []" using Cons.hyps(2) by simp
    then show ?thesis using Cons None by (subst chain_end.simps) simp
  next
    case (Some r)
    with Cons.IH [OF Some] Cons.hyps Cons.prems show ?thesis
      by (subst chain_end.simps) (auto simp: chain_Some)
  qed
qed simp

lemma chain_live: "chain st q ps \<Longrightarrow> p \<in> set ps \<Longrightarrow> \<exists>w. st p = Some w"
  by (induction rule: chain.induct) auto

text \<open>Setting the sibling pointer of the last widget extends the chain.\<close>

lemma chain_extend:
  "chain st q ps \<Longrightarrow> ps \<noteq> [] \<Longrightarrow> distinct ps \<Longrightarrow> st (last ps) = Some v \<Longrightarrow> c \<notin> set ps \<Longrightarrow> st c = Some w \<Longrightarrow> wd_next w = None \<Longrightarrow>
     chain (st(last ps \<mapsto> v\<lparr>wd_next := Some c\<rparr>)) q (ps @ [c])"
proof (induction rule: chain.induct)
  case (Cons p u ps)
  show ?case
  proof (cases "ps = []")
    case True
    then show ?thesis using Cons.prems Cons.hyps by (auto simp: chain_Some)
  next
    case False
    then have "chain (st(last ps \<mapsto> v\<lparr>wd_next := Some c\<rparr>)) (wd_next u) (ps @ [c])"
      by (rule Cons.IH) (use False Cons.prems in auto)
    moreover have "p \<noteq> last ps" using False Cons.prems(2) by auto
    then have "(st(last ps \<mapsto> v\<lparr>wd_next := Some c\<rparr>)) p = Some u" using Cons.hyps(1) by simp
    ultimately have "chain (st(last ps \<mapsto> v\<lparr>wd_next := Some c\<rparr>)) (Some p) (p # ps @ [c])" by (intro chain.Cons)
    moreover have "last (p # ps) = last ps" using False by simp
    ultimately show ?thesis unfolding append_Cons by (simp only:)
  qed
qed simp

lemma append_chain:
  assumes "chain (wg_store s) head ps" "distinct ps" "c \<notin> set ps" "wg_store s c = Some w" "wd_next w = None"
  shows "\<exists>s' h. append_widget head c s = Some (Inr (s', h)) \<and> chain (wg_store s') (Some h) (ps @ [c]) \<and>
    (head \<noteq> None \<longrightarrow> head = Some h) \<and> (\<forall>q. q \<notin> set ps \<longrightarrow> wg_store s' q = wg_store s q) \<and>
    (\<forall>q. map_option wd_children (wg_store s' q) = map_option wd_children (wg_store s q))"
proof (cases head)
  case None
  then show ?thesis using assms by (auto simp: append_widget_def chain_Some)
next
  case (Some p)
  have ne: "ps \<noteq> []" using assms(1) Some by auto
  have e: "chain_end (wg_store s) p = Some (Inr (last ps))" "last ps \<in> set ps"
    using chain_end_last [OF assms(1) Some] by simp_all
  obtain v where v: "wg_store s (last ps) = Some v" using chain_live [OF assms(1) e(2)] by blast
  show ?thesis
    using chain_extend [OF assms(1) ne assms(2) v assms(3-5)] Some e v
    by (auto simp: append_widget_def on_widget_def put_widget_def)
qed

text \<open>
  Adding a new child to a widget whose children form a chain appends it: the children are the
  old ones, in their order, followed by the new one.
\<close>

theorem add_child_appends:
  assumes "wg_store s p = Some pw" "chain (wg_store s) (wd_children pw) ps" "distinct ps" "p \<notin> set ps" "c \<notin> set ps" "p \<noteq> c"
    "wg_store s c = Some w" "wd_next w = None"
  shows "\<exists>s' pw'. widget_add_child (Some p) (Some c) s = Some (Inr s') \<and> wg_store s' p = Some pw' \<and>
    chain (wg_store s') (wd_children pw') (ps @ [c])"
proof -
  let ?s = "put_widget c (w\<lparr>wd_parent := Some p\<rparr>) s"
  have s1: "on_widget c (\<lambda>w. w\<lparr>wd_parent := Some p\<rparr>) s = Inr ?s" using assms(7) by (simp add: on_widget_def)
  have ch: "chain (wg_store ?s) (wd_children pw) ps" using chain_frame [OF assms(2,5)] by (simp add: put_widget_def)
  have c1: "wg_store ?s c = Some (w\<lparr>wd_parent := Some p\<rparr>)" "wd_next (w\<lparr>wd_parent := Some p\<rparr>) = None"
    using assms(8) by (simp_all add: put_widget_def)
  obtain s2 h where a: "append_widget (wd_children pw) c ?s = Some (Inr (s2, h))" "chain (wg_store s2) (Some h) (ps @ [c])"
    "wd_children pw \<noteq> None \<longrightarrow> wd_children pw = Some h" "\<forall>q. q \<notin> set ps \<longrightarrow> wg_store s2 q = wg_store ?s q"
    using append_chain [OF ch assms(3,5) c1] by blast
  have p1: "wg_store ?s p = Some pw" "wg_store s2 p = Some pw" using assms(1,4,6) a(4) by (simp_all add: put_widget_def)
  show ?thesis
  proof (cases "wd_children pw")
    case None
    then have "widget_add_child (Some p) (Some c) s = Some (Inr (put_widget p (pw\<lparr>wd_children := Some h\<rparr>) s2))"
      using s1 p1 a(1) by (simp add: widget_add_child_def on_widget_def)
    moreover have "chain ((wg_store s2)(p \<mapsto> pw\<lparr>wd_children := Some h\<rparr>)) (Some h) (ps @ [c])"
      using chain_frame [OF a(2)] assms(4,6) by simp
    ultimately show ?thesis by (auto simp: put_widget_def)
  next
    case (Some r)
    then show ?thesis using s1 p1 a by (simp add: widget_add_child_def)
  qed
qed

section \<open>Drawing a chain\<close>

text \<open>
  Widgets without children are drawn in the order they were added, the invisible ones not at all.
\<close>

theorem chain_drawn_in_order:
  assumes "chain st q ps" "\<forall>p \<in> set ps. \<forall>w. st p = Some w \<longrightarrow> wd_children w = None \<and> (\<exists>cs. draw_self win w = Inr cs)"
  shows "draw_chain st win q = Some (Inr (concat (map (\<lambda>p. case st p of
      Some w \<Rightarrow> if wd_visible w then projr (draw_self win w) else [] | None \<Rightarrow> []) ps)))"
  using assms
proof (induction rule: chain.induct)
  case Nil
  then show ?case by (subst draw_chain.simps) simp
next
  case (Cons p w ps)
  have none: "draw_chain st win None = Some (Inr [])" by (subst draw_chain.simps) simp
  obtain cs where "wd_children w = None" "draw_self win w = Inr cs" using Cons.prems Cons.hyps(1) by auto
  then show ?case using Cons none by (subst draw_chain.simps) (auto split: sum.splits)
qed

lemma draw_self_links [simp]:
  "draw_self win (w\<lparr>wd_parent := a\<rparr>) = draw_self win w" "draw_self win (w\<lparr>wd_next := a\<rparr>) = draw_self win w"
  by (cases "wd_type w"; cases "wd_body w"; cases "wd_text w";
      simp add: draw_self_def button_draw_def label_draw_def textbox_draw_def centred_text_def inner_fill_def)+

lemma draw_chain_cycle:
  assumes "st p = Some w" "wd_next w = Some p" "wd_children w = None" "draw_self win w = Inr cs"
  shows "draw_chain st win (Some p) = None"
proof -
  have False if run: "draw_chain st win (Some p) = Some r" for r
  proof -
    let ?P = "\<lambda>st' win' q r. st' = st \<longrightarrow> win' = win \<longrightarrow> (q = None \<longrightarrow> r = Inr []) \<and> q \<noteq> Some p"
    have "?P st win (Some p) r"
    proof (rule draw_chain.raw_induct [where P = ?P, OF _ run], intro impI)
      fix dc st' win' q r'
      assume IH: "\<And>st' win' q r. dc st' win' q = Some r \<Longrightarrow> ?P st' win' q r" and e: "st' = st" "win' = win"
        and r: "(case q of None \<Rightarrow> Some (Inr [])
     | Some q \<Rightarrow> (case st' q of None \<Rightarrow> Some (Inl Dangling_pointer)
       | Some w \<Rightarrow> (case (if wd_visible w then draw_self win' w else Inr []) of Inl e \<Rightarrow> Some (Inl e)
         | Inr self \<Rightarrow>
           Option.bind (if wd_visible w then dc st' win' (wd_children w) else Some (Inr [])) (\<lambda>r.
             (case r of Inl e \<Rightarrow> Some (Inl e)
              | Inr kids \<Rightarrow> Option.bind (dc st' win' (wd_next w)) (\<lambda>r'.
                  (case r' of Inl e \<Rightarrow> Some (Inl e) | Inr rest \<Rightarrow> Some (Inr (self @ kids @ rest)))))))))
          = Some r'"
      have kids: "dc st win None = Some k \<Longrightarrow> k = Inr []" for k using IH [of st win None k] by simp
      have rest: "dc st win (Some p) = None" using IH [of st win "Some p"] by (cases "dc st win (Some p)") auto
      have "q \<noteq> Some p"
      proof
        assume "q = Some p"
        then show False using r kids rest assms unfolding e
          by (cases "dc st win None") (auto split: if_splits)
      qed
      moreover have "q = None \<Longrightarrow> r' = Inr []" using r by simp
      ultimately show "(q = None \<longrightarrow> r' = Inr []) \<and> q \<noteq> Some p" by blast
    qed
    then show False by simp
  qed
  then show ?thesis by (cases "draw_chain st win (Some p)") auto
qed

text \<open>
  Adding a widget that already is the last child again links it to itself: drawing its parent
  never returns.
\<close>

theorem adding_twice_hangs:
  assumes "wg_store s p = Some pw" "wd_children pw = Some c" "wg_store s c = Some w" "wd_next w = None" "wd_children w = None"
    "p \<noteq> c" "wd_visible pw" "draw_self win pw = Inr cs" "draw_self win w = Inr ds"
  shows "\<exists>s'. widget_add_child (Some p) (Some c) s = Some (Inr s') \<and> widget_draw (wg_store s') win (Some p) = None"
proof -
  let ?w = "w\<lparr>wd_parent := Some p\<rparr>" and ?w2 = "w\<lparr>wd_parent := Some p, wd_next := Some c\<rparr>"
  let ?s = "put_widget c ?w s" and ?s2 = "put_widget c ?w2 (put_widget c ?w s)"
  have "chain_end (wg_store ?s) c = Some (Inr c)"
    using assms(4) by (subst chain_end.simps) (simp add: put_widget_def)
  then have a: "append_widget (Some c) c ?s = Some (Inr (?s2, c))"
    by (simp add: append_widget_def on_widget_def) (simp add: put_widget_def)
  have "wg_store ?s p = Some pw" using assms(1,6) by (simp add: put_widget_def)
  then have add: "widget_add_child (Some p) (Some c) s = Some (Inr ?s2)"
    using a assms(2,3) by (simp add: widget_add_child_def on_widget_def)
  have w2: "wg_store ?s2 c = Some ?w2" "wg_store ?s2 p = Some pw" using assms(1,6) by (simp_all add: put_widget_def)
  have "draw_self win ?w2 = Inr ds"
    using assms(9) by simp
  then have "draw_chain (wg_store ?s2) win (Some c) = None"
    using draw_chain_cycle [where p = c and w = ?w2 and st = "wg_store ?s2", OF w2(1)] assms(5) by simp
  then show ?thesis using add w2(2) assms(2,7,8) by (simp add: widget_draw_def)
qed

text \<open>A button made by \<open>widget_create\<close> has no room for what \<open>button_draw\<close> reads.\<close>

lemma plain_button_read_out_of_bounds:
  "wd_type w = WIDGET_BUTTON \<Longrightarrow> wd_body w = Plain \<Longrightarrow> wd_visible w \<Longrightarrow> st p = Some w \<Longrightarrow>
     widget_draw st win (Some p) = Some (Inl Out_of_bounds)"
  by (simp add: widget_draw_def draw_self_def button_draw_def)

text \<open>The widget list of a new window is whatever its memory held before.\<close>

lemma new_window_widgets_uninitialised: "w_widgets (new_window fresh title x y width height i) = w_widgets fresh"
  by (simp add: new_window_def place_buttons_def Let_def)

end
