(* ===== verification/Ata.thy ===== *)
theory Ata
  imports Maya_Prelude
begin

unbundle bit_operations_syntax

text \<open>
  The ATA driver in PIO mode (\<^verbatim>\<open>drivers/ata.c\<close>). What the drive answers is an argument, a stream for the
  byte reads (status) and one for the word reads (data); everything the driver writes to a port is
  appended to a trace. A wait for a status bit need not end, so the operations are partial. The
  identify data is the packed structure of the source: 121 words, fewer than the 256 read into it.
  Shown here: which address the drive is given, that reads return the words of the data port in order
  and writes send the buffer in order, that both return when the drive answers, that identifying a
  drive writes beyond the structure, and where the model string and size are taken from.
\<close>

section \<open>State\<close>

definition ATA_PRIMARY_IO :: u16 where "ATA_PRIMARY_IO = 0x1F0"
definition ATA_REG_DATA :: u16 where "ATA_REG_DATA = 0"
definition ATA_REG_SECCOUNT0 :: u16 where "ATA_REG_SECCOUNT0 = 2"
definition ATA_REG_LBA0 :: u16 where "ATA_REG_LBA0 = 3"
definition ATA_REG_LBA1 :: u16 where "ATA_REG_LBA1 = 4"
definition ATA_REG_LBA2 :: u16 where "ATA_REG_LBA2 = 5"
definition ATA_REG_HDDEVSEL :: u16 where "ATA_REG_HDDEVSEL = 6"
definition ATA_REG_COMMAND :: u16 where "ATA_REG_COMMAND = 7"
definition ATA_CMD_READ_PIO :: u8 where "ATA_CMD_READ_PIO = 0x20"
definition ATA_CMD_WRITE_PIO :: u8 where "ATA_CMD_WRITE_PIO = 0x30"
definition ATA_CMD_IDENTIFY :: u8 where "ATA_CMD_IDENTIFY = 0xEC"
definition ATA_STATUS_BSY :: u8 where "ATA_STATUS_BSY = 0x80"
definition ATA_STATUS_DRQ :: u8 where "ATA_STATUS_DRQ = 0x08"

text \<open>Words of the packed identify structure: its fields add up to 242 bytes.\<close>

definition IDENTIFY_WORDS :: nat where "IDENTIFY_WORDS = 121"

text \<open>A port write is a byte or a word. \<open>ata_nb\<close> and \<open>ata_nw\<close> count the reads done so far.\<close>

datatype port_write = Out_byte u16 u8 | Out_word u16 u16

record ata =
  ata_io_base :: u16
  ata_control_base :: u16
  ata_is_slave :: bool
  ata_identify :: "u16 list"
  ata_initialized :: bool
  ata_trace :: "port_write list"
  ata_nb :: nat
  ata_nw :: nat

record drive =
  status_reads :: "nat \<Rightarrow> u8"
  data_reads :: "nat \<Rightarrow> u16"

section \<open>Operations\<close>

definition ata_outb :: "u16 \<Rightarrow> u8 \<Rightarrow> ata \<Rightarrow> ata" where
  "ata_outb port v s = s\<lparr>ata_trace := ata_trace s @ [Out_byte port v]\<rparr>"

definition ata_wait_bsy :: "drive \<Rightarrow> ata \<Rightarrow> ata option" where
  "ata_wait_bsy d s = map_option (\<lambda>n. s\<lparr>ata_nb := n\<rparr>) (wait_port (\<lambda>b. b AND ATA_STATUS_BSY = 0) (status_reads d) (ata_nb s))"

definition ata_wait_drq :: "drive \<Rightarrow> ata \<Rightarrow> ata option" where
  "ata_wait_drq d s = map_option (\<lambda>n. s\<lparr>ata_nb := n\<rparr>) (wait_port (\<lambda>b. b AND ATA_STATUS_DRQ \<noteq> 0) (status_reads d) (ata_nb s))"

definition ata_read_words :: "drive \<Rightarrow> nat \<Rightarrow> ata \<Rightarrow> ata \<times> u16 list" where
  "ata_read_words d n s = (s\<lparr>ata_nw := ata_nw s + n\<rparr>, map (data_reads d) [ata_nw s..<ata_nw s + n])"

text \<open>The 256 words read do not fit into the structure: the fault of the first word beyond it.\<close>

definition ata_identify_drive :: "drive \<Rightarrow> ata \<Rightarrow> (fault + ata \<times> bool) option" where
  "ata_identify_drive d s =
     (let s1 = ata_outb (ata_io_base s + ATA_REG_HDDEVSEL) (if ata_is_slave s then 0xB0 else 0xA0) s in
      Option.bind (ata_wait_bsy d s1) (\<lambda>s2.
        let s3 = ata_outb (ata_io_base s + ATA_REG_COMMAND) ATA_CMD_IDENTIFY s2;
            status = status_reads d (ata_nb s3); s4 = s3\<lparr>ata_nb := ata_nb s3 + 1\<rparr> in
        if status = 0 then Some (Inr (s4, False))
        else Option.bind (ata_wait_bsy d s4) (\<lambda>s5.
          Option.bind (ata_wait_drq d s5) (\<lambda>s6.
            let (s7, ws) = ata_read_words d 256 s6 in
            if length ws > IDENTIFY_WORDS then Some (Inl Out_of_bounds)
            else Some (Inr (s7\<lparr>ata_identify := ws\<rparr>, True))))))"

definition ata_init :: "drive \<Rightarrow> bool \<Rightarrow> ata \<Rightarrow> (fault + ata \<times> bool) option" where
  "ata_init d slave s =
     (if ata_initialized s then Some (Inr (s, True))
      else let s1 = s\<lparr>ata_io_base := ATA_PRIMARY_IO, ata_control_base := ATA_PRIMARY_IO + 0x206, ata_is_slave := slave\<rparr>;
               s2 = ata_outb (ata_control_base s1) 0 (ata_outb (ata_control_base s1) 4 s1) in
        Option.bind (ata_wait_bsy d s2) (\<lambda>s3.
          map_option (\<lambda>r. fault_bind r (\<lambda>(s4, found). if \<not> found then Inr (s4, False) else Inr (s4\<lparr>ata_initialized := True\<rparr>, True)))
            (ata_identify_drive d s3)))"

text \<open>Address, sector count and command; the address has 28 bits.\<close>

definition ata_command :: "u8 \<Rightarrow> u32 \<Rightarrow> u8 \<Rightarrow> ata \<Rightarrow> ata" where
  "ata_command cmd lba cnt s =
     (let b = ata_io_base s in
      ata_outb (b + ATA_REG_COMMAND) cmd
      (ata_outb (b + ATA_REG_LBA2) (ucast (drop_bit 16 lba AND 0xFF))
      (ata_outb (b + ATA_REG_LBA1) (ucast (drop_bit 8 lba AND 0xFF))
      (ata_outb (b + ATA_REG_LBA0) (ucast (lba AND 0xFF))
      (ata_outb (b + ATA_REG_SECCOUNT0) cnt
      (ata_outb (b + ATA_REG_HDDEVSEL) ((if ata_is_slave s then 0xF0 else 0xE0) OR ucast (drop_bit 24 lba AND 0x0F)) s))))))"

fun ata_read_loop :: "drive \<Rightarrow> nat \<Rightarrow> ata \<Rightarrow> (ata \<times> u16 list) option" where
  "ata_read_loop d 0 s = Some (s, [])"
| "ata_read_loop d (Suc n) s =
     Option.bind (ata_wait_bsy d s) (\<lambda>s1. Option.bind (ata_wait_drq d s1) (\<lambda>s2.
       let (s3, ws) = ata_read_words d 256 s2 in
       map_option (\<lambda>(s4, rest). (s4, ws @ rest)) (ata_read_loop d n s3)))"

definition ata_read_sectors :: "drive \<Rightarrow> u32 \<Rightarrow> u8 \<Rightarrow> ata \<Rightarrow> (ata \<times> u16 list option) option" where
  "ata_read_sectors d lba cnt s =
     (if \<not> ata_initialized s \<or> cnt = 0 then Some (s, None)
      else map_option (\<lambda>(s1, ws). (s1, Some ws)) (ata_read_loop d (unat cnt) (ata_command ATA_CMD_READ_PIO lba cnt s)))"

text \<open>The words of one sector go to the data port; \<open>buf\<close> is what the caller's pointer leads to.\<close>

definition ata_write_words :: "u16 list \<Rightarrow> ata \<Rightarrow> ata" where
  "ata_write_words ws s = s\<lparr>ata_trace := ata_trace s @ map (Out_word (ata_io_base s + ATA_REG_DATA)) ws\<rparr>"

fun ata_write_loop :: "drive \<Rightarrow> nat \<Rightarrow> u16 list \<Rightarrow> ata \<Rightarrow> (fault + ata) option" where
  "ata_write_loop d 0 buf s = Some (Inr s)"
| "ata_write_loop d (Suc n) buf s =
     Option.bind (ata_wait_bsy d s) (\<lambda>s1. Option.bind (ata_wait_drq d s1) (\<lambda>s2.
       if length buf < 256 then Some (Inl Out_of_bounds)
       else ata_write_loop d n (drop 256 buf) (ata_write_words (take 256 buf) s2)))"

definition ata_write_sectors :: "drive \<Rightarrow> u32 \<Rightarrow> u8 \<Rightarrow> u16 list \<Rightarrow> ata \<Rightarrow> (fault + ata \<times> bool) option" where
  "ata_write_sectors d lba cnt buf s =
     (if \<not> ata_initialized s \<or> cnt = 0 then Some (Inr (s, False))
      else map_option (\<lambda>r. fault_bind r (\<lambda>s1. Inr (s1, True)))
        (ata_write_loop d (unat cnt) buf (ata_command ATA_CMD_WRITE_PIO lba cnt s)))"

text \<open>Bytes of the identify data, low byte of a word first.\<close>

definition identify_bytes :: "ata \<Rightarrow> nat \<Rightarrow> nat \<Rightarrow> u8 list" where
  "identify_bytes s first n =
     map (\<lambda>i. if even i then ucast (ata_identify s ! (i div 2)) else ucast (drop_bit 8 (ata_identify s ! (i div 2)))) [first..<first + n]"

text \<open>The fields as the packed structure lays them out.\<close>

definition ata_get_model :: "ata \<Rightarrow> u8 list option" where
  "ata_get_model s = (if \<not> ata_initialized s then None else Some (identify_bytes s 54 40))"

definition ata_get_serial :: "ata \<Rightarrow> u8 list option" where
  "ata_get_serial s = (if \<not> ata_initialized s then None else Some (identify_bytes s 20 20))"

definition ata_get_size :: "ata \<Rightarrow> u64" where
  "ata_get_size s =
     (if \<not> ata_initialized s then 0
      else let w = (\<lambda>i. ata_identify s ! i) in
        if bit (w 80) 9
        then push_bit 48 (ucast (w 120)) OR push_bit 32 (ucast (w 119)) OR push_bit 16 (ucast (w 118)) OR ucast (w 117)
        else ucast ((push_bit 16 (ucast (w 94)) :: u32) OR ucast (w 93)))"

definition ata_is_initialized :: "ata \<Rightarrow> bool" where "ata_is_initialized s = ata_initialized s"

section \<open>The address\<close>

text \<open>The sector address a drive reads from its four address registers, and its mode bits.\<close>

definition register_address :: "u8 \<Rightarrow> u8 \<Rightarrow> u8 \<Rightarrow> u8 \<Rightarrow> nat" where
  "register_address l0 l1 l2 dev = unat l0 + 2 ^ 8 * unat l1 + 2 ^ 16 * unat l2 + 2 ^ 24 * (unat dev mod 16)"

lemma unat_drop_bit_div: "unat (drop_bit n (x :: 'a::len word)) = unat x div 2 ^ n"
  by (simp only: unat_drop_bit_eq) (simp add: drop_bit_eq_div)

lemma unat_and_low:
  fixes w :: u32
  shows "unat (w AND 0xFF) = unat w mod 256" "unat (w AND 0x0F) = unat w mod 16"
proof -
  have "w AND 0xFF = take_bit 8 w" "w AND 0x0F = take_bit 4 w"
    by (simp_all only: take_bit_eq_mask) (simp_all add: mask_eq_exp_minus_1)
  then show "unat (w AND 0xFF) = unat w mod 256" "unat (w AND 0x0F) = unat w mod 16"
    by (simp_all only: unsigned_take_bit_eq) (simp_all add: take_bit_eq_mod)
qed

lemma unat_byte_of: "unat (ucast (drop_bit n (x :: u32) AND 0xFF) :: u8) = unat x div 2 ^ n mod 256"
  by (simp add: unsigned_ucast_eq take_bit_eq_mod unat_and_low unat_drop_bit_div)

lemma unat_low_nibble: "unat (w :: 'a::len word) mod 16 = unat (take_bit 4 w)"
  by (simp only: unsigned_take_bit_eq) (simp add: take_bit_eq_mod)

lemma unat_device_byte:
  assumes "h = 0xE0 \<or> h = (0xF0 :: u8)"
  shows "unat (h OR ucast (drop_bit 24 (x :: u32) AND 0x0F)) mod 16 = unat x div 2 ^ 24 mod 16"
proof -
  let ?y = "ucast (drop_bit 24 x AND 0x0F) :: u8"
  have "take_bit 4 h = 0" using assms by auto
  then have "take_bit 4 (h OR ?y) = take_bit 4 ?y" by (simp add: take_bit_or)
  then have "unat (h OR ?y) mod 16 = unat ?y mod 16" by (simp only: unat_low_nibble)
  moreover have "unat ?y = unat x div 2 ^ 24 mod 16"
    by (simp add: unsigned_ucast_eq take_bit_eq_mod unat_and_low unat_drop_bit_div)
  ultimately show ?thesis by simp
qed

lemma command_address:
  "register_address (ucast (lba AND 0xFF)) (ucast (drop_bit 8 lba AND 0xFF)) (ucast (drop_bit 16 lba AND 0xFF))
     ((if slave then 0xF0 else 0xE0) OR ucast (drop_bit 24 lba AND 0x0F)) = unat (lba :: u32) mod 2 ^ 28"
proof -
  define n where "n = unat lba"
  have l0: "unat (ucast (lba AND 0xFF) :: u8) = n mod 256"
    using unat_byte_of [of 0 lba] by (simp add: n_def)
  have "n mod 2 ^ 28 = n mod 256 + 256 * (n div 256 mod 256) + 65536 * (n div 65536 mod 256) + 16777216 * (n div 16777216 mod 16)"
    using mod_mult2_eq [of n 256 "2 ^ 20"] mod_mult2_eq [of "n div 256" 256 "2 ^ 12"] mod_mult2_eq [of "n div 65536" 256 16]
    by (simp add: div_mult2_eq [symmetric])
  then show ?thesis
    unfolding register_address_def unat_byte_of l0
    by (simp add: unat_device_byte n_def [symmetric])
qed

section \<open>Reading and writing\<close>

text \<open>The drive answers: from every read on, some later status is not busy, and some later one requests data.\<close>

definition drive_answers :: "drive \<Rightarrow> bool" where
  "drive_answers d \<longleftrightarrow> (\<forall>k. \<exists>n \<ge> k. status_reads d n AND ATA_STATUS_BSY = 0) \<and> (\<forall>k. \<exists>n \<ge> k. status_reads d n AND ATA_STATUS_DRQ \<noteq> 0)"

lemma waits_return:
  assumes "drive_answers d"
  shows "\<exists>k. ata_wait_bsy d s = Some (s\<lparr>ata_nb := k\<rparr>)" "\<exists>k. ata_wait_drq d s = Some (s\<lparr>ata_nb := k\<rparr>)"
  using assms wait_port_returns [of "ata_nb s" "\<lambda>b. b AND ATA_STATUS_BSY = 0" "status_reads d"]
    wait_port_returns [of "ata_nb s" "\<lambda>b. b AND ATA_STATUS_DRQ \<noteq> 0" "status_reads d"]
  by (auto simp: drive_answers_def ata_wait_bsy_def ata_wait_drq_def)

lemma read_loop_words:
  assumes "drive_answers d"
  shows "\<exists>k. ata_read_loop d n s = Some (s\<lparr>ata_nb := k, ata_nw := ata_nw s + 256 * n\<rparr>, map (data_reads d) [ata_nw s..<ata_nw s + 256 * n])"
proof (induction n arbitrary: s)
  case 0
  show ?case by (intro exI [of _ "ata_nb s"]) simp
next
  case (Suc n)
  obtain k1 where k1: "ata_wait_bsy d s = Some (s\<lparr>ata_nb := k1\<rparr>)" using waits_return [OF assms] by blast
  obtain k2 where k2: "ata_wait_drq d (s\<lparr>ata_nb := k1\<rparr>) = Some (s\<lparr>ata_nb := k2\<rparr>)"
    using waits_return(2) [OF assms, of "s\<lparr>ata_nb := k1\<rparr>"] by auto
  let ?s = "s\<lparr>ata_nb := k2, ata_nw := ata_nw s + 256\<rparr>"
  obtain k where "ata_read_loop d n ?s = Some (?s\<lparr>ata_nb := k, ata_nw := ata_nw s + 256 + 256 * n\<rparr>,
      map (data_reads d) [ata_nw s + 256..<ata_nw s + 256 + 256 * n])"
    using Suc.IH [of ?s] by auto
  moreover have "[ata_nw s..<ata_nw s + 256] @ [ata_nw s + 256..<ata_nw s + 256 + 256 * n] = [ata_nw s..<ata_nw s + 256 * Suc n]"
    using upt_add_eq_append [of "ata_nw s" "ata_nw s + 256" "256 * n"] by (simp add: add.assoc)
  ultimately show ?case
    using k1 k2 by (intro exI [of _ k]) (simp add: ata_read_words_def add.assoc flip: map_append)
qed

lemma write_loop_words:
  assumes "drive_answers d"
  shows "\<exists>k. ata_write_loop d n buf s = Some (if length buf < 256 * n then Inl Out_of_bounds
    else Inr (s\<lparr>ata_nb := k, ata_trace := ata_trace s @ map (Out_word (ata_io_base s + ATA_REG_DATA)) (take (256 * n) buf)\<rparr>))"
proof (induction n arbitrary: s buf)
  case 0
  show ?case by (intro exI [of _ "ata_nb s"]) simp
next
  case (Suc n)
  obtain k1 where k1: "ata_wait_bsy d s = Some (s\<lparr>ata_nb := k1\<rparr>)" using waits_return [OF assms] by blast
  obtain k2 where k2: "ata_wait_drq d (s\<lparr>ata_nb := k1\<rparr>) = Some (s\<lparr>ata_nb := k2\<rparr>)"
    using waits_return(2) [OF assms, of "s\<lparr>ata_nb := k1\<rparr>"] by auto
  let ?s = "ata_write_words (take 256 buf) (s\<lparr>ata_nb := k2\<rparr>)"
  obtain k where k: "ata_write_loop d n (drop 256 buf) ?s = Some (if length (drop 256 buf) < 256 * n then Inl Out_of_bounds
    else Inr (?s\<lparr>ata_nb := k, ata_trace := ata_trace ?s @ map (Out_word (ata_io_base ?s + ATA_REG_DATA)) (take (256 * n) (drop 256 buf))\<rparr>))"
    using Suc.IH by blast
  have "take (256 * Suc n) buf = take 256 buf @ take (256 * n) (drop 256 buf)"
    using take_add [of 256 "256 * n" buf] by simp
  then show ?case using k1 k2 k by (intro exI [of _ k]) (auto simp: ata_write_words_def)
qed

lemma command_trace:
  "ata_trace (ata_command cmd lba cnt s) = ata_trace s @
     [Out_byte (ata_io_base s + 6) ((if ata_is_slave s then 0xF0 else 0xE0) OR ucast (drop_bit 24 lba AND 0x0F)),
      Out_byte (ata_io_base s + 2) cnt, Out_byte (ata_io_base s + 3) (ucast (lba AND 0xFF)),
      Out_byte (ata_io_base s + 4) (ucast (drop_bit 8 lba AND 0xFF)), Out_byte (ata_io_base s + 5) (ucast (drop_bit 16 lba AND 0xFF)),
      Out_byte (ata_io_base s + 7) cmd]"
  "ata_identify (ata_command cmd lba cnt s) = ata_identify s" "ata_initialized (ata_command cmd lba cnt s) = ata_initialized s"
  by (simp_all add: ata_command_def ata_outb_def Let_def ATA_REG_HDDEVSEL_def ATA_REG_SECCOUNT0_def ATA_REG_LBA0_def
      ATA_REG_LBA1_def ATA_REG_LBA2_def ATA_REG_COMMAND_def)

lemma wait_frame:
  "ata_wait_bsy d s = Some s' \<Longrightarrow> ata_initialized s' = ata_initialized s"
  by (auto simp: ata_wait_bsy_def)

lemma identify_result:
  assumes "ata_identify_drive d s = Some x"
  shows "x = Inl Out_of_bounds \<or> (\<exists>s'. x = Inr (s', False) \<and> ata_initialized s' = ata_initialized s)"
proof -
  obtain s2 where s2: "ata_wait_bsy d (ata_outb (ata_io_base s + ATA_REG_HDDEVSEL) (if ata_is_slave s then 0xB0 else 0xA0) s) = Some s2"
    using assms by (auto simp: ata_identify_drive_def Let_def split: Option.bind_splits)
  then have i: "ata_initialized s2 = ata_initialized s" using wait_frame by (fastforce simp: ata_outb_def)
  show ?thesis
  proof (cases "status_reads d (ata_nb s2) = 0")
    case True
    then show ?thesis using assms s2 i by (auto simp: ata_identify_drive_def Let_def ata_outb_def)
  next
    case False
    then show ?thesis using assms s2
      by (auto simp: ata_identify_drive_def Let_def ata_outb_def ata_read_words_def IDENTIFY_WORDS_def split: Option.bind_splits)
  qed
qed

section \<open>Properties\<close>

text \<open>
  A read programs the drive with the low 28 bits of the sector address, the count and the read
  command, and, when the drive answers, returns the next \<open>256 * cnt\<close> words of the data port in order.
\<close>

theorem read_sectors_transfers:
  assumes "ata_initialized s" "cnt \<noteq> 0" "drive_answers d"
  shows "\<exists>s' l0 l1 l2 dev. ata_read_sectors d lba cnt s =
      Some (s', Some (map (data_reads d) [ata_nw s..<ata_nw s + 256 * unat cnt])) \<and>
    ata_trace s' = ata_trace s @ [Out_byte (ata_io_base s + 6) dev, Out_byte (ata_io_base s + 2) cnt,
      Out_byte (ata_io_base s + 3) l0, Out_byte (ata_io_base s + 4) l1, Out_byte (ata_io_base s + 5) l2,
      Out_byte (ata_io_base s + 7) 0x20] \<and>
    register_address l0 l1 l2 dev = unat lba mod 2 ^ 28 \<and> ata_identify s' = ata_identify s \<and> ata_initialized s'"
proof -
  let ?c = "ata_command ATA_CMD_READ_PIO lba cnt s"
  have c: "ata_nw ?c = ata_nw s" by (simp add: ata_command_def ata_outb_def Let_def)
  obtain k where k: "ata_read_loop d (unat cnt) ?c = Some (?c\<lparr>ata_nb := k, ata_nw := ata_nw s + 256 * unat cnt\<rparr>,
      map (data_reads d) [ata_nw s..<ata_nw s + 256 * unat cnt])"
    using read_loop_words [OF assms(3), of "unat cnt" ?c] unfolding c by blast
  let ?s = "?c\<lparr>ata_nb := k, ata_nw := ata_nw s + 256 * unat cnt\<rparr>"
  have "ata_read_sectors d lba cnt s = Some (?s, Some (map (data_reads d) [ata_nw s..<ata_nw s + 256 * unat cnt]))"
    using assms(1,2) k by (simp add: ata_read_sectors_def)
  moreover have "ata_trace ?s = ata_trace ?c" "ata_identify ?s = ata_identify s" "ata_initialized ?s"
    using assms(1) by (simp_all add: command_trace)
  ultimately show ?thesis
    unfolding command_trace(1) ATA_CMD_READ_PIO_def using command_address [of lba "ata_is_slave s"] by blast
qed

text \<open>
  A write sends exactly the first \<open>256 * cnt\<close> words of the buffer to the data port, in order, and
  leaves the buffer only when it is shorter.
\<close>

theorem write_sectors_sends:
  assumes "ata_initialized s" "cnt \<noteq> 0" "drive_answers d"
  shows "\<exists>r. ata_write_sectors d lba cnt buf s = Some r \<and>
    (if length buf < 256 * unat cnt then r = Inl Out_of_bounds
     else \<exists>s'. r = Inr (s', True) \<and>
       ata_trace s' = ata_trace (ata_command ATA_CMD_WRITE_PIO lba cnt s) @ map (Out_word (ata_io_base s)) (take (256 * unat cnt) buf))"
proof -
  let ?c = "ata_command ATA_CMD_WRITE_PIO lba cnt s"
  have c: "ata_io_base ?c + ATA_REG_DATA = ata_io_base s" by (simp add: ata_command_def ata_outb_def Let_def ATA_REG_DATA_def)
  obtain k where "ata_write_loop d (unat cnt) buf ?c = Some (if length buf < 256 * unat cnt then Inl Out_of_bounds
      else Inr (?c\<lparr>ata_nb := k, ata_trace := ata_trace ?c @ map (Out_word (ata_io_base s)) (take (256 * unat cnt) buf)\<rparr>))"
    using write_loop_words [OF assms(3), of "unat cnt" buf ?c] unfolding c by blast
  then show ?thesis using assms(1,2) by (auto simp: ata_write_sectors_def)
qed

text \<open>
  Identifying a drive that exists reads 256 words into a structure of 121: whenever
  \<open>ata_init\<close> would report success on a fresh driver it has already written beyond it.
\<close>

theorem ata_init_overflows:
  assumes "\<not> ata_initialized s" "ata_init d slave s = Some r"
  shows "r = Inl Out_of_bounds \<or> (\<exists>s'. r = Inr (s', False) \<and> \<not> ata_initialized s')"
proof -
  obtain s3 x where s3: "ata_identify_drive d s3 = Some x" "ata_initialized s3 = ata_initialized s"
    "r = fault_bind x (\<lambda>(s4, found). if \<not> found then Inr (s4, False) else Inr (s4\<lparr>ata_initialized := True\<rparr>, True))"
    using assms wait_frame by (fastforce simp: ata_init_def Let_def ata_outb_def split: Option.bind_splits)
  from identify_result [OF s3(1)] s3(2,3) assms(1) show ?thesis by auto
qed

definition demo_drive :: drive where
  "demo_drive = \<lparr>status_reads = (\<lambda>_. 0x48), data_reads = (\<lambda>n. of_nat n)\<rparr>"

definition demo_ata :: ata where
  "demo_ata = \<lparr>ata_io_base = 0x1F0, ata_control_base = 0x3F6, ata_is_slave = False, ata_identify = replicate 121 0,
     ata_initialized = True, ata_trace = [], ata_nb = 0, ata_nw = 0\<rparr>"

lemma demo_drive_answers: "drive_answers demo_drive"
  by (auto simp: drive_answers_def demo_drive_def ATA_STATUS_BSY_def ATA_STATUS_DRQ_def)

theorem read_sectors_transfers_witness:
  "\<exists>s'. ata_read_sectors demo_drive 5 1 demo_ata = Some (s', Some (map of_nat [0..<256]))"
proof -
  have "ata_initialized demo_ata" "(1 :: u8) \<noteq> 0" by (simp_all add: demo_ata_def)
  from read_sectors_transfers [OF this demo_drive_answers, of 5]
  obtain s' where "ata_read_sectors demo_drive 5 1 demo_ata =
      Some (s', Some (map (data_reads demo_drive) [ata_nw demo_ata..<ata_nw demo_ata + 256 * unat (1 :: u8)]))" by blast
  then show ?thesis by (simp add: demo_ata_def demo_drive_def)
qed

theorem write_sectors_sends_witness:
  "ata_write_sectors demo_drive 5 1 [] demo_ata = Some (Inl Out_of_bounds)"
  using write_sectors_sends [of demo_ata 1 demo_drive 5 "[]"] demo_drive_answers by (simp add: demo_ata_def)

theorem ata_init_overflows_witness:
  "ata_init demo_drive False (demo_ata\<lparr>ata_initialized := False\<rparr>) = Some (Inl Out_of_bounds)"
proof -
  let ?s = "demo_ata\<lparr>ata_initialized := False\<rparr>"
  obtain r where r: "ata_init demo_drive False ?s = Some r" "\<forall>s'. r \<noteq> Inr (s', False)"
    by (simp add: ata_init_def demo_ata_def demo_drive_def Let_def ata_outb_def ata_wait_bsy_def ata_wait_drq_def
        ata_identify_drive_def wait_port.simps ATA_STATUS_BSY_def ATA_STATUS_DRQ_def ata_read_words_def IDENTIFY_WORDS_def)
  then show ?thesis using ata_init_overflows [of ?s demo_drive False r] by simp
qed

end
