(* ===== verification/Fat32.thy ===== *)
theory Fat32
  imports Net_Checksum
begin

unbundle bit_operations_syntax

text \<open>
  The FAT32 file system (\<^verbatim>\<open>fs/fat32.c\<close>). The disk is an argument \<open>rd\<close>, the four-argument
  \<open>ata_read_sectors\<close> of \<^verbatim>\<open>include/drivers/ata.h\<close> that this file calls (the driver defines another one):
  drive, first sector and 8-bit sector count give the bytes or nothing. Results of \<open>kmalloc\<close> are boolean
  arguments; \<open>junk\<close> is what the memory of the table held before. The statements of \<open>fat32_read_file\<close> that
  copy the data stand after the end of \<open>fat32_readdir\<close>, outside every function; they are modelled as
  \<open>copy_clusters\<close>. Walks along a cluster chain need not end and are partial. Shown here: on a volume with one
  sector per cluster and an acyclic chain, lookup, directory listing and copying agree with their
  specification over the contents of the chain; names round-trip; larger clusters overflow the buffer; a
  table of more than 255 sectors is read modulo 256.
\<close>

section \<open>State\<close>

definition FAT32_SIGNATURE :: u16 where "FAT32_SIGNATURE = 0xAA55"
definition FAT32_EOC :: u32 where "FAT32_EOC = 0x0FFFFFF8"

type_synonym disk = "u8 \<Rightarrow> u32 \<Rightarrow> u8 \<Rightarrow> u8 list option"

text \<open>The fields of the boot sector the code uses.\<close>

record boot_sector =
  sectors_per_cluster :: u8
  reserved_sectors :: u16
  num_fats :: u8
  total_sectors_32 :: u32
  sectors_per_fat_32 :: u32
  root_cluster :: u32

record fat32_fs =
  bpb :: boot_sector
  fat_table :: "u32 list"
  data_start :: u32
  clusters_count :: u32
  fat_drive :: u8
  fat_mounted :: bool
  cluster_buffer :: "u8 list"

definition CLUSTER_BUFFER_SIZE :: nat where "CLUSTER_BUFFER_SIZE = 512"

definition read_boot_sector :: "u8 list \<Rightarrow> boot_sector" where
  "read_boot_sector b =
     \<lparr>sectors_per_cluster = b ! 13, reserved_sectors = get16 b 14, num_fats = b ! 16, total_sectors_32 = get32 b 32,
      sectors_per_fat_32 = get32 b 36, root_cluster = get32 b 44\<rparr>"

text \<open>Directory entries of 32 bytes.\<close>

record dir_entry =
  de_name :: "u8 list"
  de_attributes :: u8
  de_cluster :: u32
  de_size :: u32

definition read_entry :: "u8 list \<Rightarrow> nat \<Rightarrow> dir_entry" where
  "read_entry b i = (let e = drop (32 * i) b in
     \<lparr>de_name = take 11 e, de_attributes = e ! 11, de_cluster = push_bit 16 (ucast (get16 e 20)) OR ucast (get16 e 26),
      de_size = get32 e 28\<rparr>)"

definition entries_of :: "u8 \<Rightarrow> u8 list \<Rightarrow> dir_entry list" where
  "entries_of spc b = map (read_entry b) [0..<512 * unat spc div 32]"

section \<open>Mounting\<close>

definition words_of :: "u8 list \<Rightarrow> u32 list" where
  "words_of b = map (\<lambda>i. get32 b (4 * i)) [0..<length b div 4]"

text \<open>A table of \<open>n\<close> words of which the bytes read cover the first ones.\<close>

definition load_table :: "(nat \<Rightarrow> u32) \<Rightarrow> nat \<Rightarrow> u8 list \<Rightarrow> u32 list" where
  "load_table junk n b = words_of b @ map junk [length b div 4..<n]"

definition fat32_init :: "bool \<Rightarrow> bool \<Rightarrow> bool \<Rightarrow> (nat \<Rightarrow> u32) \<Rightarrow> disk \<Rightarrow> u8 \<Rightarrow> fat32_fs \<Rightarrow> fault + fat32_fs \<times> bool" where
  "fat32_init m1 m2 m3 junk rd drive s =
     (if fat_mounted s then Inr (s, True)
      else if \<not> m1 then Inr (s, False)
      else case rd drive 0 1 of None \<Rightarrow> Inr (s, False)
      | Some b \<Rightarrow>
          if \<not> m2 then Inr (s\<lparr>cluster_buffer := b\<rparr>, False)
          else let p = read_boot_sector b; s1 = s\<lparr>cluster_buffer := b, bpb := p\<rparr> in
            if get16 b 510 \<noteq> FAT32_SIGNATURE then Inr (s1, False)
            else if sectors_per_cluster p = 0 then Inl Divide_error
            else let ds = ucast (reserved_sectors p) + ucast (num_fats p) * sectors_per_fat_32 p;
                     s2 = s1\<lparr>data_start := ds, clusters_count := (total_sectors_32 p - ds) div ucast (sectors_per_cluster p)\<rparr> in
              if \<not> m3 then Inr (s2, False)
              else case rd drive (ucast (reserved_sectors p)) (ucast (sectors_per_fat_32 p)) of None \<Rightarrow> Inr (s2, False)
              | Some t \<Rightarrow> Inr (s2\<lparr>fat_table := load_table junk (unat (sectors_per_fat_32 p * 512) div 4) t,
                                fat_drive := drive, fat_mounted := True\<rparr>, True))"

definition fat32_cluster_to_lba :: "u32 \<Rightarrow> fat32_fs \<Rightarrow> u32" where
  "fat32_cluster_to_lba cluster s = data_start s + (cluster - 2) * ucast (sectors_per_cluster (bpb s))"

text \<open>Reading a cluster into the cluster buffer, of 512 bytes whatever the cluster size.\<close>

definition fat32_read_cluster :: "disk \<Rightarrow> u32 \<Rightarrow> fat32_fs \<Rightarrow> fault + fat32_fs \<times> bool" where
  "fat32_read_cluster rd cluster s =
     (if \<not> fat_mounted s \<or> cluster < 2 \<or> cluster \<ge> clusters_count s + 2 then Inr (s, False)
      else case rd (fat_drive s) (fat32_cluster_to_lba cluster s) (sectors_per_cluster (bpb s)) of
        None \<Rightarrow> Inr (s, False)
      | Some b \<Rightarrow> if length b > CLUSTER_BUFFER_SIZE then Inl Out_of_bounds
          else Inr (s\<lparr>cluster_buffer := b @ drop (length b) (cluster_buffer s)\<rparr>, True))"

definition next_cluster :: "fat32_fs \<Rightarrow> u32 \<Rightarrow> fault + u32" where
  "next_cluster s c = (if unat c < length (fat_table s) then Inr (fat_table s ! unat c) else Inl Out_of_bounds)"

definition in_chain :: "u32 \<Rightarrow> bool" where
  "in_chain c \<longleftrightarrow> 2 \<le> c \<and> c < FAT32_EOC"

section \<open>Names\<close>

definition pad :: "nat \<Rightarrow> u8 list \<Rightarrow> u8 list" where
  "pad n xs = xs @ replicate (n - length xs) 0x20"

text \<open>A file name as the 11 bytes of a directory entry; letters keep their case.\<close>

definition fat_name :: "u8 list \<Rightarrow> u8 list" where
  "fat_name filename = (case first_index (\<lambda>c. c = 0x2E) filename of
      None \<Rightarrow> pad 8 (take 8 filename) @ pad 3 []
    | Some d \<Rightarrow> let ext = drop (Suc d) filename in
        pad 8 (take (min d 8) filename) @ (if length ext \<le> 3 then pad 3 ext else pad 3 []))"

text \<open>And back, as \<open>fat32_readdir\<close> prints it.\<close>

definition plain_name :: "u8 list \<Rightarrow> u8 list" where
  "plain_name n = takeWhile (\<lambda>c. c \<noteq> 0x20) (take 8 n) @
     (if n ! 8 \<noteq> 0x20 then 0x2E # takeWhile (\<lambda>c. c \<noteq> 0x20) (take 3 (drop 8 n)) else [])"

section \<open>Walking a chain\<close>

text \<open>The directory search of \<open>fat32_read_file\<close>: size and first cluster of the entry found.\<close>

partial_function (option) search_chain :: "disk \<Rightarrow> u8 list \<Rightarrow> u32 \<Rightarrow> fat32_fs \<Rightarrow> (fault + fat32_fs \<times> (u32 \<times> u32) option) option" where
  "search_chain rd name c s =
     (if \<not> in_chain c then Some (Inr (s, None))
      else case fat32_read_cluster rd c s of Inl e \<Rightarrow> Some (Inl e)
      | Inr (s1, ok) \<Rightarrow>
          if \<not> ok then Some (Inr (s1, None))
          else case List.find (\<lambda>e. de_name e = name) (entries_of (sectors_per_cluster (bpb s1)) (cluster_buffer s1)) of
            Some e \<Rightarrow> Some (Inr (s1, Some (de_size e, de_cluster e)))
          | None \<Rightarrow> (case next_cluster s1 c of Inl e \<Rightarrow> Some (Inl e) | Inr c' \<Rightarrow> search_chain rd name c' s1))"

text \<open>The function has no \<open>return\<close> after a file is found: the result is then \<open>ret\<close>, whatever it is.\<close>

definition fat32_read_file :: "bool \<Rightarrow> disk \<Rightarrow> u8 list option \<Rightarrow> fat32_fs \<Rightarrow> (fault + fat32_fs \<times> (u32 \<times> u32) option \<times> bool) option" where
  "fat32_read_file ret rd filename s =
     (if \<not> fat_mounted s \<or> filename = None then Some (Inr (s, None, False))
      else map_option (\<lambda>r. fault_bind r (\<lambda>(s1, found). Inr (s1, found, found \<noteq> None \<and> ret)))
        (search_chain rd (fat_name (the filename)) (root_cluster (bpb s)) s))"

text \<open>The entries that count for \<open>fat32_readdir\<close>: neither deleted nor a volume label.\<close>

definition visible_entry :: "dir_entry \<Rightarrow> bool" where
  "visible_entry e \<longleftrightarrow> de_name e ! 0 \<noteq> 0xE5 \<and> de_attributes e AND 0x08 = 0"

text \<open>The loop over one cluster: the entry with the index, the end marker, or the count so far.\<close>

datatype scan = Entry dir_entry | End_marker | Counted nat

fun scan_entries :: "nat \<Rightarrow> nat \<Rightarrow> dir_entry list \<Rightarrow> scan" where
  "scan_entries index n [] = Counted n"
| "scan_entries index n (e # es) =
     (if de_name e ! 0 = 0 then End_marker
      else if \<not> visible_entry e then scan_entries index n es
      else if n = index then Entry e
      else scan_entries index (Suc n) es)"

partial_function (option) readdir_chain :: "disk \<Rightarrow> nat \<Rightarrow> nat \<Rightarrow> u32 \<Rightarrow> fat32_fs \<Rightarrow> (fault + fat32_fs \<times> dir_entry option) option" where
  "readdir_chain rd index n c s =
     (if \<not> in_chain c then Some (Inr (s, None))
      else case fat32_read_cluster rd c s of Inl e \<Rightarrow> Some (Inl e)
      | Inr (s1, ok) \<Rightarrow>
          if \<not> ok then Some (Inr (s1, None))
          else case scan_entries index n (entries_of (sectors_per_cluster (bpb s1)) (cluster_buffer s1)) of
            End_marker \<Rightarrow> Some (Inr (s1, None))
          | Entry e \<Rightarrow> Some (Inr (s1, Some e))
          | Counted n' \<Rightarrow> (case next_cluster s1 c of Inl e \<Rightarrow> Some (Inl e) | Inr c' \<Rightarrow> readdir_chain rd index n' c' s1))"

text \<open>Name and first cluster of the entry.\<close>

definition fat32_readdir :: "disk \<Rightarrow> u32 option \<Rightarrow> nat \<Rightarrow> fat32_fs \<Rightarrow> (fault + fat32_fs \<times> (u8 list \<times> u32) option) option" where
  "fat32_readdir rd node index s = (case node of
      Some inode \<Rightarrow>
        if \<not> fat_mounted s then Some (Inr (s, None))
        else map_option (\<lambda>r. fault_bind r (\<lambda>(s1, e). Inr (s1, map_option (\<lambda>e. (plain_name (de_name e), de_cluster e)) e)))
          (readdir_chain rd index 0 inode s)
    | None \<Rightarrow> Some (Inr (s, None)))"

text \<open>The copying statements: \<open>acc\<close> is what they have put into the caller's buffer.\<close>

partial_function (option) copy_clusters :: "disk \<Rightarrow> nat \<Rightarrow> u32 \<Rightarrow> u8 list \<Rightarrow> fat32_fs \<Rightarrow> (fault + fat32_fs \<times> u8 list \<times> bool) option" where
  "copy_clusters rd remaining c acc s =
     (if \<not> (in_chain c \<and> remaining > 0) then Some (Inr (s, acc, True))
      else case fat32_read_cluster rd c s of Inl e \<Rightarrow> Some (Inl e)
      | Inr (s1, ok) \<Rightarrow>
          if \<not> ok then Some (Inr (s1, acc, False))
          else let to_copy = min remaining (512 * unat (sectors_per_cluster (bpb s1))) in
            (case next_cluster s1 c of Inl e \<Rightarrow> Some (Inl e)
             | Inr c' \<Rightarrow> copy_clusters rd (remaining - to_copy) c' (acc @ take to_copy (cluster_buffer s1)) s1))"

definition fat32_cleanup :: "fat32_fs \<Rightarrow> fat32_fs" where
  "fat32_cleanup s =
     (if \<not> fat_mounted s then s
      else s\<lparr>bpb := \<lparr>sectors_per_cluster = 0, reserved_sectors = 0, num_fats = 0, total_sectors_32 = 0, sectors_per_fat_32 = 0,
               root_cluster = 0\<rparr>, fat_table := [], data_start := 0, clusters_count := 0, fat_drive := 0, fat_mounted := False\<rparr>)"

definition fat32_is_mounted :: "fat32_fs \<Rightarrow> bool" where "fat32_is_mounted s = fat_mounted s"

section \<open>Names\<close>

lemma takeWhile_pad: "\<forall>c \<in> set xs. c \<noteq> 0x20 \<Longrightarrow> takeWhile (\<lambda>c. c \<noteq> 0x20) (xs @ replicate n 0x20) = xs"
  by (induction xs) (auto simp: takeWhile_eq_all_conv split: if_splits intro: takeWhile_eq_Nil_iff [THEN iffD2])

text \<open>
  A file name of one to eight and one to three characters, without blanks and with one dot, or of up to
  eight characters without a dot, is found again in the directory entry made for it.
\<close>

theorem name_roundtrip:
  assumes "length base \<le> 8" "\<forall>c \<in> set base. c \<noteq> 0x20 \<and> c \<noteq> 0x2E" "length ext \<le> 3" "\<forall>c \<in> set ext. c \<noteq> 0x20"
  shows "plain_name (fat_name base) = base \<and> (ext \<noteq> [] \<longrightarrow> plain_name (fat_name (base @ 0x2E # ext)) = base @ 0x2E # ext)"
proof -
  have none: "first_index (\<lambda>c. c = 0x2E) base = None" using assms(2) by (auto simp: first_index_None)
  have some: "first_index (\<lambda>c. c = 0x2E) (base @ 0x2E # ext) = Some (length base)"
    using assms(2) by (intro first_index_SomeI) (auto simp: nth_append)
  have len: "length (pad 8 base) = 8" using assms(1) by (simp add: pad_def)
  have p: "plain_name (pad 8 base @ pad 3 e) = base @ (if e = [] then [] else 0x2E # e)"
    if "length e \<le> 3" "\<forall>c \<in> set e. c \<noteq> 0x20" for e
  proof -
    have "takeWhile (\<lambda>c. c \<noteq> 0x20) (pad 8 base) = base" "takeWhile (\<lambda>c. c \<noteq> 0x20) (pad 3 e) = e"
      using assms(2) that(2) takeWhile_pad by (auto simp: pad_def)
    moreover have "length (pad 3 e) = 3" "(pad 8 base @ pad 3 e) ! 8 = pad 3 e ! 0"
      using that(1) len by (simp_all add: pad_def nth_append)
    moreover have "pad 3 e ! 0 \<noteq> 0x20 \<longleftrightarrow> e \<noteq> []" using that(2) by (cases e) (auto simp: pad_def)
    ultimately show ?thesis using len by (auto simp: plain_name_def)
  qed
  show ?thesis
    using p [of "[]"] p [OF assms(3,4)] none some assms(1,3) by (simp add: fat_name_def)
qed

section \<open>Chains and what they hold\<close>

inductive fat_chain :: "fat32_fs \<Rightarrow> u32 \<Rightarrow> u32 list \<Rightarrow> bool" for s where
  End: "\<not> in_chain c \<Longrightarrow> fat_chain s c []"
| Step: "in_chain c \<Longrightarrow> c < clusters_count s + 2 \<Longrightarrow> unat c < length (fat_table s) \<Longrightarrow> fat_chain s (fat_table s ! unat c) cs \<Longrightarrow>
     fat_chain s c (c # cs)"

definition cluster_data :: "disk \<Rightarrow> fat32_fs \<Rightarrow> u32 \<Rightarrow> u8 list" where
  "cluster_data rd s c = (case rd (fat_drive s) (fat32_cluster_to_lba c s) (sectors_per_cluster (bpb s)) of None \<Rightarrow> [] | Some b \<Rightarrow> b)"

text \<open>A mounted volume with one sector per cluster whose listed clusters can be read.\<close>

definition readable :: "disk \<Rightarrow> fat32_fs \<Rightarrow> u32 list \<Rightarrow> bool" where
  "readable rd s cs \<longleftrightarrow> fat_mounted s \<and> sectors_per_cluster (bpb s) = 1 \<and> length (cluster_buffer s) = CLUSTER_BUFFER_SIZE \<and>
     (\<forall>c \<in> set cs. \<exists>b. rd (fat_drive s) (fat32_cluster_to_lba c s) 1 = Some b \<and> length b = CLUSTER_BUFFER_SIZE)"

definition chain_entries :: "disk \<Rightarrow> fat32_fs \<Rightarrow> u32 list \<Rightarrow> dir_entry list" where
  "chain_entries rd s cs = concat (map (\<lambda>c. entries_of 1 (cluster_data rd s c)) cs)"

lemma read_cluster_data:
  assumes "readable rd s cs" "c \<in> set cs" "in_chain c" "c < clusters_count s + 2" "length buf = CLUSTER_BUFFER_SIZE"
  shows "fat32_read_cluster rd c (s\<lparr>cluster_buffer := buf\<rparr>) = Inr (s\<lparr>cluster_buffer := cluster_data rd s c\<rparr>, True) \<and>
    length (cluster_data rd s c) = CLUSTER_BUFFER_SIZE"
proof -
  obtain b where b: "rd (fat_drive s) (fat32_cluster_to_lba c s) 1 = Some b" "length b = CLUSTER_BUFFER_SIZE"
    using assms(1,2) by (auto simp: readable_def)
  have "fat32_cluster_to_lba c (s\<lparr>cluster_buffer := buf\<rparr>) = fat32_cluster_to_lba c s" by (simp add: fat32_cluster_to_lba_def)
  then show ?thesis using assms b
    by (auto simp: fat32_read_cluster_def cluster_data_def readable_def in_chain_def not_le not_less)
qed

lemma readable_Cons: "readable rd s (c # cs) \<Longrightarrow> readable rd s cs"
  by (simp add: readable_def)

lemma chain_entries_Cons [simp]:
  "chain_entries rd s (c # cs) = entries_of 1 (cluster_data rd s c) @ chain_entries rd s cs" "chain_entries rd s [] = []"
  by (simp_all add: chain_entries_def)

lemma find_append: "List.find P (xs @ ys) = (case List.find P xs of None \<Rightarrow> List.find P ys | Some x \<Rightarrow> Some x)"
  by (induction xs) auto

lemma search_chain_find:
  "fat_chain s c cs \<Longrightarrow> readable rd s cs \<Longrightarrow> length buf = CLUSTER_BUFFER_SIZE \<Longrightarrow>
     \<exists>buf'. search_chain rd name c (s\<lparr>cluster_buffer := buf\<rparr>) = Some (Inr (s\<lparr>cluster_buffer := buf'\<rparr>,
       map_option (\<lambda>e. (de_size e, de_cluster e)) (List.find (\<lambda>e. de_name e = name) (chain_entries rd s cs))))"
proof (induction arbitrary: buf rule: fat_chain.induct)
  case (End c)
  then show ?case by (subst search_chain.simps) auto
next
  case (Step c cs)
  let ?d = "cluster_data rd s c"
  have r: "fat32_read_cluster rd c (s\<lparr>cluster_buffer := buf\<rparr>) = Inr (s\<lparr>cluster_buffer := ?d\<rparr>, True)" "length ?d = CLUSTER_BUFFER_SIZE"
    using read_cluster_data [OF Step.prems(1) _ Step.hyps(1,2) Step.prems(2)] by simp_all
  have spc: "sectors_per_cluster (bpb s) = 1" using Step.prems(1) by (simp add: readable_def)
  obtain buf' where "search_chain rd name (fat_table s ! unat c) (s\<lparr>cluster_buffer := ?d\<rparr>) = Some (Inr (s\<lparr>cluster_buffer := buf'\<rparr>,
       map_option (\<lambda>e. (de_size e, de_cluster e)) (List.find (\<lambda>e. de_name e = name) (chain_entries rd s cs))))"
    using Step.IH [OF readable_Cons [OF Step.prems(1)] r(2)] by blast
  then show ?case using Step.hyps r spc
    by (subst search_chain.simps) (auto simp: find_append next_cluster_def split: option.splits)
qed

lemma scan_spec:
  "scan_entries index n es =
     (let live = takeWhile (\<lambda>e. de_name e ! 0 \<noteq> 0) es; vs = filter visible_entry live in
      if n \<le> index \<and> index < n + length vs then Entry (vs ! (index - n))
      else if live \<noteq> es then End_marker else Counted (n + length vs))"
proof (induction index n es rule: scan_entries.induct)
  case (2 index n e es)
  consider "de_name e ! 0 = 0" | "de_name e ! 0 \<noteq> 0" "\<not> visible_entry e" | "de_name e ! 0 \<noteq> 0" "visible_entry e" "n = index"
    | "de_name e ! 0 \<noteq> 0" "visible_entry e" "n \<noteq> index" by blast
  then show ?case
  proof cases
    case 1
    then show ?thesis by simp
  next
    case 2
    then show ?thesis using "2.IH"(1) by (simp add: Let_def)
  next
    case 3
    then show ?thesis by (simp add: Let_def)
  next
    case False: 4
    define live where "live = takeWhile (\<lambda>e. de_name e ! 0 \<noteq> 0) es"
    define vs where "vs = filter visible_entry live"
    have ih: "scan_entries index (Suc n) es = (if Suc n \<le> index \<and> index < Suc n + length vs then Entry (vs ! (index - Suc n))
        else if live \<noteq> es then End_marker else Counted (Suc n + length vs))"
      using "2.IH"(2) False unfolding Let_def live_def vs_def by blast
    have e: "takeWhile (\<lambda>e. de_name e ! 0 \<noteq> 0) (e # es) = e # live" "filter visible_entry (e # live) = e # vs"
      using False by (simp_all add: live_def vs_def)
    have "scan_entries index n (e # es) = scan_entries index (Suc n) es" using False by simp
    also have "\<dots> = (if n \<le> index \<and> index < n + length (e # vs) then Entry ((e # vs) ! (index - n))
        else if e # live \<noteq> e # es then End_marker else Counted (n + length (e # vs)))"
    proof (cases "n < index")
      case True
      then have "index - n = Suc (index - Suc n)" by simp
      then show ?thesis unfolding ih using True by simp
    next
      case less: False
      then show ?thesis unfolding ih using False by auto
    qed
    finally show ?thesis unfolding Let_def e .
  qed
qed (simp add: Let_def)

definition listing :: "dir_entry list \<Rightarrow> dir_entry list" where
  "listing es = filter visible_entry (takeWhile (\<lambda>e. de_name e ! 0 \<noteq> 0) es)"

lemma readdir_chain_nth:
  "fat_chain s c cs \<Longrightarrow> readable rd s cs \<Longrightarrow> length buf = CLUSTER_BUFFER_SIZE \<Longrightarrow> n \<le> index \<Longrightarrow>
     \<exists>buf'. readdir_chain rd index n c (s\<lparr>cluster_buffer := buf\<rparr>) = Some (Inr (s\<lparr>cluster_buffer := buf'\<rparr>,
       let vs = listing (chain_entries rd s cs) in if index - n < length vs then Some (vs ! (index - n)) else None))"
proof (induction arbitrary: buf n rule: fat_chain.induct)
  case (End c)
  then show ?case by (subst readdir_chain.simps) (auto simp: listing_def)
next
  case (Step c cs)
  let ?d = "cluster_data rd s c"
  let ?es = "entries_of 1 ?d"
  have r: "fat32_read_cluster rd c (s\<lparr>cluster_buffer := buf\<rparr>) = Inr (s\<lparr>cluster_buffer := ?d\<rparr>, True)" "length ?d = CLUSTER_BUFFER_SIZE"
    using read_cluster_data [OF Step.prems(1) _ Step.hyps(1,2) Step.prems(2)] by simp_all
  have spc: "sectors_per_cluster (bpb s) = 1" using Step.prems(1) by (simp add: readable_def)
  let ?live = "takeWhile (\<lambda>e. de_name e ! 0 \<noteq> 0) ?es"
  let ?m = "length (filter visible_entry ?live)"
  show ?case
  proof (cases "?live = ?es \<and> \<not> index < n + ?m")
    case True
    define vs where "vs = filter visible_entry ?es"
    have live1: "?live = ?es" using True by blast
    have live: "?live = ?es" "filter visible_entry ?live = vs" unfolding live1 vs_def by (rule refl)+
    have idx: "n + length vs \<le> index" using True unfolding live(2) by simp
    then have sc: "scan_entries index n ?es = Counted (n + length vs)" unfolding scan_spec Let_def live1 vs_def [symmetric] by simp
    from Step.IH [OF readable_Cons [OF Step.prems(1)] r(2) idx] obtain buf' where
      b: "readdir_chain rd index (n + length vs) (fat_table s ! unat c) (s\<lparr>cluster_buffer := ?d\<rparr>) = Some (Inr (s\<lparr>cluster_buffer := buf'\<rparr>,
       let vs' = listing (chain_entries rd s cs) in
         if index - (n + length vs) < length vs' then Some (vs' ! (index - (n + length vs))) else None))" by blast
    have "listing (?es @ chain_entries rd s cs) = vs @ listing (chain_entries rd s cs)"
      using live(1) by (simp add: listing_def takeWhile_append takeWhile_eq_all_conv vs_def)
    then have "(let ws = listing (chain_entries rd s (c # cs)) in if index - n < length ws then Some (ws ! (index - n)) else None) =
      (let vs' = listing (chain_entries rd s cs) in
         if index - (n + length vs) < length vs' then Some (vs' ! (index - (n + length vs))) else None)"
      using idx by (auto simp: Let_def nth_append)
    then show ?thesis using Step.hyps r spc sc b
      by (subst readdir_chain.simps) (auto simp: next_cluster_def)
  next
    case False
    have "listing (?es @ chain_entries rd s cs) = filter visible_entry ?live @
        (if ?live = ?es then listing (chain_entries rd s cs) else [])"
    proof (cases "?live = ?es")
      case True
      then have "takeWhile (\<lambda>e. de_name e ! 0 \<noteq> 0) (?es @ ys) = ?es @ takeWhile (\<lambda>e. de_name e ! 0 \<noteq> 0) ys" for ys
        unfolding takeWhile_eq_all_conv by (intro takeWhile_append2) blast
      then show ?thesis unfolding listing_def True by simp
    next
      case False
      then show ?thesis by (auto simp: listing_def takeWhile_append takeWhile_eq_all_conv)
    qed
    then show ?thesis using Step.hyps r spc False Step.prems(3)
      by (subst readdir_chain.simps) (auto simp: scan_spec Let_def nth_append)
  qed
qed

lemma copy_clusters_data:
  "fat_chain s c cs \<Longrightarrow> readable rd s cs \<Longrightarrow> length buf = CLUSTER_BUFFER_SIZE \<Longrightarrow>
     \<exists>buf'. copy_clusters rd n c acc (s\<lparr>cluster_buffer := buf\<rparr>) = Some (Inr (s\<lparr>cluster_buffer := buf'\<rparr>,
       acc @ take n (concat (map (cluster_data rd s) cs)), True))"
proof (induction arbitrary: buf n acc rule: fat_chain.induct)
  case (End c)
  then show ?case by (subst copy_clusters.simps) auto
next
  case (Step c cs)
  let ?d = "cluster_data rd s c"
  have r: "fat32_read_cluster rd c (s\<lparr>cluster_buffer := buf\<rparr>) = Inr (s\<lparr>cluster_buffer := ?d\<rparr>, True)" "length ?d = 512"
    using read_cluster_data [OF Step.prems(1) _ Step.hyps(1,2) Step.prems(2)] by (simp_all add: CLUSTER_BUFFER_SIZE_def)
  have spc: "sectors_per_cluster (bpb s) = 1" using Step.prems(1) by (simp add: readable_def)
  have l: "length ?d = CLUSTER_BUFFER_SIZE" using r(2) by (simp add: CLUSTER_BUFFER_SIZE_def)
  obtain buf' where b: "copy_clusters rd (n - min n 512) (fat_table s ! unat c) (acc @ take (min n 512) ?d) (s\<lparr>cluster_buffer := ?d\<rparr>) =
      Some (Inr (s\<lparr>cluster_buffer := buf'\<rparr>, (acc @ take (min n 512) ?d) @ take (n - min n 512) (concat (map (cluster_data rd s) cs)), True))"
    using Step.IH [OF readable_Cons [OF Step.prems(1)] l] by blast
  show ?case
  proof (cases "n = 0")
    case True
    then show ?thesis by (subst copy_clusters.simps) auto
  next
    case False
    then show ?thesis using Step.hyps r spc b
      by (subst copy_clusters.simps) (auto simp: next_cluster_def Let_def min_def)
  qed
qed

section \<open>Properties\<close>

lemma own_buffer: "s\<lparr>cluster_buffer := cluster_buffer s\<rparr> = s"
  by simp


text \<open>
  Looking up a file: the search returns size and first cluster of the first entry of the directory whose
  name is the 8.3 form of the one asked for, and reports failure exactly when there is none.
\<close>

theorem lookup_finds_entry:
  assumes "fat_chain s (root_cluster (bpb s)) cs" "readable rd s cs"
  shows "\<exists>buf. fat32_read_file ret rd (Some name) s = Some (Inr (s\<lparr>cluster_buffer := buf\<rparr>,
    case List.find (\<lambda>e. de_name e = fat_name name) (chain_entries rd s cs) of
      None \<Rightarrow> (None, False) | Some e \<Rightarrow> (Some (de_size e, de_cluster e), ret)))"
proof -
  have m: "fat_mounted s" and l: "length (cluster_buffer s) = CLUSTER_BUFFER_SIZE" using assms(2) by (simp_all add: readable_def)
  from search_chain_find [OF assms l, of "fat_name name"] show ?thesis
    using m by (auto simp: fat32_read_file_def split: option.splits)
qed

text \<open>
  Copying a file: the bytes put into the buffer are the first \<open>n\<close> bytes of the clusters of its chain,
  in order; a chain that is too short gives fewer bytes and still success.
\<close>

theorem copy_returns_contents:
  assumes "fat_chain s c cs" "readable rd s cs"
  shows "\<exists>buf. copy_clusters rd n c [] s = Some (Inr (s\<lparr>cluster_buffer := buf\<rparr>,
    take n (concat (map (cluster_data rd s) cs)), True))"
proof -
  have "length (cluster_buffer s) = CLUSTER_BUFFER_SIZE" using assms(2) by (simp add: readable_def)
  from copy_clusters_data [OF assms this, of n "[]"] show ?thesis by simp
qed

text \<open>A cluster of more than one sector does not fit into the cluster buffer.\<close>

theorem large_clusters_overflow:
  assumes "fat_mounted s" "sectors_per_cluster (bpb s) > 1" "2 \<le> c" "c < clusters_count s + 2"
    "rd (fat_drive s) (fat32_cluster_to_lba c s) (sectors_per_cluster (bpb s)) = Some b"
    "length b = 512 * unat (sectors_per_cluster (bpb s))"
  shows "fat32_read_cluster rd c s = Inl Out_of_bounds"
proof -
  have "1 < unat (sectors_per_cluster (bpb s))" using assms(2) by (simp add: word_less_nat_alt)
  then show ?thesis using assms by (auto simp: fat32_read_cluster_def CLUSTER_BUFFER_SIZE_def not_le not_less)
qed

text \<open>
  Mounting reads the table with an 8-bit sector count: of a table of more than 255 sectors only the
  count modulo 256 is read and the other entries are what the memory held before.
\<close>

theorem long_table_truncated:
  assumes "fat32_init True True True junk rd drive s = Inr (s', True)" "\<not> fat_mounted s"
    "\<And>lba n b. rd drive lba n = Some b \<Longrightarrow> length b = 512 * unat n"
    "128 * (unat (sectors_per_fat_32 (bpb s')) mod 256) \<le> i" "i < unat (sectors_per_fat_32 (bpb s') * 512) div 4"
  shows "fat_table s' ! i = junk i"
proof -
  obtain b t where b: "rd drive 0 1 = Some b" and t: "rd drive (ucast (reserved_sectors (bpb s'))) (ucast (sectors_per_fat_32 (bpb s'))) = Some t"
    and s': "fat_table s' = load_table junk (unat (sectors_per_fat_32 (bpb s') * 512) div 4) t"
    using assms(1,2) by (auto simp: fat32_init_def Let_def split: option.splits if_splits)
  have "unat (ucast (sectors_per_fat_32 (bpb s')) :: u8) = unat (sectors_per_fat_32 (bpb s')) mod 256"
    by (simp add: unsigned_ucast_eq take_bit_eq_mod)
  then have "length t div 4 = 128 * (unat (sectors_per_fat_32 (bpb s')) mod 256)" using assms(3) [OF t] by simp
  then show ?thesis using assms(4,5) by (simp add: s' load_table_def words_of_def nth_append)
qed

section \<open>Instances\<close>

definition demo_disk :: disk where
  "demo_disk drive lba n = Some (replicate (512 * unat n) 0x41)"

definition demo_fat :: fat32_fs where
  "demo_fat = \<lparr>bpb = \<lparr>sectors_per_cluster = 1, reserved_sectors = 1, num_fats = 1, total_sectors_32 = 10, sectors_per_fat_32 = 1,
     root_cluster = 2\<rparr>, fat_table = [0, 0, 3, 0x0FFFFFFF], data_start = 2, clusters_count = 8, fat_drive = 0, fat_mounted = True,
     cluster_buffer = replicate 512 0\<rparr>"

lemma demo_chain: "fat_chain demo_fat 2 [2, 3]"
proof -
  have e: "fat_chain demo_fat 0x0FFFFFFF []" by (rule fat_chain.End) (simp add: in_chain_def FAT32_EOC_def)
  have "fat_chain demo_fat 3 [3]"
    by (rule fat_chain.Step) (use e in \<open>simp_all add: demo_fat_def in_chain_def FAT32_EOC_def\<close>)
  then show ?thesis
    by (intro fat_chain.Step) (simp_all add: demo_fat_def in_chain_def FAT32_EOC_def)
qed

lemma demo_readable: "readable demo_disk demo_fat cs"
  by (simp add: readable_def demo_fat_def demo_disk_def CLUSTER_BUFFER_SIZE_def)


theorem copy_returns_contents_witness:
  "\<exists>s'. copy_clusters demo_disk 600 2 [] demo_fat = Some (Inr (s', replicate 600 0x41, True))"
  using copy_returns_contents [OF demo_chain demo_readable, of 600]
  by (auto simp: cluster_data_def demo_disk_def demo_fat_def replicate_add [symmetric])

theorem name_roundtrip_witness:
  "plain_name (fat_name [0x41, 0x42, 0x2E, 0x43]) = [0x41, 0x42, 0x2E, 0x43]"
  using name_roundtrip [of "[0x41, 0x42]" "[0x43]"] by simp

theorem lookup_finds_entry_witness:
  "\<exists>s' r. fat32_read_file True demo_disk (Some [0x41]) demo_fat = Some (Inr (s', r))"
proof -
  have "fat_chain demo_fat (root_cluster (bpb demo_fat)) [2, 3]" using demo_chain by (simp add: demo_fat_def)
  from lookup_finds_entry [OF this demo_readable, of True "[0x41]"] show ?thesis by blast
qed

end
