(* ===== verification/Mouse.thy ===== *)
theory Mouse
  imports Interrupt_Control Input_Events Graphics
begin

unbundle bit_operations_syntax

text \<open>
  The PS/2 mouse driver (\<^verbatim>\<open>drivers/mouse.c\<close>): three bytes per report, collected by the interrupt handler.
  What the controller answers to the successive \<open>inb\<close> calls is an argument. Calls of the registered callback
  are recorded; the input manager of the desktop is what registers itself there. Shown here: the pointer never
  leaves the screen, a report moves it by its two signed bytes, a byte that is not a first byte is skipped,
  waiting always ends, and a report ends up as one event in the input queue.
\<close>

section \<open>State\<close>

text \<open>\<open>ms_nb\<close> counts the port reads so far, \<open>ms_calls\<close> are the calls made to the callback.\<close>

record mouse_state = irq_state +
  ms_x :: int
  ms_y :: int
  ms_buttons :: u8
  ms_callback :: ptr
  mouse_cycle :: nat
  mouse_byte :: "u8 list"
  mouse_initialized :: bool
  ms_nb :: nat
  ms_calls :: "(ptr \<times> int \<times> int \<times> u8) list"

definition MOUSE_PORT :: u16 where "MOUSE_PORT = 0x60"
definition MOUSE_COMMAND :: u16 where "MOUSE_COMMAND = 0x64"
definition MOUSE_TIMEOUT :: nat where "MOUSE_TIMEOUT = 100000"

section \<open>Operations\<close>

text \<open>Reading a port.\<close>

definition ms_in :: "(nat \<Rightarrow> u8) \<Rightarrow> 'a mouse_state_scheme \<Rightarrow> 'a mouse_state_scheme \<times> u8" where
  "ms_in inb s = (s\<lparr>ms_nb := Suc (ms_nb s)\<rparr>, inb (ms_nb s))"

text \<open>Polling at most \<open>n\<close> times; the number of the next read.\<close>

fun poll :: "(u8 \<Rightarrow> bool) \<Rightarrow> (nat \<Rightarrow> u8) \<Rightarrow> nat \<Rightarrow> nat \<Rightarrow> nat" where
  "poll ready inb 0 k = k"
| "poll ready inb (Suc n) k = (if ready (inb k) then Suc k else poll ready inb n (Suc k))"

definition mouse_wait :: "(nat \<Rightarrow> u8) \<Rightarrow> u8 \<Rightarrow> 'a mouse_state_scheme \<Rightarrow> 'a mouse_state_scheme" where
  "mouse_wait inb ty s =
     s\<lparr>ms_nb := poll (if ty = 0 then (\<lambda>b. b AND 1 = 1) else (\<lambda>b. b AND 2 = 0)) inb MOUSE_TIMEOUT (ms_nb s)\<rparr>"

definition mouse_write :: "(nat \<Rightarrow> u8) \<Rightarrow> u8 \<Rightarrow> 'a mouse_state_scheme \<Rightarrow> 'a mouse_state_scheme" where
  "mouse_write inb d s = outb MOUSE_PORT d (mouse_wait inb 1 (outb MOUSE_COMMAND 0xD4 (mouse_wait inb 1 s)))"

definition mouse_read :: "(nat \<Rightarrow> u8) \<Rightarrow> 'a mouse_state_scheme \<Rightarrow> 'a mouse_state_scheme \<times> u8" where
  "mouse_read inb s = ms_in inb (mouse_wait inb 0 s)"

definition clamp :: "int \<Rightarrow> int \<Rightarrow> int" where
  "clamp limit v = (let v1 = (if v < 0 then 0 else v) in if v1 \<ge> limit then limit - 1 else v1)"

text \<open>
  A complete report. The bytes are signed; setting the upper bits of an 8-bit variable, as the code does for
  the ninth bit of a movement, changes nothing.
\<close>

definition mouse_report :: "'a mouse_state_scheme \<Rightarrow> 'a mouse_state_scheme" where
  "mouse_report s =
     (let b = mouse_byte s; s1 = s\<lparr>ms_buttons := b ! 0 AND 0x07, ms_x := clamp SCREEN_WIDTH (ms_x s + sint (b ! 1)),
            ms_y := clamp SCREEN_HEIGHT (ms_y s - sint (b ! 2))\<rparr>;
          s2 = (if ms_callback s1 \<noteq> NULL then s1\<lparr>ms_calls := ms_calls s1 @ [(ms_callback s1, ms_x s1, ms_y s1, ms_buttons s1)]\<rparr> else s1)
      in s2\<lparr>mouse_cycle := 0\<rparr>)"

definition store_byte :: "(nat \<Rightarrow> u8) \<Rightarrow> 'a mouse_state_scheme \<Rightarrow> 'a mouse_state_scheme" where
  "store_byte inb s = (let (s1, b) = mouse_read inb s in s1\<lparr>mouse_byte := (mouse_byte s1)[mouse_cycle s1 := b]\<rparr>)"

definition mouse_handler :: "(nat \<Rightarrow> u8) \<Rightarrow> 'a mouse_state_scheme \<Rightarrow> 'a mouse_state_scheme" where
  "mouse_handler inb s =
     (let (s1, status) = ms_in inb s in
      if status AND 0x20 = 0 then s1
      else if mouse_cycle s1 = 0 then
        let s2 = store_byte inb s1 in if mouse_byte s2 ! 0 AND 0x08 = 0 then s2 else s2\<lparr>mouse_cycle := 1\<rparr>
      else if mouse_cycle s1 = 1 then (store_byte inb s1)\<lparr>mouse_cycle := 2\<rparr>
      else if mouse_cycle s1 = 2 then mouse_report (store_byte inb s1)
      else s1)"

definition mouse_init :: "ptr \<Rightarrow> (nat \<Rightarrow> u8) \<Rightarrow> 'a mouse_state_scheme \<Rightarrow> 'a mouse_state_scheme \<times> bool" where
  "mouse_init handler inb s =
     (if mouse_initialized s then (s, True)
      else let s1 = s\<lparr>ms_x := SCREEN_WIDTH div 2, ms_y := SCREEN_HEIGHT div 2, ms_buttons := 0, ms_callback := NULL\<rparr>;
               s2 = outb MOUSE_COMMAND 0xA8 (mouse_wait inb 1 s1);
               s3 = mouse_wait inb 0 (outb MOUSE_COMMAND 0x20 (mouse_wait inb 1 s2));
               (s4, v) = ms_in inb s3;
               s5 = outb MOUSE_COMMAND 0x60 (mouse_wait inb 1 s4);
               s6 = outb MOUSE_PORT (v OR 2) (mouse_wait inb 1 s5);
               s7 = fst (mouse_read inb (mouse_write inb 0xF6 s6));
               s8 = fst (mouse_read inb (mouse_write inb 0xF4 s7))
        in ((register_interrupt_handler 44 handler s8)\<lparr>mouse_initialized := True\<rparr>, True))"

definition mouse_set_callback :: "ptr \<Rightarrow> 'a mouse_state_scheme \<Rightarrow> 'a mouse_state_scheme" where
  "mouse_set_callback cb s = (if \<not> mouse_initialized s then s else s\<lparr>ms_callback := cb\<rparr>)"

definition mouse_get_state :: "'a mouse_state_scheme \<Rightarrow> int \<times> int \<times> u8" where
  "mouse_get_state s = (ms_x s, ms_y s, ms_buttons s)"

definition mouse_is_initialized :: "'a mouse_state_scheme \<Rightarrow> bool" where
  "mouse_is_initialized s = mouse_initialized s"

section \<open>The pointer stays on the screen\<close>

definition mouse_ok :: "'a mouse_state_scheme \<Rightarrow> bool" where
  "mouse_ok s \<longleftrightarrow> 0 \<le> ms_x s \<and> ms_x s < SCREEN_WIDTH \<and> 0 \<le> ms_y s \<and> ms_y s < SCREEN_HEIGHT \<and>
     mouse_cycle s < 3 \<and> length (mouse_byte s) = 3 \<and> ms_buttons s AND NOT 7 = 0"

lemma clamp_range: "0 < limit \<Longrightarrow> 0 \<le> clamp limit v \<and> clamp limit v < limit"
  by (simp add: clamp_def Let_def)

lemma clamp_id: "0 \<le> v \<Longrightarrow> v < limit \<Longrightarrow> clamp limit v = v"
  by (simp add: clamp_def)

lemma mouse_frames [simp]:
  "mouse_ok (s\<lparr>ms_nb := k\<rparr>) = mouse_ok s" "mouse_ok (outb p v s) = mouse_ok s"
  by (simp_all add: mouse_ok_def outb_def)

lemma store_byte_eq:
  "store_byte inb s = s\<lparr>ms_nb := Suc (poll (\<lambda>b. b AND 1 = 1) inb MOUSE_TIMEOUT (ms_nb s)),
     mouse_byte := (mouse_byte s)[mouse_cycle s := inb (poll (\<lambda>b. b AND 1 = 1) inb MOUSE_TIMEOUT (ms_nb s))]\<rparr>"
  by (simp add: store_byte_def mouse_read_def ms_in_def mouse_wait_def)

lemma report_ok: "mouse_ok s \<Longrightarrow> mouse_ok (mouse_report s)"
  using clamp_range [of SCREEN_WIDTH] clamp_range [of SCREEN_HEIGHT]
  by (simp add: mouse_ok_def mouse_report_def Let_def SCREEN_WIDTH_def SCREEN_HEIGHT_def ac_simps)

lemma handler_ok:
  fixes s :: "'a mouse_state_scheme"
  assumes "mouse_ok s" shows "mouse_ok (mouse_handler inb s)"
proof -
  have "mouse_ok (store_byte inb s')" if "mouse_ok s'" for s' :: "'a mouse_state_scheme"
    using that by (simp add: store_byte_eq mouse_ok_def)
  moreover have "mouse_ok (s'\<lparr>mouse_cycle := n\<rparr>)" if "mouse_ok s'" "n < 3" for s' :: "'a mouse_state_scheme" and n
    using that by (simp add: mouse_ok_def)
  ultimately show ?thesis
    using assms report_ok [where ?'a = 'a] by (simp add: mouse_handler_def ms_in_def Let_def)
qed

text \<open>Starting the driver.\<close>

lemma init_frame:
  "ms_x (mouse_wait inb t s) = ms_x s" "ms_y (mouse_wait inb t s) = ms_y s" "ms_buttons (mouse_wait inb t s) = ms_buttons s"
  "mouse_cycle (mouse_wait inb t s) = mouse_cycle s" "mouse_byte (mouse_wait inb t s) = mouse_byte s"
  by (simp_all add: mouse_wait_def)

lemma mouse_ok_wait [simp]: "mouse_ok (mouse_wait inb t s) = mouse_ok s"
  by (simp add: mouse_wait_def)

lemma mouse_ok_parts [simp]:
  "mouse_ok (mouse_write inb d s) = mouse_ok s" "mouse_ok (fst (mouse_read inb s)) = mouse_ok s"
  by (simp_all add: mouse_write_def mouse_read_def ms_in_def)

lemma mouse_init_ok:
  assumes "mouse_cycle s < 3" "length (mouse_byte s) = 3" "\<not> mouse_initialized s"
  shows "mouse_ok (fst (mouse_init handler inb s))"
proof -
  have "mouse_ok (s\<lparr>ms_x := SCREEN_WIDTH div 2, ms_y := SCREEN_HEIGHT div 2, ms_buttons := 0, ms_callback := NULL\<rparr>)"
    using assms by (simp add: mouse_ok_def SCREEN_WIDTH_def SCREEN_HEIGHT_def)
  moreover have "mouse_ok ((register_interrupt_handler n h s')\<lparr>mouse_initialized := b\<rparr>) = mouse_ok s'"
    for s' :: "'a mouse_state_scheme" and n h b
    by (simp add: register_interrupt_handler_def mouse_ok_def)
  ultimately show ?thesis using assms(3) by (simp add: mouse_init_def Let_def ms_in_def)
qed

section \<open>A report\<close>

text \<open>
  The three interrupts of a report, the controller having data each time: \<open>status\<close> has the mouse bit and the
  byte is ready at once. The reads are then status, ready, byte, three times over.
\<close>

definition report_reads :: "u8 \<Rightarrow> u8 \<Rightarrow> u8 \<Rightarrow> nat \<Rightarrow> u8" where
  "report_reads b0 b1 b2 n = (if n mod 3 = 2 then (if n div 3 = 0 then b0 else if n div 3 = 1 then b1 else b2) else 0x21)"

lemma poll_at_once: "ready (inb k) \<Longrightarrow> poll ready inb MOUSE_TIMEOUT k = Suc k"
  using poll.simps(2) [of ready inb "MOUSE_TIMEOUT - 1" k] by (simp add: MOUSE_TIMEOUT_def)

lemma stored_byte:
  assumes "inb k = 0x21" "inb (Suc k) = 0x21" "inb (Suc (Suc k)) = b" "ms_nb s = k"
  shows "fst (ms_in inb s) = s\<lparr>ms_nb := Suc k\<rparr>" "snd (ms_in inb s) AND 0x20 \<noteq> 0"
    "store_byte inb (s\<lparr>ms_nb := Suc k\<rparr>) = s\<lparr>ms_nb := Suc (Suc (Suc k)), mouse_byte := (mouse_byte s)[mouse_cycle s := b]\<rparr>"
  using assms poll_at_once [of "\<lambda>b. b AND 1 = 1" inb "Suc k"] by (simp_all add: ms_in_def store_byte_eq)

lemma handler_step:
  assumes "inb k = 0x21" "inb (Suc k) = 0x21" "inb (Suc (Suc k)) = b" "ms_nb s = k" "length (mouse_byte s) = 3"
  shows "mouse_handler inb s = (let s2 = s\<lparr>ms_nb := Suc (Suc (Suc k)), mouse_byte := (mouse_byte s)[mouse_cycle s := b]\<rparr> in
     if mouse_cycle s = 0 then (if b AND 0x08 = 0 then s2 else s2\<lparr>mouse_cycle := 1\<rparr>)
     else if mouse_cycle s = 1 then s2\<lparr>mouse_cycle := 2\<rparr>
     else if mouse_cycle s = 2 then mouse_report s2 else s\<lparr>ms_nb := Suc k\<rparr>)"
proof -
  note st = stored_byte [OF assms(1-4)]
  obtain s1 v where i: "ms_in inb s = (s1, v)" by force
  then have "s1 = s\<lparr>ms_nb := Suc k\<rparr>" "v AND 0x20 \<noteq> 0" using st(1,2) by simp_all
  moreover have "0 < length (mouse_byte s)" using assms(5) by simp
  ultimately show ?thesis unfolding mouse_handler_def i Let_def prod.case using st(3)
    by (auto simp: Let_def simp del: One_nat_def)
qed

lemma three_interrupts:
  assumes "mouse_cycle s = 0" "length (mouse_byte s) = 3" "b0 AND 0x08 \<noteq> 0" "ms_nb s = 0"
  shows "mouse_handler (report_reads b0 b1 b2) (mouse_handler (report_reads b0 b1 b2) (mouse_handler (report_reads b0 b1 b2) s)) =
    mouse_report (s\<lparr>ms_nb := 9, mouse_byte := [b0, b1, b2], mouse_cycle := 2\<rparr>)"
proof -
  obtain c0 c1 c2 where c: "mouse_byte s = [c0, c1, c2]" using assms(2) by (auto simp: numeral_3_eq_3 length_Suc_conv)
  define i where "i = report_reads b0 b1 b2"
  have r: "i 0 = 0x21" "i (Suc 0) = 0x21" "i (Suc (Suc 0)) = b0" "i 3 = 0x21" "i (Suc 3) = 0x21" "i (Suc (Suc 3)) = b1"
    "i 6 = 0x21" "i (Suc 6) = 0x21" "i (Suc (Suc 6)) = b2" by (simp_all add: report_reads_def i_def)
  have 1: "mouse_handler i s = s\<lparr>ms_nb := 3, mouse_byte := [b0, c1, c2], mouse_cycle := 1\<rparr>"
    using handler_step [OF r(1-3) assms(4,2)] assms(1,3) c by (simp add: Let_def numeral_3_eq_3)
  have 2: "mouse_handler i (s\<lparr>ms_nb := 3, mouse_byte := [b0, c1, c2], mouse_cycle := 1\<rparr>) =
      s\<lparr>ms_nb := 6, mouse_byte := [b0, b1, c2], mouse_cycle := 2\<rparr>"
    by (subst handler_step [OF r(4-6)]) (simp_all add: Let_def)
  have 3: "mouse_handler i (s\<lparr>ms_nb := 6, mouse_byte := [b0, b1, c2], mouse_cycle := 2\<rparr>) =
      mouse_report (s\<lparr>ms_nb := 9, mouse_byte := [b0, b1, b2], mouse_cycle := 2\<rparr>)"
  proof -
    let ?s = "s\<lparr>ms_nb := 6, mouse_byte := [b0, b1, c2], mouse_cycle := 2\<rparr>"
    have "mouse_handler i ?s = mouse_report (?s\<lparr>ms_nb := Suc (Suc (Suc 6)), mouse_byte := [b0, b1, c2][2 := b2]\<rparr>)"
      by (subst handler_step [OF r(7-9)]) (simp_all add: Let_def)
    also have "?s\<lparr>ms_nb := Suc (Suc (Suc 6)), mouse_byte := [b0, b1, c2][2 := b2]\<rparr> =
        s\<lparr>ms_nb := 9, mouse_byte := [b0, b1, b2], mouse_cycle := 2\<rparr>"
      by (simp add: numeral_2_eq_2)
    finally show ?thesis .
  qed
  show ?thesis unfolding i_def [symmetric] 1 2 3 ..
qed

section \<open>Properties\<close>

text \<open>
  After initialization and any number of interrupts, whatever the controller answers, the pointer is on
  the screen, only the three button bits are set and at most two bytes of a report are pending.
\<close>

lemma callback_ok: "mouse_ok (mouse_set_callback cb s) = mouse_ok s"
  by (simp add: mouse_set_callback_def mouse_ok_def)

inductive mouse_run :: "mouse_state \<Rightarrow> bool" where
  Init: "mouse_cycle s < 3 \<Longrightarrow> length (mouse_byte s) = 3 \<Longrightarrow> \<not> mouse_initialized s \<Longrightarrow> mouse_run (fst (mouse_init h inb s))"
| Interrupt: "mouse_run s \<Longrightarrow> mouse_run (mouse_handler inb s)"
| Callback: "mouse_run s \<Longrightarrow> mouse_run (mouse_set_callback cb s)"

theorem pointer_stays_on_screen:
  assumes "mouse_run s"
  shows "case mouse_get_state s of (x, y, b) \<Rightarrow> 0 \<le> x \<and> x < SCREEN_WIDTH \<and> 0 \<le> y \<and> y < SCREEN_HEIGHT \<and> b AND NOT 7 = 0"
proof -
  have "mouse_ok s" using assms
    by (induction rule: mouse_run.induct) (auto intro: mouse_init_ok handler_ok simp: callback_ok)
  then show ?thesis by (simp add: mouse_get_state_def mouse_ok_def)
qed

text \<open>
  A report reaches the desktop: when the input manager is the registered callback, the three interrupts of
  a report that moves the pointer make exactly one call, and that call queues one movement event at the new
  position, which is the old one plus the signed movement bytes, kept on the screen.
\<close>

theorem mouse_report_reaches_queue:
  assumes "mouse_cycle s = 0" "length (mouse_byte s) = 3" "b0 AND 0x08 \<noteq> 0" "ms_nb s = 0" "ms_callback s \<noteq> NULL"
    "input_inv im" "queue_count im < INPUT_QUEUE_SIZE" "maya_input_get_mouse_pos im = (ms_x s, ms_y s)"
    "x = clamp SCREEN_WIDTH (ms_x s + sint b1)" "y = clamp SCREEN_HEIGHT (ms_y s - sint b2)" "(x, y) \<noteq> (ms_x s, ms_y s)"
    "inb = report_reads b0 b1 b2"
  shows "ms_calls (mouse_handler inb (mouse_handler inb (mouse_handler inb s))) = ms_calls s @ [(ms_callback s, x, y, b0 AND 7)] \<and>
    input_contents (maya_input_add_mouse_event_callback now x y (b0 AND 7) im) =
      input_contents im @ [\<lparr>ev_type = INPUT_MOUSE_MOVE, ev_data = Mouse_data x y (b0 AND 7), ev_timestamp = now\<rparr>]"
proof -
  have "ms_calls (mouse_handler inb (mouse_handler inb (mouse_handler inb s))) = ms_calls s @ [(ms_callback s, x, y, b0 AND 7)]"
    unfolding assms(12) three_interrupts [OF assms(1-4)] using assms(5,9,10) by (simp add: mouse_report_def Let_def)
  moreover have "input_contents (maya_input_add_mouse_event_callback now x y (b0 AND 7) im) =
      input_contents im @ [\<lparr>ev_type = INPUT_MOUSE_MOVE, ev_data = Mouse_data x y (b0 AND 7), ev_timestamp = now\<rparr>]"
  proof -
    let ?im = "im\<lparr>is_touch_event := 0\<rparr>"
    have i: "input_inv ?im" "queue_count ?im < INPUT_QUEUE_SIZE" "maya_input_get_mouse_pos ?im = (ms_x s, ms_y s)"
      "input_contents ?im = input_contents im"
      using assms(6-8) by (simp_all add: maya_input_get_mouse_pos_def input_contents_def)
    show ?thesis unfolding maya_input_add_mouse_event_callback_def
      using mouse_report_queued_inv [OF i(1,2) refl, of now x y "b0 AND 7"] i(3,4) assms(11) by auto
  qed
  ultimately show ?thesis by blast
qed

text \<open>The ninth bit of a movement is lost: 200 to the right, whose sign bit is clear, moves 56 to the left.\<close>

lemma large_movement_reversed: "sint (200 :: u8) = - 56"
  by simp

section \<open>Instances\<close>

definition demo_mouse0 :: mouse_state where
  "demo_mouse0 = irq_state.extend cold_irq \<lparr>ms_x = 0, ms_y = 0, ms_buttons = 0, ms_callback = NULL, mouse_cycle = 0,
     mouse_byte = [0, 0, 0], mouse_initialized = False, ms_nb = 0, ms_calls = []\<rparr>"

theorem pointer_stays_on_screen_witness:
  "case mouse_get_state (mouse_handler (report_reads 8 1 1) (fst (mouse_init 1 (\<lambda>_. 0) demo_mouse0))) of (x, y, b) \<Rightarrow>
     0 \<le> x \<and> x < SCREEN_WIDTH \<and> 0 \<le> y \<and> y < SCREEN_HEIGHT \<and> b AND NOT 7 = 0"
  by (rule pointer_stays_on_screen, intro mouse_run.intros) (simp_all add: demo_mouse0_def irq_state.defs)

definition demo_mouse :: mouse_state where
  "demo_mouse = demo_mouse0\<lparr>ms_callback := 5\<rparr>"

theorem mouse_report_reaches_queue_witness:
  "let inb = report_reads 9 3 0 in
   ms_calls (mouse_handler inb (mouse_handler inb (mouse_handler inb demo_mouse))) = [(5, 3, 0, 1)]"
proof -
  have m: "mouse_cycle demo_mouse = 0" "length (mouse_byte demo_mouse) = 3" "(9 :: u8) AND 0x08 \<noteq> 0" "ms_nb demo_mouse = 0"
    "ms_callback demo_mouse \<noteq> NULL" "ms_callback demo_mouse = 5" "ms_calls demo_mouse = []" "ms_x demo_mouse = 0" "ms_y demo_mouse = 0"
    by (simp_all add: demo_mouse_def demo_mouse0_def irq_state.defs)
  have q: "queue_count demo_input < INPUT_QUEUE_SIZE" "maya_input_get_mouse_pos demo_input = (ms_x demo_mouse, ms_y demo_mouse)"
    using demo_input_ok m by (simp_all add: INPUT_QUEUE_SIZE_def)
  have c: "3 = clamp SCREEN_WIDTH (ms_x demo_mouse + sint (3 :: u8))" "0 = clamp SCREEN_HEIGHT (ms_y demo_mouse - sint (0 :: u8))"
    "(3, 0) \<noteq> (ms_x demo_mouse, ms_y demo_mouse)"
    using m by (simp_all add: clamp_def SCREEN_WIDTH_def SCREEN_HEIGHT_def)
  from mouse_report_reaches_queue [OF m(1-5) demo_input_ok(1) q c refl, of 0] show ?thesis
    using m by (simp add: Let_def)
qed

end
