(* ===== verification/Clocks.thy ===== *)
theory Clocks
  imports Maya_Prelude
begin

unbundle bit_operations_syntax

text \<open>
  The interval timer and the real time clock (\<^verbatim>\<open>drivers/pit.c\<close>, \<^verbatim>\<open>drivers/timer.c\<close>, \<^verbatim>\<open>drivers/rtc.c\<close>). Port
  writes are recorded; what the clock answers is an argument. Callbacks of the timer are recorded, not run.
  The number of callback slots, which no file defines, is the length of the lists. Shown here: the divisor
  programmed, the exact rhythm of the callbacks, how long a wait takes, and that the BCD conversion inverts
  the encoding of every two-digit number.
\<close>

section \<open>The interval timer\<close>

definition PIT_CHANNEL0 :: u16 where "PIT_CHANNEL0 = 0x40"
definition PIT_COMMAND :: u16 where "PIT_COMMAND = 0x43"
definition PIT_BASE_FREQUENCY :: u32 where "PIT_BASE_FREQUENCY = 1193182"
definition PIT_MODE_SQUARE_WAVE :: u8 where "PIT_MODE_SQUARE_WAVE = 0x36"

record pit =
  pit_ticks :: u32
  pit_frequency :: u32
  pit_initialized :: bool
  pit_ports :: "(u16 \<times> u8) list"
  pit_handler_set :: bool

definition pit_out :: "u16 \<Rightarrow> u8 \<Rightarrow> pit \<Rightarrow> pit" where
  "pit_out port v s = s\<lparr>pit_ports := pit_ports s @ [(port, v)]\<rparr>"

definition pit_handler :: "pit \<Rightarrow> pit" where
  "pit_handler s = s\<lparr>pit_ticks := pit_ticks s + 1\<rparr>"

text \<open>The command and the two bytes of the divisor, low byte first.\<close>

definition pit_program :: "u32 \<Rightarrow> pit \<Rightarrow> pit" where
  "pit_program divisor s =
     pit_out PIT_CHANNEL0 (ucast (drop_bit 8 divisor AND 0xFF)) (pit_out PIT_CHANNEL0 (ucast (divisor AND 0xFF))
       (pit_out PIT_COMMAND PIT_MODE_SQUARE_WAVE s))"

definition pit_init :: "pit \<Rightarrow> pit \<times> bool" where
  "pit_init s =
     (if pit_initialized s then (s, True)
      else ((pit_program (PIT_BASE_FREQUENCY div 100) (s\<lparr>pit_frequency := 100\<rparr>))\<lparr>pit_handler_set := True, pit_ticks := 0,
              pit_initialized := True\<rparr>, True))"

definition pit_set_frequency :: "u32 \<Rightarrow> pit \<Rightarrow> pit" where
  "pit_set_frequency freq s =
     (if \<not> pit_initialized s \<or> freq = 0 then s
      else let d = PIT_BASE_FREQUENCY div freq in
        pit_program (if d > 65535 then 65535 else d) (s\<lparr>pit_frequency := freq\<rparr>))"

definition pit_get_ticks :: "pit \<Rightarrow> u32" where "pit_get_ticks s = pit_ticks s"

text \<open>The divisor the chip takes from two bytes written to the channel; zero counts as 65536.\<close>

definition chip_divisor :: "u8 \<Rightarrow> u8 \<Rightarrow> nat" where
  "chip_divisor lo hi = (let n = unat lo + 256 * unat hi in if n = 0 then 65536 else n)"

lemma unat_div_u32: "unat (x div (y :: u32)) = unat x div unat y"
  by (rule unat_div)

lemma low_bytes:
  assumes "unat (d :: u32) < 65536"
  shows "unat (ucast (d AND 0xFF) :: u8) + 256 * unat (ucast (drop_bit 8 d AND 0xFF) :: u8) = unat d"
proof -
  have m: "w AND 0xFF = take_bit 8 w" for w :: u32 by (simp only: take_bit_eq_mask) (simp add: mask_eq_exp_minus_1)
  have u: "unat (ucast (w AND 0xFF) :: u8) = unat w mod 256" for w :: u32
    unfolding m by (simp only: unsigned_ucast_eq unsigned_take_bit_eq) (simp add: take_bit_eq_mod)
  have d: "unat (drop_bit 8 d) = unat d div 256" by (simp only: unat_drop_bit_eq) (simp add: drop_bit_eq_div)
  have "unat d div 256 mod 256 = unat d div 256" using assms by (simp add: less_mult_imp_div_less)
  moreover have "unat d mod 256 + 256 * (unat d div 256) = unat d" by simp
  ultimately show ?thesis unfolding u d by simp
qed

text \<open>
  For a frequency from 19 to 1193182 Hz the chip gets the divisor \<open>1193182 div freq\<close>; a lower one gets the
  largest divisor the code uses, 65535; a higher one gets 0, which the chip takes for its slowest rate.
\<close>

theorem pit_divisor_programmed:
  assumes "pit_initialized s" "freq \<noteq> 0"
  shows "\<exists>lo hi. pit_ports (pit_set_frequency freq s) = pit_ports s @ [(0x43, 0x36), (0x40, lo), (0x40, hi)] \<and>
    chip_divisor lo hi = (if unat freq < 19 then 65535 else if unat freq \<le> 1193182 then 1193182 div unat freq else 65536)"
proof -
  define d where "d = PIT_BASE_FREQUENCY div freq"
  define e where "e = (if d > 65535 then 65535 else d)"
  have ud: "unat d = 1193182 div unat freq" by (simp add: d_def unat_div_u32 PIT_BASE_FREQUENCY_def)
  have f: "0 < unat freq" using assms(2) by (simp add: unat_gt_0)
  have big: "65535 < unat d \<longleftrightarrow> unat freq < 19"
  proof
    assume "unat freq < 19"
    then have "1193182 div 18 \<le> unat d" using f unfolding ud by (intro div_le_mono2) simp_all
    then show "65535 < unat d" by simp
  next
    assume "65535 < unat d"
    show "unat freq < 19"
    proof (rule ccontr)
      assume "\<not> unat freq < 19"
      then have "unat d \<le> 1193182 div 19" unfolding ud by (intro div_le_mono2) simp_all
      with \<open>65535 < unat d\<close> show False by simp
    qed
  qed
  have ue: "unat e = (if unat freq < 19 then 65535 else 1193182 div unat freq)"
    using big ud by (auto simp: e_def word_less_nat_alt)
  have small: "unat e < 65536" using ue big ud by (auto split: if_splits)
  have "pit_ports (pit_set_frequency freq s) = pit_ports s @
      [(0x43, 0x36), (0x40, ucast (e AND 0xFF)), (0x40, ucast (drop_bit 8 e AND 0xFF))]"
    using assms by (simp add: pit_set_frequency_def pit_program_def pit_out_def Let_def e_def d_def PIT_CHANNEL0_def PIT_COMMAND_def
        PIT_MODE_SQUARE_WAVE_def)
  moreover have "chip_divisor (ucast (e AND 0xFF)) (ucast (drop_bit 8 e AND 0xFF)) =
      (if unat freq < 19 then 65535 else if unat freq \<le> 1193182 then 1193182 div unat freq else 65536)"
  proof -
    have "(1193182 div unat freq = 0) = (1193182 < unat freq)" using f by (simp add: div_eq_0_iff)
    then show ?thesis unfolding chip_divisor_def Let_def low_bytes [OF small] ue by auto
  qed
  ultimately show ?thesis by blast
qed

definition pit_example :: pit where
  "pit_example = \<lparr>pit_ticks = 0, pit_frequency = 100, pit_initialized = True, pit_ports = [], pit_handler_set = True\<rparr>"

theorem pit_divisor_programmed_witness:
  "\<exists>lo hi. pit_ports (pit_set_frequency 1000 pit_example) = [(0x43, 0x36), (0x40, lo), (0x40, hi)] \<and> chip_divisor lo hi = 1193"
  using pit_divisor_programmed [of pit_example 1000] by (simp add: pit_example_def)

section \<open>The timer with callbacks\<close>

definition PIT_FREQUENCY :: u32 where "PIT_FREQUENCY = 1193180"

record timer_slot =
  slot_callback :: ptr
  slot_interval :: u32
  slot_counter :: u32

text \<open>\<open>dt_fired\<close> are the calls made: slot and callback.\<close>

record drv_timer =
  dt_ticks :: u32
  dt_per_second :: u32
  dt_slots :: "timer_slot list"
  dt_initialized :: bool
  dt_ports :: "(u16 \<times> u8) list"
  dt_fired :: "(nat \<times> ptr) list"
  dt_handler_set :: bool

definition slot_due :: "timer_slot \<Rightarrow> bool" where
  "slot_due t \<longleftrightarrow> slot_callback t \<noteq> NULL \<and> slot_counter t + 1 \<ge> slot_interval t"

definition slot_tick :: "timer_slot \<Rightarrow> timer_slot" where
  "slot_tick t = (if slot_callback t = NULL then t else t\<lparr>slot_counter := (if slot_due t then 0 else slot_counter t + 1)\<rparr>)"

definition timer_handler_drv :: "drv_timer \<Rightarrow> drv_timer" where
  "timer_handler_drv s =
     s\<lparr>dt_ticks := dt_ticks s + 1, dt_slots := map slot_tick (dt_slots s),
       dt_fired := dt_fired s @ map (\<lambda>i. (i, slot_callback (dt_slots s ! i))) (filter (\<lambda>i. slot_due (dt_slots s ! i)) [0..<length (dt_slots s)])\<rparr>"

definition empty_slot :: timer_slot where
  "empty_slot = \<lparr>slot_callback = NULL, slot_interval = 0, slot_counter = 0\<rparr>"

definition timer_init_drv :: "u32 \<Rightarrow> drv_timer \<Rightarrow> drv_timer \<times> bool" where
  "timer_init_drv frequency s =
     (if dt_initialized s \<or> frequency = 0 then (s, False)
      else let d0 = PIT_FREQUENCY div frequency; d = (if d0 > 65535 then 65535 else d0) in
        (s\<lparr>dt_ports := dt_ports s @ [(PIT_COMMAND, 0x36), (PIT_CHANNEL0, ucast (d AND 0xFF)), (PIT_CHANNEL0, ucast (drop_bit 8 d AND 0xFF))],
           dt_handler_set := True, dt_per_second := frequency, dt_initialized := True,
           dt_slots := map (\<lambda>_. empty_slot) (dt_slots s)\<rparr>, True))"

definition timer_get_ticks_drv :: "drv_timer \<Rightarrow> u32" where "timer_get_ticks_drv s = dt_ticks s"

text \<open>Every \<^verbatim>\<open>hlt\<close> returns after one timer interrupt.\<close>

partial_function (option) wait_ticks :: "u32 \<Rightarrow> u32 \<Rightarrow> drv_timer \<Rightarrow> drv_timer option" where
  "wait_ticks start n s = (if dt_ticks s - start < n then wait_ticks start n (timer_handler_drv s) else Some s)"

definition timer_wait_drv :: "u32 \<Rightarrow> drv_timer \<Rightarrow> drv_timer option" where
  "timer_wait_drv n s = wait_ticks (dt_ticks s) n s"

definition timer_sleep_drv :: "u32 \<Rightarrow> drv_timer \<Rightarrow> drv_timer option" where
  "timer_sleep_drv milliseconds s =
     (if \<not> dt_initialized s \<or> dt_per_second s = 0 then Some s
      else timer_wait_drv (milliseconds * dt_per_second s div 1000) s)"

definition timer_add_callback :: "ptr \<Rightarrow> u32 \<Rightarrow> drv_timer \<Rightarrow> drv_timer \<times> int" where
  "timer_add_callback cb interval_ms s =
     (if \<not> dt_initialized s \<or> cb = NULL \<or> interval_ms = 0 then (s, -1)
      else case first_index (\<lambda>t. slot_callback t = NULL) (dt_slots s) of
        None \<Rightarrow> (s, -1)
      | Some i \<Rightarrow> (s\<lparr>dt_slots := (dt_slots s)[i := \<lparr>slot_callback = cb, slot_interval = interval_ms * dt_per_second s div 1000,
                      slot_counter = 0\<rparr>]\<rparr>, int i))"

definition timer_remove_callback :: "int \<Rightarrow> drv_timer \<Rightarrow> drv_timer \<times> bool" where
  "timer_remove_callback cid s =
     (if \<not> dt_initialized s \<or> cid < 0 \<or> cid \<ge> int (length (dt_slots s)) then (s, False)
      else (s\<lparr>dt_slots := (dt_slots s)[nat cid := empty_slot]\<rparr>, True))"

definition timer_is_initialized_drv :: "drv_timer \<Rightarrow> bool" where "timer_is_initialized_drv s = dt_initialized s"
definition timer_get_frequency_drv :: "drv_timer \<Rightarrow> u32" where "timer_get_frequency_drv s = dt_per_second s"

text \<open>The calls of one slot.\<close>

definition calls_of :: "nat \<Rightarrow> drv_timer \<Rightarrow> nat" where
  "calls_of i s = length (filter (\<lambda>(j, _). j = i) (dt_fired s))"

lemma calls_of_tick:
  assumes "i < length (dt_slots s)"
  shows "calls_of i (timer_handler_drv s) = calls_of i s + (if slot_due (dt_slots s ! i) then 1 else 0)"
proof -
  have "filter (\<lambda>(j, _). j = i) (map (\<lambda>k. (k, slot_callback (dt_slots s ! k))) (filter (\<lambda>k. slot_due (dt_slots s ! k)) ks)) =
      map (\<lambda>k. (k, slot_callback (dt_slots s ! k))) (filter (\<lambda>k. slot_due (dt_slots s ! i) \<and> k = i) ks)" for ks
    by (induction ks) auto
  moreover have "length (filter (\<lambda>k. k = i) [0..<length (dt_slots s)]) = 1"
  proof -
    have "{k. k = i} \<inter> set [0..<length (dt_slots s)] = {i}" using assms by auto
    then show ?thesis using distinct_length_filter [of "[0..<length (dt_slots s)]" "\<lambda>k. k = i"] by simp
  qed
  ultimately show ?thesis by (cases "slot_due (dt_slots s ! i)") (simp_all add: calls_of_def timer_handler_drv_def)
qed

lemma slot_after_tick: "i < length (dt_slots s) \<Longrightarrow> dt_slots (timer_handler_drv s) ! i = slot_tick (dt_slots s ! i)"
  by (simp add: timer_handler_drv_def)

lemma slots_length [simp]: "length (dt_slots ((timer_handler_drv ^^ k) s)) = length (dt_slots s)"
  by (induction k) (simp_all add: timer_handler_drv_def)

text \<open>The counter of a slot with interval \<open>n\<close> counts modulo \<open>n\<close>.\<close>

lemma slot_counts:
  assumes "i < length (dt_slots s)" "slot_callback (dt_slots s ! i) = cb" "cb \<noteq> NULL" "slot_interval (dt_slots s ! i) = iv" "iv \<noteq> 0"
    "slot_counter (dt_slots s ! i) = 0"
  shows "slot_callback (dt_slots ((timer_handler_drv ^^ k) s) ! i) = cb \<and> slot_interval (dt_slots ((timer_handler_drv ^^ k) s) ! i) = iv \<and>
    unat (slot_counter (dt_slots ((timer_handler_drv ^^ k) s) ! i)) = k mod unat iv \<and>
    calls_of i ((timer_handler_drv ^^ k) s) = calls_of i s + k div unat iv"
proof (induction k)
  case 0
  show ?case using assms by simp
next
  case (Suc k)
  let ?s = "(timer_handler_drv ^^ k) s" and ?n = "unat iv"
  let ?t = "dt_slots ?s ! i"
  have i: "i < length (dt_slots ?s)" using assms(1) by simp
  have n: "0 < ?n" using assms(5) by (simp add: unat_gt_0)
  then have lt: "k mod ?n < ?n" by simp
  have c: "unat (slot_counter ?t + 1) = Suc (k mod ?n)"
  proof -
    have "Suc (unat (slot_counter ?t)) < 2 ^ 32" using Suc.IH lt unat_u32_less [of iv] by simp
    then show ?thesis using Suc.IH by (simp add: unat_plus_if')
  qed
  have due: "slot_due ?t \<longleftrightarrow> ?n \<le> Suc (k mod ?n)"
    using Suc.IH assms(3) c by (simp add: slot_due_def word_le_nat_alt)
  show ?case
  proof (cases "Suc (k mod ?n) = ?n")
    case True
    then have "Suc k mod ?n = 0" "Suc k div ?n = Suc (k div ?n)" by (simp_all add: mod_Suc div_Suc)
    then show ?thesis using Suc.IH True due assms(3) i by (simp add: slot_after_tick calls_of_tick slot_tick_def)
  next
    case False
    then have "Suc k mod ?n = Suc (k mod ?n)" "Suc k div ?n = k div ?n" by (simp_all add: mod_Suc div_Suc)
    then show ?thesis using Suc.IH False due assms(3) i lt c by (simp add: slot_after_tick calls_of_tick slot_tick_def)
  qed
qed

text \<open>
  A callback added with an interval of \<open>m\<close> milliseconds is called once every \<open>m * rate / 1000\<close> ticks, for
  ever: after \<open>k\<close> ticks \<open>k div n\<close> times. Callbacks of other slots make no difference.
\<close>

theorem callbacks_keep_rhythm:
  assumes "timer_add_callback cb m s = (s', int i)" "m * dt_per_second s div 1000 = iv" "iv \<noteq> 0"
  shows "calls_of i ((timer_handler_drv ^^ k) s') = calls_of i s' + k div unat iv"
proof -
  have g: "dt_initialized s \<and> cb \<noteq> NULL \<and> m \<noteq> 0"
    using assms(1) by (simp add: timer_add_callback_def split: if_split_asm)
  then have add: "timer_add_callback cb m s = (case first_index (\<lambda>t. slot_callback t = NULL) (dt_slots s) of None \<Rightarrow> (s, -1)
      | Some i \<Rightarrow> (s\<lparr>dt_slots := (dt_slots s)[i := \<lparr>slot_callback = cb, slot_interval = iv, slot_counter = 0\<rparr>]\<rparr>, int i))"
    by (simp only: timer_add_callback_def assms(2) simp_thms if_False)
  obtain j where j: "first_index (\<lambda>t. slot_callback t = NULL) (dt_slots s) = Some j"
    using assms(1) unfolding add by (cases "first_index (\<lambda>t. slot_callback t = NULL) (dt_slots s)") simp_all
  have s': "s' = s\<lparr>dt_slots := (dt_slots s)[j := \<lparr>slot_callback = cb, slot_interval = iv, slot_counter = 0\<rparr>]\<rparr>" and ij: "i = j"
    using assms(1) unfolding add j by (simp_all, metis)
  have "j < length (dt_slots s)" using first_index_bound [OF j] .
  then have l: "j < length (dt_slots s')" and t: "dt_slots s' ! j = \<lparr>slot_callback = cb, slot_interval = iv, slot_counter = 0\<rparr>"
    by (simp_all add: s')
  show ?thesis unfolding ij using slot_counts [OF l _ conjunct1 [OF conjunct2 [OF g]] _ assms(3), of k] by (simp add: t)
qed

definition timer_example :: drv_timer where
  "timer_example = \<lparr>dt_ticks = 0, dt_per_second = 100, dt_slots = [empty_slot, empty_slot], dt_initialized = True, dt_ports = [],
     dt_fired = [], dt_handler_set = True\<rparr>"

theorem callbacks_keep_rhythm_witness:
  "calls_of 0 ((timer_handler_drv ^^ 100) (fst (timer_add_callback 7 30 timer_example))) = 33"
  using callbacks_keep_rhythm [of 7 30 timer_example "fst (timer_add_callback 7 30 timer_example)" 0 3 100]
  by (simp add: timer_example_def timer_add_callback_def empty_slot_def calls_of_def)

lemma ticks_after [simp]: "dt_ticks ((timer_handler_drv ^^ k) s) = dt_ticks s + of_nat k"
  by (induction k) (simp_all add: timer_handler_drv_def)

text \<open>A wait for \<open>n\<close> ticks returns after exactly \<open>n\<close> timer interrupts, also across the wrap of the counter.\<close>

theorem timer_wait_exact:
  "timer_wait_drv n s = Some ((timer_handler_drv ^^ unat n) s)"
proof -
  have "k \<le> unat n \<Longrightarrow> wait_ticks (dt_ticks s) n ((timer_handler_drv ^^ (unat n - k)) s) = Some ((timer_handler_drv ^^ unat n) s)" for k
  proof (induction k)
    case 0
    show ?case by (subst wait_ticks.simps) simp
  next
    case (Suc k)
    have "(of_nat m :: u32) < n" if "m < unat n" for m
      using that unat_u32_less [of n] by (simp add: word_less_nat_alt unat_of_nat take_bit_nat_eq_self)
    then have "(of_nat (unat n - Suc k) :: u32) < n" using Suc.prems by (simp del: of_nat_diff)
    moreover have "timer_handler_drv ((timer_handler_drv ^^ (unat n - Suc k)) s) = (timer_handler_drv ^^ (unat n - k)) s"
      using Suc.prems by (metis Suc_diff_Suc Suc_le_lessD comp_apply funpow.simps(2))
    ultimately show ?case using Suc by (subst wait_ticks.simps) simp
  qed
  from this [of "unat n"] show ?thesis by (simp add: timer_wait_drv_def)
qed

section \<open>The real time clock\<close>

record rtc_datetime =
  dt_second :: u8
  dt_minute :: u8
  dt_hour :: u8
  dt_day :: u8
  dt_month :: u8
  dt_year :: u16

record rtc =
  rtc_current_time :: rtc_datetime
  rtc_initialized :: bool
  rtc_update_in_progress :: bool
  rtc_ports :: "(u16 \<times> u8) list"
  rtc_reads :: nat
  rtc_handler_set :: bool

text \<open>What the clock holds: the value of a register at the \<open>k\<close>-th read.\<close>

type_synonym cmos = "nat \<Rightarrow> u8 \<Rightarrow> u8"

definition rtc_read_register :: "cmos \<Rightarrow> u8 \<Rightarrow> rtc \<Rightarrow> rtc \<times> u8" where
  "rtc_read_register cm reg s = (s\<lparr>rtc_ports := rtc_ports s @ [(0x70, reg)], rtc_reads := Suc (rtc_reads s)\<rparr>, cm (rtc_reads s) reg)"

definition rtc_write_register :: "u8 \<Rightarrow> u8 \<Rightarrow> rtc \<Rightarrow> rtc" where
  "rtc_write_register reg v s = s\<lparr>rtc_ports := rtc_ports s @ [(0x70, reg), (0x71, v)]\<rparr>"

definition bcd_to_binary :: "u8 \<Rightarrow> u8" where
  "bcd_to_binary bcd = drop_bit 4 (bcd AND 0xF0) * 10 + (bcd AND 0x0F)"

text \<open>The six registers, read in the order of the code.\<close>

definition rtc_read_time :: "cmos \<Rightarrow> rtc \<Rightarrow> rtc \<times> rtc_datetime" where
  "rtc_read_time cm s =
     (let (s1, sec) = rtc_read_register cm 0x00 s; (s2, mi) = rtc_read_register cm 0x02 s1; (s3, ho) = rtc_read_register cm 0x04 s2;
          (s4, da) = rtc_read_register cm 0x07 s3; (s5, mo) = rtc_read_register cm 0x08 s4; (s6, ye) = rtc_read_register cm 0x09 s5
      in (s6, \<lparr>dt_second = bcd_to_binary sec, dt_minute = bcd_to_binary mi, dt_hour = bcd_to_binary ho, dt_day = bcd_to_binary da,
               dt_month = bcd_to_binary mo, dt_year = ucast (bcd_to_binary ye) + 2000\<rparr>))"

definition rtc_handler :: "cmos \<Rightarrow> rtc \<Rightarrow> rtc" where
  "rtc_handler cm s =
     (let s1 = fst (rtc_read_register cm 0x0C s) in
      if rtc_update_in_progress s1 then s1
      else let (s2, t) = rtc_read_time cm (s1\<lparr>rtc_update_in_progress := True\<rparr>)
        in s2\<lparr>rtc_current_time := t, rtc_update_in_progress := False\<rparr>)"

definition rtc_init :: "cmos \<Rightarrow> rtc \<Rightarrow> rtc \<times> bool" where
  "rtc_init cm s =
     (if rtc_initialized s then (s, True)
      else let (s1, b) = rtc_read_register cm 0x8B s;
               s2 = fst (rtc_read_register cm 0x0C (rtc_write_register 0x0B (b OR 0x42) s1))
        in (s2\<lparr>rtc_handler_set := True, rtc_current_time := \<lparr>dt_second = 0, dt_minute = 0, dt_hour = 0, dt_day = 0, dt_month = 0, dt_year = 0\<rparr>,
               rtc_update_in_progress := False, rtc_initialized := True\<rparr>, True))"

text \<open>Polling until no update is in progress.\<close>

partial_function (option) rtc_wait :: "cmos \<Rightarrow> rtc \<Rightarrow> rtc option" where
  "rtc_wait cm s = (let (s1, a) = rtc_read_register cm 0x0A s in if a AND 0x80 \<noteq> 0 then rtc_wait cm s1 else Some s1)"

definition rtc_get_datetime :: "cmos \<Rightarrow> rtc \<Rightarrow> (rtc \<times> rtc_datetime option) option" where
  "rtc_get_datetime cm s =
     (if \<not> rtc_initialized s then Some (s, None)
      else map_option (\<lambda>s1. let (s2, t) = rtc_read_time cm s1 in (s2, Some t)) (rtc_wait cm s))"

text \<open>The clock's encoding of a number below 100.\<close>

definition bcd :: "nat \<Rightarrow> u8" where
  "bcd n = of_nat (16 * (n div 10) + n mod 10)"

lemma bcd_roundtrip:
  assumes "n < 100" shows "bcd_to_binary (bcd n) = of_nat n"
proof -
  have "list_all (\<lambda>n. bcd_to_binary (bcd n) = of_nat n) [0..<100]"
    by (simp add: bcd_to_binary_def bcd_def upt_rec)
  then show ?thesis using assms by (simp add: list_all_iff)
qed

text \<open>
  Reading the clock: as soon as it is not updating, the date and time are those it holds in BCD, with
  2000 added to the year.
\<close>

theorem rtc_reads_clock:
  assumes "rtc_initialized s" "cm (rtc_reads s) 0x0A AND 0x80 = 0" "\<And>k r. r \<noteq> 0x0A \<Longrightarrow> cm k r = bcd (val r)" "\<And>r. val r < 100"
  shows "\<exists>s'. rtc_get_datetime cm s = Some (s', Some \<lparr>dt_second = of_nat (val 0), dt_minute = of_nat (val 2), dt_hour = of_nat (val 4),
    dt_day = of_nat (val 7), dt_month = of_nat (val 8), dt_year = 2000 + of_nat (val 9)\<rparr>)"
proof -
  have y: "ucast (of_nat (val 9) :: u8) = (of_nat (val 9) :: u16)"
    using assms(4) [of 9] by (simp add: unsigned_of_nat take_bit_nat_eq_self)
  have w: "rtc_wait cm s = Some (fst (rtc_read_register cm 0x0A s))"
    using assms(2) by (subst rtc_wait.simps) (simp add: rtc_read_register_def)
  have r: "bcd_to_binary (cm k r) = of_nat (val r)" if "r \<noteq> 0x0A" for k r
    by (simp only: assms(3) [OF that] bcd_roundtrip [OF assms(4)])
  have r6: "bcd_to_binary (cm k 0) = of_nat (val 0)" "bcd_to_binary (cm k 2) = of_nat (val 2)" "bcd_to_binary (cm k 4) = of_nat (val 4)"
    "bcd_to_binary (cm k 7) = of_nat (val 7)" "bcd_to_binary (cm k 8) = of_nat (val 8)" "bcd_to_binary (cm k 9) = of_nat (val 9)" for k
    by (simp_all add: r)
  show ?thesis
    using assms(1) by (simp add: rtc_get_datetime_def w rtc_read_time_def rtc_read_register_def r6 y add.commute)
qed

definition rtc_example :: rtc where
  "rtc_example = \<lparr>rtc_current_time = \<lparr>dt_second = 0, dt_minute = 0, dt_hour = 0, dt_day = 0, dt_month = 0, dt_year = 0\<rparr>,
     rtc_initialized = True, rtc_update_in_progress = False, rtc_ports = [], rtc_reads = 0, rtc_handler_set = True\<rparr>"

definition cmos_example :: cmos where
  "cmos_example = (\<lambda>_ r. if r = 0x0A then 0x26 else bcd (if r = 9 then 25 else unat r mod 12))"

theorem rtc_reads_clock_witness:
  "\<exists>s'. rtc_get_datetime cmos_example rtc_example = Some (s', Some \<lparr>dt_second = 0, dt_minute = 2, dt_hour = 4, dt_day = 7, dt_month = 8,
    dt_year = 2025\<rparr>)"
proof -
  have "(if r = 9 then 25 else unat r mod 12) < 100" for r :: u8
    using mod_less_divisor [of 12 "unat r"] by (auto intro: less_trans)
  from rtc_reads_clock [of rtc_example cmos_example "\<lambda>r. if r = 9 then 25 else unat r mod 12", OF _ _ _ this]
  show ?thesis by (simp add: rtc_example_def cmos_example_def)
qed

end
