(* ===== verification/Pci.thy ===== *)
theory Pci
  imports Maya_Prelude
begin

unbundle bit_operations_syntax

text \<open>
  The PCI bus driver (\<^verbatim>\<open>drivers/pci.c\<close>). The machine behind the two configuration ports is a parameter:
  a state \<open>h\<close>, \<open>cfg_read\<close> (what a configuration register reads) and \<open>cfg_write\<close>. The device record has
  the fields the driver uses; the header declares fewer. Shown here: the address names exactly one
  register, the scan records exactly the functions present, the sizing of a base address register finds
  its size and leaves the register as it was, and what goes wrong: the halves of a 64-bit register, one
  in the last place, and the interrupt line.
\<close>

section \<open>Configuration space\<close>

record 'h cfg_space =
  cfg_read :: "'h \<Rightarrow> u32 \<Rightarrow> u32"
  cfg_write :: "'h \<Rightarrow> u32 \<Rightarrow> u32 \<Rightarrow> 'h"

definition pci_address :: "u8 \<Rightarrow> u8 \<Rightarrow> u8 \<Rightarrow> u8 \<Rightarrow> u32" where
  "pci_address bus device function offset =
     push_bit 16 (ucast bus) OR push_bit 11 (ucast device) OR push_bit 8 (ucast function) OR (ucast offset AND 0xFC) OR 0x80000000"

definition pci_read_config :: "'h cfg_space \<Rightarrow> u8 \<Rightarrow> u8 \<Rightarrow> u8 \<Rightarrow> u8 \<Rightarrow> 'h \<Rightarrow> u32" where
  "pci_read_config c bus device function offset h = cfg_read c h (pci_address bus device function offset)"

definition pci_write_config :: "'h cfg_space \<Rightarrow> u8 \<Rightarrow> u8 \<Rightarrow> u8 \<Rightarrow> u8 \<Rightarrow> u32 \<Rightarrow> 'h \<Rightarrow> 'h" where
  "pci_write_config c bus device function offset v h = cfg_write c h (pci_address bus device function offset) v"

definition PCI_VENDOR_ID :: u8 where "PCI_VENDOR_ID = 0x00"
definition PCI_DEVICE_ID :: u8 where "PCI_DEVICE_ID = 0x02"
definition PCI_COMMAND :: u8 where "PCI_COMMAND = 0x04"
definition PCI_REVISION_ID :: u8 where "PCI_REVISION_ID = 0x08"
definition PCI_PROG_IF :: u8 where "PCI_PROG_IF = 0x09"
definition PCI_SUBCLASS :: u8 where "PCI_SUBCLASS = 0x0A"
definition PCI_CLASS :: u8 where "PCI_CLASS = 0x0B"
definition PCI_HEADER_TYPE :: u8 where "PCI_HEADER_TYPE = 0x0E"
definition PCI_BAR0 :: u8 where "PCI_BAR0 = 0x10"
definition PCI_INTERRUPT_LINE :: u8 where "PCI_INTERRUPT_LINE = 0x3C"
definition PCI_INTERRUPT_PIN :: u8 where "PCI_INTERRUPT_PIN = 0x3D"

record pci_device =
  pci_bus :: u8
  pci_dev :: u8
  pci_function :: u8
  pci_vendor_id :: u16
  pci_device_id :: u16
  pci_class_code :: u8
  pci_subclass :: u8
  pci_prog_if :: u8
  pci_revision_id :: u8
  pci_interrupt_line :: u8
  pci_interrupt_pin :: u8
  pci_bar :: "u32 list"
  pci_bar_size :: "u32 list"

text \<open>The table \<open>pci_devices\<close> holds the entries in use; the machine is part of the state.\<close>

record 'h pci =
  pci_devices :: "pci_device list"
  pci_initialized :: bool
  pci_machine :: 'h

definition PCI_TABLE :: nat where "PCI_TABLE = 65536"

text \<open>The registers read into a fresh entry, base address registers apart.\<close>

definition pci_identify :: "'h cfg_space \<Rightarrow> u8 \<Rightarrow> u8 \<Rightarrow> u8 \<Rightarrow> 'h \<Rightarrow> pci_device" where
  "pci_identify c bus device function h =
     (let rd = (\<lambda>r. pci_read_config c bus device function r h) in
      \<lparr>pci_bus = bus, pci_dev = device, pci_function = function,
       pci_vendor_id = ucast (rd PCI_VENDOR_ID AND 0xFFFF),
       pci_device_id = ucast (drop_bit 16 (rd PCI_DEVICE_ID) AND 0xFFFF),
       pci_class_code = ucast (drop_bit 24 (rd PCI_CLASS) AND 0xFF),
       pci_subclass = ucast (drop_bit 16 (rd PCI_SUBCLASS) AND 0xFF),
       pci_prog_if = ucast (drop_bit 8 (rd PCI_PROG_IF) AND 0xFF),
       pci_revision_id = ucast (rd PCI_REVISION_ID AND 0xFF),
       pci_interrupt_line = ucast (drop_bit 24 (rd PCI_INTERRUPT_LINE) AND 0xFF),
       pci_interrupt_pin = ucast (drop_bit 16 (rd PCI_INTERRUPT_PIN) AND 0xFF),
       pci_bar = replicate 6 0, pci_bar_size = replicate 6 0\<rparr>)"

definition bar_offset :: "nat \<Rightarrow> u8" where "bar_offset i = PCI_BAR0 + of_nat (i * 4)"

text \<open>The size of the register at index \<open>i\<close>: all ones written, read back, and \<open>bar\<close> written.\<close>

definition pci_size_bar :: "'h cfg_space \<Rightarrow> u8 \<Rightarrow> u8 \<Rightarrow> u8 \<Rightarrow> nat \<Rightarrow> u32 \<Rightarrow> 'h \<Rightarrow> 'h \<times> u32" where
  "pci_size_bar c bus device function i bar h =
     (let h1 = pci_write_config c bus device function (bar_offset i) 0xFFFFFFFF h;
          size = pci_read_config c bus device function (bar_offset i) h1;
          h2 = pci_write_config c bus device function (bar_offset i) bar h1
      in (h2, NOT (size AND 0xFFFFFFF0) + 1))"

text \<open>The loop over the six registers. The index 6 reached by skipping lies outside the array.\<close>

function pci_read_bars :: "'h cfg_space \<Rightarrow> u8 \<Rightarrow> u8 \<Rightarrow> u8 \<Rightarrow> nat \<Rightarrow> pci_device \<times> 'h \<Rightarrow> fault + pci_device \<times> 'h" where
  "pci_read_bars c bus device function i (dev, h) =
     (if \<not> i < 6 then Inr (dev, h)
      else let bar = pci_read_config c bus device function (bar_offset i) h;
               d1 = dev\<lparr>pci_bar := (pci_bar dev)[i := bar]\<rparr> in
        if bar AND 1 \<noteq> 0
        then pci_read_bars c bus device function (Suc i) (d1\<lparr>pci_bar_size := (pci_bar_size d1)[i := 0]\<rparr>, h)
        else if bar AND 6 = 4
        then (if Suc i \<ge> 6 then Inl Out_of_bounds
              else let d2 = d1\<lparr>pci_bar := (pci_bar d1)[Suc i := pci_read_config c bus device function (bar_offset (Suc i)) h]\<rparr>;
                       (h1, size) = pci_size_bar c bus device function (Suc i) bar h in
                pci_read_bars c bus device function (Suc (Suc i)) (d2\<lparr>pci_bar_size := (pci_bar_size d2)[Suc i := size]\<rparr>, h1))
        else let (h1, size) = pci_size_bar c bus device function i bar h in
          pci_read_bars c bus device function (Suc i) (d1\<lparr>pci_bar_size := (pci_bar_size d1)[i := size]\<rparr>, h1))"
  by pat_completeness auto
termination by (relation "measure (\<lambda>(_, _, _, _, i, _). 6 - i)") auto

declare pci_read_bars.simps [simp del]

section \<open>The scan\<close>

definition pci_vendor :: "'h cfg_space \<Rightarrow> u8 \<Rightarrow> u8 \<Rightarrow> u8 \<Rightarrow> 'h \<Rightarrow> u32" where
  "pci_vendor c bus device function h = pci_read_config c bus device function PCI_VENDOR_ID h AND 0xFFFF"

definition pci_check_function :: "'h cfg_space \<Rightarrow> u8 \<Rightarrow> u8 \<Rightarrow> u8 \<Rightarrow> 'h pci \<Rightarrow> fault + 'h pci" where
  "pci_check_function c bus device function s =
     (if pci_vendor c bus device function (pci_machine s) = 0xFFFF then Inr s
      else if length (pci_devices s) \<ge> PCI_TABLE then Inr s
      else fault_bind (pci_read_bars c bus device function 0 (pci_identify c bus device function (pci_machine s), pci_machine s))
        (\<lambda>(dev, h). Inr (s\<lparr>pci_devices := pci_devices s @ [dev], pci_machine := h\<rparr>)))"

text \<open>A loop that stops at a fault.\<close>

fun fault_fold :: "('x \<Rightarrow> 's \<Rightarrow> fault + 's) \<Rightarrow> 'x list \<Rightarrow> 's \<Rightarrow> fault + 's" where
  "fault_fold f [] s = Inr s"
| "fault_fold f (x # xs) s = fault_bind (f x s) (fault_fold f xs)"

lemma fault_fold_append: "fault_fold f (xs @ ys) s = fault_bind (fault_fold f xs s) (fault_fold f ys)"
proof (induction xs arbitrary: s)
  case (Cons x xs)
  show ?case by (cases "f x s") (simp_all add: Cons.IH)
qed simp

definition header_type :: "'h cfg_space \<Rightarrow> u8 \<Rightarrow> u8 \<Rightarrow> 'h \<Rightarrow> u32" where
  "header_type c bus device h = drop_bit 16 (pci_read_config c bus device 0 PCI_HEADER_TYPE h) AND 0xFF"

definition pci_check_device :: "'h cfg_space \<Rightarrow> u8 \<Rightarrow> u8 \<Rightarrow> 'h pci \<Rightarrow> fault + 'h pci" where
  "pci_check_device c bus device s =
     (if pci_vendor c bus device 0 (pci_machine s) = 0xFFFF then Inr s
      else fault_bind (pci_check_function c bus device 0 s) (\<lambda>s1.
        if header_type c bus device (pci_machine s1) AND 0x80 \<noteq> 0
        then fault_fold (\<lambda>f s. if pci_vendor c bus device f (pci_machine s) \<noteq> 0xFFFF then pci_check_function c bus device f s else Inr s)
               (map of_nat [1..<8]) s1
        else Inr s1))"

text \<open>All devices of all busses from \<open>first\<close> on.\<close>

definition pci_scan_buses :: "'h cfg_space \<Rightarrow> nat \<Rightarrow> 'h pci \<Rightarrow> fault + 'h pci" where
  "pci_scan_buses c first =
     fault_fold (\<lambda>bus. fault_fold (\<lambda>device. pci_check_device c bus device) (map of_nat [0..<32])) (map of_nat [first..<256])"

definition pci_init :: "'h cfg_space \<Rightarrow> 'h pci \<Rightarrow> fault + 'h pci \<times> bool" where
  "pci_init c s =
     (if pci_initialized s then Inr (s, True)
      else let s0 = s\<lparr>pci_devices := []\<rparr> in
        fault_bind
          (if header_type c 0 0 (pci_machine s0) AND 0x80 = 0 then pci_scan_buses c 0 s0
           else fault_fold (\<lambda>f s. if pci_vendor c 0 0 (of_nat f) (pci_machine s) \<noteq> 0xFFFF then pci_scan_buses c f s else Inr s) [0..<8] s0)
          (\<lambda>s1. Inr (s1\<lparr>pci_initialized := True\<rparr>, True)))"

section \<open>Queries\<close>

definition pci_get_device_count :: "'h pci \<Rightarrow> nat" where "pci_get_device_count s = length (pci_devices s)"

definition pci_get_device :: "nat \<Rightarrow> 'h pci \<Rightarrow> pci_device option" where
  "pci_get_device i s = (if i \<ge> length (pci_devices s) then None else Some (pci_devices s ! i))"

definition pci_enable_bus_mastering :: "'h cfg_space \<Rightarrow> u8 \<Rightarrow> u8 \<Rightarrow> u8 \<Rightarrow> 'h pci \<Rightarrow> 'h pci" where
  "pci_enable_bus_mastering c bus device function s =
     s\<lparr>pci_machine := pci_write_config c bus device function PCI_COMMAND
        (pci_read_config c bus device function PCI_COMMAND (pci_machine s) OR push_bit 2 1) (pci_machine s)\<rparr>"

definition pci_get_bar_address :: "pci_device option \<Rightarrow> u8 \<Rightarrow> u32" where
  "pci_get_bar_address dev n =
     (case dev of None \<Rightarrow> 0
      | Some d \<Rightarrow> if n \<ge> 6 then 0
                  else let bar = pci_bar d ! unat n in bar AND (if bar AND 1 \<noteq> 0 then 0xFFFFFFFC else 0xFFFFFFF0))"

definition pci_get_bar_size :: "pci_device option \<Rightarrow> u8 \<Rightarrow> u32" where
  "pci_get_bar_size dev n = (case dev of None \<Rightarrow> 0 | Some d \<Rightarrow> if n \<ge> 6 then 0 else pci_bar_size d ! unat n)"

definition pci_is_initialized :: "'h pci \<Rightarrow> bool" where "pci_is_initialized s = pci_initialized s"

section \<open>Addresses\<close>

lemma bit_ucast_u8: "bit (ucast (x :: u8) :: u32) n \<longleftrightarrow> bit x n"
  by (auto simp: bit_ucast_iff dest: bit_imp_le_length)

lemma bit_FC: "bit (0xFC :: u32) n \<longleftrightarrow> 2 \<le> n \<and> n < 8"
proof -
  have e: "(0xFC :: u32) = mask 8 AND NOT (mask 2)" by (simp add: mask_eq_exp_minus_1)
  show ?thesis unfolding e by (auto simp: bit_and_iff bit_not_iff bit_mask_iff)
qed

lemma bit_top: "bit (0x80000000 :: u32) n \<longleftrightarrow> n = 31"
proof -
  have e: "(0x80000000 :: u32) = push_bit 31 1" by (simp add: push_bit_eq_mult)
  show ?thesis unfolding e bit_push_bit_iff bit_1_iff by auto
qed

lemma bit_below:
  assumes "(x :: u8) < 2 ^ k" "k < 8" "bit x n" shows "n < k"
proof (rule ccontr)
  assume "\<not> n < k"
  have "uint x < 2 ^ k" using assms(1,2) word_2p_lem [of k x] by (simp add: word_size)
  then have "take_bit k x = x" using mask_eq_iff [of x k] by (simp add: take_bit_eq_mask)
  then have "bit x n \<longleftrightarrow> n < k \<and> bit x n" by (metis bit_take_bit_iff)
  with assms(3) \<open>\<not> n < k\<close> show False by simp
qed

lemma bit_pci_address:
  assumes "device < 32" "function < 8"
  shows "bit (pci_address bus device function offset) n \<longleftrightarrow>
    (if n < 8 then 2 \<le> n \<and> bit offset n else if n < 11 then bit function (n - 8) else if n < 16 then bit device (n - 11)
     else if n < 24 then bit bus (n - 16) else n = 31)"
proof -
  have d: "\<not> bit device k" if "5 \<le> k" for k using bit_below [of device 5 k] assms(1) that by auto
  have f: "\<not> bit function k" if "3 \<le> k" for k using bit_below [of "function" 3 k] assms(2) that by auto
  have b: "\<not> bit bus k" "\<not> bit offset k" if "8 \<le> k" for k using that by (auto dest: bit_imp_le_length)
  have "bit (pci_address bus device function offset) n \<longleftrightarrow> n < 32 \<and>
      (16 \<le> n \<and> bit bus (n - 16) \<or> 11 \<le> n \<and> bit device (n - 11) \<or> 8 \<le> n \<and> bit function (n - 8) \<or> bit offset n \<and> 2 \<le> n \<and> n < 8 \<or> n = 31)"
    unfolding pci_address_def bit_or_iff bit_and_iff bit_push_bit_iff bit_ucast_u8 bit_FC bit_top by (auto dest: bit_imp_le_length)
  then show ?thesis using d [of "n - 11"] f [of "n - 8"] b(1) [of "n - 16"] b(2) [of n] by auto
qed

text \<open>
  The address put on the configuration port names one register: two addresses are equal only for the
  same bus, device, function and 32-bit register.
\<close>

theorem pci_address_names_register:
  assumes "d < 32" "f < 8" "d' < 32" "f' < 8"
  shows "pci_address b d f r = pci_address b' d' f' r' \<longleftrightarrow> b = b' \<and> d = d' \<and> f = f' \<and> drop_bit 2 r = drop_bit 2 r'"
proof
  assume eq: "pci_address b d f r = pci_address b' d' f' r'"
  note bits = bit_pci_address [OF assms(1,2), of b r] bit_pci_address [OF assms(3,4), of b' r']
  have e: "bit (pci_address b d f r) n = bit (pci_address b' d' f' r') n" for n using eq by simp
  have "bit b n = bit b' n" if "n < 8" for n using e [of "n + 16"] that by (simp add: bits)
  moreover have "bit d n = bit d' n" if "n < 8" for n
    using e [of "n + 11"] that bit_below [of d 5 n] bit_below [of d' 5 n] assms by (cases "n < 5") (auto simp: bits)
  moreover have "bit f n = bit f' n" if "n < 8" for n
    using e [of "n + 8"] that bit_below [of f 3 n] bit_below [of f' 3 n] assms by (cases "n < 3") (auto simp: bits)
  moreover have "bit r (n + 2) = bit r' (n + 2)" if "n < 8" for n
    using e [of "n + 2"] that bit_imp_le_length [of r "n + 2"] bit_imp_le_length [of r' "n + 2"] by (cases "n < 6") (auto simp: bits)
  ultimately show "b = b' \<and> d = d' \<and> f = f' \<and> drop_bit 2 r = drop_bit 2 r'"
    by (auto intro!: bit_word_eqI simp: bit_drop_bit_eq add.commute)
next
  assume r: "b = b' \<and> d = d' \<and> f = f' \<and> drop_bit 2 r = drop_bit 2 r'"
  then have "bit (drop_bit 2 r) (n - 2) = bit (drop_bit 2 r') (n - 2)" for n by simp
  then have "bit r (2 + (n - 2)) = bit r' (2 + (n - 2))" for n by (simp only: bit_drop_bit_eq comp_apply)
  then have r2: "bit r n = bit r' n" if "2 \<le> n" for n using that le_add_diff_inverse [of 2 n] by metis
  show "pci_address b d f r = pci_address b' d' f' r'"
  proof (rule bit_word_eqI)
    fix n
    show "bit (pci_address b d f r) n = bit (pci_address b' d' f' r') n"
      unfolding bit_pci_address [OF assms(1,2)] bit_pci_address [OF assms(3,4)] using r r2 [of n] by auto
  qed
qed

theorem pci_address_names_register_witness:
  "pci_address 1 2 3 4 \<noteq> pci_address 1 2 3 8 \<and> pci_address 1 2 3 4 = pci_address 1 2 3 6"
  using pci_address_names_register [of 2 3 2 3 1 4 1 8] pci_address_names_register [of 2 3 2 3 1 4 1 6]
  by (simp add: drop_bit_eq_div)

section \<open>Base address registers\<close>

lemma mask_low4: "(0xFFFFFFF0 :: u32) = NOT (mask 4)"
  by (simp add: mask_eq_exp_minus_1)

lemma size_of_mask:
  assumes "4 \<le> k"
  shows "NOT ((NOT (mask k) OR (x AND 15)) AND (0xFFFFFFF0 :: u32)) + 1 = 2 ^ k"
proof -
  have m: "(15 :: u32) = mask 4" by (simp add: mask_eq_exp_minus_1)
  have "(NOT (mask k) OR (x AND mask j)) AND NOT (mask j) = NOT (mask k)" if "j \<le> k" for j
    using that by (intro bit_word_eqI) (auto simp: bit_and_iff bit_or_iff bit_not_iff bit_mask_iff)
  from this [OF assms] have "NOT ((NOT (mask k) OR (x AND 15)) AND NOT (mask 4)) = mask k" unfolding m by (simp only: bit.double_compl)
  then show ?thesis unfolding mask_low4 by (simp only: mask_eq_exp_minus_1) simp
qed

text \<open>
  A 32-bit memory register of \<open>2 ^ k\<close> bytes: its type bits are clear, after all ones have been written it
  reads the complement of the mask of \<open>k\<close> bits and its type bits, and writing the old value restores it.
\<close>

definition memory_bar :: "'h cfg_space \<Rightarrow> 'h \<Rightarrow> u32 \<Rightarrow> nat \<Rightarrow> bool" where
  "memory_bar c h a k \<longleftrightarrow> 4 \<le> k \<and> cfg_read c h a AND 7 = 0 \<and>
     (let h1 = cfg_write c h a 0xFFFFFFFF in
      cfg_read c h1 a = NOT (mask k) OR (cfg_read c h a AND 15) \<and> cfg_write c h1 a (cfg_read c h a) = h)"

lemma type_bits:
  assumes "(x :: u32) AND 7 = 0" shows "x AND 1 = 0" "x AND 6 = 0"
proof -
  have "x AND 1 = (x AND 7) AND 1" "x AND 6 = (x AND 7) AND 6" by (simp_all add: and.assoc)
  then show "x AND 1 = 0" "x AND 6 = 0" by (simp_all add: assms)
qed

lemma size_memory_bar:
  assumes "memory_bar c h (pci_address b d f (bar_offset i)) k"
  shows "pci_size_bar c b d f i (pci_read_config c b d f (bar_offset i) h) h = (h, 2 ^ k)"
proof -
  let ?a = "pci_address b d f (bar_offset i)"
  have m: "4 \<le> k" "cfg_read c (cfg_write c h ?a 0xFFFFFFFF) ?a = NOT (mask k) OR (cfg_read c h ?a AND 15)"
    "cfg_write c (cfg_write c h ?a 0xFFFFFFFF) ?a (cfg_read c h ?a) = h"
    using assms unfolding memory_bar_def Let_def by blast+
  show ?thesis unfolding pci_size_bar_def pci_read_config_def pci_write_config_def Let_def m(2,3) size_of_mask [OF m(1)] ..
qed

text \<open>
  Six registers that are either for ports or 32-bit memory: the loop records what they read and their
  sizes (none for ports) and leaves the machine as it was.
\<close>

theorem bars_sized:
  assumes "\<And>i. i < 6 \<Longrightarrow> pci_read_config c b d f (bar_offset i) h AND 1 \<noteq> 0 \<and> sz i = 0 \<or>
      (\<exists>k. memory_bar c h (pci_address b d f (bar_offset i)) k \<and> sz i = 2 ^ k)"
    "length (pci_bar dev) = 6" "length (pci_bar_size dev) = 6"
  shows "pci_read_bars c b d f 0 (dev, h) =
    Inr (dev\<lparr>pci_bar := map (\<lambda>i. pci_read_config c b d f (bar_offset i) h) [0..<6], pci_bar_size := map sz [0..<6]\<rparr>, h)"
proof -
  let ?r = "\<lambda>i. pci_read_config c b d f (bar_offset i) h"
  have step: "pci_read_bars c b d f i (e, h) =
      pci_read_bars c b d f (Suc i) (e\<lparr>pci_bar := (pci_bar e)[i := ?r i], pci_bar_size := (pci_bar_size e)[i := sz i]\<rparr>, h)" if i: "i < 6" for i e
  proof (cases "?r i AND 1 \<noteq> 0 \<and> sz i = 0")
    case True
    then show ?thesis using i by (subst pci_read_bars.simps) (simp add: Let_def)
  next
    case False
    then obtain k where k: "memory_bar c h (pci_address b d f (bar_offset i)) k" "sz i = 2 ^ k" using assms(1) [OF i] by auto
    then have "?r i AND 7 = 0" by (simp add: memory_bar_def pci_read_config_def)
    from type_bits [OF this] show ?thesis using i size_memory_bar [OF k(1)] k(2) by (subst pci_read_bars.simps) (simp add: Let_def)
  qed
  have "pci_read_bars c b d f i (e, h) = Inr (e, h)" if "\<not> i < 6" for i e using that by (subst pci_read_bars.simps) simp
  moreover obtain x0 x1 x2 x3 x4 x5 where "pci_bar dev = [x0, x1, x2, x3, x4, x5]"
    using assms(2) by (auto simp: numeral_eq_Suc length_Suc_conv)
  moreover obtain y0 y1 y2 y3 y4 y5 where "pci_bar_size dev = [y0, y1, y2, y3, y4, y5]"
    using assms(3) by (auto simp: numeral_eq_Suc length_Suc_conv)
  ultimately show ?thesis by (simp add: step upt_rec)
qed

definition quiet_machine :: "(u32 \<Rightarrow> u32) cfg_space" where
  "quiet_machine = \<lparr>cfg_read = (\<lambda>h a. h a), cfg_write = (\<lambda>h a v. if v = 0xFFFFFFFF then h(a := 0xFFFFF000) else h(a := v))\<rparr>"

definition blank_device :: pci_device where
  "blank_device = \<lparr>pci_bus = 0, pci_dev = 0, pci_function = 0, pci_vendor_id = 0, pci_device_id = 0, pci_class_code = 0, pci_subclass = 0,
     pci_prog_if = 0, pci_revision_id = 0, pci_interrupt_line = 0, pci_interrupt_pin = 0, pci_bar = replicate 6 0, pci_bar_size = replicate 6 0\<rparr>"

lemma quiet_memory_bar:
  assumes "h a = 0" shows "memory_bar quiet_machine h a 12"
  using assms by (simp add: memory_bar_def quiet_machine_def mask_eq_exp_minus_1 fun_upd_idem)

theorem bars_sized_witness:
  "pci_read_bars quiet_machine 0 1 0 0 (blank_device, \<lambda>_. 0) =
    Inr (blank_device\<lparr>pci_bar := [0, 0, 0, 0, 0, 0], pci_bar_size := [4096, 4096, 4096, 4096, 4096, 4096]\<rparr>, \<lambda>_. 0)"
proof -
  have "(2 :: u32) ^ 12 = 4096" by simp
  then have "pci_read_config quiet_machine 0 1 0 (bar_offset i) (\<lambda>_. 0) AND 1 \<noteq> 0 \<and> (4096 :: u32) = 0 \<or>
      (\<exists>k. memory_bar quiet_machine (\<lambda>_. 0) (pci_address 0 1 0 (bar_offset i)) k \<and> (4096 :: u32) = 2 ^ k)" for i
    using quiet_memory_bar [of "\<lambda>_. 0" "pci_address 0 1 0 (bar_offset i)"] by metis
  from bars_sized [of quiet_machine 0 1 0 "\<lambda>_. 0" "\<lambda>_. 4096" blank_device, OF this]
  show ?thesis by (simp add: blank_device_def pci_read_config_def quiet_machine_def upt_rec)
qed

text \<open>A 64-bit register in the last place is followed outside the array.\<close>

theorem last_bar_64_bit_faults:
  assumes "pci_read_config c b d f (bar_offset 5) h AND 7 = 4"
  shows "pci_read_bars c b d f 5 (dev, h) = Inl Out_of_bounds"
proof -
  let ?r = "pci_read_config c b d f (bar_offset 5) h"
  have "?r AND 1 = (?r AND 7) AND 1" "?r AND 6 = (?r AND 7) AND 6" by (simp_all add: and.assoc)
  then show ?thesis by (subst pci_read_bars.simps) (simp add: assms Let_def)
qed

text \<open>Sizing a 64-bit register leaves the lower half in the register of the upper half.\<close>

theorem upper_half_overwritten:
  fixes h :: "u32 \<Rightarrow> u32"
  defines "c \<equiv> \<lparr>cfg_read = (\<lambda>h a. h a), cfg_write = (\<lambda>h a v. h(a := v))\<rparr>"
  assumes "h' = fst (pci_size_bar c b d f (Suc i) bar h)"
  shows "pci_read_config c b d f (bar_offset (Suc i)) h' = bar"
  using assms by (simp add: pci_size_bar_def pci_read_config_def pci_write_config_def Let_def)

text \<open>
  The interrupt line and pin are the two low bytes of their register; the driver takes the two high
  ones, which hold the latency and grant times.
\<close>

theorem interrupt_line_misread:
  fixes line pin gnt lat :: u8
  assumes "pci_read_config c b d f 0x3C h = ucast line OR push_bit 8 (ucast pin) OR push_bit 16 (ucast gnt) OR push_bit 24 (ucast lat)"
  shows "pci_interrupt_line (pci_identify c b d f h) = lat" "pci_interrupt_pin (pci_identify c b d f h) = gnt"
proof -
  have "pci_address b d f 0x3D = pci_address b d f 0x3C" by (simp add: pci_address_def)
  then have r: "pci_read_config c b d f 0x3D h = pci_read_config c b d f 0x3C h" by (simp add: pci_read_config_def)
  have m: "(0xFF :: u32) = mask 8" by (simp add: mask_eq_exp_minus_1)
  have n: "\<not> bit x (8 + k)" "\<not> bit x (16 + k)" "\<not> bit x (24 + k)" for x :: u8 and k
    using bit_imp_le_length [of x] by fastforce+
  show "pci_interrupt_line (pci_identify c b d f h) = lat" "pci_interrupt_pin (pci_identify c b d f h) = gnt"
    unfolding pci_identify_def Let_def pci_device.simps PCI_INTERRUPT_LINE_def PCI_INTERRUPT_PIN_def r assms m
    by (auto intro!: bit_word_eqI simp: bit_ucast_iff bit_and_iff bit_or_iff bit_mask_iff bit_drop_bit_eq bit_push_bit_iff n)
qed

section \<open>The scan finds what is there\<close>

text \<open>
  What the scan relies on: writing a base address register changes neither the vendor nor the header
  register of any function, and no register in the last place is the first half of a 64-bit one.
\<close>

definition ids_stable :: "'h cfg_space \<Rightarrow> bool" where
  "ids_stable c \<longleftrightarrow> (\<forall>h b d f i v b' d' f'. i < 6 \<longrightarrow>
     pci_read_config c b' d' f' PCI_VENDOR_ID (pci_write_config c b d f (bar_offset i) v h) = pci_read_config c b' d' f' PCI_VENDOR_ID h \<and>
     pci_read_config c b' d' f' PCI_HEADER_TYPE (pci_write_config c b d f (bar_offset i) v h) = pci_read_config c b' d' f' PCI_HEADER_TYPE h)"

definition last_bar_short :: "'h cfg_space \<Rightarrow> bool" where
  "last_bar_short c \<longleftrightarrow> (\<forall>h b d f. pci_read_config c b d f (bar_offset 5) h AND 6 \<noteq> 4)"

definition same_ids :: "'h cfg_space \<Rightarrow> 'h \<Rightarrow> 'h \<Rightarrow> bool" where
  "same_ids c h h' \<longleftrightarrow> (\<forall>b d f. pci_read_config c b d f PCI_VENDOR_ID h' = pci_read_config c b d f PCI_VENDOR_ID h \<and>
     pci_read_config c b d f PCI_HEADER_TYPE h' = pci_read_config c b d f PCI_HEADER_TYPE h)"

text \<open>The functions of a device that are present, and those of all devices of the busses from \<open>first\<close> on.\<close>

definition functions_of :: "'h cfg_space \<Rightarrow> 'h \<Rightarrow> u8 \<Rightarrow> u8 \<Rightarrow> u8 list" where
  "functions_of c h b d =
     (if pci_vendor c b d 0 h = 0xFFFF then []
      else 0 # (if header_type c b d h AND 0x80 \<noteq> 0 then filter (\<lambda>f. pci_vendor c b d f h \<noteq> 0xFFFF) (map of_nat [1..<8]) else []))"

definition present_from :: "'h cfg_space \<Rightarrow> 'h \<Rightarrow> nat \<Rightarrow> (u8 \<times> u8 \<times> u8) list" where
  "present_from c h first = concat (map (\<lambda>b. concat (map (\<lambda>d. map (\<lambda>f. (b, d, f)) (functions_of c h b d)) (map of_nat [0..<32])))
     (map of_nat [first..<256]))"

definition location :: "pci_device \<Rightarrow> u8 \<times> u8 \<times> u8" where
  "location d = (pci_bus d, pci_dev d, pci_function d)"

lemma location_update [simp]:
  "location (d\<lparr>pci_bar := x\<rparr>) = location d" "location (d\<lparr>pci_bar_size := x\<rparr>) = location d"
  by (simp_all add: location_def)

lemma same_ids_refl [simp]: "same_ids c h h"
  by (simp add: same_ids_def)

lemma same_ids_trans: "same_ids c h h' \<Longrightarrow> same_ids c h' h'' \<Longrightarrow> same_ids c h h''"
  by (simp add: same_ids_def)

lemma same_ids_write: "ids_stable c \<Longrightarrow> i < 6 \<Longrightarrow> same_ids c h (pci_write_config c b d f (bar_offset i) v h)"
  by (simp add: same_ids_def ids_stable_def)

lemma same_ids_vendor: "same_ids c h h' \<Longrightarrow> pci_vendor c b d f h' = pci_vendor c b d f h"
  by (simp add: same_ids_def pci_vendor_def)

lemma same_ids_header: "same_ids c h h' \<Longrightarrow> header_type c b d h' = header_type c b d h"
  by (simp add: same_ids_def header_type_def)

lemma same_ids_size:
  assumes "ids_stable c" "i < 6" shows "same_ids c h (fst (pci_size_bar c b d f i bar h))"
  using same_ids_trans [OF same_ids_write same_ids_write, OF assms assms] by (simp add: pci_size_bar_def Let_def)

lemma read_bars_keeps:
  assumes "ids_stable c" "last_bar_short c"
  shows "\<exists>dev' h'. pci_read_bars c b d f i (dev, h) = Inr (dev', h') \<and> location dev' = location dev \<and> same_ids c h h'"
proof (induction "6 - i" arbitrary: i dev h rule: less_induct)
  case less
  show ?case
  proof (cases "i < 6")
    case True
    let ?r = "pci_read_config c b d f (bar_offset i) h"
    note step = pci_read_bars.simps [of c b d f i dev h]
    have rest: "\<exists>dev2 h2. pci_read_bars c b d f j (dev', h') = Inr (dev2, h2) \<and> location dev2 = location dev \<and> same_ids c h h2"
      if "i < j" "location dev' = location dev" "same_ids c h h'" for j dev' h'
      using less [of j dev' h'] that True by (metis diff_less_mono2 same_ids_trans)
    consider "?r AND 1 \<noteq> 0" | "?r AND 1 = 0" "?r AND 6 = 4" | "?r AND 1 = 0" "?r AND 6 \<noteq> 4" by blast
    then show ?thesis
    proof cases
      case 1
      then show ?thesis unfolding step using True by (auto simp: Let_def intro!: rest)
    next
      case 2
      then have j: "Suc i < 6" using assms(2) True by (cases "i = 5") (auto simp: last_bar_short_def)
      obtain h1 sz where s: "pci_size_bar c b d f (Suc i) ?r h = (h1, sz)" by fastforce
      then have "same_ids c h h1" using same_ids_size [OF assms(1) j, of h b d f ?r] by simp
      then show ?thesis unfolding step using 2 j by (auto simp: Let_def s intro!: rest)
    next
      case 3
      obtain h1 sz where s: "pci_size_bar c b d f i ?r h = (h1, sz)" by fastforce
      then have "same_ids c h h1" using same_ids_size [OF assms(1) True, of h b d f ?r] by simp
      then show ?thesis unfolding step using 3 True by (auto simp: Let_def s intro!: rest)
    qed
  qed (simp add: pci_read_bars.simps)
qed

lemma take_take_append: "take n (take n xs @ ys) = take n (xs @ ys)"
  by (simp add: min_def)

text \<open>A loop each of whose steps appends to a bounded table.\<close>

lemma fault_fold_appends:
  assumes "\<And>x s. x \<in> set xs \<Longrightarrow> P s \<Longrightarrow> \<exists>s'. F x s = Inr s' \<and> P s' \<and> K s' = take n (K s @ g x)"
    "P s" "length (K s) \<le> n"
  shows "\<exists>s'. fault_fold F xs s = Inr s' \<and> P s' \<and> K s' = take n (K s @ concat (map g xs))"
  using assms
proof (induction xs arbitrary: s)
  case (Cons x xs)
  obtain s1 where s1: "F x s = Inr s1" "P s1" "K s1 = take n (K s @ g x)" using Cons.prems(1) [of x s] Cons.prems(2) by auto
  have l: "length (K s1) \<le> n" by (simp only: s1(3) length_take)
  obtain s2 where "fault_fold F xs s1 = Inr s2" "P s2" "K s2 = take n (K s1 @ concat (map g xs))"
    using Cons.IH [OF _ s1(2)] Cons.prems(1) l by (meson list.set_intros(2))
  moreover have "take n (take n (K s @ g x) @ concat (map g xs)) = take n (K s @ g x @ concat (map g xs))"
    by (simp only: take_take_append append_assoc)
  ultimately show ?case using s1 by simp
qed simp

text \<open>The invariant of the scan: the machine still shows the same functions as \<open>h\<close>.\<close>

abbreviation scan_ok :: "'h cfg_space \<Rightarrow> 'h \<Rightarrow> 'h pci \<Rightarrow> bool" where
  "scan_ok c h s \<equiv> same_ids c h (pci_machine s)"
abbreviation locations :: "'h pci \<Rightarrow> (u8 \<times> u8 \<times> u8) list" where
  "locations s \<equiv> map location (pci_devices s)"

lemma locations_le: "locations s = take n xs \<Longrightarrow> length (pci_devices s) \<le> n"
  by (metis length_map length_take min.cobounded2)

lemma check_function_appends:
  assumes "ids_stable c" "last_bar_short c" "scan_ok c h s" "pci_vendor c b d f h \<noteq> 0xFFFF" "length (locations s) \<le> PCI_TABLE"
  shows "\<exists>s'. pci_check_function c b d f s = Inr s' \<and> scan_ok c h s' \<and> locations s' = take PCI_TABLE (locations s @ [(b, d, f)])"
proof (cases "length (pci_devices s) \<ge> PCI_TABLE")
  case True
  then show ?thesis using assms(3-5) by (simp add: pci_check_function_def)
next
  case False
  obtain dev' h' where r: "pci_read_bars c b d f 0 (pci_identify c b d f (pci_machine s), pci_machine s) = Inr (dev', h')"
    "location dev' = location (pci_identify c b d f (pci_machine s))" "same_ids c (pci_machine s) h'"
    using read_bars_keeps [OF assms(1,2)] by blast
  have "location (pci_identify c b d f (pci_machine s)) = (b, d, f)" by (simp add: location_def pci_identify_def Let_def)
  then show ?thesis
    using False r(1,2) same_ids_trans [OF assms(3) r(3)] same_ids_vendor [OF assms(3)] assms(4)
    by (simp add: pci_check_function_def)
qed

lemma check_device_appends:
  assumes "ids_stable c" "last_bar_short c" "scan_ok c h s" "length (locations s) \<le> PCI_TABLE"
  shows "\<exists>s'. pci_check_device c b d s = Inr s' \<and> scan_ok c h s' \<and>
    locations s' = take PCI_TABLE (locations s @ map (\<lambda>f. (b, d, f)) (functions_of c h b d))"
proof (cases "pci_vendor c b d 0 h = 0xFFFF")
  case True
  then show ?thesis using assms(3,4) same_ids_vendor [OF assms(3)] by (simp add: pci_check_device_def functions_of_def)
next
  case False
  let ?g = "\<lambda>f. if pci_vendor c b d f h \<noteq> 0xFFFF then [(b, d, f)] else []"
  obtain s1 where s1: "pci_check_function c b d 0 s = Inr s1" "scan_ok c h s1" "locations s1 = take PCI_TABLE (locations s @ [(b, d, 0)])"
    using check_function_appends [OF assms(1-3) False assms(4)] by blast
  have l1: "length (locations s1) \<le> PCI_TABLE" by (simp only: s1(3) length_take)
  have filter_g: "concat (map ?g fs) = map (\<lambda>f. (b, d, f)) (filter (\<lambda>f. pci_vendor c b d f h \<noteq> 0xFFFF) fs)" for fs
    by (induction fs) auto
  have "\<exists>s'. fault_fold (\<lambda>f s. if pci_vendor c b d f (pci_machine s) \<noteq> 0xFFFF then pci_check_function c b d f s else Inr s) fs s1 = Inr s' \<and>
      (scan_ok c h s' \<and> length (locations s') \<le> PCI_TABLE) \<and> locations s' = take PCI_TABLE (locations s1 @ concat (map ?g fs))" for fs
  proof (rule fault_fold_appends [where P = "\<lambda>s. scan_ok c h s \<and> length (locations s) \<le> PCI_TABLE"])
    fix f s assume ok: "scan_ok c h s \<and> length (locations s) \<le> PCI_TABLE"
    then have v: "pci_vendor c b d f (pci_machine s) = pci_vendor c b d f h" by (intro same_ids_vendor) blast
    show "\<exists>s'. (if pci_vendor c b d f (pci_machine s) \<noteq> 0xFFFF then pci_check_function c b d f s else Inr s) = Inr s' \<and>
        (scan_ok c h s' \<and> length (locations s') \<le> PCI_TABLE) \<and> locations s' = take PCI_TABLE (locations s @ ?g f)"
    proof (cases "pci_vendor c b d f h = 0xFFFF")
      case True
      then show ?thesis using ok by (simp add: v)
    next
      case False
      obtain s' where "pci_check_function c b d f s = Inr s'" "scan_ok c h s'" "locations s' = take PCI_TABLE (locations s @ [(b, d, f)])"
        using check_function_appends [OF assms(1,2) _ False, of s] ok by blast
      moreover have "length (pci_devices s') \<le> PCI_TABLE" by (rule locations_le) fact
      ultimately show ?thesis using False by (simp add: v)
    qed
  qed (use s1 l1 in simp_all)
  from this [of "map of_nat [1..<8]"] obtain s2 where s2:
    "fault_fold (\<lambda>f s. if pci_vendor c b d f (pci_machine s) \<noteq> 0xFFFF then pci_check_function c b d f s else Inr s) (map of_nat [1..<8]) s1 = Inr s2"
    "scan_ok c h s2" "locations s2 = take PCI_TABLE (locations s1 @ concat (map ?g (map of_nat [1..<8])))" by blast
  have vendor: "pci_vendor c b d 0 (pci_machine s) \<noteq> 0xFFFF" using False same_ids_vendor [OF assms(3)] by simp
  have header: "header_type c b d (pci_machine s1) = header_type c b d h" by (rule same_ids_header [OF s1(2)])
  show ?thesis
  proof (cases "header_type c b d h AND 0x80 = 0")
    case True
    then show ?thesis using False vendor s1 by (simp add: pci_check_device_def header functions_of_def)
  next
    case multi: False
    have "take PCI_TABLE (take PCI_TABLE (locations s @ [(b, d, 0)]) @ ys) = take PCI_TABLE (locations s @ (b, d, 0) # ys)" for ys
      by (simp only: take_take_append append_assoc append_Cons append_Nil)
    then have "locations s2 = take PCI_TABLE (locations s @ map (\<lambda>f. (b, d, f)) (functions_of c h b d))"
      using False multi by (simp only: s2(3) s1(3) filter_g functions_of_def if_False if_True simp_thms list.map)
    moreover have "pci_check_device c b d s = Inr s2"
      using multi vendor s1(1) s2(1) by (simp add: pci_check_device_def header)
    ultimately show ?thesis using s2(2) by blast
  qed
qed

lemma scan_buses_appends:
  assumes "ids_stable c" "last_bar_short c" "scan_ok c h s" "length (locations s) \<le> PCI_TABLE"
  shows "\<exists>s'. pci_scan_buses c first s = Inr s' \<and> scan_ok c h s' \<and> locations s' = take PCI_TABLE (locations s @ present_from c h first)"
proof -
  let ?P = "\<lambda>s. scan_ok c h s \<and> length (locations s) \<le> PCI_TABLE"
  have "\<exists>s'. pci_check_device c b d s = Inr s' \<and> ?P s' \<and>
      locations s' = take PCI_TABLE (locations s @ map (\<lambda>f. (b, d, f)) (functions_of c h b d))" if "?P s" for b d s
    using check_device_appends [OF assms(1,2), of h s b d] that by fastforce
  note device = this
  have "\<exists>s'. fault_fold (pci_check_device c b) (map of_nat [0..<32]) s = Inr s' \<and> ?P s' \<and>
      locations s' = take PCI_TABLE (locations s @ concat (map (\<lambda>d. map (\<lambda>f. (b, d, f)) (functions_of c h b d)) (map of_nat [0..<32])))"
    if "?P s" for b s
    by (rule fault_fold_appends [where P = ?P, OF device that]) (use that in simp_all)
  note bus = this
  have "\<exists>s'. fault_fold (\<lambda>b. fault_fold (pci_check_device c b) (map of_nat [0..<32])) (map of_nat [first..<256]) s = Inr s' \<and> ?P s' \<and>
      locations s' = take PCI_TABLE (locations s @ present_from c h first)"
    unfolding present_from_def
    by (rule fault_fold_appends [where P = ?P, OF bus]) (use assms in simp_all)
  then show ?thesis unfolding pci_scan_buses_def by blast
qed

lemma functions_of_at_most_8: "length (functions_of c h b d) \<le> 8"
proof -
  have "length (filter P (map of_nat [1..<8])) \<le> 7" for P :: "u8 \<Rightarrow> bool"
    using length_filter_le [of P "map of_nat [1..<8]"] by simp
  then show ?thesis by (simp add: functions_of_def)
qed

lemma length_concat_le:
  assumes "\<And>x. x \<in> set xs \<Longrightarrow> length (f x) \<le> n"
  shows "length (concat (map f xs)) \<le> n * length xs"
  using assms
proof (induction xs)
  case (Cons x xs)
  then have "length (concat (map f xs)) \<le> n * length xs" "length (f x) \<le> n" by simp_all
  then show ?case by simp
qed simp

lemma present_fits: "length (present_from c h first) \<le> PCI_TABLE"
proof -
  let ?dev = "\<lambda>b. concat (map (\<lambda>d. map (\<lambda>f. (b, d, f)) (functions_of c h b d)) (map of_nat [0..<32]))"
  have "length (?dev b) \<le> 8 * length (map of_nat [0..<32] :: u8 list)" for b
    by (rule length_concat_le) (simp add: functions_of_at_most_8)
  then have "length (?dev b) \<le> 256" for b by simp
  then have "length (present_from c h first) \<le> 256 * length (map of_nat [first..<256] :: u8 list)"
    unfolding present_from_def by (intro length_concat_le)
  then show ?thesis by (simp add: PCI_TABLE_def)
qed


lemma present_fromI:
  assumes "b \<in> of_nat ` {first..<256}" "d \<in> of_nat ` {0..<32}" "f \<in> set (functions_of c h b d)"
  shows "(b, d, f) \<in> set (present_from c h first)"
proof -
  have concat_mapI: "y \<in> set (concat (map g xs))" if "x \<in> set xs" "y \<in> set (g x)" for g :: "u8 \<Rightarrow> (u8 \<times> u8 \<times> u8) list" and x y xs
    using that by auto
  show ?thesis unfolding present_from_def
    by (rule concat_mapI [where x = b], simp only: set_map set_upt assms(1), rule concat_mapI [where x = d],
        simp only: set_map set_upt assms(2), simp add: assms(3))
qed

definition one_device :: "unit cfg_space" where
  "one_device = \<lparr>cfg_read = (\<lambda>_ a. if a = pci_address 0 3 0 0 then 0x12348086 else if a = pci_address 0 0 0 0x0C then 0 else 0xFFFFFFFF),
     cfg_write = (\<lambda>h _ _. h)\<rparr>"

definition no_devices :: "unit pci" where
  "no_devices = \<lparr>pci_devices = [], pci_initialized = False, pci_machine = ()\<rparr>"

lemma one_device_short: "last_bar_short one_device" "ids_stable one_device"
  by (simp_all add: last_bar_short_def ids_stable_def pci_read_config_def one_device_def)


text \<open>
  With several host bridges all busses from the number of each bridge on are scanned once per bridge, so
  that a device is recorded as often as there are bridges with a number up to its bus.
\<close>

theorem scan_repeats_per_bridge:
  assumes "ids_stable c" "last_bar_short c" "\<not> pci_initialized s" "header_type c 0 0 (pci_machine s) AND 0x80 \<noteq> 0"
  shows "\<exists>s'. pci_init c s = Inr (s', True) \<and> map location (pci_devices s') = take PCI_TABLE
    (concat (map (\<lambda>f. if pci_vendor c 0 0 (of_nat f) (pci_machine s) \<noteq> 0xFFFF then present_from c (pci_machine s) f else []) [0..<8]))"
proof -
  let ?s = "s\<lparr>pci_devices := []\<rparr>" and ?h = "pci_machine s"
  let ?P = "\<lambda>s. scan_ok c ?h s \<and> length (locations s) \<le> PCI_TABLE"
  let ?g = "\<lambda>f. if pci_vendor c 0 0 (of_nat f) ?h \<noteq> 0xFFFF then present_from c ?h f else []"
  have v: "pci_vendor c 0 0 (of_nat f) (pci_machine s) = pci_vendor c 0 0 (of_nat f) ?h" if "?P s" for f s
    using that by (intro same_ids_vendor) blast
  have step: "\<exists>s'. (if pci_vendor c 0 0 (of_nat f) (pci_machine s) \<noteq> 0xFFFF then pci_scan_buses c f s else Inr s) = Inr s' \<and> ?P s' \<and>
      locations s' = take PCI_TABLE (locations s @ ?g f)" if ok: "?P s" for f s
  proof (cases "pci_vendor c 0 0 (of_nat f) ?h = 0xFFFF")
    case True
    then show ?thesis using ok by (simp add: v [OF ok])
  next
    case False
    obtain s' where "pci_scan_buses c f s = Inr s'" "scan_ok c ?h s'" "locations s' = take PCI_TABLE (locations s @ present_from c ?h f)"
      using scan_buses_appends [OF assms(1,2), of ?h s f] ok by blast
    moreover have "length (pci_devices s') \<le> PCI_TABLE" by (rule locations_le) fact
    ultimately show ?thesis using False by (simp add: v [OF ok])
  qed
  have "\<exists>s'. fault_fold (\<lambda>f s. if pci_vendor c 0 0 (of_nat f) (pci_machine s) \<noteq> 0xFFFF then pci_scan_buses c f s else Inr s) [0..<8] ?s = Inr s' \<and>
      ?P s' \<and> locations s' = take PCI_TABLE (locations ?s @ concat (map ?g [0..<8]))"
    by (rule fault_fold_appends [where P = ?P, OF step]) simp_all
  then show ?thesis using assms(3,4) by (auto simp: pci_init_def)
qed

end
