(* ===== verification/Serial_Port.thy ===== *)
theory Serial_Port
  imports Maya_Prelude
begin

unbundle bit_operations_syntax

text \<open>
  The serial port driver (\<^verbatim>\<open>drivers/serial.c\<close>). Port writes are recorded in the trace; the line status is
  a stream of bytes, so that waiting for the transmitter need not end. Shown here: what \<^verbatim>\<open>serial_init\<close>
  programs, that \<^verbatim>\<open>serial_write\<close> sends the bytes in order and returns when the transmitter keeps becoming
  empty, and that the high byte of the divisor never reaches its register.
\<close>

definition COM1 :: u16 where "COM1 = 0x3F8"
definition COM2 :: u16 where "COM2 = 0x2F8"
definition COM3 :: u16 where "COM3 = 0x3E8"
definition COM4 :: u16 where "COM4 = 0x2E8"
definition SERIAL_LINE_ENABLE_DLAB :: u8 where "SERIAL_LINE_ENABLE_DLAB = 0x80"
definition SERIAL_FIFO_ENABLE :: u8 where "SERIAL_FIFO_ENABLE = 0xC7"
definition SERIAL_EIGHT_BITS :: u8 where "SERIAL_EIGHT_BITS = 0x03"

text \<open>\<open>ser_reads\<close> counts the reads of the line status.\<close>

record serial =
  ports_initialized :: "bool list"
  ser_trace :: "(u16 \<times> u8) list"
  ser_reads :: nat

definition ser_outb :: "u16 \<Rightarrow> u8 \<Rightarrow> serial \<Rightarrow> serial" where
  "ser_outb port v s = s\<lparr>ser_trace := ser_trace s @ [(port, v)]\<rparr>"

definition port_index :: "u16 \<Rightarrow> nat option" where
  "port_index port =
     (if port = COM1 then Some 0 else if port = COM2 then Some 1 else if port = COM3 then Some 2
      else if port = COM4 then Some 3 else None)"

definition serial_configure_baud_rate :: "u16 \<Rightarrow> u16 \<Rightarrow> serial \<Rightarrow> serial \<times> bool" where
  "serial_configure_baud_rate port divisor s =
     (ser_outb port (ucast (divisor AND 0x00FF))
        (ser_outb port (ucast (drop_bit 8 divisor AND 0x00FF)) (ser_outb (port + 3) SERIAL_LINE_ENABLE_DLAB s)), True)"

definition serial_configure_line :: "u16 \<Rightarrow> serial \<Rightarrow> serial \<times> bool" where
  "serial_configure_line port s = (ser_outb (port + 3) SERIAL_EIGHT_BITS s, True)"

definition serial_configure_fifo :: "u16 \<Rightarrow> serial \<Rightarrow> serial \<times> bool" where
  "serial_configure_fifo port s = (ser_outb (port + 2) SERIAL_FIFO_ENABLE s, True)"

definition serial_configure_modem :: "u16 \<Rightarrow> serial \<Rightarrow> serial \<times> bool" where
  "serial_configure_modem port s = (ser_outb (port + 4) 0x0B s, True)"

definition serial_init :: "u16 \<Rightarrow> serial \<Rightarrow> serial \<times> bool" where
  "serial_init port s =
     (case port_index port of
        None \<Rightarrow> (s, False)
      | Some i \<Rightarrow>
          if ports_initialized s ! i then (s, True)
          else let (s1, b1) = serial_configure_baud_rate port 3 s in if \<not> b1 then (s1, False)
            else let (s2, b2) = serial_configure_line port s1 in if \<not> b2 then (s2, False)
              else let (s3, b3) = serial_configure_fifo port s2 in if \<not> b3 then (s3, False)
                else let (s4, b4) = serial_configure_modem port s3 in if \<not> b4 then (s4, False)
                  else (s4\<lparr>ports_initialized := (ports_initialized s4)[i := True]\<rparr>, True))"

definition transmit_empty :: "u8 \<Rightarrow> bool" where
  "transmit_empty status \<longleftrightarrow> status AND 0x20 \<noteq> 0"

definition serial_is_transmit_empty :: "(nat \<Rightarrow> u8) \<Rightarrow> serial \<Rightarrow> serial \<times> bool" where
  "serial_is_transmit_empty lsr s = (s\<lparr>ser_reads := Suc (ser_reads s)\<rparr>, transmit_empty (lsr (ser_reads s)))"

definition serial_write_byte :: "(nat \<Rightarrow> u8) \<Rightarrow> u16 \<Rightarrow> u8 \<Rightarrow> serial \<Rightarrow> (serial \<times> bool) option" where
  "serial_write_byte lsr port byte s =
     (case port_index port of
        None \<Rightarrow> Some (s, False)
      | Some i \<Rightarrow>
          if \<not> ports_initialized s ! i then Some (s, False)
          else map_option (\<lambda>n. (ser_outb port byte (s\<lparr>ser_reads := n\<rparr>), True)) (wait_port transmit_empty lsr (ser_reads s)))"

fun serial_write_loop :: "(nat \<Rightarrow> u8) \<Rightarrow> u16 \<Rightarrow> u8 list \<Rightarrow> nat \<Rightarrow> serial \<Rightarrow> (serial \<times> nat) option" where
  "serial_write_loop lsr port [] written s = Some (s, written)"
| "serial_write_loop lsr port (b # bs) written s =
     Option.bind (serial_write_byte lsr port b s) (\<lambda>(s1, ok). if \<not> ok then Some (s1, written) else serial_write_loop lsr port bs (Suc written) s1)"

text \<open>The data is \<open>None\<close> for the null pointer, otherwise the \<open>size\<close> bytes at it.\<close>

definition serial_write :: "(nat \<Rightarrow> u8) \<Rightarrow> u16 \<Rightarrow> u8 list option \<Rightarrow> serial \<Rightarrow> (serial \<times> nat) option" where
  "serial_write lsr port data s =
     (case data of None \<Rightarrow> Some (s, 0) | Some bytes \<Rightarrow> if bytes = [] then Some (s, 0) else serial_write_loop lsr port bytes 0 s)"

definition serial_is_initialized :: "u16 \<Rightarrow> serial \<Rightarrow> bool" where
  "serial_is_initialized port s = (case port_index port of None \<Rightarrow> False | Some i \<Rightarrow> ports_initialized s ! i)"

section \<open>Sending\<close>

lemma write_byte_sends:
  assumes "serial_is_initialized port s" "\<And>k. \<exists>n \<ge> k. transmit_empty (lsr n)"
  shows "\<exists>s'. serial_write_byte lsr port b s = Some (s', True) \<and> ser_trace s' = ser_trace s @ [(port, b)] \<and>
    ports_initialized s' = ports_initialized s"
proof -
  obtain i where i: "port_index port = Some i" "ports_initialized s ! i"
    using assms(1) by (auto simp: serial_is_initialized_def split: option.splits)
  obtain k where "wait_port transmit_empty lsr (ser_reads s) = Some k"
    using wait_port_returns [of "ser_reads s" transmit_empty lsr] assms(2) by blast
  then show ?thesis using i by (simp add: serial_write_byte_def ser_outb_def)
qed

lemma write_loop_sends:
  assumes "serial_is_initialized port s" "\<And>k. \<exists>n \<ge> k. transmit_empty (lsr n)"
  shows "\<exists>s'. serial_write_loop lsr port bs w s = Some (s', w + length bs) \<and> ser_trace s' = ser_trace s @ map (Pair port) bs \<and>
    ports_initialized s' = ports_initialized s"
  using assms(1)
proof (induction bs arbitrary: s w)
  case (Cons b bs)
  obtain s1 where s1: "serial_write_byte lsr port b s = Some (s1, True)" "ser_trace s1 = ser_trace s @ [(port, b)]"
    "ports_initialized s1 = ports_initialized s"
    using write_byte_sends [OF Cons.prems assms(2)] by blast
  then have "serial_is_initialized port s1" using Cons.prems by (simp add: serial_is_initialized_def split: option.splits)
  from Cons.IH [OF this, of "Suc w"] show ?case using s1 by auto
qed simp

text \<open>
  On an initialised port whose transmitter keeps becoming empty, a write returns the number of bytes
  and has sent exactly these bytes, in order, to the data port.
\<close>

theorem serial_write_sends:
  assumes "serial_is_initialized port s" "\<And>k. \<exists>n \<ge> k. transmit_empty (lsr n)"
  shows "\<exists>s'. serial_write lsr port (Some bs) s = Some (s', length bs) \<and> ser_trace s' = ser_trace s @ map (Pair port) bs"
  using write_loop_sends [OF assms, of bs 0] by (auto simp: serial_write_def)

definition serial_example :: serial where
  "serial_example = \<lparr>ports_initialized = [False, False, False, False], ser_trace = [], ser_reads = 0\<rparr>"

theorem serial_write_sends_witness:
  "\<exists>s'. serial_write (\<lambda>n. if even n then 0x60 else 0) COM1 (Some [72, 105]) (fst (serial_init COM1 serial_example)) = Some (s', 2) \<and>
    drop 6 (ser_trace s') = [(COM1, 72), (COM1, 105)]"
proof -
  let ?s = "fst (serial_init COM1 serial_example)"
  have "\<exists>n \<ge> k. transmit_empty (if even n then 0x60 else 0)" for k :: nat
    by (rule exI [of _ "2 * k"]) (simp add: transmit_empty_def)
  moreover have "serial_is_initialized COM1 ?s" "length (ser_trace ?s) = 6"
    by (simp_all add: serial_init_def serial_is_initialized_def serial_example_def port_index_def serial_configure_baud_rate_def
        serial_configure_line_def serial_configure_fifo_def serial_configure_modem_def ser_outb_def)
  ultimately show ?thesis
    using serial_write_sends [of COM1 ?s "\<lambda>n. if even n then 0x60 else 0" "[72, 105]"] by fastforce
qed

text \<open>On a port that is not initialised nothing is sent and 0 returned.\<close>

theorem serial_write_uninitialised:
  assumes "\<not> serial_is_initialized port s"
  shows "serial_write lsr port data s = Some (s, 0)"
proof -
  have "serial_write_byte lsr port b s = Some (s, False)" for b
    using assms by (auto simp: serial_write_byte_def serial_is_initialized_def split: option.splits)
  then show ?thesis by (cases "data = None \<or> the data = []") (auto simp: serial_write_def neq_Nil_conv split: option.splits)
qed

section \<open>The divisor\<close>

text \<open>
  The two divisor registers of the chip, as its data sheet defines them: while bit 7 of the line control
  register is set, the first port is the low byte of the divisor and the second the high byte.
\<close>

record uart =
  uart_dlab :: bool
  uart_low :: u8
  uart_high :: u8

definition uart_write :: "u16 \<Rightarrow> u16 \<times> u8 \<Rightarrow> uart \<Rightarrow> uart" where
  "uart_write base w u =
     (case w of (p, v) \<Rightarrow>
        if p = base + 3 then u\<lparr>uart_dlab := (v AND 0x80 \<noteq> 0)\<rparr>
        else if p = base \<and> uart_dlab u then u\<lparr>uart_low := v\<rparr>
        else if p = base + 1 \<and> uart_dlab u then u\<lparr>uart_high := v\<rparr>
        else u)"

text \<open>
  Configuring a divisor sets the low byte; the high byte is written to the same register before and lost,
  and the register of the high byte keeps what it had.
\<close>

theorem divisor_high_byte_lost:
  fixes d :: u16
  shows "ser_trace (fst (serial_configure_baud_rate base d s)) = ser_trace s @ ws \<Longrightarrow>
    fold (uart_write base) ws u = u\<lparr>uart_dlab := True, uart_low := ucast (d AND 0xFF)\<rparr>"
proof -
  assume "ser_trace (fst (serial_configure_baud_rate base d s)) = ser_trace s @ ws"
  then have "ws = [(base + 3, 0x80), (base, ucast (drop_bit 8 d AND 0xFF)), (base, ucast (d AND 0xFF))]"
    by (simp add: serial_configure_baud_rate_def ser_outb_def SERIAL_LINE_ENABLE_DLAB_def)
  then show ?thesis by (simp add: uart_write_def)
qed

end
