(* ===== verification/Stdio.thy ===== *)
theory Stdio
  imports Vga_Console Serial_Port
begin

unbundle bit_operations_syntax

text \<open>
  Formatted output (\<^verbatim>\<open>libc/stdio.c\<close>) on the console and the first serial port. The variable arguments are
  the list of 32-bit words on the stack, taken from the front; \<open>mem\<close> gives the string at an address. A
  formatted output is computed as the text it prints, which is then put out character by character; the
  characters are signed. \<^verbatim>\<open>vsprintf\<close> and \<^verbatim>\<open>vsnprintf\<close> are defined nowhere and are parameters. Shown here:
  numbers are printed so that they can be read back, the number buffer is never left, the text reaches
  both devices, and what the function returns is not the number of characters printed.
\<close>

section \<open>Characters\<close>

record stdio =
  con :: vga_state
  com :: serial
  stdio_initialized :: bool

definition EOF :: int where "EOF = -1"

definition stdio_init :: "u8 \<Rightarrow> stdio \<Rightarrow> stdio \<times> bool" where
  "stdio_init default_color s =
     (if stdio_initialized s then (s, True)
      else let (v, vok) = vga_init default_color (con s); s1 = s\<lparr>con := v\<rparr> in
        if \<not> vok then (s1, False)
        else let (p, pok) = serial_init COM1 (com s1); s2 = s1\<lparr>com := p\<rparr> in
          if \<not> pok then (s2, False) else (s2\<lparr>stdio_initialized := True\<rparr>, True))"

text \<open>The argument is an \<open>int\<close> of which the low byte is shown; waiting for the serial port need not end.\<close>

definition putchar_io :: "(nat \<Rightarrow> u8) \<Rightarrow> int \<Rightarrow> stdio \<Rightarrow> (stdio \<times> int) option" where
  "putchar_io lsr c s =
     (if \<not> stdio_initialized s then Some (s, EOF)
      else let ch = (word_of_int c :: u8) in
        map_option (\<lambda>(p, _). (s\<lparr>con := vga_putchar ch (con s), com := p\<rparr>, c)) (serial_write lsr COM1 (Some [ch]) (com s)))"

text \<open>The string without its terminator; a \<^verbatim>\<open>char\<close> is converted to \<^verbatim>\<open>int\<close> with its sign.\<close>

fun puts_loop :: "(nat \<Rightarrow> u8) \<Rightarrow> u8 list \<Rightarrow> stdio \<Rightarrow> (stdio \<times> int) option" where
  "puts_loop lsr [] s = map_option (\<lambda>(s1, _). (s1, 1)) (putchar_io lsr 10 s)"
| "puts_loop lsr (c # cs) s =
     Option.bind (putchar_io lsr (sint c) s) (\<lambda>(s1, r). if r = EOF then Some (s1, EOF) else puts_loop lsr cs s1)"

definition puts_io :: "(nat \<Rightarrow> u8) \<Rightarrow> u8 list option \<Rightarrow> stdio \<Rightarrow> (stdio \<times> int) option" where
  "puts_io lsr str s = (case str of None \<Rightarrow> Some (s, EOF) | Some cs \<Rightarrow> if \<not> stdio_initialized s then Some (s, EOF) else puts_loop lsr cs s)"

definition stdio_is_initialized :: "stdio \<Rightarrow> bool" where "stdio_is_initialized s = stdio_initialized s"

section \<open>Numbers\<close>

definition MAX_NUMBER_LENGTH :: nat where "MAX_NUMBER_LENGTH = 32"

text \<open>\<^verbatim>\<open>"0123456789ABCDEF"\<close> and its lower case.\<close>

definition digit_table :: "bool \<Rightarrow> u8 list" where
  "digit_table uppercase = map of_nat ([48..<58] @ (if uppercase then [65..<71] else [97..<103]))"

text \<open>The digits are put into the buffer from its end, which holds the terminator.\<close>

function number_loop :: "u8 list \<Rightarrow> u32 \<Rightarrow> u32 \<Rightarrow> u8 list \<Rightarrow> fault + u8 list" where
  "number_loop digits base num acc =
     (if num = 0 then Inr acc
      else if base = 0 then Inl Divide_error
      else if length acc + 1 \<ge> MAX_NUMBER_LENGTH \<or> unat (num mod base) \<ge> length digits then Inl Out_of_bounds
      else number_loop digits base (num div base) (digits ! unat (num mod base) # acc))"
  by pat_completeness auto
termination by (relation "measure (\<lambda>(_, _, _, acc). MAX_NUMBER_LENGTH - length acc)") auto

declare number_loop.simps [simp del]

definition print_number :: "u32 \<Rightarrow> u32 \<Rightarrow> bool \<Rightarrow> bool \<Rightarrow> fault + u8 list" where
  "print_number num base is_signed uppercase =
     (let neg = is_signed \<and> sint num < 0; sign = (if neg then [0x2D] else []); n = (if neg then - num else num) in
      if n = 0 then Inr (sign @ [0x30])
      else fault_bind (number_loop (digit_table uppercase) base n []) (\<lambda>ds. Inr (sign @ ds)))"

section \<open>Formats\<close>

text \<open>\<open>fs_out\<close> is the text printed, \<open>fs_args\<close> the arguments not yet taken.\<close>

record fmt_state =
  fs_written :: int
  in_format :: bool
  long_arg :: bool
  fs_upper :: bool
  zero_pad :: bool
  min_width :: u32
  fs_args :: "u32 list"
  fs_out :: "u8 list"

definition next_arg :: "fmt_state \<Rightarrow> fault + u32 \<times> fmt_state" where
  "next_arg s = (case fs_args s of [] \<Rightarrow> Inl Out_of_bounds | a # as \<Rightarrow> Inr (a, s\<lparr>fs_args := as\<rparr>))"

definition emit :: "u8 list \<Rightarrow> int \<Rightarrow> fmt_state \<Rightarrow> fmt_state" where
  "emit cs n s = s\<lparr>fs_out := fs_out s @ cs, fs_written := fs_written s + n, in_format := False\<rparr>"

definition format_number :: "u8 list \<Rightarrow> u32 \<Rightarrow> bool \<Rightarrow> bool \<Rightarrow> fmt_state \<Rightarrow> fault + fmt_state" where
  "format_number prefix base is_signed uppercase s =
     fault_bind (next_arg s) (\<lambda>(a, s1). fault_bind (print_number a base is_signed uppercase) (\<lambda>t. Inr (emit (prefix @ t) 1 s1)))"

text \<open>A character after a percent sign. Both widths of arguments are 32 bits here.\<close>

definition conversion :: "(ptr \<Rightarrow> u8 list) \<Rightarrow> u8 \<Rightarrow> fmt_state \<Rightarrow> fault + fmt_state" where
  "conversion mem c s =
     (if c = 0x6C then Inr (s\<lparr>long_arg := True\<rparr>)
      else if c = 0x30 \<and> min_width s = 0 then Inr (s\<lparr>zero_pad := True\<rparr>)
      else if 0x30 \<le> c \<and> c \<le> 0x39 then Inr (s\<lparr>min_width := min_width s * 10 + (ucast c - 0x30)\<rparr>)
      else if c = 0x64 \<or> c = 0x69 then format_number [] 10 True False s
      else if c = 0x75 then format_number [] 10 False False s
      else if c = 0x78 \<or> c = 0x58 then format_number [] 16 False (c = 0x58) (s\<lparr>fs_upper := (c = 0x58)\<rparr>)
      else if c = 0x63 then fault_bind (next_arg s) (\<lambda>(a, s1). Inr (emit [ucast a] 1 s1))
      else if c = 0x73 then
        fault_bind (next_arg s) (\<lambda>(a, s1).
          let str = (if a = NULL then [0x28, 0x6E, 0x75, 0x6C, 0x6C, 0x29] else mem a) in Inr (emit str (int (length str)) s1))
      else if c = 0x70 then format_number [0x30, 0x78] 16 False False s
      else if c = 0x25 then Inr (emit [0x25] 1 s)
      else Inr (emit [0x25, c] 2 s))"

definition format_char :: "(ptr \<Rightarrow> u8 list) \<Rightarrow> u8 \<Rightarrow> fmt_state \<Rightarrow> fault + fmt_state" where
  "format_char mem c s =
     (if in_format s then conversion mem c s
      else if c = 0x25 then Inr (s\<lparr>in_format := True, long_arg := False, fs_upper := False, zero_pad := False, min_width := 0\<rparr>)
      else Inr (s\<lparr>fs_out := fs_out s @ [c], fs_written := fs_written s + 1\<rparr>))"

fun format_loop :: "(ptr \<Rightarrow> u8 list) \<Rightarrow> u8 list \<Rightarrow> fmt_state \<Rightarrow> fault + fmt_state" where
  "format_loop mem [] s = Inr s"
| "format_loop mem (c # cs) s = fault_bind (format_char mem c s) (format_loop mem cs)"

definition fmt_start :: "u32 list \<Rightarrow> fmt_state" where
  "fmt_start args = \<lparr>fs_written = 0, in_format = False, long_arg = False, fs_upper = False, zero_pad = False, min_width = 0,
     fs_args = args, fs_out = []\<rparr>"

text \<open>Putting out a text: \<^verbatim>\<open>putchar\<close> for each character, its result ignored.\<close>

fun put_text :: "(nat \<Rightarrow> u8) \<Rightarrow> u8 list \<Rightarrow> stdio \<Rightarrow> stdio option" where
  "put_text lsr [] s = Some s"
| "put_text lsr (c # cs) s = Option.bind (putchar_io lsr (sint c) s) (\<lambda>(s1, _). put_text lsr cs s1)"

definition vprintf_io :: "(nat \<Rightarrow> u8) \<Rightarrow> (ptr \<Rightarrow> u8 list) \<Rightarrow> u8 list option \<Rightarrow> u32 list \<Rightarrow> stdio \<Rightarrow> (fault + stdio \<times> int) option" where
  "vprintf_io lsr mem fmt args s =
     (case fmt of None \<Rightarrow> Some (Inr (s, -1))
      | Some cs \<Rightarrow>
          if \<not> stdio_initialized s then Some (Inr (s, -1))
          else case format_loop mem cs (fmt_start args) of Inl e \<Rightarrow> Some (Inl e)
          | Inr f \<Rightarrow> map_option (\<lambda>s1. Inr (s1, fs_written f)) (put_text lsr (fs_out f) s))"

definition printf_io :: "(nat \<Rightarrow> u8) \<Rightarrow> (ptr \<Rightarrow> u8 list) \<Rightarrow> u8 list option \<Rightarrow> u32 list \<Rightarrow> stdio \<Rightarrow> (fault + stdio \<times> int) option" where
  "printf_io lsr mem fmt args s =
     (if \<not> stdio_initialized s \<or> fmt = None then Some (Inr (s, -1)) else vprintf_io lsr mem fmt args s)"

text \<open>\<open>vs\<close> and \<open>vsn\<close> are the missing functions: buffer contents and result.\<close>

definition sprintf_io :: "(u8 list \<Rightarrow> u32 list \<Rightarrow> 'b \<times> int) \<Rightarrow> 'b option \<Rightarrow> u8 list option \<Rightarrow> u32 list \<Rightarrow> 'b option \<times> int" where
  "sprintf_io vs buffer fmt args =
     (if buffer = None \<or> fmt = None then (buffer, -1) else let (b, r) = vs (the fmt) args in (Some b, r))"

definition snprintf_io :: "(nat \<Rightarrow> u8 list \<Rightarrow> u32 list \<Rightarrow> 'b \<times> int) \<Rightarrow> 'b option \<Rightarrow> nat \<Rightarrow> u8 list option \<Rightarrow> u32 list \<Rightarrow> 'b option \<times> int" where
  "snprintf_io vsn buffer n fmt args =
     (if buffer = None \<or> fmt = None \<or> n = 0 then (buffer, -1) else let (b, r) = vsn n (the fmt) args in (Some b, r))"

section \<open>Numbers read back\<close>

text \<open>The text of a number in a base up to 16, and its value.\<close>

definition digit_text :: "bool \<Rightarrow> nat \<Rightarrow> u8" where
  "digit_text uppercase d = (if d < 10 then of_nat (48 + d) else if uppercase then of_nat (55 + d) else of_nat (87 + d))"

fun nat_text :: "bool \<Rightarrow> nat \<Rightarrow> nat \<Rightarrow> u8 list" where
  "nat_text uppercase b n = (if b < 2 \<or> n < b then [digit_text uppercase n] else nat_text uppercase b (n div b) @ [digit_text uppercase (n mod b)])"

declare nat_text.simps [simp del]

definition digit_value :: "u8 \<Rightarrow> nat" where
  "digit_value c = (let n = unat c in if n < 58 then n - 48 else if n < 71 then n - 55 else n - 87)"

definition text_value :: "nat \<Rightarrow> u8 list \<Rightarrow> nat" where
  "text_value b cs = foldl (\<lambda>v c. v * b + digit_value c) 0 cs"

lemma digit_table_nth:
  assumes "d < 16" shows "digit_table up ! d = digit_text up d"
proof -
  have "list_all (\<lambda>d. digit_table up ! d = digit_text up d) [0..<16]"
    by (cases up) (simp_all add: digit_table_def digit_text_def upt_rec)
  then show ?thesis using assms by (simp add: list_all_iff)
qed

lemma length_digit_table [simp]: "length (digit_table up) = 16"
  by (simp add: digit_table_def)

lemma digit_value_text:
  assumes "d < 16" shows "digit_value (digit_text up d) = d"
proof -
  have "list_all (\<lambda>d. digit_value (digit_text up d) = d) [0..<16]"
    by (cases up) (simp_all add: digit_value_def digit_text_def upt_rec Let_def)
  then show ?thesis using assms by (simp add: list_all_iff)
qed

lemma text_value_nat_text:
  assumes "2 \<le> b" "b \<le> 16" shows "text_value b (nat_text up b n) = n"
proof (induction n rule: less_induct)
  case (less n)
  show ?case
  proof (cases "n < b")
    case True
    then show ?thesis using assms digit_value_text [of n up] by (simp add: nat_text.simps [of up b n] text_value_def)
  next
    case False
    then have "n div b < n" using assms by simp
    moreover have "n mod b < 16" using assms(2) mod_less_divisor [of b n] assms(1) by linarith
    ultimately show ?thesis
      using less assms False digit_value_text [of "n mod b" up] by (simp add: nat_text.simps [of up b n] text_value_def)
  qed
qed

text \<open>The loop puts the digits of a number below \<open>base ^ k\<close> before what is there.\<close>

lemma number_loop_text:
  assumes "2 \<le> base" "base \<le> 16" "num \<noteq> 0" "unat num < unat base ^ k" "k + length acc < MAX_NUMBER_LENGTH"
  shows "number_loop (digit_table up) base num acc = Inr (nat_text up (unat base) (unat num) @ acc)"
  using assms(3-5)
proof (induction k arbitrary: num acc)
  case 0
  then show ?case by (metis less_one power_0 unat_eq_zero)
next
  case (Suc k)
  let ?b = "unat base" and ?n = "unat num"
  have b: "2 \<le> ?b" "?b \<le> 16" using assms(1,2) by (simp_all add: word_le_nat_alt)
  have m: "unat (num mod base) = ?n mod ?b" and q: "unat (num div base) = ?n div ?b"
    by (simp_all add: unat_mod unat_div)
  have "?n mod ?b < ?b" using b by simp
  then have lt: "?n mod ?b < 16" using b(2) by linarith
  have b0: "base \<noteq> 0" using b by auto
  have d: "digit_table up ! (?n mod ?b) = digit_text up (?n mod ?b)" by (rule digit_table_nth [OF lt])
  have step: "number_loop (digit_table up) base num acc =
      number_loop (digit_table up) base (num div base) (digit_text up (?n mod ?b) # acc)"
    using Suc.prems lt b0 by (subst number_loop.simps) (simp add: m d)
  show ?case
  proof (cases "?n < ?b")
    case True
    then have "num div base = 0" using q by (simp add: unat_eq_zero)
    then show ?thesis using True unfolding step by (simp add: number_loop.simps nat_text.simps [of up ?b ?n])
  next
    case False
    have "?n div ?b \<noteq> 0" using False b by (simp add: div_eq_0_iff)
    then have "num div base \<noteq> 0" using q by (metis unat_0)
    moreover have "unat (num div base) < ?b ^ k"
      unfolding q using Suc.prems(2) b by (simp add: less_mult_imp_div_less mult.commute)
    ultimately have "number_loop (digit_table up) base (num div base) (digit_text up (?n mod ?b) # acc) =
        Inr (nat_text up ?b (?n div ?b) @ digit_text up (?n mod ?b) # acc)"
      using Suc.IH [of "num div base" "digit_text up (?n mod ?b) # acc"] Suc.prems(3) by (simp add: q)
    then show ?thesis using False b unfolding step by (simp add: nat_text.simps [of up ?b ?n])
  qed
qed

text \<open>
  In every base from 3 to 16 a number is printed as its digits, without leaving the buffer: unsigned ones
  as they are, signed ones with a minus sign and their magnitude, the smallest one included.
\<close>

definition int_text :: "nat \<Rightarrow> int \<Rightarrow> u8 list" where
  "int_text b i = (if i < 0 then 0x2D # nat_text False b (nat (- i)) else nat_text False b (nat i))"

lemma print_unsigned:
  assumes "3 \<le> base" "base \<le> 16"
  shows "print_number num base False up = Inr (nat_text up (unat base) (unat num))"
proof (cases "num = 0")
  case True
  then show ?thesis using assms by (simp add: print_number_def nat_text.simps digit_text_def word_le_nat_alt)
next
  case False
  have "unat num < 3 ^ 30" using unat_u32_less [of num] by simp
  also have "(3 :: nat) ^ 30 \<le> unat base ^ 30" using assms(1) by (intro power_mono) (simp_all add: word_le_nat_alt)
  finally have "unat num < unat base ^ 30" .
  moreover have "2 \<le> base" using assms(1) by (simp add: word_le_nat_alt)
  ultimately show ?thesis
    using number_loop_text [of base num 30 "[]" up] False assms(2) by (simp add: print_number_def MAX_NUMBER_LENGTH_def)
qed

lemma unat_minus_negative:
  assumes "sint (n :: u32) < 0" shows "unat (- n) = nat (- sint n)"
proof -
  have r: "- (2 ^ 31) \<le> sint n" using sint_greater_eq [of n] by simp
  have "uint (- n) = (- sint n) mod 2 ^ 32"
    using uint_word_ariths(4) [of n] uint_sint [of n] by (simp add: take_bit_eq_mod mod_minus_eq)
  also have "\<dots> = - sint n" using r assms by (intro mod_pos_pos_trivial) simp_all
  finally show ?thesis by (simp flip: nat_uint_eq)
qed

theorem print_signed:
  assumes "3 \<le> base" "base \<le> 16"
  shows "print_number num base True False = Inr (int_text (unat base) (sint num))"
proof (cases "sint num < 0")
  case True
  then have "- num \<noteq> 0" by auto
  have bind: "fault_bind (fault_bind r Inr) f = fault_bind r f" for r :: "fault + u8 list" and f :: "u8 list \<Rightarrow> fault + u8 list"
    by (cases r) simp_all
  have "print_number num base True False = fault_bind (print_number (- num) base False False) (\<lambda>ds. Inr (0x2D # ds))"
    using True \<open>- num \<noteq> 0\<close> by (simp add: print_number_def Let_def bind)
  then show ?thesis using True print_unsigned [OF assms, of "- num" False] by (simp add: int_text_def unat_minus_negative)
next
  case False
  have "uint num = sint num"
  proof -
    have "uint num = sint num mod 2 ^ 32" using uint_sint [of num] by (simp add: take_bit_eq_mod)
    also have "\<dots> = sint num" using False sint_less [of num] by (intro mod_pos_pos_trivial) simp_all
    finally show ?thesis .
  qed
  then have "unat num = nat (sint num)" by (simp flip: nat_uint_eq)
  moreover have "print_number num base True False = print_number num base False False" using False by (simp add: print_number_def)
  ultimately show ?thesis using False print_unsigned [OF assms, of num False] by (simp add: int_text_def)
qed

section \<open>Formats as lists of items\<close>

text \<open>What a format can ask for, with the argument; its spelling, its arguments, its text and what it adds to the result.\<close>

datatype item = Literal u8 | Percent | Signed u32 | Unsigned u32 | Hex u32 | HEX u32 | Character u32 | String_at u32 | Pointer u32

fun item_format :: "item \<Rightarrow> u8 list" where
  "item_format (Literal c) = [c]"
| "item_format Percent = [0x25, 0x25]"
| "item_format (Signed _) = [0x25, 0x64]"
| "item_format (Unsigned _) = [0x25, 0x75]"
| "item_format (Hex _) = [0x25, 0x78]"
| "item_format (HEX _) = [0x25, 0x58]"
| "item_format (Character _) = [0x25, 0x63]"
| "item_format (String_at _) = [0x25, 0x73]"
| "item_format (Pointer _) = [0x25, 0x70]"

fun item_args :: "item \<Rightarrow> u32 list" where
  "item_args (Literal _) = []"
| "item_args Percent = []"
| "item_args (Signed a) = [a]"
| "item_args (Unsigned a) = [a]"
| "item_args (Hex a) = [a]"
| "item_args (HEX a) = [a]"
| "item_args (Character a) = [a]"
| "item_args (String_at a) = [a]"
| "item_args (Pointer a) = [a]"

fun item_text :: "(ptr \<Rightarrow> u8 list) \<Rightarrow> item \<Rightarrow> u8 list" where
  "item_text mem (Literal c) = [c]"
| "item_text mem Percent = [0x25]"
| "item_text mem (Signed a) = int_text 10 (sint a)"
| "item_text mem (Unsigned a) = nat_text False 10 (unat a)"
| "item_text mem (Hex a) = nat_text False 16 (unat a)"
| "item_text mem (HEX a) = nat_text True 16 (unat a)"
| "item_text mem (Character a) = [ucast a]"
| "item_text mem (String_at a) = (if a = NULL then [0x28, 0x6E, 0x75, 0x6C, 0x6C, 0x29] else mem a)"
| "item_text mem (Pointer a) = 0x30 # 0x78 # nat_text False 16 (unat a)"

fun item_count :: "(ptr \<Rightarrow> u8 list) \<Rightarrow> item \<Rightarrow> int" where
  "item_count mem (String_at a) = int (length (item_text mem (String_at a)))"
| "item_count mem _ = 1"

lemma format_item:
  assumes "\<not> in_format s" "fs_args s = item_args it @ rest" "\<And>c. it = Literal c \<Longrightarrow> c \<noteq> 0x25"
  shows "\<exists>s'. format_loop mem (item_format it) s = Inr s' \<and> \<not> in_format s' \<and> fs_args s' = rest \<and>
    fs_out s' = fs_out s @ item_text mem it \<and> fs_written s' = fs_written s + item_count mem it"
  using assms by (cases it)
    (simp_all add: format_char_def conversion_def format_number_def next_arg_def emit_def print_signed print_unsigned Let_def)

lemma format_loop_append: "format_loop mem (xs @ ys) s = fault_bind (format_loop mem xs s) (format_loop mem ys)"
proof (induction xs arbitrary: s)
  case (Cons c xs)
  show ?case by (cases "format_char mem c s") (simp_all add: Cons.IH)
qed simp

lemma format_items:
  assumes "\<not> in_format s" "fs_args s = concat (map item_args its) @ rest" "Literal 0x25 \<notin> set its"
  shows "\<exists>s'. format_loop mem (concat (map item_format its)) s = Inr s' \<and> fs_args s' = rest \<and>
    fs_out s' = fs_out s @ concat (map (item_text mem) its) \<and> fs_written s' = fs_written s + sum_list (map (item_count mem) its)"
  using assms
proof (induction its arbitrary: s)
  case (Cons it its)
  obtain s1 where s1: "format_loop mem (item_format it) s = Inr s1" "\<not> in_format s1" "fs_args s1 = concat (map item_args its) @ rest"
    "fs_out s1 = fs_out s @ item_text mem it" "fs_written s1 = fs_written s + item_count mem it"
    using format_item [of s it "concat (map item_args its) @ rest" mem] Cons.prems by auto
  then show ?case using Cons.IH [OF s1(2,3)] Cons.prems(3) by (auto simp: format_loop_append)
qed simp

section \<open>What reaches the devices\<close>

definition stdio_ready :: "stdio \<Rightarrow> bool" where
  "stdio_ready s \<longleftrightarrow> stdio_initialized s \<and> serial_is_initialized COM1 (com s)"

lemma put_text_reaches:
  assumes "stdio_ready s" "\<And>k. \<exists>n \<ge> k. transmit_empty (lsr n)"
  shows "\<exists>s'. put_text lsr cs s = Some s' \<and> stdio_ready s' \<and> con s' = vga_write cs (con s) \<and>
    ser_trace (com s') = ser_trace (com s) @ map (Pair COM1) cs"
  using assms(1)
proof (induction cs arbitrary: s)
  case (Cons c cs)
  have init: "stdio_initialized s" "serial_is_initialized COM1 (com s)" using Cons.prems by (simp_all add: stdio_ready_def)
  obtain p where p: "serial_write lsr COM1 (Some [c]) (com s) = Some (p, 1)" "ser_trace p = ser_trace (com s) @ [(COM1, c)]"
    "ports_initialized p = ports_initialized (com s)"
    using write_loop_sends [OF init(2) assms(2), of "[c]" 0] by (auto simp: serial_write_def)
  let ?s = "s\<lparr>con := vga_putchar c (con s), com := p\<rparr>"
  have "putchar_io lsr (sint c) s = Some (?s, sint c)" using init p by (simp add: putchar_io_def)
  moreover have "stdio_ready ?s" using init p(3) by (simp add: stdio_ready_def serial_is_initialized_def split: option.splits)
  ultimately show ?case using Cons.IH [of ?s] p(2) by (auto simp: vga_write_def)
qed (simp add: vga_write_def)

text \<open>
  C30. A format made of literal characters and conversions puts the text of its items, with the numbers as
  their digits, on the screen and on the serial line, in order; the result counts the characters of
  strings but only one for a number.
\<close>

theorem vprintf_prints_items:
  assumes "stdio_ready s" "\<And>k. \<exists>n \<ge> k. transmit_empty (lsr n)" "Literal 0x25 \<notin> set its"
  shows "\<exists>s'. vprintf_io lsr mem (Some (concat (map item_format its))) (concat (map item_args its) @ rest) s =
      Some (Inr (s', sum_list (map (item_count mem) its))) \<and>
    con s' = vga_write (concat (map (item_text mem) its)) (con s) \<and>
    ser_trace (com s') = ser_trace (com s) @ map (Pair COM1) (concat (map (item_text mem) its))"
proof -
  obtain f where f: "format_loop mem (concat (map item_format its)) (fmt_start (concat (map item_args its) @ rest)) = Inr f"
    "fs_out f = concat (map (item_text mem) its)" "fs_written f = sum_list (map (item_count mem) its)"
    using format_items [of "fmt_start (concat (map item_args its) @ rest)" its rest mem] assms(3) by (auto simp: fmt_start_def)
  show ?thesis
    using put_text_reaches [OF assms(1,2), of "fs_out f"] f assms(1) by (auto simp: vprintf_io_def stdio_ready_def)
qed

definition stdio_example :: stdio where
  "stdio_example = \<lparr>con = \<lparr>vga_buffer = replicate 2000 0, vga_x = 0, vga_y = 0, vga_color = 7, cursor_enabled = False, vga_initialized = True,
     vga_ports = []\<rparr>, com = fst (serial_init COM1 serial_example), stdio_initialized = True\<rparr>"

theorem vprintf_prints_items_witness:
  "\<exists>s'. vprintf_io (\<lambda>_. 0x60) (\<lambda>_. []) (Some [0x78, 0x3D, 0x25, 0x64]) [- 42] stdio_example = Some (Inr (s', 3)) \<and>
    drop 6 (ser_trace (com s')) = map (Pair COM1) [0x78, 0x3D, 0x2D, 0x34, 0x32]"
proof -
  have "stdio_ready stdio_example" "length (ser_trace (com stdio_example)) = 6"
    by (simp_all add: stdio_ready_def stdio_example_def serial_init_def serial_is_initialized_def serial_example_def port_index_def
        serial_configure_baud_rate_def serial_configure_line_def serial_configure_fifo_def serial_configure_modem_def ser_outb_def)
  moreover have "transmit_empty 0x60" by (simp add: transmit_empty_def)
  moreover have "int_text 10 (- 42) = [0x2D, 0x34, 0x32]" by (simp add: int_text_def nat_text.simps digit_text_def)
  ultimately show ?thesis
    using vprintf_prints_items [where s = stdio_example and lsr = "\<lambda>_. 0x60" and its = "[Literal 0x78, Literal 0x3D, Signed (- 42)]"
        and mem = "\<lambda>_. []" and rest = "[]"] by fastforce
qed

text \<open>The text of a number in a base from 3 to 16 has its value.\<close>

theorem printed_number_reads_back:
  assumes "3 \<le> base" "base \<le> 16"
  shows "\<exists>t. print_number num base False up = Inr t \<and> text_value (unat base) t = unat num"
  using print_unsigned [OF assms, where num = num and up = up] text_value_nat_text [where b = "unat base" and up = up and n = "unat num"] assms
  by (auto simp: word_le_nat_alt)

theorem printed_number_reads_back_witness:
  "\<exists>t. print_number 0xBEEF 16 False True = Inr t \<and> text_value 16 t = 48879"
  using printed_number_reads_back [where base = 16 and num = "0xBEEF" and up = True] by simp

text \<open>A width and a leading zero are read and ignored.\<close>

lemma width_ignored:
  assumes "\<not> in_format s" "\<forall>c \<in> set ds. 0x30 \<le> c \<and> c \<le> 0x39" "fs_args s = [a]"
  shows "\<exists>s'. format_loop mem (0x25 # ds @ [0x64]) s = Inr s' \<and> fs_out s' = fs_out s @ int_text 10 (sint a)"
proof -
  have "\<exists>s'. format_loop mem (ds @ [0x64]) t = Inr s' \<and> fs_out s' = fs_out t @ int_text 10 (sint a)"
    if "in_format t" "fs_args t = [a]" for t
    using assms(2) that
  proof (induction ds arbitrary: t)
    case Nil
    then show ?case by (simp add: format_char_def conversion_def format_number_def next_arg_def emit_def print_signed)
  next
    case (Cons c ds)
    have c: "0x30 \<le> c" "c \<le> 0x39" "c \<noteq> 0x6C" using Cons.prems(1) by auto
    define t1 where "t1 = (if c = 0x30 \<and> min_width t = 0 then t\<lparr>zero_pad := True\<rparr> else t\<lparr>min_width := min_width t * 10 + (ucast c - 0x30)\<rparr>)"
    have "format_char mem c t = Inr t1" using c Cons.prems(2) by (simp add: format_char_def conversion_def t1_def)
    moreover have "in_format t1" "fs_args t1 = [a]" "fs_out t1 = fs_out t" using Cons.prems(2,3) by (simp_all add: t1_def)
    ultimately show ?case using Cons.IH [of t1] Cons.prems(1) by simp
  qed
  from this [of "s\<lparr>in_format := True, long_arg := False, fs_upper := False, zero_pad := False, min_width := 0\<rparr>"]
  show ?thesis using assms(1,3) by (simp add: format_char_def)
qed

text \<open>A conversion without an argument reads beyond the arguments.\<close>

lemma missing_argument_faults:
  "vprintf_io lsr mem (Some [0x25, 0x64]) [] s = (if stdio_initialized s then Some (Inl Out_of_bounds) else Some (Inr (s, -1)))"
  by (simp add: vprintf_io_def fmt_start_def format_char_def conversion_def format_number_def next_arg_def)

text \<open>A string with the byte 255 is cut there: as a signed character it is \<^verbatim>\<open>EOF\<close>.\<close>

lemma puts_stops_at_255:
  assumes "stdio_ready s" "\<And>k. \<exists>n \<ge> k. transmit_empty (lsr n)"
  shows "\<exists>s'. puts_io lsr (Some (0xFF # cs)) s = Some (s', EOF) \<and> ser_trace (com s') = ser_trace (com s) @ [(COM1, 0xFF)]"
proof -
  have init: "stdio_initialized s" "serial_is_initialized COM1 (com s)" using assms(1) by (simp_all add: stdio_ready_def)
  obtain p where "serial_write lsr COM1 (Some [0xFF]) (com s) = Some (p, 1)" "ser_trace p = ser_trace (com s) @ [(COM1, 0xFF)]"
    using write_loop_sends [OF init(2) assms(2), of "[0xFF]" 0] by (auto simp: serial_write_def)
  moreover have minus_1: "(- 1 :: u8) = 0xFF" by simp
  ultimately show ?thesis using init by (simp add: puts_io_def putchar_io_def EOF_def Let_def minus_1)
qed

end
