(* ===== verification/Draw_Ops.thy ===== *)
theory Draw_Ops
  imports Widgets
begin

text \<open>
  The calls the desktop makes to the graphics library, as data: the code that draws a part of the desktop
  is modelled by the list of the calls it makes, in order. \<open>run_ops\<close> carries them out. Shown here: a list
  of calls always ends, changes only pixels, and what the last rectangle over a pixel leaves there.
\<close>

datatype draw_op =
    Op_fill int int int int u32
  | Op_rect int int int int u32
  | Op_line int int int int u32
  | Op_text string int int u32
  | Op_alpha int int int int u32 u8
  | Op_rounded int int int int int u32

definition run_op :: "(char \<Rightarrow> u8 list) \<Rightarrow> draw_op \<Rightarrow> gfx \<Rightarrow> gfx option" where
  "run_op font p g = (case p of
      Op_fill x y w h c \<Rightarrow> Some (graphics_fill_rect x y w h c g)
    | Op_rect x y w h c \<Rightarrow> graphics_draw_rect x y w h c g
    | Op_line x1 y1 x2 y2 c \<Rightarrow> graphics_draw_line x1 y1 x2 y2 c g
    | Op_text t x y c \<Rightarrow> Some (graphics_draw_text font (Some t) x y c g)
    | Op_alpha x y w h c a \<Rightarrow> Some (graphics_fill_rect_alpha x y w h c a g)
    | Op_rounded x y w h r c \<Rightarrow> Some (graphics_draw_rounded_rect x y w h r c g))"

fun run_ops :: "(char \<Rightarrow> u8 list) \<Rightarrow> draw_op list \<Rightarrow> gfx \<Rightarrow> gfx option" where
  "run_ops font [] g = Some g"
| "run_ops font (p # ps) g = Option.bind (run_op font p g) (run_ops font ps)"

lemma line_op_total: "\<exists>g'. graphics_draw_line x1 y1 x2 y2 c g = Some g' \<and> same_mode g' g"
proof -
  obtain ps where "line_points x1 y1 x2 y2 = Some ps" using line_points_path by blast
  then show ?thesis using put_pixels_same_mode [of c ps g] by (simp add: graphics_draw_line_def)
qed

lemma draw_rect_total: "\<exists>g'. graphics_draw_rect x y w h c g = Some g' \<and> same_mode g' g"
proof (cases "g_initialized g")
  case True
  have step: "\<exists>g2. graphics_draw_line x1 y1 x2 y2 c g1 = Some g2 \<and> same_mode g2 g" if "same_mode g1 g" for x1 y1 x2 y2 g1
    using line_op_total [of x1 y1 x2 y2 c g1] that same_mode_trans by blast
  obtain g1 where g1: "graphics_draw_line x y (x + w - 1) y c g = Some g1" "same_mode g1 g"
    using step [OF same_mode_refl] by blast
  obtain g2 where g2: "graphics_draw_line x (y + h - 1) (x + w - 1) (y + h - 1) c g1 = Some g2" "same_mode g2 g"
    using step [OF g1(2)] by blast
  obtain g3 where g3: "graphics_draw_line x y x (y + h - 1) c g2 = Some g3" "same_mode g3 g"
    using step [OF g2(2)] by blast
  obtain g4 where "graphics_draw_line (x + w - 1) y (x + w - 1) (y + h - 1) c g3 = Some g4" "same_mode g4 g"
    using step [OF g3(2)] by blast
  then show ?thesis using True g1 g2 g3 by (simp add: graphics_draw_rect_def)
qed (simp add: graphics_draw_rect_def)

lemma run_op_total: "\<exists>g'. run_op font p g = Some g' \<and> same_mode g' g"
  unfolding run_op_def
  by (cases p) (simp_all add: line_op_total draw_rect_total fill_rect_same_mode draw_text_same_mode fill_rect_alpha_same_mode
      graphics_draw_rounded_rect_def same_mode_trans [OF fill_rect_same_mode fill_rect_same_mode])

lemma run_ops_total: "\<exists>g'. run_ops font ps g = Some g' \<and> same_mode g' g"
proof (induction ps arbitrary: g)
  case (Cons p ps)
  obtain g1 where "run_op font p g = Some g1" "same_mode g1 g" using run_op_total by blast
  moreover obtain g2 where "run_ops font ps g1 = Some g2" "same_mode g2 g1" using Cons.IH by blast
  ultimately show ?case using same_mode_trans [of g2 g1 g] by simp
qed simp

lemma run_ops_append: "run_ops font (ps @ qs) g = Option.bind (run_ops font ps g) (run_ops font qs)"
proof (induction ps arbitrary: g)
  case (Cons p ps)
  show ?case by (cases "run_op font p g") (simp_all add: Cons.IH)
qed simp

text \<open>A filled rectangle after anything else: its colour inside, what was there outside.\<close>

lemma run_ops_fill_last:
  assumes "g_initialized g" "gfx_ok g" "on_screen g a b" "run_ops font ps g = Some g1"
  shows "\<exists>g'. run_ops font (ps @ [Op_fill x y w h c]) g = Some g' \<and>
    pixel g' a b = (if x \<le> a \<and> a < x + w \<and> y \<le> b \<and> b < y + h then c else pixel g1 a b)"
proof -
  have "same_mode g1 g" using run_ops_total [of font ps g] assms(4) by auto
  then have "g_initialized g1" "gfx_ok g1" "on_screen g1 a b"
    using assms(1-3) same_modeD [of g1 g] by (simp_all add: gfx_ok_def on_screen_def)
  then have "pixel (graphics_fill_rect x y w h c g1) a b = (if x \<le> a \<and> a < x + w \<and> y \<le> b \<and> b < y + h then c else pixel g1 a b)"
    using put_pixels_pixel [of g1 a b] by (simp add: graphics_fill_rect_def)
  then show ?thesis using assms(4) by (simp add: run_ops_append run_op_def)
qed

end
