(* ===== verification/Task_View.thy ===== *)
theory Task_View
  imports Draw_Ops Stdio
begin

unbundle bit_operations_syntax

text \<open>
  The task switcher (\<^verbatim>\<open>gui/taskview.c\<close>) on the windows of Window_Manager. Drawing is the list of the
  calls made to the graphics library; a window in the list whose structure is gone would be a dangling
  pointer. Shown here: the selection and the virtual desktops stay in their ranges on every run, the
  arrow keys go round the windows, Enter and a click on a card raise the window, and on the screen of
  this system the lower part of a card belongs to the strip of desktops instead.
\<close>

section \<open>State and operations\<close>

definition TV_CARD_BG :: u32 where "TV_CARD_BG = 0x1E1E1E"
definition TV_CARD_ACTIVE :: u32 where "TV_CARD_ACTIVE = 0x0078D4"
definition TV_TEXT :: u32 where "TV_TEXT = 0xFFFFFF"
definition TV_TEXT_DIM :: u32 where "TV_TEXT_DIM = 0x888888"
definition TV_CARD_W :: int where "TV_CARD_W = 180"
definition TV_CARD_H :: int where "TV_CARD_H = 120"
definition TV_CARD_GAP :: int where "TV_CARD_GAP = 20"
definition TV_THUMB_H :: int where "TV_THUMB_H = 80"
definition TV_V_PADDING :: int where "TV_V_PADDING = 80"
definition MAX_VIRTUAL_DESKTOPS :: int where "MAX_VIRTUAL_DESKTOPS = 4"

lemmas card_dims = TV_CARD_W_def TV_CARD_H_def TV_CARD_GAP_def TV_V_PADDING_def

record task_view =
  tv_visible :: bool
  tv_focused :: int
  tv_desk :: int
  tv_desks :: int
  tv_alt_tab :: bool

definition taskview_open :: "bool \<Rightarrow> task_view \<Rightarrow> task_view" where
  "taskview_open alt_tab s =
     s\<lparr>tv_visible := True, tv_alt_tab := alt_tab, tv_focused := 0, tv_desks := (if tv_desks s < 1 then 1 else tv_desks s)\<rparr>"

definition taskview_close :: "task_view \<Rightarrow> task_view" where
  "taskview_close s = s\<lparr>tv_visible := False\<rparr>"

definition taskview_is_open :: "task_view \<Rightarrow> bool" where "taskview_is_open s = tv_visible s"

section \<open>Drawing\<close>

definition draw_window_card :: "int \<Rightarrow> int \<Rightarrow> window \<Rightarrow> bool \<Rightarrow> draw_op list" where
  "draw_window_card x y w active =
     [Op_fill x y TV_CARD_W TV_CARD_H (if active then TV_CARD_ACTIVE else TV_CARD_BG),
      Op_fill (x + 4) (y + 4) (TV_CARD_W - 8) TV_THUMB_H 0x2C2C2C,
      Op_fill (x + 4) (y + 4) (TV_CARD_W - 8) 14 0x202020,
      Op_text (take 13 (w_title w)) (x + 8) (y + 6) 0xCCCCCC,
      Op_text (w_title w) (x + 6) (y + TV_THUMB_H + 10) TV_TEXT] @
     (if active then [Op_fill x (y + TV_CARD_H - 3) TV_CARD_W 3 0x00AAFF] else []) @
     [Op_rect x y TV_CARD_W TV_CARD_H (if active then 0x0091EA else 0x555555)]"

text \<open>\<^verbatim>\<open>sprintf\<close> with \<open>"Desktop %d"\<close>.\<close>

definition desk_label :: "int \<Rightarrow> string" where
  "desk_label d = ''Desktop '' @ map (\<lambda>c. char_of (unat c)) (int_text 10 (d + 1))"

definition card_start :: "int \<Rightarrow> int \<Rightarrow> int" where
  "card_start wc sw = c_half (sw - (wc * TV_CARD_W + (wc - 1) * TV_CARD_GAP))"

definition card_x :: "int \<Rightarrow> int \<Rightarrow> int \<Rightarrow> int" where
  "card_x wc sw i = card_start wc sw + i * (TV_CARD_W + TV_CARD_GAP)"

text \<open>The cards of the windows, from the given index on.\<close>

fun draw_cards :: "task_view \<Rightarrow> window_manager \<Rightarrow> int \<Rightarrow> int \<Rightarrow> int list \<Rightarrow> fault + draw_op list" where
  "draw_cards s wm wc sw [] = Inr []"
| "draw_cards s wm wc sw (i # is) = (case window_get_by_index i wm of
     None \<Rightarrow> draw_cards s wm wc sw is
   | Some p \<Rightarrow> (case wm_store wm p of None \<Rightarrow> Inl Dangling_pointer
     | Some w \<Rightarrow> fault_bind (draw_cards s wm wc sw is) (\<lambda>ops.
         Inr (draw_window_card (card_x wc sw i) TV_V_PADDING w (i = tv_focused s) @ ops))))"

definition draw_desks :: "task_view \<Rightarrow> int \<Rightarrow> int \<Rightarrow> draw_op list" where
  "draw_desks s sw desk_y =
     [Op_fill 0 desk_y sw 70 0x141414, Op_line 0 desk_y sw desk_y 0x444444, Op_text ''Virtual desktops'' 20 (desk_y + 6) TV_TEXT_DIM] @
     concat (map (\<lambda>d. [Op_fill (20 + d * 120) (desk_y + 22) 100 38 (if d = tv_desk s then TV_CARD_ACTIVE else TV_CARD_BG),
                       Op_text (desk_label d) (20 + d * 120 + 10) (desk_y + 36) TV_TEXT]) (int_range 0 (tv_desks s))) @
     (let nd_x = 20 + tv_desks s * 120 in
      if nd_x + 110 < sw - 30
      then [Op_fill nd_x (desk_y + 22) 110 38 0x333333, Op_text ''+ New Desktop'' (nd_x + 10) (desk_y + 36) TV_TEXT] else [])"

definition draw_task_view_full :: "task_view \<Rightarrow> window_manager \<Rightarrow> int \<Rightarrow> int \<Rightarrow> fault + draw_op list" where
  "draw_task_view_full s wm sw sh =
     (let wc = int (window_get_count wm); desk_y = sh - 70; base = Op_fill 0 0 sw sh 0x0A0A0A # draw_desks s sw desk_y in
      if wc = 0 then Inr (base @ [Op_text ''No open windows on this desktop'' (c_half sw - 100) (c_half sh) TV_TEXT_DIM])
      else fault_bind (draw_cards s wm wc sw (int_range 0 wc)) (\<lambda>cards.
        Inr (base @ cards @ [Op_text ''Arrow keys: navigate   Enter/click: switch   Esc: close'' 30 (sh - 70 - 20) TV_TEXT_DIM])))"

text \<open>The compact strip: cards until one does not fit any more.\<close>

fun draw_strip :: "task_view \<Rightarrow> window_manager \<Rightarrow> int \<Rightarrow> int \<Rightarrow> int \<Rightarrow> int list \<Rightarrow> fault + draw_op list" where
  "draw_strip s wm sx sy strip_w [] = Inr []"
| "draw_strip s wm sx sy strip_w (i # is) = (case window_get_by_index i wm of
     None \<Rightarrow> draw_strip s wm sx sy strip_w is
   | Some p \<Rightarrow>
       let thumb_w = TV_CARD_W div 2; thumb_h = 100 - 24; cx = sx + 8 + i * (thumb_w + 8) in
       if cx + thumb_w > sx + strip_w - 8 then Inr []
       else (case wm_store wm p of None \<Rightarrow> Inl Dangling_pointer
         | Some w \<Rightarrow> fault_bind (draw_strip s wm sx sy strip_w is) (\<lambda>ops.
             Inr ([Op_fill cx (sy + 6) thumb_w thumb_h (if i = tv_focused s then TV_CARD_ACTIVE else TV_CARD_BG),
                   Op_text (take 1 (w_title w)) (cx + thumb_w div 2 - 3) (sy + 8) TV_TEXT] @
                  (if i = tv_focused s then [Op_rect (cx - 1) (sy + 5) (thumb_w + 2) (thumb_h + 2) 0x0091EA] else []) @ ops))))"

definition draw_alt_tab :: "task_view \<Rightarrow> window_manager \<Rightarrow> int \<Rightarrow> int \<Rightarrow> fault + draw_op list" where
  "draw_alt_tab s wm sw sh =
     (let wc = int (window_get_count wm) in
      if wc = 0 then Inr []
      else let strip_h = 100; w0 = wc * (TV_CARD_W div 2 + 10) + 20; strip_w = (if w0 > sw - 60 then sw - 60 else w0);
               sx = c_half (sw - strip_w); sy = c_half (sh - strip_h) in
        fault_bind (draw_strip s wm sx sy strip_w (int_range 0 wc)) (\<lambda>cards.
          fault_bind (case window_get_by_index (tv_focused s) wm of
              None \<Rightarrow> Inr []
            | Some p \<Rightarrow> (case wm_store wm p of None \<Rightarrow> Inl Dangling_pointer
                | Some w \<Rightarrow> Inr [Op_text (w_title w) (sx + 10) (sy + strip_h - 16) TV_TEXT]))
            (\<lambda>title. Inr ([Op_fill sx sy strip_w strip_h 0x1A1A1A, Op_rect sx sy strip_w strip_h 0x555555] @ cards @ title))))"

definition taskview_draw :: "task_view \<Rightarrow> window_manager \<Rightarrow> int \<Rightarrow> int \<Rightarrow> fault + draw_op list" where
  "taskview_draw s wm sw sh =
     (if \<not> tv_visible s then Inr []
      else if tv_alt_tab s then draw_alt_tab s wm sw sh else draw_task_view_full s wm sw sh)"

section \<open>Input\<close>

definition focus_card :: "int \<Rightarrow> window_manager \<Rightarrow> fault + window_manager" where
  "focus_card i wm = (case window_get_by_index i wm of None \<Rightarrow> Inr wm | Some w \<Rightarrow> window_focus w wm)"

definition taskview_handle_key :: "u8 \<Rightarrow> u8 \<Rightarrow> task_view \<times> window_manager \<Rightarrow> fault + task_view \<times> window_manager" where
  "taskview_handle_key ascii scancode = (\<lambda>(s, wm).
     let wc = int (window_get_count wm); m = (if wc \<noteq> 0 then wc else 1) in
     if \<not> tv_visible s then Inr (s, wm)
     else if scancode = 77 \<or> ascii = 9 then Inr (s\<lparr>tv_focused := (tv_focused s + 1) mod m\<rparr>, wm)
     else if scancode = 75 then Inr (s\<lparr>tv_focused := (tv_focused s - 1 + wc) mod m\<rparr>, wm)
     else if ascii = 13 \<or> ascii = 10 then fault_bind (focus_card (tv_focused s) wm) (\<lambda>wm1. Inr (taskview_close s, wm1))
     else if ascii = 27 then Inr (taskview_close s, wm)
     else Inr (s, wm))"

text \<open>A click on the strip: perhaps one desktop more, then the desktop under the pointer.\<close>

definition click_desks :: "int \<Rightarrow> task_view \<Rightarrow> task_view" where
  "click_desks x s =
     (let nd_x = 20 + tv_desks s * 120;
          s1 = (if x \<ge> nd_x \<and> x \<le> nd_x + 110 \<and> tv_desks s < MAX_VIRTUAL_DESKTOPS then s\<lparr>tv_desks := tv_desks s + 1\<rparr> else s)
      in fold (\<lambda>d t. if x \<ge> 20 + d * 120 \<and> x \<le> 20 + d * 120 + 100 then t\<lparr>tv_desk := d\<rparr> else t) (int_range 0 (tv_desks s1)) s1)"

definition in_card :: "int \<Rightarrow> int \<Rightarrow> int \<Rightarrow> int \<Rightarrow> int \<Rightarrow> bool" where
  "in_card wc sw x y i \<longleftrightarrow> x \<ge> card_x wc sw i \<and> x \<le> card_x wc sw i + TV_CARD_W \<and> y \<ge> TV_V_PADDING \<and> y \<le> TV_V_PADDING + TV_CARD_H"

definition taskview_handle_mouse :: "int \<Rightarrow> int \<Rightarrow> u8 \<Rightarrow> int \<Rightarrow> int \<Rightarrow> task_view \<times> window_manager \<Rightarrow> fault + task_view \<times> window_manager" where
  "taskview_handle_mouse x y buttons sw sh = (\<lambda>(s, wm).
     let wc = int (window_get_count wm) in
     if \<not> tv_visible s \<or> buttons = 0 then Inr (s, wm)
     else if tv_alt_tab s then Inr (taskview_close s, wm)
     else if y \<ge> sh - 70 then Inr (click_desks x s, wm)
     else case List.find (in_card wc sw x y) (int_range 0 wc) of
       Some i \<Rightarrow> fault_bind (focus_card i wm) (\<lambda>wm1. Inr (taskview_close s, wm1))
     | None \<Rightarrow> Inr (taskview_close s, wm))"

section \<open>The selection stays in range\<close>

definition tv_ok :: "task_view \<Rightarrow> bool" where
  "tv_ok s \<longleftrightarrow> 0 \<le> tv_focused s \<and> 0 \<le> tv_desk s \<and> tv_desk s < max 1 (tv_desks s) \<and> 0 \<le> tv_desks s \<and>
     tv_desks s \<le> MAX_VIRTUAL_DESKTOPS \<and> (tv_visible s \<longrightarrow> 1 \<le> tv_desks s)"

text \<open>The fold over the desktops selects the one whose field holds \<open>x\<close>.\<close>

definition desk_at :: "int \<Rightarrow> int \<Rightarrow> bool" where
  "desk_at x d \<longleftrightarrow> x \<ge> 20 + d * 120 \<and> x \<le> 20 + d * 120 + 100"

lemma desk_at_unique: "desk_at x d \<Longrightarrow> desk_at x e \<Longrightarrow> d = e"
  by (simp add: desk_at_def)

lemma fold_desks:
  "fold (\<lambda>d t. if desk_at x d then t\<lparr>tv_desk := d\<rparr> else t) ds s = s\<lparr>tv_desk := (case List.find (desk_at x) ds of None \<Rightarrow> tv_desk s | Some d \<Rightarrow> d)\<rparr>"
proof (induction ds arbitrary: s)
  case (Cons d ds)
  show ?case
  proof (cases "desk_at x d")
    case True
    have "e = d" if "List.find (desk_at x) ds = Some e" for e
      using find_in_set [OF that] desk_at_unique [OF True] by blast
    then show ?thesis using True by (auto simp: Cons.IH split: option.split)
  qed (simp add: Cons.IH)
qed simp

lemma set_int_range: "set (int_range lo n) = {lo..<lo + n}"
proof -
  have "x \<in> (\<lambda>i. lo + int i) ` {0..<nat n}" if "lo \<le> x" "x < lo + n" for x
    using that by (intro image_eqI [where x = "nat (x - lo)"]) auto
  then show ?thesis by (auto simp: int_range_def)
qed

lemma click_desks_eq:
  "click_desks x s =
     (let n = (if x \<ge> 20 + tv_desks s * 120 \<and> x \<le> 20 + tv_desks s * 120 + 110 \<and> tv_desks s < MAX_VIRTUAL_DESKTOPS then tv_desks s + 1 else tv_desks s)
      in s\<lparr>tv_desks := n, tv_desk := (case List.find (desk_at x) (int_range 0 n) of None \<Rightarrow> tv_desk s | Some d \<Rightarrow> d)\<rparr>)"
  unfolding click_desks_def Let_def desk_at_def [symmetric] fold_desks by (simp split: option.split)

lemma click_desks_ok:
  assumes "tv_ok s" shows "tv_ok (click_desks x s)"
proof -
  define n where "n = (if x \<ge> 20 + tv_desks s * 120 \<and> x \<le> 20 + tv_desks s * 120 + 110 \<and> tv_desks s < MAX_VIRTUAL_DESKTOPS
    then tv_desks s + 1 else tv_desks s)"
  have n: "tv_desks s \<le> n" "n \<le> MAX_VIRTUAL_DESKTOPS" using assms by (simp_all add: n_def tv_ok_def)
  have eq: "click_desks x s = s\<lparr>tv_desks := n, tv_desk := (case List.find (desk_at x) (int_range 0 n) of None \<Rightarrow> tv_desk s | Some d \<Rightarrow> d)\<rparr>"
    by (simp only: click_desks_eq n_def Let_def)
  show ?thesis
  proof (cases "List.find (desk_at x) (int_range 0 n)")
    case None
    then show ?thesis using assms n by (auto simp: eq tv_ok_def max_def split: if_splits)
  next
    case (Some d)
    have "d \<in> set (int_range 0 n)" using find_in_set [OF Some] by blast
    then show ?thesis using assms n Some by (simp add: eq tv_ok_def set_int_range)
  qed
qed

text \<open>Runs: from the zeroed state, with any windows at every step.\<close>

inductive tv_run :: "task_view \<Rightarrow> bool" where
  Boot: "tv_run \<lparr>tv_visible = False, tv_focused = 0, tv_desk = 0, tv_desks = 0, tv_alt_tab = False\<rparr>"
| Open: "tv_run s \<Longrightarrow> tv_run (taskview_open b s)"
| Close: "tv_run s \<Longrightarrow> tv_run (taskview_close s)"
| Key: "tv_run s \<Longrightarrow> taskview_handle_key a k (s, wm) = Inr (s', wm') \<Longrightarrow> tv_run s'"
| Mouse: "tv_run s \<Longrightarrow> taskview_handle_mouse x y b sw sh (s, wm) = Inr (s', wm') \<Longrightarrow> tv_run s'"

lemma close_tv_ok [simp]: "tv_ok s \<Longrightarrow> tv_ok (taskview_close s)"
  by (simp add: tv_ok_def taskview_close_def)

lemma key_tv_ok:
  assumes "tv_ok s" "taskview_handle_key a k (s, wm) = Inr (s', wm')" shows "tv_ok s'"
proof -
  let ?m = "if window_get_count wm \<noteq> 0 then int (window_get_count wm) else 1"
  have "0 \<le> z mod ?m" for z by (rule pos_mod_sign) simp
  then have "tv_ok (s\<lparr>tv_focused := z mod ?m\<rparr>)" for z using assms(1) by (simp add: tv_ok_def)
  then show ?thesis
    using assms by (auto simp: taskview_handle_key_def Let_def elim!: fault_bind_InrE split: if_splits)
qed

lemma mouse_tv_ok:
  assumes "tv_ok s" "taskview_handle_mouse x y b sw sh (s, wm) = Inr (s', wm')" shows "tv_ok s'"
  using assms click_desks_ok [OF assms(1)]
  by (auto simp: taskview_handle_mouse_def Let_def elim!: fault_bind_InrE split: if_splits option.splits)

text \<open>
  On every run there are at most four virtual desktops, the active one exists, an open view has at least
  one, and the selection is never negative.
\<close>

theorem task_view_in_range:
  assumes "tv_run s" shows "tv_ok s"
  using assms
proof induction
  case Boot
  then show ?case by (simp add: tv_ok_def MAX_VIRTUAL_DESKTOPS_def)
next
  case (Open s b)
  then show ?case by (auto simp: tv_ok_def taskview_open_def MAX_VIRTUAL_DESKTOPS_def)
qed (auto intro: key_tv_ok mouse_tv_ok)

section \<open>Choosing a window\<close>

text \<open>Pressing the right arrow \<open>k\<close> times.\<close>

fun press_right :: "nat \<Rightarrow> task_view \<times> window_manager \<Rightarrow> fault + task_view \<times> window_manager" where
  "press_right 0 s = Inr s"
| "press_right (Suc k) s = fault_bind (taskview_handle_key 0 77 s) (press_right k)"

lemma press_right_steps:
  assumes "tv_visible s" "window_get_count wm \<noteq> 0"
  shows "press_right k (s, wm) = Inr (if k = 0 then s else s\<lparr>tv_focused := (tv_focused s + int k) mod int (window_get_count wm)\<rparr>, wm)"
  using assms
proof (induction k arbitrary: s)
  case (Suc k)
  let ?s = "s\<lparr>tv_focused := (tv_focused s + 1) mod int (window_get_count wm)\<rparr>"
  have "taskview_handle_key 0 77 (s, wm) = Inr (?s, wm)" using Suc.prems by (simp add: taskview_handle_key_def Let_def)
  moreover have "press_right k (?s, wm) =
      Inr (if k = 0 then ?s else ?s\<lparr>tv_focused := (tv_focused ?s + int k) mod int (window_get_count wm)\<rparr>, wm)"
    using Suc.prems by (intro Suc.IH) simp_all
  ultimately show ?case by (simp add: mod_simps add.assoc)
qed simp

text \<open>
  The arrow keys go round: after as many presses as there are windows the selection is back, and the left
  arrow undoes the right one.
\<close>

theorem arrows_go_round:
  assumes "tv_visible s" "0 \<le> tv_focused s" "tv_focused s < int (window_get_count wm)"
  shows "press_right (window_get_count wm) (s, wm) = Inr (s, wm) \<and>
    fault_bind (taskview_handle_key 0 77 (s, wm)) (taskview_handle_key 0 75) = Inr (s, wm)"
proof -
  let ?n = "int (window_get_count wm)"
  have n: "window_get_count wm \<noteq> 0" using assms(2,3) by auto
  have "(tv_focused s + ?n) mod ?n = tv_focused s" using assms(2,3) by simp
  moreover have "((tv_focused s + 1) mod ?n - 1 + ?n) mod ?n = tv_focused s"
  proof -
    have "((tv_focused s + 1) mod ?n - 1 + ?n) mod ?n = (tv_focused s + 1 - 1) mod ?n" by (simp add: mod_simps)
    then show ?thesis using assms(2,3) by simp
  qed
  ultimately show ?thesis
    using assms(1) n by (simp add: press_right_steps taskview_handle_key_def Let_def)
qed

lemma focus_card_raises:
  assumes "wm_ok wm" "0 \<le> i" "i < int (window_get_count wm)"
  shows "\<exists>wm'. focus_card i wm = Inr wm' \<and> wm_ok wm' \<and> wm_focused wm' = Some (wm_windows wm ! nat i) \<and>
    wm_windows wm' = remove1 (wm_windows wm ! nat i) (wm_windows wm) @ [wm_windows wm ! nat i]"
proof -
  have init: "wm_initialized wm" using wm_okD(3) [OF wm_ok_list [OF assms(1)]] .
  then have "nat i < length (wm_windows wm)" using assms(2,3) by (simp add: window_get_count_def)
  then have "wm_windows wm ! nat i \<in> set (wm_windows wm)" by simp
  moreover have "window_get_by_index i wm = Some (wm_windows wm ! nat i)"
    using init assms(2,3) by (simp add: window_get_by_index_def window_get_count_def)
  ultimately show ?thesis using focus_ok [OF assms(1)] by (fastforce simp: focus_card_def)
qed

text \<open>Enter closes the view and puts the selected window on top, with the focus.\<close>

theorem enter_raises_selection:
  assumes "wm_ok wm" "tv_visible s" "0 \<le> tv_focused s" "tv_focused s < int (window_get_count wm)"
  shows "\<exists>wm'. taskview_handle_key 13 28 (s, wm) = Inr (taskview_close s, wm') \<and> wm_ok wm' \<and>
    wm_focused wm' = Some (wm_windows wm ! nat (tv_focused s)) \<and> last (wm_windows wm') = wm_windows wm ! nat (tv_focused s)"
  using focus_card_raises [OF assms(1,3,4)] assms(2) by (auto simp: taskview_handle_key_def Let_def)

text \<open>Cards do not overlap: a pixel belongs to at most one.\<close>

lemma in_card_unique:
  assumes "in_card wc sw x y i" "in_card wc sw x y j" shows "i = j"
  using assms by (simp add: in_card_def card_x_def card_dims)

text \<open>
  A click on a pixel of the card drawn for window \<open>i\<close> raises this window, as long as the pixel is above
  the strip of desktops.
\<close>

theorem card_click_raises:
  assumes "wm_ok wm" "tv_visible s" "\<not> tv_alt_tab s" "0 \<le> i" "i < int (window_get_count wm)" "b \<noteq> 0"
    "card_x (int (window_get_count wm)) sw i \<le> x" "x < card_x (int (window_get_count wm)) sw i + TV_CARD_W"
    "TV_V_PADDING \<le> y" "y < TV_V_PADDING + TV_CARD_H" "y < sh - 70"
  shows "\<exists>wm'. taskview_handle_mouse x y b sw sh (s, wm) = Inr (taskview_close s, wm') \<and> wm_ok wm' \<and>
    wm_focused wm' = Some (wm_windows wm ! nat i)"
proof -
  let ?wc = "int (window_get_count wm)"
  have card: "in_card ?wc sw x y i" using assms(7-10) by (simp add: in_card_def)
  have "List.find (in_card ?wc sw x y) (int_range 0 ?wc) = Some i"
  proof (cases "List.find (in_card ?wc sw x y) (int_range 0 ?wc)")
    case None
    then have "\<not> in_card ?wc sw x y i" using assms(4,5) unfolding find_None_iff set_int_range by auto
    then show ?thesis using card by contradiction
  next
    case (Some j)
    then show ?thesis using find_in_set [OF Some] in_card_unique [OF card] by auto
  qed
  then show ?thesis
    using focus_card_raises [OF assms(1,4,5)] assms(2,3,6,11) by (auto simp: taskview_handle_mouse_def Let_def)
qed

text \<open>
  On the screen of this system, 200 lines high, the cards reach from line 80 to 199 and the strip from line
  130 on: a click on the lower part of a card never reaches it.
\<close>

lemma lower_part_of_cards_dead:
  assumes "130 \<le> y"
  shows "\<exists>s'. taskview_handle_mouse x y b SCREEN_WIDTH SCREEN_HEIGHT (s, wm) = Inr (s', wm)"
  using assms by (simp add: taskview_handle_mouse_def Let_def SCREEN_HEIGHT_def)

text \<open>Drawing never follows a dangling window pointer on a consistent window list.\<close>

lemma draw_cards_ok:
  assumes "wm_ok wm"
  shows "\<exists>ops. draw_cards s wm wc sw is = Inr ops" "\<exists>ops. draw_strip s wm sx sy strip_w is = Inr ops"
proof -
  have live: "\<exists>w. wm_store wm p = Some w" if "window_get_by_index i wm = Some p" for i p
  proof -
    have "p \<in> set (wm_windows wm)" using that by (auto simp: window_get_by_index_def split: if_splits)
    then show ?thesis using wm_okD(2) [OF wm_ok_list [OF assms]] by auto
  qed
  show "\<exists>ops. draw_cards s wm wc sw is = Inr ops" by (induction "is") (use live in \<open>fastforce split: option.split\<close>)+
  show "\<exists>ops. draw_strip s wm sx sy strip_w is = Inr ops" by (induction "is") (use live in \<open>fastforce split: option.split simp: Let_def\<close>)+
qed

theorem taskview_draws:
  assumes "wm_ok wm"
  shows "\<exists>ops. taskview_draw s wm sw sh = Inr ops \<and> (\<exists>g'. run_ops font ops g = Some g' \<and> same_mode g' g)"
proof -
  obtain cards where "draw_cards s wm (int (window_get_count wm)) sw (int_range 0 (int (window_get_count wm))) = Inr cards"
    using draw_cards_ok(1) [OF assms] by blast
  moreover have "\<exists>ops. draw_alt_tab s wm sw sh = Inr ops"
  proof (cases "window_get_count wm = 0")
    case False
    have "\<exists>w. wm_store wm p = Some w" if "window_get_by_index i wm = Some p" for i p
    proof -
      have "p \<in> set (wm_windows wm)" using that by (auto simp: window_get_by_index_def split: if_splits)
      then show ?thesis using wm_okD(2) [OF wm_ok_list [OF assms]] by auto
    qed
    then have "\<exists>t. (case window_get_by_index (tv_focused s) wm of None \<Rightarrow> Inr [] | Some p \<Rightarrow> (case wm_store wm p of None \<Rightarrow> Inl Dangling_pointer
                | Some w \<Rightarrow> Inr [Op_text (w_title w) sx sy TV_TEXT])) = Inr t" for sx sy
      by (fastforce split: option.split)
    then show ?thesis using False draw_cards_ok(2) [OF assms] unfolding draw_alt_tab_def Let_def by (metis fault_bind_simps(2))
  qed (simp add: draw_alt_tab_def)
  ultimately show ?thesis using run_ops_total by (auto simp: taskview_draw_def draw_task_view_full_def Let_def)
qed

section \<open>Witnesses\<close>

definition tv0 :: task_view where
  "tv0 = \<lparr>tv_visible = False, tv_focused = 0, tv_desk = 0, tv_desks = 0, tv_alt_tab = False\<rparr>"

lemma demo_wm_count: "window_get_count demo_wm = 1"
  by (simp add: window_get_count_def demo_wm_def demo_wm0_def window_manager_init_def)

theorem task_view_in_range_witness: "tv_ok (taskview_open False tv0)"
proof -
  have "tv_run (taskview_open False tv0)" unfolding tv0_def by (rule tv_run.Open [OF tv_run.Boot])
  then show ?thesis by (rule task_view_in_range)
qed

theorem arrows_go_round_witness:
  "press_right 1 (taskview_open False tv0, demo_wm) = Inr (taskview_open False tv0, demo_wm)"
  using arrows_go_round [of "taskview_open False tv0" demo_wm] demo_wm_count by (simp add: taskview_open_def)

theorem enter_raises_selection_witness:
  "\<exists>wm'. taskview_handle_key 13 28 (taskview_open True tv0, demo_wm) = Inr (taskview_close (taskview_open True tv0), wm') \<and> wm_focused wm' = Some 5"
  using enter_raises_selection [OF wm_run_ok [OF demo_wm_run], of "taskview_open True tv0"] demo_wm_count demo_wm_facts(2)
  by (auto simp: taskview_open_def)

theorem card_click_raises_witness:
  "\<exists>wm'. taskview_handle_mouse 400 100 1 800 600 (taskview_open False tv0, demo_wm) =
    Inr (taskview_close (taskview_open False tv0), wm') \<and> wm_focused wm' = Some 5"
  using card_click_raises [OF wm_run_ok [OF demo_wm_run], where s = "taskview_open False tv0" and i = 0 and b = 1 and sw = 800 and sh = 600
      and x = 400 and y = 100] demo_wm_count demo_wm_facts(2)
  by (auto simp: taskview_open_def card_x_def card_start_def c_half_def card_dims)

theorem taskview_draws_witness:
  "\<exists>ops. taskview_draw (taskview_open False tv0) demo_wm 320 200 = Inr ops"
  using taskview_draws [OF wm_run_ok [OF demo_wm_run], of "taskview_open False tv0" 320 200] by blast

end
