(* ===== verification/Notifications.thy ===== *)
theory Notifications
  imports Draw_Ops
begin

text \<open>
  The notification centre (\<^verbatim>\<open>gui/notification.c\<close>) and the compositor (\<^verbatim>\<open>gui/compositor.c\<close>). The time is the
  argument \<open>now\<close>, a 32-bit count of timer ticks that wraps. Shown here: the counter counts the
  active notifications on every run, a notification is shown for exactly its time, also across the wrap of
  the clock, toasts are stacked without overlapping, and a frame of the compositor is black.
\<close>

section \<open>Notifications\<close>

definition MAX_NOTIFICATIONS :: nat where "MAX_NOTIFICATIONS = 8"
definition NOTIFICATION_DURATION :: u32 where "NOTIFICATION_DURATION = 5000"

record notification =
  nt_title :: string
  nt_message :: string
  nt_start :: u32
  nt_active :: bool

record notification_state =
  nt_queue :: "notification list"
  nt_count :: u32
  nt_initialized :: bool

definition no_notification :: notification where
  "no_notification = \<lparr>nt_title = [], nt_message = [], nt_start = 0, nt_active = False\<rparr>"

definition notification_init :: notification_state where
  "notification_init = \<lparr>nt_queue = replicate MAX_NOTIFICATIONS no_notification, nt_count = 0, nt_initialized = True\<rparr>"

definition notification_push :: "u32 \<Rightarrow> string \<Rightarrow> string \<Rightarrow> notification_state \<Rightarrow> notification_state" where
  "notification_push now title message s =
     (if \<not> nt_initialized s then s
      else case first_index (\<lambda>n. \<not> nt_active n) (nt_queue s) of None \<Rightarrow> s
      | Some i \<Rightarrow> s\<lparr>nt_queue := (nt_queue s)[i := \<lparr>nt_title = take 63 title, nt_message = take 127 message, nt_start = now, nt_active = True\<rparr>],
                    nt_count := nt_count s + 1\<rparr>)"

definition notification_expired :: "u32 \<Rightarrow> notification \<Rightarrow> bool" where
  "notification_expired now n \<longleftrightarrow> nt_active n \<and> now - nt_start n > NOTIFICATION_DURATION"

definition notification_update :: "u32 \<Rightarrow> notification_state \<Rightarrow> notification_state" where
  "notification_update now s =
     fold (\<lambda>i s. if notification_expired now (nt_queue s ! i)
                 then s\<lparr>nt_queue := (nt_queue s)[i := (nt_queue s ! i)\<lparr>nt_active := False\<rparr>], nt_count := nt_count s - 1\<rparr> else s)
       [0..<length (nt_queue s)] s"

definition toast :: "int \<Rightarrow> notification \<Rightarrow> draw_op list" where
  "toast y n =
     [Op_alpha (SCREEN_WIDTH - 220) y 200 60 0x202020 180, Op_rounded (SCREEN_WIDTH - 220) y 200 60 8 0x444444,
      Op_text (nt_title n) (SCREEN_WIDTH - 220 + 10) (y + 10) 0xFFFFFF,
      Op_text (nt_message n) (SCREEN_WIDTH - 220 + 10) (y + 30) 0xCCCCCC]"

fun render_toasts :: "int \<Rightarrow> notification list \<Rightarrow> draw_op list" where
  "render_toasts y [] = []"
| "render_toasts y (n # ns) =
     (if nt_active n
      then toast y n @ render_toasts (y + 70) ns
      else render_toasts y ns)"

definition notification_render :: "notification_state \<Rightarrow> draw_op list" where
  "notification_render s = render_toasts 20 (nt_queue s)"

section \<open>The counter\<close>

definition active_count :: "notification_state \<Rightarrow> nat" where
  "active_count s = length (filter nt_active (nt_queue s))"

definition notifications_ok :: "notification_state \<Rightarrow> bool" where
  "notifications_ok s \<longleftrightarrow> length (nt_queue s) = MAX_NOTIFICATIONS \<and> nt_count s = of_nat (active_count s)"

lemma filter_update_length:
  assumes "i < length xs"
  shows "int (length (filter P (xs[i := x]))) = int (length (filter P xs)) + of_bool (P x) - of_bool (P (xs ! i))"
  using assms
proof (induction xs arbitrary: i)
  case (Cons y ys)
  then show ?case by (cases i) auto
qed simp

lemma update_fold:
  assumes "length (nt_queue s) = n" "is = [0..<n]"
  shows "fold (\<lambda>i s. if notification_expired now (nt_queue s ! i)
        then s\<lparr>nt_queue := (nt_queue s)[i := (nt_queue s ! i)\<lparr>nt_active := False\<rparr>], nt_count := nt_count s - 1\<rparr> else s) is s =
    s\<lparr>nt_queue := map (\<lambda>n. if notification_expired now n then n\<lparr>nt_active := False\<rparr> else n) (nt_queue s),
      nt_count := nt_count s - of_nat (length (filter (notification_expired now) (nt_queue s)))\<rparr>"
proof -
  let ?f = "\<lambda>i s. if notification_expired now (nt_queue s ! i)
        then s\<lparr>nt_queue := (nt_queue s)[i := (nt_queue s ! i)\<lparr>nt_active := False\<rparr>], nt_count := nt_count s - 1\<rparr> else s"
  let ?g = "\<lambda>n. if notification_expired now n then n\<lparr>nt_active := False\<rparr> else n"
  have "k \<le> n \<Longrightarrow> fold ?f [0..<k] s = s\<lparr>nt_queue := map ?g (take k (nt_queue s)) @ drop k (nt_queue s),
      nt_count := nt_count s - of_nat (length (filter (notification_expired now) (take k (nt_queue s))))\<rparr>" for k
  proof (induction k)
    case (Suc k)
    then have k: "k < length (nt_queue s)" using assms(1) by simp
    then have d: "drop k (nt_queue s) = nt_queue s ! k # drop (Suc k) (nt_queue s)" by (simp add: Cons_nth_drop_Suc)
    have t: "take (Suc k) (nt_queue s) = take k (nt_queue s) @ [nt_queue s ! k]" using k by (simp add: take_Suc_conv_app_nth)
    show ?case using Suc k by (simp add: d t nth_append list_update_append diff_diff_add [symmetric])
  qed simp
  then show ?thesis using assms by (simp add: assms(2))
qed

lemma notification_update_eq:
  "notification_update now s =
    s\<lparr>nt_queue := map (\<lambda>n. if notification_expired now n then n\<lparr>nt_active := False\<rparr> else n) (nt_queue s),
      nt_count := nt_count s - of_nat (length (filter (notification_expired now) (nt_queue s)))\<rparr>"
  by (simp add: notification_update_def update_fold)

inductive notification_run :: "notification_state \<Rightarrow> bool" where
  Init: "notification_run notification_init"
| Push: "notification_run s \<Longrightarrow> notification_run (notification_push now title message s)"
| Update: "notification_run s \<Longrightarrow> notification_run (notification_update now s)"

text \<open>On every run the counter is the number of active notifications, at most eight.\<close>

theorem notification_count_exact:
  assumes "notification_run s"
  shows "length (nt_queue s) = MAX_NOTIFICATIONS \<and> nt_count s = of_nat (active_count s) \<and> unat (nt_count s) \<le> MAX_NOTIFICATIONS"
proof -
  have "notifications_ok s"
    using assms
  proof induction
    case Init
    show ?case by (simp add: notifications_ok_def notification_init_def active_count_def no_notification_def)
  next
    case (Push s now title message)
    show ?case
    proof (cases "nt_initialized s \<and> (\<exists>i. first_index (\<lambda>n. \<not> nt_active n) (nt_queue s) = Some i)")
      case True
      then obtain i where i: "first_index (\<lambda>n. \<not> nt_active n) (nt_queue s) = Some i" by blast
      let ?n = "\<lparr>nt_title = take 63 title, nt_message = take 127 message, nt_start = now, nt_active = True\<rparr>"
      have "int (length (filter nt_active ((nt_queue s)[i := ?n]))) = int (length (filter nt_active (nt_queue s))) + 1"
        using filter_update_length [OF first_index_bound [OF i], of nt_active ?n] first_index_holds [OF i] by simp
      then have "length (filter nt_active ((nt_queue s)[i := ?n])) = Suc (length (filter nt_active (nt_queue s)))" by simp
      then show ?thesis using True i Push.IH by (simp add: notification_push_def notifications_ok_def active_count_def)
    next
      case False
      then show ?thesis using Push.IH by (auto simp: notification_push_def split: option.split)
    qed
  next
    case (Update s now)
    have "length (filter nt_active ns) = length (filter (notification_expired now) ns) +
        length (filter nt_active (map (\<lambda>n. if notification_expired now n then n\<lparr>nt_active := False\<rparr> else n) ns))" for ns
      by (induction ns) (auto simp: notification_expired_def)
    from this [of "nt_queue s"] show ?case
      using Update.IH by (simp add: notifications_ok_def active_count_def notification_update_eq)
  qed
  then have "nt_count s = of_nat (active_count s)" "length (nt_queue s) = MAX_NOTIFICATIONS" by (simp_all add: notifications_ok_def)
  moreover have "active_count s \<le> length (nt_queue s)" by (simp add: active_count_def)
  ultimately show ?thesis by (simp add: MAX_NOTIFICATIONS_def unat_of_nat take_bit_nat_eq_self)
qed

section \<open>How long a notification is shown\<close>

text \<open>Updates at the given times, in order.\<close>

definition updates :: "u32 list \<Rightarrow> notification_state \<Rightarrow> notification_state" where
  "updates ts s = fold notification_update ts s"

lemma updates_keep:
  assumes "i < length (nt_queue s)" "nt_queue s ! i = n" "\<forall>now \<in> set ts. \<not> notification_expired now n"
  shows "length (nt_queue (updates ts s)) = length (nt_queue s)" "nt_queue (updates ts s) ! i = n"
  using assms
proof (induction ts arbitrary: s)
  case (Cons t ts)
  {
    case 1
    then show ?case using Cons.IH(1) [of "notification_update t s"] by (simp add: updates_def notification_update_eq)
  next
    case 2
    then show ?case using Cons.IH(2) [of "notification_update t s"] by (simp add: updates_def notification_update_eq)
  }
qed (simp_all add: updates_def)

text \<open>
  A notification pushed at time \<open>t\<close> is kept by every update at most 5000 ticks later and taken away by the
  first one after that. Times are differences of 32-bit counters, so that the wrap of the clock is no exception.
\<close>

theorem notification_lives_5000_ticks:
  assumes "nt_initialized s" "first_index (\<lambda>n. \<not> nt_active n) (nt_queue s) = Some i"
    "\<forall>now \<in> set ts. unat (now - t) \<le> 5000" "5000 < unat (late - t)"
  shows "let s1 = updates ts (notification_push t title message s) in
    nt_queue s1 ! i = \<lparr>nt_title = take 63 title, nt_message = take 127 message, nt_start = t, nt_active = True\<rparr> \<and>
    \<not> nt_active (nt_queue (notification_update late s1) ! i)"
proof -
  let ?n = "\<lparr>nt_title = take 63 title, nt_message = take 127 message, nt_start = t, nt_active = True\<rparr>"
  let ?s = "notification_push t title message s"
  have b: "i < length (nt_queue s)" using first_index_bound [OF assms(2)] .
  have s: "i < length (nt_queue ?s)" "nt_queue ?s ! i = ?n" using assms(1,2) b by (simp_all add: notification_push_def)
  have "\<forall>now \<in> set ts. \<not> notification_expired now ?n"
    using assms(3) by (auto simp: notification_expired_def NOTIFICATION_DURATION_def word_less_nat_alt)
  from updates_keep [OF s this] have u: "length (nt_queue (updates ts ?s)) = length (nt_queue ?s)" "nt_queue (updates ts ?s) ! i = ?n" .
  moreover have "notification_expired late ?n"
    using assms(4) by (simp add: notification_expired_def NOTIFICATION_DURATION_def word_less_nat_alt)
  ultimately show ?thesis using s(1) by (simp add: Let_def notification_update_eq)
qed

text \<open>A ninth notification is dropped.\<close>

lemma ninth_dropped:
  assumes "\<forall>n \<in> set (nt_queue s). nt_active n" shows "notification_push now title message s = s"
  using assms by (auto simp: notification_push_def first_index_None [THEN iffD2])

theorem notification_count_exact_witness:
  "unat (nt_count (notification_push 3 ''a'' ''b'' notification_init)) \<le> MAX_NOTIFICATIONS"
  using notification_count_exact [OF notification_run.Push [OF notification_run.Init]] by blast

theorem notification_lives_5000_ticks_witness:
  "\<not> nt_active (nt_queue (notification_update 5001 (updates [4, 5000] (notification_push 0 ''a'' ''b'' notification_init))) ! 0)"
proof -
  have "first_index (\<lambda>n. \<not> nt_active n) (nt_queue notification_init) = Some 0"
    by (rule first_index_SomeI) (simp_all add: notification_init_def no_notification_def MAX_NOTIFICATIONS_def)
  moreover have "nt_initialized notification_init" by (simp add: notification_init_def)
  moreover have "\<forall>now \<in> set [4, 5000 :: u32]. unat (now - 0) \<le> 5000" "5000 < unat (5001 - 0 :: u32)" by simp_all
  ultimately show ?thesis
    using notification_lives_5000_ticks [of notification_init 0 "[4, 5000]" 0 5001 "''a''" "''b''"] unfolding Let_def by blast
qed

text \<open>Active notifications are drawn from the top down, 70 lines apart, each 60 lines high.\<close>

lemma toasts_stacked:
  "render_toasts y ns = concat (map (\<lambda>(k, n). toast (y + 70 * int k) n) (List.enumerate 0 (filter nt_active ns)))"
proof (induction ns arbitrary: y)
  case (Cons n ns)
  have "map (\<lambda>(k, n). toast (y + 70 * int k) n) (List.enumerate (Suc 0) ms) = map (\<lambda>(k, n). toast (y + 70 + 70 * int k) n) (List.enumerate 0 ms)"
    for ms by (rule nth_equalityI) (simp_all add: nth_enumerate_eq algebra_simps)
  then show ?case by (simp add: Cons.IH)
qed simp

section \<open>The compositor\<close>

text \<open>The back buffer, absent before initialisation, and the screen size noted there.\<close>

record compositor =
  back_buffer :: "u32 list option"
  screen_w :: nat
  screen_h :: nat

text \<open>\<open>mem\<close> says whether the buffer was found; it is cleared without a check.\<close>

definition compositor_init :: "bool \<Rightarrow> gfx \<Rightarrow> compositor \<Rightarrow> fault + compositor" where
  "compositor_init mem g s =
     (let w = graphics_get_width g; h = graphics_get_height g in
      if \<not> mem then (if w * h = 0 then Inr (s\<lparr>back_buffer := None, screen_w := w, screen_h := h\<rparr>) else Inl Null_deref)
      else Inr (s\<lparr>back_buffer := Some (replicate (w * h) 0), screen_w := w, screen_h := h\<rparr>))"

definition compositor_begin_frame :: "compositor \<Rightarrow> fault + compositor" where
  "compositor_begin_frame s = (case back_buffer s of
      None \<Rightarrow> if screen_w s * screen_h s = 0 then Inr s else Inl Null_deref
    | Some _ \<Rightarrow> Inr (s\<lparr>back_buffer := Some (replicate (screen_w s * screen_h s) 0)\<rparr>))"

definition compositor_end_frame :: "compositor \<Rightarrow> gfx \<Rightarrow> fault + gfx" where
  "compositor_end_frame s g = graphics_blit (back_buffer s) 0 0 (int (screen_w s)) (int (screen_h s)) (int (screen_w s)) g"

definition compositor_update_region :: "int \<Rightarrow> int \<Rightarrow> int \<Rightarrow> int \<Rightarrow> compositor \<Rightarrow> compositor" where
  "compositor_update_region x y w h s = s"

text \<open>Initialising, beginning and ending a frame leaves a black screen.\<close>

theorem compositor_frame_black:
  assumes "g_initialized g" "gfx_ok g"
  shows "\<exists>s1 s2 g'. compositor_init True g s = Inr s1 \<and> compositor_begin_frame s1 = Inr s2 \<and> compositor_end_frame s2 g = Inr g' \<and>
    (\<forall>a b. on_screen g a b \<longrightarrow> pixel g' a b = 0)"
proof -
  let ?w = "g_width g" and ?h = "g_height g"
  let ?buf = "replicate (?w * ?h) 0 :: u32 list"
  obtain g' where g': "graphics_blit (Some ?buf) 0 0 (int ?w) (int ?h) (int ?w) g = Inr g'"
    "\<forall>a b. on_screen g a b \<longrightarrow> pixel g' a b =
       (if 0 \<le> a \<and> a < 0 + int ?w \<and> 0 \<le> b \<and> b < 0 + int ?h then ?buf ! nat ((b - 0) * int ?w + (a - 0)) else pixel g a b)"
    using blit_copies [OF assms, of "int ?w" "int ?w" "int ?h" ?buf 0 0] by (auto simp: mult.commute)
  have "pixel g' a b = 0" if s: "on_screen g a b" for a b
  proof -
    have "nat (b * int ?w + a) = nat b * ?w + nat a" using s by (simp add: on_screen_def nat_add_distrib nat_mult_distrib)
    then have "nat (b * int ?w + a) < ?w * ?h" using on_screen_index [OF s] by simp
    then show ?thesis using g'(2) s by (simp add: on_screen_def)
  qed
  moreover define s1 where "s1 = s\<lparr>back_buffer := Some ?buf, screen_w := ?w, screen_h := ?h\<rparr>"
  moreover have "compositor_init True g s = Inr s1" "compositor_begin_frame s1 = Inr s1" "compositor_end_frame s1 g = Inr g'"
    using g'(1) by (simp_all add: s1_def compositor_init_def compositor_begin_frame_def compositor_end_frame_def
        graphics_get_width_def graphics_get_height_def Let_def)
  ultimately show ?thesis by blast
qed

end
