(* ===== verification/Desktop_Shell.thy ===== *)
theory Desktop_Shell
  imports Task_View Notifications Input_Events "HOL-Library.Sublist"
begin

unbundle bit_operations_syntax

text \<open>
  The desktop (\<^verbatim>\<open>gui/desktop.c\<close>): applications, icons, the start menu with its search field, and the
  flyouts. Messages printed and initialisation functions called are recorded as events. Drawing is a
  list of graphics calls; the gradient of the wallpaper (\<open>graphics_interpolate_color\<close>) and two colours
  of the top bar are defined nowhere and are parameters. Shown here: at most one menu or flyout is open on
  every run, the search field holds the end of what was typed and filters exactly the names beginning with
  it, a click selects the icon hit, and a double click starts the application of that name.
\<close>

section \<open>State\<close>

definition MAX_DESKTOP_ICONS :: nat where "MAX_DESKTOP_ICONS = 32"
definition TASKBAR_HEIGHT :: int where "TASKBAR_HEIGHT = 28"
definition MAX_APPLICATIONS :: nat where "MAX_APPLICATIONS = 32"
definition WIN_START_BTN_BG :: u32 where "WIN_START_BTN_BG = 0x202020"
definition WIN_BLUE_ACCENT :: u32 where "WIN_BLUE_ACCENT = 0x0078D4"
definition WIN_BORDER_COLOR :: u32 where "WIN_BORDER_COLOR = 0x333333"
definition MAYA_SELECTED_BG :: u32 where "MAYA_SELECTED_BG = 0x3D3D3D"
definition MAYA_TEXT_COLOR :: u32 where "MAYA_TEXT_COLOR = 0xFFFFFF"

record desktop_icon =
  ic_x :: int
  ic_y :: int
  ic_width :: int
  ic_height :: int
  ic_name :: string
  ic_path :: string
  ic_selected :: bool
  ic_type :: u8

record application =
  ap_name :: string
  ap_command :: string
  ap_category :: string
  ap_running :: bool

datatype desk_event = Printed string | Called string

text \<open>The counts of the code are the lengths of the lists; the search text is the part before the terminator.\<close>

record desktop =
  dk_icons :: "desktop_icon list"
  dk_apps :: "application list"
  dk_show_taskbar :: bool
  dk_start_menu :: bool
  dk_network :: bool
  dk_volume :: bool
  dk_battery :: bool
  dk_search :: string
  dk_battery_level :: u8
  dk_wifi_strength :: u8
  dk_volume_level :: u8
  dk_events :: "desk_event list"

definition zero_desktop :: desktop where
  "zero_desktop = \<lparr>dk_icons = [], dk_apps = [], dk_show_taskbar = False, dk_start_menu = False, dk_network = False, dk_volume = False,
     dk_battery = False, dk_search = [], dk_battery_level = 0, dk_wifi_strength = 0, dk_volume_level = 0, dk_events = []\<rparr>"

definition say :: "string \<Rightarrow> desktop \<Rightarrow> desktop" where "say m s = s\<lparr>dk_events := dk_events s @ [Printed m]\<rparr>"
definition call_init :: "string \<Rightarrow> desktop \<Rightarrow> desktop" where "call_init f s = s\<lparr>dk_events := dk_events s @ [Called f]\<rparr>"

definition number_string :: "nat \<Rightarrow> string" where
  "number_string n = map (\<lambda>c. char_of (unat c)) (nat_text False 10 n)"

section \<open>Applications and icons\<close>

definition desktop_add_application :: "string \<Rightarrow> string \<Rightarrow> string \<Rightarrow> desktop \<Rightarrow> desktop" where
  "desktop_add_application name command category s =
     (if length (dk_apps s) \<ge> MAX_APPLICATIONS then s
      else s\<lparr>dk_apps := dk_apps s @ [\<lparr>ap_name = take 63 name, ap_command = take 127 command, ap_category = take 31 category,
        ap_running = False\<rparr>]\<rparr>)"

definition desktop_add_icon :: "string \<Rightarrow> string \<Rightarrow> int \<Rightarrow> int \<Rightarrow> u8 \<Rightarrow> desktop \<Rightarrow> desktop" where
  "desktop_add_icon name path x y ty s =
     (if length (dk_icons s) \<ge> MAX_DESKTOP_ICONS then s
      else s\<lparr>dk_icons := dk_icons s @ [\<lparr>ic_x = x, ic_y = y, ic_width = 48, ic_height = 48, ic_name = take 63 name, ic_path = take 255 path,
        ic_selected = False, ic_type = ty\<rparr>]\<rparr>)"

text \<open>The functions the known commands call.\<close>

definition app_handler :: "string \<Rightarrow> string option" where
  "app_handler command =
     (if command = ''notepad'' then Some ''notepad_init''
      else if command = ''terminal'' then Some ''terminal_init''
      else if command = ''virtual_keyboard'' then Some ''virtual_keyboard_init''
      else if command = ''control_panel'' then Some ''control_panel_init''
      else if command = ''time_applet'' then Some ''time_applet_init''
      else if command = ''settings'' then Some ''settings_draw''
      else if command = ''hardware_manager'' then Some ''hardware_manager_init''
      else None)"

definition desktop_launch_application :: "int \<Rightarrow> desktop \<Rightarrow> desktop" where
  "desktop_launch_application i s =
     (if i < 0 \<or> i \<ge> int (length (dk_apps s)) then s
      else let app = dk_apps s ! nat i;
               s1 = say (''Launching: '' @ ap_name app @ [char_of (10 :: nat)]) (s\<lparr>dk_apps := (dk_apps s)[nat i := app\<lparr>ap_running := True\<rparr>]\<rparr>)
        in case app_handler (ap_command app) of Some f \<Rightarrow> call_init f s1
           | None \<Rightarrow> say (''Unknown app: '' @ ap_command app @ [char_of (10 :: nat)]) s1)"

definition icon_hit :: "int \<Rightarrow> int \<Rightarrow> desktop_icon \<Rightarrow> bool" where
  "icon_hit x y ic \<longleftrightarrow> x \<ge> ic_x ic \<and> x \<le> ic_x ic + ic_width ic \<and> y \<ge> ic_y ic \<and> y \<le> ic_y ic + ic_height ic"

definition launch_by_name :: "string \<Rightarrow> desktop \<Rightarrow> desktop option" where
  "launch_by_name name s = map_option (\<lambda>a. desktop_launch_application (int a) s) (first_index (\<lambda>app. ap_name app = name) (dk_apps s))"

definition select_icon :: "nat option \<Rightarrow> desktop \<Rightarrow> desktop" where
  "select_icon sel s = s\<lparr>dk_icons := map (\<lambda>j. (dk_icons s ! j)\<lparr>ic_selected := (sel = Some j)\<rparr>) [0..<length (dk_icons s)]\<rparr>"

text \<open>The double click is the flag of the input manager, cleared when used.\<close>

definition desktop_handle_icon_click :: "int \<Rightarrow> int \<Rightarrow> desktop \<times> input_manager \<Rightarrow> desktop \<times> input_manager" where
  "desktop_handle_icon_click x y = (\<lambda>(s, im).
     case first_index (icon_hit x y) (dk_icons s) of
       None \<Rightarrow> (select_icon None s, im)
     | Some i \<Rightarrow>
         let s1 = select_icon (Some i) s in
         if maya_input_is_double_click im = 0 then (s1, im)
         else let name = ic_name (dk_icons s1 ! i); s2 = say (''Launching from shortcut: '' @ name @ [char_of (10 :: nat)]) s1
           in (case launch_by_name name s2 of Some s3 \<Rightarrow> s3
               | None \<Rightarrow> (case launch_by_name ''File Manager'' s2 of Some s3 \<Rightarrow> s3 | None \<Rightarrow> s2), maya_input_clear_double_click im))"

definition desktop_init :: desktop where
  "desktop_init =
     (let s0 = zero_desktop\<lparr>dk_events := [Printed (''Initializing Maya Desktop Environment'' @ [char_of (10 :: nat)])], dk_show_taskbar := True,
            dk_battery_level := 85, dk_wifi_strength := 3, dk_volume_level := 75\<rparr>;
          s1 = fold (\<lambda>(n, c, k). desktop_add_application n c k)
            [(''Terminal'', ''terminal'', ''Accessories''), (''Notepad'', ''notepad'', ''Accessories''),
             (''Virtual Keyboard'', ''virtual_keyboard'', ''Accessories''), (''File Manager'', ''files'', ''System''),
             (''Control Panel'', ''control_panel'', ''System''), (''Date & Time'', ''time_applet'', ''System''),
             (''Settings'', ''settings'', ''System''), (''Hardware Manager'', ''hardware_manager'', ''System'')] s0;
          s2 = call_init ''settings_init'' s1;
          s3 = fold (\<lambda>(n, p, y, t). desktop_add_icon n p 80 y t)
            [(''Home'', ''/home'', 80, 0), (''Computer'', ''/'', 160, 0), (''Trash'', ''/trash'', 240, 0),
             (''Notepad'', '''', 320, 1), (''Settings'', '''', 400, 1), (''Terminal'', '''', 480, 1)] s2
      in say (''Maya Desktop initialized with '' @ number_string (length (dk_icons s3)) @ '' icons and '' @ number_string (length (dk_apps s3))
           @ '' apps'' @ [char_of (10 :: nat)]) s3)"

section \<open>Menu and flyouts\<close>

definition desktop_toggle_start_menu :: "desktop \<Rightarrow> desktop" where
  "desktop_toggle_start_menu s =
     (let s1 = s\<lparr>dk_start_menu := \<not> dk_start_menu s, dk_search := []\<rparr> in
      if dk_start_menu s1 then s1\<lparr>dk_network := False, dk_volume := False, dk_battery := False\<rparr> else s1)"

definition desktop_toggle_network_flyout :: "desktop \<Rightarrow> desktop" where
  "desktop_toggle_network_flyout s =
     (let s1 = s\<lparr>dk_network := \<not> dk_network s\<rparr> in
      if dk_network s1 then s1\<lparr>dk_start_menu := False, dk_volume := False, dk_battery := False\<rparr> else s1)"

definition desktop_toggle_volume_flyout :: "desktop \<Rightarrow> desktop" where
  "desktop_toggle_volume_flyout s =
     (let s1 = s\<lparr>dk_volume := \<not> dk_volume s\<rparr> in
      if dk_volume s1 then s1\<lparr>dk_start_menu := False, dk_network := False, dk_battery := False\<rparr> else s1)"

definition desktop_toggle_battery_flyout :: "desktop \<Rightarrow> desktop" where
  "desktop_toggle_battery_flyout s =
     (let s1 = s\<lparr>dk_battery := \<not> dk_battery s\<rparr> in
      if dk_battery s1 then s1\<lparr>dk_start_menu := False, dk_network := False, dk_volume := False\<rparr> else s1)"

definition desktop_handle_start_menu_input :: "char \<Rightarrow> desktop \<Rightarrow> desktop" where
  "desktop_handle_start_menu_input c s =
     (if \<not> dk_start_menu s then s
      else if of_char c = (8 :: nat) \<and> dk_search s \<noteq> [] then s\<lparr>dk_search := butlast (dk_search s)\<rparr>
      else if (32 :: nat) \<le> of_char c \<and> of_char c \<le> (126 :: nat) \<and> length (dk_search s) < 63 then s\<lparr>dk_search := dk_search s @ [c]\<rparr>
      else s)"

section \<open>Drawing\<close>

text \<open>\<open>bloom y\<close> is the colour of line \<open>y\<close> of the wallpaper.\<close>

definition desktop_draw_wallpaper :: "(int \<Rightarrow> u32) \<Rightarrow> draw_op list" where
  "desktop_draw_wallpaper bloom = map (\<lambda>y. Op_fill 0 y SCREEN_WIDTH 1 (bloom y)) (int_range 0 SCREEN_HEIGHT)"

text \<open>\<open>grey\<close> and \<open>edge\<close> are the two undefined colours.\<close>

definition desktop_draw_taskbar :: "u32 \<Rightarrow> u32 \<Rightarrow> desktop \<Rightarrow> draw_op list" where
  "desktop_draw_taskbar grey edge s =
     (if \<not> dk_show_taskbar s then []
      else [Op_fill 0 0 SCREEN_WIDTH TASKBAR_HEIGHT grey, Op_line 0 (TASKBAR_HEIGHT - 1) SCREEN_WIDTH (TASKBAR_HEIGHT - 1) edge,
            Op_text ''Activities'' 10 8 MAYA_TEXT_COLOR, Op_text ''12:34 PM'' (SCREEN_WIDTH div 2 - 30) 8 MAYA_TEXT_COLOR,
            Op_text ''85%'' (SCREEN_WIDTH - 100) 8 MAYA_TEXT_COLOR, Op_text ''Wi-Fi'' (SCREEN_WIDTH - 60) 8 MAYA_TEXT_COLOR])"

text \<open>The comparison of the filter: letters as lower case, beyond the end of a name its terminator.\<close>

definition lower_case :: "char \<Rightarrow> char" where
  "lower_case c = (if (65 :: nat) \<le> of_char c \<and> of_char c \<le> (90 :: nat) then char_of ((of_char c :: nat) + 32) else c)"

definition char_at :: "string \<Rightarrow> nat \<Rightarrow> char" where
  "char_at s i = (if i < length s then s ! i else char_of (0 :: nat))"

fun search_matches :: "string \<Rightarrow> string \<Rightarrow> nat list \<Rightarrow> bool" where
  "search_matches search name [] = True"
| "search_matches search name (c # cs) =
     (if lower_case (search ! c) \<noteq> lower_case (char_at name c) then False else search_matches search name cs)"

definition app_shown :: "string \<Rightarrow> application \<Rightarrow> bool" where
  "app_shown search app \<longleftrightarrow> search = [] \<or> search_matches search (ap_name app) [0..<length search]"

definition MENU_X :: int where "MENU_X = SCREEN_WIDTH div 2 - 150"
definition MENU_Y :: int where "MENU_Y = SCREEN_HEIGHT - TASKBAR_HEIGHT - 400 - 10"

fun draw_app_grid :: "string \<Rightarrow> int \<Rightarrow> int \<Rightarrow> application list \<Rightarrow> draw_op list" where
  "draw_app_grid search gx gy [] = []"
| "draw_app_grid search gx gy (app # apps) =
     (if \<not> app_shown search app then draw_app_grid search gx gy apps
      else [Op_fill gx gy 48 48 MAYA_SELECTED_BG, Op_text (take 1 (ap_name app)) (gx + 20) (gy + 20) MAYA_TEXT_COLOR,
            Op_text (ap_name app) gx (gy + 55) MAYA_TEXT_COLOR] @
           (if gx + 64 > MENU_X + 300 - 64 then draw_app_grid search (MENU_X + 20) (gy + 80) apps
            else draw_app_grid search (gx + 64) gy apps))"

definition desktop_draw_start_menu :: "desktop \<Rightarrow> draw_op list" where
  "desktop_draw_start_menu s =
     (if \<not> dk_start_menu s then []
      else [Op_fill MENU_X MENU_Y 300 400 WIN_START_BTN_BG, Op_rect MENU_X MENU_Y 300 400 WIN_BORDER_COLOR,
            (if dk_search s \<noteq> [] then Op_text (dk_search s) (MENU_X + 15) (MENU_Y + 15) 0xFFFFFF
             else Op_text ''Type here to search...'' (MENU_X + 15) (MENU_Y + 15) 0x888888),
            Op_line (MENU_X + 10) (MENU_Y + 35) (MENU_X + 300 - 10) (MENU_Y + 35) WIN_BORDER_COLOR] @
           draw_app_grid (dk_search s) (MENU_X + 20) (MENU_Y + 50) (dk_apps s))"

definition flyout_panel :: "int \<Rightarrow> int \<Rightarrow> int \<Rightarrow> int \<Rightarrow> draw_op list" where
  "flyout_panel x y w h = [Op_fill x y w h WIN_START_BTN_BG, Op_rect x y w h WIN_BORDER_COLOR]"

definition desktop_draw_network_flyout :: "desktop \<Rightarrow> draw_op list" where
  "desktop_draw_network_flyout s =
     (let x = SCREEN_WIDTH - 250 - 10; y = SCREEN_HEIGHT - TASKBAR_HEIGHT - 200 - 10 in
      if \<not> dk_network s then []
      else flyout_panel x y 250 200 @
        [Op_text ''Network & Internet'' (x + 10) (y + 10) MAYA_TEXT_COLOR, Op_line (x + 10) (y + 25) (x + 250 - 10) (y + 25) WIN_BORDER_COLOR,
         Op_text (if dk_wifi_strength s > 0 then ''Wi-Fi: Connected (Maya_Net)'' else ''Wi-Fi: Disconnected'') (x + 10) (y + 40) MAYA_TEXT_COLOR,
         Op_fill (x + 10) (y + 70) 80 40 WIN_BLUE_ACCENT, Op_text ''WLAN'' (x + 30) (y + 85) 0xFFFFFF,
         Op_fill (x + 100) (y + 70) 80 40 0x444444, Op_text ''Bluetooth'' (x + 115) (y + 85) 0xFFFFFF,
         Op_fill (x + 10) (y + 120) 80 40 0x444444, Op_text ''Hotspot'' (x + 25) (y + 135) 0xFFFFFF])"

definition desktop_draw_volume_flyout :: "desktop \<Rightarrow> draw_op list" where
  "desktop_draw_volume_flyout s =
     (let x = SCREEN_WIDTH - 250 - 70; y = SCREEN_HEIGHT - TASKBAR_HEIGHT - 100 - 10 in
      if \<not> dk_volume s then []
      else flyout_panel x y 250 100 @
        [Op_text ''Volume'' (x + 10) (y + 10) MAYA_TEXT_COLOR, Op_fill (x + 10) (y + 40) 230 10 0x444444,
         Op_fill (x + 10) (y + 40) (int (unat (dk_volume_level s)) * 230 div 100) 10 WIN_BLUE_ACCENT,
         Op_text ''EQ: Flat'' (x + 10) (y + 70) 0x888888])"

definition desktop_draw_battery_flyout :: "desktop \<Rightarrow> draw_op list" where
  "desktop_draw_battery_flyout s =
     (let x = SCREEN_WIDTH - 200 - 40; y = SCREEN_HEIGHT - TASKBAR_HEIGHT - 130 - 10 in
      if \<not> dk_battery s then []
      else flyout_panel x y 200 130 @
        [Op_text (''Battery: '' @ number_string (unat (dk_battery_level s)) @ ''%'') (x + 10) (y + 15) MAYA_TEXT_COLOR,
         Op_text ''Power Mode:'' (x + 10) (y + 50) MAYA_TEXT_COLOR, Op_fill (x + 10) (y + 70) 180 5 0x444444,
         Op_fill (x + 90) (y + 65) 10 15 WIN_BLUE_ACCENT, Op_text ''Best Performance'' (x + 50) (y + 95) WIN_BLUE_ACCENT])"

text \<open>
  A whole frame: wallpaper, windows, bar, menu and flyouts, task view, notifications (updated first), and
  \<open>update\<close>, which is \<^verbatim>\<open>graphics_update\<close>. The remaining parameters are those of \<open>window_render_all\<close>.
\<close>

definition desktop_overlay :: "u32 \<Rightarrow> u32 \<Rightarrow> desktop \<Rightarrow> draw_op list" where
  "desktop_overlay grey edge s =
     desktop_draw_taskbar grey edge s @ desktop_draw_start_menu s @ desktop_draw_network_flyout s @ desktop_draw_volume_flyout s @
     desktop_draw_battery_flyout s"

definition desktop_render where
  "desktop_render font dp stk st bg update bloom grey edge now s tv nt = (\<lambda>(wm, g).
     Option.bind (run_ops font (desktop_draw_wallpaper bloom) g) (\<lambda>g1.
     Option.bind (window_render_all font dp stk st bg update (wm, g1)) (\<lambda>r. case r of
       Inl e \<Rightarrow> Some (Inl e)
     | Inr (wm1, g2) \<Rightarrow> (case taskview_draw tv wm1 SCREEN_WIDTH SCREEN_HEIGHT of
         Inl e \<Rightarrow> Some (Inl e)
       | Inr tops \<Rightarrow> let nt1 = notification_update now nt in
           map_option (\<lambda>g3. Inr (wm1, update g3, nt1))
             (run_ops font (desktop_overlay grey edge s @ tops @ notification_render nt1) g2)))))"

section \<open>One popup at a time\<close>

definition popups :: "desktop \<Rightarrow> nat" where
  "popups s = of_bool (dk_start_menu s) + of_bool (dk_network s) + of_bool (dk_volume s) + of_bool (dk_battery s)"

definition desktop_ok :: "desktop \<Rightarrow> bool" where
  "desktop_ok s \<longleftrightarrow> popups s \<le> 1 \<and> length (dk_apps s) \<le> MAX_APPLICATIONS \<and> length (dk_icons s) \<le> MAX_DESKTOP_ICONS \<and>
     length (dk_search s) \<le> 63 \<and> (\<forall>c \<in> set (dk_search s). (32 :: nat) \<le> of_char c \<and> of_char c \<le> (126 :: nat))"

inductive desktop_run :: "desktop \<Rightarrow> bool" where
  Init: "desktop_run desktop_init"
| Add_app: "desktop_run s \<Longrightarrow> desktop_run (desktop_add_application name command category s)"
| Add_icon: "desktop_run s \<Longrightarrow> desktop_run (desktop_add_icon name path x y ty s)"
| Launch: "desktop_run s \<Longrightarrow> desktop_run (desktop_launch_application i s)"
| Click: "desktop_run s \<Longrightarrow> desktop_run (fst (desktop_handle_icon_click x y (s, im)))"
| Start_menu: "desktop_run s \<Longrightarrow> desktop_run (desktop_toggle_start_menu s)"
| Network: "desktop_run s \<Longrightarrow> desktop_run (desktop_toggle_network_flyout s)"
| Volume: "desktop_run s \<Longrightarrow> desktop_run (desktop_toggle_volume_flyout s)"
| Battery: "desktop_run s \<Longrightarrow> desktop_run (desktop_toggle_battery_flyout s)"
| Key: "desktop_run s \<Longrightarrow> desktop_run (desktop_handle_start_menu_input c s)"

lemma say_ok [simp]: "desktop_ok (say m s) = desktop_ok s" "desktop_ok (call_init f s) = desktop_ok s"
  by (simp_all add: desktop_ok_def popups_def say_def call_init_def)

lemma add_ok:
  "desktop_ok s \<Longrightarrow> desktop_ok (desktop_add_application name command category s)"
  "desktop_ok s \<Longrightarrow> desktop_ok (desktop_add_icon name path x y ty s)"
  by (simp_all add: desktop_add_application_def desktop_add_icon_def desktop_ok_def popups_def)

lemma launch_ok [simp]: "desktop_ok s \<Longrightarrow> desktop_ok (desktop_launch_application i s)"
proof -
  assume "desktop_ok s"
  then have "desktop_ok (s\<lparr>dk_apps := (dk_apps s)[nat i := x]\<rparr>)" for x by (simp add: desktop_ok_def popups_def)
  then show ?thesis using \<open>desktop_ok s\<close> by (simp add: desktop_launch_application_def Let_def split: option.split)
qed

lemma select_ok [simp]: "desktop_ok (select_icon sel s) = desktop_ok s"
  by (simp add: select_icon_def desktop_ok_def popups_def)

lemma click_ok: "desktop_ok s \<Longrightarrow> desktop_ok (fst (desktop_handle_icon_click x y (s, im)))"
  by (auto simp: desktop_handle_icon_click_def launch_by_name_def Let_def split: option.splits)

lemma toggles_ok:
  assumes "desktop_ok s"
  shows "desktop_ok (desktop_toggle_start_menu s)" "desktop_ok (desktop_toggle_network_flyout s)"
    "desktop_ok (desktop_toggle_volume_flyout s)" "desktop_ok (desktop_toggle_battery_flyout s)"
  using assms
  by (auto simp: desktop_ok_def popups_def desktop_toggle_start_menu_def desktop_toggle_network_flyout_def desktop_toggle_volume_flyout_def
      desktop_toggle_battery_flyout_def Let_def split: if_splits)

lemma key_ok: "desktop_ok s \<Longrightarrow> desktop_ok (desktop_handle_start_menu_input c s)"
  by (auto simp: desktop_handle_start_menu_input_def desktop_ok_def popups_def dest: in_set_butlastD)

lemma fold_ok: "(\<And>x s. desktop_ok s \<Longrightarrow> desktop_ok (f x s)) \<Longrightarrow> desktop_ok s \<Longrightarrow> desktop_ok (fold f xs s)"
  by (induction xs arbitrary: s) auto

lemma desktop_init_ok: "desktop_ok desktop_init"
proof -
  have z: "desktop_ok (zero_desktop\<lparr>dk_events := e, dk_show_taskbar := True, dk_battery_level := 85, dk_wifi_strength := 3, dk_volume_level := 75\<rparr>)" for e
    by (simp add: zero_desktop_def desktop_ok_def popups_def)
  show ?thesis
    by (simp add: desktop_init_def Let_def add_ok z)
qed

lemma desktop_run_ok: "desktop_run s \<Longrightarrow> desktop_ok s"
  by (induction rule: desktop_run.induct) (simp_all add: desktop_init_ok add_ok click_ok toggles_ok key_ok)

text \<open>
  On every run at most one of the start menu and the three flyouts is open, the tables are within their
  bounds, and the search field holds at most 63 printable characters.
\<close>

theorem one_popup_at_a_time:
  assumes "desktop_run s"
  shows "popups s \<le> 1 \<and> length (dk_apps s) \<le> MAX_APPLICATIONS \<and> length (dk_icons s) \<le> MAX_DESKTOP_ICONS \<and> length (dk_search s) \<le> 63"
  using desktop_run_ok [OF assms] by (simp add: desktop_ok_def)

section \<open>The search\<close>

lemma search_matches_all:
  "search_matches search name is \<longleftrightarrow> (\<forall>i \<in> set is. lower_case (search ! i) = lower_case (char_at name i))"
  by (induction "is") auto

lemma lower_nul: "lower_case (char_of (0 :: nat)) = char_of (0 :: nat)"
  by (simp add: lower_case_def)

lemma lower_printable:
  assumes "(32 :: nat) \<le> of_char c" shows "lower_case c \<noteq> char_of (0 :: nat)"
proof
  assume "lower_case c = char_of (0 :: nat)"
  then have "(of_char (lower_case c) :: nat) = 0" by simp
  moreover have "(of_char (lower_case c) :: nat) \<noteq> 0"
    using assms by (auto simp: lower_case_def)
  ultimately show False by contradiction
qed

text \<open>The filter shows exactly the applications whose name begins with the text typed, without regard to case.\<close>

theorem search_is_prefix:
  assumes "\<forall>c \<in> set search. (32 :: nat) \<le> of_char c"
  shows "app_shown search app \<longleftrightarrow> prefix (map lower_case search) (map lower_case (ap_name app))"
proof -
  let ?n = "ap_name app"
  have "app_shown search app \<longleftrightarrow> (\<forall>i < length search. lower_case (search ! i) = lower_case (char_at ?n i))"
    by (auto simp: app_shown_def search_matches_all)
  also have "\<dots> \<longleftrightarrow> length search \<le> length ?n \<and> (\<forall>i < length search. lower_case (search ! i) = lower_case (?n ! i))"
  proof -
    have "length search \<le> length ?n" if m: "\<forall>i < length search. lower_case (search ! i) = lower_case (char_at ?n i)"
    proof (rule ccontr)
      assume "\<not> length search \<le> length ?n"
      then have l: "length ?n < length search" by simp
      then have "lower_case (search ! length ?n) = char_of (0 :: nat)" using m by (simp add: char_at_def lower_nul)
      moreover have "search ! length ?n \<in> set search" using l by simp
      ultimately show False using assms lower_printable by blast
    qed
    moreover have "char_at ?n i = ?n ! i" if "i < length search" "length search \<le> length ?n" for i using that by (simp add: char_at_def)
    ultimately show ?thesis by metis
  qed
  also have "\<dots> \<longleftrightarrow> prefix (map lower_case search) (map lower_case ?n)"
    by (auto simp: prefix_def list_eq_iff_nth_eq nth_append intro!: exI [of _ "drop (length search) (map lower_case ?n)"])
  finally show ?thesis .
qed

text \<open>Typing printable characters into the empty field fills it up to 63 of them; the rest is ignored.\<close>

theorem typing_fills_search:
  assumes "dk_start_menu s" "dk_search s = []" "\<forall>c \<in> set cs. (32 :: nat) \<le> of_char c \<and> of_char c \<le> (126 :: nat)"
  shows "dk_search (fold desktop_handle_start_menu_input cs s) = take 63 cs"
proof -
  have "dk_search (fold desktop_handle_start_menu_input cs s) = dk_search s @ take (63 - length (dk_search s)) cs \<and>
      dk_start_menu (fold desktop_handle_start_menu_input cs s)"
    if "dk_start_menu s" "length (dk_search s) \<le> 63" "\<forall>c \<in> set cs. (32 :: nat) \<le> of_char c \<and> of_char c \<le> (126 :: nat)" for s
    using that
  proof (induction cs arbitrary: s)
    case (Cons c cs)
    have c: "(32 :: nat) \<le> of_char c" "of_char c \<le> (126 :: nat)" "of_char c \<noteq> (8 :: nat)" using Cons.prems(3) by auto
    let ?s = "desktop_handle_start_menu_input c s"
    have s: "?s = (if length (dk_search s) < 63 then s\<lparr>dk_search := dk_search s @ [c]\<rparr> else s)"
      using c Cons.prems(1) by (simp add: desktop_handle_start_menu_input_def)
    have "dk_search (fold desktop_handle_start_menu_input cs ?s) = dk_search ?s @ take (63 - length (dk_search ?s)) cs \<and>
        dk_start_menu (fold desktop_handle_start_menu_input cs ?s)"
      using Cons.prems by (intro Cons.IH) (simp_all add: s)
    then show ?case using Cons.prems(2) by (auto simp: s take_Cons' Suc_diff_Suc split: if_splits)
  qed simp
  then show ?thesis using assms by simp
qed

section \<open>Clicks\<close>

text \<open>
  A click selects the first icon under the pointer and no other, or none. With a double click pending, the
  application with the name of the icon is marked as running, and the double click is used up.
\<close>

theorem click_selects_and_launches:
  assumes "first_index (icon_hit x y) (dk_icons s) = Some i"
  shows "\<exists>s' im'. desktop_handle_icon_click x y (s, im) = (s', im') \<and> length (dk_icons s') = length (dk_icons s) \<and>
    (\<forall>j < length (dk_icons s). ic_selected (dk_icons s' ! j) = (j = i)) \<and>
    (maya_input_is_double_click im = 0 \<longrightarrow> dk_apps s' = dk_apps s \<and> im' = im) \<and>
    (maya_input_is_double_click im \<noteq> 0 \<longrightarrow> maya_input_is_double_click im' = 0 \<and>
      (\<forall>a. first_index (\<lambda>app. ap_name app = ic_name (dk_icons s ! i)) (dk_apps s) = Some a \<longrightarrow>
        dk_apps s' = (dk_apps s)[a := (dk_apps s ! a)\<lparr>ap_running := True\<rparr>]))"
proof -
  have i: "i < length (dk_icons s)" using first_index_bound [OF assms] .
  have sel: "length (dk_icons (select_icon (Some i) s)) = length (dk_icons s)"
    "\<And>j. j < length (dk_icons s) \<Longrightarrow> dk_icons (select_icon (Some i) s) ! j = (dk_icons s ! j)\<lparr>ic_selected := (j = i)\<rparr>"
    "dk_apps (select_icon (Some i) s) = dk_apps s"
    by (auto simp: select_icon_def eq_commute [of i])
  have icons: "dk_icons (desktop_launch_application k t) = dk_icons t" for k t
    by (simp add: desktop_launch_application_def say_def call_init_def Let_def split: option.split)
  have said: "dk_icons (say m t) = dk_icons t" "dk_apps (say m t) = dk_apps t" for m t by (simp_all add: say_def)
  have run: "dk_apps (desktop_launch_application (int a) t) = (dk_apps t)[a := (dk_apps t ! a)\<lparr>ap_running := True\<rparr>]"
    if "a < length (dk_apps t)" for a t
    using that by (simp add: desktop_launch_application_def say_def call_init_def Let_def split: option.split)
  show ?thesis
  proof (cases "maya_input_is_double_click im = 0")
    case True
    then show ?thesis using assms sel by (simp add: desktop_handle_icon_click_def Let_def)
  next
    case False
    let ?name = "ic_name (dk_icons s ! i)"
    let ?s2 = "say (''Launching from shortcut: '' @ ?name @ [char_of (10 :: nat)]) (select_icon (Some i) s)"
    let ?s' = "case launch_by_name ?name ?s2 of Some s3 \<Rightarrow> s3 | None \<Rightarrow> (case launch_by_name ''File Manager'' ?s2 of Some s3 \<Rightarrow> s3 | None \<Rightarrow> ?s2)"
    have eq: "desktop_handle_icon_click x y (s, im) = (?s', maya_input_clear_double_click im)"
    proof -
      have n: "ic_name (dk_icons (select_icon (Some i) s) ! i) = ?name" using sel(2) [OF i] by simp
      show ?thesis unfolding desktop_handle_icon_click_def prod.case Let_def assms option.case n using False by (simp only: if_False)
    qed
    have "dk_icons ?s' = dk_icons (select_icon (Some i) s)"
      by (auto simp: launch_by_name_def icons said split: option.split)
    moreover have "dk_apps ?s' = (dk_apps s)[a := (dk_apps s ! a)\<lparr>ap_running := True\<rparr>]"
      if "first_index (\<lambda>app. ap_name app = ?name) (dk_apps s) = Some a" for a
      using that first_index_bound [OF that] run [of a ?s2] by (simp add: launch_by_name_def said sel(3))
    moreover have "maya_input_is_double_click (maya_input_clear_double_click im) = 0"
      by (simp add: maya_input_is_double_click_def maya_input_clear_double_click_def)
    ultimately show ?thesis using False sel unfolding eq by auto
  qed
qed

text \<open>
  The shortcuts without an application of their own go to the file manager, whose command no handler
  knows: it is never started.
\<close>

lemma file_manager_unknown:
  assumes "dk_apps s ! k = \<lparr>ap_name = ''File Manager'', ap_command = ''files'', ap_category = ''System'', ap_running = r\<rparr>" "k < length (dk_apps s)"
  shows "dk_events (desktop_launch_application (int k) s) =
    dk_events s @ [Printed (''Launching: File Manager'' @ [char_of (10 :: nat)]), Printed (''Unknown app: files'' @ [char_of (10 :: nat)])]"
  using assms by (simp add: desktop_launch_application_def app_handler_def say_def Let_def)

text \<open>The six icons put on the desktop are 80 lines apart: the last four are below the screen of 200 lines.\<close>

lemma icons_frame:
  "dk_icons (say m s) = dk_icons s" "dk_icons (call_init f s) = dk_icons s" "dk_icons (desktop_add_application n c k s) = dk_icons s"
  "map ic_y (dk_icons (desktop_add_icon n p x y ty s)) = map ic_y (dk_icons s) @ (if length (map ic_y (dk_icons s)) \<ge> 32 then [] else [y])"
  by (simp_all add: say_def call_init_def desktop_add_application_def desktop_add_icon_def MAX_DESKTOP_ICONS_def)

lemma icons_below_screen: "map ic_y (dk_icons desktop_init) = [80, 160, 240, 320, 400, 480]"
proof -
  have "dk_icons (zero_desktop\<lparr>dk_events := e, dk_show_taskbar := a, dk_battery_level := b, dk_wifi_strength := c, dk_volume_level := d\<rparr>) = []"
    for e a b c d by (simp add: zero_desktop_def)
  then show ?thesis by (simp add: desktop_init_def icons_frame Let_def del: length_map)
qed

text \<open>The start menu, 400 lines high, begins 238 lines above the screen.\<close>

lemma start_menu_above_screen: "MENU_Y = -238"
  by (simp add: MENU_Y_def SCREEN_HEIGHT_def TASKBAR_HEIGHT_def)

section \<open>The wallpaper is never seen\<close>

lemma clear_row:
  assumes "i * w + n \<le> length f"
  shows "fold (\<lambda>j f. f[i * w + j := c]) [0..<n] f = take (i * w) f @ replicate n c @ drop (i * w + n) f"
  using assms
proof (induction n)
  case (Suc n)
  let ?f = "take (i * w) f @ replicate n c @ drop (i * w + n) f"
  have "drop (i * w + n) f = f ! (i * w + n) # drop (i * w + Suc n) f" using Suc.prems by (simp add: Cons_nth_drop_Suc)
  then have "?f[i * w + n := c] = take (i * w) f @ replicate n c @ c # drop (i * w + Suc n) f"
    using Suc.prems by (simp add: list_update_append)
  then show ?case using Suc by (simp add: replicate_append_same [symmetric])
qed simp

lemma graphics_clear_all:
  assumes "g_initialized s" "length (fb s) = g_width s * g_height s"
  shows "graphics_clear c s = s\<lparr>fb := replicate (g_width s * g_height s) c\<rparr>"
proof -
  let ?w = "g_width s"
  have "k \<le> g_height s \<Longrightarrow> fold (\<lambda>i f. fold (\<lambda>j f. f[i * ?w + j := c]) [0..<?w] f) [0..<k] (fb s) = replicate (k * ?w) c @ drop (k * ?w) (fb s)" for k
  proof (induction k)
    case (Suc k)
    have "Suc k * ?w \<le> g_height s * ?w" using Suc.prems by (rule mult_le_mono1)
    then have le: "k * ?w + ?w \<le> length (replicate (k * ?w) c @ drop (k * ?w) (fb s))" using assms(2) by (simp add: mult.commute)
    have "fold (\<lambda>j f. f[k * ?w + j := c]) [0..<?w] (replicate (k * ?w) c @ drop (k * ?w) (fb s)) =
        replicate (k * ?w) c @ replicate ?w c @ drop (k * ?w + ?w) (fb s)"
      unfolding clear_row [OF le] by (simp add: add.commute)
    moreover have "replicate (Suc k * ?w) c = replicate (k * ?w) c @ replicate ?w c"
      by (simp add: replicate_add [symmetric] add.commute)
    ultimately show ?case using Suc by (simp add: add.commute)
  qed simp
  from this [of "g_height s"] show ?thesis using assms by (simp add: graphics_clear_def mult.commute)
qed

text \<open>
  Drawing the windows begins with clearing the screen: the frame is the same whatever the wallpaper is.
\<close>

theorem wallpaper_invisible:
  assumes "wm_initialized wm" "g_initialized g" "length (fb g) = g_width g * g_height g"
  shows "desktop_render font dp stk st bg update bloom grey edge now s tv nt (wm, g) =
    desktop_render font dp stk st bg update bloom' grey edge now s tv nt (wm, g)"
proof -
  have "\<exists>g1. run_ops font ps g = Some g1 \<and> graphics_clear bg g1 = g\<lparr>fb := replicate (g_width g * g_height g) bg\<rparr>" for ps
  proof -
    obtain g1 where g1: "run_ops font ps g = Some g1" "same_mode g1 g" using run_ops_total by blast
    then have "g1 = g\<lparr>fb := fb g1\<rparr>" "length (fb g1) = length (fb g)" by (simp_all add: same_mode_def)
    moreover from this have "g_initialized g1" "g_width g1 = g_width g" "g_height g1 = g_height g" using assms(2) same_modeD [OF g1(2)] by auto
    ultimately have "graphics_clear bg g1 = g\<lparr>fb := replicate (g_width g * g_height g) bg\<rparr>"
      using assms(3) graphics_clear_all [of g1 bg] by (metis gfx.surjective gfx.update_convs(1))
    then show ?thesis using g1(1) by blast
  qed
  note same = this
  obtain g1 where g1: "run_ops font (desktop_draw_wallpaper bloom) g = Some g1" "graphics_clear bg g1 = g\<lparr>fb := replicate (g_width g * g_height g) bg\<rparr>"
    using same by blast
  obtain g2 where g2: "run_ops font (desktop_draw_wallpaper bloom') g = Some g2" "graphics_clear bg g2 = g\<lparr>fb := replicate (g_width g * g_height g) bg\<rparr>"
    using same by blast
  have "window_render_all font dp stk st bg update (wm, g1) = window_render_all font dp stk st bg update (wm, g2)"
    using assms(1) g1(2) g2(2) by (simp add: window_render_all_def)
  then show ?thesis by (simp add: desktop_render_def g1(1) g2(1))
qed

section \<open>Witnesses\<close>

theorem one_popup_at_a_time_witness: "popups (desktop_toggle_network_flyout (desktop_toggle_start_menu desktop_init)) \<le> 1"
  using one_popup_at_a_time [OF desktop_run.Network [OF desktop_run.Start_menu [OF desktop_run.Init]]] by blast

definition notepad_app :: application where
  "notepad_app = \<lparr>ap_name = ''Notepad'', ap_command = ''notepad'', ap_category = ''Accessories'', ap_running = False\<rparr>"

theorem search_is_prefix_witness: "app_shown ''nOt'' notepad_app \<and> \<not> app_shown ''pad'' notepad_app"
  using search_is_prefix [of "''nOt''" notepad_app] search_is_prefix [of "''pad''" notepad_app]
  by (simp add: notepad_app_def) code_simp

definition open_menu :: desktop where
  "open_menu = zero_desktop\<lparr>dk_start_menu := True, dk_apps := [notepad_app],
     dk_icons := [\<lparr>ic_x = 80, ic_y = 80, ic_width = 48, ic_height = 48, ic_name = ''Notepad'', ic_path = [], ic_selected = False, ic_type = 1\<rparr>]\<rparr>"

theorem typing_fills_search_witness: "dk_search (fold desktop_handle_start_menu_input ''note'' open_menu) = ''note''"
  using typing_fills_search [of open_menu "''note''"] by (simp add: open_menu_def zero_desktop_def)

theorem click_selects_and_launches_witness:
  "\<exists>s' im'. desktop_handle_icon_click 100 100 (open_menu, im) = (s', im') \<and> ic_selected (dk_icons s' ! 0)"
  using click_selects_and_launches [of 100 100 open_menu 0 im]
  by (auto simp: open_menu_def zero_desktop_def icon_hit_def)

end
