(* ===== verification/Task_Bar.thy ===== *)
theory Task_Bar
  imports Desktop_Shell
begin

text \<open>
  The task bar (\<^verbatim>\<open>gui/taskbar.c\<close>): what it draws, the clock it shows, and what a click on it opens. The
  screen is 320 by 200, so the bar begins at line 172. \<^verbatim>\<open>timer_get_tick\<close> is defined nowhere: its value is
  an argument, as is the missing \<^verbatim>\<open>vsnprintf\<close> behind \<^verbatim>\<open>snprintf\<close>. Shown here: the hours and minutes given
  to the formatter are the time of day, which flyout each point of the bar opens, and that clicks keep at
  most one menu or flyout open. The picture of the wireless indicator lies inside the part of the bar that
  opens the start menu.
\<close>

section \<open>State and operations\<close>

definition SYSTEM_TRAY_WIDTH :: int where "SYSTEM_TRAY_WIDTH = 200"
definition WIN_TASKBAR_BG :: u32 where "WIN_TASKBAR_BG = 0x1A1C1E"

record taskbar =
  tb_x :: int
  tb_y :: int
  tb_width :: int
  tb_height :: int
  tb_time_str :: string
  tb_battery :: u8
  tb_wifi :: u8
  tb_volume :: u8
  tb_visible :: bool

text \<open>The format \<^verbatim>\<open>%02d:%02d\<close>.\<close>

definition time_format :: "u8 list" where
  "time_format = [0x25, 0x30, 0x32, 0x64, 0x3A, 0x25, 0x30, 0x32, 0x64]"

definition taskbar_update_time :: "(nat \<Rightarrow> u8 list \<Rightarrow> u32 list \<Rightarrow> string \<times> int) \<Rightarrow> u32 \<Rightarrow> taskbar \<Rightarrow> taskbar" where
  "taskbar_update_time vsn ticks s =
     (let seconds = ticks div 100; minutes = seconds div 60; hours = (minutes div 60) mod 24; minutes = minutes mod 60
      in case fst (snprintf_io vsn (Some (tb_time_str s)) 16 (Some time_format) [hours, minutes]) of
           None \<Rightarrow> s | Some t \<Rightarrow> s\<lparr>tb_time_str := t\<rparr>)"

definition taskbar_init :: "(nat \<Rightarrow> u8 list \<Rightarrow> u32 list \<Rightarrow> string \<times> int) \<Rightarrow> u32 \<Rightarrow> taskbar" where
  "taskbar_init vsn ticks =
     taskbar_update_time vsn ticks \<lparr>tb_x = 0, tb_y = SCREEN_HEIGHT - TASKBAR_HEIGHT, tb_width = SCREEN_WIDTH, tb_height = TASKBAR_HEIGHT,
       tb_time_str = [], tb_battery = 85, tb_wifi = 3, tb_volume = 75, tb_visible = True\<rparr>"

section \<open>Drawing\<close>

text \<open>The button of a window: its first letter, underlined when it has the focus.\<close>

definition app_button :: "window_manager \<Rightarrow> int \<Rightarrow> int \<Rightarrow> nat \<Rightarrow> draw_op list" where
  "app_button wm y app_x w = (case wm_store wm w of None \<Rightarrow> []
     | Some win \<Rightarrow>
         let foc = (Some w = window_get_focused wm) in
         [Op_fill app_x (y + 4) 30 20 (if foc then 0x444444 else 0x222222),
          Op_text (take 1 (w_title win)) (app_x + 10) (y + 8) 0xFFFFFF] @
         (if foc then [Op_fill (app_x + 5) (y + 24) 20 2 WIN_BLUE_ACCENT] else []))"

fun taskbar_apps :: "window_manager \<Rightarrow> int \<Rightarrow> nat list \<Rightarrow> int \<Rightarrow> draw_op list" where
  "taskbar_apps wm y [] app_x = []"
| "taskbar_apps wm y (i # is) app_x = (case window_get_by_index (int i) wm of
       None \<Rightarrow> taskbar_apps wm y is app_x
     | Some w \<Rightarrow> app_button wm y app_x w @ taskbar_apps wm y is (app_x + 35))"

definition taskbar_draw_indicators :: "int \<Rightarrow> taskbar \<Rightarrow> draw_op list" where
  "taskbar_draw_indicators x s =
     (let y = tb_y s + 8;
          wifi = map (\<lambda>i. Op_line (x - i * 2) (y + 10 - i * 3) (x + i * 2) (y + 10 - i * 3)
            (if i < uint (tb_wifi s) then 0xFFFFFF else 0x555555)) [0..3];
          x = x + 20; meter = uint (tb_battery s) * 20 div 100
      in wifi @ [Op_rect x (y + 2) 22 10 0xFFFFFF, Op_fill (x + 22) (y + 5) 2 4 0xFFFFFF,
           Op_fill (x + 1) (y + 3) meter 8 (if tb_battery s > 20 then 0x00FF00 else 0xFF0000)])"

definition taskbar_draw_time :: "int \<Rightarrow> taskbar \<Rightarrow> draw_op list" where
  "taskbar_draw_time x s = [Op_text (tb_time_str s) x (tb_y s + 8) 0xFFFFFF]"

definition taskbar_render :: "input_manager \<Rightarrow> window_manager \<Rightarrow> taskbar \<Rightarrow> draw_op list" where
  "taskbar_render im wm s =
     (if \<not> tb_visible s then []
      else let render_height = (if maya_input_is_tablet_mode im \<noteq> 0 then tb_height s + 12 else tb_height s);
               render_y = SCREEN_HEIGHT - render_height;
               start_x = SCREEN_WIDTH div 2 - 16;
               tray_x = SCREEN_WIDTH - SYSTEM_TRAY_WIDTH + 40
        in [Op_fill (tb_x s) render_y (tb_width s) render_height WIN_TASKBAR_BG,
            Op_line 0 render_y SCREEN_WIDTH render_y WIN_BORDER_COLOR,
            Op_fill start_x (tb_y s + 6) 16 16 WIN_BLUE_ACCENT]
           @ taskbar_apps wm (tb_y s) [0..<window_get_count wm] (start_x + 32)
           @ taskbar_draw_indicators tray_x s @ taskbar_draw_time (tray_x + 150) s)"

section \<open>Clicks\<close>

definition taskbar_handle_click :: "taskbar \<Rightarrow> int \<Rightarrow> int \<Rightarrow> desktop \<Rightarrow> desktop" where
  "taskbar_handle_click s x y d =
     (if \<not> tb_visible s \<or> y < tb_y s then d
      else let start_x = SCREEN_WIDTH div 2 - 16 in
        if x \<ge> start_x \<and> x \<le> start_x + 32 then desktop_toggle_start_menu d
        else let tray_x = SCREEN_WIDTH - SYSTEM_TRAY_WIDTH + 40 in
          if x \<ge> tray_x \<and> x \<le> tray_x + 20 then desktop_toggle_network_flyout d
          else let tray_x = tray_x + 15 in
            if x \<ge> tray_x \<and> x \<le> tray_x + 30 then desktop_toggle_battery_flyout d
            else let tray_x = tray_x + 30 in
              if x \<ge> tray_x \<and> x \<le> tray_x + 20 then desktop_toggle_volume_flyout d
              else d)"

lemmas bar_geometry = SCREEN_WIDTH_def SCREEN_HEIGHT_def TASKBAR_HEIGHT_def SYSTEM_TRAY_WIDTH_def

section \<open>The clock\<close>

lemma time_of_day:
  fixes ticks :: u32
  shows "unat (ticks div 100 div 60 div 60 mod 24) = unat ticks div 360000 mod 24"
    "unat (ticks div 100 div 60 mod 60) = unat ticks div 6000 mod 60"
  by (simp_all add: unat_div_distrib unat_mod_distrib div_mult2_eq [symmetric])

text \<open>
  The formatter is given the time of day: the minutes since midnight are the ticks, a hundred to the second,
  in minutes, modulo a day.
\<close>

theorem clock_shows_time_of_day:
  "\<exists>h m. tb_time_str (taskbar_update_time vsn ticks s) = fst (vsn 16 time_format [h, m]) \<and> unat h < 24 \<and> unat m < 60 \<and>
    unat h * 60 + unat m = unat ticks div 6000 mod 1440"
proof -
  let ?h = "ticks div 100 div 60 div 60 mod 24" and ?m = "ticks div 100 div 60 mod 60"
  have "tb_time_str (taskbar_update_time vsn ticks s) = fst (vsn 16 time_format [?h, ?m])"
    by (simp add: taskbar_update_time_def snprintf_io_def Let_def split: prod.split)
  moreover have "unat ?h * 60 + unat ?m = unat ticks div 6000 mod 1440"
  proof -
    have "unat ticks div 6000 mod (60 * 24) = 60 * (unat ticks div 6000 div 60 mod 24) + unat ticks div 6000 mod 60"
      by (rule mod_mult2_eq)
    then show ?thesis by (simp add: time_of_day div_mult2_eq [symmetric])
  qed
  moreover have "unat ?h < 24" "unat ?m < 60" unfolding time_of_day by simp_all
  ultimately show ?thesis by blast
qed

section \<open>What a click opens\<close>

lemma bar_position: "tb_y (taskbar_init vsn ticks) = 172" "tb_visible (taskbar_init vsn ticks)"
  by (simp_all add: taskbar_init_def taskbar_update_time_def bar_geometry Let_def split: option.split)

text \<open>
  The bar from left to right: the start menu for the columns 144 to 176, then the network, the battery and
  the volume flyout up to column 225; elsewhere, and above the bar, nothing.
\<close>

theorem click_regions:
  assumes "bar = taskbar_init vsn ticks"
  shows "taskbar_handle_click bar x y =
    (if y < 172 then id
     else if x \<in> {144..176} then desktop_toggle_start_menu
     else if x \<in> {177..180} then desktop_toggle_network_flyout
     else if x \<in> {181..205} then desktop_toggle_battery_flyout
     else if x \<in> {206..225} then desktop_toggle_volume_flyout
     else id)"
  by (rule ext) (auto simp: taskbar_handle_click_def assms bar_position bar_geometry)

theorem click_regions_witness:
  "dk_battery (taskbar_handle_click (taskbar_init (\<lambda>_ _ _. ([], 0)) 0) 190 180 zero_desktop)"
  by (simp add: click_regions [OF refl] desktop_toggle_battery_flyout_def zero_desktop_def)

text \<open>Clicks anywhere on the bar keep at most one menu or flyout open.\<close>

theorem bar_clicks_keep_one_popup:
  assumes "desktop_run d"
  shows "popups (fold (\<lambda>(x, y). taskbar_handle_click s x y) clicks d) \<le> 1"
proof -
  have click: "desktop_run (taskbar_handle_click s x y d)" if "desktop_run d" for x y d
    using that by (simp add: taskbar_handle_click_def Let_def desktop_run.intros)
  have "desktop_run (fold (\<lambda>(x, y). taskbar_handle_click s x y) clicks d)"
    using assms by (induction clicks arbitrary: d) (auto simp: click)
  then show ?thesis using desktop_run_ok by (simp add: desktop_ok_def)
qed

theorem bar_clicks_keep_one_popup_witness:
  "popups (fold (\<lambda>(x, y). taskbar_handle_click (taskbar_init (\<lambda>_ _ _. ([], 0)) 0) x y) [(150, 180), (190, 190), (220, 199)] desktop_init) \<le> 1"
  by (rule bar_clicks_keep_one_popup [OF desktop_run.Init])

text \<open>
  The lines of the wireless indicator lie in the columns 154 to 166, all of which open the start menu; the
  flyout of the network opens only right of it.
\<close>

lemma wifi_picture_opens_start_menu:
  assumes "bar = taskbar_init vsn ticks" "Op_line x1 y x2 y' c \<in> set (taskbar_draw_indicators 160 bar)" "x1 \<le> x" "x \<le> x2"
  shows "taskbar_handle_click bar x 180 = desktop_toggle_start_menu"
proof -
  have "set [0..3 :: int] = {0, 1, 2, 3}" by auto
  then have "154 \<le> x1" "x2 \<le> 166" using assms(2) by (auto simp: taskbar_draw_indicators_def Let_def)
  then show ?thesis using assms(3,4) by (simp add: click_regions [OF assms(1)])
qed

text \<open>In tablet mode the bar is drawn twelve lines higher, but the lines gained take no clicks.\<close>

lemma tablet_lines_dead:
  assumes "bar = taskbar_init vsn ticks" "160 \<le> y" "y < 172" "maya_input_is_tablet_mode im \<noteq> 0"
  shows "Op_fill 0 160 320 40 WIN_TASKBAR_BG \<in> set (taskbar_render im wm bar)" "taskbar_handle_click bar x y d = d"
proof -
  have "tb_x bar = 0" "tb_width bar = 320" "tb_height bar = 28"
    using assms(1) by (simp_all add: taskbar_init_def taskbar_update_time_def bar_geometry Let_def split: option.split)
  then show "Op_fill 0 160 320 40 WIN_TASKBAR_BG \<in> set (taskbar_render im wm bar)"
    using assms(4) bar_position [of vsn ticks] by (simp add: taskbar_render_def assms(1) SCREEN_HEIGHT_def Let_def)
qed (use assms in \<open>simp add: taskbar_handle_click_def bar_position\<close>)

text \<open>The clock begins ten columns before the right edge, with characters eight wide.\<close>

lemma clock_off_screen:
  "tb_visible s \<Longrightarrow> Op_text (tb_time_str s) 310 (tb_y s + 8) 0xFFFFFF \<in> set (taskbar_render im wm s)"
  by (simp add: taskbar_render_def taskbar_draw_time_def bar_geometry Let_def)

end
