(* ===== verification/Settings_App.thy ===== *)
theory Settings_App
  imports Task_View "HOL-Library.Signed_Division"
begin

text \<open>
  The settings panel (\<^verbatim>\<open>gui/apps/settings.c\<close>). What each section draws is a column of parts, each with the
  height it takes; the panel is the list of the graphics calls, followed by the rendering of the window.
  \<^verbatim>\<open>sprintf\<close> is modelled by the text its documentation promises. Shown here: the section selected stays one
  of the eleven, a click on a row of the side bar selects the section drawn there, the row highlighted is
  the one under the pointer, and rendering the window paints its buffer over the whole panel.
\<close>

section \<open>Colours, layout and state\<close>

definition SETTINGS_BG :: u32 where "SETTINGS_BG = 0x1C1C1C"
definition SETTINGS_SIDEBAR_BG :: u32 where "SETTINGS_SIDEBAR_BG = 0x141414"
definition SETTINGS_HEADER_BG :: u32 where "SETTINGS_HEADER_BG = 0x252525"
definition SETTINGS_HOVER_BG :: u32 where "SETTINGS_HOVER_BG = 0x333333"
definition SETTINGS_ACTIVE_BG :: u32 where "SETTINGS_ACTIVE_BG = 0x003D7A"
definition SETTINGS_TEXT_PRI :: u32 where "SETTINGS_TEXT_PRI = 0xFFFFFF"
definition SETTINGS_TEXT_SEC :: u32 where "SETTINGS_TEXT_SEC = 0xAAAAAA"
definition SETTINGS_ACCENT :: u32 where "SETTINGS_ACCENT = 0x0078D4"
definition SETTINGS_TOGGLE_ON :: u32 where "SETTINGS_TOGGLE_ON = 0x0078D4"
definition SETTINGS_TOGGLE_OFF :: u32 where "SETTINGS_TOGGLE_OFF = 0x555555"
definition SETTINGS_DIVIDER :: u32 where "SETTINGS_DIVIDER = 0x333333"
definition SETTINGS_CARD_BG :: u32 where "SETTINGS_CARD_BG = 0x2A2A2A"

definition SEC_COUNT :: int where "SEC_COUNT = 11"
definition SIDEBAR_W :: int where "SIDEBAR_W = 220"
definition HEADER_H :: int where "HEADER_H = 50"
definition ITEM_H :: int where "ITEM_H = 40"
definition PANEL_PAD :: int where "PANEL_PAD = 18"

definition SECTION_LABELS :: "string list" where
  "SECTION_LABELS = [''Home'', ''System'', ''Bluetooth & devices'', ''Network & internet'', ''Personalization'', ''Apps'', ''Accounts'',
     ''Time & language'', ''Accessibility'', ''Privacy & security'', ''Windows Update'']"

definition SECTION_ICONS :: string where "SECTION_ICONS = ''HSBNPAUTW#U''"

record settings =
  set_win :: "nat option"
  active_section :: int
  scroll_y :: int
  dark_mode :: bool
  transparency :: bool
  animations :: bool
  accent_color_index :: int
  night_light :: bool
  focus_assist :: bool
  display_scale :: int
  volume :: int
  brightness :: int
  wifi_enabled :: bool
  bluetooth_enabled :: bool
  airplane_mode :: bool
  hotspot_enabled :: bool
  location :: bool
  camera :: bool
  microphone :: bool
  diagnostic :: bool
  auto_update :: bool
  update_available :: bool
  last_checked :: string
  user_name :: string
  user_email :: string

definition zero_settings :: settings where
  "zero_settings = \<lparr>set_win = None, active_section = 0, scroll_y = 0, dark_mode = False, transparency = False, animations = False,
     accent_color_index = 0, night_light = False, focus_assist = False, display_scale = 0, volume = 0, brightness = 0,
     wifi_enabled = False, bluetooth_enabled = False, airplane_mode = False, hotspot_enabled = False, location = False, camera = False,
     microphone = False, diagnostic = False, auto_update = False, update_available = False, last_checked = [], user_name = [], user_email = []\<rparr>"

section \<open>Parts\<close>

definition draw_toggle :: "int \<Rightarrow> int \<Rightarrow> bool \<Rightarrow> draw_op list" where
  "draw_toggle x y on =
     [Op_fill x (y + 5) 40 14 (if on then SETTINGS_TOGGLE_ON else SETTINGS_TOGGLE_OFF),
      Op_fill (if on then x + 24 else x + 2) (y + 3) 18 18 SETTINGS_TEXT_PRI]"

definition draw_slider :: "int \<Rightarrow> int \<Rightarrow> int \<Rightarrow> int \<Rightarrow> draw_op list" where
  "draw_slider x y val max_val =
     (let track_w = 200; fill_w = (val * track_w) sdiv (if max_val \<noteq> 0 then max_val else 1) in
      [Op_fill x (y + 7) track_w 6 SETTINGS_HOVER_BG, Op_fill x (y + 7) fill_w 6 SETTINGS_ACCENT,
       Op_fill (x + fill_w - 6) (y + 1) 12 18 SETTINGS_TEXT_PRI])"

text \<open>\<open>state\<close> is the flag the toggle shows, absent for a row without one.\<close>

definition draw_card_row :: "int \<Rightarrow> int \<Rightarrow> string \<Rightarrow> string \<Rightarrow> bool option \<Rightarrow> int \<Rightarrow> draw_op list" where
  "draw_card_row x w label desc state y =
     [Op_fill x y w 54 SETTINGS_CARD_BG, Op_text label (x + 15) (y + 10) SETTINGS_TEXT_PRI] @
     (if desc \<noteq> [] then [Op_text desc (x + 15) (y + 30) SETTINGS_TEXT_SEC] else []) @
     (case state of None \<Rightarrow> [] | Some on \<Rightarrow> draw_toggle (x + w - 60) (y + 16) on) @
     [Op_line x (y + 54) (x + w) (y + 54) SETTINGS_DIVIDER]"

definition draw_section_header :: "int \<Rightarrow> int \<Rightarrow> string \<Rightarrow> int \<Rightarrow> draw_op list" where
  "draw_section_header x w title y =
     [Op_fill x y w 32 SETTINGS_HEADER_BG, Op_text title (x + 12) (y + 9) SETTINGS_ACCENT,
      Op_line x (y + 32) (x + w) (y + 32) SETTINGS_DIVIDER]"

text \<open>Parts one below the other: what each draws at its line, and by how much the line moves on.\<close>

fun column :: "int \<Rightarrow> ((int \<Rightarrow> draw_op list) \<times> int) list \<Rightarrow> draw_op list" where
  "column cy [] = []"
| "column cy ((part, dy) # parts) = part cy @ column (cy + dy) parts"

text \<open>A number followed by a percent sign.\<close>

definition percent :: "int \<Rightarrow> string" where
  "percent i = map (\<lambda>c. char_of (unat c)) (int_text 10 i) @ ''%''"

section \<open>Sections\<close>

definition render_home :: "settings \<Rightarrow> int \<Rightarrow> int \<Rightarrow> int \<Rightarrow> draw_op list" where
  "render_home s px py pw =
     (let row = \<lambda>l d t. (draw_card_row px pw l d (Some t), 60) in
      [Op_fill px py pw 80 SETTINGS_CARD_BG, Op_fill (px + 14) (py + 14) 52 52 SETTINGS_ACCENT,
       Op_text (if user_name s \<noteq> [] then user_name s else ''User'') (px + 25) (py + 32) SETTINGS_TEXT_PRI,
       Op_text (user_name s) (px + 80) (py + 20) SETTINGS_TEXT_PRI, Op_text (user_email s) (px + 80) (py + 40) SETTINGS_TEXT_SEC] @
      column (py + 100)
       [(draw_section_header px pw ''Quick settings'', 40), row ''Night Light'' ''Reduces blue light at night'' (night_light s),
        row ''Focus Assist'' ''Suppress notifications'' (focus_assist s), row ''Transparency'' ''Acrylic / mica effects'' (transparency s),
        row ''Dark Mode'' ''Use dark theme throughout'' (dark_mode s), row ''Animations'' ''Enable window animations'' (animations s)])"

definition level_card :: "int \<Rightarrow> int \<Rightarrow> string \<Rightarrow> int \<Rightarrow> int \<Rightarrow> draw_op list" where
  "level_card px pw label v cy =
     [Op_fill px cy pw 64 SETTINGS_CARD_BG, Op_text label (px + 15) (cy + 10) SETTINGS_TEXT_PRI,
      Op_text (percent v) (px + pw - 50) (cy + 10) SETTINGS_TEXT_SEC] @ draw_slider (px + 15) (cy + 32) v 100"

definition about_card :: "int \<Rightarrow> int \<Rightarrow> int \<Rightarrow> draw_op list" where
  "about_card px pw cy =
     [Op_fill px cy pw 130 SETTINGS_CARD_BG, Op_text ''Maya OS v1.0.0'' (px + 15) (cy + 10) SETTINGS_TEXT_PRI,
      Op_text ''Processor:  x86 (i686)'' (px + 15) (cy + 28) SETTINGS_TEXT_SEC,
      Op_text ''RAM:        256 MB'' (px + 15) (cy + 44) SETTINGS_TEXT_SEC,
      Op_text ''System type: 32-bit OS'' (px + 15) (cy + 60) SETTINGS_TEXT_SEC,
      Op_text ''Build:      2026-03-07'' (px + 15) (cy + 76) SETTINGS_TEXT_SEC,
      Op_text ''Author:     AmanNagtodeOfficial'' (px + 15) (cy + 92) SETTINGS_TEXT_SEC]"

definition render_system :: "settings \<Rightarrow> int \<Rightarrow> int \<Rightarrow> int \<Rightarrow> draw_op list" where
  "render_system s px py pw =
     (let row = \<lambda>l d t. (draw_card_row px pw l d t, 60); head = \<lambda>t. (draw_section_header px pw t, 40) in
      column py
       [head ''Display'', (level_card px pw ''Brightness'' (brightness s), 70), (level_card px pw ''System Volume'' (volume s), 70),
        head ''Sound & display'', row ''Night Light'' ''Warmer screen at night'' (Some (night_light s)),
        row ''Focus Assist'' ''Minimise interruptions'' (Some (focus_assist s)),
        head ''Power & sleep'', row ''Screen off after 5 min'' '''' None, row ''Sleep after 15 min'' '''' None,
        head ''About'', (about_card px pw, 0)])"

text \<open>The middle dot of the code, the byte 0xB7.\<close>

definition middle_dot :: string where "middle_dot = [char_of (0xB7 :: nat)]"

definition add_device :: "int \<Rightarrow> int \<Rightarrow> int \<Rightarrow> draw_op list" where
  "add_device px pw cy =
     [Op_fill px cy pw 44 SETTINGS_ACCENT, Op_text ''+ Add device'' (px + c_half pw - 40) (cy + 14) SETTINGS_TEXT_PRI]"

definition render_bluetooth :: "settings \<Rightarrow> int \<Rightarrow> int \<Rightarrow> int \<Rightarrow> draw_op list" where
  "render_bluetooth s px py pw =
     (let row = \<lambda>l d t. (draw_card_row px pw l d t, 60); head = \<lambda>t. (draw_section_header px pw t, 40) in
      column py
       [head ''Bluetooth & devices'', row ''Bluetooth'' ''Toggle Bluetooth radio'' (Some (bluetooth_enabled s)),
        head ''Paired devices'', row ''Maya Headset Pro'' (''Audio '' @ middle_dot @ '' Connected'') None,
        row ''Maya Keyboard'' (''Input '' @ middle_dot @ '' Paired'') None, row ''Maya Mouse'' (''Input '' @ middle_dot @ '' Paired'') None,
        (add_device px pw, 0)])"

definition render_network :: "settings \<Rightarrow> int \<Rightarrow> int \<Rightarrow> int \<Rightarrow> draw_op list" where
  "render_network s px py pw =
     (let row = \<lambda>l d t. (draw_card_row px pw l d t, 60); head = \<lambda>t. (draw_section_header px pw t, 40) in
      column py
       [head ''Network & Internet'', row ''Wi-Fi'' ''Maya_Net - Connected'' (Some (wifi_enabled s)),
        row ''Airplane mode'' ''Disable all radios'' (Some (airplane_mode s)),
        row ''Mobile hotspot'' ''Share internet'' (Some (hotspot_enabled s)),
        head ''Wi-Fi networks'', row ''Maya_Net'' (''Secured '' @ middle_dot @ '' Signal: Excellent'') None,
        row ''HomeNet_5G'' (''Secured '' @ middle_dot @ '' Signal: Good'') None,
        row ''OfficeNet'' (''Secured '' @ middle_dot @ '' Signal: Fair'') None])"

definition SWATCHES :: "u32 list" where
  "SWATCHES = [0x0078D4, 0xE81123, 0x00CC6A, 0xFF8C00, 0x744DA9, 0xE3008C, 0x00B7C3, 0xFFB900]"

definition swatch_row :: "settings \<Rightarrow> int \<Rightarrow> int \<Rightarrow> int \<Rightarrow> draw_op list" where
  "swatch_row s px pw cy =
     Op_fill px cy pw 50 SETTINGS_CARD_BG #
     concat (map (\<lambda>i. let sx = px + 15 + int i * 36 in
       Op_fill sx (cy + 12) 26 26 (SWATCHES ! i) #
       (if int i = accent_color_index s then [Op_rect (sx - 2) (cy + 10) 30 30 SETTINGS_TEXT_PRI] else [])) [0..<8])"

definition render_personalize :: "settings \<Rightarrow> int \<Rightarrow> int \<Rightarrow> int \<Rightarrow> draw_op list" where
  "render_personalize s px py pw =
     (let row = \<lambda>l d t. (draw_card_row px pw l d t, 60); head = \<lambda>t. (draw_section_header px pw t, 40) in
      column py
       [head ''Background & Colors'', row ''Dark Mode'' ''Use dark theme for apps and system'' (Some (dark_mode s)),
        row ''Transparency'' ''Translucent surfaces'' (Some (transparency s)),
        row ''Animations'' ''Smooth window animations'' (Some (animations s)),
        head ''Accent color'', (swatch_row s px pw, 55),
        head ''Taskbar & Start'', row ''Centered taskbar icons'' ''Windows 11 style'' None, row ''Show search on taskbar'' '''' None])"

definition app_card :: "int \<Rightarrow> int \<Rightarrow> string \<Rightarrow> int \<Rightarrow> draw_op list" where
  "app_card px pw name cy =
     [Op_fill px cy pw 50 SETTINGS_CARD_BG, Op_text name (px + 15) (cy + 18) SETTINGS_TEXT_PRI,
      Op_text ''Maya OS Built-in'' (px + 15) (cy + 34) SETTINGS_TEXT_SEC, Op_line px (cy + 50) (px + pw) (cy + 50) SETTINGS_DIVIDER]"

definition render_apps :: "int \<Rightarrow> int \<Rightarrow> int \<Rightarrow> draw_op list" where
  "render_apps px py pw =
     column py ((draw_section_header px pw ''Installed apps'', 40) # map (\<lambda>a. (app_card px pw a, 56))
       [''Terminal'', ''Notepad'', ''Control Panel'', ''Date & Time'', ''Virtual Keyboard'', ''File Manager'', ''Settings''])"

definition account_card :: "settings \<Rightarrow> int \<Rightarrow> int \<Rightarrow> int \<Rightarrow> draw_op list" where
  "account_card s px pw cy =
     [Op_fill px cy pw 80 SETTINGS_CARD_BG, Op_fill (px + 14) (cy + 14) 52 52 SETTINGS_ACCENT,
      Op_text (if user_name s \<noteq> [] then take 1 (user_name s) else ''U'') (px + 34) (cy + 32) SETTINGS_TEXT_PRI,
      Op_text (user_name s) (px + 80) (cy + 20) SETTINGS_TEXT_PRI, Op_text (user_email s) (px + 80) (cy + 40) SETTINGS_TEXT_SEC,
      Op_text ''Administrator'' (px + 80) (cy + 58) SETTINGS_TEXT_SEC]"

definition render_accounts :: "settings \<Rightarrow> int \<Rightarrow> int \<Rightarrow> int \<Rightarrow> draw_op list" where
  "render_accounts s px py pw =
     (let row = \<lambda>l d. (draw_card_row px pw l d None, 60); head = \<lambda>t. (draw_section_header px pw t, 40) in
      column py [head ''Your account'', (account_card s px pw, 90), head ''Sign-in options'',
        row ''PIN (Maya Hello)'' ''Quick secure login'', row ''Password'' ''Classic password''])"

definition time_card :: "int \<Rightarrow> int \<Rightarrow> int \<Rightarrow> draw_op list" where
  "time_card px pw cy =
     [Op_fill px cy pw 60 SETTINGS_CARD_BG, Op_text ''Current time:  2026-03-07  19:29'' (px + 15) (cy + 20) SETTINGS_TEXT_PRI,
      Op_text ''Timezone:  (UTC+05:30) India Standard Time'' (px + 15) (cy + 38) SETTINGS_TEXT_SEC]"

definition render_time_language :: "settings \<Rightarrow> int \<Rightarrow> int \<Rightarrow> int \<Rightarrow> draw_op list" where
  "render_time_language s px py pw =
     (let row = \<lambda>l d t. (draw_card_row px pw l d t, 60); head = \<lambda>t. (draw_section_header px pw t, 40) in
      column py [head ''Date & Time'', row ''Set time automatically'' ''Sync with internet'' (Some (auto_update s)), (time_card px pw, 66),
        head ''Language'', row ''System language'' ''English (United States)'' None, row ''Region format'' ''English (India)'' None])"

definition render_accessibility :: "int \<Rightarrow> int \<Rightarrow> int \<Rightarrow> draw_op list" where
  "render_accessibility px py pw =
     (let row = \<lambda>l d. (draw_card_row px pw l d None, 60); head = \<lambda>t. (draw_section_header px pw t, 40) in
      column py
       [head ''Vision'', row ''Larger text'' ''Scale up system font'', row ''High contrast'' ''Reduce eye strain'',
        head ''Input'', row ''On-screen keyboard'' ''Touch or click to type'', row ''Keyboard shortcuts'' ''Enable global hotkeys'',
        row ''Sticky keys'' ''Modifier key lock'', head ''Touch'', row ''Touch target size'' ''Larger touch areas for fingers''])"

definition render_privacy :: "settings \<Rightarrow> int \<Rightarrow> int \<Rightarrow> int \<Rightarrow> draw_op list" where
  "render_privacy s px py pw =
     (let row = \<lambda>l d t. (draw_card_row px pw l d (Some t), 60); head = \<lambda>t. (draw_section_header px pw t, 40) in
      column py
       [head ''App permissions'', row ''Location'' ''Allow apps to access location'' (location s),
        row ''Camera'' ''Allow apps to access camera'' (camera s), row ''Microphone'' ''Allow apps to access microphone'' (microphone s),
        head ''Diagnostics & feedback'', row ''Diagnostic data'' ''Send usage data to Maya'' (diagnostic s)])"

text \<open>The apostrophe of the second message is the byte 39.\<close>

definition update_card :: "settings \<Rightarrow> int \<Rightarrow> int \<Rightarrow> (int \<Rightarrow> draw_op list) \<times> int" where
  "update_card s px pw =
     (if update_available s
      then (\<lambda>cy. [Op_fill px cy pw 80 0x003D1F, Op_text ''Update available: Maya OS v1.1.0'' (px + 15) (cy + 15) 0x00CC6A,
              Op_text ''File size: 120 MB'' (px + 15) (cy + 35) SETTINGS_TEXT_SEC, Op_fill (px + pw - 130) (cy + 25) 110 30 SETTINGS_ACCENT,
              Op_text ''Download & install'' (px + pw - 125) (cy + 35) SETTINGS_TEXT_PRI], 90)
      else (\<lambda>cy. [Op_fill px cy pw 70 SETTINGS_CARD_BG,
              Op_text (''You'' @ [char_of (39 :: nat)] @ ''re up to date'') (px + 15) (cy + 15) 0x00CC6A,
              Op_text (''Last checked: '' @ last_checked s) (px + 15) (cy + 35) SETTINGS_TEXT_SEC], 80))"

definition render_update :: "settings \<Rightarrow> int \<Rightarrow> int \<Rightarrow> int \<Rightarrow> draw_op list" where
  "render_update s px py pw =
     (let row = \<lambda>l d t. (draw_card_row px pw l d t, 60); head = \<lambda>t. (draw_section_header px pw t, 40) in
      column py
       [head ''Windows Update'', update_card s px pw, row ''Automatic updates'' ''Download and install automatically'' (Some (auto_update s)),
        head ''Update history'', row ''Maya OS v1.0.0'' ''2026-03-07 - Initial release'' None])"

section \<open>The panel\<close>

definition sidebar_row :: "settings \<Rightarrow> int \<Rightarrow> int \<Rightarrow> nat \<Rightarrow> draw_op list" where
  "sidebar_row s wx wy i =
     (let iy = wy + HEADER_H + int i * ITEM_H in
      [Op_fill wx iy SIDEBAR_W ITEM_H (if int i = active_section s then SETTINGS_ACTIVE_BG else SETTINGS_SIDEBAR_BG),
       Op_fill (wx + 12) (iy + 10) 20 20 SETTINGS_ACCENT, Op_text [SECTION_ICONS ! i] (wx + 18) (iy + 14) SETTINGS_TEXT_PRI,
       Op_text (SECTION_LABELS ! i) (wx + 42) (iy + 13) SETTINGS_TEXT_PRI,
       Op_line wx (iy + ITEM_H - 1) (wx + SIDEBAR_W) (iy + ITEM_H - 1) SETTINGS_DIVIDER])"

definition render_sidebar :: "settings \<Rightarrow> int \<Rightarrow> int \<Rightarrow> int \<Rightarrow> draw_op list" where
  "render_sidebar s wx wy wh =
     [Op_fill wx wy SIDEBAR_W wh SETTINGS_SIDEBAR_BG, Op_fill wx wy SIDEBAR_W HEADER_H SETTINGS_BG,
      Op_text ''Settings'' (wx + 14) (wy + 17) SETTINGS_TEXT_PRI] @ concat (map (sidebar_row s wx wy) [0..<nat SEC_COUNT])"

definition render_section :: "settings \<Rightarrow> int \<Rightarrow> int \<Rightarrow> int \<Rightarrow> draw_op list" where
  "render_section s px py pw =
     (let a = active_section s in
      if a = 0 then render_home s px py pw else if a = 1 then render_system s px py pw else if a = 2 then render_bluetooth s px py pw
      else if a = 3 then render_network s px py pw else if a = 4 then render_personalize s px py pw else if a = 5 then render_apps px py pw
      else if a = 6 then render_accounts s px py pw else if a = 7 then render_time_language s px py pw
      else if a = 8 then render_accessibility px py pw else if a = 9 then render_privacy s px py pw
      else if a = 10 then render_update s px py pw else [])"

definition settings_panel :: "settings \<Rightarrow> window \<Rightarrow> fault + draw_op list" where
  "settings_panel s w =
     (let wx = w_x w; wy = w_y w; wh = w_height w; px = wx + SIDEBAR_W + PANEL_PAD; py = wy + 22 + HEADER_H + 8;
          pw = w_width w - SIDEBAR_W - PANEL_PAD * 2
      in if active_section s < 0 \<or> active_section s \<ge> SEC_COUNT then Inl Out_of_bounds
         else Inr (Op_fill wx wy (w_width w) wh SETTINGS_BG # render_sidebar s wx (wy + 22) (wh - 22) @
           [Op_text (SECTION_LABELS ! nat (active_section s)) px (py - 24) SETTINGS_TEXT_PRI,
            Op_line px (py - 6) (px + pw) (py - 6) SETTINGS_DIVIDER] @ render_section s px py pw))"

text \<open>The remaining parameters are those of the rendering of a window.\<close>

definition settings_draw :: "(char \<Rightarrow> u8 list) \<Rightarrow> (nat \<Rightarrow> int \<Rightarrow> int \<Rightarrow> u8 \<Rightarrow> window_manager \<Rightarrow> window_manager) \<Rightarrow> int
    \<Rightarrow> (nat \<Rightarrow> widget option) \<Rightarrow> settings \<Rightarrow> window_manager \<times> gfx \<Rightarrow> (fault + window_manager \<times> gfx) option" where
  "settings_draw font dp stk st s = (\<lambda>(wm, g). case set_win s of None \<Rightarrow> Some (Inr (wm, g))
     | Some p \<Rightarrow> (case wm_store wm p of None \<Rightarrow> Some (Inl Dangling_pointer)
         | Some w \<Rightarrow> (case settings_panel s w of Inl e \<Rightarrow> Some (Inl e)
             | Inr ops \<Rightarrow> Option.bind (run_ops font ops g) (\<lambda>g1. window_render font dp stk st p (wm, g1)))))"

definition settings_init :: "nat option \<Rightarrow> bool \<Rightarrow> window \<Rightarrow> window_manager \<Rightarrow> fault + settings \<times> window_manager" where
  "settings_init alloc buf fresh wm =
     (let s = zero_settings\<lparr>dark_mode := True, transparency := True, animations := True, accent_color_index := 0, volume := 75,
        brightness := 80, wifi_enabled := True, bluetooth_enabled := True, auto_update := True, diagnostic := True,
        update_available := False, user_name := take 31 ''User'', user_email := take 63 ''user@mayaos.local'',
        last_checked := take 31 ''2026-03-07 19:29''\<rparr>
      in fault_bind (window_create alloc buf fresh (Some ''Settings'') 60 40 740 500 wm) (\<lambda>(wm1, p). Inr (s\<lparr>set_win := p\<rparr>, wm1)))"

definition settings_handle_mouse :: "int \<Rightarrow> int \<Rightarrow> u8 \<Rightarrow> window_manager \<Rightarrow> settings \<Rightarrow> fault + settings" where
  "settings_handle_mouse x y buttons wm s = (case set_win s of None \<Rightarrow> Inr s
     | Some p \<Rightarrow>
         if buttons = 0 then Inr s
         else case wm_store wm p of None \<Rightarrow> Inl Dangling_pointer
         | Some w \<Rightarrow>
             let wx = w_x w; wy = w_y w + 22 in
             if x \<ge> wx \<and> x \<le> wx + SIDEBAR_W
             then let rel_y = y - wy - HEADER_H in
               if rel_y \<ge> 0
               then let idx = rel_y div ITEM_H in if idx \<ge> 0 \<and> idx < SEC_COUNT then Inr (s\<lparr>active_section := idx\<rparr>) else Inr s
               else Inr s
             else Inr s)"

definition settings_handle_key :: "char \<Rightarrow> settings \<Rightarrow> settings" where "settings_handle_key c s = s"

section \<open>The section selected\<close>

inductive settings_run :: "settings \<Rightarrow> settings \<Rightarrow> bool" for s0 where
  Start: "settings_run s0 s0"
| Mouse: "settings_run s0 s \<Longrightarrow> settings_handle_mouse x y buttons wm s = Inr s' \<Longrightarrow> settings_run s0 s'"
| Key: "settings_run s0 s \<Longrightarrow> settings_run s0 (settings_handle_key c s)"

lemma mouse_changes_section:
  assumes "settings_handle_mouse x y buttons wm s = Inr s'"
  shows "s' = s \<or> (\<exists>i. 0 \<le> i \<and> i < SEC_COUNT \<and> s' = s\<lparr>active_section := i\<rparr>)"
  using assms by (auto simp: settings_handle_mouse_def Let_def split: option.splits if_splits)

lemma run_changes_section:
  assumes "settings_run s0 s"
  shows "s = s0\<lparr>active_section := active_section s\<rparr> \<and> (active_section s = active_section s0 \<or> 0 \<le> active_section s \<and> active_section s < SEC_COUNT)"
  using assms
proof induction
  case (Mouse s x y buttons wm s')
  then have s: "s = s0\<lparr>active_section := active_section s\<rparr>" by simp
  consider "s' = s" | i where "0 \<le> i" "i < SEC_COUNT" "s' = s\<lparr>active_section := i\<rparr>"
    using mouse_changes_section [OF Mouse.hyps(2)] by blast
  then show ?case
  proof cases
    case (2 i)
    have "s\<lparr>active_section := i\<rparr> = s0\<lparr>active_section := i\<rparr>"
      using arg_cong [OF s, of "\<lambda>t. t\<lparr>active_section := i\<rparr>"] by simp
    then have "s' = s0\<lparr>active_section := i\<rparr>" using 2(3) by simp
    then show ?thesis using 2 by simp
  qed (use Mouse.IH in simp)
qed (simp_all add: settings_handle_key_def)

lemma init_section:
  assumes "settings_init alloc buf fresh wm = Inr (s, wm')"
  shows "active_section s = 0" "volume s = 75" "brightness s = 80"
  using assms by (auto simp: settings_init_def zero_settings_def Let_def elim!: fault_bind_InrE)

text \<open>
  After any clicks and keys the section is one of the eleven, so the labels are never read beyond their end
  and the panel is drawn.
\<close>

theorem panel_always_drawn:
  assumes "settings_init alloc buf fresh wm = Inr (s0, wm')" "settings_run s0 s"
  shows "\<exists>ops. settings_panel s w = Inr ops \<and> Op_text (SECTION_LABELS ! nat (active_section s))
    (w_x w + SIDEBAR_W + PANEL_PAD) (w_y w + 56) SETTINGS_TEXT_PRI \<in> set ops"
proof -
  have "0 \<le> active_section s \<and> active_section s < SEC_COUNT"
    using run_changes_section [OF assms(2)] init_section(1) [OF assms(1)] by (auto simp: SEC_COUNT_def)
  then show ?thesis by (simp add: settings_panel_def Let_def HEADER_H_def)
qed

text \<open>The toggles, sliders and swatches are drawn, but nothing changes the values they show.\<close>

lemma settings_never_change:
  assumes "settings_run s0 s"
  shows "night_light s = night_light s0" "wifi_enabled s = wifi_enabled s0" "volume s = volume s0" "brightness s = brightness s0"
    "accent_color_index s = accent_color_index s0"
proof -
  have s: "s = s0\<lparr>active_section := active_section s\<rparr>" using run_changes_section [OF assms] by blast
  show "night_light s = night_light s0" by (subst s) simp
  show "wifi_enabled s = wifi_enabled s0" by (subst s) simp
  show "volume s = volume s0" by (subst s) simp
  show "brightness s = brightness s0" by (subst s) simp
  show "accent_color_index s = accent_color_index s0" by (subst s) simp
qed

section \<open>The side bar\<close>

definition row_top :: "window \<Rightarrow> int \<Rightarrow> int" where
  "row_top w i = w_y w + 22 + HEADER_H + i * ITEM_H"

lemma highlighted_row:
  assumes "0 \<le> active_section s" "active_section s < SEC_COUNT"
  shows "Op_fill wx y SIDEBAR_W ITEM_H SETTINGS_ACTIVE_BG \<in> set (render_sidebar s wx wy wh) \<longleftrightarrow> y = wy + HEADER_H + active_section s * ITEM_H"
proof -
  have ne: "SETTINGS_ACTIVE_BG \<noteq> SETTINGS_SIDEBAR_BG" "SETTINGS_ACTIVE_BG \<noteq> SETTINGS_BG" "SIDEBAR_W \<noteq> 20"
    by (simp_all add: SETTINGS_ACTIVE_BG_def SETTINGS_SIDEBAR_BG_def SETTINGS_BG_def SIDEBAR_W_def)
  have "Op_fill wx y SIDEBAR_W ITEM_H SETTINGS_ACTIVE_BG \<in> set (render_sidebar s wx wy wh) \<longleftrightarrow>
      (\<exists>i < nat SEC_COUNT. y = wy + HEADER_H + int i * ITEM_H \<and> int i = active_section s)"
    using ne by (auto simp: render_sidebar_def sidebar_row_def Let_def)
  also have "\<dots> \<longleftrightarrow> y = wy + HEADER_H + active_section s * ITEM_H"
  proof
    assume "y = wy + HEADER_H + active_section s * ITEM_H"
    then show "\<exists>i < nat SEC_COUNT. y = wy + HEADER_H + int i * ITEM_H \<and> int i = active_section s"
      using assms by (intro exI [of _ "nat (active_section s)"]) simp
  qed auto
  finally show ?thesis .
qed

text \<open>
  A click on a row of the side bar selects the section whose label is drawn there, and of the rows drawn
  afterwards exactly the one under the pointer is highlighted.
\<close>

theorem row_under_pointer_selected:
  assumes "set_win s = Some p" "wm_store wm p = Some w" "buttons \<noteq> 0" "0 \<le> i" "i < SEC_COUNT"
    and "w_x w \<le> x" "x \<le> w_x w + SIDEBAR_W" "row_top w i \<le> y" "y < row_top w i + ITEM_H"
  shows "\<exists>s'. settings_handle_mouse x y buttons wm s = Inr s' \<and> active_section s' = i \<and>
    (\<forall>t. Op_fill (w_x w) t SIDEBAR_W ITEM_H SETTINGS_ACTIVE_BG \<in> set (render_sidebar s' (w_x w) (w_y w + 22) wh) \<longleftrightarrow> t = row_top w i)"
proof -
  have "(y - (w_y w + 22) - HEADER_H) div ITEM_H = i"
    using assms(8,9) by (simp add: row_top_def ITEM_H_def)
  then have "settings_handle_mouse x y buttons wm s = Inr (s\<lparr>active_section := i\<rparr>)"
    using assms by (simp add: settings_handle_mouse_def Let_def row_top_def ITEM_H_def)
  moreover have "0 \<le> active_section (s\<lparr>active_section := i\<rparr>)" "active_section (s\<lparr>active_section := i\<rparr>) < SEC_COUNT" using assms by simp_all
  note highlighted_row [OF this]
  ultimately show ?thesis by (simp add: row_top_def)
qed

text \<open>On the 200-line screen only the first two of the eleven rows are wholly inside the screen.\<close>

lemma rows_below_screen:
  assumes "w_y w = 40"
  shows "row_top w i + ITEM_H \<le> SCREEN_HEIGHT \<longleftrightarrow> i \<le> 1"
  using assms by (auto simp: row_top_def HEADER_H_def ITEM_H_def SCREEN_HEIGHT_def)

text \<open>The handle is kept when the window is destroyed; the next click or drawing uses it.\<close>

lemma settings_use_after_destroy:
  assumes "set_win s = Some p" "wm_initialized wm" "window_destroy p wm = Inr wm'"
  shows "settings_draw font dp stk st s (wm', g) = Some (Inl Dangling_pointer)"
    "buttons \<noteq> 0 \<Longrightarrow> settings_handle_mouse x y buttons wm' s = Inl Dangling_pointer"
proof -
  have "wm_store wm' p = None" using assms(2,3) by (auto simp: window_destroy_def Let_def split: if_splits elim!: fault_bind_InrE)
  then show "settings_draw font dp stk st s (wm', g) = Some (Inl Dangling_pointer)"
    "buttons \<noteq> 0 \<Longrightarrow> settings_handle_mouse x y buttons wm' s = Inl Dangling_pointer"
    using assms(1) by (simp_all add: settings_draw_def settings_handle_mouse_def)
qed

section \<open>Sliders\<close>

text \<open>A value between nothing and the maximum fills that part of the track.\<close>

lemma slider_within_track:
  assumes "0 \<le> v" "v \<le> m" "0 < m"
  shows "\<exists>f. 0 \<le> f \<and> f \<le> 200 \<and> draw_slider x y v m = [Op_fill x (y + 7) 200 6 SETTINGS_HOVER_BG, Op_fill x (y + 7) f 6 SETTINGS_ACCENT,
    Op_fill (x + f - 6) (y + 1) 12 18 SETTINGS_TEXT_PRI]"
proof -
  have "v * 200 sdiv m = v * 200 div m"
    using assms by (cases "v = 0") (simp_all add: signed_divide_int_def sgn_mult)
  moreover have "0 \<le> v * 200 div m" using assms by (simp add: pos_imp_zdiv_nonneg_iff)
  moreover have "v * 200 div m \<le> m * 200 div m" using assms by (intro zdiv_mono1) simp_all
  ultimately show ?thesis using assms(3) by (simp add: draw_slider_def Let_def)
qed

section \<open>The panel is painted over\<close>

lemma draw_chain_none: "draw_chain st win None = Some (Inr [])"
  by (simp add: draw_chain.simps)

lemma window_frame_total: "\<exists>g'. window_frame font focused win g = Some g' \<and> same_mode g' g"
proof -
  obtain g1 where g1: "graphics_draw_rect (w_x win) (w_y win) (w_width win) (w_height win)
      (if focused then COLOR_BORDER_ACTIVE else COLOR_BORDER_INACTIVE) g = Some g1" "same_mode g1 g"
    using draw_rect_total by blast
  have fill: "same_mode (graphics_fill_rect x y w h c g2) g" and text_ok: "same_mode (graphics_draw_text font t x y c g2) g"
    if "same_mode g2 g" for x y w h c t g2
    using that fill_rect_same_mode draw_text_same_mode same_mode_trans by blast+
  show ?thesis unfolding window_frame_def g1(1) Let_def option.map(2) by (rule exI, rule conjI, rule refl) (intro text_ok fill g1(2))
qed

text \<open>
  Drawing the panel ends with rendering its window, which copies the buffer of the window over the area
  inside the border: there the screen shows the buffer, whatever the settings and the section are. (The
  width of the source, an argument the code omits, is taken to be at least that of the area.)
\<close>

theorem window_covers_panel:
  assumes "set_win s = Some p" "wm_store wm p = Some w" "wm_initialized wm" "w_visible w" "w_widgets w = None"
    and "0 \<le> active_section s" "active_section s < SEC_COUNT" "g_initialized g" "gfx_ok g"
    and "w_buffer w = Some buf" "cw = w_width w - 4" "ch = w_height w - 24" "0 \<le> cw" "cw \<le> stk" "0 \<le> ch" "ch * stk \<le> int (length buf)"
  shows "\<exists>g'. settings_draw font dp stk st s (wm, g) = Some (Inr (wm, g')) \<and>
    (\<forall>a b. Graphics.on_screen g a b \<and> w_x w + 2 \<le> a \<and> a < w_x w + 2 + cw \<and> w_y w + 22 \<le> b \<and> b < w_y w + 22 + ch \<longrightarrow>
      pixel g' a b = buf ! nat ((b - (w_y w + 22)) * stk + (a - (w_x w + 2))))"
proof -
  obtain ops where ops: "settings_panel s w = Inr ops" using assms(6,7) by (simp add: settings_panel_def Let_def)
  obtain g1 where g1: "run_ops font ops g = Some g1" "same_mode g1 g" using run_ops_total by blast
  obtain g2 where g2: "window_frame font (wm_focused wm = Some p) w g1 = Some g2" "same_mode g2 g1" using window_frame_total by blast
  have m: "same_mode g2 g" using g1(2) g2(2) same_mode_trans by blast
  then have "g_initialized g2" "gfx_ok g2" "Graphics.on_screen g2 a b = Graphics.on_screen g a b" for a b
    using assms(8,9) same_modeD [OF m] by (simp_all add: gfx_ok_def Graphics.on_screen_def)
  note screen = this
  obtain g3 where g3: "graphics_blit (Some buf) (w_x w + 2) (w_y w + 22) cw ch stk g2 = Inr g3"
    "\<forall>a b. Graphics.on_screen g2 a b \<longrightarrow> pixel g3 a b = (if w_x w + 2 \<le> a \<and> a < w_x w + 2 + cw \<and> w_y w + 22 \<le> b \<and> b < w_y w + 22 + ch
       then buf ! nat ((b - (w_y w + 22)) * stk + (a - (w_x w + 2))) else pixel g2 a b)"
    using blit_copies [OF screen(1,2) assms(13-16)] by blast
  have dims: "w_x w + WINDOW_BORDER_WIDTH = w_x w + 2" "w_y w + WINDOW_BORDER_WIDTH + WINDOW_TITLE_HEIGHT = w_y w + 22"
    "w_width w - 2 * WINDOW_BORDER_WIDTH = cw" "w_height w - 2 * WINDOW_BORDER_WIDTH - WINDOW_TITLE_HEIGHT = ch"
    using assms(11,12) by (simp_all add: WINDOW_BORDER_WIDTH_def WINDOW_TITLE_HEIGHT_def)
  have "settings_draw font dp stk st s (wm, g) = Some (Inr (wm, g3))"
    using assms(1-5,10) ops g1(1) g2(1) g3(1)
    by (simp add: settings_draw_def window_render_def dims window_draw_widgets_def draw_chain_none)
  then show ?thesis using g3(2) screen(3) by auto
qed

section \<open>Witnesses\<close>

definition demo_panel :: settings where
  "demo_panel = zero_settings\<lparr>set_win := Some 5\<rparr>"

theorem panel_always_drawn_witness:
  "\<exists>s0 wm' ops. settings_init (Some 7) True demo_fresh demo_wm0 = Inr (s0, wm') \<and> settings_panel s0 demo_win = Inr ops"
proof -
  have free: "wm_store demo_wm0 p = None" for p by (simp add: demo_wm0_def window_manager_init_def)
  obtain wm' r where "window_create (Some 7) True demo_fresh (Some ''Settings'') 60 40 740 500 demo_wm0 = Inr (wm', r)"
    using create_ok [OF wm_run_ok [OF demo_wm0_run] free, where buf = True and fresh = demo_fresh and title = "Some ''Settings''"
        and x = 60 and y = 40 and width = 740 and height = 500 and alloc = "Some 7"] by blast
  then obtain s0 where i: "settings_init (Some 7) True demo_fresh demo_wm0 = Inr (s0, wm')"
    by (auto simp: settings_init_def Let_def)
  show ?thesis using i panel_always_drawn [OF i settings_run.Start, of demo_win] by blast
qed

theorem row_under_pointer_selected_witness:
  "\<exists>s'. settings_handle_mouse 100 95 1 demo_wm demo_panel = Inr s' \<and> active_section s' = 0"
  using row_under_pointer_selected [of demo_panel 5 demo_wm demo_win 1 0 100 95 100] demo_wm_facts demo_win_geometry
  by (auto simp: demo_panel_def row_top_def SEC_COUNT_def SIDEBAR_W_def HEADER_H_def ITEM_H_def)

theorem window_covers_panel_witness:
  "\<exists>g'. settings_draw (\<lambda>_. []) (\<lambda>_ _ _ _ m. m) 116 (\<lambda>_. None) demo_panel
     (demo_wm\<lparr>wm_store := [5 \<mapsto> demo_win\<lparr>w_widgets := None, w_x := -2, w_y := -22\<rparr>]\<rparr>, demo_screen) =
     Some (Inr (demo_wm\<lparr>wm_store := [5 \<mapsto> demo_win\<lparr>w_widgets := None, w_x := -2, w_y := -22\<rparr>]\<rparr>, g')) \<and> pixel g' 3 1 = 0"
proof -
  let ?w = "demo_win\<lparr>w_widgets := None, w_x := -2, w_y := -22\<rparr>"
  let ?wm = "demo_wm\<lparr>wm_store := [5 \<mapsto> ?w]\<rparr>"
  have buf: "w_buffer ?w = Some (replicate 7200 0)"
    by (simp add: demo_win_def new_window_def place_buttons_def buffer_words_def Let_def)
  have facts: "wm_initialized ?wm" "w_visible ?w" using demo_win_geometry by (simp_all add: demo_wm_def demo_wm0_def window_manager_init_def)
  obtain g' where g': "settings_draw (\<lambda>_. []) (\<lambda>_ _ _ _ m. m) 116 (\<lambda>_. None) demo_panel (?wm, demo_screen) = Some (Inr (?wm, g'))"
    "\<forall>a b. Graphics.on_screen demo_screen a b \<and> w_x ?w + 2 \<le> a \<and> a < w_x ?w + 2 + 116 \<and> w_y ?w + 22 \<le> b \<and> b < w_y ?w + 22 + 36 \<longrightarrow>
      pixel g' a b = replicate 7200 0 ! nat ((b - (w_y ?w + 22)) * 116 + (a - (w_x ?w + 2)))"
    using window_covers_panel [of demo_panel 5 ?wm ?w demo_screen "replicate 7200 0" 116 36 116 "\<lambda>_. []" "\<lambda>_ _ _ _ m. m" "\<lambda>_. None"]
      facts demo_screen_ok buf demo_win_geometry
    by (auto simp: demo_panel_def zero_settings_def SEC_COUNT_def)
  have "Graphics.on_screen demo_screen 3 1" by (simp add: Graphics.on_screen_def demo_screen_def)
  then have "pixel g' 3 1 = 0" using g'(2) [rule_format, of 3 1] by simp
  then show ?thesis using g'(1) by blast
qed

end
