(* ===== verification/Launcher.thy ===== *)
theory Launcher
  imports Desktop_Shell
begin

text \<open>
  The launcher (\<^verbatim>\<open>gui/launcher.c\<close>): a column of items on the left edge, drawn and clicked with the same
  item height. \<open>launcher_add_default_items\<close> and the two length limits are defined nowhere and are
  parameters; a callback is a number, and a click gives the callback that is run. Shown here: with
  every item enabled, a click runs the item drawn under the pointer; with a disabled one the two disagree;
  an empty launcher divides by zero.
\<close>

section \<open>State and operations\<close>

definition MAX_LAUNCHER_ITEMS :: nat where "MAX_LAUNCHER_ITEMS = 32"
definition MIN_ITEM_HEIGHT :: int where "MIN_ITEM_HEIGHT = 32"
definition MAX_ITEM_HEIGHT :: int where "MAX_ITEM_HEIGHT = 64"
definition LAUNCHER_WIDTH :: int where "LAUNCHER_WIDTH = 64"
definition LAUNCHER_PADDING :: int where "LAUNCHER_PADDING = 8"
definition MAYA_LAUNCHER_BG :: u32 where "MAYA_LAUNCHER_BG = 0x1A1C1E"
definition MAYA_BORDER_COLOR :: u32 where "MAYA_BORDER_COLOR = WIN_BORDER_COLOR"

record launcher_item =
  li_name :: string
  li_icon_path :: string
  li_callback :: "nat option"
  li_enabled :: bool

record launcher =
  la_items :: "launcher_item list"
  la_visible :: bool
  la_auto_hide :: bool
  la_selected :: int

definition launcher_init :: "(launcher \<Rightarrow> launcher \<times> bool) \<Rightarrow> launcher \<Rightarrow> launcher \<times> bool" where
  "launcher_init add_default_items s =
     (let s1 = \<lparr>la_items = [], la_visible = False, la_auto_hide = False, la_selected = 0\<rparr> in
      if SCREEN_WIDTH < LAUNCHER_WIDTH \<or> SCREEN_HEIGHT < TASKBAR_HEIGHT then (s1, False)
      else let (s2, ok) = add_default_items (s1\<lparr>la_visible := True, la_auto_hide := False, la_items := [], la_selected := -1\<rparr>)
        in if \<not> ok then (s2, False) else (s2, True))"

definition launcher_add_item :: "nat \<Rightarrow> nat \<Rightarrow> string option \<Rightarrow> string option \<Rightarrow> nat option \<Rightarrow> launcher \<Rightarrow> launcher \<times> bool" where
  "launcher_add_item max_name max_path name icon_path callback s =
     (if length (la_items s) \<ge> MAX_LAUNCHER_ITEMS then (s, False)
      else case name of None \<Rightarrow> (s, False)
      | Some n \<Rightarrow>
          if length n \<ge> max_name then (s, False)
          else (s\<lparr>la_items := la_items s @ [\<lparr>li_name = take (max_name - 1) n,
            li_icon_path = (case icon_path of None \<Rightarrow> [] | Some p \<Rightarrow> take (max_path - 1) p), li_callback = callback, li_enabled = True\<rparr>]\<rparr>, True))"

text \<open>The height of an item, clamped; the division traps for no items.\<close>

definition item_height :: "nat \<Rightarrow> fault + int" where
  "item_height n =
     (if n = 0 then Inl Divide_error
      else let h = (SCREEN_HEIGHT - TASKBAR_HEIGHT - 2 * LAUNCHER_PADDING) div int n; h = (if h < MIN_ITEM_HEIGHT then MIN_ITEM_HEIGHT else h)
        in Inr (if h > MAX_ITEM_HEIGHT then MAX_ITEM_HEIGHT else h))"

text \<open>The items from number \<open>i\<close> on; one that is not enabled is skipped and takes no room.\<close>

fun draw_items :: "int \<Rightarrow> int \<Rightarrow> int \<Rightarrow> int \<Rightarrow> launcher_item list \<Rightarrow> draw_op list" where
  "draw_items sel h i y [] = []"
| "draw_items sel h i y (item # items) =
     (if \<not> li_enabled item then draw_items sel h (i + 1) y items
      else [Op_fill LAUNCHER_PADDING y (LAUNCHER_WIDTH - 2 * LAUNCHER_PADDING) h (if i = sel then MAYA_SELECTED_BG else MAYA_LAUNCHER_BG),
            Op_text (li_name item) (LAUNCHER_PADDING + 40) (y + h div 2 - 8) MAYA_TEXT_COLOR] @ draw_items sel h (i + 1) (y + h) items)"

definition launcher_render :: "launcher \<Rightarrow> fault + draw_op list" where
  "launcher_render s =
     (if \<not> la_visible s then Inr []
      else fault_bind (item_height (length (la_items s))) (\<lambda>h. Inr
        ([Op_fill 0 TASKBAR_HEIGHT LAUNCHER_WIDTH (SCREEN_HEIGHT - TASKBAR_HEIGHT) MAYA_LAUNCHER_BG,
          Op_line (LAUNCHER_WIDTH - 1) TASKBAR_HEIGHT (LAUNCHER_WIDTH - 1) SCREEN_HEIGHT MAYA_BORDER_COLOR] @
         draw_items (la_selected s) h 0 (TASKBAR_HEIGHT + LAUNCHER_PADDING) (la_items s))))"

fun click_items :: "int \<Rightarrow> int \<Rightarrow> int \<Rightarrow> launcher_item list \<Rightarrow> nat option" where
  "click_items h y item_y [] = None"
| "click_items h y item_y (item # items) =
     (if y \<ge> item_y \<and> y < item_y + h then (if li_enabled item then li_callback item else None)
      else click_items h y (item_y + h) items)"

text \<open>The callback run, if any; it decides the result of the function.\<close>

definition launcher_handle_click :: "int \<Rightarrow> int \<Rightarrow> launcher \<Rightarrow> fault + nat option" where
  "launcher_handle_click x y s =
     (if \<not> la_visible s then Inr None
      else if x < 0 \<or> x \<ge> LAUNCHER_WIDTH \<or> y < TASKBAR_HEIGHT \<or> y \<ge> SCREEN_HEIGHT then Inr None
      else fault_bind (item_height (length (la_items s))) (\<lambda>h.
        Inr (click_items h y (TASKBAR_HEIGHT + LAUNCHER_PADDING) (la_items s))))"

section \<open>Drawn and clicked\<close>

lemma item_height_range: "0 < n \<Longrightarrow> \<exists>h. item_height n = Inr h \<and> 32 \<le> h \<and> h \<le> 64"
  by (simp add: item_height_def Let_def MIN_ITEM_HEIGHT_def MAX_ITEM_HEIGHT_def)

lemma click_item_at:
  assumes "0 < h" "i < length items" "item_y + int i * h \<le> y" "y < item_y + int i * h + h"
  shows "click_items h y item_y items = (if li_enabled (items ! i) then li_callback (items ! i) else None)"
  using assms
proof (induction items arbitrary: i item_y)
  case (Cons item items)
  show ?case
  proof (cases i)
    case (Suc k)
    have "0 \<le> int k * h" using Cons.prems(1) by simp
    then have "item_y + h \<le> y" using Cons.prems(3) Suc by (simp add: distrib_right)
    moreover have "item_y + h + int k * h \<le> y" "y < item_y + h + int k * h + h" using Cons.prems Suc by (simp_all add: distrib_right algebra_simps)
    ultimately show ?thesis using Cons.IH [of k "item_y + h"] Cons.prems Suc by simp
  qed (use Cons.prems in simp)
qed simp

lemma drawn_item_at:
  assumes "\<forall>item \<in> set items. li_enabled item" "i < length items"
  shows "Op_text (li_name (items ! i)) (LAUNCHER_PADDING + 40) (y + int i * h + h div 2 - 8) MAYA_TEXT_COLOR \<in> set (draw_items sel h k y items)"
  using assms
proof (induction items arbitrary: i y k)
  case (Cons item items)
  show ?case
  proof (cases i)
    case (Suc j)
    then show ?thesis using Cons.IH [of j "y + h" "k + 1"] Cons.prems by (simp add: distrib_right algebra_simps)
  qed (use Cons.prems in simp)
qed simp

text \<open>
  With every item enabled, the item whose picture is under the pointer is the one that runs: item \<open>i\<close> is
  drawn in the \<open>i\<close>-th stretch of its height, and a click there gives its callback.
\<close>

theorem launcher_runs_item_drawn:
  assumes "la_visible s" "\<forall>item \<in> set (la_items s). li_enabled item" "i < length (la_items s)" "item_height (length (la_items s)) = Inr h"
    and "0 \<le> x" "x < LAUNCHER_WIDTH" "36 + int i * h \<le> y" "y < 36 + int i * h + h" "y < SCREEN_HEIGHT"
  shows "launcher_handle_click x y s = Inr (li_callback (la_items s ! i)) \<and>
    (\<exists>ops. launcher_render s = Inr ops \<and>
       Op_text (li_name (la_items s ! i)) 48 (36 + int i * h + h div 2 - 8) MAYA_TEXT_COLOR \<in> set ops)"
proof -
  have h: "32 \<le> h" using item_height_range [of "length (la_items s)"] assms(3,4) by force
  have top: "TASKBAR_HEIGHT + LAUNCHER_PADDING = 36" by (simp add: TASKBAR_HEIGHT_def LAUNCHER_PADDING_def)
  have "0 \<le> int i * h" using h by simp
  then have "TASKBAR_HEIGHT \<le> y" using assms(7) by (simp add: TASKBAR_HEIGHT_def)
  moreover have "li_enabled (la_items s ! i)" using assms(2,3) by simp
  ultimately have "launcher_handle_click x y s = Inr (li_callback (la_items s ! i))"
    using click_item_at [of h i "la_items s" 36 y] h assms by (simp add: launcher_handle_click_def top)
  moreover have "LAUNCHER_PADDING + 40 = 48" by (simp add: LAUNCHER_PADDING_def)
  note drawn_item_at [OF assms(2,3), of 36 h "la_selected s" 0, unfolded this]
  ultimately show ?thesis using assms(1,4) by (simp add: launcher_render_def top)
qed

definition two_items :: launcher where
  "two_items = \<lparr>la_items = [\<lparr>li_name = ''a'', li_icon_path = [], li_callback = Some 1, li_enabled = True\<rparr>,
     \<lparr>li_name = ''b'', li_icon_path = [], li_callback = Some 2, li_enabled = True\<rparr>], la_visible = True, la_auto_hide = False, la_selected = -1\<rparr>"

theorem launcher_runs_item_drawn_witness: "launcher_handle_click 10 120 two_items = Inr (Some 2)"
  using launcher_runs_item_drawn [of two_items 1 64 10 120]
  by (simp add: two_items_def item_height_def Let_def SCREEN_HEIGHT_def TASKBAR_HEIGHT_def LAUNCHER_PADDING_def LAUNCHER_WIDTH_def
      MIN_ITEM_HEIGHT_def MAX_ITEM_HEIGHT_def)

text \<open>
  A disabled item is not drawn but still takes its place for clicks: behind it every click runs the item
  before the one drawn.
\<close>

lemma disabled_item_shifts_clicks:
  assumes "s = \<lparr>la_items = [a\<lparr>li_enabled := False\<rparr>, b\<lparr>li_enabled := True\<rparr>], la_visible = True, la_auto_hide = ah, la_selected = sel\<rparr>"
  shows "\<exists>ops. launcher_render s = Inr ops \<and> Op_text (li_name b) 48 60 MAYA_TEXT_COLOR \<in> set ops \<and> launcher_handle_click 10 60 s = Inr None"
  by (simp add: assms launcher_render_def launcher_handle_click_def item_height_def Let_def SCREEN_HEIGHT_def TASKBAR_HEIGHT_def
      LAUNCHER_PADDING_def LAUNCHER_WIDTH_def MIN_ITEM_HEIGHT_def MAX_ITEM_HEIGHT_def)

lemma empty_launcher_divides_by_zero:
  assumes "la_visible s" "la_items s = []"
  shows "launcher_render s = Inl Divide_error" "launcher_handle_click 0 100 s = Inl Divide_error"
  using assms by (simp_all add: launcher_render_def launcher_handle_click_def item_height_def LAUNCHER_WIDTH_def TASKBAR_HEIGHT_def SCREEN_HEIGHT_def)

end
