(* ===== verification/Ahci.thy ===== *)
theory Ahci
  imports Pci "HOL-Library.Multiset"
begin

unbundle bit_operations_syntax

text \<open>
  The SATA driver (\<^verbatim>\<open>drivers/ahci.c\<close>). The registers of the controller are memory the driver reads and
  writes; what the waiting loops read from them is a stream. The results of \<open>memory_alloc_dma\<close> are a
  stream of pointers (null when it fails), the calls of \<open>memory_free_dma\<close> are recorded, and \<open>phys\<close> is
  \<open>memory_get_physical\<close>. A command table has room for eight entries behind its first 128 bytes. Shown
  here: the slot taken is the first free one, the command names the sectors asked for, the entries lead the
  data of up to 128 sectors to the buffer and more sectors overflow the table, failing
  initialisation gives back all it allocated, and the port numbers of reading and initialising differ.
\<close>

section \<open>Registers and state\<close>

definition AHCI_BASE_CLASS :: u8 where "AHCI_BASE_CLASS = 0x01"
definition AHCI_SUB_CLASS :: u8 where "AHCI_SUB_CLASS = 0x06"
definition HBA_PORT_IPM_ACTIVE :: u32 where "HBA_PORT_IPM_ACTIVE = 1"
definition HBA_PORT_DET_PRESENT :: u32 where "HBA_PORT_DET_PRESENT = 3"
definition HBA_PxCMD_ST :: u32 where "HBA_PxCMD_ST = 0x0001"
definition HBA_PxCMD_FRE :: u32 where "HBA_PxCMD_FRE = 0x0010"
definition HBA_PxCMD_FR :: u32 where "HBA_PxCMD_FR = 0x4000"
definition HBA_PxCMD_CR :: u32 where "HBA_PxCMD_CR = 0x8000"
definition AHCI_MAX_PORTS :: nat where "AHCI_MAX_PORTS = 32"
definition AHCI_MAX_COMMANDS :: nat where "AHCI_MAX_COMMANDS = 32"
definition AHCI_SECTOR_SIZE :: u32 where "AHCI_SECTOR_SIZE = 512"
definition FIS_TYPE_REG_H2D :: u8 where "FIS_TYPE_REG_H2D = 0x27"
definition ATA_CMD_READ_DMA_EX :: u8 where "ATA_CMD_READ_DMA_EX = 0x25"

record hba_port =
  hp_clb :: u32
  hp_clbu :: u32
  hp_fb :: u32
  hp_fbu :: u32
  hp_cmd :: u32
  hp_ssts :: u32
  hp_sact :: u32
  hp_ci :: u32

record hba_mem =
  hba_ghc :: u32
  hba_pi :: u32
  hba_ports :: "hba_port list"

text \<open>The fields of a command the driver sets.\<close>

record cmd_header =
  ch_cfl :: nat
  ch_w :: bool
  ch_prdtl :: u16

record prdt_entry =
  pr_dba :: u32
  pr_dbau :: u32
  pr_dbc :: "22 word"
  pr_i :: bool

record fis_h2d =
  fis_type :: u8
  fis_c :: bool
  fis_command :: u8
  fis_lba :: "u8 list"
  fis_device :: u8
  fis_countl :: u8
  fis_counth :: u8

text \<open>
  The lists of a port are indexed by its number, the tables then by slot. \<open>ah_alloc\<close> and \<open>ah_freed\<close> record
  what was allocated and freed, newest last; the length of \<open>ah_calls\<close> is the number of allocations tried.
\<close>

record ahci =
  ah_mem :: "hba_mem option"
  ah_cmd_list :: "ptr list"
  ah_fis_base :: "ptr list"
  ah_tables :: "ptr list list"
  ah_count :: nat
  ah_initialized :: bool
  ah_calls :: nat
  ah_alloc :: "ptr list"
  ah_freed :: "ptr list"

definition dma_alloc :: "(nat \<Rightarrow> ptr) \<Rightarrow> ahci \<Rightarrow> ptr \<times> ahci" where
  "dma_alloc dma s =
     (let p = dma (ah_calls s)
      in (p, s\<lparr>ah_calls := ah_calls s + 1, ah_alloc := (if p = NULL then ah_alloc s else ah_alloc s @ [p])\<rparr>))"

definition dma_free :: "ptr list \<Rightarrow> ahci \<Rightarrow> ahci" where
  "dma_free ps s = s\<lparr>ah_freed := ah_freed s @ ps\<rparr>"

section \<open>Initialisation\<close>

definition ahci_find_cmdslot :: "hba_port \<Rightarrow> nat option" where
  "ahci_find_cmdslot p = List.find (\<lambda>i. \<not> bit (hp_sact p OR hp_ci p) i) [0..<AHCI_MAX_COMMANDS]"

text \<open>A loop reading a register until the bits of a mask are clear, and the value read last.\<close>

partial_function (option) wait_clear :: "(nat \<Rightarrow> u32) \<Rightarrow> u32 \<Rightarrow> nat \<Rightarrow> u32 option" where
  "wait_clear rd bits n = (if rd n AND bits = 0 then Some (rd n) else wait_clear rd bits (n + 1))"

text \<open>The command tables of slot \<open>i\<close> on; \<open>k\<close> is the number of the port in the driver.\<close>

function alloc_tables :: "(nat \<Rightarrow> ptr) \<Rightarrow> nat \<Rightarrow> nat \<Rightarrow> ahci \<Rightarrow> ahci \<times> bool" where
  "alloc_tables dma k i s =
     (if \<not> i < AHCI_MAX_COMMANDS then (s, True)
      else let (p, s1) = dma_alloc dma s; s2 = s1\<lparr>ah_tables := (ah_tables s1)[k := (ah_tables s1 ! k)[i := p]]\<rparr> in
        if p = NULL
        then (dma_free (take i (ah_tables s2 ! k) @ [ah_fis_base s2 ! k, ah_cmd_list s2 ! k]) s2, False)
        else alloc_tables dma k (i + 1) s2)"
  by pat_completeness auto
termination by (relation "measure (\<lambda>(_, _, i, _). AHCI_MAX_COMMANDS - i)") auto

declare alloc_tables.simps [simp del]

definition set_port :: "nat \<Rightarrow> (hba_port \<Rightarrow> hba_port) \<Rightarrow> ahci \<Rightarrow> ahci" where
  "set_port i f s = s\<lparr>ah_mem := map_option (\<lambda>m. m\<lparr>hba_ports := (hba_ports m)[i := f (hba_ports m ! i)]\<rparr>) (ah_mem s)\<rparr>"

text \<open>
  Port \<open>i\<close> of the controller becomes number \<open>k\<close> of the driver, whose arrays have 32 entries. \<open>cmd_rd\<close> is
  what the loop reads from the command register.
\<close>

definition ahci_port_initialize :: "(nat \<Rightarrow> ptr) \<Rightarrow> (ptr \<Rightarrow> u32) \<Rightarrow> (nat \<Rightarrow> u32) \<Rightarrow> nat \<Rightarrow> nat \<Rightarrow> ahci \<Rightarrow> (fault + ahci \<times> bool) option" where
  "ahci_port_initialize dma phys cmd_rd i k s0 =
     Option.bind (wait_clear cmd_rd (HBA_PxCMD_FR OR HBA_PxCMD_CR) 0) (\<lambda>cmd.
       if k \<ge> AHCI_MAX_PORTS then Some (Inl Out_of_bounds)
       else Some (Inr (
         let s = set_port i (\<lambda>p. p\<lparr>hp_cmd := cmd\<rparr>) s0;
             (cl, s1) = dma_alloc dma s; s2 = s1\<lparr>ah_cmd_list := (ah_cmd_list s1)[k := cl]\<rparr> in
         if cl = NULL then (s2, False)
         else let s3 = set_port i (\<lambda>p. p\<lparr>hp_clb := phys cl, hp_clbu := 0\<rparr>) s2;
                  (fb, s4) = dma_alloc dma s3; s5 = s4\<lparr>ah_fis_base := (ah_fis_base s4)[k := fb]\<rparr> in
           if fb = NULL then (dma_free [cl] s5, False)
           else let s6 = set_port i (\<lambda>p. p\<lparr>hp_fb := phys fb, hp_fbu := 0\<rparr>) s5;
                    (s7, ok) = alloc_tables dma k 0 s6 in
             if \<not> ok then (s7, False)
             else (set_port i (\<lambda>p. p\<lparr>hp_cmd := hp_cmd p OR HBA_PxCMD_FRE OR HBA_PxCMD_ST\<rparr>) s7, True))))"

text \<open>
  The ports from number \<open>i\<close> on. A failing port makes the earlier ones be given back. (The call of
  \<^verbatim>\<open>memory_unmap\<close>, defined nowhere, is left out.)
\<close>

definition port_active :: "hba_port \<Rightarrow> bool" where
  "port_active p \<longleftrightarrow> hp_ssts p AND 0x0F = HBA_PORT_DET_PRESENT \<and> drop_bit 8 (hp_ssts p) AND 0x0F = HBA_PORT_IPM_ACTIVE"

definition free_ports :: "ahci \<Rightarrow> ahci" where
  "free_ports s = fold (\<lambda>j. dma_free (ah_tables s ! j @ [ah_fis_base s ! j, ah_cmd_list s ! j])) [0..<ah_count s] s"

fun init_ports :: "(nat \<Rightarrow> ptr) \<Rightarrow> (ptr \<Rightarrow> u32) \<Rightarrow> (nat \<Rightarrow> nat \<Rightarrow> u32) \<Rightarrow> u32 \<Rightarrow> nat list \<Rightarrow> ahci \<Rightarrow> (fault + ahci \<times> bool) option" where
  "init_ports dma phys cmd_rd pi [] s = Some (Inr (s\<lparr>ah_initialized := True\<rparr>, True))"
| "init_ports dma phys cmd_rd pi (i # is) s = (case ah_mem s of None \<Rightarrow> Some (Inl Null_deref)
   | Some m \<Rightarrow>
       if \<not> bit pi i \<or> \<not> port_active (hba_ports m ! i) then init_ports dma phys cmd_rd pi is s
       else Option.bind (ahci_port_initialize dma phys (cmd_rd i) i (ah_count s) s) (\<lambda>r. case r of
           Inl e \<Rightarrow> Some (Inl e)
         | Inr (s1, ok) \<Rightarrow>
             if \<not> ok then Some (Inr (free_ports s1, False))
             else init_ports dma phys cmd_rd pi is (s1\<lparr>ah_count := ah_count s1 + 1\<rparr>)))"

text \<open>
  The search for the controller. \<open>map_hba\<close> is \<open>memory_map_physical\<close>: the controller behind a base address,
  if it could be mapped; \<open>ghc_rd\<close> is what the reset loop reads.
\<close>

fun find_hba :: "'h cfg_space \<Rightarrow> (u32 \<Rightarrow> hba_mem option) \<Rightarrow> (nat \<Rightarrow> ptr) \<Rightarrow> (ptr \<Rightarrow> u32) \<Rightarrow> (nat \<Rightarrow> u32) \<Rightarrow> (nat \<Rightarrow> nat \<Rightarrow> u32) \<Rightarrow> nat list
    \<Rightarrow> 'h pci \<times> ahci \<Rightarrow> (fault + ('h pci \<times> ahci) \<times> bool) option" where
  "find_hba c map_hba dma phys ghc_rd cmd_rd [] st = Some (Inr (st, False))"
| "find_hba c map_hba dma phys ghc_rd cmd_rd (i # is) (pc, s) = (case pci_get_device i pc of
     None \<Rightarrow> Some (Inl Null_deref)
   | Some dev \<Rightarrow>
       if pci_class_code dev = AHCI_BASE_CLASS \<and> pci_subclass dev = AHCI_SUB_CLASS \<and> pci_get_bar_address (Some dev) 5 \<noteq> 0
       then let pc1 = pci_enable_bus_mastering c (pci_bus dev) (pci_dev dev) (pci_function dev) pc;
                s1 = s\<lparr>ah_mem := map_hba (pci_get_bar_address (Some dev) 5)\<rparr> in
         (case ah_mem s1 of None \<Rightarrow> Some (Inr ((pc1, s1), False))
          | Some m \<Rightarrow> Option.bind (wait_clear ghc_rd 1 0) (\<lambda>ghc.
              let s2 = s1\<lparr>ah_mem := Some (m\<lparr>hba_ghc := ghc OR push_bit 31 1\<rparr>)\<rparr> in
              map_option (\<lambda>r. fault_bind r (\<lambda>(s3, ok). Inr ((pc1, s3), ok)))
                (init_ports dma phys cmd_rd (hba_pi m) [0..<AHCI_MAX_PORTS] s2)))
       else find_hba c map_hba dma phys ghc_rd cmd_rd is (pc, s))"

definition ahci_init :: "'h cfg_space \<Rightarrow> (u32 \<Rightarrow> hba_mem option) \<Rightarrow> (nat \<Rightarrow> ptr) \<Rightarrow> (ptr \<Rightarrow> u32) \<Rightarrow> (nat \<Rightarrow> u32) \<Rightarrow> (nat \<Rightarrow> nat \<Rightarrow> u32)
    \<Rightarrow> 'h pci \<times> ahci \<Rightarrow> (fault + ('h pci \<times> ahci) \<times> bool) option" where
  "ahci_init c map_hba dma phys ghc_rd cmd_rd = (\<lambda>(pc, s).
     if ah_initialized s then Some (Inr ((pc, s), True))
     else find_hba c map_hba dma phys ghc_rd cmd_rd [0..<pci_get_device_count pc] (pc, s))"

section \<open>Reading\<close>

definition PRDT_ROOM :: nat where "PRDT_ROOM = 8"

definition prdt_length :: "u32 \<Rightarrow> u16" where
  "prdt_length sectors = ucast (drop_bit 4 (sectors - 1)) + 1"

definition prd_count :: "u32 \<Rightarrow> nat" where
  "prd_count sectors = unat (drop_bit 16 (sectors * AHCI_SECTOR_SIZE + 0x1FFFF))"

definition zero_entry :: prdt_entry where "zero_entry = \<lparr>pr_dba = 0, pr_dbau = 0, pr_dbc = 0, pr_i = False\<rparr>"

text \<open>The table cleared for its length, the entries set, then the count of the last.\<close>

definition build_prdt :: "u32 \<Rightarrow> u32 \<Rightarrow> prdt_entry list \<Rightarrow> fault + prdt_entry list" where
  "build_prdt pbuf sectors old =
     (let n = unat (prdt_length sectors); m = prd_count sectors in
      if n > PRDT_ROOM \<or> m > PRDT_ROOM then Inl Out_of_bounds
      else let t = replicate n zero_entry @ drop n old;
               t1 = fold (\<lambda>i t. t[i := (t ! i)\<lparr>pr_dba := pbuf + of_nat (i * 0x10000), pr_dbau := 0, pr_dbc := 0xFFFF, pr_i := True\<rparr>]) [0..<m] t
        in Inr (t1[m - 1 := (t1 ! (m - 1))\<lparr>pr_dbc := ucast (((sectors * AHCI_SECTOR_SIZE - 1) AND 0xFFFF) + 1)\<rparr>]))"

definition build_fis :: "u64 \<Rightarrow> u32 \<Rightarrow> fis_h2d" where
  "build_fis start sectors =
     \<lparr>fis_type = FIS_TYPE_REG_H2D, fis_c = True, fis_command = ATA_CMD_READ_DMA_EX,
      fis_lba = map (\<lambda>k. ucast (drop_bit (8 * k) start)) [0..<6], fis_device = push_bit 6 1,
      fis_countl = ucast (sectors AND 0xFF), fis_counth = ucast (drop_bit 8 sectors AND 0xFF)\<rparr>"

text \<open>Waiting for the command: what the loop reads from the issue and the status register.\<close>

partial_function (option) wait_command :: "(nat \<Rightarrow> u32 \<times> u32) \<Rightarrow> nat \<Rightarrow> nat \<Rightarrow> bool option" where
  "wait_command rd slot n =
     (if bit (fst (rd n)) slot then (if bit (snd (rd n)) 30 then Some False else wait_command rd slot (n + 1))
      else Some (\<not> bit (snd (rd n)) 30))"

text \<open>The command given to the controller in a slot of port \<open>port\<close>: header, frame and entries.\<close>

definition ahci_read_sectors :: "(ptr \<Rightarrow> u32) \<Rightarrow> (nat \<Rightarrow> u32 \<times> u32) \<Rightarrow> prdt_entry list \<Rightarrow> nat \<Rightarrow> u64 \<Rightarrow> u32 \<Rightarrow> ptr \<Rightarrow> ahci
    \<Rightarrow> (fault + (ahci \<times> (nat \<times> cmd_header \<times> fis_h2d \<times> prdt_entry list) option) \<times> bool) option" where
  "ahci_read_sectors phys rd old port start sectors buffer s =
     (if \<not> ah_initialized s \<or> port \<ge> ah_count s \<or> buffer = NULL \<or> sectors = 0 then Some (Inr ((s, None), False))
      else case ah_mem s of None \<Rightarrow> Some (Inl Null_deref)
      | Some m \<Rightarrow> (case ahci_find_cmdslot (hba_ports m ! port) of None \<Rightarrow> Some (Inr ((s, None), False))
          | Some slot \<Rightarrow>
              let header = \<lparr>ch_cfl = 5, ch_w = False, ch_prdtl = prdt_length sectors\<rparr> in
              (case build_prdt (phys buffer) sectors old of Inl e \<Rightarrow> Some (Inl e)
               | Inr prdt \<Rightarrow>
                   let s1 = set_port port (\<lambda>p. p\<lparr>hp_ci := push_bit slot 1\<rparr>) s in
                   map_option (\<lambda>ok. Inr ((s1, Some (slot, header, build_fis start sectors, prdt)), ok)) (wait_command rd slot 0))))"

definition ahci_write_sectors :: "nat \<Rightarrow> u64 \<Rightarrow> u32 \<Rightarrow> ptr \<Rightarrow> ahci \<Rightarrow> ahci \<times> bool" where
  "ahci_write_sectors port start sectors buffer s = (s, False)"

definition ahci_get_port_count :: "ahci \<Rightarrow> nat" where "ahci_get_port_count s = ah_count s"
definition ahci_is_initialized :: "ahci \<Rightarrow> bool" where "ahci_is_initialized s = ah_initialized s"

section \<open>Slots\<close>

lemma find_least:
  assumes "List.find P [0..<n] = Some i"
  shows "i < n" "P i" "\<And>j. j < i \<Longrightarrow> \<not> P j"
  using assms unfolding find_Some_iff by auto

text \<open>The slot taken is the first that is neither active nor issued.\<close>

theorem first_free_slot:
  "(case ahci_find_cmdslot p of None \<Rightarrow> (\<forall>i < 32. bit (hp_sact p) i \<or> bit (hp_ci p) i)
    | Some i \<Rightarrow> i < 32 \<and> \<not> bit (hp_sact p) i \<and> \<not> bit (hp_ci p) i \<and> (\<forall>j < i. bit (hp_sact p) j \<or> bit (hp_ci p) j))"
proof (cases "ahci_find_cmdslot p")
  case None
  then have "\<forall>i < 32. bit (hp_sact p) i \<or> bit (hp_ci p) i"
    unfolding ahci_find_cmdslot_def find_None_iff by (auto simp: bit_or_iff AHCI_MAX_COMMANDS_def)
  then show ?thesis using None by simp
next
  case (Some i)
  note f = find_least [OF Some [unfolded ahci_find_cmdslot_def]]
  show ?thesis using Some f(1,2) f(3) by (auto simp: bit_or_iff AHCI_MAX_COMMANDS_def)
qed

section \<open>Where the data goes\<close>

text \<open>
  What the controller does with the entries: each takes as many bytes as its count says, one more than the
  number in the field, at increasing addresses; \<open>n\<close> bytes are to be placed.
\<close>

fun scatter :: "prdt_entry list \<Rightarrow> nat \<Rightarrow> nat list" where
  "scatter [] n = []"
| "scatter (e # es) n = (let k = min n (unat (pr_dbc e) + 1) in map (\<lambda>j. unat (pr_dba e) + j) [0..<k] @ scatter es (n - k))"

lemma scatter_0 [simp]: "scatter es 0 = []"
  by (induction es) simp_all

lemma unat_drop: "unat (drop_bit n w) = unat w div 2 ^ n"
  unfolding unat_drop_bit_eq by (rule drop_bit_eq_div)

lemma small_read:
  assumes "0 < sectors" "sectors \<le> 128"
  shows "prd_count sectors = 2" "1 \<le> unat (prdt_length sectors)" "unat (prdt_length sectors) \<le> 8"
proof -
  have s: "1 \<le> unat sectors" "unat sectors \<le> 128" using assms by (simp_all add: word_less_nat_alt word_le_nat_alt unat_gt_0 Suc_le_eq)
  have "unat (sectors * 512 + 0x1FFFF) = unat sectors * 512 + 0x1FFFF"
    using s by (simp add: unat_word_ariths)
  then show "prd_count sectors = 2"
    using s unfolding prd_count_def AHCI_SECTOR_SIZE_def unat_drop by simp
  have "unat (sectors - 1) = unat sectors - 1" using s by (simp add: unat_sub word_le_nat_alt)
  then have "unat (drop_bit 4 (sectors - 1)) = (unat sectors - 1) div 16" unfolding unat_drop by simp
  moreover have "(unat sectors - 1) div 16 \<le> 7" using s by simp
  ultimately have "unat (prdt_length sectors) = (unat sectors - 1) div 16 + 1"
    unfolding prdt_length_def unat_word_ariths unat_cast by simp
  then show "1 \<le> unat (prdt_length sectors)" "unat (prdt_length sectors) \<le> 8" using \<open>(unat sectors - 1) div 16 \<le> 7\<close> by simp_all
qed

lemma two_entries:
  assumes "0 < sectors" "sectors \<le> 128" "length old = 8"
  shows "\<exists>e es. build_prdt pbuf sectors old = Inr (e # es) \<and> pr_dba e = pbuf \<and> pr_dbc e = 0xFFFF \<and> length es = 7"
proof -
  let ?n = "unat (prdt_length sectors)"
  note r = small_read [OF assms(1,2)]
  have "length (replicate ?n zero_entry @ drop ?n old) = Suc (Suc 6)" using r assms(3) by simp
  then obtain x y ys where t: "replicate ?n zero_entry @ drop ?n old = x # y # ys" "length ys = 6"
    unfolding length_Suc_conv by blast
  then show ?thesis using r by (simp add: build_prdt_def Let_def PRDT_ROOM_def numeral_2_eq_2)
qed

lemma unat_and_255: "unat (w AND 0xFF :: u32) = unat w mod 256"
proof -
  have "w AND 0xFF = take_bit 8 w" by (simp add: take_bit_eq_mask mask_eq_exp_minus_1)
  then show ?thesis by (simp add: take_bit_eq_mod unat_mod_distrib)
qed

lemma lba_bytes:
  fixes start :: u64
  shows "(\<Sum>k < 6. unat (ucast (drop_bit (8 * k) start) :: u8) * 256 ^ k) = unat start mod 2 ^ 48"
proof -
  have b: "unat (ucast (drop_bit (8 * k) start) :: u8) = unat start div 256 ^ k mod 256" for k
    unfolding unat_cast unat_drop by (simp add: power_mult)
  have step: "a mod (256 ^ Suc k) = a div 256 ^ k mod 256 * 256 ^ k + a mod 256 ^ k" for a k :: nat
    using mod_mult2_eq [of a "256 ^ k" 256] by (simp add: mult.commute)
  have "(\<Sum>k < n. a div 256 ^ k mod 256 * 256 ^ k) = a mod 256 ^ n" for n a :: nat
  proof (induction n)
    case (Suc n)
    then show ?case unfolding step by simp
  qed simp
  from this [of "unat start" 6] show ?thesis by (simp add: b)
qed

lemma wait_command_done:
  assumes "\<forall>k < n. bit (fst (rd k)) slot \<and> \<not> bit (snd (rd k)) 30" "\<not> bit (fst (rd n)) slot" "m \<le> n"
  shows "wait_command rd slot m = Some (\<not> bit (snd (rd n)) 30)"
  using assms(3)
proof (induction m rule: inc_induct)
  case base
  then show ?case using assms(2) by (subst wait_command.simps) simp
next
  case (step m)
  then show ?case using assms(1) by (subst wait_command.simps) simp
qed


text \<open>From 129 sectors on, the entries no longer fit into the table.\<close>

lemma long_read_overflows_table:
  assumes "129 \<le> sectors" "sectors \<le> 0xFFFF"
  shows "build_prdt pbuf sectors old = Inl Out_of_bounds"
proof -
  have s: "129 \<le> unat sectors" "unat sectors \<le> 65535" using assms by (simp_all add: word_le_nat_alt)
  then have "unat (sectors - 1) = unat sectors - 1" by (simp add: unat_sub word_le_nat_alt)
  then have "unat (drop_bit 4 (sectors - 1)) = (unat sectors - 1) div 16" unfolding unat_drop by simp
  moreover have "(unat sectors - 1) div 16 < 4096" using s by (simp add: div_less_iff_less_mult)
  moreover have "8 \<le> (unat sectors - 1) div 16" using s by (simp add: less_eq_div_iff_mult_less_eq)
  ultimately have "unat (prdt_length sectors) > PRDT_ROOM"
    unfolding prdt_length_def unat_word_ariths unat_cast PRDT_ROOM_def by simp
  then show ?thesis by (simp add: build_prdt_def Let_def)
qed

section \<open>Nothing is leaked\<close>

definition arrays_ok :: "ahci \<Rightarrow> bool" where
  "arrays_ok s \<longleftrightarrow> length (ah_cmd_list s) = 32 \<and> length (ah_fis_base s) = 32 \<and> length (ah_tables s) = 32 \<and> (\<forall>t \<in> set (ah_tables s). length t = 32)"

text \<open>What the first \<open>n\<close> ports hold.\<close>

definition held :: "nat \<Rightarrow> ahci \<Rightarrow> ptr multiset" where
  "held n s = (\<Sum>j < n. mset (ah_tables s ! j) + {#ah_fis_base s ! j, ah_cmd_list s ! j#})"

lemma set_port_keeps [simp]:
  "ah_cmd_list (set_port i f s) = ah_cmd_list s" "ah_fis_base (set_port i f s) = ah_fis_base s" "ah_tables (set_port i f s) = ah_tables s"
  "ah_alloc (set_port i f s) = ah_alloc s" "ah_freed (set_port i f s) = ah_freed s" "ah_count (set_port i f s) = ah_count s"
  "arrays_ok (set_port i f s) = arrays_ok s"
  by (simp_all add: set_port_def arrays_ok_def)

lemma alloc_tables_cases:
  assumes "arrays_ok s" "k < 32" "i \<le> 32" "alloc_tables dma k i s = (s', ok)"
  shows "arrays_ok s' \<and> ah_count s' = ah_count s \<and> ah_cmd_list s' = ah_cmd_list s \<and> ah_fis_base s' = ah_fis_base s \<and>
    (\<forall>j < 32. j \<noteq> k \<longrightarrow> ah_tables s' ! j = ah_tables s ! j) \<and>
    (if ok then ah_freed s' = ah_freed s \<and> mset (ah_alloc s') + mset (take i (ah_tables s ! k)) = mset (ah_alloc s) + mset (ah_tables s' ! k)
     else mset (ah_freed s') + mset (ah_alloc s) =
       mset (ah_freed s) + mset (take i (ah_tables s ! k)) + {#ah_fis_base s ! k, ah_cmd_list s ! k#} + mset (ah_alloc s'))"
  using assms
proof (induction dma k i s arbitrary: s' ok rule: alloc_tables.induct)
  case (1 dma k i s)
  have len: "length (ah_tables s) = 32" "length (ah_tables s ! k) = 32" using "1.prems"(1,2) by (simp_all add: arrays_ok_def)
  show ?case
  proof (cases "i < 32")
    case False
    then have i: "i = 32" using "1.prems"(3) by simp
    then have "alloc_tables dma k i s = (s, True)" by (simp add: alloc_tables.simps [of dma k 32 s] AHCI_MAX_COMMANDS_def)
    then have "s' = s" "ok" using "1.prems"(4) by simp_all
    then show ?thesis using "1.prems"(1) len i by simp
  next
    case True
    obtain p s1 where p: "dma_alloc dma s = (p, s1)" by (cases "dma_alloc dma s")
    define s2 where "s2 = s1\<lparr>ah_tables := (ah_tables s1)[k := (ah_tables s1 ! k)[i := p]]\<rparr>"
    have s1: "s1 = s\<lparr>ah_calls := ah_calls s + 1, ah_alloc := (if p = NULL then ah_alloc s else ah_alloc s @ [p])\<rparr>" "p = dma (ah_calls s)"
      using p by (auto simp: dma_alloc_def Let_def)
    have tables: "ah_tables s2 = (ah_tables s)[k := (ah_tables s ! k)[i := p]]" by (simp add: s2_def s1(1))
    have other: "ah_freed s2 = ah_freed s" "ah_count s2 = ah_count s" "ah_cmd_list s2 = ah_cmd_list s" "ah_fis_base s2 = ah_fis_base s"
      "ah_alloc s2 = (if p = NULL then ah_alloc s else ah_alloc s @ [p])" by (simp_all add: s2_def s1(1))
    have ok2: "arrays_ok s2"
      using "1.prems"(1,2) set_update_subset_insert [of "ah_tables s" k "(ah_tables s ! k)[i := p]"] len(2)
      by (auto simp: arrays_ok_def tables other dest!: subsetD)
    have tk: "ah_tables s2 ! k = (ah_tables s ! k)[i := p]" using len "1.prems"(2) by (simp add: tables)
    have take_k: "take i (ah_tables s2 ! k) = take i (ah_tables s ! k)" by (simp add: tk)
    have take_Suc: "take (Suc i) ((ah_tables s)[k := (ah_tables s ! k)[i := p]] ! k) = take i (ah_tables s ! k) @ [p]"
      using True len "1.prems"(2) by (simp add: take_Suc_conv_app_nth)
    have step: "alloc_tables dma k i s = (if p = NULL
        then (dma_free (take i (ah_tables s2 ! k) @ [ah_fis_base s2 ! k, ah_cmd_list s2 ! k]) s2, False) else alloc_tables dma k (i + 1) s2)"
      using True p by (simp add: alloc_tables.simps [of dma k i s] AHCI_MAX_COMMANDS_def s2_def)
    show ?thesis
    proof (cases "p = NULL")
      case True
      then have e: "s' = dma_free (take i (ah_tables s ! k) @ [ah_fis_base s ! k, ah_cmd_list s ! k]) s2" "\<not> ok"
        using step "1.prems"(4) by (simp_all add: take_k other)
      then show ?thesis using ok2 True by (auto simp: dma_free_def other tables arrays_ok_def)
    next
      case False
      then have rec: "alloc_tables dma k (i + 1) s2 = (s', ok)" using step "1.prems"(4) by simp
      have "i < AHCI_MAX_COMMANDS" using True by (simp add: AHCI_MAX_COMMANDS_def)
      from "1.IH" [OF _ p [symmetric] refl s2_def False ok2 "1.prems"(2) _ rec] this
      show ?thesis using True False by (auto simp: take_Suc other tables split: if_splits)
    qed
  qed
qed

lemma held_cong:
  assumes "\<And>j. j < n \<Longrightarrow> ah_tables s ! j = ah_tables t ! j \<and> ah_fis_base s ! j = ah_fis_base t ! j \<and> ah_cmd_list s ! j = ah_cmd_list t ! j"
  shows "held n s = held n t"
  using assms by (simp add: held_def)

text \<open>A port that fails gives back all it got; one that works holds it.\<close>

lemma port_initialize_cases:
  assumes "ahci_port_initialize dma phys rd i k s = Some (Inr (s', ok))" "arrays_ok s"
  shows "arrays_ok s' \<and> ah_count s' = ah_count s \<and> held k s' = held k s \<and> k < 32 \<and>
    (if ok then ah_freed s' = ah_freed s \<and> mset (ah_alloc s') + held k s = mset (ah_alloc s) + held (k + 1) s'
     else mset (ah_freed s') + mset (ah_alloc s) = mset (ah_freed s) + mset (ah_alloc s'))"
proof -
  obtain cmd where cmd: "wait_clear rd (HBA_PxCMD_FR OR HBA_PxCMD_CR) 0 = Some cmd" and k: "k < 32"
    using assms(1) by (auto simp: ahci_port_initialize_def AHCI_MAX_PORTS_def split: bind_splits if_splits)
  define t0 where "t0 = set_port i (\<lambda>p. p\<lparr>hp_cmd := cmd\<rparr>) s"
  define cl where "cl = dma (ah_calls t0)"
  define t2 where "t2 = t0\<lparr>ah_calls := ah_calls t0 + 1, ah_alloc := (if cl = NULL then ah_alloc t0 else ah_alloc t0 @ [cl]),
    ah_cmd_list := (ah_cmd_list t0)[k := cl]\<rparr>"
  define t3 where "t3 = set_port i (\<lambda>p. p\<lparr>hp_clb := phys cl, hp_clbu := 0\<rparr>) t2"
  define fb where "fb = dma (ah_calls t3)"
  define t5 where "t5 = t3\<lparr>ah_calls := ah_calls t3 + 1, ah_alloc := (if fb = NULL then ah_alloc t3 else ah_alloc t3 @ [fb]),
    ah_fis_base := (ah_fis_base t3)[k := fb]\<rparr>"
  define t6 where "t6 = set_port i (\<lambda>p. p\<lparr>hp_fb := phys fb, hp_fbu := 0\<rparr>) t5"
  obtain t7 ok7 where t7: "alloc_tables dma k 0 t6 = (t7, ok7)" by (cases "alloc_tables dma k 0 t6")
  have res: "(s', ok) = (if cl = NULL then (t2, False) else if fb = NULL then (dma_free [cl] t5, False) else if \<not> ok7 then (t7, False)
      else (set_port i (\<lambda>p. p\<lparr>hp_cmd := hp_cmd p OR HBA_PxCMD_FRE OR HBA_PxCMD_ST\<rparr>) t7, True))"
    using assms(1) cmd k t7 unfolding t6_def t5_def fb_def t3_def t2_def cl_def t0_def
    by (auto simp: ahci_port_initialize_def AHCI_MAX_PORTS_def dma_alloc_def Let_def split: if_splits)
  have lists: "arrays_ok t2" "arrays_ok t5" "arrays_ok t6" "ah_count t6 = ah_count s" "ah_cmd_list t6 = (ah_cmd_list s)[k := cl]"
    "ah_fis_base t6 = (ah_fis_base s)[k := fb]" "ah_tables t6 = ah_tables s" "ah_freed t6 = ah_freed s"
    "ah_tables t2 = ah_tables s" "ah_tables t5 = ah_tables s" "ah_fis_base t2 = ah_fis_base s" "ah_cmd_list t2 = (ah_cmd_list s)[k := cl]"
    "ah_cmd_list t5 = (ah_cmd_list s)[k := cl]" "ah_fis_base t5 = (ah_fis_base s)[k := fb]"
    "ah_count t2 = ah_count s" "ah_count t5 = ah_count s" "ah_freed t2 = ah_freed s" "ah_freed t5 = ah_freed s"
    using assms(2) by (simp_all add: t6_def t5_def t3_def t2_def t0_def arrays_ok_def)
  have alloc: "cl \<noteq> NULL \<Longrightarrow> fb \<noteq> NULL \<Longrightarrow> ah_alloc t6 = ah_alloc s @ [cl, fb]" "cl \<noteq> NULL \<Longrightarrow> fb = NULL \<Longrightarrow> ah_alloc t5 = ah_alloc s @ [cl]"
    "cl = NULL \<Longrightarrow> ah_alloc t2 = ah_alloc s" by (simp_all add: t6_def t5_def t3_def t2_def t0_def)
  have len: "length (ah_cmd_list s) = 32" "length (ah_fis_base s) = 32" using assms(2) by (simp_all add: arrays_ok_def)
  have held: "held k t = held k s" if "\<And>j. j < k \<Longrightarrow> ah_tables t ! j = ah_tables s ! j" "ah_cmd_list t = (ah_cmd_list s)[k := cl]"
    "ah_fis_base t = ah_fis_base s \<or> ah_fis_base t = (ah_fis_base s)[k := fb]" for t
    using that by (intro held_cong) auto
  consider "cl = NULL" | "cl \<noteq> NULL" "fb = NULL" | "cl \<noteq> NULL" "fb \<noteq> NULL" by blast
  then show ?thesis
  proof cases
    case 1
    then show ?thesis using res lists alloc(3) k held [of t2] by simp
  next
    case 2
    moreover have "held k (dma_free [cl] t5) = held k s" using lists by (intro held) (simp_all add: dma_free_def)
    moreover have "arrays_ok (dma_free [cl] t5)" using lists(2) by (simp add: arrays_ok_def dma_free_def)
    ultimately show ?thesis using res lists alloc(2) k by (simp add: dma_free_def)
  next
    case 3
    note c = alloc_tables_cases [OF lists(3) k _ t7]
    have h: "held k t7 = held k s" using c lists k by (intro held) auto
    have k7: "ah_fis_base t7 ! k = fb" "ah_cmd_list t7 ! k = cl" using c lists len k by auto
    have "held (k + 1) t7 = held k s + mset (ah_tables t7 ! k) + {#fb, cl#}" using h k7 by (simp add: held_def)
    moreover have "held n (set_port i f t7) = held n t7" for n f by (simp add: held_def)
    moreover have "if ok then ok7 \<and> s' = set_port i (\<lambda>p. p\<lparr>hp_cmd := hp_cmd p OR HBA_PxCMD_FRE OR HBA_PxCMD_ST\<rparr>) t7 else \<not> ok7 \<and> s' = t7"
      using res 3 by (auto split: if_splits)
    ultimately show ?thesis using c h k7 lists alloc(1) [OF 3] k len by (cases ok) (simp_all add: ac_simps)
  qed
qed

text \<open>
  If a port cannot be set up, initialisation ends with everything it allocated given back exactly once.
\<close>

lemma free_ports_freed: "mset (ah_freed (free_ports s)) = mset (ah_freed s) + held (ah_count s) s" "ah_alloc (free_ports s) = ah_alloc s"
proof -
  have "mset (ah_freed (fold (\<lambda>j. dma_free (ah_tables s ! j @ [ah_fis_base s ! j, ah_cmd_list s ! j])) [0..<n] t)) = mset (ah_freed t) + held n s \<and>
    ah_alloc (fold (\<lambda>j. dma_free (ah_tables s ! j @ [ah_fis_base s ! j, ah_cmd_list s ! j])) [0..<n] t) = ah_alloc t" for n t
    by (induction n) (simp_all add: dma_free_def held_def)
  then show "mset (ah_freed (free_ports s)) = mset (ah_freed s) + held (ah_count s) s" "ah_alloc (free_ports s) = ah_alloc s"
    by (simp_all add: free_ports_def)
qed

theorem failed_init_frees_all:
  assumes "init_ports dma phys cmd_rd pi is s = Some (Inr (s', False))" "arrays_ok s" "ah_freed s = []"
    and "mset (ah_alloc s) = held (ah_count s) s"
  shows "mset (ah_freed s') = mset (ah_alloc s')"
  using assms
proof (induction "is" arbitrary: s)
  case (Cons i "is")
  obtain m where m: "ah_mem s = Some m" using Cons.prems(1) by (cases "ah_mem s") simp_all
  show ?case
  proof (cases "bit pi i \<and> port_active (hba_ports m ! i)")
    case False
    then show ?thesis using Cons m by (auto split: if_splits)
  next
    case True
    then obtain s1 ok where r: "ahci_port_initialize dma phys (cmd_rd i) i (ah_count s) s = Some (Inr (s1, ok))"
      "(if \<not> ok then Some (Inr (free_ports s1, False)) else init_ports dma phys cmd_rd pi is (s1\<lparr>ah_count := ah_count s1 + 1\<rparr>)) = Some (Inr (s', False))"
      using Cons.prems(1) m by (auto split: bind_splits sum.splits prod.splits)
    note c = port_initialize_cases [OF r(1) Cons.prems(2)]
    show ?thesis
    proof (cases ok)
      case True
      have "held n (s1\<lparr>ah_count := x\<rparr>) = held n s1" "arrays_ok (s1\<lparr>ah_count := x\<rparr>) = arrays_ok s1" for n x by (simp_all add: held_def arrays_ok_def)
      then show ?thesis using True c r(2) Cons.prems(3,4) by (intro Cons.IH [of "s1\<lparr>ah_count := ah_count s1 + 1\<rparr>"]) auto
    next
      case False
      then show ?thesis using c r(2) Cons.prems(3,4) by (auto simp: free_ports_freed)
    qed
  qed
qed simp

section \<open>What goes wrong\<close>

lemma alloc_tables_mem: "ah_mem (fst (alloc_tables dma k i s)) = ah_mem s"
proof (induction dma k i s rule: alloc_tables.induct)
  case (1 dma k i s)
  obtain p s1 where p: "dma_alloc dma s = (p, s1)" by (cases "dma_alloc dma s")
  then have m: "ah_mem s1 = ah_mem s" by (auto simp: dma_alloc_def Let_def)
  show ?case
  proof (cases "i < AHCI_MAX_COMMANDS \<and> p \<noteq> NULL")
    case True
    then show ?thesis using "1.IH" [OF _ p [symmetric] refl refl] p m by (subst alloc_tables.simps) simp
  next
    case False
    then show ?thesis using p m by (subst alloc_tables.simps) (auto simp: dma_free_def)
  qed
qed

text \<open>
  Ports are numbered in the order they are found, but reading takes the number for the port of the
  controller: initialising port \<open>i\<close> as number \<open>k\<close> leaves the registers of port \<open>k\<close> as they were, without a
  command list.
\<close>

lemma port_numbers_differ:
  assumes "ahci_port_initialize dma phys rd i k s = Some (Inr (s', ok))" "ah_mem s = Some m" "i \<noteq> k"
  shows "\<exists>m'. ah_mem s' = Some m' \<and> hba_ports m' ! k = hba_ports m ! k"
proof -
  have set_port: "\<exists>m2. ah_mem (set_port i f t) = Some m2 \<and> hba_ports m2 ! k = hba_ports m ! k"
    if "\<exists>m1. ah_mem t = Some m1 \<and> hba_ports m1 ! k = hba_ports m ! k" for f t
    using that assms(3) by (auto simp: set_port_def)
  have alloc: "ah_mem (snd (dma_alloc dma t)) = ah_mem t" for t by (simp add: dma_alloc_def Let_def)
  have free: "ah_mem (dma_free ps t) = ah_mem t" for ps t by (simp add: dma_free_def)
  show ?thesis
    using assms(1,2)
    by (auto simp: ahci_port_initialize_def Let_def case_prod_beta alloc free alloc_tables_mem intro!: set_port split: bind_splits if_splits)
qed

text \<open>The number of ports survives a failure, so the next failing attempt frees the same memory again.\<close>

lemma failure_keeps_port_count: "ah_count (free_ports s) = ah_count s"
proof -
  have "ah_count (fold (\<lambda>j. dma_free (f j)) js t) = ah_count t" for f js t by (induction js arbitrary: t) (simp_all add: dma_free_def)
  then show ?thesis by (simp add: free_ports_def)
qed

section \<open>Witnesses\<close>

definition demo_hba :: hba_mem where
  "demo_hba = \<lparr>hba_ghc = 0, hba_pi = 1, hba_ports = [\<lparr>hp_clb = 0, hp_clbu = 0, hp_fb = 0, hp_fbu = 0, hp_cmd = 0, hp_ssts = 0x103,
     hp_sact = 1, hp_ci = 0\<rparr>]\<rparr>"

definition demo_ahci :: ahci where
  "demo_ahci = \<lparr>ah_mem = Some demo_hba, ah_cmd_list = replicate 32 NULL, ah_fis_base = replicate 32 NULL,
     ah_tables = replicate 32 (replicate 32 NULL), ah_count = 0, ah_initialized = False, ah_calls = 0, ah_alloc = [], ah_freed = []\<rparr>"


text \<open>The third allocation, that of the first command table, fails.\<close>

theorem failed_init_frees_all_witness:
  "\<exists>s'. init_ports (\<lambda>n. if n < 2 then of_nat (n + 1) else NULL) id (\<lambda>_ _. 0) 1 [0] demo_ahci = Some (Inr (s', False)) \<and>
     mset (ah_freed s') = mset (ah_alloc s')"
proof -
  let ?dma = "\<lambda>n. if n < 2 then of_nat (n + 1) else NULL"
  have active: "port_active (hba_ports demo_hba ! 0)"
    by (simp add: port_active_def demo_hba_def HBA_PORT_DET_PRESENT_def HBA_PORT_IPM_ACTIVE_def)
  have wait: "wait_clear (\<lambda>_. 0) b 0 = Some 0" for b by (subst wait_clear.simps) simp
  have "\<exists>s1. ahci_port_initialize ?dma id (\<lambda>_. 0) 0 0 demo_ahci = Some (Inr (s1, False))"
    by (simp add: ahci_port_initialize_def wait AHCI_MAX_PORTS_def AHCI_MAX_COMMANDS_def dma_alloc_def demo_ahci_def Let_def
        alloc_tables.simps [of _ _ 0] set_port_def)
  then obtain s' where s': "init_ports ?dma id (\<lambda>_ _. 0) 1 [0] demo_ahci = Some (Inr (s', False))"
    using active by (auto simp: demo_ahci_def)
  moreover have "mset (ah_freed s') = mset (ah_alloc s')"
    by (rule failed_init_frees_all [OF s']) (simp_all add: demo_ahci_def arrays_ok_def held_def)
  ultimately show ?thesis by blast
qed

end
