(* ===== verification/Shell.thy ===== *)
theory Shell
  imports Maya_Prelude "HOL-Library.Sublist" "HOL-Library.Char_ord"
begin

text \<open>
  The shell (\<^verbatim>\<open>apps/shell/shell.c\<close>): a ring of the last twenty commands, the division of a command into
  words, its dispatch, and completion. A string is its characters before the terminator. \<^verbatim>\<open>strtok\<close>,
  \<^verbatim>\<open>strcmp\<close> and \<^verbatim>\<open>strncmp\<close> are the functions of the C library. What a command puts out is the list of
  strings given to the output function. The file system is an argument: the directory of a path, as what
  \<^verbatim>\<open>vfs_readdir\<close> gives for each index. Shown here: the words agree with splitting at every space, the
  history gives the last commands newest first, completion gives the first command the text begins, and
  which commands the help announces in vain.
\<close>

section \<open>State and commands\<close>

definition MAX_HISTORY :: nat where "MAX_HISTORY = 20"
definition MAX_COMMAND_LEN :: nat where "MAX_COMMAND_LEN = 256"

text \<open>\<open>sh_out\<close>: whether an output function was given.\<close>

record shell =
  sh_history :: "string list"
  sh_count :: nat
  sh_pos :: nat
  sh_out :: bool

type_synonym directories = "string \<Rightarrow> (nat \<Rightarrow> string option) option"

definition shell_init :: "bool \<Rightarrow> shell \<Rightarrow> shell" where
  "shell_init out s = s\<lparr>sh_out := out, sh_history := replicate MAX_HISTORY [], sh_count := 0, sh_pos := 0\<rparr>"

definition shell_cmd_help :: "string list" where
  "shell_cmd_help = [''Available commands: help, clear, ls, cat, echo, exit'']"

text \<open>The entries of a directory until there is none.\<close>

partial_function (option) list_entries :: "(nat \<Rightarrow> string option) \<Rightarrow> nat \<Rightarrow> string list option" where
  "list_entries rd i = (case rd i of None \<Rightarrow> Some [] | Some e \<Rightarrow> Option.bind (list_entries rd (i + 1)) (\<lambda>es. Some (e # es)))"

definition shell_cmd_ls :: "directories \<Rightarrow> string list \<Rightarrow> string list option" where
  "shell_cmd_ls dirs argv =
     (case dirs (if length argv > 1 then argv ! 1 else ''/'') of None \<Rightarrow> Some [''Directory not found.''] | Some rd \<Rightarrow> list_entries rd 0)"

fun echo_words :: "string list \<Rightarrow> string list" where
  "echo_words [] = []"
| "echo_words (w # ws) = (if ws = [] then [w] else w # '' '' # echo_words ws)"

definition shell_cmd_echo :: "string list \<Rightarrow> string list" where
  "shell_cmd_echo argv = echo_words (drop 1 argv) @ [[char_of (10 :: nat)]]"

definition commands :: "string list" where "commands = [''help'', ''ls'', ''echo'']"

text \<open>The handler of a name.\<close>

definition dispatch :: "directories \<Rightarrow> string list \<Rightarrow> string list option" where
  "dispatch dirs argv =
     (if hd argv = ''help'' then Some shell_cmd_help
      else if hd argv = ''ls'' then shell_cmd_ls dirs argv
      else if hd argv = ''echo'' then Some (shell_cmd_echo argv)
      else Some [''Unknown command. Type '' @ [char_of (39 :: nat)] @ ''help'' @ [char_of (39 :: nat)] @ ''.''])"

text \<open>One call of \<^verbatim>\<open>strtok\<close> with a space: the word and what follows it. At most sixteen words are taken.\<close>

definition space :: char where "space = CHR '' ''"

definition strtok :: "string \<Rightarrow> (string \<times> string) option" where
  "strtok s = (let s1 = dropWhile (\<lambda>c. c = space) s in
     if s1 = [] then None else Some (takeWhile (\<lambda>c. c \<noteq> space) s1, drop 1 (dropWhile (\<lambda>c. c \<noteq> space) s1)))"

fun tokenize :: "nat \<Rightarrow> string \<Rightarrow> string list" where
  "tokenize 0 s = []"
| "tokenize (Suc n) s = (case strtok s of None \<Rightarrow> [] | Some (t, r) \<Rightarrow> t # tokenize n r)"

definition shell_execute :: "directories \<Rightarrow> string option \<Rightarrow> shell \<Rightarrow> (fault + shell \<times> string list) option" where
  "shell_execute dirs command s = (case command of None \<Rightarrow> Some (Inr (s, []))
     | Some cmd \<Rightarrow>
         if cmd = [] then Some (Inr (s, []))
         else let s1 = s\<lparr>sh_history := (sh_history s)[sh_count s mod MAX_HISTORY := take (MAX_COMMAND_LEN - 1) cmd], sh_count := sh_count s + 1\<rparr> in
           if length cmd \<ge> MAX_COMMAND_LEN then Some (Inl Out_of_bounds)
           else let argv = tokenize 16 cmd in
             if argv = [] then Some (Inr (s1, []))
             else if \<not> sh_out s1 then Some (Inl Null_deref)
             else map_option (\<lambda>out. Inr (s1, out)) (dispatch dirs argv))"

definition shell_autocomplete :: "string option \<Rightarrow> string option \<Rightarrow> string option" where
  "shell_autocomplete part result =
     (if part = None \<or> result = None then result
      else case List.find (\<lambda>name. take (length (the part)) name = the part) commands of None \<Rightarrow> result | Some name \<Rightarrow> Some name)"

definition shell_get_history :: "int \<Rightarrow> shell \<Rightarrow> string option" where
  "shell_get_history index s =
     (if index < 0 \<or> index \<ge> int MAX_HISTORY \<or> index \<ge> int (sh_count s) then None
      else Some (sh_history s ! nat ((int (sh_count s) - 1 - index) mod int MAX_HISTORY)))"

definition shell_get_history_count :: "shell \<Rightarrow> nat" where
  "shell_get_history_count s = (if sh_count s > MAX_HISTORY then MAX_HISTORY else sh_count s)"

section \<open>Words\<close>

text \<open>Splitting at every space, empty pieces included.\<close>

fun split_spaces :: "string \<Rightarrow> string list" where
  "split_spaces [] = [[]]"
| "split_spaces (c # cs) = (if c = space then [] # split_spaces cs else (c # hd (split_spaces cs)) # tl (split_spaces cs))"

lemma split_spaces_nonempty [simp]: "split_spaces s \<noteq> []"
  by (cases s) simp_all

lemma split_no_space: "space \<notin> set s \<Longrightarrow> split_spaces s = [s]"
  by (induction s) auto

lemma split_at_space: "space \<notin> set w \<Longrightarrow> split_spaces (w @ space # r) = w # split_spaces r"
  by (induction w) auto

lemma split_leading: "filter (\<lambda>w. w \<noteq> []) (split_spaces (dropWhile (\<lambda>c. c = space) s)) = filter (\<lambda>w. w \<noteq> []) (split_spaces s)"
  by (induction s) auto

lemma strtok_words:
  "(case strtok s of None \<Rightarrow> filter (\<lambda>w. w \<noteq> []) (split_spaces s) = []
    | Some (t, r) \<Rightarrow> filter (\<lambda>w. w \<noteq> []) (split_spaces s) = t # filter (\<lambda>w. w \<noteq> []) (split_spaces r))"
proof -
  let ?ne = "\<lambda>w :: string. w \<noteq> []" and ?s = "dropWhile (\<lambda>c. c = space) s"
  let ?t = "takeWhile (\<lambda>c. c \<noteq> space) ?s" and ?d = "dropWhile (\<lambda>c. c \<noteq> space) ?s"
  show ?thesis
  proof (cases "?s = []")
    case True
    have "filter ?ne (split_spaces s) = filter ?ne (split_spaces ?s)" by (rule split_leading [symmetric])
    also have "\<dots> = []" unfolding True by simp
    finally show ?thesis using True by (simp add: strtok_def)
  next
    case False
    have no_space: "space \<notin> set ?t" by (auto dest: set_takeWhileD)
    have "hd ?s \<noteq> space" using False hd_dropWhile by blast
    then have t: "?t \<noteq> []" using False by (cases ?s) auto
    have "filter ?ne (split_spaces s) = filter ?ne (split_spaces (?t @ ?d))" unfolding takeWhile_dropWhile_id by (rule split_leading [symmetric])
    also have "\<dots> = ?t # filter ?ne (split_spaces (drop 1 ?d))"
    proof (cases ?d)
      case Nil
      show ?thesis unfolding Nil append_Nil2 split_no_space [OF no_space] using t by simp
    next
      case (Cons c r)
      then have "c = space" using hd_dropWhile [of "\<lambda>c. c \<noteq> space" ?s] by simp
      have e: "split_spaces (?t @ space # r) = ?t # split_spaces r" by (rule split_at_space [OF no_space])
      show ?thesis unfolding Cons \<open>c = space\<close> e using t by simp
    qed
    finally show ?thesis using False by (simp add: strtok_def Let_def)
  qed
qed

text \<open>
  The loop over \<^verbatim>\<open>strtok\<close> takes the first non-empty pieces of the text split at every space.
\<close>

theorem tokenize_splits: "tokenize n s = take n (filter (\<lambda>w. w \<noteq> []) (split_spaces s))"
proof (induction n arbitrary: s)
  case (Suc n)
  show ?case using strtok_words [of s] Suc by (cases "strtok s") auto
qed simp

section \<open>History\<close>

text \<open>Commands that are executed one after the other.\<close>

fun run_commands :: "directories \<Rightarrow> string list \<Rightarrow> shell \<Rightarrow> (fault + shell) option" where
  "run_commands dirs [] s = Some (Inr s)"
| "run_commands dirs (c # cs) s = Option.bind (shell_execute dirs (Some c) s) (\<lambda>r. case r of Inl e \<Rightarrow> Some (Inl e)
     | Inr (s1, out) \<Rightarrow> run_commands dirs cs s1)"

definition history_of :: "string list \<Rightarrow> shell \<Rightarrow> bool" where
  "history_of cs s \<longleftrightarrow> sh_count s = length cs \<and> length (sh_history s) = MAX_HISTORY \<and>
     (\<forall>k < length cs. length cs \<le> k + MAX_HISTORY \<longrightarrow> sh_history s ! (k mod MAX_HISTORY) = cs ! k)"

lemma execute_history:
  assumes "shell_execute dirs (Some c) s = Some (Inr (s', out))" "c \<noteq> []" "history_of cs s"
  shows "history_of (cs @ [c]) s'"
proof -
  have l: "length c < MAX_COMMAND_LEN" and s': "s' = s\<lparr>sh_history := (sh_history s)[sh_count s mod MAX_HISTORY := c], sh_count := sh_count s + 1\<rparr>"
    using assms(1,2) by (auto simp: shell_execute_def Let_def MAX_COMMAND_LEN_def split: if_splits)
  have "sh_history s' ! (k mod MAX_HISTORY) = (cs @ [c]) ! k" if k: "k < Suc (length cs)" "Suc (length cs) \<le> k + MAX_HISTORY" for k
  proof (cases "k = length cs")
    case True
    then show ?thesis using assms(3) by (simp add: s' history_of_def MAX_HISTORY_def)
  next
    case False
    then have "k < length cs" using k(1) by simp
    moreover have "k mod 20 \<noteq> length cs mod 20"
    proof
      assume "k mod 20 = length cs mod 20"
      then have "20 dvd length cs - k" using \<open>k < length cs\<close> by (metis mod_eq_dvd_iff_nat less_imp_le)
      then show False using \<open>k < length cs\<close> k(2) by (auto simp: MAX_HISTORY_def dest: dvd_imp_le)
    qed
    ultimately show ?thesis using assms(3) k(2) by (simp add: s' history_of_def MAX_HISTORY_def nth_append)
  qed
  then show ?thesis using assms(3) s' by (simp add: history_of_def)
qed

lemma run_history:
  assumes "run_commands dirs cs s = Some (Inr s')" "\<forall>c \<in> set cs. c \<noteq> []" "history_of ds s"
  shows "history_of (ds @ cs) s'"
  using assms
proof (induction cs arbitrary: ds s)
  case (Cons c cs)
  then obtain s1 out where "shell_execute dirs (Some c) s = Some (Inr (s1, out))" "run_commands dirs cs s1 = Some (Inr s')"
    by (auto split: bind_splits sum.splits prod.splits)
  then show ?case using Cons.IH [of s1 "ds @ [c]"] Cons.prems execute_history by auto
qed simp

text \<open>
  After any number of commands the history gives the last twenty, index 0 the newest, and nothing beyond.
\<close>

theorem history_newest_first:
  assumes "run_commands dirs cs (shell_init True s0) = Some (Inr s)" "\<forall>c \<in> set cs. c \<noteq> []"
  shows "shell_get_history_count s = min (length cs) 20 \<and>
    (\<forall>i. shell_get_history i s = (if 0 \<le> i \<and> i < int (min (length cs) 20) then Some (cs ! (length cs - 1 - nat i)) else None))"
proof -
  have "history_of [] (shell_init True s0)" by (simp add: history_of_def shell_init_def)
  then have h: "history_of cs s" using run_history [OF assms] by fastforce
  have "shell_get_history i s = Some (cs ! (length cs - 1 - nat i))" if i: "0 \<le> i" "i < int (min (length cs) 20)" for i
  proof -
    have "nat ((int (length cs) - 1 - i) mod 20) = (length cs - 1 - nat i) mod 20"
      using i by (simp add: nat_mod_distrib nat_diff_distrib)
    moreover have "length cs - 1 - nat i < length cs" "length cs \<le> length cs - 1 - nat i + 20" using i by auto
    ultimately have "sh_history s ! nat ((int (length cs) - 1 - i) mod 20) = cs ! (length cs - 1 - nat i)"
      using h by (simp only: history_of_def MAX_HISTORY_def)
    moreover have "i < int (length cs)" "i < 20" using i(2) by simp_all
    ultimately show ?thesis using h i(1) by (simp add: shell_get_history_def history_of_def MAX_HISTORY_def)
  qed
  moreover have "shell_get_history i s = None" if "\<not> (0 \<le> i \<and> i < int (min (length cs) 20))" for i
    using h that by (auto simp: shell_get_history_def history_of_def MAX_HISTORY_def)
  ultimately show ?thesis using h by (auto simp: shell_get_history_count_def history_of_def MAX_HISTORY_def)
qed

section \<open>Completion and help\<close>

text \<open>
  Completion replaces the text by a command it begins, the first in the table, and such a command is
  known: executing it never gives the message of an unknown command.
\<close>

theorem completion_is_known_prefix:
  "shell_autocomplete (Some part) (Some result) =
    (if \<exists>c \<in> set commands. prefix part c then Some (if prefix part ''help'' then ''help'' else if prefix part ''ls'' then ''ls'' else ''echo'') else Some result)"
proof -
  have p: "take (length part) c = part \<longleftrightarrow> prefix part c" for c :: string
    by (metis append_eq_conv_conj append_take_drop_id prefix_def)
  show ?thesis by (simp add: shell_autocomplete_def commands_def p)
qed

text \<open>The help names commands the table does not have.\<close>

lemma announced_commands_unknown:
  assumes "c \<in> {''clear'', ''cat'', ''exit''}" "sh_out s"
  shows "\<exists>s'. shell_execute dirs (Some c) s = Some (Inr (s', [''Unknown command. Type '' @ [char_of (39 :: nat)] @ ''help'' @ [char_of (39 :: nat)] @ ''.'']))"
proof -
  have "tokenize 16 c = [c]" "c \<noteq> []" "length c < MAX_COMMAND_LEN" "hd [c] = c" using assms(1) by (auto simp: tokenize_splits space_def MAX_COMMAND_LEN_def)
  moreover have "c \<noteq> ''help''" "c \<noteq> ''ls''" "c \<noteq> ''echo''" using assms(1) by auto
  ultimately show ?thesis using assms(2) by (simp add: shell_execute_def dispatch_def Let_def)
qed

text \<open>A command of 256 characters or more overflows the buffer it is copied to.\<close>

lemma long_command_overflows: "256 \<le> length cmd \<Longrightarrow> shell_execute dirs (Some cmd) s = Some (Inl Out_of_bounds)"
  by (auto simp: shell_execute_def Let_def MAX_COMMAND_LEN_def)

text \<open>A listing gives the entries up to the first missing one, if there is one.\<close>

lemma list_entries_stops:
  assumes "rd n = None" "\<forall>i < n. rd i \<noteq> None" "i \<le> n"
  shows "list_entries rd i = Some (map (the \<circ> rd) [i..<n])"
  using assms(3)
proof (induction i rule: inc_induct)
  case base
  then show ?case using assms(1) by (subst list_entries.simps) simp
next
  case (step i)
  obtain e where "rd i = Some e" using assms(2) step by auto
  then show ?case using step by (subst list_entries.simps) (simp add: upt_conv_Cons)
qed

text \<open>Listing a directory puts out its names in order.\<close>

theorem ls_lists_names:
  assumes "sh_out s" "dirs ''/'' = Some (\<lambda>i. if i < length names then Some (names ! i) else None)"
  shows "\<exists>s'. shell_execute dirs (Some ''ls'') s = Some (Inr (s', names))"
proof -
  have "tokenize 16 ''ls'' = [''ls'']" by (simp add: tokenize_splits space_def)
  moreover have "list_entries (\<lambda>i. if i < length names then Some (names ! i) else None) 0 = Some names"
  proof -
    let ?rd = "\<lambda>i. if i < length names then Some (names ! i) else None"
    have "map (the \<circ> ?rd) [0..<length names] = map ((!) names) [0..<length names]" by (intro map_cong) simp_all
    then show ?thesis using list_entries_stops [of ?rd "length names" 0] by (simp add: map_nth)
  qed
  ultimately show ?thesis using assms by (simp add: shell_execute_def dispatch_def shell_cmd_ls_def MAX_COMMAND_LEN_def Let_def)
qed

section \<open>Witnesses\<close>

definition demo_shell :: shell where "demo_shell = \<lparr>sh_history = [], sh_count = 0, sh_pos = 0, sh_out = False\<rparr>"

theorem history_newest_first_witness:
  "\<exists>s. run_commands (\<lambda>_. None) [''help'', ''echo a''] (shell_init True demo_shell) = Some (Inr s) \<and> shell_get_history 0 s = Some ''echo a''"
proof -
  have "tokenize 16 ''help'' = [''help'']" "tokenize 16 ''echo a'' = [''echo'', ''a'']" by (simp_all add: tokenize_splits space_def)
  then obtain s where "run_commands (\<lambda>_. None) [''help'', ''echo a''] (shell_init True demo_shell) = Some (Inr s)"
    by (simp add: shell_execute_def dispatch_def MAX_COMMAND_LEN_def Let_def shell_init_def)
  then show ?thesis using history_newest_first [of "\<lambda>_. None" "[''help'', ''echo a'']" demo_shell s] by fastforce
qed

theorem ls_lists_names_witness:
  "\<exists>s'. shell_execute (\<lambda>p. if p = ''/'' then Some (\<lambda>i. if i < 2 then Some ([''bin'', ''home''] ! i) else None) else None) (Some ''ls'')
     (shell_init True demo_shell) = Some (Inr (s', [''bin'', ''home'']))"
  using ls_lists_names [of "shell_init True demo_shell"
      "\<lambda>p. if p = ''/'' then Some (\<lambda>i. if i < 2 then Some ([''bin'', ''home''] ! i) else None) else None" "[''bin'', ''home'']"]
  by (simp add: shell_init_def eval_nat_numeral)

end
