(* ===== verification/Terminal.thy ===== *)
theory Terminal
  imports Shell Notifications
begin

text \<open>
  The terminal (\<^verbatim>\<open>gui/apps/terminal.c\<close>): a window with 25 lines and a command being typed, run by the shell.
  The command buffer is its 256 characters; \<open>text_of\<close> reads it up to the terminator. What is drawn is a list
  of graphics calls; \<^verbatim>\<open>window_clear\<close>, called before, is defined nowhere, and the refresh of the window after
  them is the function of the component Widgets. Shown here: the lines are the last 25 written, and typing a
  command and Enter runs exactly that command.
\<close>

section \<open>State and operations\<close>

definition TERM_ROWS :: nat where "TERM_ROWS = 25"
definition TERM_COLS :: nat where "TERM_COLS = 80"
definition CHAR_HEIGHT :: int where "CHAR_HEIGHT = 16"

definition nul :: char where "nul = char_of (0 :: nat)"

definition text_of :: "string \<Rightarrow> string" where "text_of b = takeWhile (\<lambda>c. c \<noteq> nul) b"

record terminal =
  tm_window :: "nat option"
  tm_command :: string
  tm_pos :: nat
  tm_lines :: "string list"
  tm_count :: nat

definition terminal_writeln :: "string \<Rightarrow> terminal \<Rightarrow> terminal" where
  "terminal_writeln t s =
     (if tm_count s < TERM_ROWS
      then s\<lparr>tm_lines := (tm_lines s)[tm_count s := take (TERM_COLS - 1) t], tm_count := tm_count s + 1\<rparr>
      else let ls = fold (\<lambda>i ls. ls[i := ls ! (i + 1)]) [0..<TERM_ROWS - 1] (tm_lines s)
        in s\<lparr>tm_lines := ls[TERM_ROWS - 1 := take (TERM_COLS - 1) t]\<rparr>)"

definition terminal_shell_output :: "string \<Rightarrow> terminal \<Rightarrow> terminal" where
  "terminal_shell_output = terminal_writeln"

text \<open>The command typed, run by the shell, whose output goes to the terminal line by line.\<close>

definition run_line :: "directories \<Rightarrow> terminal \<times> shell \<Rightarrow> (fault + terminal \<times> shell) option" where
  "run_line dirs = (\<lambda>(s, sh).
     let s1 = s\<lparr>tm_command := (tm_command s)[tm_pos s := nul]\<rparr>; cmd = text_of (tm_command s1);
         s2 = terminal_writeln (''> '' @ cmd) s1
     in map_option (\<lambda>r. fault_bind r (\<lambda>(sh1, out).
          Inr ((fold terminal_shell_output out s2)\<lparr>tm_pos := 0, tm_command := replicate 256 nul\<rparr>, sh1)))
          (shell_execute dirs (Some cmd) sh))"

definition terminal_key :: "directories \<Rightarrow> u32 \<Rightarrow> terminal \<times> shell \<Rightarrow> (fault + terminal \<times> shell) option" where
  "terminal_key dirs key = (\<lambda>(s, sh).
     if key = 10 then run_line dirs (s, sh)
     else if key = 8
     then Some (Inr (if tm_pos s > 0 then (s\<lparr>tm_pos := tm_pos s - 1, tm_command := (tm_command s)[tm_pos s - 1 := nul]\<rparr>, sh) else (s, sh)))
     else if key = 9
     then Some (Inr (case shell_autocomplete (Some (text_of (tm_command s))) (Some []) of
            None \<Rightarrow> (s, sh)
          | Some r \<Rightarrow> if length r > 0
                      then (s\<lparr>tm_command := r @ [nul] @ drop (length r + 1) (tm_command s), tm_pos := length r\<rparr>, sh) else (s, sh)))
     else if tm_pos s < 255 \<and> key < 128
     then Some (Inr (s\<lparr>tm_command := (tm_command s)[tm_pos s := char_of (unat key)], tm_pos := tm_pos s + 1\<rparr>, sh))
     else Some (Inr (s, sh)))"

definition terminal_display :: "window \<Rightarrow> terminal \<Rightarrow> draw_op list" where
  "terminal_display w s =
     map (\<lambda>i. Op_text (tm_lines s ! i) (w_x w + 5) (w_y w + WINDOW_TITLE_HEIGHT + int i * CHAR_HEIGHT + 5) 0x00FF00) [0..<tm_count s] @
     [Op_text (''> '' @ text_of (tm_command s) @ ''_'') (w_x w + 5) (w_y w + WINDOW_TITLE_HEIGHT + int (tm_count s) * CHAR_HEIGHT + 5) 0x00FF00]"

text \<open>The new state, and what is drawn if the window is there and visible.\<close>

definition terminal_handle_input :: "directories \<Rightarrow> window_manager \<Rightarrow> u32 \<Rightarrow> terminal \<times> shell \<Rightarrow> (fault + (terminal \<times> shell) \<times> draw_op list) option" where
  "terminal_handle_input dirs wm key = (\<lambda>(s, sh). case tm_window s of None \<Rightarrow> Some (Inr ((s, sh), []))
     | Some p \<Rightarrow> (case wm_store wm p of None \<Rightarrow> Some (Inl Dangling_pointer)
         | Some w \<Rightarrow>
             if \<not> w_visible w then Some (Inr ((s, sh), []))
             else map_option (\<lambda>r. fault_bind r (\<lambda>(s1, sh1). Inr ((s1, sh1), terminal_display w s1))) (terminal_key dirs key (s, sh))))"

text \<open>The window is created after a notification is pushed; without a window nothing else happens.\<close>

definition terminal_init :: "u32 \<Rightarrow> nat option \<Rightarrow> bool \<Rightarrow> window \<Rightarrow> (terminal \<times> shell) \<times> window_manager \<times> notification_state
    \<Rightarrow> fault + (terminal \<times> shell) \<times> window_manager \<times> notification_state" where
  "terminal_init now alloc buf fresh = (\<lambda>((s, sh), wm, nt).
     let nt1 = notification_push now ''Terminal'' ''Command Line Interface active.'' nt in
     fault_bind (window_create alloc buf fresh (Some ''Terminal'') 100 100 640 480 wm) (\<lambda>(wm1, p).
       let s1 = s\<lparr>tm_window := p\<rparr> in
       if p = None then Inr ((s1, sh), wm1, nt1)
       else Inr ((terminal_writeln (''Type '' @ [char_of (39 :: nat)] @ ''help'' @ [char_of (39 :: nat)] @ '' for commands.'')
              (terminal_writeln ''Maya OS Terminal v1.1'' (s1\<lparr>tm_lines := replicate TERM_ROWS [], tm_count := 0\<rparr>)), shell_init True sh), wm1, nt1)))"

text \<open>A program with one window renders it if it is visible; \<open>render\<close> is \<^verbatim>\<open>window_render\<close>.\<close>

definition app_draw :: "(nat \<Rightarrow> window_manager \<times> gfx \<Rightarrow> (fault + window_manager \<times> gfx) option) \<Rightarrow> nat option \<Rightarrow> window_manager \<times> gfx
    \<Rightarrow> (fault + window_manager \<times> gfx) option" where
  "app_draw render p = (\<lambda>(wm, g). case p of None \<Rightarrow> Some (Inr (wm, g))
     | Some q \<Rightarrow> (case wm_store wm q of None \<Rightarrow> Some (Inl Dangling_pointer)
         | Some w \<Rightarrow> if w_visible w then render q (wm, g) else Some (Inr (wm, g))))"

definition terminal_draw :: "(nat \<Rightarrow> window_manager \<times> gfx \<Rightarrow> (fault + window_manager \<times> gfx) option) \<Rightarrow> terminal \<Rightarrow> window_manager \<times> gfx
    \<Rightarrow> (fault + window_manager \<times> gfx) option" where
  "terminal_draw render s = app_draw render (tm_window s)"

section \<open>The last 25 lines\<close>

definition showing :: "string list \<Rightarrow> terminal \<Rightarrow> bool" where
  "showing ts s \<longleftrightarrow> length (tm_lines s) = 25 \<and> tm_count s \<le> 25 \<and> take (tm_count s) (tm_lines s) = drop (length ts - 25) (map (take 79) ts) \<and>
     tm_count s = min (length ts) 25"

lemma shift_lines:
  assumes "n < length ls"
  shows "fold (\<lambda>i ls. ls[i := ls ! (i + 1)]) [0..<n] ls = drop 1 (take (n + 1) ls) @ drop n ls"
  using assms
proof (induction n)
  case 0
  then show ?case by (simp add: take_Suc)
next
  case (Suc n)
  then have IH: "fold (\<lambda>i ls. ls[i := ls ! (i + 1)]) [0..<n] ls = drop 1 (take (n + 1) ls) @ drop n ls" by simp
  obtain a rest where r: "drop n ls = a # rest" "rest = drop (Suc n) ls"
    using Suc.prems by (metis Cons_nth_drop_Suc Suc_lessD)
  have l: "length (drop 1 (take (n + 1) ls)) = n" using Suc.prems by simp
  have "(drop 1 (take (n + 1) ls) @ drop n ls) ! (n + 1) = ls ! (n + 1)" using Suc.prems l by (simp add: nth_append)
  moreover have "(drop 1 (take (n + 1) ls) @ drop n ls)[n := ls ! (n + 1)] = drop 1 (take (n + 1) ls) @ [ls ! (n + 1)] @ rest"
    using l by (simp add: list_update_append r(1))
  moreover have "drop 1 (take (n + 1) ls) @ [ls ! (n + 1)] = drop 1 (take (n + 2) ls)"
    using Suc.prems take_Suc_conv_app_nth [of "n + 1" ls] by simp
  ultimately show ?case using IH r(2) by simp
qed

lemma writeln_showing:
  assumes "showing ts s"
  shows "showing (ts @ [t]) (terminal_writeln t s)"
proof (cases "tm_count s < 25")
  case True
  then have n: "tm_count s = length ts" "length ts < 25" using assms by (auto simp: showing_def)
  then show ?thesis using assms True
    by (simp add: showing_def terminal_writeln_def TERM_ROWS_def TERM_COLS_def take_Suc_conv_app_nth)
next
  case False
  then have n: "tm_count s = 25" "25 \<le> length ts" "length (tm_lines s) = 25" and tl: "tm_lines s = drop (length ts - 25) (map (take 79) ts)"
    using assms by (auto simp: showing_def min_def split: if_splits)
  have "fold (\<lambda>i ls. ls[i := ls ! (i + 1)]) [0..<24] (tm_lines s) = drop 1 (tm_lines s) @ drop 24 (tm_lines s)"
    using shift_lines [of 24 "tm_lines s"] n(3) by simp
  moreover have "(drop 1 (tm_lines s) @ drop 24 (tm_lines s))[24 := take 79 t] = drop 1 (tm_lines s) @ [take 79 t]"
  proof -
    obtain a where "drop 24 (tm_lines s) = [a]" using n(3) by (cases "drop 24 (tm_lines s)") (auto dest: arg_cong [of _ _ length])
    then show ?thesis using n(3) by (simp add: list_update_append)
  qed
  moreover have "drop 1 (tm_lines s) @ [take 79 t] = drop (length (ts @ [t]) - 25) (map (take 79) (ts @ [t]))"
    using n(2) Suc_diff_le [of 25 "length ts"] by (simp add: tl)
  ultimately have "tm_lines (terminal_writeln t s) = drop (length (ts @ [t]) - 25) (map (take 79) (ts @ [t]))" "tm_count (terminal_writeln t s) = 25"
    using n(1) by (simp_all add: terminal_writeln_def TERM_ROWS_def TERM_COLS_def)
  then show ?thesis using n by (simp add: showing_def)
qed

text \<open>
  After any lines have been written to a cleared terminal, it shows the last 25 of them in order, each cut to
  79 characters.
\<close>

theorem terminal_shows_last_lines:
  assumes "tm_lines s = replicate 25 []" "tm_count s = 0" "s' = fold terminal_writeln ts s"
  shows "take (tm_count s') (tm_lines s') = drop (length ts - 25) (map (take 79) ts)"
proof -
  have "showing (us @ vs) (fold terminal_writeln vs u)" if "showing us u" for us vs u
    using that
  proof (induction vs arbitrary: us u)
    case (Cons v vs)
    then show ?case using Cons.IH [OF writeln_showing [OF Cons.prems], of v] by simp
  qed simp
  moreover have "showing [] s" using assms(1,2) by (simp add: showing_def)
  ultimately have "showing ts s'" using assms(3) by fastforce
  then show ?thesis unfolding showing_def by blast
qed

section \<open>Typing a command\<close>

fun type_keys :: "directories \<Rightarrow> u32 list \<Rightarrow> terminal \<times> shell \<Rightarrow> (fault + terminal \<times> shell) option" where
  "type_keys dirs [] st = Some (Inr st)"
| "type_keys dirs (k # ks) st = Option.bind (terminal_key dirs k st) (\<lambda>r. case r of Inl e \<Rightarrow> Some (Inl e) | Inr st1 \<Rightarrow> type_keys dirs ks st1)"

definition key_of :: "char \<Rightarrow> u32" where "key_of c = of_nat (of_char c)"

definition typed :: "string \<Rightarrow> terminal \<Rightarrow> terminal" where
  "typed cmd s = s\<lparr>tm_command := cmd @ replicate (256 - length cmd) nul, tm_pos := length cmd\<rparr>"

definition plain :: "char \<Rightarrow> bool" where "plain c \<longleftrightarrow> (32 :: nat) \<le> of_char c \<and> of_char c < (128 :: nat)"

lemma key_of_plain:
  assumes "plain c"
  shows "char_of (unat (key_of c)) = c" "key_of c \<noteq> 10" "key_of c \<noteq> 8" "key_of c \<noteq> 9" "key_of c < 128" "c \<noteq> nul"
proof -
  have u: "unat (key_of c) = of_char c" using assms by (simp add: key_of_def plain_def unat_of_nat)
  then show "char_of (unat (key_of c)) = c" by simp
  show "key_of c \<noteq> 10" "key_of c \<noteq> 8" "key_of c \<noteq> 9" "key_of c < 128"
    using u assms by (auto simp: plain_def word_less_nat_alt)
  show "c \<noteq> nul" using assms by (auto simp: plain_def nul_def)
qed

lemma type_one:
  assumes "plain c" "length cmd < 255"
  shows "terminal_key dirs (key_of c) (typed cmd s, sh) = Some (Inr (typed (cmd @ [c]) s, sh))"
proof -
  obtain m where m: "256 - length cmd = Suc m" "256 - Suc (length cmd) = m" using assms(2) by (cases "256 - length cmd") auto
  then have "(cmd @ replicate (256 - length cmd) nul)[length cmd := c] = cmd @ c # replicate m nul" by (simp add: list_update_append)
  then show ?thesis using key_of_plain [OF assms(1)] assms(2) m(2) by (simp add: terminal_key_def typed_def)
qed

lemma type_text:
  assumes "\<forall>c \<in> set t. plain c" "length cmd + length t \<le> 255"
  shows "type_keys dirs (map key_of t @ ks) (typed cmd s, sh) = type_keys dirs ks (typed (cmd @ t) s, sh)"
  using assms
proof (induction t arbitrary: cmd)
  case (Cons c t)
  then show ?case using type_one [of c cmd dirs s sh] by simp
qed simp

lemma writeln_typed: "terminal_writeln t (typed cmd s) = typed cmd (terminal_writeln t s)"
  by (simp add: terminal_writeln_def typed_def Let_def)

lemma fold_writeln_typed: "fold terminal_writeln ts (typed cmd s) = typed cmd (fold terminal_writeln ts s)"
  by (induction ts arbitrary: s) (simp_all add: writeln_typed)

text \<open>
  C33. Typing a command of printable characters and Enter runs exactly this command in the shell; the terminal
  then shows it and the output below what it showed before, with nothing typed.
\<close>

theorem typed_command_runs:
  assumes "\<forall>c \<in> set cmd. plain c" "length cmd \<le> 255"
  shows "type_keys dirs (map key_of cmd @ [10]) (typed [] s, sh) = map_option (\<lambda>r. fault_bind r (\<lambda>(sh1, out).
    Inr (typed [] (fold terminal_writeln ((''> '' @ cmd) # out) s), sh1))) (shell_execute dirs (Some cmd) sh)"
proof -
  have "type_keys dirs (map key_of cmd @ [10]) (typed [] s, sh) = type_keys dirs [10] (typed cmd s, sh)"
    using type_text [OF assms(1), of "[]" dirs "[10]" s sh] assms(2) by simp
  moreover have "(cmd @ replicate (256 - length cmd) nul)[length cmd := nul] = cmd @ replicate (256 - length cmd) nul"
  proof -
    obtain m where "256 - length cmd = Suc m" using assms(2) by (cases "256 - length cmd") auto
    then show ?thesis by (simp add: list_update_append)
  qed
  then have cmd: "(typed cmd s)\<lparr>tm_command := (tm_command (typed cmd s))[tm_pos (typed cmd s) := nul]\<rparr> = typed cmd s"
    by (simp add: typed_def)
  have read_cmd: "text_of (tm_command (typed cmd s)) = cmd"
  proof -
    have "\<forall>c \<in> set cmd. c \<noteq> nul" using assms(1) key_of_plain(6) by blast
    then show ?thesis by (cases "256 - length cmd") (simp_all add: text_of_def typed_def takeWhile_append2)
  qed
  have reset: "(typed cmd u)\<lparr>tm_pos := 0, tm_command := replicate 256 nul\<rparr> = typed [] u" for u by (simp add: typed_def)
  have "run_line dirs (typed cmd s, sh) = map_option (\<lambda>r. fault_bind r (\<lambda>(sh1, out).
    Inr (typed [] (fold terminal_writeln ((''> '' @ cmd) # out) s), sh1))) (shell_execute dirs (Some cmd) sh)"
    unfolding run_line_def prod.case Let_def cmd read_cmd terminal_shell_output_def writeln_typed fold_writeln_typed reset by simp
  moreover have "Option.bind r (case_sum (\<lambda>e. Some (Inl e)) (type_keys dirs [])) = r" for r
    by (cases r) (auto split: sum.splits)
  ultimately show ?thesis by (simp add: terminal_key_def)
qed

section \<open>Witnesses\<close>

definition demo_terminal :: terminal where
  "demo_terminal = \<lparr>tm_window = None, tm_command = replicate 256 nul, tm_pos = 0, tm_lines = replicate 25 [], tm_count = 0\<rparr>"

theorem terminal_shows_last_lines_witness:
  "take (tm_count (fold terminal_writeln [''a'', ''b''] demo_terminal)) (tm_lines (fold terminal_writeln [''a'', ''b''] demo_terminal)) = [''a'', ''b'']"
  using terminal_shows_last_lines [of demo_terminal _ "[''a'', ''b'']", OF _ _ refl] by (simp add: demo_terminal_def)

theorem typed_command_runs_witness:
  "\<exists>s' sh'. type_keys (\<lambda>_. None) (map key_of ''echo'' @ [10]) (typed [] demo_terminal, shell_init True demo_shell) = Some (Inr (s', sh'))"
proof -
  have "\<forall>c \<in> set ''echo''. plain c" by (simp add: plain_def)
  note t = typed_command_runs [OF this, of "\<lambda>_. None" demo_terminal "shell_init True demo_shell"]
  have "tokenize 16 ''echo'' = [''echo'']" by (simp add: tokenize_splits space_def)
  then have "\<exists>sh' out. shell_execute (\<lambda>_. None) (Some ''echo'') (shell_init True demo_shell) = Some (Inr (sh', out))"
    by (simp add: shell_execute_def dispatch_def MAX_COMMAND_LEN_def Let_def shell_init_def)
  then obtain sh' out where "shell_execute (\<lambda>_. None) (Some ''echo'') (shell_init True demo_shell) = Some (Inr (sh', out))" by blast
  then show ?thesis using t by auto
qed

end
