(* ===== verification/Notepad.thy ===== *)
theory Notepad
  imports Terminal
begin

text \<open>
  The notepad (\<^verbatim>\<open>gui/apps/notepad.c\<close>): a hundred rows of eighty characters and a cursor that only typing
  moves. A row is its characters, terminator included. \<^verbatim>\<open>vfs_open\<close> is called with a file name, unlike its
  declaration: whether it gives a file is an argument, and saving is the list of writes made. Shown here:
  the buffer implements a text, a list of lines at whose end characters are added and removed, and what
  is drawn are the lines of this text.
\<close>

section \<open>State and operations\<close>

definition NOTEPAD_MAX_LINES :: nat where "NOTEPAD_MAX_LINES = 100"
definition NOTEPAD_MAX_COLS :: nat where "NOTEPAD_MAX_COLS = 80"
definition CHAR_WIDTH :: int where "CHAR_WIDTH = 8"

record notepad_state =
  np_window :: "nat option"
  np_buffer :: "string list"
  np_row :: nat
  np_col :: nat
  np_max_row :: nat

definition set_char :: "nat \<Rightarrow> nat \<Rightarrow> char \<Rightarrow> notepad_state \<Rightarrow> notepad_state" where
  "set_char r c ch s = s\<lparr>np_buffer := (np_buffer s)[r := (np_buffer s ! r)[c := ch]]\<rparr>"

definition notepad_key :: "u32 \<Rightarrow> notepad_state \<Rightarrow> notepad_state" where
  "notepad_key key s =
     (if key = 10
      then if np_row s < NOTEPAD_MAX_LINES - 1
           then s\<lparr>np_row := np_row s + 1, np_col := 0, np_max_row := (if np_row s + 1 > np_max_row s then np_row s + 1 else np_max_row s)\<rparr>
           else s
      else if key = 8
      then if np_col s > 0 then set_char (np_row s) (np_col s - 1) nul (s\<lparr>np_col := np_col s - 1\<rparr>)
           else if np_row s > 0 then s\<lparr>np_row := np_row s - 1, np_col := length (text_of (np_buffer s ! (np_row s - 1)))\<rparr>
           else s
      else if 32 \<le> key \<and> key \<le> 126
      then if np_col s < NOTEPAD_MAX_COLS - 1
           then set_char (np_row s) (np_col s + 1) nul (set_char (np_row s) (np_col s) (char_of (unat key)) (s\<lparr>np_col := np_col s + 1\<rparr>))
           else s
      else s)"

text \<open>What goes into the buffer of the window, and the graphics calls.\<close>

definition notepad_background :: "window \<Rightarrow> draw_cmd list" where
  "notepad_background w =
     window_draw_rect w 0 0 (w_width w - 4) (w_height w - WINDOW_TITLE_HEIGHT - 4) 0xFFFFFF @ window_draw_rect w 0 0 (w_width w - 4) 20 0xF0F0F0"

definition notepad_lines :: "window \<Rightarrow> notepad_state \<Rightarrow> draw_op list" where
  "notepad_lines w s =
     (let start_y = w_y w + WINDOW_TITLE_HEIGHT + 25 in
      concat (map (\<lambda>r. if length (text_of (np_buffer s ! r)) > 0
        then [Op_text (text_of (np_buffer s ! r)) (w_x w + 5) (start_y + int r * CHAR_HEIGHT) 0] else []) [0..<np_max_row s + 1]))"

definition notepad_draw_content :: "window \<Rightarrow> notepad_state \<Rightarrow> draw_cmd list \<times> draw_op list" where
  "notepad_draw_content w s =
     (if \<not> w_visible w then ([], [])
      else let start_y = w_y w + WINDOW_TITLE_HEIGHT + 25 in
        (notepad_background w,
         [Op_text ''File   Edit   Format   View   Help'' (w_x w + 10) (w_y w + WINDOW_TITLE_HEIGHT + 6) 0,
          Op_line (w_x w + 2) (w_y w + WINDOW_TITLE_HEIGHT + 20) (w_x w + w_width w - 4) (w_y w + WINDOW_TITLE_HEIGHT + 20) 0xCCCCCC] @
         notepad_lines w s @
         [Op_fill (w_x w + 5 + int (np_col s) * CHAR_WIDTH) (start_y + int (np_row s) * CHAR_HEIGHT) 2 CHAR_HEIGHT 0]))"

definition notepad_handle_input :: "window_manager \<Rightarrow> u32 \<Rightarrow> notepad_state \<Rightarrow> fault + notepad_state \<times> draw_cmd list \<times> draw_op list" where
  "notepad_handle_input wm key s = (case np_window s of None \<Rightarrow> Inr (s, [], [])
     | Some p \<Rightarrow> (case wm_store wm p of None \<Rightarrow> Inl Dangling_pointer
         | Some w \<Rightarrow> if \<not> w_visible w then Inr (s, [], []) else let s1 = notepad_key key s in Inr (s1, notepad_draw_content w s1)))"

definition clear_notepad :: "notepad_state \<Rightarrow> notepad_state" where
  "clear_notepad s = s\<lparr>np_buffer := replicate NOTEPAD_MAX_LINES (replicate NOTEPAD_MAX_COLS nul), np_row := 0, np_col := 0, np_max_row := 0\<rparr>"

definition notepad_init :: "nat option \<Rightarrow> bool \<Rightarrow> window \<Rightarrow> notepad_state \<times> window_manager \<Rightarrow> fault + (notepad_state \<times> draw_cmd list \<times> draw_op list) \<times> window_manager" where
  "notepad_init alloc buf fresh = (\<lambda>(s, wm).
     fault_bind (window_create alloc buf fresh (Some ''Untitled - Notepad'') 150 100 500 400 wm) (\<lambda>(wm1, p).
       let s1 = s\<lparr>np_window := p\<rparr> in
       case p of None \<Rightarrow> Inr ((s1, [], []), wm1)
       | Some q \<Rightarrow> (case wm_store wm1 q of None \<Rightarrow> Inl Dangling_pointer
           | Some w \<Rightarrow> let s2 = clear_notepad s1 in Inr ((s2, notepad_draw_content w s2), wm1))))"

text \<open>The writes of saving: offset and text.\<close>

definition notepad_save :: "bool \<Rightarrow> notepad_state \<Rightarrow> (nat \<times> string) list" where
  "notepad_save opened s =
     (if opened then concat (map (\<lambda>i. [(0, text_of (np_buffer s ! i)), (0, [char_of (10 :: nat)])]) [0..<np_max_row s + 1]) else [])"

text \<open>Loading opens the file and closes it.\<close>

definition notepad_load :: "bool \<Rightarrow> notepad_state \<Rightarrow> notepad_state" where "notepad_load opened s = s"

definition notepad_draw :: "(nat \<Rightarrow> window_manager \<times> gfx \<Rightarrow> (fault + window_manager \<times> gfx) option) \<Rightarrow> notepad_state \<Rightarrow> window_manager \<times> gfx
    \<Rightarrow> (fault + window_manager \<times> gfx) option" where
  "notepad_draw render s = app_draw render (np_window s)"

section \<open>The text\<close>

text \<open>A text is a list of lines, the last one being edited.\<close>

definition edit :: "u32 \<Rightarrow> string list \<Rightarrow> string list" where
  "edit key ls =
     (if key = 10 then (if length ls < 100 then ls @ [[]] else ls)
      else if key = 8
      then (if last ls \<noteq> [] then butlast ls @ [butlast (last ls)] else if length ls > 1 then butlast ls else ls)
      else if 32 \<le> key \<and> key \<le> 126 then (if length (last ls) < 79 then butlast ls @ [last ls @ [char_of (unat key)]] else ls)
      else ls)"

definition row_of :: "string \<Rightarrow> string" where "row_of l = l @ replicate (80 - length l) nul"

definition holds :: "string list \<Rightarrow> notepad_state \<Rightarrow> bool" where
  "holds ls s \<longleftrightarrow> ls \<noteq> [] \<and> length ls \<le> 100 \<and> (\<forall>l \<in> set ls. length l \<le> 79 \<and> nul \<notin> set l) \<and>
     np_buffer s = map row_of ls @ replicate (100 - length ls) (row_of []) \<and>
     np_row s = length ls - 1 \<and> np_col s = length (last ls) \<and> length ls - 1 \<le> np_max_row s \<and> np_max_row s < 100"

lemma text_of_row: "nul \<notin> set l \<Longrightarrow> text_of (row_of l) = l"
proof -
  have "nul \<notin> set l \<Longrightarrow> takeWhile (\<lambda>c. c \<noteq> nul) (l @ replicate n nul) = l" for n by (induction l) (cases n, auto)
  then show "nul \<notin> set l \<Longrightarrow> text_of (row_of l) = l" by (simp add: row_of_def text_of_def)
qed

lemma row_append:
  assumes "length l < 79"
  shows "((row_of l)[length l := c])[Suc (length l) := nul] = row_of (l @ [c])"
proof -
  have "80 - length l = Suc (Suc (78 - length l))" "80 - Suc (length l) = Suc (78 - length l)" using assms by simp_all
  then show ?thesis by (simp add: row_of_def list_update_append)
qed

lemma row_butlast:
  assumes "l \<noteq> []" "length l \<le> 79"
  shows "(row_of l)[length l - 1 := nul] = row_of (butlast l)"
proof -
  obtain m c where l: "l = m @ [c]" using assms(1) rev_exhaust by blast
  then have "80 - length m = Suc (80 - length l)" using assms(2) by simp
  then show ?thesis using l by (simp add: row_of_def list_update_append)
qed

text \<open>Changing the row of the last line.\<close>

lemma last_row:
  assumes "holds (ms @ [l]) s" "length l' \<le> 79" "nul \<notin> set l'"
  shows "holds (ms @ [l']) (s\<lparr>np_buffer := (np_buffer s)[np_row s := row_of l'], np_col := length l'\<rparr>)"
  using assms by (auto simp: holds_def list_update_append)

lemma at_last_row: "holds (ms @ [l]) s \<Longrightarrow> np_buffer s ! np_row s = row_of l \<and> np_row s < length (np_buffer s)"
  by (auto simp: holds_def nth_append)

text \<open>
  C27. Every key changes the buffer as it changes the text: the notepad implements the list of lines.
\<close>

theorem notepad_refines_text:
  assumes "holds ls s"
  shows "holds (edit key ls) (notepad_key key s)"
proof -
  obtain ms l where ls: "ls = ms @ [l]" using assms rev_exhaust unfolding holds_def by blast
  have h: "holds (ms @ [l]) s" using assms ls by simp
  have col: "np_col s = length l" "np_row s = length ms" "length l \<le> 79" "nul \<notin> set l" "length ms < 100" using h by (auto simp: holds_def)
  have row: "np_buffer s ! np_row s = row_of l" using at_last_row [OF h] by blast
  consider "key = 10" | "key = 8" "l \<noteq> []" | "key = 8" "l = []" | "32 \<le> key" "key \<le> 126" "length l < 79"
    | "key \<noteq> 10" "key \<noteq> 8" "\<not> (32 \<le> key \<and> key \<le> 126 \<and> length l < 79)" by blast
  then show ?thesis
  proof cases
    case 1
    have "map row_of (ms @ [l]) @ replicate (100 - length (ms @ [l])) (row_of []) =
        map row_of (ms @ [l] @ [[]]) @ replicate (100 - length (ms @ [l] @ [[]])) (row_of [])" if "length (ms @ [l]) < 100"
    proof -
      have "100 - length (ms @ [l]) = Suc (100 - length (ms @ [l] @ [[]]))" using that by simp
      then show ?thesis by simp
    qed
    then show ?thesis using 1 h col(2) unfolding ls by (auto simp: edit_def notepad_key_def holds_def NOTEPAD_MAX_LINES_def)
  next
    case 2
    then have k: "notepad_key key s = s\<lparr>np_buffer := (np_buffer s)[np_row s := row_of (butlast l)], np_col := length (butlast l)\<rparr>"
      using col row row_butlast [of l] by (simp add: notepad_key_def set_char_def)
    have "nul \<notin> set (butlast l)" using col(4) by (auto dest: in_set_butlastD)
    then have "holds (ms @ [butlast l]) (notepad_key key s)" unfolding k using last_row [OF h, of "butlast l"] col(3) by simp
    then show ?thesis using 2 ls by (simp add: edit_def)
  next
    case 3
    show ?thesis
    proof (cases "ms = []")
      case True
      then show ?thesis using 3 h ls col by (simp add: edit_def notepad_key_def)
    next
      case False
      then obtain ns m where ms: "ms = ns @ [m]" using rev_exhaust by blast
      have "np_buffer s ! length ns = row_of m" "nul \<notin> set m" using h ms by (auto simp: holds_def nth_append)
      then have "length (text_of (np_buffer s ! (np_row s - 1))) = length m" using col(2) ms by (simp add: text_of_row)
      moreover have "replicate (100 - length ms) (row_of []) = row_of [] # replicate (100 - length (ms @ [l])) (row_of [])"
        using col(5) Suc_diff_Suc [of "length ms" 100] by (simp flip: replicate_Suc)
      moreover have "edit key ls = ns @ [m]" using 3 ls ms by (simp add: edit_def butlast_append)
      ultimately show ?thesis using 3 h ms col(1,2) by (auto simp: notepad_key_def holds_def)
    qed
  next
    case 4
    let ?c = "char_of (unat key) :: char"
    have "key \<noteq> 10" "key \<noteq> 8" using 4(1) by auto
    then have "notepad_key key s = s\<lparr>np_buffer := (np_buffer s)[np_row s := row_of (l @ [?c])], np_col := length (l @ [?c])\<rparr>"
      using 4 col row row_append [OF 4(3), of ?c] at_last_row [OF h]
      by (simp add: notepad_key_def set_char_def NOTEPAD_MAX_COLS_def)
    moreover have "nul \<noteq> ?c"
    proof -
      have "32 \<le> unat key" "unat key \<le> 126" using 4(1,2) by (simp_all add: word_le_nat_alt)
      then have "of_char ?c = unat key" by simp
      then show ?thesis using \<open>32 \<le> unat key\<close> by (auto simp: nul_def)
    qed
    ultimately have "holds (ms @ [l @ [?c]]) (notepad_key key s)" using last_row [OF h, of "l @ [?c]"] 4(3) col(4) by simp
    then show ?thesis using 4 ls \<open>key \<noteq> 10\<close> \<open>key \<noteq> 8\<close> by (simp add: edit_def)
  next
    case 5
    then have "notepad_key key s = s" using col by (auto simp: notepad_key_def NOTEPAD_MAX_COLS_def)
    moreover have "edit key ls = ls" using 5 ls by (auto simp: edit_def)
    ultimately show ?thesis using assms by simp
  qed
qed

text \<open>
  From an empty notepad, after any keys the rows hold the text, the cursor is behind its last character, and
  of the rows drawn those that are not empty are its lines, each at its place.
\<close>

theorem notepad_shows_text:
  assumes "ls = fold edit keys [[]]" "s' = fold notepad_key keys (clear_notepad s)"
  shows "np_row s' = length ls - 1 \<and> np_col s' = length (last ls) \<and> length ls \<le> 100 \<and>
    notepad_lines w s' = concat (map (\<lambda>r. if ls ! r \<noteq> [] then [Op_text (ls ! r) (w_x w + 5) (w_y w + 45 + int r * 16) 0] else []) [0..<length ls])"
proof -
  have "holds (fold edit ks ls) (fold notepad_key ks t)" if "holds ls t" for ks ls t
    using that
  proof (induction ks arbitrary: ls t)
    case (Cons k ks)
    then show ?case using Cons.IH [OF notepad_refines_text [OF Cons.prems]] by simp
  qed simp
  moreover have "holds [[]] (clear_notepad s)"
    by (simp add: holds_def clear_notepad_def row_of_def NOTEPAD_MAX_LINES_def NOTEPAD_MAX_COLS_def flip: replicate_Suc)
  ultimately have h: "holds ls s'" using assms by simp
  define n where "n = length ls"
  have n: "n \<le> 100" "n \<ge> 1" "n - 1 \<le> np_max_row s'" "np_max_row s' < 100" using h by (cases ls; auto simp: holds_def n_def)+
  have row: "text_of (np_buffer s' ! r) = (if r < n then ls ! r else [])" if "r < 100" for r
  proof (cases "r < n")
    case True
    then show ?thesis using h text_of_row [of "ls ! r"] by (auto simp: holds_def nth_append n_def)
  next
    case False
    then have "np_buffer s' ! r = row_of []" using h that by (auto simp: holds_def nth_append n_def)
    then show ?thesis using False text_of_row [of "[]"] by simp
  qed
  let ?f = "\<lambda>r. if ls ! r \<noteq> [] then [Op_text (ls ! r) (w_x w + 5) (w_y w + 45 + int r * 16) 0] else []"
  let ?g = "\<lambda>r. if length (text_of (np_buffer s' ! r)) > 0
    then [Op_text (text_of (np_buffer s' ! r)) (w_x w + 5) (w_y w + WINDOW_TITLE_HEIGHT + 25 + int r * CHAR_HEIGHT) 0] else []"
  have split: "[0..<np_max_row s' + 1] = [0..<n] @ [n..<np_max_row s' + 1]" using n upt_add_eq_append [of 0 n "np_max_row s' + 1 - n"] by simp
  have "map ?g [0..<n] = map ?f [0..<n]" using row n by (intro map_cong) (auto simp: WINDOW_TITLE_HEIGHT_def CHAR_HEIGHT_def)
  moreover have "concat (map ?g [n..<np_max_row s' + 1]) = []" using row n by auto
  ultimately have "notepad_lines w s' = concat (map ?f [0..<n])" by (simp only: notepad_lines_def Let_def split map_append concat_append append_Nil2)
  then show ?thesis using h by (simp add: holds_def n_def)
qed

definition unused_notepad :: notepad_state where
  "unused_notepad = \<lparr>np_window = None, np_buffer = [], np_row = 0, np_col = 0, np_max_row = 0\<rparr>"

theorem notepad_refines_text_witness: "holds [''x''] (notepad_key 120 (clear_notepad unused_notepad))"
proof -
  have "holds [[]] (clear_notepad unused_notepad)"
    by (simp add: holds_def clear_notepad_def row_of_def NOTEPAD_MAX_LINES_def NOTEPAD_MAX_COLS_def flip: replicate_Suc)
  moreover have "edit 120 [[]] = [''x'']" by (simp add: edit_def) code_simp
  ultimately show ?thesis using notepad_refines_text [of "[[]]" "clear_notepad unused_notepad" 120] by simp
qed

theorem notepad_shows_text_witness: "np_row (fold notepad_key [97, 10, 98] (clear_notepad unused_notepad)) = 1"
proof -
  have "length (fold edit [97, 10, 98] [[]]) = 2" by (simp add: edit_def)
  then show ?thesis using notepad_shows_text [OF refl refl, of "[97, 10, 98]" unused_notepad] by simp
qed

text \<open>
  Saving writes every line at the beginning of the file, so only the line feed written last is sure to
  remain there; rows emptied again are saved as empty lines.
\<close>

lemma saved_lines_overwrite: "(off, t) \<in> set (notepad_save opened s) \<Longrightarrow> off = 0"
  by (auto simp: notepad_save_def split: if_splits)

lemma max_row_never_shrinks: "np_max_row s \<le> np_max_row (notepad_key key s)"
  by (simp add: notepad_key_def set_char_def)

end
