(* ===== verification/Small_Apps.thy ===== *)
theory Small_Apps
  imports Notepad Settings_App Input_Events Desktop_Shell
begin

text \<open>
  Four small programs of \<^verbatim>\<open>gui/apps\<close>: the virtual keyboard, the control panel, the clock applet and the
  hardware manager. Shown here: the keys of the virtual keyboard do not overlap, so that a click on a key
  gives its character, and the last row of keys lies outside the window; the clock applet counts the keys
  pressed, and what it shows is not always a time; the hardware manager opens one window.
\<close>

section \<open>The virtual keyboard\<close>

definition keys :: "string list" where
  "keys = [''Q'', ''W'', ''E'', ''R'', ''T'', ''Y'', ''U'', ''I'', ''O'', ''P'', ''A'', ''S'', ''D'', ''F'', ''G'', ''H'', ''J'', ''K'', ''L'',
     ''Z'', ''X'', ''C'', ''V'', ''B'', ''N'', ''M'', ''SPACE'', ''ENTER'']"

record vk_key =
  vk_x :: int
  vk_y :: int
  vk_w :: int
  vk_h :: int
  vk_label :: string

text \<open>The loop that places the keys: number, next position and width.\<close>

fun place_keys :: "nat \<Rightarrow> int \<Rightarrow> int \<Rightarrow> int \<Rightarrow> string list \<Rightarrow> vk_key list" where
  "place_keys i start_x start_y key_w [] = []"
| "place_keys i start_x start_y key_w (k # ks) =
     (let (x, y, w) =
        (if k = ''SPACE'' then (150, start_y + 40, 200)
         else if k = ''ENTER'' then (start_x + key_w + 10, start_y, 80)
         else if i = 10 \<or> i = 19 then (25 + (if i = 19 then 15 else 0), start_y + 40, 40)
         else (start_x, start_y, key_w))
      in \<lparr>vk_x = x, vk_y = y, vk_w = w, vk_h = 30, vk_label = k\<rparr> # place_keys (i + 1) (x + w + 5) y w ks)"

definition vk_layout :: "vk_key list" where "vk_layout = place_keys 0 10 10 40 keys"

definition vk_char :: "vk_key \<Rightarrow> char" where
  "vk_char k = (if vk_label k = ''ENTER'' then char_of (10 :: nat) else if vk_label k = ''SPACE'' then CHR '' '' else hd (vk_label k))"

definition on_key :: "int \<Rightarrow> int \<Rightarrow> vk_key \<Rightarrow> bool" where
  "on_key x y k \<longleftrightarrow> x \<ge> vk_x k \<and> x \<le> vk_x k + vk_w k \<and> y \<ge> vk_y k \<and> y \<le> vk_y k + vk_h k"

text \<open>\<open>w\<close> is the window if it exists and is visible.\<close>

definition virtual_keyboard_handle_mouse :: "u32 \<Rightarrow> vk_key list \<Rightarrow> window option \<Rightarrow> int \<Rightarrow> int \<Rightarrow> u8 \<Rightarrow> input_manager
    \<Rightarrow> input_manager \<times> shortcut option" where
  "virtual_keyboard_handle_mouse now layout w x y buttons im = (case w of None \<Rightarrow> (im, None)
     | Some win \<Rightarrow>
         if \<not> w_visible win \<or> buttons AND MAYA_MOUSE_LEFT = 0 then (im, None)
         else case List.find (on_key (x - w_x win) (y - (w_y win + WINDOW_TITLE_HEIGHT))) layout of None \<Rightarrow> (im, None)
         | Some k \<Rightarrow> maya_input_add_key_event now (of_nat (of_char (vk_char k))) 0 True im)"

definition draw_key :: "window \<Rightarrow> vk_key \<Rightarrow> draw_op list" where
  "draw_key w k =
     [Op_fill (w_x w + vk_x k) (w_y w + WINDOW_TITLE_HEIGHT + vk_y k) (vk_w k) (vk_h k) 0x555555,
      Op_rect (w_x w + vk_x k) (w_y w + WINDOW_TITLE_HEIGHT + vk_y k) (vk_w k) (vk_h k) 0x222222,
      Op_text (vk_label k) (w_x w + vk_x k + vk_w k div 2 - 4) (w_y w + WINDOW_TITLE_HEIGHT + vk_y k + vk_h k div 2 - 6) 0xFFFFFF]"

definition virtual_keyboard_draw_content :: "vk_key list \<Rightarrow> window \<Rightarrow> draw_cmd list \<times> draw_op list" where
  "virtual_keyboard_draw_content layout w =
     (if \<not> w_visible w then ([], [])
      else (window_draw_rect w 0 0 (w_width w - 4) (w_height w - WINDOW_TITLE_HEIGHT - 4) 0x333333, concat (map (draw_key w) layout)))"

definition virtual_keyboard_init :: "nat option \<Rightarrow> bool \<Rightarrow> window \<Rightarrow> vk_key list \<Rightarrow> window_manager
    \<Rightarrow> fault + (nat option \<times> vk_key list) \<times> window_manager" where
  "virtual_keyboard_init alloc buf fresh layout wm =
     fault_bind (window_create alloc buf fresh (Some ''Virtual Keyboard'') 100 300 600 150 wm) (\<lambda>(wm1, p).
       Inr ((p, if p = None then layout else vk_layout), wm1))"

definition virtual_keyboard_draw :: "(nat \<Rightarrow> window_manager \<times> gfx \<Rightarrow> (fault + window_manager \<times> gfx) option) \<Rightarrow> nat option \<Rightarrow> window_manager \<times> gfx
    \<Rightarrow> (fault + window_manager \<times> gfx) option" where
  "virtual_keyboard_draw render p = app_draw render p"

text \<open>The keys placed, computed once.\<close>

lemma vk_rows:
  "vk_layout = map (\<lambda>(x, y, w, l). \<lparr>vk_x = x, vk_y = y, vk_w = w, vk_h = 30, vk_label = l\<rparr>)
    [(10, 10, 40, ''Q''), (55, 10, 40, ''W''), (100, 10, 40, ''E''), (145, 10, 40, ''R''), (190, 10, 40, ''T''), (235, 10, 40, ''Y''),
     (280, 10, 40, ''U''), (325, 10, 40, ''I''), (370, 10, 40, ''O''), (415, 10, 40, ''P''),
     (25, 50, 40, ''A''), (70, 50, 40, ''S''), (115, 50, 40, ''D''), (160, 50, 40, ''F''), (205, 50, 40, ''G''), (250, 50, 40, ''H''),
     (295, 50, 40, ''J''), (340, 50, 40, ''K''), (385, 50, 40, ''L''),
     (40, 90, 40, ''Z''), (85, 90, 40, ''X''), (130, 90, 40, ''C''), (175, 90, 40, ''V''), (220, 90, 40, ''B''), (265, 90, 40, ''N''),
     (310, 90, 40, ''M''), (150, 130, 200, ''SPACE''), (565, 130, 80, ''ENTER'')]"
  by (simp add: vk_layout_def keys_def)

definition apart :: "vk_key \<Rightarrow> vk_key \<Rightarrow> bool" where
  "apart k l \<longleftrightarrow> vk_x k + vk_w k < vk_x l \<or> vk_x l + vk_w l < vk_x k \<or> vk_y k + vk_h k < vk_y l \<or> vk_y l + vk_h l < vk_y k"

fun all_apart :: "vk_key list \<Rightarrow> bool" where
  "all_apart [] = True"
| "all_apart (k # ks) = (list_all (apart k) ks \<and> all_apart ks)"

lemma layout_apart: "all_apart vk_layout"
  unfolding vk_rows by (simp add: apart_def)

lemma find_apart:
  assumes "all_apart ks" "k \<in> set ks" "on_key x y k"
  shows "List.find (on_key x y) ks = Some k"
  using assms
proof (induction ks)
  case (Cons l ks)
  have "\<not> on_key x y l" if "k \<in> set ks"
  proof -
    have "apart l k" using Cons.prems(1) that by (simp add: list_all_iff)
    then show ?thesis using Cons.prems(3) by (auto simp: apart_def on_key_def)
  qed
  then show ?case using Cons by (cases "l = k") auto
qed simp

text \<open>
  A left click on any key, its border included, enters exactly that key's character: the space bar a
  space, the enter key a line feed.
\<close>

theorem virtual_key_types_its_character:
  assumes "k \<in> set vk_layout" "w_visible w" "buttons AND MAYA_MOUSE_LEFT \<noteq> 0" "on_key (x - w_x w) (y - (w_y w + 20)) k"
  shows "virtual_keyboard_handle_mouse now vk_layout (Some w) x y buttons im =
    maya_input_add_key_event now (of_nat (of_char (if vk_label k = ''ENTER'' then char_of (10 :: nat) else if vk_label k = ''SPACE'' then CHR '' '' else hd (vk_label k)))) 0 True im"
  using assms find_apart [OF layout_apart assms(1,4)] by (simp add: virtual_keyboard_handle_mouse_def WINDOW_TITLE_HEIGHT_def vk_char_def)

theorem virtual_key_types_its_character_witness:
  "virtual_keyboard_handle_mouse 0 vk_layout (Some demo_win) 30 50 1 im = maya_input_add_key_event 0 81 0 True im"
proof -
  have "\<lparr>vk_x = 10, vk_y = 10, vk_w = 40, vk_h = 30, vk_label = ''Q''\<rparr> \<in> set vk_layout" by (simp add: vk_rows)
  from virtual_key_types_its_character [OF this, of demo_win 1 30 50 0 im] show ?thesis
    using demo_win_geometry by (simp add: on_key_def MAYA_MOUSE_LEFT_def)
qed

text \<open>
  The last row begins at the lower edge of the window, 150 high with its title of 20, and the enter key
  ends right of its right edge.
\<close>

lemma last_row_outside_window:
  assumes "k \<in> set vk_layout" "vk_label k = ''SPACE'' \<or> vk_label k = ''ENTER''"
  shows "20 + vk_y k \<ge> 150" "vk_label k = ''ENTER'' \<Longrightarrow> vk_x k + vk_w k > 600"
  using assms by (auto simp: vk_rows)

section \<open>The control panel\<close>

record control_panel =
  cp_window :: "nat option"
  cp_tab :: int

definition control_panel_key :: "u32 \<Rightarrow> control_panel \<Rightarrow> control_panel" where
  "control_panel_key key s =
     (if key = 112 \<or> key = 80 then s\<lparr>cp_tab := 0\<rparr> else if key = 115 \<or> key = 83 then s\<lparr>cp_tab := 1\<rparr> else s)"

definition control_panel_draw_content :: "window \<Rightarrow> control_panel \<Rightarrow> draw_cmd list \<times> draw_op list" where
  "control_panel_draw_content w s =
     (let y0 = w_y w + WINDOW_TITLE_HEIGHT; content_x = w_x w + 160; content_y = y0 + 20; sel = cp_tab s in
      if \<not> w_visible w then ([], [])
      else (window_draw_rect w 0 0 (w_width w - 4) (w_height w - WINDOW_TITLE_HEIGHT - 4) 0xF5F5F5 @
            window_draw_rect w 0 0 150 (w_height w - WINDOW_TITLE_HEIGHT - 4) 0xEBEBEB,
        [Op_line (w_x w + 150) (y0 + 2) (w_x w + 150) (w_y w + w_height w - 2) 0xCCCCCC,
         Op_fill (w_x w + 5) (y0 + 10 + sel * 30) 140 25 MAYA_SELECTED_BG,
         Op_text ''Personalization'' (w_x w + 10) (y0 + 15) (if sel = 0 then 0xFFFFFF else 0x333333),
         Op_text ''System Info'' (w_x w + 10) (y0 + 45) (if sel = 1 then 0xFFFFFF else 0x333333)] @
        (if sel = 0
         then [Op_text ''Personalize your OS'' content_x content_y 0, Op_line content_x (content_y + 15) (w_x w + w_width w - 20) (content_y + 15) 0xCCCCCC,
               Op_text ''1. Windows Dark Theme'' content_x (content_y + 30) 0x333333,
               Op_text ''2. Windows Light Theme'' content_x (content_y + 60) 0x333333,
               Op_text (''Press '' @ [char_of (39 :: nat)] @ ''1'' @ [char_of (39 :: nat)] @ '' or '' @ [char_of (39 :: nat)] @ ''2'' @
                 [char_of (39 :: nat)] @ '' to preview logic'') content_x (content_y + 100) 0x888888]
         else if sel = 1
         then [Op_text ''System Information'' content_x content_y 0, Op_line content_x (content_y + 15) (w_x w + w_width w - 20) (content_y + 15) 0xCCCCCC,
               Op_text ''OS: Maya OS v1.0'' content_x (content_y + 30) 0x333333,
               Op_text ''UI: Fluent Design Update'' content_x (content_y + 50) 0x333333,
               Op_text ''Processor: Generic x86'' content_x (content_y + 70) 0x333333]
         else [])))"

text \<open>A key handler of a program with one window: nothing without a visible window, else the new state is drawn.\<close>

definition app_input :: "nat option \<Rightarrow> window_manager \<Rightarrow> 's \<Rightarrow> (window \<Rightarrow> 's \<Rightarrow> draw_cmd list \<times> draw_op list) \<Rightarrow> 's
    \<Rightarrow> fault + 's \<times> draw_cmd list \<times> draw_op list" where
  "app_input p wm s draw s1 = (case p of None \<Rightarrow> Inr (s, [], [])
     | Some q \<Rightarrow> (case wm_store wm q of None \<Rightarrow> Inl Dangling_pointer
         | Some w \<Rightarrow> if \<not> w_visible w then Inr (s, [], []) else Inr (s1, draw w s1)))"

definition control_panel_handle_input :: "window_manager \<Rightarrow> u32 \<Rightarrow> control_panel \<Rightarrow> fault + control_panel \<times> draw_cmd list \<times> draw_op list" where
  "control_panel_handle_input wm key s = app_input (cp_window s) wm s control_panel_draw_content (control_panel_key key s)"

definition control_panel_init :: "nat option \<Rightarrow> bool \<Rightarrow> window \<Rightarrow> control_panel \<times> window_manager
    \<Rightarrow> fault + (control_panel \<times> draw_cmd list \<times> draw_op list) \<times> window_manager" where
  "control_panel_init alloc buf fresh = (\<lambda>(s, wm).
     fault_bind (window_create alloc buf fresh (Some ''Settings - Control Panel'') 200 150 600 400 wm) (\<lambda>(wm1, p).
       if p = None then Inr ((s\<lparr>cp_window := p\<rparr>, [], []), wm1)
       else (let s1 = s\<lparr>cp_window := p, cp_tab := 0\<rparr> in fault_bind (app_input p wm1 s1 control_panel_draw_content s1) (\<lambda>r. Inr (r, wm1)))))"

definition control_panel_draw :: "(nat \<Rightarrow> window_manager \<times> gfx \<Rightarrow> (fault + window_manager \<times> gfx) option) \<Rightarrow> control_panel \<Rightarrow> window_manager \<times> gfx
    \<Rightarrow> (fault + window_manager \<times> gfx) option" where
  "control_panel_draw render s = app_draw render (cp_window s)"

text \<open>
  Exactly one of the two entries of the side bar is highlighted, and the page shown is the one of it: the
  tab stays 0 or 1 whatever is typed.
\<close>

theorem control_panel_one_page:
  assumes "cp_tab s \<in> {0, 1}"
  shows "cp_tab (fold control_panel_key ks s) \<in> {0, 1}"
  using assms by (induction ks arbitrary: s) (auto simp: control_panel_key_def)

theorem control_panel_one_page_witness:
  "cp_tab (fold control_panel_key [115, 120] \<lparr>cp_window = None, cp_tab = 0\<rparr>) \<in> {0, 1}"
  by (rule control_panel_one_page) simp

section \<open>The clock applet\<close>

record time_applet =
  ta_window :: "nat option"
  ta_hours :: int
  ta_mins :: int

definition time_applet_key :: "u32 \<Rightarrow> time_applet \<Rightarrow> time_applet" where
  "time_applet_key key s =
     (let s1 = (if key = 72 then s\<lparr>ta_hours := ta_hours s + 1\<rparr> else s);
          s2 = (if key = 104 then s1\<lparr>ta_hours := ta_hours s1 - 1\<rparr> else s1);
          s3 = (if key = 77 then s2\<lparr>ta_mins := ta_mins s2 + 1\<rparr> else s2)
      in if key = 109 then s3\<lparr>ta_mins := ta_mins s3 - 1\<rparr> else s3)"

text \<open>The remainder of C; \<open>fmt\<close> is \<^verbatim>\<open>sprintf\<close> with the format of the code.\<close>

definition shown_time :: "time_applet \<Rightarrow> int \<times> int" where
  "shown_time s = ((12 + ta_hours s) smod 24, (34 + ta_mins s) smod 60)"

definition time_applet_draw_content :: "(int \<times> int \<Rightarrow> string) \<Rightarrow> window \<Rightarrow> time_applet \<Rightarrow> draw_cmd list \<times> draw_op list" where
  "time_applet_draw_content fmt w s =
     (let x = w_x w + 20; y = w_y w + WINDOW_TITLE_HEIGHT + 20 in
      if \<not> w_visible w then ([], [])
      else (window_draw_rect w 0 0 (w_width w - 4) (w_height w - WINDOW_TITLE_HEIGHT - 4) 0xFFFFFF,
        [Op_text ''Date & Time Settings'' x y 0, Op_line x (y + 15) (w_x w + w_width w - 20) (y + 15) 0xCCCCCC,
         Op_text (fmt (shown_time s)) x (y + 40) WIN_BLUE_ACCENT, Op_text ''[H] +Hour   [h] -Hour'' x (y + 80) 0x333333,
         Op_text ''[M] +Min    [m] -Min'' x (y + 100) 0x333333, Op_rect (x + 180) (y + 30) 150 120 0xCCCCCC,
         Op_text ''Calendar View'' (x + 200) (y + 50) 0x888888]))"

definition time_applet_handle_input :: "(int \<times> int \<Rightarrow> string) \<Rightarrow> window_manager \<Rightarrow> u32 \<Rightarrow> time_applet
    \<Rightarrow> fault + time_applet \<times> draw_cmd list \<times> draw_op list" where
  "time_applet_handle_input fmt wm key s = app_input (ta_window s) wm s (time_applet_draw_content fmt) (time_applet_key key s)"

definition time_applet_init :: "(int \<times> int \<Rightarrow> string) \<Rightarrow> nat option \<Rightarrow> bool \<Rightarrow> window \<Rightarrow> time_applet \<times> window_manager
    \<Rightarrow> fault + (time_applet \<times> draw_cmd list \<times> draw_op list) \<times> window_manager" where
  "time_applet_init fmt alloc buf fresh = (\<lambda>(s, wm).
     fault_bind (window_create alloc buf fresh (Some ''Date and Time'') 300 200 400 250 wm) (\<lambda>(wm1, p).
       if p = None then Inr ((s\<lparr>ta_window := p\<rparr>, [], []), wm1)
       else (let s1 = s\<lparr>ta_window := p\<rparr> in fault_bind (app_input p wm1 s1 (time_applet_draw_content fmt) s1) (\<lambda>r. Inr (r, wm1)))))"

definition time_applet_draw :: "(nat \<Rightarrow> window_manager \<times> gfx \<Rightarrow> (fault + window_manager \<times> gfx) option) \<Rightarrow> time_applet \<Rightarrow> window_manager \<times> gfx
    \<Rightarrow> (fault + window_manager \<times> gfx) option" where
  "time_applet_draw render s = app_draw render (ta_window s)"

lemma time_applet_counts:
  "ta_hours (fold time_applet_key ks s) = ta_hours s + int (count_list ks 72) - int (count_list ks 104) \<and>
   ta_mins (fold time_applet_key ks s) = ta_mins s + int (count_list ks 77) - int (count_list ks 109)"
  by (induction ks arbitrary: s) (auto simp: time_applet_key_def Let_def)

text \<open>
  The time shown is that of the keys pressed, counted from 12:34, as long as neither sum falls below zero;
  then it is a time of day.
\<close>

theorem applet_time_follows_keys:
  assumes "s' = fold time_applet_key ks (s\<lparr>ta_hours := 0, ta_mins := 0\<rparr>)"
    and "h = 12 + int (count_list ks 72) - int (count_list ks 104)" "m = 34 + int (count_list ks 77) - int (count_list ks 109)" "0 \<le> h" "0 \<le> m"
  shows "shown_time s' = (h mod 24, m mod 60)"
proof -
  have "12 + ta_hours s' = h" "34 + ta_mins s' = m" using time_applet_counts [of ks "s\<lparr>ta_hours := 0, ta_mins := 0\<rparr>"] assms(1-3) by auto
  moreover have "h smod 24 = h mod 24" "m smod 60 = m mod 60"
    using assms(4,5) by (cases "h = 0"; cases "m = 0"; simp add: signed_modulo_int_def)+
  ultimately show ?thesis by (simp add: shown_time_def)
qed

theorem applet_time_follows_keys_witness:
  "shown_time (fold time_applet_key [72, 77, 77] (\<lparr>ta_window = None, ta_hours = 0, ta_mins = 0\<rparr>\<lparr>ta_hours := 0, ta_mins := 0\<rparr>)) = (13, 36)"
  using applet_time_follows_keys [OF refl refl refl, of "[72, 77, 77]" "\<lparr>ta_window = None, ta_hours = 0, ta_mins = 0\<rparr>"] by simp

text \<open>Thirty-five minutes back from 12:34 the applet shows minus one minute.\<close>

lemma negative_minutes: "shown_time (s\<lparr>ta_mins := -35\<rparr>) = ((12 + ta_hours s) smod 24, -1)"
  by (simp add: shown_time_def signed_modulo_int_def)

section \<open>The hardware manager\<close>

text \<open>
  \<open>bg\<close> and \<open>border\<close> are colours defined nowhere, \<open>bar\<close> is \<^verbatim>\<open>WINDOW_TITLEBAR_HEIGHT\<close>, defined nowhere either, as is
  \<^verbatim>\<open>window_set_draw_callback\<close>.
\<close>

definition hardware_manager_draw :: "u32 \<Rightarrow> u32 \<Rightarrow> int \<Rightarrow> window option \<Rightarrow> draw_op list" where
  "hardware_manager_draw bg border bar win = (case win of None \<Rightarrow> []
     | Some w \<Rightarrow>
         let x = w_x w + 20; y = w_y w + bar + 20; sp = 25;
             item = \<lambda>t cy. ([Op_text t (x + 10) (cy + sp) MAYA_TEXT_COLOR], cy + sp);
             head = \<lambda>t cy. ([Op_text t x (cy + sp + 10) WIN_BLUE_ACCENT], cy + sp + 10) in
         [Op_fill (w_x w) (w_y w + bar) (w_width w) (w_height w - bar) bg, Op_text ''Maya OS Hardware & Device Manager'' x y MAYA_TEXT_COLOR,
          Op_line x (y + 15) (w_x w + w_width w - 20) (y + 15) border] @
         fst (fold (\<lambda>f (ops, cy). let (o1, cy1) = f cy in (ops @ o1, cy1))
           [head ''Network Adapters:'', item ''- 802.11 WiFi Interface (Stub)'', item ''- RTL8139 Fast Ethernet'', item ''- Bluetooth HCI (Stub)'',
            head ''Display Adapters:'', item ''- Standard VGA Graphics Adapter'', item ''- High-Definition Multimedia Interface (HDMI)'',
            item ''- Advanced 3D GPU (Stubbed via Software)'', head ''Storage Controllers:'', item ''- AHCI SATA Controller'',
            item ''- ATA/ATAPI IDE Controller''] ([], y)))"

definition hardware_manager_init :: "nat option \<Rightarrow> bool \<Rightarrow> window \<Rightarrow> nat option \<times> window_manager \<Rightarrow> fault + nat option \<times> window_manager" where
  "hardware_manager_init alloc buf fresh = (\<lambda>(hw, wm). case hw of
      Some p \<Rightarrow> fault_bind (window_focus p wm) (\<lambda>wm1. Inr (hw, wm1))
    | None \<Rightarrow> fault_bind (window_create alloc buf fresh (Some ''Hardware Manager'') 150 100 450 400 wm) (\<lambda>(wm1, p).
        case p of None \<Rightarrow> Inr (None, wm1) | Some q \<Rightarrow> fault_bind (window_show q wm1) (\<lambda>wm2. Inr (p, wm2))))"

end
