(* ===== verification/Kernel_Main.thy ===== *)
theory Kernel_Main
  imports Input_Events Desktop_Shell
begin

text \<open>
  The kernel's entry (\<^verbatim>\<open>kernel/kernel.c\<close>): the initialisation of all parts in order, the panic that ends
  it, and the main loop that takes key events to the start menu. The results of the functions called are
  arguments; what is called and printed is recorded. \<^verbatim>\<open>debug_print\<close> is defined nowhere, and so are the
  variables \<^verbatim>\<open>mbi\<close> and \<^verbatim>\<open>initial_esp\<close>, whose assignments are left out; the
  \<^verbatim>\<open>vsnprintf\<close> behind the state report is a parameter. Shown here: initialisation stops at the first part that
  fails and only then, its memory check comes before the memory is counted and so always fails, and
  the main loop delivers the keys typed to the search field in order.
\<close>

section \<open>State\<close>

definition MIN_MEMORY_MB :: u32 where "MIN_MEMORY_MB = 64"
definition MAX_MEMORY_GB :: u32 where "MAX_MEMORY_GB = 4"
definition MULTIBOOT_MAGIC :: u32 where "MULTIBOOT_MAGIC = 0x2BADB002"

datatype boot_event = Debug string | Print string | Call string

record system_state =
  ss_interrupts :: bool
  ss_mmu :: bool
  ss_total_memory :: u32
  ss_free_memory :: u32
  ss_process_count :: u32
  ss_last_error :: string
  ss_events :: "boot_event list"
  ss_halted :: bool

definition note_event :: "boot_event \<Rightarrow> system_state \<Rightarrow> system_state" where
  "note_event e s = s\<lparr>ss_events := ss_events s @ [e]\<rparr>"

section \<open>Panic\<close>

text \<open>The arguments of the report; \<open>fmt\<close> formats them for a buffer of 256.\<close>

definition report :: "system_state \<Rightarrow> string \<times> string \<times> u32 \<times> u32 \<times> u32 \<times> string" where
  "report s =
     (if ss_interrupts s then ''Enabled'' else ''Disabled'', if ss_mmu s then ''Enabled'' else ''Disabled'',
      ss_total_memory s div (1024 * 1024), ss_free_memory s div (1024 * 1024), ss_process_count s, ss_last_error s)"

definition debug_print_state :: "(string \<times> string \<times> u32 \<times> u32 \<times> u32 \<times> string \<Rightarrow> string) \<Rightarrow> system_state \<Rightarrow> system_state" where
  "debug_print_state fmt s = note_event (Debug (fmt (report s))) s"

definition emergency_data_save :: "system_state \<Rightarrow> system_state" where
  "emergency_data_save s = note_event (Debug (''Emergency data save not implemented'' @ [char_of (10 :: nat)])) s"

definition nl :: string where "nl = [char_of (10 :: nat)]"

definition kernel_panic :: "(string \<times> string \<times> u32 \<times> u32 \<times> u32 \<times> string \<Rightarrow> string) \<Rightarrow> string \<Rightarrow> system_state \<Rightarrow> system_state" where
  "kernel_panic fmt m s =
     (let s1 = (note_event (Call ''cli'') s)\<lparr>ss_interrupts := False, ss_last_error := take 255 m\<rparr>;
          s2 = note_event (Debug (nl @ ''System State:'' @ nl)) (note_event (Debug m) (note_event (Debug (nl @ ''=== KERNEL PANIC ==='' @ nl)) s1));
          s3 = emergency_data_save (debug_print_state fmt s2);
          s4 = note_event (Print (''System halted.'' @ nl))
            (note_event (Print (nl @ nl @ ''KERNEL PANIC: '' @ m @ nl)) (note_event (Call ''vga_set_color'') s3))
      in s4\<lparr>ss_halted := True\<rparr>)"

section \<open>Initialisation\<close>

text \<open>
  The steps of \<^verbatim>\<open>kernel_main\<close>: a call, a text, and a check, which panics with its message if it fails.
\<close>

datatype boot_step = Do string | Say string | Log string | Check string bool string

fun run_step :: "(string \<times> string \<times> u32 \<times> u32 \<times> u32 \<times> string \<Rightarrow> string) \<Rightarrow> boot_step \<Rightarrow> system_state \<Rightarrow> system_state" where
  "run_step fmt (Do f) s = note_event (Call f) s"
| "run_step fmt (Say t) s = note_event (Print t) s"
| "run_step fmt (Log t) s = note_event (Debug t) s"
| "run_step fmt (Check f ok m) s = (let s1 = note_event (Call f) s in if ok then s1 else kernel_panic fmt m s1)"

text \<open>Nothing follows a panic.\<close>

fun run_steps :: "(string \<times> string \<times> u32 \<times> u32 \<times> u32 \<times> string \<Rightarrow> string) \<Rightarrow> boot_step list \<Rightarrow> system_state \<Rightarrow> system_state" where
  "run_steps fmt [] s = s"
| "run_steps fmt (p # ps) s = (let s1 = run_step fmt p s in if ss_halted s1 then s1 else run_steps fmt ps s1)"

record boot_results =
  ok_gdt :: bool
  ok_idt :: bool
  ok_pic :: bool
  ok_pmm :: bool
  ok_vmm :: bool
  ok_heap :: bool
  ok_timer :: bool
  ok_keyboard :: bool
  ok_ata :: bool
  ok_fat32 :: bool
  ok_process :: bool
  ok_graphics :: bool

text \<open>\<open>mem_total\<close> is what \<^verbatim>\<open>pmm_get_total_memory\<close> gives where it is called.\<close>

definition boot_steps :: "u32 \<Rightarrow> u32 \<Rightarrow> boot_results \<Rightarrow> boot_step list" where
  "boot_steps magic mem_total r =
     [Do ''vga_init'', Do ''vga_clear'', Do ''serial_init'', Log (''Maya OS - Starting kernel initialization...'' @ nl),
      Check ''magic'' (magic = MULTIBOOT_MAGIC) ''Invalid multiboot magic number'',
      Say (''Maya OS v1.0.0 - x86 Operating System'' @ nl), Say (''Build date: 2025-08-29'' @ nl), Say (''Copyright (c) 2025 Maya OS Project'' @ nl @ nl),
      Check ''pmm_get_total_memory'' (\<not> mem_total div (1024 * 1024) < MIN_MEMORY_MB) ''Insufficient system memory'',
      Check ''pmm_get_total_memory'' (\<not> mem_total div (1024 * 1024) > MAX_MEMORY_GB * 1024) ''Memory size exceeds maximum supported'',
      Check ''gdt_install'' (ok_gdt r) ''Failed to initialize GDT'', Say (''GDT initialized.'' @ nl),
      Check ''idt_install'' (ok_idt r) ''Failed to initialize IDT'', Check ''pic_init'' (ok_pic r) ''Failed to initialize PIC'',
      Say (''IDT and PIC initialized.'' @ nl),
      Check ''pmm_init'' (ok_pmm r) ''Failed to initialize physical memory manager'',
      Check ''vmm_init'' (ok_vmm r) ''Failed to initialize virtual memory manager'',
      Check ''heap_init'' (ok_heap r) ''Failed to initialize kernel heap'', Say (''Memory management initialized.'' @ nl),
      Check ''timer_init'' (ok_timer r) ''Failed to initialize system timer'', Check ''keyboard_init'' (ok_keyboard r) ''Failed to initialize keyboard'',
      Check ''ata_init'' (ok_ata r) ''Failed to initialize ATA controller'', Check ''fat32_init'' (ok_fat32 r) ''Failed to initialize filesystem'',
      Check ''process_init'' (ok_process r) ''Failed to initialize process manager'', Say (''Initializing GUI system...'' @ nl),
      Check ''graphics_init'' (ok_graphics r) ''Failed to initialize graphics system'', Do ''maya_input_init'', Do ''sti'',
      Say (nl @ ''Maya OS initialization complete!'' @ nl), Say (''System ready. Type '' @ [char_of (39 :: nat)] @ ''help'' @ [char_of (39 :: nat)] @ '' for available commands.'' @ nl @ nl)]"

definition zero_system :: system_state where
  "zero_system = \<lparr>ss_interrupts = False, ss_mmu = False, ss_total_memory = 0, ss_free_memory = 0, ss_process_count = 0, ss_last_error = [],
     ss_events = [], ss_halted = False\<rparr>"

text \<open>Interrupts are enabled when nothing failed, before the last two texts, which do not depend on it.\<close>

definition kernel_main :: "(string \<times> string \<times> u32 \<times> u32 \<times> u32 \<times> string \<Rightarrow> string) \<Rightarrow> u32 \<Rightarrow> u32 \<Rightarrow> boot_results \<Rightarrow> system_state" where
  "kernel_main fmt magic mem_total r =
     (let s = run_steps fmt (boot_steps magic mem_total r) zero_system in if ss_halted s then s else s\<lparr>ss_interrupts := True\<rparr>)"

text \<open>One turn of the main loop.\<close>

definition main_loop_step :: "input_manager \<times> desktop \<Rightarrow> input_manager \<times> desktop" where
  "main_loop_step = (\<lambda>(im, d).
     if \<not> maya_input_has_events im then (im, d)
     else let (im1, e) = maya_input_get_event im in
       (im1, if ev_type e = INPUT_KEY_PRESS
             then (case ev_data e of Key_data ascii sc m \<Rightarrow> desktop_handle_start_menu_input (char_of (unat ascii)) d | _ \<Rightarrow> d) else d))"

section \<open>Booting\<close>

fun failed_checks :: "boot_step list \<Rightarrow> string list" where
  "failed_checks [] = []"
| "failed_checks (Check f ok m # ps) = (if ok then failed_checks ps else m # failed_checks ps)"
| "failed_checks (p # ps) = failed_checks ps"

lemma panic_state: "ss_halted (kernel_panic fmt m s)" "ss_last_error (kernel_panic fmt m s) = take 255 m" "\<not> ss_interrupts (kernel_panic fmt m s)"
  by (simp_all add: kernel_panic_def note_event_def debug_print_state_def emergency_data_save_def Let_def)

lemma run_steps_outcome:
  assumes "\<not> ss_halted s" "\<not> ss_interrupts s"
  shows "ss_halted (run_steps fmt ps s) = (failed_checks ps \<noteq> []) \<and> \<not> ss_interrupts (run_steps fmt ps s) \<and>
    (failed_checks ps \<noteq> [] \<longrightarrow> ss_last_error (run_steps fmt ps s) = take 255 (hd (failed_checks ps)))"
  using assms
proof (induction ps arbitrary: s)
  case (Cons p ps)
  show ?case
  proof (cases p)
    case (Check f ok m)
    then show ?thesis using Cons panic_state [of fmt m "note_event (Call f) s"] by (cases ok) (auto simp: Let_def note_event_def)
  qed (use Cons in \<open>auto simp: Let_def note_event_def\<close>)
qed simp

lemma kernel_main_outcome:
  "let fs = failed_checks (boot_steps magic mem_total r); s = kernel_main fmt magic mem_total r in
   (if fs = [] then \<not> ss_halted s \<and> ss_interrupts s else ss_halted s \<and> \<not> ss_interrupts s \<and> ss_last_error s = take 255 (hd fs))"
  using run_steps_outcome [of zero_system fmt "boot_steps magic mem_total r"]
  by (auto simp: kernel_main_def zero_system_def Let_def)


text \<open>
  The memory is counted by \<^verbatim>\<open>pmm_init\<close>, seven checks later: the count is still its initial zero, and the kernel
  never gets beyond the check.
\<close>

theorem boot_always_panics:
  assumes "magic = MULTIBOOT_MAGIC"
  shows "ss_halted (kernel_main fmt magic 0 r) \<and> ss_last_error (kernel_main fmt magic 0 r) = ''Insufficient system memory''"
proof -
  have "\<exists>fs. failed_checks (boot_steps magic 0 r) = ''Insufficient system memory'' # fs"
    using assms by (simp add: boot_steps_def MIN_MEMORY_MB_def)
  then show ?thesis using kernel_main_outcome [of magic 0 r fmt] by (auto simp: Let_def)
qed

theorem boot_always_panics_witness:
  "ss_halted (kernel_main (\<lambda>_. []) MULTIBOOT_MAGIC 0 \<lparr>ok_gdt = True, ok_idt = True, ok_pic = True, ok_pmm = True, ok_vmm = True, ok_heap = True,
     ok_timer = True, ok_keyboard = True, ok_ata = True, ok_fat32 = True, ok_process = True, ok_graphics = True\<rparr>)"
  using boot_always_panics [OF refl] by blast

text \<open>The check for too much memory can never fail: 32 bits count less than 4096 megabytes.\<close>

lemma memory_never_too_large: "\<not> (mem_total :: u32) div (1024 * 1024) > MAX_MEMORY_GB * 1024"
proof -
  have "unat mem_total < 2 ^ LENGTH(32)" by (rule unsigned_less)
  then have "unat (mem_total div (1024 * 1024)) \<le> 4095" by (simp add: unat_div_distrib)
  then show ?thesis by (simp add: MAX_MEMORY_GB_def word_less_nat_alt)
qed

section \<open>The main loop\<close>

text \<open>The characters of the key presses among the events, in order.\<close>

definition typed_chars :: "input_event list \<Rightarrow> string" where
  "typed_chars es = concat (map (\<lambda>e. if ev_type e = INPUT_KEY_PRESS then (case ev_data e of Key_data a sc m \<Rightarrow> [char_of (unat a)] | _ \<Rightarrow> []) else []) es)"

lemma main_loop_drains:
  assumes "input_inv im" "n = queue_count im"
  shows "\<exists>im'. (main_loop_step ^^ n) (im, d) = (im', fold desktop_handle_start_menu_input (typed_chars (input_contents im)) d) \<and> queue_count im' = 0"
  using assms
proof (induction n arbitrary: im d)
  case 0
  then show ?case by (simp add: input_contents_def typed_chars_def)
next
  case (Suc n)
  obtain im1 e where g: "maya_input_get_event im = (im1, e)" by (cases "maya_input_get_event im")
  have law: "input_inv im1" "input_contents im = e # input_contents im1" using get_event_law [OF Suc.prems(1) Suc.prems(2) [symmetric]] g by simp_all
  have n: "n = queue_count im1" using g Suc.prems(2) by (auto simp: maya_input_get_event_def split: if_splits)
  define d1 where "d1 = fold desktop_handle_start_menu_input (typed_chars [e]) d"
  have "main_loop_step (im, d) = (im1, d1)"
    using g Suc.prems(2) by (auto simp: main_loop_step_def maya_input_has_events_def d1_def typed_chars_def split: event_data.splits)
  moreover obtain im' where "(main_loop_step ^^ n) (im1, d1) = (im', fold desktop_handle_start_menu_input (typed_chars (input_contents im1)) d1)"
    "queue_count im' = 0" using Suc.IH [OF law(1) n] by blast
  moreover have "typed_chars (input_contents im) = typed_chars [e] @ typed_chars (input_contents im1)" by (simp add: law(2) typed_chars_def)
  ultimately show ?case by (simp add: funpow_swap1 d1_def)
qed

text \<open>
  C22. As many turns of the main loop as there are events empty the queue and have handed the characters of all
  key presses in it to the start menu, in the order in which they were queued.
\<close>

theorem main_loop_delivers_keys:
  assumes "input_inv im"
  shows "\<exists>im'. (main_loop_step ^^ queue_count im) (im, d) = (im', fold desktop_handle_start_menu_input (typed_chars (input_contents im)) d) \<and>
    \<not> maya_input_has_events im'"
  using main_loop_drains [OF assms refl, of d] by (auto simp: maya_input_has_events_def)

theorem main_loop_delivers_keys_witness:
  "\<exists>im'. (main_loop_step ^^ 1) (push_event \<lparr>ev_type = INPUT_KEY_PRESS, ev_data = Key_data 110 0 0, ev_timestamp = 0\<rparr> demo_input, open_menu) =
     (im', desktop_handle_start_menu_input (char_of (110 :: nat)) open_menu)"
proof -
  let ?e = "\<lparr>ev_type = INPUT_KEY_PRESS, ev_data = Key_data 110 0 0, ev_timestamp = 0\<rparr>"
  have room: "queue_count demo_input < INPUT_QUEUE_SIZE" using demo_input_ok by (simp add: INPUT_QUEUE_SIZE_def)
  note law = push_event_law [OF demo_input_ok(1) room, of ?e]
  have "input_contents demo_input = []" using demo_input_ok(2) by (simp add: input_contents_def)
  then have "typed_chars (input_contents (push_event ?e demo_input)) = [char_of (110 :: nat)]" using law by (simp add: typed_chars_def)
  moreover have "queue_count (push_event ?e demo_input) = 1" using demo_input_ok(2) by (simp add: push_event_def)
  moreover have "input_inv (push_event ?e demo_input)" using law by blast
  note main_loop_delivers_keys [OF this, of open_menu]
  ultimately show ?thesis by auto
qed

end
