(* ===== verification/Power_Update.thy ===== *)
theory Power_Update
  imports Kernel_Log
begin

text \<open>
  Power management (\<^verbatim>\<open>kernel/power.c\<close>) and the update system (\<^verbatim>\<open>kernel/update.c\<close>). Writes to ports and
  the console are recorded; what the keyboard controller's status port reads is a stream. Shown here: the
  port writes of a shutdown and a reboot and when a reboot gets to them, that the state reported is
  the one requested last, so that a machine that woke up again still reports sleep, and that no sequence of
  calls ever finds or applies an update.
\<close>

section \<open>Power\<close>

datatype power_state = POWER_STATE_S0 | POWER_STATE_S1 | POWER_STATE_S3 | POWER_STATE_S4 | POWER_STATE_S5

datatype power_write = Outw u16 u16 | Outb u16 u8

definition ACPI_PM1A_CNT_PORT :: u16 where "ACPI_PM1A_CNT_PORT = 0x0604"
definition ACPI_SHUTDOWN_VAL :: u16 where "ACPI_SHUTDOWN_VAL = 0x2000"
definition APM_PORT_CTRL :: u16 where "APM_PORT_CTRL = 0xB002"
definition APM_SHUTDOWN_VAL :: u16 where "APM_SHUTDOWN_VAL = 0"

text \<open>
  \<open>pw_cli\<close>: interrupts were disabled; \<open>pw_halted\<close>: the processor halts and never goes on; \<open>pw_naps\<close>: how many
  times it halted until the next interrupt.
\<close>

record power = klog_state +
  pw_state :: power_state
  pw_initialized :: bool
  pw_ports :: "power_write list"
  pw_console :: string
  pw_cli :: bool
  pw_halted :: bool
  pw_naps :: nat

definition print :: "string \<Rightarrow> power \<Rightarrow> power" where
  "print t s = s\<lparr>pw_console := pw_console s @ CHR 0x0A # t @ [CHR 0x0A]\<rparr>"

definition out :: "power_write \<Rightarrow> power \<Rightarrow> power" where
  "out w s = s\<lparr>pw_ports := pw_ports s @ [w]\<rparr>"

definition outw :: "u16 \<Rightarrow> u16 \<Rightarrow> power \<Rightarrow> power" where
  "outw port v = out (Outw port v)"

definition power_init :: "formatter \<Rightarrow> power \<Rightarrow> power \<times> bool" where
  "power_init vsnprintf s =
     (if pw_initialized s then (s, True)
      else (klog vsnprintf KLOG_INFO ''Power management subsystem initialized (state=S0)'' [] (s\<lparr>pw_state := POWER_STATE_S0, pw_initialized := True\<rparr>), True))"

definition power_shutdown :: "formatter \<Rightarrow> power \<Rightarrow> power" where
  "power_shutdown vsnprintf s =
     (let s1 = (print ''Maya OS: Shutting down...'' (klog vsnprintf KLOG_INFO ''System shutdown requested'' [] s))\<lparr>pw_state := POWER_STATE_S5\<rparr>;
          s2 = outw APM_PORT_CTRL APM_SHUTDOWN_VAL (outw ACPI_PM1A_CNT_PORT ACPI_SHUTDOWN_VAL s1)
      in s2\<lparr>pw_cli := True, pw_halted := True\<rparr>)"

text \<open>The loop waits while the input buffer of the keyboard controller is full; it may never end.\<close>

definition power_reboot :: "formatter \<Rightarrow> (nat \<Rightarrow> u8) \<Rightarrow> power \<Rightarrow> power option" where
  "power_reboot vsnprintf inb s =
     (let s1 = (print ''Maya OS: Rebooting...'' (klog vsnprintf KLOG_INFO ''System reboot requested'' [] s))\<lparr>pw_state := POWER_STATE_S0\<rparr>
      in map_option (\<lambda>_. (out (Outb 0xCF9 0x06) (out (Outb 0x64 0xFE) s1))\<lparr>pw_halted := True\<rparr>) (wait_port (\<lambda>good. good AND 0x02 = 0) inb 0))"

definition power_sleep :: "formatter \<Rightarrow> power \<Rightarrow> power" where
  "power_sleep vsnprintf s =
     (let s1 = (print ''Maya OS: Entering sleep mode...'' (klog vsnprintf KLOG_INFO ''System sleep (S3) requested'' [] s))\<lparr>pw_state := POWER_STATE_S3\<rparr>
      in s1\<lparr>pw_naps := pw_naps s1 + 1\<rparr>)"

definition power_hibernate :: "formatter \<Rightarrow> power \<Rightarrow> power" where
  "power_hibernate vsnprintf s =
     (let s1 = (print ''Maya OS: Entering hibernate mode...'' (klog vsnprintf KLOG_INFO ''System hibernate (S4) requested'' [] s))\<lparr>pw_state := POWER_STATE_S4\<rparr>
      in s1\<lparr>pw_naps := pw_naps s1 + 1\<rparr>)"

definition power_get_state :: "power \<Rightarrow> power_state" where
  "power_get_state s = pw_state s"

text \<open>Logging and printing touch nothing else.\<close>

lemma ring_puts_power [simp]:
  "pw_state (ring_puts s cs) = pw_state s" "pw_initialized (ring_puts s cs) = pw_initialized s" "pw_ports (ring_puts s cs) = pw_ports s"
  "pw_halted (ring_puts s cs) = pw_halted s" "pw_naps (ring_puts s cs) = pw_naps s" "pw_cli (ring_puts s cs) = pw_cli s"
  by (induction s cs rule: ring_puts.induct) (simp_all add: ring_puts_frame_defs)

lemma klog_power [simp]:
  "pw_state (klog vs l f a s) = pw_state s" "pw_initialized (klog vs l f a s) = pw_initialized s" "pw_ports (klog vs l f a s) = pw_ports s"
  "pw_halted (klog vs l f a s) = pw_halted s" "pw_naps (klog vs l f a s) = pw_naps s" "pw_cli (klog vs l f a s) = pw_cli s"
  by (simp_all add: klog_def Let_def)

lemmas power_defs = power_init_def power_shutdown_def power_reboot_def power_sleep_def power_hibernate_def print_def out_def outw_def Let_def

text \<open>A busy loop that ends has seen what it waits for.\<close>

lemma wait_port_saw:
  assumes "wait_port ready inb k = Some k'"
  shows "\<exists>n \<ge> k. ready (inb n)"
proof (rule wait_port.raw_induct [OF _ assms, where P = "\<lambda>ready inb k k'. \<exists>n \<ge> k. ready (inb n)"])
  fix f :: "(u8 \<Rightarrow> bool) \<Rightarrow> (nat \<Rightarrow> u8) \<Rightarrow> nat \<Rightarrow> nat option" and ready inb k k'
  assume IH: "\<And>ready inb k k'. f ready inb k = Some k' \<Longrightarrow> \<exists>n \<ge> k. ready (inb n)"
    and eq: "(if ready (inb k) then Some (Suc k) else f ready inb (Suc k)) = Some k'"
  show "\<exists>n \<ge> k. ready (inb n)"
  proof (cases "ready (inb k)")
    case False
    then have "\<exists>n \<ge> Suc k. ready (inb n)" using eq by (intro IH [of ready inb "Suc k" k']) simp
    then show ?thesis by (auto dest: Suc_leD)
  qed auto
qed

text \<open>
  A reboot pulses the reset line of the keyboard controller and then writes the reset register, in this order
  and nothing else, exactly if the controller's input buffer becomes empty; otherwise it never ends.
\<close>

theorem reboot_writes:
  "(case power_reboot vsnprintf inb s of
      None \<Rightarrow> \<forall>n. inb n AND 2 \<noteq> 0
    | Some s' \<Rightarrow> (\<exists>n. inb n AND 2 = 0) \<and> pw_ports s' = pw_ports s @ [Outb 0x64 0xFE, Outb 0xCF9 0x06] \<and> pw_halted s')"
proof (cases "\<exists>n. inb n AND 2 = 0")
  case True
  then obtain k' where "wait_port (\<lambda>good. good AND 0x02 = 0) inb 0 = Some k'"
    using wait_port_returns [of 0 "\<lambda>good. good AND 0x02 = 0" inb] by auto
  then show ?thesis using True by (simp add: power_defs)
next
  case False
  then have "wait_port (\<lambda>good. good AND 0x02 = 0) inb 0 = None"
    using wait_port_saw [of "\<lambda>good. good AND 0x02 = 0" inb 0] by (cases "wait_port (\<lambda>good. good AND 0x02 = 0) inb 0") auto
  then show ?thesis using False by (simp add: power_defs)
qed

section \<open>The state reported\<close>

datatype power_call = Init | Shutdown | Reboot | Sleep | Hibernate

fun power_request :: "formatter \<Rightarrow> (nat \<Rightarrow> u8) \<Rightarrow> power_call \<Rightarrow> power \<Rightarrow> power option" where
  "power_request vs inb Init s = Some (fst (power_init vs s))"
| "power_request vs inb Shutdown s = Some (power_shutdown vs s)"
| "power_request vs inb Reboot s = power_reboot vs inb s"
| "power_request vs inb Sleep s = Some (power_sleep vs s)"
| "power_request vs inb Hibernate s = Some (power_hibernate vs s)"

text \<open>The processor executes nothing after it halted for ever.\<close>

fun run_power :: "formatter \<Rightarrow> (nat \<Rightarrow> u8) \<Rightarrow> power_call list \<Rightarrow> power \<Rightarrow> power option" where
  "run_power vs inb [] s = Some s"
| "run_power vs inb (c # cs) s = (if pw_halted s then Some s else Option.bind (power_request vs inb c s) (run_power vs inb cs))"

text \<open>
  After any sleep, whatever interrupt ended it, and any further initialisation, the state reported is
  sleep and no port was written: the machine that goes on running is never in the running state again.
\<close>

theorem sleep_is_reported_forever:
  assumes "pw_initialized s" "\<not> pw_halted s" "set cs \<subseteq> {Init, Sleep}"
  shows "\<exists>s'. run_power vs inb (Sleep # cs) s = Some s' \<and> power_get_state s' = POWER_STATE_S3 \<and> \<not> pw_halted s' \<and> pw_ports s' = pw_ports s"
proof -
  have "\<exists>s'. run_power vs inb cs t = Some s' \<and> pw_state s' = POWER_STATE_S3 \<and> \<not> pw_halted s' \<and> pw_ports s' = pw_ports t"
    if "pw_initialized t" "\<not> pw_halted t" "pw_state t = POWER_STATE_S3" for t
    using assms(3) that
  proof (induction cs arbitrary: t)
    case (Cons c cs)
    have "\<exists>t'. power_request vs inb c t = Some t' \<and> pw_initialized t' \<and> \<not> pw_halted t' \<and> pw_state t' = POWER_STATE_S3 \<and> pw_ports t' = pw_ports t"
      using Cons.prems by (auto simp: power_defs)
    then obtain t' where t': "power_request vs inb c t = Some t'" "pw_initialized t'" "\<not> pw_halted t'" "pw_state t' = POWER_STATE_S3" "pw_ports t' = pw_ports t"
      by blast
    then show ?case using Cons.IH [OF _ t'(2-4)] Cons.prems by simp
  qed simp
  from this [of "power_sleep vs s"] show ?thesis using assms(1,2) by (simp add: power_get_state_def power_defs)
qed

definition running_machine :: power where
  "running_machine = \<lparr>ring_buf = [], ring_head = 0, ring_tail = 0, ring_count = 0, log_initialized = False, serial_out = [],
     pw_state = POWER_STATE_S0, pw_initialized = True, pw_ports = [], pw_console = [], pw_cli = False, pw_halted = False, pw_naps = 0\<rparr>"

theorem sleep_is_reported_forever_witness:
  "\<exists>s'. run_power (\<lambda>_ f _. f) (\<lambda>_. 0) [Sleep, Init] running_machine = Some s' \<and> power_get_state s' = POWER_STATE_S3 \<and> \<not> pw_halted s' \<and> pw_ports s' = []"
  using sleep_is_reported_forever [of running_machine "[Init]" "\<lambda>_ f _. f" "\<lambda>_. 0"] by (simp add: running_machine_def)

text \<open>A shutdown writes both ports and never goes on.\<close>

lemma shutdown_writes:
  "pw_ports (power_shutdown vs s) = pw_ports s @ [Outw 0x0604 0x2000, Outw 0xB002 0]"
  "run_power vs inb cs (power_shutdown vs s) = Some (power_shutdown vs s)"
  by (simp add: power_defs ACPI_PM1A_CNT_PORT_def ACPI_SHUTDOWN_VAL_def APM_PORT_CTRL_def APM_SHUTDOWN_VAL_def)
     (cases cs; simp add: power_defs)

section \<open>Updates\<close>

datatype update_status = UPDATE_STATUS_IDLE | UPDATE_STATUS_CHECKING | UPDATE_STATUS_AVAILABLE | UPDATE_STATUS_DOWNLOADING
  | UPDATE_STATUS_APPLYING | UPDATE_STATUS_SUCCESS | UPDATE_STATUS_ERROR

record update_version =
  v_major :: u8
  v_minor :: u8
  v_patch :: u8

definition MAYA_VERSION :: update_version where
  "MAYA_VERSION = \<lparr>v_major = 1, v_minor = 0, v_patch = 0\<rparr>"

record update_state = klog_state +
  up_status :: update_status
  up_current :: update_version
  up_remote :: update_version
  up_init_done :: bool

definition version_args :: "update_version \<Rightarrow> fmt_arg list" where
  "version_args v = [Num (ucast (v_major v)), Num (ucast (v_minor v)), Num (ucast (v_patch v))]"

definition update_init :: "formatter \<Rightarrow> update_state \<Rightarrow> update_state \<times> bool" where
  "update_init vsnprintf s =
     (if up_init_done s then (s, True)
      else (klog vsnprintf KLOG_INFO ''Update subsystem initialized (current=%u.%u.%u)'' (version_args MAYA_VERSION)
        (s\<lparr>up_status := UPDATE_STATUS_IDLE, up_current := MAYA_VERSION, up_remote := \<lparr>v_major = 0, v_minor = 0, v_patch = 0\<rparr>, up_init_done := True\<rparr>), True))"

definition update_get_status :: "update_state \<Rightarrow> update_status" where "update_get_status s = up_status s"

definition update_check :: "formatter \<Rightarrow> update_state \<Rightarrow> update_state \<times> bool" where
  "update_check vsnprintf s =
     (if \<not> up_init_done s then (s, False)
      else let s1 = (klog vsnprintf KLOG_INFO ''Checking for updates...'' [] s)\<lparr>up_status := UPDATE_STATUS_CHECKING\<rparr>;
               s2 = s1\<lparr>up_remote := up_current s1, up_status := UPDATE_STATUS_IDLE\<rparr>
        in (klog vsnprintf KLOG_INFO (''Update check complete '' @ [CHR 0xE2, CHR 0x80, CHR 0x93] @ '' system is up to date (%u.%u.%u)'') (version_args (up_current s2)) s2, True))"

definition update_apply :: "formatter \<Rightarrow> update_state \<Rightarrow> update_state \<times> bool" where
  "update_apply vsnprintf s =
     (if \<not> up_init_done s then (s, False)
      else if up_status s \<noteq> UPDATE_STATUS_AVAILABLE then (klog vsnprintf KLOG_WARN ''update_apply() called but no update is available'' [] s, False)
      else let s1 = (klog vsnprintf KLOG_INFO ''Applying update %u.%u.%u -> %u.%u.%u ...'' (version_args (up_current s) @ version_args (up_remote s)) s)
                 \<lparr>up_status := UPDATE_STATUS_APPLYING\<rparr>;
               s2 = s1\<lparr>up_current := up_remote s1, up_status := UPDATE_STATUS_SUCCESS\<rparr>
        in (klog vsnprintf KLOG_INFO ''Update applied successfully'' [] s2, True))"

definition update_get_current_version :: "update_state \<Rightarrow> update_version" where "update_get_current_version s = up_current s"
definition update_get_remote_version :: "update_state \<Rightarrow> update_version" where "update_get_remote_version s = up_remote s"

lemma ring_puts_update [simp]:
  "up_status (ring_puts s cs) = up_status s" "up_current (ring_puts s cs) = up_current s"
  "up_remote (ring_puts s cs) = up_remote s" "up_init_done (ring_puts s cs) = up_init_done s"
  by (induction s cs rule: ring_puts.induct) (simp_all add: ring_puts_frame_defs)

lemma klog_update [simp]:
  "up_status (klog vs l f a s) = up_status s" "up_current (klog vs l f a s) = up_current s"
  "up_remote (klog vs l f a s) = up_remote s" "up_init_done (klog vs l f a s) = up_init_done s"
  by (simp_all add: klog_def Let_def)

lemmas update_defs = update_init_def update_check_def update_apply_def Let_def

text \<open>What one call of the three operations does to the state.\<close>

inductive update_step :: "formatter \<Rightarrow> update_state \<Rightarrow> update_state \<Rightarrow> bool" for vs where
  step_init: "update_step vs s (fst (update_init vs s))"
| step_check: "update_step vs s (fst (update_check vs s))"
| step_apply: "update_step vs s (fst (update_apply vs s))"

inductive_cases update_stepE: "update_step vs s t"

definition no_update_inv :: "update_state \<Rightarrow> bool" where
  "no_update_inv s \<longleftrightarrow> up_status s = UPDATE_STATUS_IDLE \<and> up_current s = MAYA_VERSION \<and>
     up_remote s \<in> {MAYA_VERSION, \<lparr>v_major = 0, v_minor = 0, v_patch = 0\<rparr>}"

lemma update_step_inv: "update_step vs s t \<Longrightarrow> no_update_inv s \<Longrightarrow> no_update_inv t"
  by (erule update_stepE) (auto simp: no_update_inv_def update_defs)

text \<open>
  From the initial values of the variables no sequence of calls ever has an update to apply: the
  status is always idle, the version never changes and \<^verbatim>\<open>update_apply\<close> always fails.
\<close>

theorem update_never_applies:
  assumes "(update_step vs)\<^sup>*\<^sup>* s t" "no_update_inv s"
  shows "update_get_status t = UPDATE_STATUS_IDLE \<and> update_get_current_version t = MAYA_VERSION \<and> \<not> snd (update_apply vs t)"
proof -
  have "no_update_inv t" using assms by (induction rule: rtranclp_induct) (auto intro: update_step_inv)
  then show ?thesis by (auto simp: no_update_inv_def update_get_status_def update_get_current_version_def update_defs)
qed

definition update_boot :: update_state where
  "update_boot = \<lparr>ring_buf = [], ring_head = 0, ring_tail = 0, ring_count = 0, log_initialized = False, serial_out = [],
     up_status = UPDATE_STATUS_IDLE, up_current = MAYA_VERSION, up_remote = \<lparr>v_major = 0, v_minor = 0, v_patch = 0\<rparr>, up_init_done = False\<rparr>"

theorem update_never_applies_witness:
  "update_get_status (fst (update_check (\<lambda>_ f _. f) (fst (update_init (\<lambda>_ f _. f) update_boot)))) = UPDATE_STATUS_IDLE"
proof -
  have "(update_step (\<lambda>_ f _. f))\<^sup>*\<^sup>* update_boot (fst (update_check (\<lambda>_ f _. f) (fst (update_init (\<lambda>_ f _. f) update_boot))))"
    by (rule rtranclp.rtrancl_into_rtrancl [OF r_into_rtranclp]) (rule update_step.intros)+
  from update_never_applies [OF this] show ?thesis by (simp add: no_update_inv_def update_boot_def)
qed

end
