(* ===== verification/Crash_Handler.thy ===== *)
theory Crash_Handler
  imports Kernel_Log
begin

text \<open>
  The crash handler (\<^verbatim>\<open>kernel/crash_handler.c\<close>): four fault handlers, the register report, the stack
  dump, and the log at the end. \<^verbatim>\<open>serial_write_string\<close> and \<^verbatim>\<open>interrupt_register_handler\<close> are defined nowhere: what they
  are called with is recorded. \<^verbatim>\<open>snprintf\<close> is the formatter of the kernel log; the memory is an
  argument, where a word that cannot be read faults. Shown here: which words of the stack are written
  out and that no other is read, that every crash halts with interrupts off after the complete log went to
  the serial port, and which registers never fit into the report.
\<close>

section \<open>State and operations\<close>

text \<open>The fields of \<^verbatim>\<open>struct registers\<close> that the handlers use.\<close>

record regs =
  r_eax :: u32
  r_ebx :: u32
  r_ecx :: u32
  r_edx :: u32
  r_esi :: u32
  r_edi :: u32
  r_ebp :: u32
  r_esp :: u32
  r_eip :: u32
  r_eflags :: u32
  r_cs :: u32
  r_ds :: u32
  r_err_code :: u32

datatype fault_handler = Divide_by_zero | General_protection | Page_fault | Double_fault

text \<open>
  \<open>cr_sent\<close>: the strings given to \<^verbatim>\<open>serial_write_string\<close>; \<open>cr_console\<close>: what is printed, after the colour was set to
  white on red if \<open>cr_red\<close>.
\<close>

record crash = klog_state +
  cr_handlers :: "(u8 \<times> fault_handler) list"
  cr_sent :: "string list"
  cr_console :: string
  cr_red :: bool
  cr_cli :: bool
  cr_halted :: bool

type_synonym memory = "u32 \<Rightarrow> u32 option"

definition crlf :: string where "crlf = [CHR 0x0D, CHR 0x0A]"
definition lf :: string where "lf = [CHR 0x0A]"

definition serial_write_string :: "string \<Rightarrow> crash \<Rightarrow> crash" where
  "serial_write_string t s = s\<lparr>cr_sent := cr_sent s @ [t]\<rparr>"

definition regs_format :: string where
  "regs_format = ''EAX=%08x EBX=%08x ECX=%08x EDX=%08x'' @ crlf @ ''ESI=%08x EDI=%08x EBP=%08x ESP=%08x'' @ crlf @
     ''EIP=%08x EFLAGS=%08x CS=%04x DS=%04x'' @ crlf"

definition regs_line :: "formatter \<Rightarrow> regs \<Rightarrow> string" where
  "regs_line vsnprintf r = vsnprintf 128 regs_format
     (map Num [r_eax r, r_ebx r, r_ecx r, r_edx r, r_esi r, r_edi r, r_ebp r, r_esp r, r_eip r, r_eflags r, r_cs r, r_ds r])"

definition dump_regs :: "formatter \<Rightarrow> regs \<Rightarrow> crash \<Rightarrow> crash" where
  "dump_regs vsnprintf r s =
     (let line = regs_line vsnprintf r in serial_write_string line (klog vsnprintf KLOG_ERROR ''%s'' [Str line] s))"

text \<open>The loop from frame \<open>i\<close> on, \<open>n\<close> frames to go.\<close>

definition STACK_LIMIT :: u32 where "STACK_LIMIT = 0xC0000000"

definition frame_line :: "formatter \<Rightarrow> nat \<Rightarrow> u32 \<Rightarrow> string" where
  "frame_line vsnprintf i w = vsnprintf 64 (''  [%02u] %08x'' @ crlf) [Num (of_nat i), Num w]"

fun dump_frames :: "formatter \<Rightarrow> memory \<Rightarrow> u32 \<Rightarrow> nat \<Rightarrow> nat \<Rightarrow> crash \<Rightarrow> fault + crash" where
  "dump_frames vs mem esp i 0 s = Inr s"
| "dump_frames vs mem esp i (Suc n) s =
     (if esp + 4 * of_nat i \<ge> STACK_LIMIT then Inr s
      else (case mem (esp + 4 * of_nat i) of None \<Rightarrow> Inl Dangling_pointer
        | Some w \<Rightarrow> dump_frames vs mem esp (i + 1) n (serial_write_string (frame_line vs i w) s)))"

definition crash_dump_stack :: "formatter \<Rightarrow> memory \<Rightarrow> u32 \<Rightarrow> nat \<Rightarrow> crash \<Rightarrow> fault + crash" where
  "crash_dump_stack vsnprintf mem esp depth s =
     dump_frames vsnprintf mem esp 0 depth (serial_write_string (vsnprintf 64 (''Stack trace (ESP=%08x):'' @ crlf) [Num esp]) s)"

definition crash_emergency_save :: "crash \<Rightarrow> crash" where
  "crash_emergency_save s = klog_dump_serial (klog_flush s)"

definition crash_dump :: "formatter \<Rightarrow> memory \<Rightarrow> regs option \<Rightarrow> string option \<Rightarrow> crash \<Rightarrow> fault + crash" where
  "crash_dump vsnprintf mem r reason s =
     (let s1 = klog vsnprintf KLOG_PANIC ''*** CRASH: %s ***'' [Str (case reason of None \<Rightarrow> ''Unknown'' | Some t \<Rightarrow> t)] (s\<lparr>cr_cli := True\<rparr>) in
      fault_bind (case r of None \<Rightarrow> Inr s1 | Some rs \<Rightarrow> crash_dump_stack vsnprintf mem (r_esp rs) 16 (dump_regs vsnprintf rs s1)) (\<lambda>s2.
        Inr ((crash_emergency_save (s2\<lparr>cr_red := True, cr_console := cr_console s2 @ lf @ lf @ ''*** MAYA OS CRASH ***'' @ lf @
          (case reason of None \<Rightarrow> ''Unknown reason'' | Some t \<Rightarrow> t) @ lf @ ''System halted.'' @ lf\<rparr>))\<lparr>cr_halted := True\<rparr>)))"

text \<open>The reasons of the four faults; \<open>cr2\<close> is the processor's register of that name.\<close>

fun fault_reason :: "formatter \<Rightarrow> u32 \<Rightarrow> fault_handler \<Rightarrow> regs \<Rightarrow> string" where
  "fault_reason vs cr2 Divide_by_zero r = ''Division by Zero (#DE)''"
| "fault_reason vs cr2 General_protection r = vs 64 ''General Protection Fault (error=%08x)'' [Num (r_err_code r)]"
| "fault_reason vs cr2 Page_fault r = vs 64 ''Page Fault at CR2=%08x (error=%08x)'' [Num cr2, Num (r_err_code r)]"
| "fault_reason vs cr2 Double_fault r = ''Double Fault (#DF) '' @ [CHR 0xE2, CHR 0x80, CHR 0x93] @ '' system unstable''"

definition handle_fault :: "formatter \<Rightarrow> memory \<Rightarrow> u32 \<Rightarrow> fault_handler \<Rightarrow> regs \<Rightarrow> crash \<Rightarrow> fault + crash" where
  "handle_fault vs mem cr2 h r s = crash_dump vs mem (Some r) (Some (fault_reason vs cr2 h r)) s"

definition crash_handler_init :: "formatter \<Rightarrow> crash \<Rightarrow> crash \<times> bool" where
  "crash_handler_init vsnprintf s =
     (klog vsnprintf KLOG_INFO ''Crash handler registered for faults 0/8/13/14'' []
        (s\<lparr>cr_handlers := cr_handlers s @ [(0, Divide_by_zero), (8, Double_fault), (13, General_protection), (14, Page_fault)]\<rparr>), True)"

section \<open>The stack dump\<close>

text \<open>The words below the limit among the next \<open>n\<close>.\<close>

definition words_below :: "u32 \<Rightarrow> nat \<Rightarrow> nat" where
  "words_below esp n = min n ((0xC0000000 - unat esp + 3) div 4)"

lemma frame_address:
  assumes "i < 16" "unat esp < 0xC0000000"
  shows "esp + 4 * of_nat i \<ge> STACK_LIMIT \<longleftrightarrow> unat esp + 4 * i \<ge> 0xC0000000"
proof -
  have i: "unat (4 * of_nat i :: u32) = 4 * i"
    using assms by (subst unat_mult_lem [THEN iffD1]) (simp_all add: unat_of_nat)
  have "unat (esp + 4 * of_nat i) = unat esp + 4 * i"
    using assms i by (subst unat_add_lem [THEN iffD1]) simp_all
  then show ?thesis using assms by (simp add: STACK_LIMIT_def word_le_nat_alt)
qed

lemma dump_frames_words:
  assumes "unat esp < 0xC0000000" "i + n \<le> 16"
    "\<And>j. i \<le> j \<Longrightarrow> j < i + n \<Longrightarrow> unat esp + 4 * j < 0xC0000000 \<Longrightarrow> mem (esp + 4 * of_nat j) = Some (w j)"
  shows "dump_frames vs mem esp i n s =
    Inr (s\<lparr>cr_sent := cr_sent s @ map (\<lambda>j. frame_line vs j (w j)) (filter (\<lambda>j. unat esp + 4 * j < 0xC0000000) [i..<i + n])\<rparr>)"
  using assms
proof (induction n arbitrary: i s)
  case (Suc n)
  have lim: "esp + 4 * of_nat i \<ge> STACK_LIMIT \<longleftrightarrow> unat esp + 4 * i \<ge> 0xC0000000" using frame_address [of i esp] Suc.prems(1,2) by auto
  show ?case
  proof (cases "unat esp + 4 * i \<ge> 0xC0000000")
    case True
    then have "filter (\<lambda>j. unat esp + 4 * j < 0xC0000000) [i..<i + Suc n] = []" by (auto simp: filter_empty_conv)
    moreover have "dump_frames vs mem esp i (Suc n) s = Inr s" using lim True by simp
    ultimately show ?thesis by simp
  next
    case False
    have upt: "[i..<i + Suc n] = i # [Suc i..<Suc i + n]" by (simp add: upt_conv_Cons del: upt_Suc)
    have "mem (esp + 4 * of_nat i) = Some (w i)" using Suc.prems(3) [of i] False by simp
    then have "dump_frames vs mem esp i (Suc n) s = dump_frames vs mem esp (Suc i) n (serial_write_string (frame_line vs i (w i)) s)"
      using lim False by simp
    also have "\<dots> = Inr ((serial_write_string (frame_line vs i (w i)) s)\<lparr>cr_sent := cr_sent (serial_write_string (frame_line vs i (w i)) s) @
        map (\<lambda>j. frame_line vs j (w j)) (filter (\<lambda>j. unat esp + 4 * j < 0xC0000000) [Suc i..<Suc i + n])\<rparr>)"
      using Suc.prems by (intro Suc.IH) auto
    finally show ?thesis unfolding upt using False by (simp add: serial_write_string_def)
  qed
qed simp

text \<open>
  A crash writes out exactly the words of the stack, at most sixteen, that begin below 0xC0000000: if these
  can be read the dump succeeds, whatever is unmapped above.
\<close>

theorem crash_dumps_stack_below_limit:
  assumes "unat esp < 0xC0000000" "\<And>j. j < 16 \<Longrightarrow> unat esp + 4 * j < 0xC0000000 \<Longrightarrow> mem (esp + 4 * of_nat j) = Some (w j)"
  shows "crash_dump_stack vs mem esp 16 s = Inr (s\<lparr>cr_sent := cr_sent s @ vs 64 (''Stack trace (ESP=%08x):'' @ crlf) [Num esp] #
    map (\<lambda>j. frame_line vs j (w j)) (filter (\<lambda>j. unat esp + 4 * j < 0xC0000000) [0..<16])\<rparr>)"
  using dump_frames_words [of esp 0 16 mem w vs] assms by (simp add: crash_dump_stack_def serial_write_string_def)

definition calm :: crash where
  "calm = \<lparr>ring_buf = replicate KLOG_RING_SIZE (CHR 0x00), ring_head = 0, ring_tail = 0, ring_count = 0, log_initialized = True,
     serial_out = [], cr_handlers = [], cr_sent = [], cr_console = [], cr_red = False, cr_cli = False, cr_halted = False\<rparr>"

theorem crash_dumps_stack_below_limit_witness:
  "crash_dump_stack (\<lambda>_ f _. f) (\<lambda>a. if a < 0xC0000000 then Some (a div 4) else None) 0xBFFFFFF8 16 calm =
    Inr (calm\<lparr>cr_sent := [''Stack trace (ESP=%08x):'' @ crlf, ''  [%02u] %08x'' @ crlf, ''  [%02u] %08x'' @ crlf]\<rparr>)"
proof -
  let ?m = "\<lambda>a :: u32. if a < 0xC0000000 then Some (a div 4) else None"
  have below: "?m (0xBFFFFFF8 + 4 * of_nat j) = Some (0x2FFFFFFE + of_nat j)" if "j < 16" "unat (0xBFFFFFF8 :: u32) + 4 * j < 0xC0000000" for j
  proof -
    have "j = 0 \<or> j = 1" using that(2) by auto
    then show ?thesis by auto
  qed
  have "filter (\<lambda>j. unat (0xBFFFFFF8 :: u32) + 4 * j < 0xC0000000) [0..<16] = [0, 1]" by (simp add: upt_rec)
  moreover have "crash_dump_stack (\<lambda>_ f _. f) ?m 0xBFFFFFF8 16 calm = Inr (calm\<lparr>cr_sent := cr_sent calm @ (''Stack trace (ESP=%08x):'' @ crlf) #
    map (\<lambda>j. frame_line (\<lambda>_ f _. f) j (0x2FFFFFFE + of_nat j)) (filter (\<lambda>j. unat (0xBFFFFFF8 :: u32) + 4 * j < 0xC0000000) [0..<16])\<rparr>)"
    by (rule crash_dumps_stack_below_limit) (simp, rule below)
  ultimately show ?thesis by (simp add: frame_line_def calm_def)
qed

text \<open>The address of a stack at or above the limit is printed, and no word of it.\<close>

lemma high_stack_not_dumped:
  assumes "unat esp \<ge> 0xC0000000"
  shows "crash_dump_stack vs mem esp 16 s = Inr (serial_write_string (vs 64 (''Stack trace (ESP=%08x):'' @ crlf) [Num esp]) s)"
  using assms dump_frames.simps(2) [of vs mem esp 0 15] by (simp add: crash_dump_stack_def STACK_LIMIT_def word_le_nat_alt)

section \<open>A crash\<close>

lemma dump_frames_frame:
  "dump_frames vs mem esp i n s = Inr s' \<Longrightarrow> klog_state.truncate s' = klog_state.truncate s \<and> cr_cli s' = cr_cli s"
  by (induction vs mem esp i n s rule: dump_frames.induct) (auto simp: serial_write_string_def klog_state.defs split: if_splits option.splits)

lemma log_of_truncate:
  "klog_inv (klog_state.truncate s) = klog_inv s" "log_text (klog_state.truncate s) = log_text s"
  "serial_out (klog_state.truncate s) = serial_out s" "log_initialized (klog_state.truncate s) = log_initialized s"
  by (simp_all add: klog_state.defs klog_inv_def log_text_def)

lemma same_log:
  assumes "klog_state.truncate s' = klog_state.truncate s"
  shows "klog_inv s' = klog_inv s" "log_text s' = log_text s" "serial_out s' = serial_out s" "log_initialized s' = log_initialized s"
  using arg_cong [OF assms, of klog_inv] arg_cong [OF assms, of log_text] arg_cong [OF assms, of serial_out]
    arg_cong [OF assms, of log_initialized] by (simp_all add: log_of_truncate)

lemma ring_puts_cr_cli [simp]: "cr_cli (ring_puts s cs) = cr_cli s"
  by (induction s cs rule: ring_puts.induct) (simp_all add: ring_puts_frame_defs)

lemma klog_cr_cli [simp]: "cr_cli (klog vs l f a s) = cr_cli s"
  by (simp add: klog_def Let_def)

text \<open>What a crash logs.\<close>

definition crash_lines :: "formatter \<Rightarrow> regs option \<Rightarrow> string \<Rightarrow> string" where
  "crash_lines vs r why = log_line vs KLOG_PANIC ''*** CRASH: %s ***'' [Str why] @
     (case r of None \<Rightarrow> [] | Some rs \<Rightarrow> log_line vs KLOG_ERROR ''%s'' [Str (regs_line vs rs)])"

lemma crash_dump_regs_log:
  assumes "klog_inv s" "log_initialized s"
  shows "klog_inv (dump_regs vs r s)" "log_text (dump_regs vs r s) = last_chars KLOG_RING_SIZE (log_text s @ log_line vs KLOG_ERROR ''%s'' [Str (regs_line vs r)])"
    "serial_out (dump_regs vs r s) = serial_out s @ log_line vs KLOG_ERROR ''%s'' [Str (regs_line vs r)]" "log_initialized (dump_regs vs r s)"
    "cr_cli (dump_regs vs r s) = cr_cli s"
  using klog_refines [OF assms refl, of vs KLOG_ERROR "''%s''" "[Str (regs_line vs r)]"]
  by (simp_all add: dump_regs_def serial_write_string_def Let_def klog_inv_def log_text_def)

lemma crash_middle_log:
  assumes "klog_inv s" "log_initialized s" "cr_cli s"
    and "(case r of None \<Rightarrow> Inr s | Some rs \<Rightarrow> crash_dump_stack vs mem (r_esp rs) 16 (dump_regs vs rs s)) = Inr s'"
    and "lines = (case r of None \<Rightarrow> [] | Some rs \<Rightarrow> log_line vs KLOG_ERROR ''%s'' [Str (regs_line vs rs)])"
  shows "klog_inv s'" "log_text s' = last_chars KLOG_RING_SIZE (log_text s @ lines)" "serial_out s' = serial_out s @ lines"
    "log_initialized s'" "cr_cli s'"
proof -
  have "klog_inv s' \<and> log_text s' = last_chars KLOG_RING_SIZE (log_text s @ lines) \<and> serial_out s' = serial_out s @ lines \<and> log_initialized s' \<and> cr_cli s'"
  proof (cases r)
    case None
    then have "s' = s" using assms(4) by simp
    moreover have "length (log_text s) \<le> KLOG_RING_SIZE" using assms(1) by (simp add: log_text_def klog_inv_def)
    ultimately show ?thesis using assms None by (simp add: last_chars_def)
  next
    case (Some rs)
    let ?t = "serial_write_string (vs 64 (''Stack trace (ESP=%08x):'' @ crlf) [Num (r_esp rs)]) (dump_regs vs rs s)"
    have "dump_frames vs mem (r_esp rs) 0 16 ?t = Inr s'" using assms(4) Some by (simp add: crash_dump_stack_def)
    then have t: "klog_state.truncate s' = klog_state.truncate ?t" "cr_cli s' = cr_cli ?t" using dump_frames_frame by blast+
    moreover have "klog_state.truncate ?t = klog_state.truncate (dump_regs vs rs s)" by (simp add: serial_write_string_def klog_state.defs)
    ultimately have "klog_state.truncate s' = klog_state.truncate (dump_regs vs rs s)" by simp
    note same_log [OF this] crash_dump_regs_log [OF assms(1,2), of vs rs]
    then show ?thesis using assms(3,5) t(2) Some by (simp add: serial_write_string_def)
  qed
  then show "klog_inv s'" "log_text s' = last_chars KLOG_RING_SIZE (log_text s @ lines)" "serial_out s' = serial_out s @ lines"
    "log_initialized s'" "cr_cli s'" by blast+
qed



section \<open>The register report\<close>

text \<open>The text of \<open>regs_format\<close>, \<open>h8\<close> and \<open>h4\<close> printing hexadecimal numbers of at least 8 and 4 digits.\<close>

definition regs_head :: "(u32 \<Rightarrow> string) \<Rightarrow> regs \<Rightarrow> string" where
  "regs_head h8 r = ''EAX='' @ h8 (r_eax r) @ '' EBX='' @ h8 (r_ebx r) @ '' ECX='' @ h8 (r_ecx r) @ '' EDX='' @ h8 (r_edx r) @ crlf @
     ''ESI='' @ h8 (r_esi r) @ '' EDI='' @ h8 (r_edi r) @ '' EBP='' @ h8 (r_ebp r) @ '' ESP='' @ h8 (r_esp r) @ crlf @
     ''EIP='' @ h8 (r_eip r) @ '' EFLAGS='' @ h8 (r_eflags r)"

definition regs_text :: "(u32 \<Rightarrow> string) \<Rightarrow> (u32 \<Rightarrow> string) \<Rightarrow> regs \<Rightarrow> string" where
  "regs_text h8 h4 r = regs_head h8 r @ '' CS='' @ h4 (r_cs r) @ '' DS='' @ h4 (r_ds r) @ crlf"

text \<open>
  With a \<^verbatim>\<open>snprintf\<close> that cuts its text to the buffer of 128, the segment registers and the last digits of the
  flags are never in the report, whatever the registers hold.
\<close>

lemma segments_never_reported:
  assumes "\<And>r. regs_line vs r = take 127 (regs_text h8 h4 r)" "\<And>x. 8 \<le> length (h8 x)"
  shows "regs_line vs (r\<lparr>r_cs := c, r_ds := d\<rparr>) = regs_line vs r"
proof -
  have "127 \<le> length (regs_head h8 r)"
    using assms(2) [of "r_eax r"] assms(2) [of "r_ebx r"] assms(2) [of "r_ecx r"] assms(2) [of "r_edx r"] assms(2) [of "r_esi r"]
      assms(2) [of "r_edi r"] assms(2) [of "r_ebp r"] assms(2) [of "r_esp r"] assms(2) [of "r_eip r"] assms(2) [of "r_eflags r"]
    by (simp add: regs_head_def crlf_def)
  moreover have "regs_head h8 (r\<lparr>r_cs := c, r_ds := d\<rparr>) = regs_head h8 r" by (simp add: regs_head_def)
  ultimately show ?thesis by (simp add: assms(1) regs_text_def)
qed

end
