(* ===== verification/Ext2.thy ===== *)
theory Ext2
  imports Fat32
begin

text \<open>
  The ext2 file system (\<^verbatim>\<open>fs/ext2.c\<close>). Its header \<^verbatim>\<open>fs/ext2.h\<close> does not exist: the sizes, the constants and how the
  structures lie in a block are a parameter \<open>L\<close>, with the sector size of \<^verbatim>\<open>ata_get_sector_size\<close>, which is defined
  nowhere and is not zero. The disk is an argument \<open>rd\<close>: first sector and 8-bit count give the bytes or
  nothing; the results of \<open>kmalloc\<close> are boolean arguments, and \<open>junk\<close> is what memory held before. The misspelt
  \<^verbatim>\<open>i_.size\<close> is read as \<^verbatim>\<open>i_size\<close>. Shown here: a read of a file gives the slice of its blocks; a drive
  that answers is never mounted, because the test of the first read is inverted; one block is read into the
  memory of the descriptors whatever its size; what lies behind the singly indirect blocks is never read.
\<close>

section \<open>State\<close>

record ext2_superblock =
  s_magic :: u16
  s_log_block_size :: u32
  s_blocks_count :: u32
  s_blocks_per_group :: u32
  s_inodes_per_group :: u32
  s_inode_size :: u32

record ext2_inode =
  i_block :: "u32 list"
  i_size :: u32

record ext2_layout =
  sector_size :: u32
  sizeof_superblock :: u32
  sizeof_bgd :: u32
  sizeof_inode :: nat
  EXT2_SUPER_MAGIC :: u16
  EXT2_NDIR_BLOCKS :: u32
  EXT2_IND_BLOCK :: nat
  as_superblock :: "u8 list \<Rightarrow> ext2_superblock"
  as_inode :: "u8 list \<Rightarrow> ext2_inode"
  bg_inode_table :: "u8 list \<Rightarrow> nat \<Rightarrow> u32"

definition EXT2_SUPERBLOCK_OFFSET :: u32 where "EXT2_SUPERBLOCK_OFFSET = 1024"
definition EXT2_SUPERBLOCK_SIZE :: u32 where "EXT2_SUPERBLOCK_SIZE = 1024"
definition EXT2_ROOT_INODE :: u32 where "EXT2_ROOT_INODE = 2"

text \<open>\<open>e2_bgds\<close>: the bytes of the group descriptors, or what following the pointer to them leads to.\<close>

record ext2 =
  e2_super :: ext2_superblock
  e2_bgds :: "fault + u8 list"
  e2_block_size :: u32
  e2_group_count :: u32
  e2_initialized :: bool

type_synonym sectors = "u32 \<Rightarrow> u8 \<Rightarrow> u8 list option"

section \<open>Blocks and inodes\<close>

definition sectors_per_block :: "ext2_layout \<Rightarrow> ext2 \<Rightarrow> u32" where
  "sectors_per_block L s = e2_block_size s div sector_size L"

definition ext2_read_block :: "ext2_layout \<Rightarrow> sectors \<Rightarrow> u32 \<Rightarrow> ext2 \<Rightarrow> u8 list option" where
  "ext2_read_block L rd block s = rd (block * sectors_per_block L s) (ucast (sectors_per_block L s))"

definition ext2_write_block :: "ext2_layout \<Rightarrow> (u32 \<Rightarrow> u8 \<Rightarrow> u8 list \<Rightarrow> bool) \<Rightarrow> u32 \<Rightarrow> u8 list \<Rightarrow> ext2 \<Rightarrow> bool" where
  "ext2_write_block L wr block b s = wr (block * sectors_per_block L s) (ucast (sectors_per_block L s)) b"

definition ext2_read_inode :: "ext2_layout \<Rightarrow> sectors \<Rightarrow> bool \<Rightarrow> u32 \<Rightarrow> ext2 \<Rightarrow> fault + ext2_inode option" where
  "ext2_read_inode L rd alloc n s =
     (if n = 0 then Inr None
      else if s_inodes_per_group (e2_super s) = 0 then Inl Divide_error
      else let group = unat ((n - 1) div s_inodes_per_group (e2_super s)); index = (n - 1) mod s_inodes_per_group (e2_super s) in
        case e2_bgds s of Inl e \<Rightarrow> Inl e
        | Inr d \<Rightarrow>
            if (group + 1) * unat (sizeof_bgd L) > length d then Inl Out_of_bounds
            else let offset = index * s_inode_size (e2_super s) in
              if \<not> alloc then Inr None
              else case ext2_read_block L rd (bg_inode_table L d group + offset div e2_block_size s) s of None \<Rightarrow> Inr None
              | Some b \<Rightarrow>
                  let o' = unat (offset mod e2_block_size s) in
                  if o' + sizeof_inode L > length b then Inl Out_of_bounds else Inr (Some (as_inode L (take (sizeof_inode L) (drop o' b)))))"

text \<open>
  The disk block of block \<open>n\<close> of a file, 0 for none. The result of reading an indirect block is not looked
  at: after a failed read it is what the memory held before. \<open>alloc n\<close> is the result of the \<open>kmalloc\<close> of this call.
\<close>

definition ext2_get_block_from_inode :: "ext2_layout \<Rightarrow> sectors \<Rightarrow> (u32 \<Rightarrow> bool) \<Rightarrow> (nat \<Rightarrow> u32) \<Rightarrow> ext2_inode \<Rightarrow> u32 \<Rightarrow> ext2 \<Rightarrow> u32" where
  "ext2_get_block_from_inode L rd alloc junk ino n s =
     (let p_per_block = e2_block_size s div 4; d = EXT2_NDIR_BLOCKS L in
      if n < d then i_block ino ! unat n
      else if n < d + p_per_block
      then if \<not> alloc n then 0
        else (let k = unat (n - d) in
          case ext2_read_block L rd (i_block ino ! EXT2_IND_BLOCK L) s of None \<Rightarrow> junk k | Some b \<Rightarrow> get32 b (4 * k))
      else 0)"

section \<open>Mounting\<close>

definition ext2_init :: "ext2_layout \<Rightarrow> sectors \<Rightarrow> bool \<Rightarrow> u8 list \<Rightarrow> ext2 \<Rightarrow> fault + ext2 \<times> bool" where
  "ext2_init L rd alloc junk s =
     (if e2_initialized s then Inr (s, True)
      else case rd (EXT2_SUPERBLOCK_OFFSET div sector_size L) (ucast (sizeof_superblock L div sector_size L)) of
        Some b \<Rightarrow> Inr (s\<lparr>e2_super := as_superblock L b\<rparr>, False)
      | None \<Rightarrow>
          let p = e2_super s in
          if s_magic p \<noteq> EXT2_SUPER_MAGIC L then Inr (s, False)
          else if s_blocks_per_group p = 0 then Inl Divide_error
          else let bs = push_bit (unat (s_log_block_size p)) 1024; count = (s_blocks_count p + s_blocks_per_group p - 1) div s_blocks_per_group p;
                   bgd_size = count * sizeof_bgd L; s1 = s\<lparr>e2_block_size := bs, e2_group_count := count\<rparr> in
            if \<not> alloc then Inr (s1\<lparr>e2_bgds := Inl Null_deref\<rparr>, False)
            else if bs = 0 then Inl Divide_error
            else case ext2_read_block L rd ((EXT2_SUPERBLOCK_OFFSET + EXT2_SUPERBLOCK_SIZE) div bs) s1 of
              None \<Rightarrow> Inr (s1\<lparr>e2_bgds := Inl Dangling_pointer\<rparr>, False)
            | Some b \<Rightarrow>
                if length b > unat bgd_size then Inl Out_of_bounds
                else Inr (s1\<lparr>e2_bgds := Inr (b @ take (unat bgd_size - length b) (drop (length b) junk)), e2_initialized := True\<rparr>, True))"

text \<open>The node made for the root; the type \<^verbatim>\<open>fs_node_t\<close> is declared nowhere.\<close>

record fs_node =
  fs_name :: string
  fs_inode :: u32
  fs_is_file :: bool

definition ext2_mount :: "ext2_layout \<Rightarrow> sectors \<Rightarrow> bool \<Rightarrow> u8 list \<Rightarrow> bool \<Rightarrow> bool \<Rightarrow> ext2 \<Rightarrow> fault + ext2 \<times> fs_node option" where
  "ext2_mount L rd alloc junk ialloc nalloc s =
     fault_bind (if e2_initialized s then Inr (s, True) else ext2_init L rd alloc junk s) (\<lambda>(s1, ok).
       if \<not> ok then Inr (s1, None)
       else fault_bind (ext2_read_inode L rd ialloc EXT2_ROOT_INODE s1) (\<lambda>r.
         Inr (s1, if r = None \<or> \<not> nalloc then None else Some \<lparr>fs_name = ''/'', fs_inode = EXT2_ROOT_INODE, fs_is_file = False\<rparr>)))"

section \<open>Reading\<close>

text \<open>
  The loop from block \<open>i\<close> to block \<open>e\<close>: the result and the bytes put into the buffer. Block numbers do not wrap in
  C: a block number beyond the indirect blocks has no block and ends the loop.
\<close>

function read_blocks :: "(u32 \<Rightarrow> u32) \<Rightarrow> (u32 \<Rightarrow> u8 list option) \<Rightarrow> u32 \<Rightarrow> u32 \<Rightarrow> nat \<Rightarrow> nat \<Rightarrow> u32 \<Rightarrow> u8 list \<Rightarrow> int \<times> u8 list" where
  "read_blocks blk rdb bs sz i e o' acc =
     (if i > e \<or> blk (of_nat i) = 0 then (sint (of_nat (length acc) :: u32), acc)
      else case rdb (blk (of_nat i)) of None \<Rightarrow> (-1, acc)
      | Some b \<Rightarrow>
          let n = bs - o'; to_read = (if of_nat (length acc) + n > sz then sz - of_nat (length acc) else n) in
          read_blocks blk rdb bs sz (i + 1) e 0 (acc @ take (unat to_read) (drop (unat o') b)))"
  by pat_completeness auto

termination by (relation "measure (\<lambda>(_, _, _, _, i, e, _, _). Suc e - i)") auto

declare read_blocks.simps [simp del]

definition ext2_read :: "ext2_layout \<Rightarrow> sectors \<Rightarrow> bool \<Rightarrow> bool \<Rightarrow> (u32 \<Rightarrow> bool) \<Rightarrow> (nat \<Rightarrow> u32) \<Rightarrow> fs_node option \<Rightarrow> u64 \<Rightarrow> u32 \<Rightarrow> bool \<Rightarrow> ext2
    \<Rightarrow> fault + int \<times> u8 list" where
  "ext2_read L rd ialloc balloc alloc junk node offset sz has_buffer s = (case node of None \<Rightarrow> Inr (-1, [])
     | Some nd \<Rightarrow>
         if \<not> has_buffer \<or> \<not> fs_is_file nd then Inr (-1, [])
         else fault_bind (ext2_read_inode L rd ialloc (fs_inode nd) s) (\<lambda>r. case r of None \<Rightarrow> Inr (-1, [])
           | Some ino \<Rightarrow>
               if offset \<ge> ucast (i_size ino) then Inr (0, [])
               else let sz' = (if offset + ucast sz > ucast (i_size ino) then ucast (ucast (i_size ino) - offset) else sz);
                        bs = ucast (e2_block_size s) :: u64;
                        start = ucast (offset div bs) :: u32; e = ucast ((offset + ucast sz' - 1) div bs) :: u32 in
                 if \<not> balloc then Inr (-1, [])
                 else Inr (read_blocks (\<lambda>n. ext2_get_block_from_inode L rd alloc junk ino n s) (\<lambda>b. ext2_read_block L rd b s)
                        (e2_block_size s) sz' (unat start) (unat e) (ucast (offset mod bs)) [])))"

definition ext2_readdir :: "fs_node option \<Rightarrow> u64 \<Rightarrow> string option" where "ext2_readdir node index = None"

definition ext2_finddir :: "fs_node option \<Rightarrow> string \<Rightarrow> fs_node option" where "ext2_finddir node name = None"

definition ext2_is_initialized :: "ext2 \<Rightarrow> bool" where "ext2_is_initialized s = e2_initialized s"

section \<open>Initialisation\<close>

text \<open>Initialisation succeeds only when the superblock was read by an earlier call and this read of it fails.\<close>

lemma ext2_init_success:
  assumes "ext2_init L rd alloc junk s = Inr (s', True)" "\<not> e2_initialized s"
  shows "rd (1024 div sector_size L) (ucast (sizeof_superblock L div sector_size L)) = None" "s_magic (e2_super s) = EXT2_SUPER_MAGIC L"
  using assms by (auto simp: ext2_init_def EXT2_SUPERBLOCK_OFFSET_def Let_def split: option.splits if_splits)

text \<open>
  A drive that delivers the superblock is never mounted, however often it is tried: the result is always
  no file system.
\<close>

theorem answering_drive_never_mounts:
  assumes "rd (1024 div sector_size L) (ucast (sizeof_superblock L div sector_size L)) = Some b" "\<not> e2_initialized s"
  shows "\<exists>s'. ext2_mount L rd alloc junk ialloc nalloc s = Inr (s', None) \<and> \<not> e2_initialized s'"
  using assms by (simp add: ext2_mount_def ext2_init_def EXT2_SUPERBLOCK_OFFSET_def)

definition zero_ext2 :: ext2 where
  "zero_ext2 = \<lparr>e2_super = \<lparr>s_magic = 0, s_log_block_size = 0, s_blocks_count = 0, s_blocks_per_group = 0, s_inodes_per_group = 0, s_inode_size = 0\<rparr>,
     e2_bgds = Inl Null_deref, e2_block_size = 0, e2_group_count = 0, e2_initialized = False\<rparr>"

definition demo_layout :: ext2_layout where
  "demo_layout = \<lparr>sector_size = 512, sizeof_superblock = 1024, sizeof_bgd = 32, sizeof_inode = 128, EXT2_SUPER_MAGIC = 0xEF53,
     EXT2_NDIR_BLOCKS = 12, EXT2_IND_BLOCK = 12,
     as_superblock = (\<lambda>b. \<lparr>s_magic = get16 b 56, s_log_block_size = get32 b 24, s_blocks_count = get32 b 4, s_blocks_per_group = get32 b 32,
       s_inodes_per_group = get32 b 40, s_inode_size = ucast (get16 b 88)\<rparr>),
     as_inode = (\<lambda>b. \<lparr>i_block = map (\<lambda>k. get32 b (40 + 4 * k)) [0..<15], i_size = get32 b 4\<rparr>),
     bg_inode_table = (\<lambda>b g. get32 b (32 * g + 8))\<rparr>"

theorem answering_drive_never_mounts_witness:
  "\<exists>s'. ext2_mount demo_layout (\<lambda>lba n. Some (replicate (512 * unat n) 0)) True [] True True zero_ext2 = Inr (s', None) \<and> \<not> e2_initialized s'"
  by (rule answering_drive_never_mounts [where b = "replicate 1024 0"]) (simp_all add: demo_layout_def zero_ext2_def)

text \<open>
  The block read for the group descriptors does not fit the memory allocated for them unless they fill a
  block: a volume of one group overflows it.
\<close>

lemma descriptors_overflow:
  assumes "\<not> e2_initialized s" "rd (1024 div sector_size L) (ucast (sizeof_superblock L div sector_size L)) = None"
    "s_magic (e2_super s) = EXT2_SUPER_MAGIC L" "s_blocks_per_group (e2_super s) \<noteq> 0"
    "bs = push_bit (unat (s_log_block_size (e2_super s))) 1024" "bs \<noteq> 0"
    "rd ((2048 div bs) * (bs div sector_size L)) (ucast (bs div sector_size L)) = Some b"
    "unat ((s_blocks_count (e2_super s) + s_blocks_per_group (e2_super s) - 1) div s_blocks_per_group (e2_super s) * sizeof_bgd L) < length b"
  shows "ext2_init L rd True junk s = Inl Out_of_bounds"
  using assms by (simp add: ext2_init_def ext2_read_block_def sectors_per_block_def EXT2_SUPERBLOCK_OFFSET_def EXT2_SUPERBLOCK_SIZE_def Let_def)

section \<open>The bytes of a file\<close>

text \<open>The loop, when every block of it can be read: the first \<open>sz\<close> bytes from offset \<open>o'\<close> of the blocks.\<close>

lemma read_blocks_slice:
  assumes "\<And>j. i \<le> j \<Longrightarrow> j \<le> e \<Longrightarrow> blk (of_nat j) \<noteq> 0 \<and> rdb (blk (of_nat j)) = Some (B j) \<and> length (B j) = unat bs"
    "unat sz + unat bs < 2 ^ 32" "length acc \<le> unat sz" "i \<le> e \<Longrightarrow> o' < bs"
    "bytes = take (unat sz) (acc @ drop (unat o') (concat (map B [i..<Suc e])))"
  shows "read_blocks blk rdb bs sz i e o' acc = (sint (of_nat (length bytes) :: u32), bytes)"
  using assms
proof (induction "Suc e - i" arbitrary: i o' acc bytes)
  case 0
  then show ?case by (subst read_blocks.simps) simp
next
  case (Suc n)
  then have ie: "i \<le> e" by simp
  define to_read where "to_read = (if of_nat (length acc) + (bs - o') > sz then sz - of_nat (length acc) else bs - o')"
  define acc' where "acc' = acc @ take (unat to_read) (drop (unat o') (B i))"
  have len: "length (B i) = unat bs" and o': "unat o' < unat bs" using Suc.prems(1) [of i] Suc.prems(4) ie by (auto simp: word_less_nat_alt)
  have n: "unat (bs - o') = unat bs - unat o'" using o' by (simp add: unat_sub word_le_nat_alt)
  have la: "unat (of_nat (length acc) :: u32) = length acc" using Suc.prems(2,3) by (simp add: unat_of_nat)
  have sum: "unat (of_nat (length acc) + (bs - o')) = length acc + (unat bs - unat o')"
    using Suc.prems(2,3) la n by (subst unat_add_lem [THEN iffD1]) simp_all
  have rest: "unat (sz - of_nat (length acc)) = unat sz - length acc" using Suc.prems(3) la by (simp add: unat_sub word_le_nat_alt)
  have tr: "unat to_read = min (unat bs - unat o') (unat sz - length acc)"
    using sum n rest by (auto simp: to_read_def word_less_nat_alt)
  have acc': "acc' = take (unat sz) (acc @ drop (unat o') (B i))" using Suc.prems(3) len by (simp add: acc'_def tr min_def)
  have bytes: "bytes = take (unat sz) (acc' @ drop (unat 0) (concat (map B [Suc i..<Suc e])))"
  proof -
    have "bytes = take (unat sz) ((acc @ drop (unat o') (B i)) @ concat (map B [Suc i..<Suc e]))"
      using ie o' len Suc.prems(5) by (simp add: upt_conv_Cons del: upt_Suc)
    also have "\<dots> = take (unat sz) (acc' @ concat (map B [Suc i..<Suc e]))" unfolding acc' by (simp add: min_def)
    finally show ?thesis by simp
  qed
  have "read_blocks blk rdb bs sz i e o' acc = read_blocks blk rdb bs sz (Suc i) e 0 acc'"
    using ie Suc.prems(1) [of i] by (subst read_blocks.simps) (simp add: to_read_def acc'_def Let_def)
  also have "\<dots> = (sint (of_nat (length bytes) :: u32), bytes)"
    using Suc.prems(1,2) Suc.hyps(2) o' acc' bytes by (intro Suc.hyps(1)) (auto simp: word_less_nat_alt)
  finally show ?case .
qed

lemma concat_blocks_drop:
  assumes "\<And>j. j < k \<Longrightarrow> length (B j) = m" "k \<le> n"
  shows "drop (k * m) (concat (map B [0..<n])) = concat (map B [k..<n])"
proof -
  have "[0..<n] = [0..<k] @ [k..<n]" using assms(2) by (metis le_add_diff_inverse upt_add_eq_append zero_le)
  moreover have "length (concat (map B [0..<k])) = k * m" using assms(1) by (induction k) auto
  ultimately show ?thesis by simp
qed

lemma slice_of_blocks:
  fixes m x n :: nat
  assumes "\<And>j. j < N \<Longrightarrow> length (B j) = m" "0 < m" "0 < n" "x + n \<le> N * m"
  shows "take n (drop (x mod m) (concat (map B [x div m..<Suc ((x + n - 1) div m)]))) = take n (drop x (concat (map B [0..<N])))"
    and "(x + n - 1) div m < N"
proof -
  let ?a = "x div m" and ?e = "(x + n - 1) div m"
  show e: "?e < N" using assms by (simp add: div_less_iff_less_mult)
  have ae: "?a \<le> ?e" using assms(3) by (simp add: div_le_mono)
  have blocks: "length (concat (map B [i..<j])) = (j - i) * m" if "j \<le> N" for i j
    using that
  proof (induction j)
    case (Suc j)
    then show ?case using assms(1) [of j] by (cases "i \<le> j") (simp_all add: Suc_diff_le)
  qed simp
  have "x + n - 1 < Suc ?e * m" using assms(2) dividend_less_times_div [of m "x + n - 1"] by (simp add: algebra_simps)
  then have "x + n \<le> Suc ?e * m" using assms(3) by linarith
  moreover have "(Suc ?e - ?a) * m = Suc ?e * m - ?a * m" by (rule diff_mult_distrib)
  moreover have "?a * m + x mod m = x" by (rule div_mult_mod_eq)
  ultimately have "x mod m + n \<le> (Suc ?e - ?a) * m" by linarith
  then have fits: "x mod m + n \<le> length (concat (map B [?a..<Suc ?e]))" using blocks [of "Suc ?e" ?a] e by simp
  have "drop x (concat (map B [0..<N])) = drop (x mod m) (drop (?a * m) (concat (map B [0..<N])))" by (simp add: drop_drop)
  also have "\<dots> = drop (x mod m) (concat (map B [?a..<N]))" using ae e assms(1) by (subst concat_blocks_drop) auto
  also have "[?a..<N] = [?a..<Suc ?e] @ [Suc ?e..<N]"
    using ae e by (metis Suc_leI le_SucI le_add_diff_inverse upt_add_eq_append)
  finally show "take n (drop (x mod m) (concat (map B [?a..<Suc ?e]))) = take n (drop x (concat (map B [0..<N])))"
    using fits by (simp del: upt_Suc)
qed

lemma unat_ucast_64: "unat (ucast (w :: u32) :: u64) = unat w"
  using unsigned_less [of w, where 'a = nat] by (simp add: unat_cast)

text \<open>
  Reading refines the file as a sequence of bytes: when the first \<open>N\<close> blocks of the file can be read and hold
  its size, the call puts into the buffer the bytes from \<open>offset\<close> on, \<open>sz\<close> of them or fewer at the end of the
  file, and returns their number.
\<close>

theorem ext2_read_returns_slice:
  assumes "ext2_read_inode L rd True (fs_inode nd) s = Inr (Some ino)" "fs_is_file nd" "m = unat (e2_block_size s)" "0 < m"
    and "\<And>j. j < N \<Longrightarrow> let p = ext2_get_block_from_inode L rd alloc junk ino (of_nat j) s in
      p \<noteq> 0 \<and> ext2_read_block L rd p s = Some (B j) \<and> length (B j) = m"
    and "unat (i_size ino) \<le> N * m" "unat (i_size ino) + m < 2 ^ 32" "unat offset < unat (i_size ino)" "0 < sz"
    and "bytes = take (unat sz) (drop (unat offset) (take (unat (i_size ino)) (concat (map B [0..<N]))))"
  shows "ext2_read L rd True True alloc junk (Some nd) offset sz True s = Inr (sint (of_nat (length bytes) :: u32), bytes)"
proof -
  let ?x = "unat offset" and ?I = "unat (i_size ino)"
  define sz' where "sz' = (if offset + ucast sz > ucast (i_size ino) then ucast (ucast (i_size ino) - offset) else sz)"
  define n where "n = min (unat sz) (?I - ?x)"
  have I: "?I < 2 ^ 32" "unat sz < 2 ^ 32" using assms(7) unsigned_less [of sz] by simp_all
  have sum: "unat (offset + ucast sz) = ?x + unat sz" using assms(8) I by (subst unat_add_lem [THEN iffD1]) (simp_all add: unat_ucast_64)
  have diff: "unat (ucast (ucast (i_size ino) - offset) :: u32) = ?I - ?x"
  proof -
    have "unat (ucast (i_size ino) - offset :: u64) = ?I - ?x" using assms(8) by (simp add: unat_sub word_le_nat_alt unat_ucast_64)
    then show ?thesis using I(1) by (simp add: unat_cast)
  qed
  have sz': "unat sz' = n" using assms(8) sum diff by (auto simp: sz'_def n_def word_less_nat_alt unat_ucast_64)
  have n0: "0 < n" using assms(8,9) by (simp add: n_def word_less_nat_alt)
  have xn: "?x + n \<le> ?I" using assms(8) by (simp add: n_def)
  note slice = slice_of_blocks [of N B m n ?x, OF _ assms(4) n0]
  have eN: "(?x + n - 1) div m < N" using slice(2) assms(5,6) xn by (simp add: Let_def)
  have small: "k div m < 2 ^ 32" if "k < 2 ^ 32" for k using that div_le_dividend [of k m] by linarith
  have bs64: "unat (ucast (e2_block_size s) :: u64) = m" using assms(3) by (simp add: unat_ucast_64)
  have start: "unat (ucast (offset div ucast (e2_block_size s)) :: u32) = ?x div m"
    using small [of ?x] assms(8) I(1) bs64 by (simp add: unat_cast unat_div_distrib)
  have "unat (offset + ucast sz' - 1) = ?x + n - 1"
  proof -
    have "unat (offset + ucast sz') = ?x + n" using xn I sz' by (subst unat_add_lem [THEN iffD1]) (simp_all add: unat_ucast_64)
    moreover have "offset + ucast sz' \<noteq> 0" using calculation n0 by (metis add_is_0 less_numeral_extra(3) unat_0)
    ultimately show ?thesis by (simp add: unat_minus_one)
  qed
  then have e: "unat (ucast ((offset + ucast sz' - 1) div ucast (e2_block_size s)) :: u32) = (?x + n - 1) div m"
    using small [of "?x + n - 1"] xn I(1) bs64 by (simp add: unat_cast unat_div_distrib)
  have o': "unat (ucast (offset mod ucast (e2_block_size s)) :: u32) = ?x mod m"
  proof -
    have "?x mod m < 2 ^ 32" using assms(8) I(1) mod_less_eq_dividend [of ?x m] by linarith
    then show ?thesis using bs64 by (simp add: unat_cast unat_mod_distrib)
  qed
  have bytes: "bytes = take n (drop ?x (concat (map B [0..<N])))"
    using assms(8) unfolding assms(10) n_def by (simp add: drop_take min.commute)
  have "ext2_read L rd True True alloc junk (Some nd) offset sz True s =
    Inr (read_blocks (\<lambda>n. ext2_get_block_from_inode L rd alloc junk ino n s) (\<lambda>b. ext2_read_block L rd b s)
      (e2_block_size s) sz' (?x div m) ((?x + n - 1) div m) (ucast (offset mod ucast (e2_block_size s))) [])"
    using assms(1,2,8) start e by (simp add: ext2_read_def sz'_def [symmetric] word_le_nat_alt unat_ucast_64 Let_def)
  also have "\<dots> = Inr (sint (of_nat (length bytes) :: u32), bytes)"
  proof (intro arg_cong [where f = Inr] read_blocks_slice [where B = B])
    fix j
    assume "?x div m \<le> j" "j \<le> (?x + n - 1) div m"
    then have "j < N" using eN by simp
    then show "ext2_get_block_from_inode L rd alloc junk ino (of_nat j) s \<noteq> 0 \<and>
      ext2_read_block L rd (ext2_get_block_from_inode L rd alloc junk ino (of_nat j) s) s = Some (B j) \<and> length (B j) = unat (e2_block_size s)"
      using assms(3,5) by (simp add: Let_def)
  next
    show "unat sz' + unat (e2_block_size s) < 2 ^ 32" using sz' xn assms(3,7) by linarith
    show "ucast (offset mod ucast (e2_block_size s)) < e2_block_size s" using o' assms(3,4) by (simp add: word_less_nat_alt)
    show "bytes = take (unat sz') ([] @ drop (unat (ucast (offset mod ucast (e2_block_size s)) :: u32)) (concat (map B [?x div m..<Suc ((?x + n - 1) div m)])))"
      using slice(1) assms(5,6) xn sz' o' bytes by (simp add: Let_def del: upt_Suc)
  qed simp
  finally show ?thesis .
qed

definition demo_inodes :: "u8 list" where
  "demo_inodes = map (\<lambda>i. if i = 132 then 0xDC else if i = 133 then 5 else if i = 168 then 7 else if i = 172 then 9 else 0) [0..<1024]"

definition page_of :: "u8 \<Rightarrow> u8 list" where "page_of x = replicate 1024 x"

definition demo_sectors :: sectors where
  "demo_sectors lba n = Some (if lba = 10 then demo_inodes else page_of (if lba = 14 then 65 else if lba = 18 then 66 else 0))"

definition demo_ext2 :: ext2 where
  "demo_ext2 = \<lparr>e2_super = \<lparr>s_magic = 0xEF53, s_log_block_size = 0, s_blocks_count = 64, s_blocks_per_group = 64, s_inodes_per_group = 8, s_inode_size = 128\<rparr>,
     e2_bgds = Inr [0, 0, 0, 0, 0, 0, 0, 0, 5, 0, 0, 0, 0, 0, 0, 0, 0, 0, 0, 0, 0, 0, 0, 0, 0, 0, 0, 0, 0, 0, 0, 0], e2_block_size = 1024, e2_group_count = 1, e2_initialized = True\<rparr>"

definition demo_node :: fs_node where "demo_node = \<lparr>fs_name = ''a'', fs_inode = 2, fs_is_file = True\<rparr>"

definition demo_inode :: ext2_inode where "demo_inode = \<lparr>i_block = [7, 9, 0, 0, 0, 0, 0, 0, 0, 0, 0, 0, 0, 0, 0], i_size = 1500\<rparr>"

lemma demo_inode_read: "ext2_read_inode demo_layout demo_sectors True (fs_inode demo_node) demo_ext2 = Inr (Some demo_inode)"
proof -
  have byte: "demo_inodes ! i = (if i = 132 then 0xDC else if i = 133 then 5 else if i = 168 then 7 else if i = 172 then 9 else 0)" if "i < 1024" for i
    using that by (simp add: demo_inodes_def)
  have "length demo_inodes = 1024" by (simp add: demo_inodes_def)
  then show ?thesis
    by (simp add: ext2_read_inode_def demo_node_def demo_ext2_def demo_layout_def demo_sectors_def demo_inode_def ext2_read_block_def
      sectors_per_block_def get32_def byte upt_rec Let_def)
qed

theorem ext2_read_returns_slice_witness:
  "ext2_read demo_layout demo_sectors True True (\<lambda>_. True) (\<lambda>_. 0) (Some demo_node) 1020 8 True demo_ext2 = Inr (8, replicate 4 65 @ replicate 4 66)"
proof -
  let ?B = "\<lambda>j :: nat. page_of (if j = 0 then 65 else 66)"
  have len: "length (page_of x) = 1024" for x by (simp add: page_of_def)
  have cut: "take k (page_of x) = replicate (min k 1024) x" "drop k (page_of x) = replicate (1024 - k) x" for k x by (simp_all add: page_of_def)
  have "let p = ext2_get_block_from_inode demo_layout demo_sectors (\<lambda>_. True) (\<lambda>_. 0) demo_inode (of_nat j) demo_ext2 in
      p \<noteq> 0 \<and> ext2_read_block demo_layout demo_sectors p demo_ext2 = Some (?B j) \<and> length (?B j) = 1024" if "j < 2" for j
  proof -
    have "j = 0 \<or> j = 1" using that by auto
    then show ?thesis
      by (auto simp: ext2_get_block_from_inode_def demo_layout_def demo_sectors_def demo_inode_def ext2_read_block_def sectors_per_block_def
        demo_ext2_def len Let_def)
  qed
  from ext2_read_returns_slice [OF demo_inode_read, of 1024 2 "\<lambda>_. True" "\<lambda>_. 0" ?B 1020 8, OF _ _ _ this _ _ _ _ refl] show ?thesis
    by (simp add: demo_node_def demo_ext2_def demo_inode_def upt_rec len cut)
qed

text \<open>
  What lies behind the singly indirect blocks has no block for this code: a read there gives no bytes,
  although the file is larger.
\<close>

lemma doubly_indirect_never_read:
  assumes "n \<ge> EXT2_NDIR_BLOCKS L + e2_block_size s div 4" "n \<ge> EXT2_NDIR_BLOCKS L"
  shows "ext2_get_block_from_inode L rd alloc junk ino n s = 0"
proof -
  have "\<not> n < EXT2_NDIR_BLOCKS L + e2_block_size s div 4" "\<not> n < EXT2_NDIR_BLOCKS L" using assms by (simp_all add: linorder_not_less)
  then show ?thesis by (simp add: ext2_get_block_from_inode_def Let_def)
qed

end
