(* ===== verification/Small_Drivers.thy ===== *)
theory Small_Drivers
  imports Kernel_Log "HOL-Library.Char_ord"
begin

text \<open>
  Drivers that mostly announce themselves: sound (\<^verbatim>\<open>drivers/ac97.c\<close>), the e1000 network card
  (\<^verbatim>\<open>drivers/intel_nic.c\<close>), and the four mock drivers \<^verbatim>\<open>drivers/bluetooth.c\<close>, \<^verbatim>\<open>drivers/gpu.c\<close>, \<^verbatim>\<open>drivers/hdmi.c\<close> and
  \<^verbatim>\<open>drivers/wifi.c\<close>, whose results are what they print. Register writes are recorded in their order; the device
  found on the PCI bus (\<^verbatim>\<open>pci_find_device\<close> is defined nowhere) and what registers read are arguments. Shown here:
  the volume register holds the two halves asked for, reduced to five bits, and never mutes; the driver's
  own initialisation does not set the volume; the address bytes the network card reads.
\<close>

section \<open>Sound\<close>

datatype sound_event = Write16 u32 u16 | Write8 u32 u8 | Bus_master u8 u8 u8

record ac97 =
  nabm_base :: u32
  nam_base :: u32
  ac97_initialized :: bool
  ac97_events :: "sound_event list"

record sound_device =
  sd_bar0 :: u32
  sd_bar1 :: u32
  sd_bus :: u8
  sd_slot :: u8
  sd_function :: u8

definition AC97_MASTER_VOLUME :: u32 where "AC97_MASTER_VOLUME = 0x02"
definition AC97_PCM_OUT_CR :: u32 where "AC97_PCM_OUT_CR = 0x2B"

definition sound_event :: "sound_event \<Rightarrow> ac97 \<Rightarrow> ac97" where
  "sound_event e s = s\<lparr>ac97_events := ac97_events s @ [e]\<rparr>"

definition volume_word :: "u8 \<Rightarrow> u8 \<Rightarrow> u16" where
  "volume_word left right = push_bit 8 (ucast left AND 0x1F) OR (ucast right AND 0x1F)"

definition ac97_set_volume :: "u8 \<Rightarrow> u8 \<Rightarrow> ac97 \<Rightarrow> ac97" where
  "ac97_set_volume left right s =
     (if \<not> ac97_initialized s then s else sound_event (Write16 (nam_base s + AC97_MASTER_VOLUME) (volume_word left right)) s)"

definition ac97_init :: "sound_device option \<Rightarrow> ac97 \<Rightarrow> ac97 \<times> bool" where
  "ac97_init dev s =
     (if ac97_initialized s then (s, True)
      else case dev of None \<Rightarrow> (s, False)
      | Some d \<Rightarrow>
          let s1 = s\<lparr>nam_base := sd_bar0 d AND NOT 0xF, nabm_base := sd_bar1 d AND NOT 0xF\<rparr>;
              s2 = sound_event (Write16 (nam_base s1 + 0) 1) (sound_event (Bus_master (sd_bus d) (sd_slot d) (sd_function d)) s1)
          in ((ac97_set_volume 0 0 s2)\<lparr>ac97_initialized := True\<rparr>, True))"

definition ac97_play_sound :: "u8 list \<Rightarrow> ac97 \<Rightarrow> ac97" where
  "ac97_play_sound buffer s = s"

definition ac97_stop :: "ac97 \<Rightarrow> ac97" where
  "ac97_stop s = (if \<not> ac97_initialized s then s else sound_event (Write8 (nabm_base s + AC97_PCM_OUT_CR) 0) s)"

text \<open>
  The word written holds both halves as the device reads them, modulo 32, and its mute bit is clear: full
  attenuation is all this driver can ask for.
\<close>

theorem volume_word_fields:
  "unat (drop_bit 8 (volume_word l r)) = unat l mod 32 \<and> unat (volume_word l r AND 0xFF) = unat r mod 32 \<and> \<not> bit (volume_word l r) 15"
proof -
  have m: "(0x1F :: u16) = mask 5" "(0x1F :: u8) = mask 5" "(0xFF :: u16) = mask 8" by (simp_all add: mask_eq_exp_minus_1)
  have "drop_bit 8 (volume_word l r) = ucast (l AND 0x1F)" unfolding volume_word_def m by (rule bit_word_eqI) (auto simp: bit_simps)
  moreover have "volume_word l r AND 0xFF = ucast (r AND 0x1F)" unfolding volume_word_def m by (rule bit_word_eqI) (auto simp: bit_simps)
  moreover have "\<not> bit (volume_word l r) 15" unfolding volume_word_def m by (simp add: bit_simps)
  moreover have "unat (x AND 0x1F) = unat x mod 32" for x :: u8 unfolding m by (simp add: unat_mod_distrib take_bit_eq_mod flip: take_bit_eq_mask)
  ultimately show ?thesis by (simp add: unat_cast)
qed

text \<open>The volume set during initialisation is not written, because the driver is not initialised yet.\<close>

theorem init_sets_no_volume:
  assumes "\<not> ac97_initialized s" "ac97_init (Some d) s = (s', ok)"
  shows "ok \<and> ac97_initialized s' \<and>
    ac97_events s' = ac97_events s @ [Bus_master (sd_bus d) (sd_slot d) (sd_function d), Write16 (sd_bar0 d AND NOT 0xF) 1]"
  using assms by (auto simp: ac97_init_def ac97_set_volume_def sound_event_def Let_def)

theorem init_sets_no_volume_witness:
  "ac97_events (fst (ac97_init (Some \<lparr>sd_bar0 = 0xC001, sd_bar1 = 0xC101, sd_bus = 0, sd_slot = 4, sd_function = 0\<rparr>)
     \<lparr>nabm_base = 0, nam_base = 0, ac97_initialized = False, ac97_events = []\<rparr>)) = [Bus_master 0 4 0, Write16 0xC000 1]"
proof -
  let ?s = "\<lparr>nabm_base = 0, nam_base = 0, ac97_initialized = False, ac97_events = []\<rparr>"
  let ?d = "\<lparr>sd_bar0 = 0xC001, sd_bar1 = 0xC101, sd_bus = 0, sd_slot = 4, sd_function = 0\<rparr>"
  show ?thesis using init_sets_no_volume [of ?s ?d "fst (ac97_init (Some ?d) ?s)" "snd (ac97_init (Some ?d) ?s)"] by simp
qed

section \<open>The e1000 network card\<close>

definition E1000_REG_CTRL :: u32 where "E1000_REG_CTRL = 0"

record e1000 =
  e1000_bar :: u32
  e1000_mac :: "u8 list"
  e1000_initialized :: bool
  e1000_writes :: "(u32 \<times> u32) list"

definition e1000_write_reg :: "u32 \<Rightarrow> u32 \<Rightarrow> e1000 \<Rightarrow> e1000" where
  "e1000_write_reg reg v s = s\<lparr>e1000_writes := e1000_writes s @ [(e1000_bar s + reg, v)]\<rparr>"

definition e1000_read_reg :: "(u32 \<Rightarrow> u32) \<Rightarrow> u32 \<Rightarrow> e1000 \<Rightarrow> u32" where
  "e1000_read_reg rd reg s = rd (e1000_bar s + reg)"

text \<open>The text printed with the two numbers is left out.\<close>

definition e1000_init :: "(u32 \<Rightarrow> u32) \<Rightarrow> u32 \<Rightarrow> e1000 \<Rightarrow> e1000" where
  "e1000_init rd bar s =
     (let s1 = s\<lparr>e1000_bar := bar\<rparr>;
          s2 = s1\<lparr>e1000_mac := map (\<lambda>i. ucast (e1000_read_reg rd (0x5400 + of_nat i) s1 AND 0xFF)) [0..<6]\<rparr>
      in (e1000_write_reg E1000_REG_CTRL 0x40 s2)\<lparr>e1000_initialized := True\<rparr>)"

definition e1000_get_mac :: "e1000 \<Rightarrow> u8 list" where "e1000_get_mac s = e1000_mac s"

text \<open>Nothing is sent, initialised or not.\<close>

definition e1000_send :: "u8 list \<Rightarrow> u16 \<Rightarrow> e1000 \<Rightarrow> e1000" where "e1000_send b n s = s"

text \<open>
  With a little-endian register file the address read is the six bytes that begin at register 0x5400 of
  the card: each 32-bit read begins one byte further.
\<close>

theorem e1000_reads_mac_bytes:
  assumes "\<And>a. rd a = ucast (mem a) OR push_bit 8 (ucast (mem (a + 1))) OR push_bit 16 (ucast (mem (a + 2))) OR push_bit 24 (ucast (mem (a + 3)))"
  shows "e1000_get_mac (e1000_init rd bar s) = map (\<lambda>i. mem (bar + 0x5400 + of_nat i)) [0..<6]"
proof -
  have "ucast (rd a AND 0xFF) = mem a" for a :: u32
  proof -
    have m: "(0xFF :: u32) = mask 8" by (simp add: mask_eq_exp_minus_1)
    show ?thesis unfolding assms m by (rule bit_word_eqI) (auto simp: bit_simps)
  qed
  then show ?thesis by (simp add: e1000_get_mac_def e1000_init_def e1000_read_reg_def e1000_write_reg_def Let_def add.assoc)
qed

theorem e1000_reads_mac_bytes_witness:
  "e1000_get_mac (e1000_init (\<lambda>_. 0x01010101) 0xF0000000 \<lparr>e1000_bar = 0, e1000_mac = [], e1000_initialized = False, e1000_writes = []\<rparr>) =
     map (\<lambda>i :: nat. 1) [0..<6]"
  by (rule e1000_reads_mac_bytes [where mem = "\<lambda>_. 1"]) simp

section \<open>Mock drivers\<close>

definition line_of :: "string \<Rightarrow> string" where "line_of t = t @ [CHR 0x0A]"

definition bluetooth_init :: "string list" where
  "bluetooth_init = map line_of [''[Bluetooth] Initializing HCI Interface...'', ''[Bluetooth] HCI controller not detected. Stub mode active.'']"

definition bluetooth_scan :: "string list" where
  "bluetooth_scan = [line_of ''[Bluetooth] Scanning for nearby devices...'']"

definition bluetooth_pair :: "string \<Rightarrow> string list \<times> bool" where
  "bluetooth_pair device_mac = ([line_of (''[Bluetooth] Attempting to pair with '' @ device_mac)], False)"

definition gpu_init :: "string list" where
  "gpu_init = map line_of [''[GPU] Probing for Graphics Acceleration Hardware...'', ''[GPU] No supported GPU found. Falling back to software rendering.'']"

text \<open>The texts with numbers are given as format and arguments.\<close>

definition gpu_submit_command_buffer :: "u32 \<Rightarrow> string \<times> fmt_arg list" where
  "gpu_submit_command_buffer sz = (line_of ''[GPU] Submitting command buffer of size %u bytes'', [Num sz])"

definition hdmi_set_resolution :: "u32 \<Rightarrow> u32 \<Rightarrow> string \<times> fmt_arg list" where
  "hdmi_set_resolution width height = (line_of ''[HDMI] Setting resolution to %dx%d'', [Num width, Num height])"

definition hdmi_init :: "string list" where
  "hdmi_init = map line_of [''[HDMI] Initializing HDMI Interface...'', ''[HDMI] Output sync failed. Stub mode active.'']"

definition wifi_init :: "string list" where
  "wifi_init = map line_of [''[WiFi] Initializing 802.11 Wireless Networking Interface...'', ''[WiFi] Hardware not found. Running in stub mode.'']"

definition wifi_connect :: "string \<Rightarrow> string \<Rightarrow> string list \<times> bool" where
  "wifi_connect ssid password = ([line_of (''[WiFi] Attempting to connect to SSID: '' @ ssid)], False)"

definition wifi_scan :: "string list" where
  "wifi_scan = map line_of [''[WiFi] Scanning for available networks...'', ''[WiFi] No networks found.'']"

end
