(* ===== verification/Demo_Apps.thy ===== *)
theory Demo_Apps
  imports Terminal Small_Apps
begin

text \<open>
  The package manager (\<^verbatim>\<open>gui/apps/package_manager.c\<close>) and the file manager (\<^verbatim>\<open>gui/apps/file_manager.c\<close>): windows
  filled with labels and buttons when they are opened. Results of allocations are arguments: the addresses
  and whether memory for the texts was found, by number of the widget. \<^verbatim>\<open>window_clear\<close> is defined nowhere
  and left out, as is the rendering at the end. Shown here: the widgets of the package manager are those
  of its table, in order; the file manager shows the first fourteen entries of the root directory.
\<close>

section \<open>Filling a window\<close>

type_synonym creator = "widget_heap \<Rightarrow> fault + widget_heap \<times> nat option"

text \<open>Creating a widget and adding it to a window; nothing is added without memory.\<close>

definition add_created :: "nat \<Rightarrow> creator \<Rightarrow> window_manager \<times> widget_heap \<Rightarrow> (fault + window_manager \<times> widget_heap) option" where
  "add_created w f = (\<lambda>(wm, s). case f s of Inl e \<Rightarrow> Some (Inl e)
     | Inr (s1, None) \<Rightarrow> Some (Inr (wm, s1))
     | Inr (s1, Some c) \<Rightarrow> window_add_widget w c wm s1)"

fun add_all :: "nat \<Rightarrow> creator list \<Rightarrow> window_manager \<times> widget_heap \<Rightarrow> (fault + window_manager \<times> widget_heap) option" where
  "add_all w [] x = Some (Inr x)"
| "add_all w (f # fs) x = Option.bind (add_created w f x) (\<lambda>r. case r of Inl e \<Rightarrow> Some (Inl e) | Inr y \<Rightarrow> add_all w fs y)"

section \<open>The package manager\<close>

record package =
  pk_name :: string
  pk_version :: string
  pk_description :: string
  pk_installed :: bool

definition packages :: "package list" where
  "packages =
     [\<lparr>pk_name = ''Terminal'', pk_version = ''1.1.0'', pk_description = ''System command line interface'', pk_installed = True\<rparr>,
      \<lparr>pk_name = ''Notepad'', pk_version = ''1.0.5'', pk_description = ''Simple text editor'', pk_installed = True\<rparr>,
      \<lparr>pk_name = ''File Manager'', pk_version = ''1.0.2'', pk_description = ''VFS browser'', pk_installed = True\<rparr>,
      \<lparr>pk_name = ''Web Browser'', pk_version = ''0.9.0'', pk_description = ''Basic HTML viewer'', pk_installed = False\<rparr>,
      \<lparr>pk_name = ''Calculator'', pk_version = ''1.0.0'', pk_description = ''Scientific calculator'', pk_installed = False\<rparr>]"

definition package_line :: "package \<Rightarrow> string" where
  "package_line p = pk_name p @ '' v'' @ pk_version p @ '' - '' @ pk_description p @ '' ['' @
     (if pk_installed p then ''Installed'' else ''Click to Install'') @ '']''"

text \<open>The widgets made for the packages from line \<open>y\<close> on; \<open>k\<close> is the number of the next widget.\<close>

fun package_widgets :: "(nat \<Rightarrow> nat option) \<Rightarrow> (nat \<Rightarrow> bool) \<Rightarrow> nat \<Rightarrow> int \<Rightarrow> package list \<Rightarrow> creator list" where
  "package_widgets al mem k y [] = []"
| "package_widgets al mem k y (p # ps) =
     label_create (al k) (mem k) 10 y (Some (package_line p)) #
     (if pk_installed p then package_widgets al mem (k + 1) (y + 40) ps
      else button_create (al (k + 1)) (mem (k + 1)) 450 (y - 5) 80 25 (Some ''Install'') # package_widgets al mem (k + 2) (y + 40) ps)"

definition package_manager_init :: "nat option \<Rightarrow> bool \<Rightarrow> window \<Rightarrow> (nat \<Rightarrow> nat option) \<Rightarrow> (nat \<Rightarrow> bool) \<Rightarrow> window_manager \<times> widget_heap
    \<Rightarrow> (fault + nat option \<times> window_manager \<times> widget_heap) option" where
  "package_manager_init alloc buf fresh al mem = (\<lambda>(wm, s).
     case window_create alloc buf fresh (Some ''Package Manager'') 200 100 600 400 wm of Inl e \<Rightarrow> Some (Inl e)
     | Inr (wm1, None) \<Rightarrow> Some (Inr (None, wm1, s))
     | Inr (wm1, Some w) \<Rightarrow> map_option (\<lambda>r. fault_bind r (\<lambda>x. Inr (Some w, x))) (add_all w (package_widgets al mem 0 20 packages) (wm1, s)))"

definition package_manager_draw :: "(nat \<Rightarrow> window_manager \<times> gfx \<Rightarrow> (fault + window_manager \<times> gfx) option) \<Rightarrow> nat option \<Rightarrow> window_manager \<times> gfx
    \<Rightarrow> (fault + window_manager \<times> gfx) option" where
  "package_manager_draw render p = app_draw render p"

section \<open>The file manager\<close>

text \<open>
  The loop over the entries of a directory; the entry after the fourteenth is read and not shown.
\<close>

function file_labels :: "(nat \<Rightarrow> string option) \<Rightarrow> (nat \<Rightarrow> nat option) \<Rightarrow> (nat \<Rightarrow> bool) \<Rightarrow> nat \<Rightarrow> int \<Rightarrow> creator list" where
  "file_labels rd al mem i y = (case rd i of None \<Rightarrow> []
     | Some name \<Rightarrow> if \<not> i + 1 < 15 then [] else label_create (al i) (mem i) 20 y (Some name) # file_labels rd al mem (i + 1) (y + 20))"
  by pat_completeness auto

termination by (relation "measure (\<lambda>(_, _, _, i, _). 15 - i)") auto

declare file_labels.simps [simp del]

definition file_manager_init :: "nat option \<Rightarrow> bool \<Rightarrow> window \<Rightarrow> (nat \<Rightarrow> nat option) \<Rightarrow> (nat \<Rightarrow> bool) \<Rightarrow> (nat \<Rightarrow> string option) option
    \<Rightarrow> window_manager \<times> widget_heap \<Rightarrow> (fault + nat option \<times> window_manager \<times> widget_heap) option" where
  "file_manager_init alloc buf fresh al mem root = (\<lambda>(wm, s).
     case window_create alloc buf fresh (Some ''File Manager'') 150 150 500 350 wm of Inl e \<Rightarrow> Some (Inl e)
     | Inr (wm1, None) \<Rightarrow> Some (Inr (None, wm1, s))
     | Inr (wm1, Some w) \<Rightarrow> map_option (\<lambda>r. fault_bind r (\<lambda>x. Inr (Some w, x)))
         (case root of None \<Rightarrow> Some (Inr (wm1, s)) | Some rd \<Rightarrow> add_all w (file_labels rd al mem 0 50) (wm1, s)))"

definition file_manager_draw :: "(nat \<Rightarrow> window_manager \<times> gfx \<Rightarrow> (fault + window_manager \<times> gfx) option) \<Rightarrow> nat option \<Rightarrow> window_manager \<times> gfx
    \<Rightarrow> (fault + window_manager \<times> gfx) option" where
  "file_manager_draw render p = app_draw render p"

section \<open>The widgets of a window\<close>

text \<open>A creator that makes an unlinked widget with a text at an address, whatever the widgets are.\<close>

definition creates :: "creator \<Rightarrow> nat \<times> string \<Rightarrow> bool" where
  "creates f = (\<lambda>(c, t). \<forall>s. \<exists>s' v. f s = Inr (s', Some c) \<and> wg_store s' = (wg_store s)(c \<mapsto> v) \<and> wd_next v = None \<and> wd_text v = Some t)"

lemma label_creates: "creates (label_create (Some c) True x y (Some t)) (c, t)"
  by (auto simp: creates_def label_create_def copied_text_def put_widget_def take_id_def new_widget_def)

lemma button_creates: "creates (button_create (Some c) True x y w h (Some t)) (c, t)"
  by (auto simp: creates_def button_create_def copied_text_def put_widget_def take_id_def new_widget_def)

text \<open>The widgets of a window, from the first to the last, with their texts.\<close>

definition window_shows :: "nat \<Rightarrow> (nat \<times> string) list \<Rightarrow> window_manager \<times> widget_heap \<Rightarrow> bool" where
  "window_shows w pts = (\<lambda>(wm, s). \<exists>win. wm_store wm w = Some win \<and> chain (wg_store s) (w_widgets win) (map fst pts) \<and>
     (\<forall>(p, t) \<in> set pts. map_option wd_text (wg_store s p) = Some (Some t)))"

lemma append_keeps_text:
  assumes "append_widget head c s = Some (Inr (s', h))"
  shows "map_option wd_text (wg_store s' q) = map_option wd_text (wg_store s q)"
proof (cases head)
  case (Some p)
  then obtain r where "fault_bind r (\<lambda>q. fault_bind (on_widget q (\<lambda>w. w\<lparr>wd_next := Some c\<rparr>) s) (\<lambda>s1. Inr (s1, p))) = Inr (s', h)"
    using assms by (auto simp: append_widget_def bind_eq_Some_conv)
  then obtain q' where "fault_bind (on_widget q' (\<lambda>w. w\<lparr>wd_next := Some c\<rparr>) s) (\<lambda>s1. Inr (s1, p)) = Inr (s', h)" by (rule fault_bind_InrE)
  then have "on_widget q' (\<lambda>w. w\<lparr>wd_next := Some c\<rparr>) s = Inr s'" by (auto elim: fault_bind_InrE)
  then show ?thesis by (auto simp: on_widget_def put_widget_def split: option.splits)
qed (use assms in \<open>simp add: append_widget_def\<close>)

lemma add_created_appends:
  assumes "creates f (c, t)" "window_shows w pts x" "distinct (map fst pts)" "c \<notin> fst ` set pts"
  shows "\<exists>y. add_created w f x = Some (Inr y) \<and> window_shows w (pts @ [(c, t)]) y"
proof -
  obtain wm s where x: "x = (wm, s)" by (cases x)
  obtain win where win: "wm_store wm w = Some win" "chain (wg_store s) (w_widgets win) (map fst pts)"
    and texts: "\<forall>(p, t) \<in> set pts. map_option wd_text (wg_store s p) = Some (Some t)"
    using assms(2) x by (auto simp: window_shows_def)
  obtain s1 v where f: "f s = Inr (s1, Some c)" "wg_store s1 = (wg_store s)(c \<mapsto> v)" "wd_next v = None" "wd_text v = Some t"
    using assms(1) unfolding creates_def by blast
  have "chain (wg_store s1) (w_widgets win) (map fst pts)" using chain_frame [OF win(2)] assms(4) f(2) by simp
  moreover have "wg_store s1 c = Some v" using f(2) by simp
  moreover have "c \<notin> set (map fst pts)" using assms(4) by simp
  ultimately obtain s2 h where a: "append_widget (w_widgets win) c s1 = Some (Inr (s2, h))" "chain (wg_store s2) (Some h) (map fst pts @ [c])"
    "w_widgets win \<noteq> None \<longrightarrow> w_widgets win = Some h" using append_chain [OF _ assms(3) _ _ f(3)] by blast
  have "map_option wd_text (wg_store s2 p) = Some (Some u)" if elem: "(p, u) \<in> set (pts @ [(c, t)])" for p u
  proof -
    consider "p = c" "u = t" | "(p, u) \<in> set pts" "p \<noteq> c" using elem assms(4) by force
    then have "map_option wd_text (wg_store s1 p) = Some (Some u)"
    proof cases
      case 1
      then show ?thesis using f(2,4) by simp
    next
      case 2
      then show ?thesis using texts f(2) by auto
    qed
    then show ?thesis using append_keeps_text [OF a(1)] by simp
  qed
  then have texts2: "\<forall>(p, t) \<in> set (pts @ [(c, t)]). map_option wd_text (wg_store s2 p) = Some (Some t)" by blast
  show ?thesis
  proof (cases "w_widgets win")
    case None
    then show ?thesis using x win a f(1) texts2 by (auto simp: add_created_def window_add_widget_def on_window_def window_shows_def)
  next
    case (Some p)
    then show ?thesis using x win a f(1) texts2 by (auto simp: add_created_def window_add_widget_def window_shows_def)
  qed
qed

lemma add_all_appends:
  assumes "list_all2 creates fs cs" "window_shows w pts x" "distinct (map fst (pts @ cs))"
  shows "\<exists>y. add_all w fs x = Some (Inr y) \<and> window_shows w (pts @ cs) y"
  using assms
proof (induction fs cs arbitrary: pts x rule: list_all2_induct)
  case (Cons f fs ct cs)
  obtain c t where ct: "ct = (c, t)" by (cases ct)
  obtain y where y: "add_created w f x = Some (Inr y)" "window_shows w (pts @ [ct]) y"
    using add_created_appends [of f c t w pts x] Cons.hyps(1) Cons.prems ct by auto
  show ?case using Cons.IH [OF y(2)] Cons.prems(2) y(1) by simp
qed simp

lemma new_window_widgets [simp]: "w_widgets (new_window fresh t x y w h n) = w_widgets fresh"
  by (simp add: new_window_def place_buttons_def Let_def)

lemma filled_window:
  assumes "wm_ok wm" "\<And>p. alloc = Some p \<Longrightarrow> wm_store wm p = None" "w_widgets fresh = None" "list_all2 creates fs cs" "distinct (map fst cs)"
  shows "\<exists>wm1 r. window_create alloc buf fresh title x y width height wm = Inr (wm1, r) \<and>
    (\<forall>w. r = Some w \<longrightarrow> (\<exists>z. add_all w fs (wm1, s) = Some (Inr z) \<and> window_shows w cs z))"
proof -
  obtain wm1 r where c: "window_create alloc buf fresh title x y width height wm = Inr (wm1, r)"
    and new: "\<forall>w. r = Some w \<longrightarrow> (\<exists>t. wm_store wm1 w = Some (new_window fresh t x y width height (length (wm_windows wm))))"
    using create_ok [of wm alloc buf fresh title x y width height] assms(1,2) by (fastforce split: option.splits)
  have "\<exists>z. add_all w fs (wm1, s) = Some (Inr z) \<and> window_shows w cs z" if "r = Some w" for w
  proof -
    have "window_shows w [] (wm1, s)" using new that assms(3) by (auto simp: window_shows_def)
    from add_all_appends [OF assms(4) this] show ?thesis using assms(5) by simp
  qed
  with c show ?thesis by blast
qed

text \<open>The labels of the file manager: the entries before the first missing one, fourteen at most.\<close>

definition shown_entries :: "(nat \<Rightarrow> string option) \<Rightarrow> nat list" where
  "shown_entries rd = takeWhile (\<lambda>k. rd k \<noteq> None) [0..<14]"

lemma file_labels_create:
  assumes "\<And>k. al k = Some (ptr k)" "\<And>k. mem k"
  shows "list_all2 creates (file_labels rd al mem i y) (map (\<lambda>k. (ptr k, the (rd k))) (takeWhile (\<lambda>k. rd k \<noteq> None) [i..<14]))"
proof (induction "14 - i" arbitrary: i y)
  case 0
  then show ?case by (subst file_labels.simps) (auto split: option.split)
next
  case (Suc n)
  have u: "[i..<14] = i # [Suc i..<14]" using Suc.hyps(2) by (simp add: upt_conv_Cons)
  show ?case
  proof (cases "rd i")
    case None
    then show ?thesis unfolding u by (subst file_labels.simps) simp
  next
    case (Some t)
    moreover have "list_all2 creates (file_labels rd al mem (Suc i) (y + 20)) (map (\<lambda>k. (ptr k, the (rd k))) (takeWhile (\<lambda>k. rd k \<noteq> None) [Suc i..<14]))"
      using Suc.hyps(2) by (intro Suc.hyps(1)) simp
    ultimately show ?thesis unfolding u
      using Suc.hyps(2) assms label_creates by (subst file_labels.simps) simp
  qed
qed

text \<open>
  With memory for everything, a file manager that opens shows the first entries of the root directory,
  fourteen at most, in their order, one label with the name of each and no other widget.
\<close>

theorem file_manager_shows_first_entries:
  assumes "wm_ok wm" "\<And>p. alloc = Some p \<Longrightarrow> wm_store wm p = None" "w_widgets fresh = None"
    and "inj ptr" "\<And>k. al k = Some (ptr k)" "\<And>k. mem k"
  shows "\<exists>p wm1 s1. file_manager_init alloc buf fresh al mem (Some rd) (wm, s) = Some (Inr (p, wm1, s1)) \<and>
    (\<forall>w. p = Some w \<longrightarrow> window_shows w (map (\<lambda>k. (ptr k, the (rd k))) (shown_entries rd)) (wm1, s1))"
proof -
  let ?cs = "map (\<lambda>k. (ptr k, the (rd k))) (shown_entries rd)"
  have fs: "list_all2 creates (file_labels rd al mem 0 50) ?cs" unfolding shown_entries_def by (rule file_labels_create [OF assms(5,6)])
  have d: "distinct (map fst ?cs)"
    using assms(4) by (simp add: distinct_map shown_entries_def comp_def inj_on_def inj_def)
  obtain wm1 r where c: "window_create alloc buf fresh (Some ''File Manager'') 150 150 500 350 wm = Inr (wm1, r)"
    and w: "\<And>w. r = Some w \<Longrightarrow> \<exists>z. add_all w (file_labels rd al mem 0 50) (wm1, s) = Some (Inr z) \<and> window_shows w ?cs z"
    using filled_window [OF assms(1-3) fs d] by blast
  show ?thesis
  proof (cases r)
    case None
    then show ?thesis using c by (simp add: file_manager_init_def)
  next
    case (Some v)
    then show ?thesis using c w [OF Some] by (auto simp: file_manager_init_def)
  qed
qed

definition blank_window :: window where "blank_window = demo_fresh\<lparr>w_widgets := None\<rparr>"

lemma demo_wm0_facts: "wm_ok demo_wm0" "wm_store demo_wm0 p = None" "w_widgets blank_window = None"
  using wm_run_ok [OF demo_wm0_run] by (simp_all add: demo_wm0_def window_manager_init_def blank_window_def)

definition demo_heap :: widget_heap where "demo_heap = \<lparr>wg_store = (\<lambda>_. None), next_widget_id = 1\<rparr>"

theorem file_manager_shows_first_entries_witness:
  "\<exists>p wm1 s1. file_manager_init (Some 5) True blank_window (\<lambda>k. Some (100 + k)) (\<lambda>_. True) (Some (\<lambda>k. if k = 0 then Some ''bin'' else None)) (demo_wm0, demo_heap) =
     Some (Inr (p, wm1, s1)) \<and> (\<forall>w. p = Some w \<longrightarrow> window_shows w [(100, ''bin'')] (wm1, s1))"
proof -
  let ?rd = "\<lambda>k :: nat. if k = 0 then Some ''bin'' else None"
  have "shown_entries ?rd = [0]" by (simp add: shown_entries_def upt_rec)
  with file_manager_shows_first_entries [of demo_wm0 "Some 5" blank_window "\<lambda>k. 100 + k" "\<lambda>k. Some (100 + k)" "\<lambda>_. True" True ?rd demo_heap]
  show ?thesis by (simp add: demo_wm0_facts inj_def)
qed

text \<open>
  Likewise the package manager shows its table: a line for each package, and a button after each package
  that is not installed.
\<close>

theorem package_manager_lists_packages:
  assumes "wm_ok wm" "\<And>p. alloc = Some p \<Longrightarrow> wm_store wm p = None" "w_widgets fresh = None"
    and "inj ptr" "\<And>k. al k = Some (ptr k)" "\<And>k. mem k"
  shows "\<exists>p wm1 s1. package_manager_init alloc buf fresh al mem (wm, s) = Some (Inr (p, wm1, s1)) \<and>
    (\<forall>w. p = Some w \<longrightarrow> window_shows w (zip (map ptr [0..<7])
      (concat (map (\<lambda>k. package_line k # (if pk_installed k then [] else [''Install''])) packages))) (wm1, s1))"
proof -
  let ?cs = "zip (map ptr [0..<7]) (concat (map (\<lambda>k. package_line k # (if pk_installed k then [] else [''Install''])) packages))"
  have up: "[0..<7] = [0, Suc 0, Suc (Suc 0), Suc (Suc (Suc 0)), Suc (Suc (Suc (Suc 0))), Suc (Suc (Suc (Suc (Suc 0)))), Suc (Suc (Suc (Suc (Suc (Suc 0)))))]" by (simp add: upt_rec)
  have cs: "map fst ?cs = map ptr [0, Suc 0, Suc (Suc 0), Suc (Suc (Suc 0)), Suc (Suc (Suc (Suc 0))), Suc (Suc (Suc (Suc (Suc 0)))), Suc (Suc (Suc (Suc (Suc (Suc 0)))))]" by (simp add: up packages_def)
  have fs: "list_all2 creates (package_widgets al mem 0 20 packages) ?cs"
    using assms(5,6) label_creates button_creates by (simp add: up packages_def)
  have d: "distinct (map fst ?cs)" using assms(4) unfolding cs by (simp add: inj_eq)
  obtain wm1 r where c: "window_create alloc buf fresh (Some ''Package Manager'') 200 100 600 400 wm = Inr (wm1, r)"
    and w: "\<And>w. r = Some w \<Longrightarrow> \<exists>z. add_all w (package_widgets al mem 0 20 packages) (wm1, s) = Some (Inr z) \<and> window_shows w ?cs z"
    using filled_window [OF assms(1-3) fs d] by blast
  show ?thesis
  proof (cases r)
    case None
    then show ?thesis using c by (simp add: package_manager_init_def)
  next
    case (Some v)
    then show ?thesis using c w [OF Some] by (auto simp: package_manager_init_def)
  qed
qed

theorem package_manager_lists_packages_witness:
  "\<exists>p wm1 s1. package_manager_init (Some 5) True blank_window (\<lambda>k. Some (100 + k)) (\<lambda>_. True) (demo_wm0, demo_heap) = Some (Inr (p, wm1, s1)) \<and>
     (\<forall>w. p = Some w \<longrightarrow> window_shows w (zip (map (\<lambda>k. 100 + k) [0..<7])
       (concat (map (\<lambda>k. package_line k # (if pk_installed k then [] else [''Install''])) packages))) (wm1, s1))"
  using package_manager_lists_packages [of demo_wm0 "Some 5" blank_window "\<lambda>k. 100 + k" "\<lambda>k. Some (100 + k)" "\<lambda>_. True" True demo_heap]
  by (simp add: demo_wm0_facts inj_def)

end
