(* ===== verification/Disk_Stack.thy ===== *)
theory Disk_Stack
  imports Ata Ext2
begin

text \<open>
  Files on a disk: the ext2 file system (Ext2) over the disk driver (Ata). What a file system relies on is the
  locale \<open>block_device\<close>: reading sectors gives the bytes of the disk at their place. The driver with a drive
  that holds these bytes provides it, for the 28-bit addresses it can send. The theorem at the end
  follows a read of a file from its inode on the disk down to the bytes of its blocks.
\<close>

section \<open>A disk as its bytes\<close>

locale block_device =
  fixes rd :: sectors and D :: "nat \<Rightarrow> u8"
  assumes rd_bytes: "n \<noteq> 0 \<Longrightarrow> unat lba + unat n \<le> 2 ^ 28 \<Longrightarrow>
    rd lba n = Some (map D [512 * unat lba..<512 * (unat lba + unat n)])"
begin

text \<open>A block is the bytes at its place.\<close>

lemma read_block_bytes:
  assumes "sector_size L = 512" "unat (e2_block_size s) = 512 * k" "0 < k" "k < 256" "(unat p + 1) * k \<le> 2 ^ 28"
  shows "ext2_read_block L rd p s = Some (map D [unat p * (512 * k)..<(unat p + 1) * (512 * k)])"
proof -
  have spb: "unat (sectors_per_block L s) = k" using assms(1,2) by (simp add: sectors_per_block_def unat_div_distrib)
  then have cnt: "unat (ucast (sectors_per_block L s) :: u8) = k" using assms(4) by (simp add: unat_cast)
  have "unat p * k < 2 ^ 32" using assms(3,5) by (simp add: algebra_simps)
  then have lba: "unat (p * sectors_per_block L s) = unat p * k" using spb by (subst unat_mult_lem [THEN iffD1]) simp_all
  have "(ucast (sectors_per_block L s) :: u8) \<noteq> 0" using cnt assms(3) by (metis less_numeral_extra(3) unat_0)
  then show ?thesis using rd_bytes [of "ucast (sectors_per_block L s)" "p * sectors_per_block L s"] lba cnt assms(5)
    by (simp add: ext2_read_block_def algebra_simps)
qed

text \<open>An inode is decoded from the bytes at its place in the table of its group.\<close>

lemma read_inode_bytes:
  assumes "sector_size L = 512" "unat (e2_block_size s) = 512 * k" "0 < k" "k < 256" "n \<noteq> 0" "s_inodes_per_group (e2_super s) \<noteq> 0"
    and "e2_bgds s = Inr d" "(grp + 1) * unat (sizeof_bgd L) \<le> length d" "grp = unat ((n - 1) div s_inodes_per_group (e2_super s))"
    and "off = (n - 1) mod s_inodes_per_group (e2_super s) * s_inode_size (e2_super s)"
    and "p = bg_inode_table L d grp + off div e2_block_size s" "(unat p + 1) * k \<le> 2 ^ 28"
    and "at = unat (off mod e2_block_size s)" "at + sizeof_inode L \<le> 512 * k"
  shows "ext2_read_inode L rd True n s =
    Inr (Some (as_inode L (map D [unat p * (512 * k) + at..<unat p * (512 * k) + at + sizeof_inode L])))"
proof -
  note block = read_block_bytes [OF assms(1-4), of p, OF assms(12)]
  have "take (sizeof_inode L) (drop at (map D [unat p * (512 * k)..<(unat p + 1) * (512 * k)])) =
      map D [unat p * (512 * k) + at..<unat p * (512 * k) + at + sizeof_inode L]"
    using assms(14) by (simp add: take_map drop_map algebra_simps)
  moreover have "length (map D [unat p * (512 * k)..<(unat p + 1) * (512 * k)]) = 512 * k" by (simp add: algebra_simps)
  ultimately show ?thesis using assms(5-8,14) block
    by (simp add: ext2_read_inode_def assms(9) [symmetric] assms(10) [symmetric] assms(11) [symmetric] assms(13) [symmetric] Let_def del: length_map)
qed

text \<open>A file whose blocks are direct is the bytes of these blocks.\<close>

lemma read_file_bytes:
  assumes "ext2_read_inode L rd True (fs_inode nd) s = Inr (Some ino)" "fs_is_file nd"
    and "sector_size L = 512" "unat (e2_block_size s) = 512 * k" "0 < k" "k < 256"
    and "N \<le> unat (EXT2_NDIR_BLOCKS L)" "\<And>j. j < N \<Longrightarrow> i_block ino ! j \<noteq> 0 \<and> (unat (i_block ino ! j) + 1) * k \<le> 2 ^ 28"
    and "unat (i_size ino) \<le> N * (512 * k)" "unat (i_size ino) + 512 * k < 2 ^ 32" "unat offset < unat (i_size ino)" "0 < sz"
    and "file = concat (map (\<lambda>j. map D [unat (i_block ino ! j) * (512 * k)..<(unat (i_block ino ! j) + 1) * (512 * k)]) [0..<N])"
    and "bytes = take (unat sz) (drop (unat offset) (take (unat (i_size ino)) file))"
  shows "ext2_read L rd True True alloc junk (Some nd) offset sz True s = Inr (sint (of_nat (length bytes) :: u32), bytes)"
proof (rule ext2_read_returns_slice [OF assms(1,2) refl, where N = N
    and B = "\<lambda>j. map D [unat (i_block ino ! j) * (512 * k)..<(unat (i_block ino ! j) + 1) * (512 * k)]"])
  fix j assume j: "j < N"
  have "j < unat (EXT2_NDIR_BLOCKS L)" using j assms(7) by simp
  then have "unat (of_nat j :: u32) = j" by (metis of_nat_inverse unsigned_less order.strict_trans)
  then have u: "unat (of_nat j :: u32) = j" "of_nat j < EXT2_NDIR_BLOCKS L" using \<open>j < unat (EXT2_NDIR_BLOCKS L)\<close> by (simp_all add: word_less_nat_alt)
  show "let p = ext2_get_block_from_inode L rd alloc junk ino (of_nat j) s in
      p \<noteq> 0 \<and> ext2_read_block L rd p s = Some (map D [unat (i_block ino ! j) * (512 * k)..<(unat (i_block ino ! j) + 1) * (512 * k)]) \<and>
      length (map D [unat (i_block ino ! j) * (512 * k)..<(unat (i_block ino ! j) + 1) * (512 * k)]) = unat (e2_block_size s)"
    using read_block_bytes [OF assms(3-6), of "i_block ino ! j"] assms(4) assms(8) [OF j] u
    by (simp add: ext2_get_block_from_inode_def Let_def algebra_simps)
qed (use assms in simp_all)

end

section \<open>The disk driver\<close>

definition word_bytes :: "u16 list \<Rightarrow> u8 list" where
  "word_bytes ws = concat (map (\<lambda>w. [ucast w, ucast (drop_bit 8 w)]) ws)"

definition disk_word :: "(nat \<Rightarrow> u8) \<Rightarrow> nat \<Rightarrow> u16" where
  "disk_word D i = ucast (D i) OR push_bit 8 (ucast (D (i + 1)))"

lemma disk_word_bytes: "ucast (disk_word D i) = D i" "ucast (drop_bit 8 (disk_word D i)) = D (i + 1)"
  unfolding disk_word_def by (rule bit_word_eqI; auto simp: bit_simps dest: bit_imp_le_length)+

lemma word_bytes_of_disk: "word_bytes (map (\<lambda>k. disk_word D (a + 2 * k)) [0..<n]) = map D [a..<a + 2 * n]"
proof (induction n)
  case (Suc n)
  have "[a..<a + 2 * Suc n] = [a..<a + 2 * n] @ [a + 2 * n, a + 2 * n + 1]" by simp
  then show ?case using Suc by (simp add: word_bytes_def disk_word_bytes del: upt_Suc add: upt_Suc_append)
qed (simp add: word_bytes_def)

text \<open>What the driver reads with a drive that may depend on the command.\<close>

definition ata_sectors :: "(u32 \<Rightarrow> u8 \<Rightarrow> drive) \<Rightarrow> ata \<Rightarrow> sectors" where
  "ata_sectors dev a lba n = (case ata_read_sectors (dev lba n) lba n a of Some (a', Some ws) \<Rightarrow> Some (word_bytes ws) | _ \<Rightarrow> None)"

text \<open>
  A drive that answers and, given the address the driver sends (its low 28 bits, as \<open>read_sectors_transfers\<close> in Ata
  shows), puts the words of the disk on the data port.
\<close>

definition drive_serves :: "(nat \<Rightarrow> u8) \<Rightarrow> (u32 \<Rightarrow> u8 \<Rightarrow> drive) \<Rightarrow> ata \<Rightarrow> bool" where
  "drive_serves D dev a \<longleftrightarrow> (\<forall>lba n. drive_answers (dev lba n) \<and>
     (\<forall>k. data_reads (dev lba n) (ata_nw a + k) = disk_word D (512 * (unat lba mod 2 ^ 28) + 2 * k)))"

lemma ata_block_device:
  assumes "ata_initialized a" "drive_serves D dev a"
  shows "block_device (ata_sectors dev a) D"
proof
  fix n :: u8 and lba :: u32
  assume n: "n \<noteq> 0" and fits: "unat lba + unat n \<le> 2 ^ 28"
  have d: "drive_answers (dev lba n)" "\<And>k. data_reads (dev lba n) (ata_nw a + k) = disk_word D (512 * (unat lba mod 2 ^ 28) + 2 * k)"
    using assms(2) by (simp_all add: drive_serves_def)
  have "0 < unat n" using n by (simp add: word_unat_eq_iff)
  then have lba: "unat lba mod 2 ^ 28 = unat lba" using fits by simp
  obtain a' where "ata_read_sectors (dev lba n) lba n a = Some (a', Some (map (data_reads (dev lba n)) [ata_nw a..<ata_nw a + 256 * unat n]))"
    using read_sectors_transfers [OF assms(1) n d(1), of lba] by blast
  moreover have "map (data_reads (dev lba n)) [ata_nw a..<ata_nw a + 256 * unat n] = map (\<lambda>k. disk_word D (512 * unat lba + 2 * k)) [0..<256 * unat n]"
    by (rule nth_equalityI) (simp_all only: length_map length_upt nth_map nth_upt d(2) lba diff_zero add_0 add_diff_cancel_left' nat_add_left_cancel_less)
  ultimately show "ata_sectors dev a lba n = Some (map D [512 * unat lba..<512 * (unat lba + unat n)])"
    by (simp add: ata_sectors_def word_bytes_of_disk distrib_left)
qed

text \<open>The drive with a given contents, for a driver in state \<open>a\<close>, which may have read words before.\<close>

definition disk_drive :: "(nat \<Rightarrow> u8) \<Rightarrow> ata \<Rightarrow> u32 \<Rightarrow> u8 \<Rightarrow> drive" where
  "disk_drive D a lba n = \<lparr>status_reads = (\<lambda>_. 0x48), data_reads = (\<lambda>k. disk_word D (512 * (unat lba mod 2 ^ 28) + 2 * (k - ata_nw a)))\<rparr>"

lemma disk_drive_serves: "ata_nw a' = ata_nw a \<Longrightarrow> drive_serves D (disk_drive D a) a'"
proof -
  assume nw: "ata_nw a' = ata_nw a"
  have "drive_answers (disk_drive D a lba n)" for lba n using demo_drive_answers by (simp add: disk_drive_def drive_answers_def demo_drive_def)
  then show ?thesis unfolding drive_serves_def nw by (simp add: disk_drive_def)
qed

interpretation ata_disk: block_device "ata_sectors (disk_drive D a) (a\<lparr>ata_initialized := True\<rparr>)" D for D a
  by (rule ata_block_device [OF _ disk_drive_serves]) simp_all

section \<open>A file on the disk\<close>


text \<open>A volume of blocks of 1024 bytes: the inode table is block 5, the blocks of the second inode are 7 and 9.\<close>

definition demo_volume :: "nat \<Rightarrow> u8" where
  "demo_volume i = (if i div 1024 = 5 then demo_inodes ! (i mod 1024) else if i div 1024 = 7 then 65 else if i div 1024 = 9 then 66 else 0)"

lemma demo_ready: "demo_ata\<lparr>ata_initialized := True\<rparr> = demo_ata" by (simp add: demo_ata_def)

lemma demo_volume_inode:
  "ext2_read_inode demo_layout (ata_sectors (disk_drive demo_volume demo_ata) demo_ata) True (fs_inode demo_node) demo_ext2 = Inr (Some demo_inode)"
proof -
  have "ext2_read_inode demo_layout (ata_sectors (disk_drive demo_volume demo_ata) demo_ata) True 2 demo_ext2 =
      Inr (Some (as_inode demo_layout (map demo_volume [unat (5 :: u32) * (512 * 2) + 128..<unat (5 :: u32) * (512 * 2) + 128 + sizeof_inode demo_layout])))"
    by (rule ata_disk.read_inode_bytes [where a = demo_ata, unfolded demo_ready, where d = "projr (e2_bgds demo_ext2)" and grp = 0 and off = 128])
      (simp_all add: demo_layout_def demo_ext2_def get32_def)
  also have "as_inode demo_layout (map demo_volume [unat (5 :: u32) * (512 * 2) + 128..<unat (5 :: u32) * (512 * 2) + 128 + sizeof_inode demo_layout]) = demo_inode"
  proof -
    have byte: "demo_volume i = (if i = 5252 then 0xDC else if i = 5253 then 5 else if i = 5288 then 7 else if i = 5292 then 9 else 0)"
      if "5248 \<le> i" "i < 5376" for i
    proof -
      have q: "i div 1024 = 5" by (rule div_nat_eqI) (use that in simp_all)
      then have "i mod 1024 = i - 5120" by (simp add: minus_mult_div_eq_mod [symmetric])
      then show ?thesis using q that by (simp add: demo_volume_def demo_inodes_def del: upt_rec_numeral) linarith
    qed
    have "[0..<15] = [0, 1, 2, 3, 4, 5, 6, 7, 8, 9, 10, 11, 12, 13, 14 :: nat]" by (simp add: upt_rec)
    then show ?thesis by (simp add: demo_layout_def demo_inode_def get32_def byte del: upt_rec_numeral)
  qed
  finally show ?thesis by (simp add: demo_node_def)
qed


end
