(* ===== verification/Spec2Isabelle.thy ===== *)
theory Spec2Isabelle
  imports Kernel_Heap Virtual_Memory Process_Manager Kernel_Log Security_Caps Interrupt_Control Acpi_Apic
    Task_Scheduler Spinlock Mutex Semaphore Condition_Variable Fifo_Interface Message_Queue Pipe Keyboard
    Vga_Console File_Table Syscalls Syscall_Table Net_Checksum
    Ethernet Ip_Arp Icmp Udp Tcp Dhcp Dns Graphics Input_Events Window_Manager Widgets
    Ata Fat32 Mouse Clocks Pci Serial_Port Stdio Draw_Ops Task_View Notifications Desktop_Shell Task_Bar
    Settings_App Launcher Ahci Shell Terminal Notepad Small_Apps Kernel_Main Power_Update Crash_Handler
    Ext2 Small_Drivers Demo_Apps Disk_Stack
begin

text \<open>
  Verification of the Maya OS kernel, a 32-bit x86 operating system written in C. This theory
  imports the whole development. Paths are those of the repository, below \<^verbatim>\<open>src/\<close>.

  Conventions. A C integer is a word of its width (\<open>u8\<close>, \<open>u16\<close>, \<open>u32\<close>), so additions wrap as they do
  on the machine; a pointer is a \<open>u32\<close> and the null pointer is 0; a struct is a record, an enum a
  datatype. A function that changes state takes the state and returns it, with its result. What a
  C function can do besides returning is a value of the type \<open>fault\<close> of Maya_Prelude: a null or a
  dangling pointer is followed, an array is left, or a busy loop waits for something nobody else
  will do. A function that can do so returns \<open>fault + result\<close>. Functions that give up the
  processor are cut at that point into the part before it and the part that resumes. Loops over
  lists and tables are structural recursions. The other loops that end are functions with a
  termination proof (\<open>fold_sum\<close>, \<open>dhcp_scan\<close>, \<open>number_loop\<close>, \<open>pci_read_bars\<close>, \<open>alloc_tables\<close>, \<open>read_blocks\<close>,
  \<open>file_labels\<close>). Where the code can run forever the loop is a partial function into option: the scans
  of the memory map and of the MADT, the walks along a FAT, a widget chain or a directory
  (\<open>search_chain\<close>, \<open>readdir_chain\<close>, \<open>copy_clusters\<close>, \<open>chain_end\<close>, \<open>draw_chain\<close>, \<open>list_entries\<close>), the waits for
  hardware (\<open>wait_port\<close>, \<open>wait_acpi\<close>, \<open>wait_ticks\<close>, \<open>rtc_wait\<close>, \<open>wait_clear\<close>, \<open>wait_command\<close>), the line of
  the graphics library and the loops of the pipe and of \<^verbatim>\<open>timer_sleep\<close>. That such a loop returns is a
  theorem with the condition it needs, or part of the statement about its result. No theory uses fuel.

  Code that is not in the repository, and what hardware answers, is a parameter:
  \<^item> the interrupt flag, the current process and the block and wake functions (\<open>os\<close> of Spinlock and its
    clients), the file, socket and process services behind the second system call table (\<open>services\<close> of
    Syscall_Table), application callbacks (\<open>call\<close> of Udp and Tcp), the results of the initialisation
    functions where only their order matters (Kernel_Main);
  \<^item> functions called and defined nowhere: \<^verbatim>\<open>vsnprintf\<close> (the \<open>formatter\<close> of Kernel_Log), \<^verbatim>\<open>vsprintf\<close> (Stdio),
    the encoder of names (\<open>enc\<close> of Dns), \<^verbatim>\<open>window_draw_pixel\<close> and \<^verbatim>\<open>graphics_update\<close> (Widgets),
    \<^verbatim>\<open>timer_get_tick\<close> (Task_Bar), \<^verbatim>\<open>pci_find_device\<close> (Small_Drivers), the default items of the launcher,
    and constants or layouts of headers that do not exist (\<open>L\<close> of Ext2, colours and limits of the desktop
    programs);
  \<^item> devices, as the values successive reads give: the registers of the network card (\<open>rtl_hw\<close>), the drives
    (\<open>drive\<close> of Ata, the streams of Ahci), the controllers of keyboard and mouse, the clock chip
    (\<open>cmos\<close>), the PCI configuration space (\<open>cfg_space\<close>), the line status of the serial port; below a file
    system, the disk as a function from sectors to bytes;
  \<^item> the font table, which is empty in the source; the directories the shell and the file manager list;
    the results of \<^verbatim>\<open>kmalloc\<close> where only success matters; the contents of uninitialised variables and
    memory (\<open>g\<close>, \<open>stk\<close>, \<open>junk\<close>, \<open>leak\<close>).

  Theories, in the order of their dependencies.

  \<^item> Maya_Prelude: words, faults, the search loop \<open>first_index\<close> that all fixed tables share, the
    contents of ring buffers, byte order, rounding.
  \<^item> Kernel_Heap (\<^verbatim>\<open>kernel/memory.c\<close>: \<^verbatim>\<open>heap_init\<close>, \<^verbatim>\<open>kmalloc\<close>, \<^verbatim>\<open>kfree\<close>, \<^verbatim>\<open>kmalloc_aligned\<close>, DMA buffers):
    the chain of blocks with \<open>heap_ok\<close>, fresh and best-fit allocation, release as the inverse of
    allocation, and where merging breaks the layout. Its locale \<open>buffer_allocator\<close> is what the
    clients of the heap use.
  \<^item> Virtual_Memory (\<^verbatim>\<open>kernel/memory.c\<close>: memory map, page tables, user pointer checks): mapping and
    translation agree, the checks are range checks.
  \<^item> Process_Manager (\<^verbatim>\<open>kernel/process.c\<close>), Task_Scheduler (\<^verbatim>\<open>kernel/scheduler.c\<close>, \<^verbatim>\<open>kernel/timer.c\<close>): the process
    table and its invariant, creation, destruction, switching; the priority list, the quantum,
    sleeping.
  \<^item> Kernel_Log (\<^verbatim>\<open>kernel/logging.c\<close>), Security_Caps (\<^verbatim>\<open>kernel/security.c\<close>), Interrupt_Control
    (\<^verbatim>\<open>kernel/interrupts.c\<close>), Acpi_Apic (\<^verbatim>\<open>kernel/acpi.c\<close>, \<^verbatim>\<open>kernel/apic.c\<close>): the log ring as the last
    characters of the text, capabilities as sets, gates and dispatch, table discovery.
  \<^item> Spinlock, Mutex, Semaphore, Condition_Variable, Message_Queue, Pipe (the files of the same names
    under \<^verbatim>\<open>kernel/\<close>): each sequential code and a step relation of many processors or processes, with
    mutual exclusion, balance and first-in-first-out refinement by rule induction. Fifo_Interface
    holds the locale of a queue that Message_Queue, Pipe and Keyboard interpret.
  \<^item> Keyboard (\<^verbatim>\<open>drivers/keyboard.c\<close>), Vga_Console (\<^verbatim>\<open>drivers/vga.c\<close>): the key buffer and decoder, the text
    screen.
  \<^item> File_Table (\<^verbatim>\<open>fs/file.c\<close>, \<^verbatim>\<open>fs/vfs.c\<close>), Syscalls (\<^verbatim>\<open>kernel/syscall.c\<close>), Syscall_Table
    (\<^verbatim>\<open>kernel/syscall_table.c\<close>): descriptors, and which user memory the calls reach.
  \<^item> Net_Checksum, Ethernet (\<^verbatim>\<open>drivers/rtl8139.c\<close>, \<^verbatim>\<open>net/nic.c\<close>, \<^verbatim>\<open>net/ethernet.c\<close>), Ip_Arp (\<^verbatim>\<open>net/arp.c\<close>,
    \<^verbatim>\<open>net/ip.c\<close>), Icmp, Udp, Tcp, Dhcp, Dns (the files of the same names under \<^verbatim>\<open>net/\<close>): each layer extends
    the state record of the one below it. A packet is the list of its bytes, built and read by the
    same field accesses as in the code. The theorems compose the layers: what one host sends is
    put into a frame, and the frame is handled by the other host's layers down to its callback.

  \<^item> Ata (\<^verbatim>\<open>drivers/ata.c\<close>), Ahci (\<^verbatim>\<open>drivers/ahci.c\<close>), Fat32 (\<^verbatim>\<open>fs/fat32.c\<close>), Ext2 (\<^verbatim>\<open>fs/ext2.c\<close>): commands as
    the port writes and memory structures they are made of, directory search and listing, files as the bytes
    of their blocks. Disk_Stack puts Ext2 on Ata through the locale \<open>block_device\<close> and follows a read of a
    file down to the bytes of the disk.
  \<^item> Mouse (\<^verbatim>\<open>drivers/mouse.c\<close>), Clocks (\<^verbatim>\<open>drivers/pit.c\<close>, \<^verbatim>\<open>drivers/timer.c\<close>, \<^verbatim>\<open>drivers/rtc.c\<close>), Pci
    (\<^verbatim>\<open>drivers/pci.c\<close>), Serial_Port (\<^verbatim>\<open>drivers/serial.c\<close>), Small_Drivers (sound, the e1000 card and the
    drivers that only announce themselves), Stdio (\<^verbatim>\<open>libc/stdio.c\<close>): reports decoded from their bytes,
    divisors and dates, the enumeration of the bus, the text a format prints.
  \<^item> Graphics (\<^verbatim>\<open>gui/graphics.c\<close>): which pixels each call changes. Draw_Ops: the calls to it as data, with
    \<open>run_ops\<close> carrying them out, so that the drawing of the parts of the desktop can be compared and
    shown to stay inside the frame buffer.
  \<^item> Input_Events (\<^verbatim>\<open>gui/input.c\<close>), Window_Manager (\<^verbatim>\<open>gui/window.c\<close>), Widgets (\<^verbatim>\<open>gui/widgets.c\<close> and the
    drawing of windows): the event ring as a queue (an interpretation of the locale of Fifo_Interface),
    the list of windows with its invariant over all runs, clicks and keys handed to the widget they are for.
  \<^item> Desktop_Shell (\<^verbatim>\<open>gui/desktop.c\<close>), Task_Bar, Task_View, Notifications, Launcher, Settings_App and
    Small_Apps, Demo_Apps (the files of these names under \<^verbatim>\<open>gui/\<close> and \<^verbatim>\<open>gui/apps/\<close>): what is drawn, where, and
    what a click or a key there does.
  \<^item> Notepad, Terminal (\<^verbatim>\<open>gui/apps/\<close>) and Shell (\<^verbatim>\<open>apps/shell/shell.c\<close>): the notepad refines a text as a list
    of lines; what is typed into the terminal is the command the shell runs.
  \<^item> Kernel_Main (\<^verbatim>\<open>kernel/kernel.c\<close>), Power_Update (\<^verbatim>\<open>kernel/power.c\<close>, \<^verbatim>\<open>kernel/update.c\<close>), Crash_Handler
    (\<^verbatim>\<open>kernel/crash_handler.c\<close>): the order of initialisation and its first failure, the main loop, shutdown
    and update, the report of a crash on top of the log of Kernel_Log.

  Properties are stated next to the component they are about; the most important ones are
  numbered C1 to C40. Theorems whose name ends in \<open>_witness\<close> apply a property to a concrete state.

  What the theorems assume of the heap. \<open>heap_ok\<close> holds after \<open>heap_init\<close> and is kept by every
  allocation and by a release that undoes the last allocation, which is how all buffers of the
  network code are used; \<open>kfree_merge_makes_blocks_overlap\<close> shows that it is not kept by arbitrary
  releases, because merging counts descriptors that splitting did not set aside.

  Not modelled: assembly (\<^verbatim>\<open>boot/\<close>); files with declarations only (\<^verbatim>\<open>kernel/syscalls.c\<close>, \<^verbatim>\<open>gui/apps.c\<close>,
  \<^verbatim>\<open>apps/filemgr/filemanager.c\<close>) and the prototypes and unused types of the headers; the build scripts. Of the
  C functions with a body four are left out because nothing can be said of them: \<^verbatim>\<open>maya_input_update\<close>,
  which is empty, \<^verbatim>\<open>scheduler_idle_task\<close>, which halts forever, and the readers of \<^verbatim>\<open>total_memory\<close>, which is an
  argument here.
\<close>

end
